(* ===== verification/Prelude.thy ===== *)
theory Prelude
  imports Complex_Main "HOL-Library.List_Lexorder" "HOL-Library.Char_ord"
    "HOL-Library.Product_Lexorder"
begin

text \<open>
  Shared vocabulary of the development.

  \<^item> Python values as they reach a constructor (\<open>pyval\<close>), with the two validation idioms the
    code repeats everywhere: "a non-negative integer that is not a bool" (\<open>nonneg_int\<close>) and
    "a finite non-negative number" (\<open>nonneg_number\<close>).
  \<^item> Exceptions as values (\<open>py_error\<close>); the text of a message is not modelled.  A fallible
    computation is a \<open>py_error + 'a\<close>, \<open>Inl\<close> for the raise; \<open>check\<close> is the guard-or-raise
    statement and \<open>bindr\<close> sequencing.
  \<^item> Finite Python floats (clock readings, seconds, weights) are exact rationals; rounding is not
    modelled.  A \<open>string\<close> is a Python \<open>str\<close> whose code points are below 256.
  \<^item> Generic lemmas about lists, sums over lists and reachability used by several components.
\<close>

named_theorems result_simps \<open>inversion of guarded and sequenced computations\<close>
named_theorems table_simps \<open>what a statement does to a table\<close>

section \<open>Python values and exceptions\<close>

type_synonym time = rat

datatype pyfloat = Finite rat | PosInf | NegInf | NaN

datatype pyval = PyNone | PyBool bool | PyInt int | PyFloat pyfloat | PyStr string

datatype py_error =
    ValueError | KeyError | RuntimeError | TypeError | IntegrityError
  | StateTransitionError
  | StaleLeaseError | BatchConflictError | BatchSequenceError | WorkerRejectedError
  | FabricProtocolMismatchError | ProviderAccessDeniedError | WorkerEgressBudgetExceededError
  | FileNotFoundError

fun nonneg_int :: "pyval \<Rightarrow> bool" where
  "nonneg_int (PyInt n) = (0 \<le> n)"
| "nonneg_int _ = False"

fun as_number :: "pyval \<Rightarrow> rat option" where
  "as_number (PyInt n) = Some (of_int n)"
| "as_number (PyFloat (Finite q)) = Some q"
| "as_number _ = None"

definition nonneg_number :: "pyval \<Rightarrow> bool" where
  "nonneg_number v = (case as_number v of None \<Rightarrow> False | Some q \<Rightarrow> 0 \<le> q)"

fun the_int_of :: "pyval \<Rightarrow> int" where
  "the_int_of (PyInt n) = n"
| "the_int_of _ = 0"

definition the_number_of :: "pyval \<Rightarrow> rat" where
  "the_number_of v = (case as_number v of None \<Rightarrow> 0 | Some q \<Rightarrow> q)"

lemma nonneg_intE: "nonneg_int v \<Longrightarrow> (\<And>n. v = PyInt n \<Longrightarrow> 0 \<le> n \<Longrightarrow> P) \<Longrightarrow> P"
  by (cases v) auto

lemma nonneg_int_the [dest]: "nonneg_int v \<Longrightarrow> 0 \<le> the_int_of v"
  by (cases v) auto

lemma nonneg_number_the [dest]: "nonneg_number v \<Longrightarrow> 0 \<le> the_number_of v"
  by (auto simp: nonneg_number_def the_number_of_def split: option.splits)

section \<open>Guards and sequencing\<close>

definition check :: "bool \<Rightarrow> 'e \<Rightarrow> ('e + 'a) \<Rightarrow> ('e + 'a)" where
  "check b e k = (if b then k else Inl e)"

definition bindr :: "('e + 'a) \<Rightarrow> ('a \<Rightarrow> ('e + 'b)) \<Rightarrow> ('e + 'b)" where
  "bindr m f = (case m of Inl e \<Rightarrow> Inl e | Inr x \<Rightarrow> f x)"

fun collect :: "('e + 'a) list \<Rightarrow> 'e + 'a list" where
  "collect [] = Inr []"
| "collect (m # ms) = bindr m (\<lambda>x. bindr (collect ms) (\<lambda>xs. Inr (x # xs)))"

fun fold_result :: "('s \<Rightarrow> 'a \<Rightarrow> 'e + 's) \<Rightarrow> 'a list \<Rightarrow> 's \<Rightarrow> 'e + 's" where
  "fold_result f [] s = Inr s"
| "fold_result f (x # xs) s = bindr (f s x) (fold_result f xs)"

text \<open>The first occurrences, in order: the keys of \<open>dict.fromkeys\<close>.\<close>

definition dedup :: "'a list \<Rightarrow> 'a list" where
  "dedup xs = rev (remdups (rev xs))"

lemma check_True [simp]: "check True e k = k"
  and check_False [simp]: "check False e k = Inl e"
  by (simp_all add: check_def)

lemma check_Inr [simp, result_simps]: "check b e k = Inr r \<longleftrightarrow> b \<and> k = Inr r"
  by (simp add: check_def)

lemma check_Inl [result_simps]: "check b e k = Inl e' \<longleftrightarrow> (\<not> b \<and> e' = e) \<or> (b \<and> k = Inl e')"
  by (auto simp: check_def)

lemma bindr_Inr [simp, result_simps]: "bindr m f = Inr r \<longleftrightarrow> (\<exists>x. m = Inr x \<and> f x = Inr r)"
  by (cases m) (simp_all add: bindr_def)

lemma bindr_simps [simp]: "bindr (Inl e) f = Inl e" "bindr (Inr x) f = f x"
  by (simp_all add: bindr_def)

lemma set_dedup [simp]: "set (dedup xs) = set xs"
  and distinct_dedup [simp]: "distinct (dedup xs)"
  and dedup_Nil [simp]: "dedup xs = [] \<longleftrightarrow> xs = []"
  by (simp_all add: dedup_def)

lemma fold_result_inv:
  assumes "fold_result f xs s = Inr t" "P s" "\<And>s x t. x \<in> set xs \<Longrightarrow> f s x = Inr t \<Longrightarrow> P s \<Longrightarrow> P t"
  shows "P t"
  using assms by (induction xs arbitrary: s) auto

lemma collect_Inr: "collect ms = Inr xs \<longleftrightarrow> ms = List.map Inr xs"
  by (induction ms arbitrary: xs) auto

section \<open>Strings\<close>

text \<open>
  \<open>str.strip\<close> and \<open>str.lower\<close> on code points below 256: the white space of that range, and the
  upper-case letters A-Z and the accented capitals 192-222 without the multiplication sign.
\<close>

definition py_space :: "char \<Rightarrow> bool" where
  "py_space c = (let n = (of_char c :: nat) in (9 \<le> n \<and> n \<le> 13) \<or> (28 \<le> n \<and> n \<le> 32) \<or> n = 133 \<or> n = 160)"

definition py_lower_char :: "char \<Rightarrow> char" where
  "py_lower_char c = (let n = (of_char c :: nat) in
     if (65 \<le> n \<and> n \<le> 90) \<or> (192 \<le> n \<and> n \<le> 222 \<and> n \<noteq> 215) then char_of (n + 32) else c)"

definition py_lower :: "string \<Rightarrow> string" where
  "py_lower s = List.map py_lower_char s"

definition py_strip :: "string \<Rightarrow> string" where
  "py_strip s = rev (dropWhile py_space (rev (dropWhile py_space s)))"

definition blank :: "string \<Rightarrow> bool" where
  "blank s = (py_strip s = [])"

fun starts_with :: "string \<Rightarrow> string \<Rightarrow> bool" where
  "starts_with s [] = True"
| "starts_with [] (p # ps) = False"
| "starts_with (c # cs) (p # ps) = (c = p \<and> starts_with cs ps)"

definition digit_value :: "char \<Rightarrow> int option" where
  "digit_value c = (let n = (of_char c :: nat) in if 48 \<le> n \<and> n \<le> 57 then Some (int n - 48) else None)"

text \<open>\<open>int\<close> of a word: an optional sign, then digits with single underscores between them.\<close>

fun parse_digits :: "int \<Rightarrow> bool \<Rightarrow> string \<Rightarrow> int option" where
  "parse_digits acc after_digit [] = (if after_digit then Some acc else None)"
| "parse_digits acc after_digit (c # cs) =
     (if c = CHR ''_'' then (if after_digit then parse_digits acc False cs else None)
      else case digit_value c of None \<Rightarrow> None | Some d \<Rightarrow> parse_digits (acc * 10 + d) True cs)"

fun py_int :: "string \<Rightarrow> int option" where
  "py_int [] = None"
| "py_int (c # cs) =
     (if c = CHR ''-'' then map_option uminus (parse_digits 0 False cs)
      else if c = CHR ''+'' then parse_digits 0 False cs
      else parse_digits 0 False (c # cs))"

text \<open>\<open>str.isdigit\<close> also holds of the superscript digits, which \<open>int\<close> rejects.\<close>

definition py_isdigit :: "string \<Rightarrow> bool" where
  "py_isdigit s = (s \<noteq> [] \<and> list_all (\<lambda>c. digit_value c \<noteq> None \<or> (of_char c :: nat) \<in> {178, 179, 185}) s)"

lemma starts_with_append: "starts_with s p \<longleftrightarrow> (\<exists>t. s = p @ t)"
  by (induction s p rule: starts_with.induct) auto

lemma dropWhile_all: "(\<And>x. x \<in> set xs \<Longrightarrow> P x) \<Longrightarrow> dropWhile P xs = []"
  by (induction xs) auto

lemma blank_iff: "blank s \<longleftrightarrow> (\<forall>c \<in> set s. py_space c)"
proof -
  have "blank s \<longleftrightarrow> dropWhile py_space (rev (dropWhile py_space s)) = []"
    by (simp add: blank_def py_strip_def)
  also have "\<dots> \<longleftrightarrow> (\<forall>c \<in> set (dropWhile py_space s). py_space c)"
    by (simp add: dropWhile_eq_Nil_conv)
  also have "\<dots> \<longleftrightarrow> (\<forall>c \<in> set s. py_space c)"
    by (induction s) auto
  finally show ?thesis .
qed

lemma py_strip_id:
  assumes "s \<noteq> []" "\<not> py_space (hd s)" "\<not> py_space (last s)"
  shows "py_strip s = s"
proof -
  have "dropWhile py_space s = s" using assms(1,2) by (cases s) auto
  moreover have "dropWhile py_space (rev s) = rev s"
    using assms(1,3) by (cases s rule: rev_cases) auto
  ultimately show ?thesis by (simp add: py_strip_def)
qed

section \<open>Lists\<close>

lemma length_filter_map_if:
  "(\<And>r. r \<in> set t \<Longrightarrow> Q (if P r then f r else r) = Q r) \<Longrightarrow>
   length (filter Q (List.map (\<lambda>r. if P r then f r else r) t)) = length (filter Q t)"
  by (induction t) auto

lemma find_Some_set: "List.find P xs = Some x \<Longrightarrow> x \<in> set xs \<and> P x"
  by (auto simp: find_Some_iff)

lemma find_None_all: "List.find P xs = None \<longleftrightarrow> (\<forall>x \<in> set xs. \<not> P x)"
  by (auto simp: find_None_iff)

text \<open>The slices \<open>xs[start:start + n]\<close> of a loop over \<open>range(0, len(xs), n)\<close>, for a positive \<open>n\<close>.\<close>

function chunks :: "nat \<Rightarrow> 'a list \<Rightarrow> 'a list list" where
  "chunks n xs = (if xs = [] \<or> n = 0 then [] else take n xs # chunks n (drop n xs))"
  by pat_completeness auto
termination by (relation "measure (\<lambda>(n, xs). length xs)") auto

declare chunks.simps [simp del]

lemma concat_chunks [simp]: "0 < n \<Longrightarrow> concat (chunks n xs) = xs"
proof (induction n xs rule: chunks.induct)
  case (1 n xs)
  then show ?case by (subst chunks.simps) simp
qed

lemma length_chunk: "c \<in> set (chunks n xs) \<Longrightarrow> c \<noteq> [] \<and> length c \<le> n"
proof (induction n xs rule: chunks.induct)
  case (1 n xs)
  then show ?case by (subst (asm) (2) chunks.simps) (auto split: if_splits)
qed

lemma fold_concat_map: "fold f (concat xss) s = fold (fold f) xss s"
  by (induction xss arbitrary: s) auto

section \<open>Reachability and invariants\<close>

text \<open>
  The contract every state machine of the development meets: a start condition, a step relation and
  an invariant that holds at the start and is kept by each step.  A component interprets the locale
  on its own step relation and gets the invariant for all reachable states.
\<close>

locale machine =
  fixes init :: "'s \<Rightarrow> bool"
    and step :: "'s \<Rightarrow> 's \<Rightarrow> bool"
    and inv :: "'s \<Rightarrow> bool"
  assumes inv_init: "init s \<Longrightarrow> inv s"
    and inv_step: "inv s \<Longrightarrow> step s t \<Longrightarrow> inv t"
begin

lemma inv_steps:
  assumes "step\<^sup>*\<^sup>* s t" and "inv s"
  shows "inv t"
  using assms by (induction rule: rtranclp_induct) (auto intro: inv_step)

lemma inv_reachable:
  assumes "init s" and "step\<^sup>*\<^sup>* s t"
  shows "inv t"
  using assms inv_init inv_steps by blast

lemma preserved_along:
  assumes run: "step\<^sup>*\<^sup>* s t" and start: "inv s" "P s"
    and keep: "\<And>u v. inv u \<Longrightarrow> P u \<Longrightarrow> step u v \<Longrightarrow> P v"
  shows "P t"
proof -
  from run have "inv t \<and> P t"
    by (induction rule: rtranclp_induct) (use start keep inv_step in blast)+
  then show ?thesis ..
qed

lemma monotone_along:
  fixes m :: "'s \<Rightarrow> 'm::preorder"
  assumes run: "step\<^sup>*\<^sup>* s t" and start: "inv s"
    and up: "\<And>u v. inv u \<Longrightarrow> step u v \<Longrightarrow> m u \<le> m v"
  shows "m s \<le> m t"
  by (rule preserved_along [OF run start, where P = "\<lambda>u. m s \<le> m u"])
     (auto intro: order_trans up)

end

end
