(* ===== verification/Fabric_Models.thy ===== *)
theory Fabric_Models
  imports Prelude
begin

text \<open>
  Identities and wire-neutral models of the distributed fabric
  (\<open>src/creeper/distributed/identity.py\<close>, \<open>models.py\<close>).

  \<open>canonical_json\<close> is \<open>json.dumps\<close> with sorted keys, compact separators and
  \<open>ensure_ascii=False\<close>; \<open>stable_identity\<close> hashes a kind, a zero byte and that text.  The SHA-256
  function of \<open>hashlib\<close> and \<open>float.__repr__\<close> are the fields of \<open>codec\<close>, a parameter of every
  definition that uses them.  The dataclasses are records, each with the \<open>__post_init__\<close> check as
  a function into \<open>py_error + _\<close>.
\<close>

section \<open>Canonical JSON and identities\<close>

datatype json = JNull | JBool bool | JInt int | JFloat rat | JStr string
  | JArr "json list" | JObj "(string \<times> json) list"

record codec =
  sha256 :: "string \<Rightarrow> string"
  float_repr :: "rat \<Rightarrow> string"

fun dec_digits :: "nat \<Rightarrow> string" where
  "dec_digits n = (if n < 10 then [char_of (48 + n)] else dec_digits (n div 10) @ [char_of (48 + n mod 10)])"

declare dec_digits.simps [simp del]

definition dec_int :: "int \<Rightarrow> string" where
  "dec_int i = (if i < 0 then CHR ''-'' # dec_digits (nat (- i)) else dec_digits (nat i))"

definition hex_digit :: "nat \<Rightarrow> char" where
  "hex_digit n = (if n < 10 then char_of (48 + n) else char_of (87 + n))"

definition json_escape_char :: "char \<Rightarrow> string" where
  "json_escape_char c = (let n = (of_char c :: nat) in
     if n = 34 then [CHR 0x5C, CHR 0x22]
     else if n = 92 then [CHR 0x5C, CHR 0x5C]
     else if n = 8 then [CHR 0x5C, CHR ''b'']
     else if n = 12 then [CHR 0x5C, CHR ''f'']
     else if n = 10 then [CHR 0x5C, CHR ''n'']
     else if n = 13 then [CHR 0x5C, CHR ''r'']
     else if n = 9 then [CHR 0x5C, CHR ''t'']
     else if n < 32 then [CHR 0x5C, CHR ''u'', CHR ''0'', CHR ''0'', hex_digit (n div 16), hex_digit (n mod 16)]
     else [c])"

definition json_quote :: "string \<Rightarrow> string" where
  "json_quote s = CHR 0x22 # concat (List.map json_escape_char s) @ [CHR 0x22]"

fun comma_join :: "string list \<Rightarrow> string" where
  "comma_join [] = []"
| "comma_join [x] = x"
| "comma_join (x # xs) = x @ CHR '','' # comma_join xs"

fun canonical_json :: "codec \<Rightarrow> json \<Rightarrow> string" where
  "canonical_json E JNull = ''null''"
| "canonical_json E (JBool b) = (if b then ''true'' else ''false'')"
| "canonical_json E (JInt i) = dec_int i"
| "canonical_json E (JFloat q) = float_repr E q"
| "canonical_json E (JStr s) = json_quote s"
| "canonical_json E (JArr js) = CHR ''['' # comma_join (List.map (canonical_json E) js) @ '']''"
| "canonical_json E (JObj kvs) =
     CHR ''{'' # comma_join (List.map snd (sort_key fst
       (List.map (\<lambda>(k, v). (k, json_quote k @ CHR '':'' # canonical_json E v)) kvs))) @ ''}''"

definition utf8_char :: "char \<Rightarrow> string" where
  "utf8_char c = (let n = (of_char c :: nat) in
     if n < 128 then [c] else [char_of (192 + n div 64), char_of (128 + n mod 64)])"

definition utf8 :: "string \<Rightarrow> string" where
  "utf8 s = concat (List.map utf8_char s)"

definition stable_identity :: "codec \<Rightarrow> string \<Rightarrow> json \<Rightarrow> py_error + string" where
  "stable_identity E kind payload =
     check (\<not> blank kind) ValueError
       (Inr (sha256 E (utf8 kind @ CHR 0x00 # utf8 (canonical_json E payload))))"

definition work_key :: "codec \<Rightarrow> string \<Rightarrow> string \<Rightarrow> json \<Rightarrow> string \<Rightarrow> string \<Rightarrow> py_error + string" where
  "work_key E producer input_identity payload part algorithm_version =
     check (\<not> blank producer \<and> \<not> blank input_identity \<and> \<not> blank algorithm_version) ValueError
       (stable_identity E ''work'' (JObj
          [(''producer'', JStr (py_strip producer)),
           (''input'', JStr (py_strip input_identity)),
           (''payload'', payload),
           (''partition'', JStr (py_strip part)),
           (''algorithm_version'', JStr (py_strip algorithm_version))]))"

definition batch_id :: "codec \<Rightarrow> string \<Rightarrow> int \<Rightarrow> py_error + string" where
  "batch_id E task_id sequence_no =
     check (\<not> blank task_id \<and> 0 \<le> sequence_no) ValueError
       (stable_identity E ''result-batch'' (JObj
          [(''task_id'', JStr (py_strip task_id)), (''sequence_no'', JInt sequence_no)]))"

definition is_hex_lower :: "char \<Rightarrow> bool" where
  "is_hex_lower c = (let n = (of_char c :: nat) in (48 \<le> n \<and> n \<le> 57) \<or> (97 \<le> n \<and> n \<le> 102))"

definition artifact_id :: "codec \<Rightarrow> string \<Rightarrow> py_error + string" where
  "artifact_id E sha256_hex =
     (let v = py_lower (py_strip sha256_hex) in
      check (length v = 64 \<and> (\<forall>c \<in> set v. is_hex_lower c)) ValueError
        (stable_identity E ''artifact'' (JObj [(''sha256'', JStr v)])))"

section \<open>Models\<close>

datatype task_class = RESIDUAL_QUERY | SOURCE_SHARD | HOST_BATCH | EVIDENCE_BATCH | REGION_PROBE

definition FABRIC_PROTOCOL_VERSION :: string where
  "FABRIC_PROTOCOL_VERSION = ''creeper-fabric-v2''"

record worker_descriptor =
  wd_worker_id :: string
  wd_instance_id :: string
  wd_runtime_class :: string
  wd_region :: string
  wd_architecture :: string
  wd_memory_bytes :: int
  wd_cpu_count :: int
  wd_network_class :: string
  wd_capabilities :: "string list"
  wd_producers :: "string list"
  wd_allowed_providers :: "string list"
  wd_daily_egress_budget_bytes :: int
  wd_protocol_version :: string
  wd_edition_version :: string

definition unique_nonempty :: "string list \<Rightarrow> bool" where
  "unique_nonempty vs = (distinct vs \<and> (\<forall>v \<in> set vs. \<not> blank v))"

definition worker_descriptor_init :: "worker_descriptor \<Rightarrow> py_error + worker_descriptor" where
  "worker_descriptor_init d =
     check (\<forall>v \<in> set [wd_worker_id d, wd_instance_id d, wd_runtime_class d, wd_region d,
              wd_architecture d, wd_network_class d, wd_protocol_version d, wd_edition_version d]. \<not> blank v)
       ValueError (
     check (\<not> (wd_memory_bytes d < 0 \<or> wd_cpu_count d < 1)) ValueError (
     check (0 \<le> wd_daily_egress_budget_bytes d) ValueError (
     check (\<forall>vs \<in> set [wd_capabilities d, wd_producers d, wd_allowed_providers d]. unique_nonempty vs) ValueError (
     check (wd_capabilities d \<noteq> [] \<and> wd_producers d \<noteq> []) ValueError (
     Inr d)))))"

record work_definition =
  df_producer :: string
  df_task_class :: task_class
  df_input_identity :: string
  df_payload :: json
  df_partition :: string
  df_algorithm_version :: string
  df_required_capabilities :: "string list"
  df_required_providers :: "string list"
  df_priority :: rat
  df_max_attempts :: int
  df_not_before :: time

definition work_definition_init :: "work_definition \<Rightarrow> py_error + work_definition" where
  "work_definition_init w =
     check (\<not> blank (df_producer w) \<and> \<not> blank (df_input_identity w)) ValueError (
     check (\<not> blank (df_algorithm_version w)) ValueError (
     check (distinct (df_required_capabilities w)) ValueError (
     check (distinct (df_required_providers w)) ValueError (
     check (1 \<le> df_max_attempts w) ValueError (
     check (0 \<le> df_not_before w) ValueError (
     Inr w))))))"

definition work_key_of :: "codec \<Rightarrow> work_definition \<Rightarrow> py_error + string" where
  "work_key_of E w = work_key E (df_producer w) (df_input_identity w) (df_payload w)
     (df_partition w) (df_algorithm_version w)"

record task_lease =
  tl_task_id :: string
  tl_work_key :: string
  tl_worker_id :: string
  tl_instance_id :: string
  tl_generation :: int
  tl_lease_deadline :: time
  tl_attempt :: int
  tl_work :: work_definition
  tl_cursor :: "string option"
  tl_next_sequence_no :: int

definition task_lease_init :: "task_lease \<Rightarrow> py_error + task_lease" where
  "task_lease_init l =
     check (1 \<le> tl_generation l \<and> 1 \<le> tl_attempt l \<and> 0 \<le> tl_next_sequence_no l) ValueError (Inr l)"

record artifact_ref =
  ar_uri :: string
  ar_sha256 :: string
  ar_size_bytes :: int
  ar_content_type :: string
  ar_compression :: string
  ar_metadata :: "(string \<times> json) list"

definition artifact_ref_init :: "codec \<Rightarrow> artifact_ref \<Rightarrow> py_error + artifact_ref" where
  "artifact_ref_init E a =
     check (\<not> blank (ar_uri a)) ValueError (
     bindr (artifact_id E (ar_sha256 a)) (\<lambda>_.
     check (0 \<le> ar_size_bytes a) ValueError (
     check (\<not> blank (ar_content_type a) \<and> \<not> blank (ar_compression a)) ValueError (
     Inr a))))"

record result_batch =
  rb_task_id :: string
  rb_generation :: int
  rb_sequence_no :: int
  rb_results :: "(string \<times> json) list list"
  rb_artifacts :: "artifact_ref list"
  rb_cursor_after :: "string option"
  rb_final :: bool

definition result_batch_init :: "result_batch \<Rightarrow> py_error + result_batch" where
  "result_batch_init b =
     check (\<not> blank (rb_task_id b) \<and> 1 \<le> rb_generation b \<and> 0 \<le> rb_sequence_no b) ValueError (Inr b)"

record provider_permit =
  pm_permit_id :: string
  pm_request_id :: string
  pm_provider :: string
  pm_worker_id :: string
  pm_instance_id :: string
  pm_task_id :: string
  pm_generation :: int
  pm_allowed_requests :: int
  pm_max_inflight :: int
  pm_expires_at :: time

section \<open>Identities determine what they identify\<close>

text \<open>
  The text that is hashed is injective: decimal numerals, JSON escapes and UTF-8 are prefix-free
  codes, so a collision-free hash gives different batches different identities.
\<close>

lemma digit_char: "n < 10 \<Longrightarrow> (of_char (char_of (48 + n) :: char) :: nat) = 48 + n"
  by simp

lemma dec_digits_value:
  "foldl (\<lambda>a c. 10 * a + ((of_char c :: nat) - 48)) 0 (dec_digits n) = n"
proof (induction n rule: dec_digits.induct)
  case (1 n)
  show ?case
  proof (cases "n < 10")
    case True
    then show ?thesis by (simp add: dec_digits.simps [of n])
  next
    case False
    have "(of_char (char_of (48 + n mod 10) :: char) :: nat) = 48 + n mod 10"
      by (rule digit_char) simp
    with False 1 show ?thesis by (simp add: dec_digits.simps [of n])
  qed
qed

lemma dec_digits_inj: "dec_digits m = dec_digits n \<Longrightarrow> m = n"
  by (metis dec_digits_value)

lemma dec_digits_chars: "c \<in> set (dec_digits n) \<Longrightarrow> 48 \<le> (of_char c :: nat) \<and> (of_char c :: nat) \<le> 57"
proof (induction n rule: dec_digits.induct)
  case (1 n)
  have "(of_char (char_of (48 + n mod 10) :: char) :: nat) = 48 + n mod 10"
    by (rule digit_char) simp
  moreover have "n < 10 \<Longrightarrow> (of_char (char_of (48 + n) :: char) :: nat) = 48 + n"
    by (rule digit_char)
  ultimately show ?case using 1 by (cases "n < 10") (auto simp: dec_digits.simps [of n])
qed

lemma span_inj:
  assumes "xs @ c # ys = xs' @ c # ys'" "c \<notin> set xs" "c \<notin> set xs'"
  shows "xs = xs' \<and> ys = ys'"
  using assms
proof (induction xs arbitrary: xs')
  case Nil
  then show ?case by (cases xs') auto
next
  case (Cons x xs)
  then show ?case by (cases xs') auto
qed

lemma char_nat_cases: "(of_char (c :: char) :: nat) < 256"
  using of_char_of [of 0] by (metis nat_of_char_less_256)

lemma concat_code_inj:
  assumes ne: "\<And>c. f c \<noteq> []"
    and free: "\<And>c d xs ys. f c @ xs = f d @ ys \<Longrightarrow> c = d \<and> xs = ys"
  shows "concat (List.map f s) = concat (List.map f t) \<Longrightarrow> s = t"
proof (induction s arbitrary: t)
  case Nil
  then show ?case using ne by (cases t) auto
next
  case (Cons c s)
  have "t \<noteq> []" using Cons.prems ne by auto
  then obtain d t' where t: "t = d # t'" by (cases t) auto
  have "f c @ concat (List.map f s) = f d @ concat (List.map f t')" using Cons.prems t by simp
  then have "c = d \<and> concat (List.map f s) = concat (List.map f t')" by (rule free)
  with Cons.IH t show ?case by blast
qed

lemma char_code_eq: "(of_char c :: nat) = of_char d \<Longrightarrow> c = d"
  by (metis char_of_char)

lemma char_of_inj: "m < 256 \<Longrightarrow> n < 256 \<Longrightarrow> (char_of m :: char) = char_of n \<Longrightarrow> m = (n :: nat)"
  by (metis of_char_of mod_less)

lemma hex_digit_inj: "m < 16 \<Longrightarrow> n < 16 \<Longrightarrow> hex_digit m = hex_digit n \<Longrightarrow> m = n"
  unfolding hex_digit_def by (auto split: if_splits dest: char_of_inj [rotated 2])

text \<open>The escaped code points are those below 32, the quotation mark and the backslash.\<close>

lemma escape_plain:
  "32 \<le> (of_char c :: nat) \<Longrightarrow> of_char c \<noteq> (34 :: nat) \<Longrightarrow> of_char c \<noteq> (92 :: nat) \<Longrightarrow> json_escape_char c = [c]"
  by (simp add: json_escape_char_def Let_def)

definition short_escape :: "char \<Rightarrow> nat" where
  "short_escape e = (if e = CHR 0x22 then 34 else if e = CHR 0x5C then 92 else if e = CHR ''b'' then 8
     else if e = CHR ''f'' then 12 else if e = CHR ''n'' then 10 else if e = CHR ''r'' then 13 else 9)"

lemma escape_short:
  assumes "(of_char c :: nat) \<in> {34, 92, 8, 12, 10, 13, 9}"
  obtains e where "json_escape_char c = [CHR 0x5C, e]" "e \<noteq> CHR ''u''" "of_char c = short_escape e"
  using assms by (auto simp: json_escape_char_def Let_def short_escape_def)

lemma escape_long:
  assumes "(of_char c :: nat) < 32" "of_char c \<notin> {34, 92, 8, 12, 10, 13, 9 :: nat}"
  shows "json_escape_char c = [CHR 0x5C, CHR ''u'', CHR ''0'', CHR ''0'',
    hex_digit (of_char c div 16), hex_digit (of_char c mod 16)]"
  using assms by (simp add: json_escape_char_def Let_def)

lemma utf8_char_free: "utf8_char c @ xs = utf8_char d @ ys \<Longrightarrow> c = d \<and> xs = ys"
proof -
  assume eq: "utf8_char c @ xs = utf8_char d @ ys"
  have c: "(of_char c :: nat) < 256" and d: "(of_char d :: nat) < 256" by (rule char_nat_cases)+
  show ?thesis
  proof (cases "(of_char c :: nat) < 128 \<longleftrightarrow> (of_char d :: nat) < 128")
    case True
    then show ?thesis
    proof (cases "(of_char c :: nat) < 128")
      case False
      let ?x = "of_char c :: nat" and ?y = "of_char d :: nat"
      from False True eq have e: "(192 + ?x div 64) mod 256 = (192 + ?y div 64) mod 256"
        "?x mod 64 = ?y mod 64" "xs = ys"
        by (auto simp: utf8_char_def Let_def)
      have "?x div 64 = ?y div 64" using e(1) c d by (simp add: mod_less)
      with e(2) have "?x = ?y" by (metis div_mult_mod_eq)
      with e(3) show ?thesis by (blast intro: char_code_eq)
    qed (use eq in \<open>auto simp: utf8_char_def Let_def\<close>)
  next
    case False
    have "(192 + (of_char c :: nat) div 64) mod 256 = 192 + of_char c div 64"
      "(192 + (of_char d :: nat) div 64) mod 256 = 192 + of_char d div 64"
      by (auto intro!: mod_less less_trans [OF c] less_trans [OF d] simp: div_less_iff_less_mult)
    with eq False show ?thesis
      by (auto simp: utf8_char_def Let_def split: if_splits)
  qed
qed

lemma escape_cases:
  obtains (plain) "json_escape_char c = [c]" "of_char c \<noteq> (92 :: nat)"
  | (short) e where "json_escape_char c = [CHR 0x5C, e]" "e \<noteq> CHR ''u''" "of_char c = short_escape e"
  | (long) "json_escape_char c = [CHR 0x5C, CHR ''u'', CHR ''0'', CHR ''0'',
      hex_digit (of_char c div 16), hex_digit (of_char c mod 16)]" "(of_char c :: nat) < 32"
  using escape_plain escape_short escape_long by (metis insertCI linorder_not_le)

lemma hex_pair_inj:
  assumes "x < 32" "y < 32" "hex_digit (x div 16) = hex_digit (y div 16)"
    "hex_digit (x mod 16) = hex_digit (y mod 16)"
  shows "x = (y :: nat)"
proof -
  have "x div 16 = y div 16" by (rule hex_digit_inj [OF _ _ assms(3)]) (use assms in auto)
  moreover have "x mod 16 = y mod 16" by (rule hex_digit_inj [OF _ _ assms(4)]) auto
  ultimately show ?thesis by (metis div_mult_mod_eq)
qed

lemma escape_free: "json_escape_char c @ xs = json_escape_char d @ ys \<Longrightarrow> c = d \<and> xs = ys"
  by (cases rule: escape_cases [of c]; cases rule: escape_cases [of d])
     (auto intro: char_code_eq dest: hex_pair_inj)

text \<open>Equal identities of batches come from equal tasks and sequence numbers.\<close>

lemma utf8_inj: "utf8 s = utf8 t \<Longrightarrow> s = t"
  unfolding utf8_def
  by (rule concat_code_inj [OF _ utf8_char_free]) (auto simp: utf8_char_def Let_def)

lemma json_quote_inj: "json_quote s = json_quote t \<Longrightarrow> s = t"
proof -
  assume "json_quote s = json_quote t"
  then have "concat (List.map json_escape_char s) = concat (List.map json_escape_char t)"
    by (simp add: json_quote_def)
  moreover have "json_escape_char c \<noteq> []" for c by (simp add: json_escape_char_def Let_def)
  ultimately show ?thesis using concat_code_inj [of json_escape_char s t] escape_free by blast
qed

lemma batch_text_inj:
  assumes eq: "canonical_json E (JObj [(''task_id'', JStr s), (''sequence_no'', JInt m)]) =
      canonical_json E (JObj [(''task_id'', JStr t), (''sequence_no'', JInt n)])"
    and "0 \<le> m" "0 \<le> n"
  shows "s = t \<and> m = n"
proof -
  have comma: "CHR '','' \<notin> set (dec_digits k)" for k
    using dec_digits_chars [of "CHR '',''" k] by auto
  have "dec_digits (nat m) @ CHR '','' # json_quote ''task_id'' @ CHR '':'' # json_quote s @ ''}'' =
      dec_digits (nat n) @ CHR '','' # json_quote ''task_id'' @ CHR '':'' # json_quote t @ ''}''"
    using eq assms(2,3) by (simp add: dec_int_def)
  from span_inj [OF this comma comma]
  have "dec_digits (nat m) = dec_digits (nat n)" "json_quote s = json_quote t" by simp_all
  then have "nat m = nat n" "s = t" by (auto dest: dec_digits_inj json_quote_inj)
  with assms(2,3) show ?thesis by (simp add: eq_nat_nat_iff)
qed

text \<open>
  with a collision-free hash, two result batches have the same identity exactly when they carry
  the same task (up to surrounding white space, which \<open>batch_id\<close> strips) and sequence number, so
  the primary key of the batch table identifies a batch and nothing else.
\<close>

theorem batch_id_identifies:
  assumes "inj (sha256 E)" and "batch_id E s m = Inr x" and "batch_id E t n = Inr y"
  shows "x = y \<longleftrightarrow> py_strip s = py_strip t \<and> m = n"
proof -
  let ?j = "\<lambda>u k. JObj [(''task_id'', JStr (py_strip u)), (''sequence_no'', JInt k)]"
  let ?h = "\<lambda>u k. sha256 E (utf8 ''result-batch'' @ CHR 0x00 # utf8 (canonical_json E (?j u k)))"
  have x: "x = ?h s m" "0 \<le> m" and y: "y = ?h t n" "0 \<le> n"
    using assms(2,3) by (auto simp: batch_id_def stable_identity_def simp del: canonical_json.simps)
  show ?thesis
  proof
    assume "x = y"
    then have "canonical_json E (?j s m) = canonical_json E (?j t n)"
      using x y injD [OF assms(1)] by (auto simp del: canonical_json.simps dest!: utf8_inj)
    from batch_text_inj [OF this x(2) y(2)] show "py_strip s = py_strip t \<and> m = n" .
  next
    assume "py_strip s = py_strip t \<and> m = n"
    then show "x = y" using x y by simp
  qed
qed

theorem batch_id_identifies_witness:
  "\<exists>E x y. inj (sha256 E) \<and> batch_id E ''t1'' 0 = Inr x \<and> batch_id E ''t1'' 1 = Inr y \<and> x \<noteq> y"
proof -
  define E :: codec where "E = \<lparr>sha256 = (\<lambda>b. b), float_repr = (\<lambda>_. ''0.0'')\<rparr>"
  have "\<not> blank ''t1''" "\<not> blank ''result-batch''" by (simp_all add: blank_iff py_space_def Let_def)
  then obtain x y where xy: "batch_id E ''t1'' 0 = Inr x" "batch_id E ''t1'' 1 = Inr y"
    by (auto simp: batch_id_def stable_identity_def)
  have i: "inj (sha256 E)" by (simp add: E_def)
  show ?thesis using xy i batch_id_identifies [OF i xy] by auto
qed

end
