(* ===== verification/Tables.thy ===== *)
theory Tables
  imports Prelude
begin

text \<open>
  SQLite tables as lists of rows.  The list order stands for the order in which SQLite scans the
  table where a statement leaves it open.  A statement is one of the functions below; a table with
  a primary key (or a \<open>UNIQUE\<close> column) is described by the locale \<open>keyed_table\<close>, whose
  parameter is the key of a row and whose lemmas say that each statement keeps the keys distinct and
  what a later lookup returns.
\<close>

section \<open>Statements\<close>

definition tbl_find :: "('r \<Rightarrow> bool) \<Rightarrow> 'r list \<Rightarrow> 'r option" where
  "tbl_find P t = List.find P t"

definition tbl_update :: "('r \<Rightarrow> bool) \<Rightarrow> ('r \<Rightarrow> 'r) \<Rightarrow> 'r list \<Rightarrow> 'r list" where
  "tbl_update P f t = List.map (\<lambda>r. if P r then f r else r) t"

definition tbl_delete :: "('r \<Rightarrow> bool) \<Rightarrow> 'r list \<Rightarrow> 'r list" where
  "tbl_delete P t = filter (\<lambda>r. \<not> P r) t"

definition tbl_count :: "('r \<Rightarrow> bool) \<Rightarrow> 'r list \<Rightarrow> nat" where
  "tbl_count P t = length (filter P t)"

definition tbl_insert :: "('r \<Rightarrow> 'k) \<Rightarrow> 'r \<Rightarrow> 'r list \<Rightarrow> py_error + 'r list" where
  "tbl_insert key r t = (if key r \<in> set (List.map key t) then Inl IntegrityError else Inr (t @ [r]))"

definition tbl_insert_or_ignore :: "('r \<Rightarrow> 'k) \<Rightarrow> 'r \<Rightarrow> 'r list \<Rightarrow> 'r list" where
  "tbl_insert_or_ignore key r t = (if key r \<in> set (List.map key t) then t else t @ [r])"

definition tbl_upsert :: "('r \<Rightarrow> 'k) \<Rightarrow> ('r \<Rightarrow> 'r) \<Rightarrow> 'r \<Rightarrow> 'r list \<Rightarrow> 'r list" where
  "tbl_upsert key f r t =
     (if key r \<in> set (List.map key t) then tbl_update (\<lambda>x. key x = key r) f t else t @ [r])"

definition tbl_order_by :: "('r \<Rightarrow> 'o::linorder) \<Rightarrow> 'r list \<Rightarrow> 'r list" where
  "tbl_order_by f t = sort_key f t"

section \<open>What statements do to the rows\<close>

lemma set_tbl_update [table_simps]:
  "set (tbl_update P f t) = {r \<in> set t. \<not> P r} \<union> f ` {r \<in> set t. P r}"
  by (auto simp: tbl_update_def)

lemma set_tbl_delete [table_simps]: "set (tbl_delete P t) = {r \<in> set t. \<not> P r}"
  by (auto simp: tbl_delete_def)

lemma set_tbl_order_by [simp, table_simps]: "set (tbl_order_by f t) = set t"
  by (simp add: tbl_order_by_def)

lemma length_tbl_update [simp]: "length (tbl_update P f t) = length t"
  by (simp add: tbl_update_def)

lemma tbl_find_SomeD: "tbl_find P t = Some r \<Longrightarrow> r \<in> set t \<and> P r"
  by (auto simp: tbl_find_def dest: find_Some_set)

lemma tbl_find_None: "tbl_find P t = None \<longleftrightarrow> (\<forall>r \<in> set t. \<not> P r)"
  by (simp add: tbl_find_def find_None_all)

lemma tbl_insert_Inr:
  "tbl_insert key r t = Inr t' \<longleftrightarrow> key r \<notin> key ` set t \<and> t' = t @ [r]"
  by (auto simp: tbl_insert_def)

lemma tbl_insert_Inl:
  "tbl_insert key r t = Inl e \<longleftrightarrow> key r \<in> key ` set t \<and> e = IntegrityError"
  by (auto simp: tbl_insert_def)

lemma tbl_count_append [simp]: "tbl_count P (t @ u) = tbl_count P t + tbl_count P u"
  by (simp add: tbl_count_def)

lemma tbl_count_Nil [simp]: "tbl_count P [] = 0"
  and tbl_count_Cons [simp]: "tbl_count P (r # t) = (if P r then 1 else 0) + tbl_count P t"
  by (simp_all add: tbl_count_def)

lemma tbl_count_mono: "(\<And>r. r \<in> set t \<Longrightarrow> P r \<Longrightarrow> Q r) \<Longrightarrow> tbl_count P t \<le> tbl_count Q t"
  by (induction t) auto

lemma tbl_count_update_le:
  "(\<And>r. r \<in> set t \<Longrightarrow> U r \<Longrightarrow> Q (f r) \<Longrightarrow> Q r) \<Longrightarrow> tbl_count Q (tbl_update U f t) \<le> tbl_count Q t"
  by (induction t) (auto simp: tbl_update_def)

lemma tbl_count_delete_le: "tbl_count Q (tbl_delete P t) \<le> tbl_count Q t"
  by (induction t) (auto simp: tbl_delete_def)

lemma tbl_update_none: "(\<And>r. r \<in> set t \<Longrightarrow> \<not> P r) \<Longrightarrow> tbl_update P f t = t"
  by (induction t) (auto simp: tbl_update_def)

lemma tbl_find_append_new:
  "(\<And>x. x \<in> set t \<Longrightarrow> \<not> P x) \<Longrightarrow> tbl_find P (t @ [r]) = (if P r then Some r else None)"
  by (induction t) (auto simp: tbl_find_def)

text \<open>The first match in an ordered (and truncated) result is least among all matches.\<close>

lemma find_ordered_least:
  assumes found: "List.find P (take n (tbl_order_by f t)) = Some x" and y: "y \<in> set t" "P y"
  shows "f x \<le> f y"
proof -
  let ?xs = "tbl_order_by f t"
  obtain i where i: "i < length (take n ?xs)" "take n ?xs ! i = x" "\<And>j. j < i \<Longrightarrow> \<not> P (take n ?xs ! j)"
    using found by (auto simp: find_Some_iff)
  have "y \<in> set ?xs" using y(1) by simp
  then obtain k where k: "k < length ?xs" "?xs ! k = y" by (metis in_set_conv_nth)
  have "i \<le> k"
  proof (rule ccontr)
    assume "\<not> i \<le> k"
    then have "take n ?xs ! k = y" using k i(1) by simp
    with i(3) [of k] y(2) \<open>\<not> i \<le> k\<close> show False by simp
  qed
  moreover have "sorted (List.map f ?xs)" by (simp add: tbl_order_by_def)
  ultimately have "f (?xs ! i) \<le> f (?xs ! k)" using k(1) by (simp add: sorted_iff_nth_mono)
  then show ?thesis using i(1,2) k(2) by simp
qed

lemma tbl_update_rows:
  assumes "r \<in> set (tbl_update P f t)"
  obtains "r \<in> set t" "\<not> P r" | r0 where "r0 \<in> set t" "P r0" "r = f r0"
  using assms by (auto simp: table_simps)

text \<open>Looking up by key after an update, an insertion and an upsert.\<close>

lemma map_tbl_update: "(\<And>r. g (f r) = g r) \<Longrightarrow> List.map g (tbl_update P f t) = List.map g t"
  by (simp add: tbl_update_def)

lemma find_map_key: "(\<And>r. key (h r) = key r) \<Longrightarrow> List.find (\<lambda>r. key r = k) (List.map h t) = map_option h (List.find (\<lambda>r. key r = k) t)"
  by (induction t) auto

lemma find_append_other: "key r \<notin> key ` set t \<Longrightarrow> tbl_find (\<lambda>x. key x = k) (t @ [r]) =
    (if key r = k then Some r else tbl_find (\<lambda>x. key x = k) t)"
  by (induction t) (auto simp: tbl_find_def)

lemma find_replace:
  assumes "key r \<in> key ` set t"
  shows "tbl_find (\<lambda>x. key x = k) (tbl_update (\<lambda>x. key x = key r) (\<lambda>_. r) t) =
    (if key r = k then Some r else tbl_find (\<lambda>x. key x = k) t)"
proof -
  have eq: "tbl_find (\<lambda>x. key x = k) (tbl_update (\<lambda>x. key x = key r) (\<lambda>_. r) t) =
      map_option (\<lambda>x. if key x = key r then r else x) (tbl_find (\<lambda>x. key x = k) t)"
    by (simp add: tbl_find_def tbl_update_def find_map_key)
  show ?thesis
  proof (cases "tbl_find (\<lambda>x. key x = k) t")
    case None
    then have "key r \<noteq> k" using assms by (auto simp: tbl_find_None)
    with None eq show ?thesis by simp
  next
    case (Some x)
    then have "key x = k" by (auto dest: tbl_find_SomeD)
    with Some eq show ?thesis by simp
  qed
qed

lemma find_upsert_row: "tbl_find (\<lambda>x. key x = k) (tbl_upsert key (\<lambda>_. r) r t) =
    (if key r = k then Some r else tbl_find (\<lambda>x. key x = k) t)"
  using find_append_other [of key r t k] find_replace [of key r t k] by (auto simp: tbl_upsert_def)

lemma set_upsert_keys: "key ` set (tbl_upsert key (\<lambda>_. r) r t) = insert (key r) (key ` set t)"
  by (auto simp: tbl_upsert_def table_simps image_iff)

lemma filter_update_out:
  "(\<And>x. \<not> P (f x)) \<Longrightarrow> filter P (List.map (\<lambda>x. if Q x then f x else x) t) = filter (\<lambda>x. \<not> Q x) (filter P t)"
  by (induction t) auto

lemma filter_update_in:
  "(\<And>x. x \<in> set t \<Longrightarrow> Q x \<Longrightarrow> P (f x) = P x) \<Longrightarrow>
   filter P (List.map (\<lambda>x. if Q x then f x else x) t) = List.map (\<lambda>x. if Q x then f x else x) (filter P t)"
  by (induction t) auto

section \<open>Tables with a key\<close>

definition uniq :: "('r \<Rightarrow> 'k) \<Rightarrow> 'r list \<Rightarrow> bool" where
  "uniq key t = distinct (List.map key t)"

lemma uniq_Nil [simp]: "uniq key []"
  by (simp add: uniq_def)

lemma uniq_Cons [simp]: "uniq key (r # t) \<longleftrightarrow> key r \<notin> key ` set t \<and> uniq key t"
  by (simp add: uniq_def)

locale keyed_table =
  fixes key :: "'r \<Rightarrow> 'k"
    and keeps_key :: "('r \<Rightarrow> 'r) \<Rightarrow> bool"
  assumes keeps: "keeps_key f \<Longrightarrow> key (f r) = key r"
begin

lemma uniqD: "uniq key t \<Longrightarrow> r \<in> set t \<Longrightarrow> r' \<in> set t \<Longrightarrow> key r = key r' \<Longrightarrow> r = r'"
  by (induction t) (auto simp: image_iff)

lemma uniq_insert: "uniq key t \<Longrightarrow> tbl_insert key r t = Inr t' \<Longrightarrow> uniq key t'"
  by (auto simp: uniq_def tbl_insert_Inr)

lemma uniq_insert_or_ignore: "uniq key t \<Longrightarrow> uniq key (tbl_insert_or_ignore key r t)"
  by (auto simp: uniq_def tbl_insert_or_ignore_def)

lemma keys_update: "keeps_key f \<Longrightarrow> List.map key (tbl_update P f t) = List.map key t"
  by (simp add: tbl_update_def keeps)

lemma uniq_update: "keeps_key f \<Longrightarrow> uniq key t \<Longrightarrow> uniq key (tbl_update P f t)"
  by (simp add: uniq_def keys_update)

lemma uniq_delete: "uniq key t \<Longrightarrow> uniq key (tbl_delete P t)"
  by (auto simp: uniq_def tbl_delete_def distinct_map intro: inj_on_subset)

lemma uniq_upsert: "keeps_key f \<Longrightarrow> uniq key t \<Longrightarrow> uniq key (tbl_upsert key f r t)"
  by (auto simp: tbl_upsert_def uniq_def keys_update)

lemma uniq_upsert_row:
  assumes "uniq key t"
  shows "uniq key (tbl_upsert key (\<lambda>_. r) r t)"
proof -
  have "List.map key (tbl_update (\<lambda>x. key x = key r) (\<lambda>_. r) t) = List.map key t"
    by (simp add: tbl_update_def)
  with assms show ?thesis by (auto simp: tbl_upsert_def uniq_def)
qed

text \<open>One update statement per key of a list of distinct keys touches each row at most once.\<close>

lemma fold_updates:
  assumes keeps_f: "\<And>v. keeps_key (f v)"
  shows "distinct (List.map fst xs) \<Longrightarrow>
    fold (\<lambda>(k, v). tbl_update (\<lambda>r. key r = k \<and> P r) (f v)) xs t =
    List.map (\<lambda>r. case map_of xs (key r) of None \<Rightarrow> r | Some v \<Rightarrow> if P r then f v r else r) t"
proof (induction xs arbitrary: t)
  case (Cons x xs)
  obtain k v where x: "x = (k, v)" by (cases x)
  have "fold (\<lambda>(k, v). tbl_update (\<lambda>r. key r = k \<and> P r) (f v)) (x # xs) t =
      List.map (\<lambda>r. case map_of xs (key r) of None \<Rightarrow> r | Some v \<Rightarrow> if P r then f v r else r)
        (tbl_update (\<lambda>r. key r = k \<and> P r) (f v) t)"
    using Cons x by simp
  also have "\<dots> = List.map (\<lambda>r. case map_of (x # xs) (key r) of None \<Rightarrow> r | Some v \<Rightarrow> if P r then f v r else r) t"
  proof -
    have "map_of xs k = None" using Cons.prems x by (simp add: map_of_eq_None_iff)
    then show ?thesis using x keeps [OF keeps_f] by (auto simp: tbl_update_def)
  qed
  finally show ?case .
qed simp

lemma fold_update_keys:
  assumes "keeps_key f" "distinct ks"
  shows "fold (\<lambda>k. tbl_update (\<lambda>r. key r = k \<and> P r) f) ks t =
    List.map (\<lambda>r. if key r \<in> set ks \<and> P r then f r else r) t"
proof -
  have "fold (\<lambda>k. tbl_update (\<lambda>r. key r = k \<and> P r) f) ks t =
      fold (\<lambda>(k, v). tbl_update (\<lambda>r. key r = k \<and> P r) f) (List.map (\<lambda>k. (k, ())) ks) t"
    by (simp add: fold_map comp_def)
  also have "\<dots> = List.map (\<lambda>r. case map_of (List.map (\<lambda>k. (k, ())) ks) (key r) of
      None \<Rightarrow> r | Some v \<Rightarrow> if P r then f r else r) t"
    by (rule fold_updates) (use assms in \<open>auto simp: comp_def\<close>)
  also have "\<dots> = List.map (\<lambda>r. if key r \<in> set ks \<and> P r then f r else r) t"
    by (rule List.map_cong) (auto simp: map_of_map_restrict restrict_map_def split: option.splits)
  finally show ?thesis .
qed

lemma find_by_key:
  assumes "uniq key t" "r \<in> set t"
  shows "tbl_find (\<lambda>x. key x = key r) t = Some r"
proof (cases "tbl_find (\<lambda>x. key x = key r) t")
  case None
  with assms(2) show ?thesis by (auto simp: tbl_find_None)
next
  case (Some r')
  then show ?thesis using assms uniqD [OF assms(1), of r' r] by (auto dest: tbl_find_SomeD)
qed

lemma find_key_iff:
  assumes "uniq key t"
  shows "tbl_find (\<lambda>x. key x = k) t = Some r \<longleftrightarrow> r \<in> set t \<and> key r = k"
  using assms find_by_key by (fastforce dest: tbl_find_SomeD)

lemma find_after_update:
  assumes "keeps_key f" "uniq key t"
  shows "tbl_find (\<lambda>x. key x = k) (tbl_update (\<lambda>x. key x = k') f t) =
    (if k = k' then map_option f (tbl_find (\<lambda>x. key x = k) t) else tbl_find (\<lambda>x. key x = k) t)"
  using assms(2)
  by (induction t) (auto simp: tbl_find_def tbl_update_def keeps [OF assms(1)])

lemma find_after_insert:
  assumes "tbl_insert key r t = Inr t'"
  shows "tbl_find (\<lambda>x. key x = k) t' = (if k = key r then Some r else tbl_find (\<lambda>x. key x = k) t)"
proof -
  have t': "t' = t @ [r]" and new: "key r \<notin> key ` set t" using assms by (auto simp: tbl_insert_Inr)
  have "List.find (\<lambda>x. key x = k) (t @ [r]) =
      (case List.find (\<lambda>x. key x = k) t of None \<Rightarrow> if key r = k then Some r else None | Some x \<Rightarrow> Some x)"
    by (induction t) auto
  moreover have "List.find (\<lambda>x. key x = key r) t = None" 
    unfolding find_None_all using new by (metis image_eqI)
  ultimately show ?thesis using t' by (auto simp: tbl_find_def split: option.splits)
qed

lemma count_by_key: "uniq key t \<Longrightarrow> tbl_count (\<lambda>x. key x = k) t \<le> 1"
proof (induction t)
  case (Cons r t)
  have "key r = k \<Longrightarrow> tbl_count (\<lambda>x. key x = k) t = 0"
    using Cons.prems unfolding tbl_count_def length_0_conv filter_empty_conv
    by (metis uniq_Cons image_eqI)
  then show ?case using Cons by auto
qed simp

end

end
