(* ===== verification/Fabric_Store.thy ===== *)
theory Fabric_Store
  imports Fabric_Models Tables
begin

text \<open>
  The schema of the durable authority store (\<open>src/creeper/distributed/authority_store.py\<close>) and its
  worker, work and result-batch operations.

  A table is a list of row records; the store is the record \<open>fabric\<close>.  An operation takes its
  arguments, the readings of the clock in the order the code takes them, the fresh \<open>uuid4\<close> values it
  draws, and the store, and returns the value or exception together with the store afterwards: a
  rolled-back transaction returns the store it was given.  JSON columns hold the decoded lists.
\<close>

section \<open>Schema\<close>

datatype work_state = PENDING | LEASED | RETRY | COMPLETE | DEAD

datatype region_state = R_UNKNOWN | R_QUALIFIED | R_UNQUALIFIED | R_BLOCKED

record worker_row =
  wk_worker_id :: string
  wk_instance_id :: string
  wk_runtime_class :: string
  wk_region :: string
  wk_architecture :: string
  wk_memory_bytes :: int
  wk_cpu_count :: int
  wk_network_class :: string
  wk_capabilities :: "string list"
  wk_producers :: "string list"
  wk_allowed_providers :: "string list"
  wk_daily_egress_budget_bytes :: int
  wk_protocol_version :: string
  wk_edition_version :: string
  wk_last_heartbeat :: time
  wk_revoked :: bool

record work_row =
  fw_task_id :: string
  fw_work_key :: string
  fw_producer :: string
  fw_task_class :: task_class
  fw_input_identity :: string
  fw_payload :: json
  fw_partition_key :: string
  fw_algorithm_version :: string
  fw_required_capabilities :: "string list"
  fw_required_providers :: "string list"
  fw_priority :: rat
  fw_max_attempts :: int
  fw_not_before :: time
  fw_state :: work_state
  fw_lease_owner :: "string option"
  fw_lease_owner_instance :: "string option"
  fw_lease_generation :: int
  fw_lease_deadline :: "time option"
  fw_attempt :: int
  fw_cursor :: "string option"
  fw_next_sequence_no :: int
  fw_last_error :: "string option"
  fw_created_at :: time
  fw_updated_at :: time

record batch_row =
  bt_batch_id :: string
  bt_task_id :: string
  bt_generation :: int
  bt_sequence_no :: int
  bt_payload :: string
  bt_payload_digest :: string
  bt_cursor_after :: "string option"
  bt_final :: bool
  bt_committed_at :: time
  bt_consumed_at :: "time option"
  bt_consume_attempts :: int
  bt_consume_error :: "string option"
  bt_quarantined :: bool

record artifact_row =
  af_artifact_id :: string
  af_sha256 :: string
  af_uri :: string
  af_size_bytes :: int
  af_content_type :: string
  af_compression :: string
  af_metadata :: "(string \<times> json) list"
  af_first_task_id :: string
  af_first_seen_at :: time

record outbox_row =
  ob_event_id :: string
  ob_event_type :: string
  ob_aggregate_id :: string
  ob_payload :: json
  ob_created_at :: time
  ob_published_at :: "time option"

record nonce_row =
  nc_worker_id :: string
  nc_nonce :: string
  nc_seen_at :: time

record budget_row =
  pb_provider :: string
  pb_requests_per_second :: rat
  pb_max_global_inflight :: int
  pb_require_qualified_region :: bool
  pb_allow_unknown_region_probe :: bool
  pb_region_reprobe_after_seconds :: rat
  pb_next_request_at :: time
  pb_cooldown_until :: time
  pb_updated_at :: time

record region_row =
  rg_provider :: string
  rg_region :: string
  rg_state :: region_state
  rg_samples :: int
  rg_successes :: int
  rg_timeouts :: int
  rg_throttles :: int
  rg_policy_blocks :: int
  rg_total_latency_ms :: rat
  rg_response_bytes :: int
  rg_updated_at :: time

record permit_row =
  pr_permit_id :: string
  pr_request_id :: string
  pr_provider :: string
  pr_worker_id :: string
  pr_instance_id :: string
  pr_task_id :: string
  pr_generation :: int
  pr_allowed_requests :: int
  pr_max_inflight :: int
  pr_expires_at :: time
  pr_active :: bool
  pr_issued_at :: time
  pr_status_code :: "int option"

record egress_row =
  eg_worker_id :: string
  eg_day_key :: int
  eg_response_bytes :: int
  eg_updated_at :: time

record fabric =
  fb_emit_outbox :: bool
  fb_workers :: "worker_row list"
  fb_work :: "work_row list"
  fb_batches :: "batch_row list"
  fb_artifacts :: "artifact_row list"
  fb_batch_artifacts :: "(string \<times> string) list"
  fb_outbox :: "outbox_row list"
  fb_nonces :: "nonce_row list"
  fb_budgets :: "budget_row list"
  fb_regions :: "region_row list"
  fb_permits :: "permit_row list"
  fb_egress :: "egress_row list"

type_synonym 'a outcome = "(py_error + 'a) \<times> fabric"

definition empty_fabric :: "bool \<Rightarrow> fabric" where
  "empty_fabric emit_outbox = \<lparr>fb_emit_outbox = emit_outbox, fb_workers = [], fb_work = [],
     fb_batches = [], fb_artifacts = [], fb_batch_artifacts = [], fb_outbox = [], fb_nonces = [],
     fb_budgets = [], fb_regions = [], fb_permits = [], fb_egress = []\<rparr>"

text \<open>\<open>str(row[c])\<close> of a nullable text column.\<close>

definition py_str :: "string option \<Rightarrow> string" where
  "py_str x = (case x of None \<Rightarrow> ''None'' | Some s \<Rightarrow> s)"

section \<open>Outbox and request nonces\<close>

definition emit_locked ::
  "time \<Rightarrow> string \<Rightarrow> string \<Rightarrow> string \<Rightarrow> (string \<times> json) list \<Rightarrow> fabric \<Rightarrow> py_error + fabric" where
  "emit_locked now event_id event_type aggregate_id payload s =
     (if \<not> fb_emit_outbox s then Inr s
      else bindr (tbl_insert ob_event_id
             \<lparr>ob_event_id = event_id, ob_event_type = event_type, ob_aggregate_id = aggregate_id,
              ob_payload = JObj payload, ob_created_at = now, ob_published_at = None\<rparr> (fb_outbox s))
             (\<lambda>t. Inr (s\<lparr>fb_outbox := t\<rparr>)))"

definition consume_request_nonce ::
  "string \<Rightarrow> string \<Rightarrow> rat \<Rightarrow> time \<Rightarrow> fabric \<Rightarrow> bool outcome" where
  "consume_request_nonce worker_id nonce retention_seconds now s =
     (if retention_seconds \<le> 0 then (Inl ValueError, s)
      else let cutoff = now - retention_seconds;
               kept = tbl_delete (\<lambda>r. nc_seen_at r < cutoff) (fb_nonces s);
               row = \<lparr>nc_worker_id = worker_id, nc_nonce = nonce, nc_seen_at = now\<rparr>
           in case tbl_insert (\<lambda>r. (nc_worker_id r, nc_nonce r)) row kept of
                Inl _ \<Rightarrow> (Inr False, s\<lparr>fb_nonces := kept\<rparr>)
              | Inr t \<Rightarrow> (Inr True, s\<lparr>fb_nonces := t\<rparr>))"

section \<open>Workers\<close>

definition release_lease :: "time \<Rightarrow> work_row \<Rightarrow> work_row" where
  "release_lease now r = r\<lparr>fw_state := PENDING, fw_lease_owner := None,
     fw_lease_owner_instance := None, fw_lease_deadline := None, fw_updated_at := now\<rparr>"

definition worker_row_of :: "worker_descriptor \<Rightarrow> time \<Rightarrow> worker_row" where
  "worker_row_of d now = \<lparr>wk_worker_id = wd_worker_id d, wk_instance_id = wd_instance_id d,
     wk_runtime_class = wd_runtime_class d, wk_region = wd_region d,
     wk_architecture = wd_architecture d, wk_memory_bytes = wd_memory_bytes d,
     wk_cpu_count = wd_cpu_count d, wk_network_class = wd_network_class d,
     wk_capabilities = wd_capabilities d, wk_producers = wd_producers d,
     wk_allowed_providers = wd_allowed_providers d,
     wk_daily_egress_budget_bytes = wd_daily_egress_budget_bytes d,
     wk_protocol_version = wd_protocol_version d, wk_edition_version = wd_edition_version d,
     wk_last_heartbeat = now, wk_revoked = False\<rparr>"

definition register_worker ::
  "worker_descriptor \<Rightarrow> time \<Rightarrow> time \<Rightarrow> string \<Rightarrow> fabric \<Rightarrow> unit outcome" where
  "register_worker d now emit_now event_id s =
     (if wd_protocol_version d \<noteq> FABRIC_PROTOCOL_VERSION then (Inl FabricProtocolMismatchError, s)
      else if wd_memory_bytes d < 0 \<or> wd_cpu_count d < 1 \<or> wd_daily_egress_budget_bytes d < 0
        then (Inl IntegrityError, s)
      else let row = worker_row_of d now;
               s1 = s\<lparr>fb_workers := tbl_upsert wk_worker_id (\<lambda>_. row) row (fb_workers s),
                      fb_work := tbl_update
                        (\<lambda>r. fw_state r = LEASED \<and> fw_lease_owner r = Some (wd_worker_id d) \<and>
                             fw_lease_owner_instance r \<noteq> None \<and>
                             fw_lease_owner_instance r \<noteq> Some (wd_instance_id d))
                        (release_lease now) (fb_work s)\<rparr>
           in case emit_locked emit_now event_id ''WORKER_REGISTERED'' (wd_worker_id d)
                     [(''worker_id'', JStr (wd_worker_id d)),
                      (''worker_instance_id'', JStr (wd_instance_id d)),
                      (''region'', JStr (wd_region d))] s1 of
                Inl e \<Rightarrow> (Inl e, s) | Inr s2 \<Rightarrow> (Inr (), s2))"

definition find_worker :: "string \<Rightarrow> string \<Rightarrow> fabric \<Rightarrow> py_error + worker_row" where
  "find_worker worker_id worker_instance_id s =
     (case tbl_find (\<lambda>r. wk_worker_id r = worker_id) (fb_workers s) of
        None \<Rightarrow> Inl WorkerRejectedError
      | Some r \<Rightarrow> if wk_revoked r \<or> wk_instance_id r \<noteq> worker_instance_id
                  then Inl WorkerRejectedError else Inr r)"

definition heartbeat :: "string \<Rightarrow> string \<Rightarrow> time \<Rightarrow> fabric \<Rightarrow> unit outcome" where
  "heartbeat worker_id worker_instance_id now s =
     (case find_worker worker_id worker_instance_id s of
        Inl e \<Rightarrow> (Inl e, s)
      | Inr _ \<Rightarrow> (Inr (), s\<lparr>fb_workers := tbl_update (\<lambda>r. wk_worker_id r = worker_id)
                    (\<lambda>r. r\<lparr>wk_last_heartbeat := now\<rparr>) (fb_workers s)\<rparr>))"

definition revoke_worker :: "string \<Rightarrow> time \<Rightarrow> time \<Rightarrow> string \<Rightarrow> fabric \<Rightarrow> unit outcome" where
  "revoke_worker worker_id now emit_now event_id s =
     (if tbl_count (\<lambda>r. wk_worker_id r = worker_id) (fb_workers s) \<noteq> 1 then (Inl KeyError, s)
      else let s1 = s\<lparr>fb_workers := tbl_update (\<lambda>r. wk_worker_id r = worker_id)
                        (\<lambda>r. r\<lparr>wk_revoked := True, wk_last_heartbeat := now\<rparr>) (fb_workers s),
                      fb_work := tbl_update
                        (\<lambda>r. fw_state r = LEASED \<and> fw_lease_owner r = Some worker_id)
                        (release_lease now) (fb_work s)\<rparr>
           in case emit_locked emit_now event_id ''WORKER_REVOKED'' worker_id
                     [(''worker_id'', JStr worker_id)] s1 of
                Inl e \<Rightarrow> (Inl e, s) | Inr s2 \<Rightarrow> (Inr (), s2))"

end
