(* ===== verification/Fabric_Work.thy ===== *)
theory Fabric_Work
  imports Fabric_Store
begin

text \<open>
  Admission, claiming, renewal, result commit and termination of fabric work: the operations
  \<open>admit_work\<close>, \<open>claim_work\<close>, \<open>renew_task\<close>, \<open>commit_result_batch\<close>, \<open>finish_task\<close>, \<open>fail_task\<close> and the
  consumer side of the batch and outbox tables of \<open>authority_store.py\<close>.
\<close>

section \<open>Admission\<close>

definition new_work_row :: "work_definition \<Rightarrow> string \<Rightarrow> string \<Rightarrow> time \<Rightarrow> work_row" where
  "new_work_row w key task_id now = \<lparr>fw_task_id = task_id, fw_work_key = key,
     fw_producer = df_producer w, fw_task_class = df_task_class w,
     fw_input_identity = df_input_identity w, fw_payload = df_payload w,
     fw_partition_key = df_partition w, fw_algorithm_version = df_algorithm_version w,
     fw_required_capabilities = df_required_capabilities w,
     fw_required_providers = df_required_providers w, fw_priority = df_priority w,
     fw_max_attempts = df_max_attempts w, fw_not_before = df_not_before w, fw_state = PENDING,
     fw_lease_owner = None, fw_lease_owner_instance = None, fw_lease_generation = 0,
     fw_lease_deadline = None, fw_attempt = 0, fw_cursor = None, fw_next_sequence_no = 0,
     fw_last_error = None, fw_created_at = now, fw_updated_at = now\<rparr>"

definition admitted_before :: "string \<Rightarrow> fabric \<Rightarrow> (string \<times> bool) outcome" where
  "admitted_before key s =
     (case tbl_find (\<lambda>r. fw_work_key r = key) (fb_work s) of
        None \<Rightarrow> (Inl IntegrityError, s) | Some r \<Rightarrow> (Inr (fw_task_id r, False), s))"

definition admit_work ::
  "codec \<Rightarrow> work_definition \<Rightarrow> time \<Rightarrow> string \<Rightarrow> time \<Rightarrow> string \<Rightarrow> fabric \<Rightarrow> (string \<times> bool) outcome" where
  "admit_work E w now task_id emit_now event_id s =
     (case work_key_of E w of
        Inl e \<Rightarrow> (Inl e, s)
      | Inr key \<Rightarrow>
          if task_id \<in> set (List.map fw_task_id (fb_work s)) \<or>
             key \<in> set (List.map fw_work_key (fb_work s)) \<or> df_max_attempts w < 1
          then admitted_before key s
          else let s1 = s\<lparr>fb_work := fb_work s @ [new_work_row w key task_id now]\<rparr> in
               (case emit_locked emit_now event_id ''WORK_ADMITTED'' task_id
                       [(''task_id'', JStr task_id), (''work_key'', JStr key)] s1 of
                  Inl _ \<Rightarrow> admitted_before key s1
                | Inr s2 \<Rightarrow> (Inr (task_id, True), s2)))"

section \<open>Eligibility\<close>

definition work_from_row :: "work_row \<Rightarrow> py_error + work_definition" where
  "work_from_row r = work_definition_init \<lparr>df_producer = fw_producer r,
     df_task_class = fw_task_class r, df_input_identity = fw_input_identity r,
     df_payload = fw_payload r, df_partition = fw_partition_key r,
     df_algorithm_version = fw_algorithm_version r,
     df_required_capabilities = fw_required_capabilities r,
     df_required_providers = fw_required_providers r, df_priority = fw_priority r,
     df_max_attempts = fw_max_attempts r, df_not_before = fw_not_before r\<rparr>"

definition eligible :: "work_row \<Rightarrow> worker_row \<Rightarrow> bool" where
  "eligible row worker =
     (if \<not> set (fw_required_capabilities row) \<subseteq> set (wk_capabilities worker) then False
      else if \<not> set (fw_required_providers row) \<subseteq> set (wk_allowed_providers worker) then False
      else if wk_producers worker \<noteq> [] \<and> fw_producer row \<notin> set (wk_producers worker) then False
      else True)"

definition observed_region :: "string \<Rightarrow> string \<Rightarrow> fabric \<Rightarrow> region_row option" where
  "observed_region provider region s =
     tbl_find (\<lambda>r. rg_provider r = provider \<and> rg_region r = region) (fb_regions s)"

definition effective_region_state :: "budget_row \<Rightarrow> region_row option \<Rightarrow> time \<Rightarrow> region_state" where
  "effective_region_state budget observed now =
     (case observed of
        None \<Rightarrow> R_UNKNOWN
      | Some o' \<Rightarrow>
          if rg_state o' \<in> {R_BLOCKED, R_UNQUALIFIED} \<and> pb_allow_unknown_region_probe budget \<and>
             pb_region_reprobe_after_seconds budget \<le> now - rg_updated_at o'
          then R_UNKNOWN else rg_state o')"

fun region_eligible_providers :: "string list \<Rightarrow> string \<Rightarrow> time \<Rightarrow> fabric \<Rightarrow> bool" where
  "region_eligible_providers [] region now s = True"
| "region_eligible_providers (p # ps) region now s =
     (case tbl_find (\<lambda>b. pb_provider b = p) (fb_budgets s) of
        None \<Rightarrow> False
      | Some budget \<Rightarrow>
          if \<not> pb_require_qualified_region budget then region_eligible_providers ps region now s
          else let state = effective_region_state budget (observed_region p region s) now in
               if state \<in> {R_BLOCKED, R_UNQUALIFIED} then False
               else if state \<noteq> R_QUALIFIED \<and> \<not> pb_allow_unknown_region_probe budget then False
               else region_eligible_providers ps region now s)"

definition region_eligible :: "work_row \<Rightarrow> worker_row \<Rightarrow> time \<Rightarrow> fabric \<Rightarrow> bool" where
  "region_eligible row worker now s =
     (fw_required_providers row = [] \<or>
      region_eligible_providers (fw_required_providers row) (wk_region worker) now s)"

section \<open>Claiming\<close>

text \<open>
  The fields of a returned lease; \<open>work_from_row\<close> and the lease's own check can raise, after the
  transaction has been closed.
\<close>

definition lease_of_row ::
  "work_row \<Rightarrow> string \<Rightarrow> string \<Rightarrow> int \<Rightarrow> time \<Rightarrow> int \<Rightarrow> py_error + task_lease" where
  "lease_of_row r worker_id worker_instance_id generation deadline attempt =
     bindr (work_from_row r) (\<lambda>w.
       task_lease_init \<lparr>tl_task_id = fw_task_id r, tl_work_key = fw_work_key r,
         tl_worker_id = worker_id, tl_instance_id = worker_instance_id, tl_generation = generation,
         tl_lease_deadline = deadline, tl_attempt = attempt, tl_work = w,
         tl_cursor = fw_cursor r, tl_next_sequence_no = fw_next_sequence_no r\<rparr>)"

definition active_for :: "string \<Rightarrow> string \<Rightarrow> time \<Rightarrow> work_row \<Rightarrow> bool" where
  "active_for worker_id worker_instance_id now r =
     (fw_state r = LEASED \<and> fw_lease_owner r = Some worker_id \<and>
      fw_lease_owner_instance r = Some worker_instance_id \<and>
      (case fw_lease_deadline r of None \<Rightarrow> False | Some d \<Rightarrow> now < d))"

definition claimable :: "time \<Rightarrow> work_row \<Rightarrow> bool" where
  "claimable now r =
     ((fw_state r \<in> {PENDING, RETRY} \<or>
       (fw_state r = LEASED \<and> (case fw_lease_deadline r of None \<Rightarrow> False | Some d \<Rightarrow> d \<le> now))) \<and>
      fw_not_before r \<le> now \<and> fw_attempt r < fw_max_attempts r)"

definition claim_order :: "work_row list \<Rightarrow> work_row list" where
  "claim_order rows = take 128 (tbl_order_by (\<lambda>r. (- fw_priority r, fw_created_at r)) rows)"

definition grant_lease :: "string \<Rightarrow> string \<Rightarrow> int \<Rightarrow> time \<Rightarrow> int \<Rightarrow> time \<Rightarrow> work_row \<Rightarrow> work_row" where
  "grant_lease worker_id worker_instance_id generation deadline attempt now r =
     r\<lparr>fw_state := LEASED, fw_lease_owner := Some worker_id,
       fw_lease_owner_instance := Some worker_instance_id, fw_lease_generation := generation,
       fw_lease_deadline := Some deadline, fw_attempt := attempt, fw_updated_at := now\<rparr>"

definition claim_work ::
  "string \<Rightarrow> string \<Rightarrow> rat \<Rightarrow> time \<Rightarrow> time \<Rightarrow> time \<Rightarrow> string \<Rightarrow> fabric \<Rightarrow> task_lease option outcome" where
  "claim_work worker_id worker_instance_id lease_seconds now region_now emit_now event_id s =
     (if lease_seconds \<le> 0 then (Inl ValueError, s)
      else case find_worker worker_id worker_instance_id s of
        Inl e \<Rightarrow> (Inl e, s)
      | Inr worker \<Rightarrow>
         (case tbl_order_by (\<lambda>r. (fw_updated_at r, fw_task_id r))
                 (filter (active_for worker_id worker_instance_id now) (fb_work s)) of
            active # _ \<Rightarrow>
              (bindr (lease_of_row active worker_id worker_instance_id (fw_lease_generation active)
                        (the (fw_lease_deadline active)) (fw_attempt active)) (\<lambda>l. Inr (Some l)), s)
          | [] \<Rightarrow>
             (case List.find (\<lambda>r. eligible r worker \<and> region_eligible r worker region_now s)
                     (claim_order (filter (claimable now) (fb_work s))) of
                None \<Rightarrow> (Inr None, s)
              | Some chosen \<Rightarrow>
                  let generation = fw_lease_generation chosen + 1;
                      attempt = fw_attempt chosen + 1;
                      deadline = now + lease_seconds;
                      is_row = (\<lambda>r. fw_task_id r = fw_task_id chosen \<and>
                                 fw_lease_generation r = fw_lease_generation chosen)
                  in if tbl_count is_row (fb_work s) \<noteq> 1 then (Inr None, s)
                     else let s1 = s\<lparr>fb_work := tbl_update is_row
                            (grant_lease worker_id worker_instance_id generation deadline attempt now)
                            (fb_work s)\<rparr>
                     in case emit_locked emit_now event_id ''WORK_LEASED'' (fw_task_id chosen)
                               [(''task_id'', JStr (fw_task_id chosen)),
                                (''worker_id'', JStr worker_id),
                                (''worker_instance_id'', JStr worker_instance_id),
                                (''generation'', JInt generation)] s1 of
                          Inl e \<Rightarrow> (Inl e, s)
                        | Inr s2 \<Rightarrow>
                            (bindr (lease_of_row chosen worker_id worker_instance_id generation
                                      deadline attempt) (\<lambda>l. Inr (Some l)), s2))))"

section \<open>Renewal\<close>

definition find_work :: "string \<Rightarrow> fabric \<Rightarrow> work_row option" where
  "find_work task_id s = tbl_find (\<lambda>r. fw_task_id r = task_id) (fb_work s)"

definition task_row :: "string \<Rightarrow> fabric \<Rightarrow> py_error + work_row" where
  "task_row task_id s = (case find_work task_id s of None \<Rightarrow> Inl KeyError | Some r \<Rightarrow> Inr r)"

definition assert_active_lease ::
  "string \<Rightarrow> string \<Rightarrow> string \<Rightarrow> int \<Rightarrow> time \<Rightarrow> fabric \<Rightarrow> py_error + work_row" where
  "assert_active_lease task_id worker_id worker_instance_id generation now s =
     (case find_work task_id s of
        None \<Rightarrow> Inl StaleLeaseError
      | Some r \<Rightarrow>
          if fw_state r \<noteq> LEASED \<or> py_str (fw_lease_owner r) \<noteq> worker_id \<or>
             py_str (fw_lease_owner_instance r) \<noteq> worker_instance_id \<or>
             fw_lease_generation r \<noteq> generation \<or>
             (case fw_lease_deadline r of None \<Rightarrow> True | Some d \<Rightarrow> d \<le> now)
          then Inl StaleLeaseError else Inr r)"

definition renew_task ::
  "string \<Rightarrow> string \<Rightarrow> string \<Rightarrow> int \<Rightarrow> rat \<Rightarrow> time option \<Rightarrow> time \<Rightarrow> time \<Rightarrow> time \<Rightarrow> fabric \<Rightarrow> task_lease outcome"
where
  "renew_task task_id worker_id worker_instance_id generation lease_seconds expected
       assert_now deadline_now update_now s =
     (if lease_seconds \<le> 0 then (Inl ValueError, s)
      else case assert_active_lease task_id worker_id worker_instance_id generation assert_now s of
        Inl e \<Rightarrow> (Inl e, s)
      | Inr row \<Rightarrow>
         let current = the (fw_lease_deadline row) in
         (case (case expected of
                  None \<Rightarrow> Inr (deadline_now + lease_seconds)
                | Some x \<Rightarrow> if current < x then Inl StaleLeaseError
                            else if x < current then Inr current
                            else Inr (deadline_now + lease_seconds)) of
            Inl e \<Rightarrow> (Inl e, s)
          | Inr deadline \<Rightarrow>
             (lease_of_row row worker_id worker_instance_id generation deadline (fw_attempt row),
              if deadline \<noteq> current
              then s\<lparr>fb_work := tbl_update (\<lambda>r. fw_task_id r = task_id)
                       (\<lambda>r. r\<lparr>fw_lease_deadline := Some deadline, fw_updated_at := update_now\<rparr>)
                       (fb_work s)\<rparr>
              else s)))"

section \<open>Result batches\<close>

definition batch_payload :: "codec \<Rightarrow> result_batch \<Rightarrow> string" where
  "batch_payload E b = canonical_json E (JObj
     [(''task_id'', JStr (rb_task_id b)), (''generation'', JInt (rb_generation b)),
      (''sequence_no'', JInt (rb_sequence_no b)),
      (''results'', JArr (List.map JObj (rb_results b))),
      (''artifacts'', JArr (List.map (\<lambda>a. JObj
         [(''uri'', JStr (ar_uri a)), (''sha256'', JStr (ar_sha256 a)),
          (''size_bytes'', JInt (ar_size_bytes a)), (''content_type'', JStr (ar_content_type a)),
          (''compression'', JStr (ar_compression a)), (''metadata'', JObj (ar_metadata a))])
         (rb_artifacts b))),
      (''cursor_after'', (case rb_cursor_after b of None \<Rightarrow> JNull | Some c \<Rightarrow> JStr c)),
      (''final'', JBool (rb_final b))])"

definition payload_digest :: "codec \<Rightarrow> string \<Rightarrow> string" where
  "payload_digest E payload = sha256 E (utf8 payload)"

fun put_artifacts :: "codec \<Rightarrow> string \<Rightarrow> string \<Rightarrow> time \<Rightarrow> artifact_ref list \<Rightarrow> fabric \<Rightarrow> py_error + fabric" where
  "put_artifacts E bid task_id now [] s = Inr s"
| "put_artifacts E bid task_id now (a # as) s =
     bindr (artifact_id E (ar_sha256 a)) (\<lambda>aid.
       let row = \<lparr>af_artifact_id = aid, af_sha256 = py_lower (ar_sha256 a), af_uri = ar_uri a,
             af_size_bytes = ar_size_bytes a, af_content_type = ar_content_type a,
             af_compression = ar_compression a, af_metadata = ar_metadata a,
             af_first_task_id = task_id, af_first_seen_at = now\<rparr>
       in if aid \<notin> set (List.map af_artifact_id (fb_artifacts s)) \<and>
             (af_sha256 row \<in> set (List.map af_sha256 (fb_artifacts s)) \<or> ar_size_bytes a < 0)
          then Inl IntegrityError
          else put_artifacts E bid task_id now as
                 (s\<lparr>fb_artifacts := tbl_insert_or_ignore af_artifact_id row (fb_artifacts s),
                    fb_batch_artifacts := tbl_insert_or_ignore (\<lambda>x. x) (bid, aid)
                      (fb_batch_artifacts s)\<rparr>))"

definition advance_work :: "result_batch \<Rightarrow> time \<Rightarrow> work_row \<Rightarrow> work_row" where
  "advance_work b now r =
     r\<lparr>fw_cursor := rb_cursor_after b, fw_next_sequence_no := fw_next_sequence_no r + 1,
       fw_state := (if rb_final b then COMPLETE else LEASED),
       fw_lease_owner := (if rb_final b then None else fw_lease_owner r),
       fw_lease_owner_instance := (if rb_final b then None else fw_lease_owner_instance r),
       fw_lease_deadline := (if rb_final b then None else fw_lease_deadline r),
       fw_updated_at := now\<rparr>"

definition commit_result_batch ::
  "codec \<Rightarrow> result_batch \<Rightarrow> string \<Rightarrow> string \<Rightarrow> time \<Rightarrow> time \<Rightarrow> time \<Rightarrow> string \<Rightarrow> fabric \<Rightarrow> bool outcome" where
  "commit_result_batch E b worker_id worker_instance_id now assert_now emit_now event_id s =
     (let payload = batch_payload E b; digest = payload_digest E payload in
      case batch_id E (rb_task_id b) (rb_sequence_no b) of
        Inl e \<Rightarrow> (Inl e, s)
      | Inr bid \<Rightarrow>
         (case tbl_find (\<lambda>r. bt_batch_id r = bid) (fb_batches s) of
            Some old \<Rightarrow> if bt_payload_digest old \<noteq> digest then (Inl BatchConflictError, s)
                         else (Inr False, s)
          | None \<Rightarrow>
             (case assert_active_lease (rb_task_id b) worker_id worker_instance_id
                     (rb_generation b) assert_now s of
                Inl e \<Rightarrow> (Inl e, s)
              | Inr row \<Rightarrow>
                  if fw_next_sequence_no row \<noteq> rb_sequence_no b then (Inl BatchSequenceError, s)
                  else if (rb_task_id b, rb_sequence_no b) \<in>
                          set (List.map (\<lambda>r. (bt_task_id r, bt_sequence_no r)) (fb_batches s))
                       then (Inl IntegrityError, s)
                  else let new = \<lparr>bt_batch_id = bid, bt_task_id = rb_task_id b,
                             bt_generation = rb_generation b, bt_sequence_no = rb_sequence_no b,
                             bt_payload = payload, bt_payload_digest = digest,
                             bt_cursor_after = rb_cursor_after b, bt_final = rb_final b,
                             bt_committed_at = now, bt_consumed_at = None, bt_consume_attempts = 0,
                             bt_consume_error = None, bt_quarantined = False\<rparr>;
                           s1 = s\<lparr>fb_batches := fb_batches s @ [new]\<rparr>
                       in case bindr (put_artifacts E bid (rb_task_id b) now (rb_artifacts b) s1) (\<lambda>s2.
                                 emit_locked emit_now event_id ''RESULT_COMMITTED'' (rb_task_id b)
                                   [(''task_id'', JStr (rb_task_id b)), (''batch_id'', JStr bid),
                                    (''sequence_no'', JInt (rb_sequence_no b)),
                                    (''final'', JBool (rb_final b))]
                                   (s2\<lparr>fb_work := tbl_update (\<lambda>r. fw_task_id r = rb_task_id b)
                                          (advance_work b now) (fb_work s2)\<rparr>)) of
                            Inl e \<Rightarrow> (Inl e, s)
                          | Inr s3 \<Rightarrow> (Inr True, s3))))"

section \<open>Termination of a task\<close>

definition finish_task ::
  "string \<Rightarrow> string \<Rightarrow> string \<Rightarrow> int \<Rightarrow> time \<Rightarrow> time \<Rightarrow> time \<Rightarrow> string \<Rightarrow> fabric \<Rightarrow> unit outcome" where
  "finish_task task_id worker_id worker_instance_id generation now assert_now emit_now event_id s =
     (case assert_active_lease task_id worker_id worker_instance_id generation assert_now s of
        Inl e \<Rightarrow> (Inl e, s)
      | Inr _ \<Rightarrow>
         (case emit_locked emit_now event_id ''WORK_COMPLETED'' task_id [(''task_id'', JStr task_id)]
                 (s\<lparr>fb_work := tbl_update (\<lambda>r. fw_task_id r = task_id)
                      (\<lambda>r. r\<lparr>fw_state := COMPLETE, fw_lease_owner := None,
                             fw_lease_owner_instance := None, fw_lease_deadline := None,
                             fw_updated_at := now\<rparr>) (fb_work s)\<rparr>) of
            Inl e \<Rightarrow> (Inl e, s) | Inr s2 \<Rightarrow> (Inr (), s2)))"

definition fail_task ::
  "string \<Rightarrow> string \<Rightarrow> string \<Rightarrow> int \<Rightarrow> string \<Rightarrow> bool \<Rightarrow> rat \<Rightarrow> time \<Rightarrow> time \<Rightarrow> time \<Rightarrow> string \<Rightarrow> fabric \<Rightarrow> unit outcome"
where
  "fail_task task_id worker_id worker_instance_id generation error retryable retry_after_seconds
       now assert_now emit_now event_id s =
     (if retry_after_seconds < 0 then (Inl ValueError, s)
      else case assert_active_lease task_id worker_id worker_instance_id generation assert_now s of
        Inl e \<Rightarrow> (Inl e, s)
      | Inr row \<Rightarrow>
         let can_retry = retryable \<and> fw_attempt row < fw_max_attempts row;
             state = (if can_retry then RETRY else DEAD)
         in case emit_locked emit_now event_id ''WORK_FAILED'' task_id
                   [(''task_id'', JStr task_id), (''retryable'', JBool can_retry),
                    (''state'', JStr (if can_retry then ''RETRY'' else ''DEAD''))]
                   (s\<lparr>fb_work := tbl_update (\<lambda>r. fw_task_id r = task_id)
                      (\<lambda>r. r\<lparr>fw_state := state, fw_lease_owner := None,
                             fw_lease_owner_instance := None, fw_lease_deadline := None,
                             fw_not_before := now + (if can_retry then retry_after_seconds else 0),
                             fw_last_error := Some (take 2000 error), fw_updated_at := now\<rparr>)
                      (fb_work s)\<rparr>) of
              Inl e \<Rightarrow> (Inl e, s) | Inr s2 \<Rightarrow> (Inr (), s2))"

section \<open>Consuming batches and outbox events\<close>

definition unconsumed_batches :: "int \<Rightarrow> fabric \<Rightarrow> py_error + batch_row list" where
  "unconsumed_batches limit s =
     check (1 \<le> limit) ValueError (Inr (take (nat limit)
       (tbl_order_by (\<lambda>r. (bt_committed_at r, bt_task_id r, bt_sequence_no r))
         (filter (\<lambda>r. bt_consumed_at r = None \<and> \<not> bt_quarantined r) (fb_batches s)))))"

definition unconsumed_batches_for_task :: "string \<Rightarrow> int \<Rightarrow> fabric \<Rightarrow> py_error + batch_row list" where
  "unconsumed_batches_for_task task_id limit s =
     check (\<not> blank task_id \<and> 1 \<le> limit) ValueError (Inr (take (nat limit)
       (tbl_order_by bt_sequence_no
         (filter (\<lambda>r. bt_task_id r = task_id \<and> bt_consumed_at r = None \<and> \<not> bt_quarantined r)
           (fb_batches s)))))"

definition mark_batch_consumed :: "string \<Rightarrow> time \<Rightarrow> fabric \<Rightarrow> bool \<times> fabric" where
  "mark_batch_consumed bid now s =
     (tbl_count (\<lambda>r. bt_batch_id r = bid) (fb_batches s) = 1,
      s\<lparr>fb_batches := tbl_update (\<lambda>r. bt_batch_id r = bid)
         (\<lambda>r. r\<lparr>bt_consumed_at := (case bt_consumed_at r of None \<Rightarrow> Some now | Some t \<Rightarrow> Some t)\<rparr>)
         (fb_batches s)\<rparr>)"

definition mark_batch_consume_failed :: "string \<Rightarrow> string \<Rightarrow> int \<Rightarrow> fabric \<Rightarrow> bool outcome" where
  "mark_batch_consume_failed bid error max_attempts s =
     (if max_attempts < 1 then (Inl ValueError, s)
      else case tbl_find (\<lambda>r. bt_batch_id r = bid \<and> bt_consumed_at r = None) (fb_batches s) of
        None \<Rightarrow> (Inr False, s)
      | Some row \<Rightarrow>
         let attempts = bt_consume_attempts row + 1; quarantined = max_attempts \<le> attempts
         in (Inr quarantined,
             s\<lparr>fb_batches := tbl_update (\<lambda>r. bt_batch_id r = bid)
                (\<lambda>r. r\<lparr>bt_consume_attempts := attempts, bt_consume_error := Some (take 2000 error),
                       bt_quarantined := quarantined\<rparr>) (fb_batches s)\<rparr>))"

definition pending_outbox :: "int \<Rightarrow> fabric \<Rightarrow> py_error + outbox_row list" where
  "pending_outbox limit s =
     check (1 \<le> limit) ValueError (Inr (take (nat limit)
       (tbl_order_by (\<lambda>r. (ob_created_at r, ob_event_id r))
         (filter (\<lambda>r. ob_published_at r = None) (fb_outbox s)))))"

definition mark_outbox_published :: "string \<Rightarrow> time \<Rightarrow> fabric \<Rightarrow> bool \<times> fabric" where
  "mark_outbox_published event_id now s =
     (tbl_count (\<lambda>r. ob_event_id r = event_id) (fb_outbox s) = 1,
      s\<lparr>fb_outbox := tbl_update (\<lambda>r. ob_event_id r = event_id)
         (\<lambda>r. r\<lparr>ob_published_at := (case ob_published_at r of None \<Rightarrow> Some now | Some t \<Rightarrow> Some t)\<rparr>)
         (fb_outbox s)\<rparr>)"

end
