(* ===== verification/Fabric_Permits.thy ===== *)
theory Fabric_Permits
  imports Fabric_Work
begin

text \<open>
  Provider budgets, region qualification, request permits and egress accounting, garbage collection
  and the status snapshot of the authority store (\<open>authority_store.py\<close>, second half).
\<close>

section \<open>Budgets and regions\<close>

definition configure_provider_budget ::
  "string \<Rightarrow> rat \<Rightarrow> int \<Rightarrow> bool \<Rightarrow> bool \<Rightarrow> rat \<Rightarrow> time \<Rightarrow> fabric \<Rightarrow> unit outcome" where
  "configure_provider_budget provider rps inflight require_qualified allow_probe reprobe now s =
     (if blank provider \<or> rps \<le> 0 \<or> inflight < 1 \<or> reprobe \<le> 0 then (Inl ValueError, s)
      else (Inr (), s\<lparr>fb_budgets := tbl_upsert pb_provider
             (\<lambda>r. r\<lparr>pb_requests_per_second := rps, pb_max_global_inflight := inflight,
                    pb_require_qualified_region := require_qualified,
                    pb_allow_unknown_region_probe := allow_probe,
                    pb_region_reprobe_after_seconds := reprobe, pb_updated_at := now\<rparr>)
             \<lparr>pb_provider = provider, pb_requests_per_second = rps, pb_max_global_inflight = inflight,
              pb_require_qualified_region = require_qualified,
              pb_allow_unknown_region_probe = allow_probe,
              pb_region_reprobe_after_seconds = reprobe, pb_next_request_at = 0,
              pb_cooldown_until = 0, pb_updated_at = now\<rparr> (fb_budgets s)\<rparr>))"

definition region_success :: "bool \<Rightarrow> int option \<Rightarrow> bool \<Rightarrow> bool" where
  "region_success connect_success status_code policy_block =
     (connect_success \<and> (case status_code of None \<Rightarrow> False | Some c \<Rightarrow> c < 500) \<and> \<not> policy_block)"

definition qualify_region :: "bool \<Rightarrow> region_row \<Rightarrow> region_state" where
  "qualify_region policy_block r =
     (let failures = rg_timeouts r + rg_throttles r + rg_policy_blocks r in
      if policy_block then R_BLOCKED
      else if 3 \<le> rg_samples r \<and> 2 \<le> rg_successes r \<and> failures \<le> rg_samples r div 2 then R_QUALIFIED
      else if 3 \<le> rg_samples r \<and> rg_successes r = 0 then R_UNQUALIFIED
      else R_UNKNOWN)"

definition add_observation :: "region_row \<Rightarrow> region_row \<Rightarrow> region_row" where
  "add_observation n r =
     r\<lparr>rg_samples := rg_samples r + 1, rg_successes := rg_successes r + rg_successes n,
       rg_timeouts := rg_timeouts r + rg_timeouts n, rg_throttles := rg_throttles r + rg_throttles n,
       rg_policy_blocks := rg_policy_blocks r + rg_policy_blocks n,
       rg_total_latency_ms := rg_total_latency_ms r + rg_total_latency_ms n,
       rg_response_bytes := rg_response_bytes r + rg_response_bytes n,
       rg_updated_at := rg_updated_at n\<rparr>"

definition int_of_bool :: "bool \<Rightarrow> int" where
  "int_of_bool b = (if b then 1 else 0)"

definition record_provider_region_observation ::
  "string \<Rightarrow> string \<Rightarrow> string \<Rightarrow> string \<Rightarrow> int \<Rightarrow> bool \<Rightarrow> int option \<Rightarrow> rat \<Rightarrow> int \<Rightarrow> bool \<Rightarrow> bool \<Rightarrow>
   time \<Rightarrow> time \<Rightarrow> fabric \<Rightarrow> region_state outcome" where
  "record_provider_region_observation provider worker_id worker_instance_id task_id generation
       connect_success status_code latency_ms response_bytes timed_out policy_block assert_now now s =
     (case find_worker worker_id worker_instance_id s of
        Inl e \<Rightarrow> (Inl e, s)
      | Inr worker \<Rightarrow>
        (case assert_active_lease task_id worker_id worker_instance_id generation assert_now s of
           Inl e \<Rightarrow> (Inl e, s)
         | Inr _ \<Rightarrow>
           let region = wk_region worker;
               success = region_success connect_success status_code policy_block;
               throttle = status_code \<in> {Some 429, Some 503};
               new = \<lparr>rg_provider = provider, rg_region = region, rg_state = R_UNKNOWN, rg_samples = 1,
                 rg_successes = int_of_bool success, rg_timeouts = int_of_bool timed_out,
                 rg_throttles = int_of_bool throttle, rg_policy_blocks = int_of_bool policy_block,
                 rg_total_latency_ms = max 0 latency_ms, rg_response_bytes = max 0 response_bytes,
                 rg_updated_at = now\<rparr>;
               t = tbl_upsert (\<lambda>r. (rg_provider r, rg_region r)) (add_observation new) new (fb_regions s)
           in case tbl_find (\<lambda>r. rg_provider r = provider \<and> rg_region r = region) t of
                None \<Rightarrow> (Inl TypeError, s)
              | Some row \<Rightarrow>
                  let state = qualify_region policy_block row
                  in (Inr state, s\<lparr>fb_regions := tbl_update
                        (\<lambda>r. rg_provider r = provider \<and> rg_region r = region)
                        (\<lambda>r. r\<lparr>rg_state := state, rg_updated_at := now\<rparr>) t\<rparr>)))"

section \<open>Egress\<close>

definition egress_day_key :: "time \<Rightarrow> int" where
  "egress_day_key now = \<lfloor>now / 86400\<rfloor>"

definition egress_available :: "worker_row \<Rightarrow> time \<Rightarrow> fabric \<Rightarrow> bool" where
  "egress_available worker now s =
     (let budget = wk_daily_egress_budget_bytes worker in
      if budget \<le> 0 then True
      else case tbl_find (\<lambda>r. eg_worker_id r = wk_worker_id worker \<and> eg_day_key r = egress_day_key now)
                  (fb_egress s) of
             None \<Rightarrow> True | Some r \<Rightarrow> eg_response_bytes r < budget)"

section \<open>Permits\<close>

definition permit_of_row :: "permit_row \<Rightarrow> provider_permit" where
  "permit_of_row r = \<lparr>pm_permit_id = pr_permit_id r, pm_request_id = pr_request_id r,
     pm_provider = pr_provider r, pm_worker_id = pr_worker_id r, pm_instance_id = pr_instance_id r,
     pm_task_id = pr_task_id r, pm_generation = pr_generation r,
     pm_allowed_requests = pr_allowed_requests r, pm_max_inflight = pr_max_inflight r,
     pm_expires_at = pr_expires_at r\<rparr>"

definition expire_permits :: "string \<Rightarrow> time \<Rightarrow> permit_row list \<Rightarrow> permit_row list" where
  "expire_permits provider now t = tbl_update
     (\<lambda>p. pr_provider p = provider \<and> pr_active p \<and> pr_expires_at p \<le> now) (\<lambda>p. p\<lparr>pr_active := False\<rparr>) t"

definition active_permits :: "string \<Rightarrow> permit_row list \<Rightarrow> nat" where
  "active_permits provider t = tbl_count (\<lambda>p. pr_provider p = provider \<and> pr_active p) t"

text \<open>
  The region gate of a permit request: \<open>False\<close> stops the request (the transaction is rolled back and
  no permit is returned).  An unqualified but probeable region admits one outstanding permit.
\<close>

definition permit_region_gate :: "budget_row \<Rightarrow> worker_row \<Rightarrow> time \<Rightarrow> permit_row list \<Rightarrow> fabric \<Rightarrow> bool" where
  "permit_region_gate budget worker now permits s =
     (if \<not> pb_require_qualified_region budget then True
      else let state = effective_region_state budget
                 (observed_region (pb_provider budget) (wk_region worker) s) now in
           if state \<in> {R_BLOCKED, R_UNQUALIFIED} then False
           else if state \<noteq> R_QUALIFIED then
             (if \<not> pb_allow_unknown_region_probe budget then False
              else sum_list (List.map (\<lambda>p. tbl_count (\<lambda>w. wk_worker_id w = pr_worker_id p \<and>
                       wk_region w = wk_region worker) (fb_workers s))
                     (filter (\<lambda>p. pr_provider p = pb_provider budget \<and> pr_active p) permits)) < 1)
           else True)"

definition mint_permit ::
  "string \<Rightarrow> string \<Rightarrow> string \<Rightarrow> string \<Rightarrow> int \<Rightarrow> string \<Rightarrow> rat \<Rightarrow> time \<Rightarrow> string \<Rightarrow> budget_row \<Rightarrow> permit_row" where
  "mint_permit provider worker_id worker_instance_id task_id generation request_id ttl_seconds now
       permit_id budget =
     \<lparr>pr_permit_id = permit_id, pr_request_id = request_id, pr_provider = provider,
      pr_worker_id = worker_id, pr_instance_id = worker_instance_id, pr_task_id = task_id,
      pr_generation = generation, pr_allowed_requests = 1,
      pr_max_inflight = pb_max_global_inflight budget, pr_expires_at = now + ttl_seconds,
      pr_active = True, pr_issued_at = now, pr_status_code = None\<rparr>"

definition permit_from_budget ::
  "string \<Rightarrow> worker_row \<Rightarrow> string \<Rightarrow> string \<Rightarrow> int \<Rightarrow> string \<Rightarrow> rat \<Rightarrow> time \<Rightarrow> string \<Rightarrow>
   permit_row list \<Rightarrow> fabric \<Rightarrow> provider_permit option outcome" where
  "permit_from_budget provider worker worker_instance_id task_id generation request_id ttl_seconds
       now permit_id permits s =
     (case tbl_find (\<lambda>b. pb_provider b = provider) (fb_budgets s) of
        None \<Rightarrow> (Inl ProviderAccessDeniedError, s)
      | Some budget \<Rightarrow>
         let live = expire_permits provider now permits in
         if \<not> permit_region_gate budget worker now live s then (Inr None, s)
         else if pb_max_global_inflight budget \<le> int (active_permits provider live) \<or>
                 now < pb_next_request_at budget \<or> now < pb_cooldown_until budget
              then (Inr None, s)
         else let row = mint_permit provider (wk_worker_id worker) worker_instance_id task_id
                    generation request_id ttl_seconds now permit_id budget;
                  budgets = tbl_update (\<lambda>b. pb_provider b = provider)
                    (\<lambda>b. b\<lparr>pb_next_request_at := now + 1 / pb_requests_per_second budget,
                           pb_updated_at := now\<rparr>) (fb_budgets s)
              in if permit_id \<in> set (List.map pr_permit_id live) \<or>
                    (wk_worker_id worker, request_id) \<in>
                      set (List.map (\<lambda>p. (pr_worker_id p, pr_request_id p)) live)
                 then (Inl IntegrityError, s)
                 else (Inr (Some (permit_of_row row)),
                       s\<lparr>fb_budgets := budgets, fb_permits := live @ [row]\<rparr>))"

definition issue_provider_permit ::
  "string \<Rightarrow> string \<Rightarrow> string \<Rightarrow> string \<Rightarrow> int \<Rightarrow> string \<Rightarrow> rat \<Rightarrow> time \<Rightarrow> time \<Rightarrow> string \<Rightarrow> fabric \<Rightarrow>
   provider_permit option outcome" where
  "issue_provider_permit provider worker_id worker_instance_id task_id generation request_id
       ttl_seconds now assert_now permit_id s =
     (if blank request_id \<or> ttl_seconds \<le> 0 then (Inl ValueError, s)
      else case find_worker worker_id worker_instance_id s of
        Inl e \<Rightarrow> (Inl e, s)
      | Inr worker \<Rightarrow>
        (case assert_active_lease task_id worker_id worker_instance_id generation assert_now s of
           Inl e \<Rightarrow> (Inl e, s)
         | Inr _ \<Rightarrow>
           if provider \<notin> set (wk_allowed_providers worker) then (Inl ProviderAccessDeniedError, s)
           else if \<not> egress_available worker now s then (Inl WorkerEgressBudgetExceededError, s)
           else case tbl_find (\<lambda>p. pr_worker_id p = worker_id \<and> pr_request_id p = request_id)
                       (fb_permits s) of
               None \<Rightarrow> permit_from_budget provider worker worker_instance_id task_id generation
                         request_id ttl_seconds now permit_id (fb_permits s) s
             | Some prior \<Rightarrow>
                 if pr_active prior \<and> now < pr_expires_at prior then
                   (if pr_provider prior \<noteq> provider \<or> pr_instance_id prior \<noteq> worker_instance_id \<or>
                       pr_task_id prior \<noteq> task_id \<or> pr_generation prior \<noteq> generation
                    then (Inl ProviderAccessDeniedError, s)
                    else (Inr (Some (permit_of_row prior)), s))
                 else permit_from_budget provider worker worker_instance_id task_id generation
                        request_id ttl_seconds now permit_id
                        (tbl_delete (\<lambda>p. pr_permit_id p = pr_permit_id prior) (fb_permits s)) s))"

definition report_provider_permit ::
  "string \<Rightarrow> string \<Rightarrow> string \<Rightarrow> int option \<Rightarrow> rat \<Rightarrow> int \<Rightarrow> time \<Rightarrow> fabric \<Rightarrow> unit outcome" where
  "report_provider_permit permit_id worker_id worker_instance_id status_code cooldown_seconds
       response_bytes now s =
     (if cooldown_seconds < 0 \<or> response_bytes < 0 then (Inl ValueError, s)
      else case find_worker worker_id worker_instance_id s of
        Inl e \<Rightarrow> (Inl e, s)
      | Inr _ \<Rightarrow>
        (case tbl_find (\<lambda>p. pr_permit_id p = permit_id) (fb_permits s) of
           None \<Rightarrow> (Inl ProviderAccessDeniedError, s)
         | Some row \<Rightarrow>
             if pr_worker_id row \<noteq> worker_id \<or> pr_instance_id row \<noteq> worker_instance_id
             then (Inl ProviderAccessDeniedError, s)
             else if \<not> pr_active row then (Inr (), s)
             else (Inr (), s\<lparr>
               fb_permits := tbl_update (\<lambda>p. pr_permit_id p = permit_id)
                 (\<lambda>p. p\<lparr>pr_active := False, pr_status_code := status_code\<rparr>) (fb_permits s),
               fb_budgets := (if cooldown_seconds \<noteq> 0
                 then tbl_update (\<lambda>b. pb_provider b = pr_provider row)
                        (\<lambda>b. b\<lparr>pb_cooldown_until := max (pb_cooldown_until b) (now + cooldown_seconds),
                               pb_updated_at := now\<rparr>) (fb_budgets s)
                 else fb_budgets s),
               fb_egress := tbl_upsert (\<lambda>r. (eg_worker_id r, eg_day_key r))
                 (\<lambda>r. r\<lparr>eg_response_bytes := eg_response_bytes r + response_bytes, eg_updated_at := now\<rparr>)
                 \<lparr>eg_worker_id = worker_id, eg_day_key = egress_day_key now,
                  eg_response_bytes = response_bytes, eg_updated_at = now\<rparr> (fb_egress s)\<rparr>)))"

end
