(* ===== verification/Fabric_Gc.thy ===== *)
theory Fabric_Gc
  imports Fabric_Permits
begin

text \<open>
  Garbage collection of replay-safe rows and the status snapshot (\<open>gc_transient_state\<close> and
  \<open>status_snapshot\<close> of \<open>authority_store.py\<close>).  Each of the six phases selects at most \<open>limit\<close>
  victims in the order of its \<open>ORDER BY\<close> and deletes or compacts them.
\<close>

record gc_report =
  gc_provider_permits :: nat
  gc_result_batches :: nat
  gc_outbox_events :: nat
  gc_request_nonces :: nat
  gc_egress_days :: nat
  gc_work_payloads_compacted :: nat

definition victims :: "('r \<Rightarrow> 'k) \<Rightarrow> ('r \<Rightarrow> 'o::linorder) \<Rightarrow> ('r \<Rightarrow> bool) \<Rightarrow> nat \<Rightarrow> 'r list \<Rightarrow> 'k list" where
  "victims key order P limit t = List.map key (take limit (tbl_order_by order (filter P t)))"

definition delete_keys :: "('r \<Rightarrow> 'k) \<Rightarrow> 'k list \<Rightarrow> 'r list \<Rightarrow> 'r list" where
  "delete_keys key ks t = tbl_delete (\<lambda>r. key r \<in> set ks) t"

definition gc_permit_keys :: "time \<Rightarrow> nat \<Rightarrow> fabric \<Rightarrow> string list" where
  "gc_permit_keys cutoff limit s = victims pr_permit_id (\<lambda>p. (pr_expires_at p, pr_permit_id p))
     (\<lambda>p. \<not> pr_active p \<and> pr_expires_at p \<le> cutoff) limit (fb_permits s)"

definition gc_batch_keys :: "time \<Rightarrow> nat \<Rightarrow> fabric \<Rightarrow> string list" where
  "gc_batch_keys cutoff limit s = victims bt_batch_id (\<lambda>b. (bt_committed_at b, bt_batch_id b))
     (\<lambda>b. (case bt_consumed_at b of None \<Rightarrow> False | Some t \<Rightarrow> t \<le> cutoff) \<or>
          (bt_quarantined b \<and> bt_committed_at b \<le> cutoff)) limit (fb_batches s)"

definition gc_outbox_keys :: "time \<Rightarrow> nat \<Rightarrow> fabric \<Rightarrow> string list" where
  "gc_outbox_keys cutoff limit s = victims ob_event_id (\<lambda>e. (ob_created_at e, ob_event_id e))
     (\<lambda>e. (case ob_published_at e of
             Some t \<Rightarrow> t \<le> cutoff
           | None \<Rightarrow> \<not> fb_emit_outbox s \<and> ob_created_at e \<le> cutoff)) limit (fb_outbox s)"

definition gc_nonce_keys :: "time \<Rightarrow> nat \<Rightarrow> fabric \<Rightarrow> (string \<times> string) list" where
  "gc_nonce_keys cutoff limit s = victims (\<lambda>r. (nc_worker_id r, nc_nonce r))
     (\<lambda>r. (nc_seen_at r, nc_worker_id r, nc_nonce r)) (\<lambda>r. nc_seen_at r \<le> cutoff) limit (fb_nonces s)"

definition gc_egress_keys :: "time \<Rightarrow> nat \<Rightarrow> fabric \<Rightarrow> (string \<times> int) list" where
  "gc_egress_keys cutoff limit s = victims (\<lambda>r. (eg_worker_id r, eg_day_key r))
     (\<lambda>r. (eg_updated_at r, eg_worker_id r, eg_day_key r)) (\<lambda>r. eg_updated_at r \<le> cutoff) limit (fb_egress s)"

definition gc_work_keys :: "time \<Rightarrow> nat \<Rightarrow> fabric \<Rightarrow> string list" where
  "gc_work_keys cutoff limit s = victims fw_task_id (\<lambda>w. (fw_updated_at w, fw_task_id w))
     (\<lambda>w. fw_state w = COMPLETE \<and> fw_updated_at w \<le> cutoff \<and> fw_payload w \<noteq> JObj [] \<and>
          \<not> (\<exists>b \<in> set (fb_batches s). bt_task_id b = fw_task_id w \<and> bt_consumed_at b = None \<and>
               \<not> bt_quarantined b) \<and>
          \<not> (\<exists>p \<in> set (fb_permits s). pr_task_id p = fw_task_id w \<and> pr_active p))
     limit (fb_work s)"

definition compact_work :: "string list \<Rightarrow> work_row list \<Rightarrow> work_row list" where
  "compact_work ids t = tbl_update (\<lambda>w. fw_task_id w \<in> set ids)
     (\<lambda>w. w\<lparr>fw_payload := JObj [], fw_cursor := None, fw_last_error := None\<rparr>) t"

definition gc_permits :: "time \<Rightarrow> nat \<Rightarrow> fabric \<Rightarrow> nat \<times> fabric" where
  "gc_permits cutoff n s = (let ks = gc_permit_keys cutoff n s in
     (tbl_count (\<lambda>p. pr_permit_id p \<in> set ks) (fb_permits s),
      s\<lparr>fb_permits := delete_keys pr_permit_id ks (fb_permits s)\<rparr>))"

definition gc_batches :: "time \<Rightarrow> nat \<Rightarrow> fabric \<Rightarrow> nat \<times> fabric" where
  "gc_batches cutoff n s = (let ks = gc_batch_keys cutoff n s in
     (tbl_count (\<lambda>b. bt_batch_id b \<in> set ks) (fb_batches s),
      s\<lparr>fb_batch_artifacts := delete_keys fst ks (fb_batch_artifacts s),
        fb_batches := delete_keys bt_batch_id ks (fb_batches s)\<rparr>))"

definition gc_outbox :: "time \<Rightarrow> nat \<Rightarrow> fabric \<Rightarrow> nat \<times> fabric" where
  "gc_outbox cutoff n s = (let ks = gc_outbox_keys cutoff n s in
     (tbl_count (\<lambda>e. ob_event_id e \<in> set ks) (fb_outbox s),
      s\<lparr>fb_outbox := delete_keys ob_event_id ks (fb_outbox s)\<rparr>))"

definition gc_nonces :: "time \<Rightarrow> nat \<Rightarrow> fabric \<Rightarrow> nat \<times> fabric" where
  "gc_nonces cutoff n s = (let ks = gc_nonce_keys cutoff n s in
     (length ks, s\<lparr>fb_nonces := delete_keys (\<lambda>r. (nc_worker_id r, nc_nonce r)) ks (fb_nonces s)\<rparr>))"

definition gc_egress :: "time \<Rightarrow> nat \<Rightarrow> fabric \<Rightarrow> nat \<times> fabric" where
  "gc_egress cutoff n s = (let ks = gc_egress_keys cutoff n s in
     (length ks, s\<lparr>fb_egress := delete_keys (\<lambda>r. (eg_worker_id r, eg_day_key r)) ks (fb_egress s)\<rparr>))"

definition gc_work :: "time \<Rightarrow> nat \<Rightarrow> fabric \<Rightarrow> nat \<times> fabric" where
  "gc_work cutoff n s = (let ks = gc_work_keys cutoff n s in
     (tbl_count (\<lambda>w. fw_task_id w \<in> set ks) (fb_work s), s\<lparr>fb_work := compact_work ks (fb_work s)\<rparr>))"

lemmas gc_phase_defs = gc_permits_def gc_batches_def gc_outbox_def gc_nonces_def gc_egress_def gc_work_def

definition gc_transient_state :: "pyval \<Rightarrow> pyval \<Rightarrow> time \<Rightarrow> fabric \<Rightarrow> gc_report outcome" where
  "gc_transient_state retention_seconds limit now s =
     (if \<not> (case as_number retention_seconds of None \<Rightarrow> False | Some q \<Rightarrow> 0 < q) then (Inl ValueError, s)
      else if \<not> (nonneg_int limit \<and> 1 \<le> the_int_of limit) then (Inl ValueError, s)
      else let cutoff = now - the_number_of retention_seconds;
               n = nat (the_int_of limit);
               (permits, s1) = gc_permits cutoff n s;
               (batches, s2) = gc_batches cutoff n s1;
               (events, s3) = gc_outbox cutoff n s2;
               (nonces, s4) = gc_nonces cutoff n s3;
               (days, s5) = gc_egress cutoff n s4;
               (compacted, s6) = gc_work cutoff n s5
           in (Inr \<lparr>gc_provider_permits = permits, gc_result_batches = batches,
                    gc_outbox_events = events, gc_request_nonces = nonces, gc_egress_days = days,
                    gc_work_payloads_compacted = compacted\<rparr>, s6))"

text \<open>A run of the collector is its six phases in order, or nothing when an argument is refused.\<close>

lemma gc_phases:
  assumes "gc_transient_state ret lmt now s = (x, t)"
  obtains "t = s" "x = Inl ValueError"
  | c n where "t = snd (gc_work c n (snd (gc_egress c n (snd (gc_nonces c n (snd (gc_outbox c n
      (snd (gc_batches c n (snd (gc_permits c n s)))))))))))"
  using assms
  by (auto simp: gc_transient_state_def case_prod_unfold split: if_splits simp del: not_le
      simp: Let_def)

section \<open>Status\<close>

record worker_health =
  wh_worker_id :: string
  wh_instance_id :: string
  wh_runtime_class :: string
  wh_region :: string
  wh_last_heartbeat :: time
  wh_age :: rat
  wh_stale :: bool

record status =
  st_workers :: nat
  st_stale_workers :: nat
  st_worker_health :: "worker_health list"
  st_pending :: nat
  st_leased :: nat
  st_complete :: nat
  st_dead :: nat
  st_compacted_work :: nat
  st_unconsumed_batches :: nat
  st_quarantined_batches :: nat
  st_retained_batches :: nat
  st_inactive_provider_permits :: nat
  st_pending_outbox :: nat

definition worker_health_of :: "rat \<Rightarrow> time \<Rightarrow> worker_row \<Rightarrow> worker_health" where
  "worker_health_of stale_after now r =
     (let age = max 0 (now - wk_last_heartbeat r) in
      \<lparr>wh_worker_id = wk_worker_id r, wh_instance_id = wk_instance_id r,
       wh_runtime_class = wk_runtime_class r, wh_region = wk_region r,
       wh_last_heartbeat = wk_last_heartbeat r, wh_age = age, wh_stale = (stale_after < age)\<rparr>)"

definition work_in_state :: "work_state \<Rightarrow> fabric \<Rightarrow> nat" where
  "work_in_state st s = tbl_count (\<lambda>r. fw_state r = st) (fb_work s)"

definition status_snapshot :: "rat \<Rightarrow> time \<Rightarrow> fabric \<Rightarrow> py_error + status" where
  "status_snapshot stale_after now s =
     check (0 < stale_after) ValueError (
     let health = List.map (worker_health_of stale_after now)
           (tbl_order_by wk_worker_id (filter (\<lambda>r. \<not> wk_revoked r) (fb_workers s)))
     in Inr \<lparr>st_workers = length health, st_stale_workers = length (filter wh_stale health),
       st_worker_health = health,
       st_pending = work_in_state PENDING s + work_in_state RETRY s,
       st_leased = work_in_state LEASED s, st_complete = work_in_state COMPLETE s,
       st_dead = work_in_state DEAD s,
       st_compacted_work = tbl_count (\<lambda>r. fw_state r = COMPLETE \<and> fw_payload r = JObj []) (fb_work s),
       st_unconsumed_batches = tbl_count (\<lambda>b. bt_consumed_at b = None \<and> \<not> bt_quarantined b) (fb_batches s),
       st_quarantined_batches = tbl_count bt_quarantined (fb_batches s),
       st_retained_batches = length (fb_batches s),
       st_inactive_provider_permits = tbl_count (\<lambda>p. \<not> pr_active p) (fb_permits s),
       st_pending_outbox = tbl_count (\<lambda>e. ob_published_at e = None) (fb_outbox s)\<rparr>)"

end
