(* ===== verification/Fabric_Invariant.thy ===== *)
theory Fabric_Invariant
  imports Fabric_Gc
begin

text \<open>
  The invariant of the authority store and what each operation does to the work table.

  \<open>row_ok\<close> describes one work row (a lease is recorded exactly while the row is leased, the lease
  generation counts the attempts, attempts never exceed the limit), \<open>row_le\<close> how a row may change
  (identity fixed, generation and sequence number never decrease, terminal states are final), and
  \<open>fabric_inv\<close> adds the keys of the tables and the agreement of stored batches with their task.
  The effect lemmas say what the outcome of an operation is in terms of the store before it.
\<close>

section \<open>Keys\<close>

interpretation task: keyed_table fw_task_id "\<lambda>f. \<forall>r. fw_task_id (f r) = fw_task_id r"
  by unfold_locales simp

interpretation wkey: keyed_table fw_work_key "\<lambda>f. \<forall>r. fw_work_key (f r) = fw_work_key r"
  by unfold_locales simp

interpretation worker: keyed_table wk_worker_id "\<lambda>f. \<forall>r. wk_worker_id (f r) = wk_worker_id r"
  by unfold_locales simp

interpretation batch: keyed_table bt_batch_id "\<lambda>f. \<forall>r. bt_batch_id (f r) = bt_batch_id r"
  by unfold_locales simp

interpretation permit: keyed_table pr_permit_id "\<lambda>f. \<forall>r. pr_permit_id (f r) = pr_permit_id r"
  by unfold_locales simp

interpretation budget: keyed_table pb_provider "\<lambda>f. \<forall>r. pb_provider (f r) = pb_provider r"
  by unfold_locales simp

section \<open>Rows\<close>

definition row_ok :: "work_row \<Rightarrow> bool" where
  "row_ok r \<longleftrightarrow>
     (if fw_state r = LEASED
      then fw_lease_owner r \<noteq> None \<and> fw_lease_owner_instance r \<noteq> None \<and> fw_lease_deadline r \<noteq> None \<and>
           1 \<le> fw_attempt r
      else fw_lease_owner r = None \<and> fw_lease_owner_instance r = None \<and> fw_lease_deadline r = None) \<and>
     fw_lease_generation r = fw_attempt r \<and> 0 \<le> fw_attempt r \<and> fw_attempt r \<le> fw_max_attempts r \<and>
     0 \<le> fw_next_sequence_no r"

definition row_le :: "work_row \<Rightarrow> work_row \<Rightarrow> bool" where
  "row_le r r' \<longleftrightarrow>
     fw_task_id r' = fw_task_id r \<and> fw_work_key r' = fw_work_key r \<and>
     fw_max_attempts r' = fw_max_attempts r \<and> fw_attempt r \<le> fw_attempt r' \<and>
     fw_lease_generation r \<le> fw_lease_generation r' \<and> fw_next_sequence_no r \<le> fw_next_sequence_no r' \<and>
     (fw_state r = COMPLETE \<longrightarrow> fw_state r' = COMPLETE) \<and> (fw_state r = DEAD \<longrightarrow> fw_state r' = DEAD)"

lemma row_le_refl [simp, intro]: "row_le r r"
  by (simp add: row_le_def)

lemma row_le_trans [trans]: "row_le r r' \<Longrightarrow> row_le r' r'' \<Longrightarrow> row_le r r''"
  by (auto simp: row_le_def)

lemma row_leD:
  assumes "row_le r r'"
  shows "fw_task_id r' = fw_task_id r" "fw_work_key r' = fw_work_key r"
    "fw_lease_generation r \<le> fw_lease_generation r'" "fw_next_sequence_no r \<le> fw_next_sequence_no r'"
    "fw_state r = COMPLETE \<Longrightarrow> fw_state r' = COMPLETE" "fw_state r = DEAD \<Longrightarrow> fw_state r' = DEAD"
  using assms by (auto simp: row_le_def)

definition work_inv :: "work_row list \<Rightarrow> bool" where
  "work_inv ws \<longleftrightarrow> uniq fw_task_id ws \<and> uniq fw_work_key ws \<and> (\<forall>r \<in> set ws. row_ok r)"

text \<open>How the work table evolves: rows change along \<open>row_le\<close> in place and new rows are appended.\<close>

definition work_evolves :: "work_row list \<Rightarrow> work_row list \<Rightarrow> bool" where
  "work_evolves ws ws' \<longleftrightarrow> (\<exists>f new. ws' = List.map f ws @ new \<and> (\<forall>r \<in> set ws. row_le r (f r)))"

lemma evolves_refl [simp, intro]: "work_evolves ws ws"
  unfolding work_evolves_def by (rule exI [of _ id]) auto

lemma evolves_update:
  assumes "\<And>r. r \<in> set ws \<Longrightarrow> P r \<Longrightarrow> row_le r (f r)"
  shows "work_evolves ws (tbl_update P f ws)"
  unfolding work_evolves_def tbl_update_def
  using assms by (intro exI [of _ "\<lambda>r. if P r then f r else r"] exI [of _ "[]"]) auto

lemma evolves_append: "work_evolves ws (ws @ [r])"
  unfolding work_evolves_def by (intro exI [of _ id]) auto

lemma evolves_trans:
  assumes "work_evolves a b" "work_evolves b c"
  shows "work_evolves a c"
proof -
  obtain f n where b: "b = List.map f a @ n" "\<forall>r \<in> set a. row_le r (f r)"
    using assms(1) unfolding work_evolves_def by blast
  obtain g m where c: "c = List.map g b @ m" "\<forall>r \<in> set b. row_le r (g r)"
    using assms(2) unfolding work_evolves_def by blast
  have "c = List.map (\<lambda>r. g (f r)) a @ (List.map g n @ m)" using b c by simp
  moreover have "\<forall>r \<in> set a. row_le r (g (f r))" using b c row_le_trans by simp blast
  ultimately show ?thesis unfolding work_evolves_def by blast
qed

lemma work_inv_update:
  assumes "work_inv ws" and "\<And>r. r \<in> set ws \<Longrightarrow> P r \<Longrightarrow> row_le r (f r) \<and> row_ok (f r)"
  shows "work_inv (tbl_update P f ws)"
proof -
  let ?g = "\<lambda>r. if P r then f r else r"
  have "List.map fw_task_id (tbl_update P f ws) = List.map fw_task_id ws"
    "List.map fw_work_key (tbl_update P f ws) = List.map fw_work_key ws"
    using assms(2) by (auto simp: tbl_update_def row_le_def)
  moreover have "\<forall>r \<in> set (tbl_update P f ws). row_ok r"
    using assms by (auto simp: table_simps work_inv_def)
  ultimately show ?thesis using assms(1) by (simp add: work_inv_def uniq_def)
qed

lemma evolves_find:
  assumes "work_evolves ws ws'" "r \<in> set ws"
  obtains r' where "r' \<in> set ws'" "row_le r r'"
  using assms unfolding work_evolves_def by force

section \<open>The invariant of the store\<close>

definition batch_ok :: "codec \<Rightarrow> work_row list \<Rightarrow> batch_row \<Rightarrow> bool" where
  "batch_ok E ws b \<longleftrightarrow>
     batch_id E (bt_task_id b) (bt_sequence_no b) = Inr (bt_batch_id b) \<and>
     (\<exists>r \<in> set ws. fw_task_id r = bt_task_id b \<and> bt_sequence_no b < fw_next_sequence_no r)"

definition fabric_inv :: "codec \<Rightarrow> fabric \<Rightarrow> bool" where
  "fabric_inv E s \<longleftrightarrow> work_inv (fb_work s) \<and>
     uniq wk_worker_id (fb_workers s) \<and> uniq bt_batch_id (fb_batches s) \<and>
     uniq pr_permit_id (fb_permits s) \<and> uniq pb_provider (fb_budgets s) \<and>
     (\<forall>b \<in> set (fb_budgets s). 0 < pb_requests_per_second b) \<and>
     (\<forall>b \<in> set (fb_batches s). batch_ok E (fb_work s) b)"

lemma fabric_invD:
  assumes "fabric_inv E s"
  shows "work_inv (fb_work s)" "uniq wk_worker_id (fb_workers s)" "uniq bt_batch_id (fb_batches s)"
    "uniq pr_permit_id (fb_permits s)" "uniq pb_provider (fb_budgets s)"
    "\<And>b. b \<in> set (fb_budgets s) \<Longrightarrow> 0 < pb_requests_per_second b"
    "\<And>b. b \<in> set (fb_batches s) \<Longrightarrow> batch_ok E (fb_work s) b"
  using assms by (auto simp: fabric_inv_def)

lemma fabric_inv_empty: "fabric_inv E (empty_fabric em)"
  by (simp add: fabric_inv_def empty_fabric_def work_inv_def)

lemma batch_ok_evolves: "batch_ok E ws b \<Longrightarrow> work_evolves ws ws' \<Longrightarrow> batch_ok E ws' b"
  by (force simp: batch_ok_def row_le_def elim: evolves_find)

lemma fabric_inv_frame:
  assumes "fabric_inv E s" "work_inv (fb_work t)" "work_evolves (fb_work s) (fb_work t)"
    "uniq wk_worker_id (fb_workers t)" "uniq pr_permit_id (fb_permits t)" "uniq pb_provider (fb_budgets t)"
    "\<And>b. b \<in> set (fb_budgets t) \<Longrightarrow> 0 < pb_requests_per_second b"
    "uniq bt_batch_id (fb_batches t)"
    "\<And>b. b \<in> set (fb_batches t) \<Longrightarrow> (\<exists>b' \<in> set (fb_batches s). bt_task_id b' = bt_task_id b \<and>
        bt_sequence_no b' = bt_sequence_no b \<and> bt_batch_id b' = bt_batch_id b) \<or> batch_ok E (fb_work t) b"
  shows "fabric_inv E t"
proof -
  have "batch_ok E (fb_work t) b" if b: "b \<in> set (fb_batches t)" for b
  proof (rule disjE [OF assms(9) [OF b]])
    assume "\<exists>b' \<in> set (fb_batches s). bt_task_id b' = bt_task_id b \<and>
        bt_sequence_no b' = bt_sequence_no b \<and> bt_batch_id b' = bt_batch_id b"
    then obtain b' where "b' \<in> set (fb_batches s)" and eq: "bt_task_id b' = bt_task_id b"
        "bt_sequence_no b' = bt_sequence_no b" "bt_batch_id b' = bt_batch_id b" by blast
    then have "batch_ok E (fb_work t) b'"
      using fabric_invD(7) [OF assms(1)] assms(3) by (blast intro: batch_ok_evolves)
    then show ?thesis by (simp add: batch_ok_def eq)
  qed
  with assms show ?thesis by (auto simp: fabric_inv_def)
qed

text \<open>The active lease names the row with the task's identifier.\<close>

lemma find_work_iff: "work_inv (fb_work s) \<Longrightarrow> find_work tid s = Some r \<longleftrightarrow> r \<in> set (fb_work s) \<and> fw_task_id r = tid"
  unfolding find_work_def work_inv_def using task.find_key_iff by blast

lemma active_leaseD:
  assumes "assert_active_lease tid w i g now s = Inr r" "work_inv (fb_work s)"
  shows "r \<in> set (fb_work s)" "fw_task_id r = tid" "fw_state r = LEASED" "fw_lease_generation r = g"
    "fw_lease_owner r = Some w" "fw_lease_owner_instance r = Some i"
    "\<exists>d. fw_lease_deadline r = Some d \<and> now < d"
    "\<And>r'. r' \<in> set (fb_work s) \<Longrightarrow> fw_task_id r' = tid \<Longrightarrow> r' = r"
proof -
  have a: "find_work tid s = Some r" "fw_state r = LEASED" "fw_lease_generation r = g"
    "py_str (fw_lease_owner r) = w" "py_str (fw_lease_owner_instance r) = i"
    "\<exists>d. fw_lease_deadline r = Some d \<and> now < d"
    using assms(1) by (auto simp: assert_active_lease_def split: option.splits if_splits)
  have r: "r \<in> set (fb_work s)" "fw_task_id r = tid" using a(1) find_work_iff [OF assms(2)] by auto
  then have "row_ok r" using assms(2) by (simp add: work_inv_def)
  then have "fw_lease_owner r \<noteq> None" "fw_lease_owner_instance r \<noteq> None" using a(2) by (auto simp: row_ok_def)
  then show "fw_lease_owner r = Some w" "fw_lease_owner_instance r = Some i"
    using a(4,5) by (auto simp: py_str_def)
  show "r \<in> set (fb_work s)" "fw_task_id r = tid" "fw_state r = LEASED" "fw_lease_generation r = g"
    "\<exists>d. fw_lease_deadline r = Some d \<and> now < d" using a r by auto
  show "\<And>r'. r' \<in> set (fb_work s) \<Longrightarrow> fw_task_id r' = tid \<Longrightarrow> r' = r"
    using task.uniqD [of "fb_work s"] r assms(2) by (auto simp: work_inv_def)
qed

end
