(* ===== verification/Fabric_Steps.thy ===== *)
theory Fabric_Steps
  imports Fabric_Invariant
begin

text \<open>
  One rule per operation of the authority store, the effect of each operation on the tables, and the
  proof that every operation keeps \<open>fabric_inv\<close> and lets the work table evolve along \<open>row_le\<close>.
  The locale \<open>machine\<close> then gives the invariant for every reachable store.
\<close>

section \<open>Effects\<close>

lemma emit_frame:
  assumes "emit_locked now ev ty ag p s = Inr t"
  obtains ob where "t = s\<lparr>fb_outbox := ob\<rparr>"
proof (cases "fb_emit_outbox s")
  case True
  with assms that show ?thesis by (auto simp: emit_locked_def tbl_insert_Inr)
next
  case False
  with assms have "t = s" by (simp add: emit_locked_def)
  with that [of "fb_outbox s"] show ?thesis by simp
qed

lemma inv_frame [simp]:
  "fabric_inv E (s\<lparr>fb_outbox := ob\<rparr>) = fabric_inv E s"
  "fabric_inv E (s\<lparr>fb_nonces := nc\<rparr>) = fabric_inv E s"
  "fabric_inv E (s\<lparr>fb_egress := eg\<rparr>) = fabric_inv E s"
  "fabric_inv E (s\<lparr>fb_regions := rg\<rparr>) = fabric_inv E s"
  "fabric_inv E (s\<lparr>fb_artifacts := af\<rparr>) = fabric_inv E s"
  "fabric_inv E (s\<lparr>fb_batch_artifacts := ba\<rparr>) = fabric_inv E s"
  by (simp_all add: fabric_inv_def)

lemma inv_update_workers:
  "fabric_inv E s \<Longrightarrow> uniq wk_worker_id ws \<Longrightarrow> fabric_inv E (s\<lparr>fb_workers := ws\<rparr>)"
  by (simp add: fabric_inv_def)

lemma inv_update_permits:
  "fabric_inv E s \<Longrightarrow> uniq pr_permit_id ps \<Longrightarrow> fabric_inv E (s\<lparr>fb_permits := ps\<rparr>)"
  by (simp add: fabric_inv_def)

lemma inv_update_budgets:
  "fabric_inv E s \<Longrightarrow> uniq pb_provider bs \<Longrightarrow> (\<And>b. b \<in> set bs \<Longrightarrow> 0 < pb_requests_per_second b) \<Longrightarrow>
   fabric_inv E (s\<lparr>fb_budgets := bs\<rparr>)"
  by (simp add: fabric_inv_def)

lemma inv_update_work:
  assumes inv: "fabric_inv E s" and up: "\<And>r. r \<in> set (fb_work s) \<Longrightarrow> P r \<Longrightarrow> row_ok r \<Longrightarrow> row_le r (f r) \<and> row_ok (f r)"
  shows "fabric_inv E (s\<lparr>fb_work := tbl_update P f (fb_work s)\<rparr>)"
    "work_evolves (fb_work s) (tbl_update P f (fb_work s))"
proof -
  have up': "row_le r (f r) \<and> row_ok (f r)" if "r \<in> set (fb_work s)" "P r" for r
    using up that fabric_invD(1) [OF inv] by (simp add: work_inv_def)
  show ev: "work_evolves (fb_work s) (tbl_update P f (fb_work s))"
    using up' by (intro evolves_update) blast
  show "fabric_inv E (s\<lparr>fb_work := tbl_update P f (fb_work s)\<rparr>)"
    by (rule fabric_inv_frame [OF inv])
       (use work_inv_update [OF fabric_invD(1) [OF inv] up'] ev fabric_invD [OF inv] in auto)
qed

lemma release_row: "row_ok r \<Longrightarrow> fw_state r = LEASED \<Longrightarrow> row_le r (release_lease now r) \<and> row_ok (release_lease now r)"
  by (auto simp: row_ok_def row_le_def release_lease_def)

lemma register_effect:
  assumes "register_worker d now emit_now ev s = (x, t)"
  shows "t = s \<or> (\<exists>ob. t = s\<lparr>fb_workers := tbl_upsert wk_worker_id (\<lambda>_. worker_row_of d now) (worker_row_of d now) (fb_workers s),
      fb_work := tbl_update (\<lambda>r. fw_state r = LEASED \<and> fw_lease_owner r = Some (wd_worker_id d) \<and>
        fw_lease_owner_instance r \<noteq> None \<and> fw_lease_owner_instance r \<noteq> Some (wd_instance_id d))
        (release_lease now) (fb_work s), fb_outbox := ob\<rparr>)"
  using assms by (auto simp: register_worker_def Let_def split: if_splits sum.splits elim!: emit_frame)

lemma revoke_effect:
  assumes "revoke_worker w now emit_now ev s = (x, t)"
  shows "t = s \<or> (\<exists>ob. t = s\<lparr>fb_workers := tbl_update (\<lambda>r. wk_worker_id r = w)
        (\<lambda>r. r\<lparr>wk_revoked := True, wk_last_heartbeat := now\<rparr>) (fb_workers s),
      fb_work := tbl_update (\<lambda>r. fw_state r = LEASED \<and> fw_lease_owner r = Some w)
        (release_lease now) (fb_work s), fb_outbox := ob\<rparr>)"
  using assms by (auto simp: revoke_worker_def Let_def split: if_splits sum.splits elim!: emit_frame)

lemma admit_effect:
  assumes "admit_work E w now tid emit_now ev s = (x, t)"
  shows "t = s \<or> (\<exists>key ob. work_key_of E w = Inr key \<and> tid \<notin> set (List.map fw_task_id (fb_work s)) \<and>
      key \<notin> set (List.map fw_work_key (fb_work s)) \<and> 1 \<le> df_max_attempts w \<and>
      t = s\<lparr>fb_work := fb_work s @ [new_work_row w key tid now], fb_outbox := ob\<rparr>)"
proof (cases "work_key_of E w")
  case (Inr key)
  let ?s1 = "s\<lparr>fb_work := fb_work s @ [new_work_row w key tid now]\<rparr>"
  have same: "u = v" if "admitted_before k v = (y, u)" for k u v y
    using that by (auto simp: admitted_before_def split: option.splits)
  consider "t = s" | "tid \<notin> set (List.map fw_task_id (fb_work s))" "key \<notin> set (List.map fw_work_key (fb_work s))"
      "1 \<le> df_max_attempts w" "t = ?s1 \<or> (\<exists>ob. t = ?s1\<lparr>fb_outbox := ob\<rparr>)"
    using assms Inr same
    by (auto simp: admit_work_def Let_def split: if_splits sum.splits elim!: emit_frame)
  then show ?thesis
  proof cases
    case 2
    then obtain ob where "t = ?s1\<lparr>fb_outbox := ob\<rparr>" by (metis fabric.surjective fabric.update_convs(7))
    with 2 Inr show ?thesis by auto
  qed simp
qed (use assms in \<open>simp add: admit_work_def\<close>)

lemma claim_effect:
  assumes "claim_work w i lease_seconds now region_now emit_now ev s = (x, t)"
  shows "t = s \<or> (\<exists>chosen ob. chosen \<in> set (fb_work s) \<and> claimable now chosen \<and> 0 < lease_seconds \<and>
      filter (active_for w i now) (fb_work s) = [] \<and>
      t = s\<lparr>fb_work := tbl_update (\<lambda>r. fw_task_id r = fw_task_id chosen \<and>
              fw_lease_generation r = fw_lease_generation chosen)
            (grant_lease w i (fw_lease_generation chosen + 1) (now + lease_seconds) (fw_attempt chosen + 1) now)
            (fb_work s), fb_outbox := ob\<rparr>)"
proof -
  have mem: "chosen \<in> set (fb_work s) \<and> claimable now chosen"
    if "List.find Q (claim_order (filter (claimable now) (fb_work s))) = Some chosen" for Q chosen
    using that by (auto simp: claim_order_def tbl_order_by_def dest!: find_Some_set in_set_takeD)
  have nil: "filter Q ws = []" if "tbl_order_by f (filter Q ws) = []" for f :: "work_row \<Rightarrow> rat \<times> string" and Q ws
    using that by (metis set_empty set_tbl_order_by)
  show ?thesis
    using assms
    by (auto simp: claim_work_def Let_def split: if_splits sum.splits list.splits option.splits
        elim!: emit_frame dest!: mem nil)
qed

lemma renew_effect:
  assumes "renew_task tid w i g lease_seconds ex a_now d_now u_now s = (x, t)"
  shows "t = s \<or> (\<exists>row d. assert_active_lease tid w i g a_now s = Inr row \<and>
      t = s\<lparr>fb_work := tbl_update (\<lambda>r. fw_task_id r = tid)
            (\<lambda>r. r\<lparr>fw_lease_deadline := Some d, fw_updated_at := u_now\<rparr>) (fb_work s)\<rparr>)"
  using assms by (auto simp: renew_task_def Let_def split: if_splits sum.splits)

lemma finish_effect:
  assumes "finish_task tid w i g now a_now emit_now ev s = (x, t)"
  shows "t = s \<or> (\<exists>row ob. assert_active_lease tid w i g a_now s = Inr row \<and>
      t = s\<lparr>fb_work := tbl_update (\<lambda>r. fw_task_id r = tid)
            (\<lambda>r. r\<lparr>fw_state := COMPLETE, fw_lease_owner := None, fw_lease_owner_instance := None,
                   fw_lease_deadline := None, fw_updated_at := now\<rparr>) (fb_work s), fb_outbox := ob\<rparr>)"
  using assms by (auto simp: finish_task_def Let_def split: if_splits sum.splits elim!: emit_frame)

lemma fail_effect:
  assumes "fail_task tid w i g err retryable after now a_now emit_now ev s = (x, t)"
  shows "t = s \<or> (\<exists>row ob st nb. assert_active_lease tid w i g a_now s = Inr row \<and> st \<in> {RETRY, DEAD} \<and>
      t = s\<lparr>fb_work := tbl_update (\<lambda>r. fw_task_id r = tid)
            (\<lambda>r. r\<lparr>fw_state := st, fw_lease_owner := None, fw_lease_owner_instance := None,
                   fw_lease_deadline := None, fw_not_before := nb, fw_last_error := Some (take 2000 err),
                   fw_updated_at := now\<rparr>) (fb_work s), fb_outbox := ob\<rparr>)"
  using assms
  by (auto simp: fail_task_def Let_def split: if_splits sum.splits elim!: emit_frame; blast)

lemma put_artifacts_frame:
  "put_artifacts E bid tid now as s = Inr t \<Longrightarrow>
   \<exists>af ba. t = s\<lparr>fb_artifacts := af, fb_batch_artifacts := ba\<rparr>"
proof (induction E bid tid now as s rule: put_artifacts.induct)
  case (1 E bid tid now s)
  then have "t = s\<lparr>fb_artifacts := fb_artifacts s, fb_batch_artifacts := fb_batch_artifacts s\<rparr>" by simp
  then show ?case by blast
next
  case (2 E bid tid now a as s)
  then show ?case by (fastforce simp: Let_def split: if_splits)
qed

definition stored_batch :: "codec \<Rightarrow> result_batch \<Rightarrow> string \<Rightarrow> time \<Rightarrow> batch_row" where
  "stored_batch E b bid now = \<lparr>bt_batch_id = bid, bt_task_id = rb_task_id b,
     bt_generation = rb_generation b, bt_sequence_no = rb_sequence_no b,
     bt_payload = batch_payload E b, bt_payload_digest = payload_digest E (batch_payload E b),
     bt_cursor_after = rb_cursor_after b, bt_final = rb_final b,
     bt_committed_at = now, bt_consumed_at = None, bt_consume_attempts = 0,
     bt_consume_error = None, bt_quarantined = False\<rparr>"

lemma commit_effect:
  assumes "commit_result_batch E b w i now a_now emit_now ev s = (x, t)"
  shows "(t = s \<and> x \<noteq> Inr True) \<or> (\<exists>row bid af ba ob. x = Inr True \<and>
      assert_active_lease (rb_task_id b) w i (rb_generation b) a_now s = Inr row \<and>
      fw_next_sequence_no row = rb_sequence_no b \<and>
      batch_id E (rb_task_id b) (rb_sequence_no b) = Inr bid \<and> bid \<notin> bt_batch_id ` set (fb_batches s) \<and>
      t = s\<lparr>fb_batches := fb_batches s @ [stored_batch E b bid now],
            fb_artifacts := af, fb_batch_artifacts := ba,
            fb_work := tbl_update (\<lambda>r. fw_task_id r = rb_task_id b) (advance_work b now) (fb_work s),
            fb_outbox := ob\<rparr>)"
proof (cases "batch_id E (rb_task_id b) (rb_sequence_no b)")
  case (Inl e)
  then show ?thesis using assms by (auto simp: commit_result_batch_def)
next
  case bid: (Inr bid)
  show ?thesis
  proof (cases "tbl_find (\<lambda>r. bt_batch_id r = bid) (fb_batches s)")
    case (Some old)
    then show ?thesis using assms bid by (auto simp: commit_result_batch_def split: if_splits)
  next
    case None
    then have new: "bid \<notin> bt_batch_id ` set (fb_batches s)" by (auto simp: tbl_find_None)
    show ?thesis
    proof (cases "assert_active_lease (rb_task_id b) w i (rb_generation b) a_now s")
      case (Inl e)
      then show ?thesis using assms bid None by (auto simp: commit_result_batch_def)
    next
      case (Inr row)
      show ?thesis
        using assms bid None Inr new
        by (auto simp: commit_result_batch_def Let_def stored_batch_def split: if_splits sum.splits
            elim!: emit_frame dest!: put_artifacts_frame) blast
    qed
  qed
qed

section \<open>The step relation\<close>

inductive fabric_step :: "codec \<Rightarrow> fabric \<Rightarrow> fabric \<Rightarrow> bool" for E where
  nonce: "consume_request_nonce w n ret now s = (x, t) \<Longrightarrow> fabric_step E s t"
| register: "register_worker d now emit_now ev s = (x, t) \<Longrightarrow> fabric_step E s t"
| heartbeat: "heartbeat w i now s = (x, t) \<Longrightarrow> fabric_step E s t"
| revoke: "revoke_worker w now emit_now ev s = (x, t) \<Longrightarrow> fabric_step E s t"
| admit: "admit_work E d now tid emit_now ev s = (x, t) \<Longrightarrow> fabric_step E s t"
| claim: "claim_work w i secs now region_now emit_now ev s = (x, t) \<Longrightarrow> fabric_step E s t"
| renew: "renew_task tid w i g secs ex a_now d_now u_now s = (x, t) \<Longrightarrow> fabric_step E s t"
| commit: "commit_result_batch E b w i now a_now emit_now ev s = (x, t) \<Longrightarrow> fabric_step E s t"
| finish: "finish_task tid w i g now a_now emit_now ev s = (x, t) \<Longrightarrow> fabric_step E s t"
| fail: "fail_task tid w i g err retryable after now a_now emit_now ev s = (x, t) \<Longrightarrow> fabric_step E s t"
| consumed: "mark_batch_consumed bid now s = (x, t) \<Longrightarrow> fabric_step E s t"
| consume_failed: "mark_batch_consume_failed bid err m s = (x, t) \<Longrightarrow> fabric_step E s t"
| published: "mark_outbox_published ev now s = (x, t) \<Longrightarrow> fabric_step E s t"
| configure: "configure_provider_budget p rps fl rq pr rep now s = (x, t) \<Longrightarrow> fabric_step E s t"
| observe: "record_provider_region_observation p w i tid g cs st lat rb tmo pb a_now now s = (x, t) \<Longrightarrow>
    fabric_step E s t"
| permit: "issue_provider_permit p w i tid g rid ttl now a_now pid s = (x, t) \<Longrightarrow> fabric_step E s t"
| report: "report_provider_permit pid w i st cd rb now s = (x, t) \<Longrightarrow> fabric_step E s t"
| gc: "gc_transient_state ret lmt now s = (x, t) \<Longrightarrow> fabric_step E s t"

section \<open>Every step keeps the invariant\<close>

definition kept :: "codec \<Rightarrow> fabric \<Rightarrow> fabric \<Rightarrow> bool" where
  "kept E s t \<longleftrightarrow> fabric_inv E t \<and> work_evolves (fb_work s) (fb_work t)"

lemma kept_refl: "fabric_inv E s \<Longrightarrow> kept E s s"
  by (simp add: kept_def)

lemma kept_same_work: "fabric_inv E t \<Longrightarrow> fb_work t = fb_work s \<Longrightarrow> kept E s t"
  by (simp add: kept_def)

lemma kept_update:
  assumes "fabric_inv E s" "t = s\<lparr>fb_work := tbl_update P f (fb_work s), fb_outbox := ob\<rparr>"
    "\<And>r. r \<in> set (fb_work s) \<Longrightarrow> P r \<Longrightarrow> row_ok r \<Longrightarrow> row_le r (f r) \<and> row_ok (f r)"
  shows "kept E s t"
  using inv_update_work [OF assms(1,3)] assms(2) by (simp add: kept_def)

text \<open>An update of the row whose lease was asserted.\<close>

lemma kept_active:
  assumes inv: "fabric_inv E s" and act: "assert_active_lease tid w i g now s = Inr row"
    and t: "t = s\<lparr>fb_work := tbl_update (\<lambda>r. fw_task_id r = tid) f (fb_work s), fb_outbox := ob\<rparr>"
    and f: "row_ok row \<Longrightarrow> fw_state row = LEASED \<Longrightarrow> row_le row (f row) \<and> row_ok (f row)"
  shows "kept E s t"
proof (rule kept_update [OF inv t])
  fix r assume r: "r \<in> set (fb_work s)" "fw_task_id r = tid" "row_ok r"
  note a = active_leaseD [OF act fabric_invD(1) [OF inv]]
  have "r = row" using a(8) r by blast
  with f a(3) r(3) show "row_le r (f r) \<and> row_ok (f r)" by simp
qed

lemma kept_register:
  "fabric_inv E s \<Longrightarrow> register_worker d now emit_now ev s = (x, t) \<Longrightarrow> kept E s t"
proof (drule register_effect, elim disjE exE)
  fix ob
  let ?P = "\<lambda>r :: work_row. fw_state r = LEASED \<and> fw_lease_owner r = Some (wd_worker_id d) \<and>
        fw_lease_owner_instance r \<noteq> None \<and> fw_lease_owner_instance r \<noteq> Some (wd_instance_id d)"
  let ?ws = "tbl_upsert wk_worker_id (\<lambda>_. worker_row_of d now) (worker_row_of d now) (fb_workers s)"
  assume inv: "fabric_inv E s" and t: "t = s\<lparr>fb_workers := ?ws,
      fb_work := tbl_update ?P (release_lease now) (fb_work s), fb_outbox := ob\<rparr>"
  have "uniq wk_worker_id ?ws" by (rule worker.uniq_upsert_row [OF fabric_invD(2) [OF inv]])
  then have "fabric_inv E (s\<lparr>fb_workers := ?ws\<rparr>)" by (rule inv_update_workers [OF inv])
  then have "kept E (s\<lparr>fb_workers := ?ws\<rparr>) t"
    by (rule kept_update [where P = ?P and f = "release_lease now" and ob = ob]) (use t release_row in auto)
  then show "kept E s t" by (simp add: kept_def)
qed (simp add: kept_refl)

lemma kept_revoke:
  "fabric_inv E s \<Longrightarrow> revoke_worker w now emit_now ev s = (x, t) \<Longrightarrow> kept E s t"
proof (drule revoke_effect, elim disjE exE)
  fix ob
  let ?P = "\<lambda>r :: work_row. fw_state r = LEASED \<and> fw_lease_owner r = Some w"
  let ?ws = "tbl_update (\<lambda>r. wk_worker_id r = w) (\<lambda>r. r\<lparr>wk_revoked := True, wk_last_heartbeat := now\<rparr>) (fb_workers s)"
  assume inv: "fabric_inv E s" and t: "t = s\<lparr>fb_workers := ?ws,
      fb_work := tbl_update ?P (release_lease now) (fb_work s), fb_outbox := ob\<rparr>"
  have "uniq wk_worker_id ?ws" by (rule worker.uniq_update) (use fabric_invD(2) [OF inv] in simp_all)
  then have "fabric_inv E (s\<lparr>fb_workers := ?ws\<rparr>)" by (rule inv_update_workers [OF inv])
  then have "kept E (s\<lparr>fb_workers := ?ws\<rparr>) t"
    by (rule kept_update [where P = ?P and f = "release_lease now" and ob = ob]) (use t release_row in auto)
  then show "kept E s t" by (simp add: kept_def)
qed (simp add: kept_refl)

lemma kept_admit:
  "fabric_inv E s \<Longrightarrow> admit_work E d now tid emit_now ev s = (x, t) \<Longrightarrow> kept E s t"
proof (drule admit_effect, elim disjE exE conjE)
  fix key ob
  let ?r = "new_work_row d key tid now"
  assume inv: "fabric_inv E s" and new: "tid \<notin> set (List.map fw_task_id (fb_work s))"
      "key \<notin> set (List.map fw_work_key (fb_work s))" "1 \<le> df_max_attempts d"
    and t: "t = s\<lparr>fb_work := fb_work s @ [?r], fb_outbox := ob\<rparr>"
  have ev: "work_evolves (fb_work s) (fb_work t)" using t by (simp add: evolves_append)
  have "work_inv (fb_work t)"
    using new fabric_invD(1) [OF inv] t by (auto simp: work_inv_def uniq_def new_work_row_def row_ok_def)
  then have "fabric_inv E t"
    by (rule fabric_inv_frame [OF inv]) (use t ev fabric_invD [OF inv] in auto)
  with ev show "kept E s t" by (simp add: kept_def)
qed (simp add: kept_refl)

lemma grant_row:
  assumes "row_ok r" "claimable now r" "g = fw_lease_generation r + 1" "a = fw_attempt r + 1"
  shows "row_le r (grant_lease w i g d a now r) \<and> row_ok (grant_lease w i g d a now r)"
  using assms by (auto simp: row_ok_def row_le_def grant_lease_def claimable_def)

lemma kept_claim:
  "fabric_inv E s \<Longrightarrow> claim_work w i secs now region_now emit_now ev s = (x, t) \<Longrightarrow> kept E s t"
proof (drule claim_effect, elim disjE exE conjE)
  fix chosen :: work_row and ob
  let ?P = "\<lambda>r :: work_row. fw_task_id r = fw_task_id chosen \<and> fw_lease_generation r = fw_lease_generation chosen"
  assume inv: "fabric_inv E s" and c: "chosen \<in> set (fb_work s)" "claimable now chosen"
    and t: "t = s\<lparr>fb_work := tbl_update ?P (grant_lease w i (fw_lease_generation chosen + 1) (now + secs)
              (fw_attempt chosen + 1) now) (fb_work s), fb_outbox := ob\<rparr>"
  show "kept E s t"
  proof (rule kept_update [OF inv t])
    fix r assume r: "r \<in> set (fb_work s)" "?P r" "row_ok r"
    have "r = chosen"
      using task.uniqD [of "fb_work s" r chosen] fabric_invD(1) [OF inv] r(1,2) c(1) by (simp add: work_inv_def)
    with grant_row r(3) c(2) show "row_le r (grant_lease w i (fw_lease_generation chosen + 1) (now + secs)
          (fw_attempt chosen + 1) now r) \<and> row_ok (grant_lease w i (fw_lease_generation chosen + 1)
          (now + secs) (fw_attempt chosen + 1) now r)" by blast
  qed
qed (simp add: kept_refl)

lemma kept_renew:
  "fabric_inv E s \<Longrightarrow> renew_task tid w i g secs ex a_now d_now u_now s = (x, t) \<Longrightarrow> kept E s t"
  by (drule renew_effect, elim disjE exE conjE, simp add: kept_refl,
      rule kept_active [where ob = "fb_outbox s"], assumption+)
     (auto simp: row_ok_def row_le_def)

lemma kept_finish:
  "fabric_inv E s \<Longrightarrow> finish_task tid w i g now a_now emit_now ev s = (x, t) \<Longrightarrow> kept E s t"
  by (drule finish_effect, elim disjE exE conjE, simp add: kept_refl, rule kept_active, assumption+)
     (auto simp: row_ok_def row_le_def)

lemma kept_fail:
  "fabric_inv E s \<Longrightarrow> fail_task tid w i g err retryable after now a_now emit_now ev s = (x, t) \<Longrightarrow> kept E s t"
  by (drule fail_effect, elim disjE exE conjE, simp add: kept_refl, rule kept_active, assumption+)
     (auto simp: row_ok_def row_le_def)

lemma advance_row:
  "row_ok r \<Longrightarrow> fw_state r = LEASED \<Longrightarrow> row_le r (advance_work b now r) \<and> row_ok (advance_work b now r)"
  by (auto simp: row_ok_def row_le_def advance_work_def)

lemma kept_commit:
  "fabric_inv E s \<Longrightarrow> commit_result_batch E b w i now a_now emit_now ev s = (x, t) \<Longrightarrow> kept E s t"
proof (drule commit_effect, elim disjE exE conjE)
  fix row bid af ba ob
  let ?f = "advance_work b now" and ?P = "\<lambda>r :: work_row. fw_task_id r = rb_task_id b"
  assume inv: "fabric_inv E s"
    and act: "assert_active_lease (rb_task_id b) w i (rb_generation b) a_now s = Inr row"
    and seq: "fw_next_sequence_no row = rb_sequence_no b"
    and bid: "batch_id E (rb_task_id b) (rb_sequence_no b) = Inr bid" "bid \<notin> bt_batch_id ` set (fb_batches s)"
    and t: "t = s\<lparr>fb_batches := fb_batches s @ [stored_batch E b bid now],
            fb_artifacts := af, fb_batch_artifacts := ba,
            fb_work := tbl_update ?P ?f (fb_work s), fb_outbox := ob\<rparr>"
  note a = active_leaseD [OF act fabric_invD(1) [OF inv]]
  have k: "kept E s (s\<lparr>fb_work := tbl_update ?P ?f (fb_work s), fb_outbox := ob\<rparr>)"
    by (rule kept_active [OF inv act refl]) (rule advance_row)
  have row': "?f row \<in> set (fb_work t)" using a(1,2) t by (auto simp: table_simps)
  have "batch_ok E (fb_work t) (stored_batch E b bid now)"
    unfolding batch_ok_def using bid(1) a(2) seq row'
    by (auto simp: stored_batch_def advance_work_def intro!: bexI [of _ "?f row"])
  moreover have "uniq bt_batch_id (fb_batches t)"
    using fabric_invD(3) [OF inv] bid(2) t by (auto simp: uniq_def stored_batch_def)
  ultimately show "kept E s t"
    using k t fabric_invD [OF inv]
    by (auto simp: kept_def intro!: fabric_inv_frame [OF inv] dest: fabric_invD(1))
qed (simp add: kept_refl)

lemma kept_update_batches:
  assumes inv: "fabric_inv E s" and keys: "\<And>r. bt_batch_id (f r) = bt_batch_id r"
      "\<And>r. bt_task_id (f r) = bt_task_id r" "\<And>r. bt_sequence_no (f r) = bt_sequence_no r"
  shows "kept E s (s\<lparr>fb_batches := tbl_update P f (fb_batches s)\<rparr>)"
proof (rule kept_same_work)
  have "uniq bt_batch_id (tbl_update P f (fb_batches s))"
    by (rule batch.uniq_update) (use keys fabric_invD(3) [OF inv] in simp_all)
  then show "fabric_inv E (s\<lparr>fb_batches := tbl_update P f (fb_batches s)\<rparr>)"
    using fabric_invD [OF inv] by (intro fabric_inv_frame [OF inv]) (auto simp: table_simps keys)
qed simp

lemma kept_configure:
  "fabric_inv E s \<Longrightarrow> configure_provider_budget p rps fl rq pr rep now s = (x, t) \<Longrightarrow> kept E s t"
proof (rule kept_same_work)
  assume inv: "fabric_inv E s" and t: "configure_provider_budget p rps fl rq pr rep now s = (x, t)"
  show "fb_work t = fb_work s" using t by (auto simp: configure_provider_budget_def split: if_splits)
  show "fabric_inv E t"
    using t inv fabric_invD(5,6) [OF inv]
    by (auto simp: configure_provider_budget_def table_simps tbl_upsert_def uniq_def split: if_splits
        intro!: inv_update_budgets budget.uniq_update [unfolded uniq_def])
qed

lemma permit_budget_effect:
  assumes "permit_from_budget p wk i tid g rid ttl now pid permits s = (x, t)"
  shows "(t = s \<and> (\<forall>pm. x \<noteq> Inr (Some pm))) \<or> (\<exists>bd. tbl_find (\<lambda>b. pb_provider b = p) (fb_budgets s) = Some bd \<and>
     int (active_permits p (expire_permits p now permits)) < pb_max_global_inflight bd \<and>
     pb_next_request_at bd \<le> now \<and> pb_cooldown_until bd \<le> now \<and>
     permit_region_gate bd wk now (expire_permits p now permits) s \<and>
     pid \<notin> pr_permit_id ` set (expire_permits p now permits) \<and>
     x = Inr (Some (permit_of_row (mint_permit p (wk_worker_id wk) i tid g rid ttl now pid bd))) \<and>
     t = s\<lparr>fb_budgets := tbl_update (\<lambda>b. pb_provider b = p)
            (\<lambda>b. b\<lparr>pb_next_request_at := now + 1 / pb_requests_per_second bd, pb_updated_at := now\<rparr>)
            (fb_budgets s),
          fb_permits := expire_permits p now permits @ [mint_permit p (wk_worker_id wk) i tid g rid ttl now pid bd]\<rparr>)"
proof (cases "tbl_find (\<lambda>b. pb_provider b = p) (fb_budgets s)")
  case None
  with assms show ?thesis by (simp add: permit_from_budget_def) blast
next
  case (Some bd)
  let ?live = "expire_permits p now permits"
  note eq = assms [unfolded permit_from_budget_def Some option.case Let_def]
  consider (stop) "\<not> permit_region_gate bd wk now ?live s \<or> pb_max_global_inflight bd \<le> int (active_permits p ?live) \<or>
      now < pb_next_request_at bd \<or> now < pb_cooldown_until bd"
    | (clash) "permit_region_gate bd wk now ?live s" "\<not> (pb_max_global_inflight bd \<le> int (active_permits p ?live) \<or>
      now < pb_next_request_at bd \<or> now < pb_cooldown_until bd)" "pid \<in> set (List.map pr_permit_id ?live) \<or>
      (wk_worker_id wk, rid) \<in> set (List.map (\<lambda>p. (pr_worker_id p, pr_request_id p)) ?live)"
    | (mint) "permit_region_gate bd wk now ?live s" "\<not> (pb_max_global_inflight bd \<le> int (active_permits p ?live) \<or>
      now < pb_next_request_at bd \<or> now < pb_cooldown_until bd)" "\<not> (pid \<in> set (List.map pr_permit_id ?live) \<or>
      (wk_worker_id wk, rid) \<in> set (List.map (\<lambda>p. (pr_worker_id p, pr_request_id p)) ?live))"
    by blast
  then show ?thesis
  proof cases
    case stop
    then have "t = s" "x = Inr None" using eq by (metis prod.inject)+
    then show ?thesis by simp
  next
    case clash
    then have "t = s" "x = Inl IntegrityError" using eq by (simp_all only: not_True_eq_False if_False if_True simp_thms prod.inject)
    then show ?thesis by simp
  next
    case mint
    then have "pid \<notin> pr_permit_id ` set ?live" by simp
    moreover have "int (active_permits p ?live) < pb_max_global_inflight bd" "pb_next_request_at bd \<le> now"
      "pb_cooldown_until bd \<le> now" using mint(2) by auto
    moreover have "x = Inr (Some (permit_of_row (mint_permit p (wk_worker_id wk) i tid g rid ttl now pid bd)))"
      "t = s\<lparr>fb_budgets := tbl_update (\<lambda>b. pb_provider b = p)
            (\<lambda>b. b\<lparr>pb_next_request_at := now + 1 / pb_requests_per_second bd, pb_updated_at := now\<rparr>)
            (fb_budgets s),
          fb_permits := ?live @ [mint_permit p (wk_worker_id wk) i tid g rid ttl now pid bd]\<rparr>"
      using eq mint by (simp_all only: not_True_eq_False if_False simp_thms prod.inject)
    ultimately show ?thesis using Some mint(1) by blast
  qed
qed

lemma issue_effect:
  assumes "issue_provider_permit p w i tid g rid ttl now a_now pid s = (x, t)"
  shows "t = s \<or> (\<exists>wk permits. find_worker w i s = Inr wk \<and> (\<exists>P. permits = tbl_delete P (fb_permits s)) \<and>
     permit_from_budget p wk i tid g rid ttl now pid permits s = (x, t))"
proof -
  have all: "fb_permits s = tbl_delete (\<lambda>_. False) (fb_permits s)" by (simp add: tbl_delete_def)
  show ?thesis
    using assms all
    by (auto simp: issue_provider_permit_def split: if_splits sum.splits option.splits)
qed

lemma kept_issue:
  "fabric_inv E s \<Longrightarrow> issue_provider_permit p w i tid g rid ttl now a_now pid s = (x, t) \<Longrightarrow> kept E s t"
proof (drule issue_effect, elim disjE exE conjE)
  fix wk permits P
  assume inv: "fabric_inv E s" and permits: "permits = tbl_delete P (fb_permits s)"
    and t: "permit_from_budget p wk i tid g rid ttl now pid permits s = (x, t)"
  let ?live = "expire_permits p now permits"
  have live: "uniq pr_permit_id ?live"
    unfolding expire_permits_def permits
    by (intro permit.uniq_update permit.uniq_delete) (use fabric_invD(4) [OF inv] in simp_all)
  from permit_budget_effect [OF t] show "kept E s t"
  proof (elim disjE exE conjE)
    fix bd
    let ?row = "mint_permit p (wk_worker_id wk) i tid g rid ttl now pid bd"
    let ?bs = "tbl_update (\<lambda>b. pb_provider b = p)
      (\<lambda>b. b\<lparr>pb_next_request_at := now + 1 / pb_requests_per_second bd, pb_updated_at := now\<rparr>) (fb_budgets s)"
    assume new: "pid \<notin> pr_permit_id ` set ?live" and t: "t = s\<lparr>fb_budgets := ?bs, fb_permits := ?live @ [?row]\<rparr>"
    have "uniq pr_permit_id (?live @ [?row])" using live new by (auto simp: uniq_def mint_permit_def)
    moreover have "uniq pb_provider ?bs" by (rule budget.uniq_update) (use fabric_invD(5) [OF inv] in simp_all)
    ultimately have "fabric_inv E t"
      using fabric_invD(6) [OF inv] t
      by (auto intro!: inv_update_permits inv_update_budgets inv simp: table_simps)
    with t show "kept E s t" by (simp add: kept_same_work)
  qed (simp add: kept_refl inv)
qed (simp add: kept_refl)

lemma kept_report:
  "fabric_inv E s \<Longrightarrow> report_provider_permit pid w i st cd rb now s = (x, t) \<Longrightarrow> kept E s t"
proof (rule kept_same_work)
  assume inv: "fabric_inv E s" and t: "report_provider_permit pid w i st cd rb now s = (x, t)"
  show "fb_work t = fb_work s"
    using t by (auto simp: report_provider_permit_def split: if_splits sum.splits option.splits)
  have p: "uniq pr_permit_id (tbl_update P (\<lambda>p. p\<lparr>pr_active := a, pr_status_code := c\<rparr>) (fb_permits s))" for P a c
    by (rule permit.uniq_update) (use fabric_invD(4) [OF inv] in simp_all)
  have b: "uniq pb_provider (tbl_update P (\<lambda>b. b\<lparr>pb_cooldown_until := max (pb_cooldown_until b) c, pb_updated_at := now\<rparr>)
      (fb_budgets s))" for P c
    by (rule budget.uniq_update) (use fabric_invD(5) [OF inv] in simp_all)
  show "fabric_inv E t"
    using t inv p b fabric_invD [OF inv]
    by (auto simp: report_provider_permit_def table_simps split: if_splits sum.splits option.splits
        intro!: fabric_inv_frame [OF inv])
qed

lemma kept_observe:
  "fabric_inv E s \<Longrightarrow>
   record_provider_region_observation p w i tid g cs st lat rb tmo pb a_now now s = (x, t) \<Longrightarrow> kept E s t"
  by (rule kept_same_work)
     (auto simp: record_provider_region_observation_def Let_def split: sum.splits option.splits)

lemma compact_row: "row_ok r \<Longrightarrow>
    row_le r (r\<lparr>fw_payload := JObj [], fw_cursor := None, fw_last_error := None\<rparr>) \<and>
    row_ok (r\<lparr>fw_payload := JObj [], fw_cursor := None, fw_last_error := None\<rparr>)"
  by (auto simp: row_ok_def row_le_def)

lemma kept_trans: "kept E s t \<Longrightarrow> kept E t u \<Longrightarrow> kept E s u"
  using evolves_trans by (auto simp: kept_def)

lemma kept_gc_phases:
  assumes inv: "fabric_inv E s"
  shows "kept E s (snd (gc_permits c n s))" "kept E s (snd (gc_batches c n s))"
    "kept E s (snd (gc_outbox c n s))" "kept E s (snd (gc_nonces c n s))"
    "kept E s (snd (gc_egress c n s))" "kept E s (snd (gc_work c n s))"
proof -
  show "kept E s (snd (gc_permits c n s))"
    using permit.uniq_delete fabric_invD(4) [OF inv]
    by (auto simp: gc_phase_defs Let_def delete_keys_def intro!: kept_same_work inv_update_permits inv)
  show "kept E s (snd (gc_batches c n s))"
  proof (rule kept_same_work)
    show "fabric_inv E (snd (gc_batches c n s))"
      using batch.uniq_delete fabric_invD [OF inv]
      by (intro fabric_inv_frame [OF inv]) (auto simp: gc_phase_defs Let_def delete_keys_def table_simps)
  qed (simp add: gc_phase_defs Let_def)
  show "kept E s (snd (gc_outbox c n s))" "kept E s (snd (gc_nonces c n s))" "kept E s (snd (gc_egress c n s))"
    using inv by (simp_all add: gc_phase_defs Let_def kept_same_work)
  show "kept E s (snd (gc_work c n s))"
    by (rule kept_update [OF inv, where ob = "fb_outbox s" and P = "\<lambda>w. fw_task_id w \<in> set (gc_work_keys c n s)" and
          f = "\<lambda>w. w\<lparr>fw_payload := JObj [], fw_cursor := None, fw_last_error := None\<rparr>"])
       (auto simp: gc_phase_defs Let_def compact_work_def dest: compact_row)
qed

lemma kept_gc:
  assumes inv: "fabric_inv E s" and gc: "gc_transient_state ret lmt now s = (x, t)"
  shows "kept E s t"
  using gc
proof (cases rule: gc_phases)
  case (2 c n)
  have chain: "kept E s (snd (f c n u))" if "kept E s u" "\<And>v. fabric_inv E v \<Longrightarrow> kept E v (snd (f c n v))"
    for f :: "time \<Rightarrow> nat \<Rightarrow> fabric \<Rightarrow> nat \<times> fabric" and u
    using that kept_trans by (auto simp: kept_def)
  show ?thesis unfolding 2 by (intro chain kept_gc_phases inv kept_refl)
qed (simp add: kept_refl inv)

lemma kept_nonce: "fabric_inv E s \<Longrightarrow> consume_request_nonce w n ret now s = (x, t) \<Longrightarrow> kept E s t"
  by (rule kept_same_work) (auto simp: consume_request_nonce_def Let_def split: if_splits sum.splits)

lemma kept_heartbeat: "fabric_inv E s \<Longrightarrow> heartbeat w i now s = (x, t) \<Longrightarrow> kept E s t"
  by (rule kept_same_work)
     (auto simp: heartbeat_def split: sum.splits intro!: inv_update_workers worker.uniq_update fabric_invD(2))

lemma kept_consumed: "fabric_inv E s \<Longrightarrow> mark_batch_consumed bid now s = (x, t) \<Longrightarrow> kept E s t"
  by (auto simp: mark_batch_consumed_def intro!: kept_update_batches)

lemma kept_consume_failed:
  "fabric_inv E s \<Longrightarrow> mark_batch_consume_failed bid err m s = (x, t) \<Longrightarrow> kept E s t"
  by (auto simp: mark_batch_consume_failed_def Let_def kept_refl split: if_splits option.splits
      intro!: kept_update_batches)

lemma kept_published: "fabric_inv E s \<Longrightarrow> mark_outbox_published ev now s = (x, t) \<Longrightarrow> kept E s t"
  by (rule kept_same_work) (auto simp: mark_outbox_published_def)

lemmas kept_ops = kept_nonce kept_register kept_heartbeat kept_revoke kept_admit kept_claim kept_renew
  kept_commit kept_finish kept_fail kept_consumed kept_consume_failed kept_published kept_configure
  kept_observe kept_issue kept_report kept_gc

lemma step_kept: "fabric_step E s t \<Longrightarrow> fabric_inv E s \<Longrightarrow> kept E s t"
  by (induction rule: fabric_step.induct) (blast intro: kept_ops)+

interpretation fabric: machine "\<lambda>s. \<exists>em. s = empty_fabric em" "fabric_step E" "fabric_inv E" for E
  by unfold_locales (auto simp: fabric_inv_empty kept_def dest: step_kept)

text \<open>A row present in one store has a later version in every store reached from it.\<close>

lemma row_later:
  assumes run: "(fabric_step E)\<^sup>*\<^sup>* s t" and inv: "fabric_inv E s" and r: "r \<in> set (fb_work s)"
  obtains r' where "r' \<in> set (fb_work t)" "row_le r r'"
proof -
  have "\<exists>r' \<in> set (fb_work t). row_le r r'"
  proof (rule fabric.preserved_along [OF run inv, where P = "\<lambda>u. \<exists>r' \<in> set (fb_work u). row_le r r'"])
    show "\<exists>r' \<in> set (fb_work s). row_le r r'" using r by blast
    fix u v assume "fabric_inv E u" "\<exists>r' \<in> set (fb_work u). row_le r r'" "fabric_step E u v"
    then show "\<exists>r' \<in> set (fb_work v). row_le r r'"
      using step_kept [of E u v] row_le_trans unfolding kept_def by (metis evolves_find)
  qed
  with that show ?thesis by blast
qed

end
