(* ===== verification/Fabric_Lease_Properties.thy ===== *)
theory Fabric_Lease_Properties
  imports Fabric_Steps
begin

text \<open>
  What the authority store promises about leases and results: fencing by generation, final terminal
  states, each sequence number accepted once, replays without effect, and the order in which work is
  handed out.
\<close>

section \<open>A store to witness with\<close>

definition demo_codec :: codec where
  "demo_codec = \<lparr>sha256 = (\<lambda>b. b), float_repr = (\<lambda>_. ''0.0'')\<rparr>"

definition demo_descriptor :: "string \<Rightarrow> string \<Rightarrow> worker_descriptor" where
  "demo_descriptor w i = \<lparr>wd_worker_id = w, wd_instance_id = i, wd_runtime_class = ''vm'',
     wd_region = ''eu'', wd_architecture = ''arm'', wd_memory_bytes = 1, wd_cpu_count = 1,
     wd_network_class = ''nat'', wd_capabilities = [''HOST_RESOLUTION''], wd_producers = [''p''],
     wd_allowed_providers = [''wayback''], wd_daily_egress_budget_bytes = 0,
     wd_protocol_version = FABRIC_PROTOCOL_VERSION, wd_edition_version = ''2''\<rparr>"

definition demo_work :: work_definition where
  "demo_work = \<lparr>df_producer = ''p'', df_task_class = HOST_BATCH, df_input_identity = ''in'',
     df_payload = JObj [], df_partition = '''', df_algorithm_version = ''1'',
     df_required_capabilities = [''HOST_RESOLUTION''], df_required_providers = [], df_priority = 0,
     df_max_attempts = 2, df_not_before = 0\<rparr>"

definition demo_batch :: "int \<Rightarrow> int \<Rightarrow> bool \<Rightarrow> result_batch" where
  "demo_batch g n fin = \<lparr>rb_task_id = ''t1'', rb_generation = g, rb_sequence_no = n, rb_results = [],
     rb_artifacts = [], rb_cursor_after = None, rb_final = fin\<rparr>"

definition demo_row :: "work_state \<Rightarrow> string option \<Rightarrow> string option \<Rightarrow> int \<Rightarrow> time option \<Rightarrow> int \<Rightarrow> work_row" where
  "demo_row st ow ins g dl n =
     (new_work_row demo_work ''k1'' ''t1'' 0)\<lparr>fw_state := st, fw_lease_owner := ow,
        fw_lease_owner_instance := ins, fw_lease_generation := g, fw_lease_deadline := dl,
        fw_attempt := g, fw_next_sequence_no := n\<rparr>"

text \<open>One registered worker and one task, leased by it in generation 1 until time 10.\<close>

definition demo_leased :: fabric where
  "demo_leased = (empty_fabric False)\<lparr>
     fb_workers := [worker_row_of (demo_descriptor ''w'' ''i'') 0],
     fb_work := [demo_row LEASED (Some ''w'') (Some ''i'') 1 (Some 10) 0]\<rparr>"

lemma demo_leased_inv: "fabric_inv E demo_leased"
  by (simp add: fabric_inv_def demo_leased_def empty_fabric_def work_inv_def row_ok_def demo_row_def
      new_work_row_def demo_work_def)

lemma demo_not_blank: "\<not> blank ''t1''" "\<not> blank ''result-batch''" "\<not> blank ''p''" "\<not> blank ''in''" "\<not> blank ''1''"
  by (simp_all add: blank_iff py_space_def Let_def)

lemmas demo_defs = demo_leased_def demo_row_def demo_work_def demo_batch_def demo_descriptor_def
  worker_row_of_def new_work_row_def empty_fabric_def

section \<open>Invariant and fencing\<close>

text \<open>
  C4: in every store reachable from an empty one, task identifiers and work keys are unique, a row
  carries a lease owner, instance and deadline exactly while it is LEASED, its lease generation equals
  its attempt counter, and attempts never exceed the maximum of the task.
\<close>

theorem fabric_reachable_inv:
  assumes "(fabric_step E)\<^sup>*\<^sup>* (empty_fabric em) s"
  shows "uniq fw_task_id (fb_work s) \<and> uniq fw_work_key (fb_work s) \<and> (\<forall>r \<in> set (fb_work s). row_ok r)"
  using fabric.inv_reachable [OF _ assms] by (auto simp: fabric_inv_def work_inv_def)

theorem fabric_reachable_inv_witness:
  "uniq fw_task_id (fb_work (snd (register_worker (demo_descriptor ''w'' ''i'') 0 0 ''e'' (empty_fabric True))))"
proof -
  let ?s = "empty_fabric True"
  obtain x t where t: "register_worker (demo_descriptor ''w'' ''i'') 0 0 ''e'' ?s = (x, t)" by fastforce
  have "(fabric_step demo_codec)\<^sup>*\<^sup>* ?s t" using fabric_step.register [OF t] by blast
  from fabric_reachable_inv [OF this] t show ?thesis by simp
qed

text \<open>
  C1: fencing. Once a task has reached a generation above \<open>g\<close>, no worker can act on it under
  generation \<open>g\<close> again: in every later store the lease check of that generation fails, whatever the
  worker, the instance and the clock.
\<close>

theorem stale_generation_fenced:
  assumes inv: "fabric_inv E s" and found: "find_work tid s = Some r" "g < fw_lease_generation r"
    and run: "(fabric_step E)\<^sup>*\<^sup>* s t"
  shows "assert_active_lease tid w i g now t = Inl StaleLeaseError"
proof -
  have r: "r \<in> set (fb_work s)" "fw_task_id r = tid"
    using found find_work_iff [OF fabric_invD(1) [OF inv]] by auto
  obtain r' where r': "r' \<in> set (fb_work t)" "row_le r r'" by (rule row_later [OF run inv r(1)])
  have "fabric_inv E t" using run inv by (rule fabric.inv_steps)
  then have "find_work tid t = Some r'"
    using r' r(2) find_work_iff [OF fabric_invD(1)] row_leD(1) by metis
  with found(2) row_leD(3) [OF r'(2)] show ?thesis by (simp add: assert_active_lease_def)
qed

theorem stale_generation_fenced_witness:
  "assert_active_lease ''t1'' ''w'' ''i'' 0 5 (snd (heartbeat ''w'' ''i'' 3 demo_leased)) = Inl StaleLeaseError"
proof -
  obtain x t where t: "heartbeat ''w'' ''i'' 3 demo_leased = (x, t)" by fastforce
  have run: "(fabric_step demo_codec)\<^sup>*\<^sup>* demo_leased t" using fabric_step.heartbeat [OF t] by blast
  have "find_work ''t1'' demo_leased = Some (demo_row LEASED (Some ''w'') (Some ''i'') 1 (Some 10) 0)"
    by (simp add: find_work_def tbl_find_def demo_defs)
  from stale_generation_fenced [OF demo_leased_inv this _ run] t show ?thesis by (simp add: demo_row_def)
qed

text \<open>
  a finished or dead task stays so. Whatever operations follow, garbage collection included, a
  row that is COMPLETE (DEAD) is found COMPLETE (DEAD) under the same task identifier and work key.
\<close>

theorem terminal_state_final:
  assumes inv: "fabric_inv E s" and found: "find_work tid s = Some r" "fw_state r \<in> {COMPLETE, DEAD}"
    and run: "(fabric_step E)\<^sup>*\<^sup>* s t"
  shows "\<exists>r'. find_work tid t = Some r' \<and> fw_state r' = fw_state r \<and> fw_work_key r' = fw_work_key r"
proof -
  have r: "r \<in> set (fb_work s)" "fw_task_id r = tid"
    using found find_work_iff [OF fabric_invD(1) [OF inv]] by auto
  obtain r' where r': "r' \<in> set (fb_work t)" "row_le r r'" by (rule row_later [OF run inv r(1)])
  have "fabric_inv E t" using run inv by (rule fabric.inv_steps)
  then have "find_work tid t = Some r'"
    using r' r(2) find_work_iff [OF fabric_invD(1)] row_leD(1) by metis
  with row_leD [OF r'(2)] found(2) show ?thesis by auto
qed

theorem terminal_state_final_witness:
  "\<exists>r'. find_work ''t1'' (snd (finish_task ''t1'' ''w'' ''i'' 1 2 2 2 ''e''
      (snd (finish_task ''t1'' ''w'' ''i'' 1 1 1 1 ''e'' demo_leased)))) = Some r' \<and> fw_state r' = COMPLETE"
proof -
  obtain x s where s: "finish_task ''t1'' ''w'' ''i'' 1 1 1 1 ''e'' demo_leased = (x, s)" by fastforce
  obtain y t where t: "finish_task ''t1'' ''w'' ''i'' 1 2 2 2 ''e'' s = (y, t)" by fastforce
  have inv: "fabric_inv demo_codec s" using kept_finish [OF demo_leased_inv s] by (simp add: kept_def)
  have run: "(fabric_step demo_codec)\<^sup>*\<^sup>* s t" using fabric_step.finish [OF t] by blast
  obtain r where "find_work ''t1'' s = Some r" "fw_state r = COMPLETE"
    using s by (auto simp: finish_task_def assert_active_lease_def find_work_def tbl_find_def
        tbl_update_def emit_locked_def py_str_def demo_defs)
  with terminal_state_final [OF inv _ _ run, of "''t1''" r] s t show ?thesis by auto
qed

text \<open>
  at most one holder. In one store, two callers can only both pass the lease check of a task, at
  whatever times, when they present the same worker, the same instance and the same generation.
\<close>

theorem lease_holder_unique:
  assumes "fabric_inv E s"
    and "assert_active_lease tid w i g now s = Inr r" and "assert_active_lease tid w' i' g' now' s = Inr r'"
  shows "w = w' \<and> i = i' \<and> g = g' \<and> r = r'"
proof -
  note a = active_leaseD [OF assms(2) fabric_invD(1) [OF assms(1)]]
    and b = active_leaseD [OF assms(3) fabric_invD(1) [OF assms(1)]]
  have "r' = r" by (rule a(8) [OF b(1,2)])
  with a(4-6) b(4-6) show ?thesis by auto
qed

theorem lease_holder_unique_witness:
  "\<exists>r. assert_active_lease ''t1'' ''w'' ''i'' 1 5 demo_leased = Inr r"
proof -
  obtain r where r: "assert_active_lease ''t1'' ''w'' ''i'' 1 5 demo_leased = Inr r"
    by (simp add: assert_active_lease_def find_work_def tbl_find_def py_str_def demo_defs)
  have "r = r" using lease_holder_unique [OF demo_leased_inv r r] by blast
  with r show ?thesis by blast
qed

section \<open>Results are accepted once\<close>

lemma commit_Inr_True:
  assumes "fabric_inv E s" "commit_result_batch E b w i now a_now emit_now ev s = (Inr True, t)"
  obtains row bid where "row \<in> set (fb_work s)" "fw_task_id row = rb_task_id b"
    "fw_next_sequence_no row = rb_sequence_no b" "advance_work b now row \<in> set (fb_work t)"
    "batch_id E (rb_task_id b) (rb_sequence_no b) = Inr bid" "bid \<notin> bt_batch_id ` set (fb_batches s)"
    "fb_batches t = fb_batches s @ [stored_batch E b bid now]"
  using commit_effect [OF assms(2)]
proof (elim disjE exE conjE)
  fix row bid af ba ob
  assume act: "assert_active_lease (rb_task_id b) w i (rb_generation b) a_now s = Inr row"
    and seq: "fw_next_sequence_no row = rb_sequence_no b"
    and bid: "batch_id E (rb_task_id b) (rb_sequence_no b) = Inr bid" "bid \<notin> bt_batch_id ` set (fb_batches s)"
    and t: "t = s\<lparr>fb_batches := fb_batches s @ [stored_batch E b bid now],
            fb_artifacts := af, fb_batch_artifacts := ba,
            fb_work := tbl_update (\<lambda>r. fw_task_id r = rb_task_id b) (advance_work b now) (fb_work s),
            fb_outbox := ob\<rparr>"
  note a = active_leaseD [OF act fabric_invD(1) [OF assms(1)]]
  have "advance_work b now row \<in> set (fb_work t)" using a(1,2) t by (auto simp: table_simps)
  with that a(1,2) seq bid t show thesis by auto
qed simp

text \<open>
  C2: exactly once. After a batch of a task was accepted under a sequence number, no batch of that
  task with the same number is ever accepted again, by any worker under any generation, in any later
  store, even after the garbage collector has deleted the stored batch.
\<close>

theorem batch_accepted_once:
  assumes inv: "fabric_inv E s"
    and first: "commit_result_batch E b w i now a_now emit_now ev s = (Inr True, t)"
    and run: "(fabric_step E)\<^sup>*\<^sup>* t u"
    and again: "commit_result_batch E b' w' i' now' a_now' emit_now' ev' u = (x, v)"
    and same: "rb_task_id b' = rb_task_id b" "rb_sequence_no b' = rb_sequence_no b"
  shows "x \<noteq> Inr True"
proof
  assume "x = Inr True"
  obtain row where row: "fw_task_id row = rb_task_id b" "fw_next_sequence_no row = rb_sequence_no b"
      "advance_work b now row \<in> set (fb_work t)" by (rule commit_Inr_True [OF inv first])
  have inv_t: "fabric_inv E t" using step_kept [OF fabric_step.commit [OF first] inv] by (simp add: kept_def)
  then have inv_u: "fabric_inv E u" using run by (blast intro: fabric.inv_steps)
  obtain r where r: "r \<in> set (fb_work u)" "row_le (advance_work b now row) r"
    by (rule row_later [OF run inv_t row(3)])
  obtain row' where row': "row' \<in> set (fb_work u)" "fw_task_id row' = rb_task_id b'"
      "fw_next_sequence_no row' = rb_sequence_no b'"
    using again \<open>x = Inr True\<close> by (auto elim: commit_Inr_True [OF inv_u])
  have "fw_task_id r = fw_task_id row'" using row_leD(1) [OF r(2)] row(1) row'(2) same by (simp add: advance_work_def)
  then have "r = row'" using task.uniqD r(1) row'(1) fabric_invD(1) [OF inv_u] by (metis work_inv_def)
  with row_leD(4) [OF r(2)] row(2) row'(3) same show False by (simp add: advance_work_def)
qed

text \<open>
  replay. Sending an accepted batch a second time changes nothing and answers \<open>False\<close>, whoever
  sends it and whatever became of the lease; the same identity with another payload is refused as a
  conflict.
\<close>

theorem batch_replay:
  assumes inv: "fabric_inv E s"
    and first: "commit_result_batch E b w i now a_now emit_now ev s = (Inr True, t)"
    and same: "rb_task_id b' = rb_task_id b" "rb_sequence_no b' = rb_sequence_no b"
  shows "commit_result_batch E b' w' i' now' a_now' emit_now' ev' t =
    (if payload_digest E (batch_payload E b') = payload_digest E (batch_payload E b)
     then Inr False else Inl BatchConflictError, t)"
proof -
  obtain bid where bid: "batch_id E (rb_task_id b) (rb_sequence_no b) = Inr bid"
      "bid \<notin> bt_batch_id ` set (fb_batches s)" "fb_batches t = fb_batches s @ [stored_batch E b bid now]"
    by (rule commit_Inr_True [OF inv first])
  have "tbl_find (\<lambda>r. bt_batch_id r = bid) (fb_batches t) = Some (stored_batch E b bid now)"
    unfolding bid(3) by (subst tbl_find_append_new) (use bid(2) in \<open>auto simp: stored_batch_def\<close>)
  then show ?thesis
    using bid(1) same by (simp add: commit_result_batch_def Let_def stored_batch_def)
qed

lemma demo_commit:
  obtains t where "commit_result_batch E (demo_batch 1 0 False) ''w'' ''i'' 5 5 5 ''e'' demo_leased = (Inr True, t)"
proof -
  have "\<exists>bid. batch_id E ''t1'' 0 = Inr bid"
    by (simp add: batch_id_def stable_identity_def demo_not_blank)
  then obtain bid where "batch_id E ''t1'' 0 = Inr bid" ..
  then have "\<exists>t. commit_result_batch E (demo_batch 1 0 False) ''w'' ''i'' 5 5 5 ''e'' demo_leased = (Inr True, t)"
    by (simp add: commit_result_batch_def Let_def assert_active_lease_def find_work_def tbl_find_def
        emit_locked_def py_str_def tbl_update_def demo_defs)
  with that show thesis by blast
qed

theorem batch_accepted_once_witness:
  "\<exists>s t x v. commit_result_batch demo_codec (demo_batch 1 0 False) ''w'' ''i'' 5 5 5 ''e'' s = (Inr True, t) \<and>
     commit_result_batch demo_codec (demo_batch 1 0 True) ''w'' ''i'' 6 6 6 ''e'' t = (x, v) \<and> x \<noteq> Inr True"
proof -
  obtain t where t: "commit_result_batch demo_codec (demo_batch 1 0 False) ''w'' ''i'' 5 5 5 ''e'' demo_leased = (Inr True, t)"
    by (rule demo_commit)
  obtain x v where v: "commit_result_batch demo_codec (demo_batch 1 0 True) ''w'' ''i'' 6 6 6 ''e'' t = (x, v)"
    by fastforce
  have "x \<noteq> Inr True"
    by (rule batch_accepted_once [OF demo_leased_inv t rtranclp.rtrancl_refl v]) (simp_all add: demo_batch_def)
  with t v show ?thesis by blast
qed

theorem batch_replay_witness:
  "\<exists>s t. commit_result_batch demo_codec (demo_batch 1 0 False) ''w'' ''i'' 5 5 5 ''e'' s = (Inr True, t) \<and>
     commit_result_batch demo_codec (demo_batch 1 0 False) ''w'' ''i'' 50 50 50 ''f'' t = (Inr False, t)"
proof -
  obtain t where t: "commit_result_batch demo_codec (demo_batch 1 0 False) ''w'' ''i'' 5 5 5 ''e'' demo_leased = (Inr True, t)"
    by (rule demo_commit)
  have "commit_result_batch demo_codec (demo_batch 1 0 False) ''w'' ''i'' 50 50 50 ''f'' t = (Inr False, t)"
    using batch_replay [OF demo_leased_inv t refl refl] by simp
  with t show ?thesis by blast
qed

text \<open>
  a work key is a tombstone. Admitting a work definition whose key the store has ever held
  returns the identifier of the first admission and \<open>False\<close> and changes nothing, in every later store:
  finished, dead or compacted work is never admitted a second time.
\<close>

theorem work_key_tombstone:
  assumes inv: "fabric_inv E s" and r: "r \<in> set (fb_work s)" "work_key_of E d = Inr (fw_work_key r)"
    and run: "(fabric_step E)\<^sup>*\<^sup>* s t"
  shows "admit_work E d now tid emit_now ev t = (Inr (fw_task_id r, False), t)"
proof -
  have inv_t: "fabric_inv E t" using run inv by (rule fabric.inv_steps)
  obtain r' where r': "r' \<in> set (fb_work t)" "row_le r r'" by (rule row_later [OF run inv r(1)])
  then have key: "fw_work_key r' = fw_work_key r" "fw_task_id r' = fw_task_id r" using row_leD by auto
  have "uniq fw_work_key (fb_work t)" using fabric_invD(1) [OF inv_t] by (simp add: work_inv_def)
  from wkey.find_by_key [OF this r'(1)]
  have found: "tbl_find (\<lambda>x. fw_work_key x = fw_work_key r) (fb_work t) = Some r'" by (simp add: key)
  have "fw_work_key r \<in> set (List.map fw_work_key (fb_work t))" using r'(1) key(1) [symmetric] by auto
  with r(2) found key(2) show ?thesis by (simp add: admit_work_def admitted_before_def)
qed

theorem work_key_tombstone_witness:
  "\<exists>s r. fw_state r = COMPLETE \<and> r \<in> set (fb_work s) \<and>
     admit_work demo_codec demo_work 9 ''t2'' 9 ''e'' s = (Inr (''t1'', False), s)"
proof -
  obtain k where k: "work_key_of demo_codec demo_work = Inr k"
    by (simp add: work_key_of_def work_key_def stable_identity_def demo_work_def demo_not_blank
        blank_iff py_space_def Let_def)
  let ?r = "(demo_row COMPLETE None None 1 None 1)\<lparr>fw_work_key := k\<rparr>"
  let ?s = "(empty_fabric False)\<lparr>fb_work := [?r]\<rparr>"
  have "fabric_inv demo_codec ?s"
    by (simp add: fabric_inv_def work_inv_def row_ok_def demo_defs)
  from work_key_tombstone [OF this, of ?r demo_work ?s] k
  show ?thesis by (intro exI [of _ ?s] exI [of _ ?r]) (simp add: demo_defs)
qed

section \<open>Claiming\<close>

text \<open>What a claim that granted a lease says about the store.\<close>

lemma claim_granted:
  assumes granted: "claim_work w i secs now region_now emit_now ev s = (Inr (Some l), t)"
    and fresh: "filter (active_for w i now) (fb_work s) = []"
  obtains wk chosen ob where "find_worker w i s = Inr wk" "0 < secs"
    "List.find (\<lambda>r. eligible r wk \<and> region_eligible r wk region_now s)
       (claim_order (filter (claimable now) (fb_work s))) = Some chosen"
    "lease_of_row chosen w i (fw_lease_generation chosen + 1) (now + secs) (fw_attempt chosen + 1) = Inr l"
    "t = s\<lparr>fb_work := tbl_update (\<lambda>r. fw_task_id r = fw_task_id chosen \<and>
              fw_lease_generation r = fw_lease_generation chosen)
            (grant_lease w i (fw_lease_generation chosen + 1) (now + secs) (fw_attempt chosen + 1) now)
            (fb_work s), fb_outbox := ob\<rparr>"
  using granted fresh
  by (auto simp: claim_work_def tbl_order_by_def Let_def split: if_splits sum.splits option.splits elim!: emit_frame)

lemma lease_of_row_fields:
  assumes "lease_of_row r w i g d a = Inr l"
  shows "tl_task_id l = fw_task_id r" "tl_worker_id l = w" "tl_instance_id l = i" "tl_generation l = g"
    "tl_lease_deadline l = d" "tl_attempt l = a" "tl_next_sequence_no l = fw_next_sequence_no r"
  using assms by (auto simp: lease_of_row_def task_lease_init_def)

text \<open>
  the order of work. A claim that grants a lease grants a claimable, eligible task, and every
  other claimable task the worker is eligible for has no higher priority, and at equal priority is no
  older; the lease runs for the requested time under the next generation.
\<close>

theorem claim_takes_best:
  assumes granted: "claim_work w i secs now region_now emit_now ev s = (Inr (Some l), t)"
    and fresh: "filter (active_for w i now) (fb_work s) = []"
  shows "\<exists>wk chosen. find_worker w i s = Inr wk \<and> chosen \<in> set (fb_work s) \<and> claimable now chosen \<and>
    eligible chosen wk \<and> region_eligible chosen wk region_now s \<and> tl_task_id l = fw_task_id chosen \<and>
    tl_generation l = fw_lease_generation chosen + 1 \<and> tl_lease_deadline l = now + secs \<and>
    (\<forall>r \<in> set (fb_work s). claimable now r \<and> eligible r wk \<and> region_eligible r wk region_now s \<longrightarrow>
       fw_priority r < fw_priority chosen \<or>
       (fw_priority r = fw_priority chosen \<and> fw_created_at chosen \<le> fw_created_at r))"
proof (rule claim_granted [OF assms])
  fix wk chosen ob
  let ?Q = "\<lambda>r. eligible r wk \<and> region_eligible r wk region_now s"
  assume wk: "find_worker w i s = Inr wk"
    and found: "List.find ?Q (claim_order (filter (claimable now) (fb_work s))) = Some chosen"
    and l: "lease_of_row chosen w i (fw_lease_generation chosen + 1) (now + secs) (fw_attempt chosen + 1) = Inr l"
  have c: "chosen \<in> set (claim_order (filter (claimable now) (fb_work s)))" "?Q chosen"
    using found find_Some_set by fastforce+
  have mem: "chosen \<in> set (fb_work s)" "claimable now chosen"
    using c(1) by (auto simp: claim_order_def dest!: in_set_takeD)
  have best: "fw_priority r < fw_priority chosen \<or>
       (fw_priority r = fw_priority chosen \<and> fw_created_at chosen \<le> fw_created_at r)"
    if r: "r \<in> set (fb_work s)" "claimable now r" "?Q r" for r
  proof -
    have "(- fw_priority chosen, fw_created_at chosen) \<le> (- fw_priority r, fw_created_at r)"
      by (rule find_ordered_least [OF found [unfolded claim_order_def], of r]) (use r in auto)
    then show ?thesis by (auto simp: less_eq_prod_def)
  qed
  show ?thesis
    using wk mem c(2) lease_of_row_fields [OF l] best by (intro exI [of _ wk] exI [of _ chosen]) blast
qed

text \<open>A store with a pending task, a worker and two claims.\<close>

definition demo_pending :: fabric where
  "demo_pending = (empty_fabric False)\<lparr>
     fb_workers := [worker_row_of (demo_descriptor ''w'' ''i'') 0],
     fb_work := [demo_row PENDING None None 0 None 0]\<rparr>"

lemma demo_claim:
  obtains l t where "claim_work ''w'' ''i'' 10 1 1 1 ''e'' demo_pending = (Inr (Some l), t)"
    "filter (active_for ''w'' ''i'' 1) (fb_work demo_pending) = []" "tl_lease_deadline l = 11"
proof -
  have "\<exists>l t. claim_work ''w'' ''i'' 10 1 1 1 ''e'' demo_pending = (Inr (Some l), t) \<and> tl_lease_deadline l = 11"
    by (simp add: claim_work_def demo_pending_def find_worker_def tbl_find_def active_for_def claimable_def
        claim_order_def tbl_order_by_def eligible_def region_eligible_def tbl_update_def emit_locked_def
        lease_of_row_def work_from_row_def work_definition_init_def task_lease_init_def demo_defs
        demo_not_blank Let_def)
  moreover have "filter (active_for ''w'' ''i'' 1) (fb_work demo_pending) = []"
    by (simp add: demo_pending_def active_for_def demo_defs)
  ultimately show thesis using that by blast
qed

theorem claim_takes_best_witness:
  "\<exists>l t wk. claim_work ''w'' ''i'' 10 1 1 1 ''e'' demo_pending = (Inr (Some l), t) \<and>
     find_worker ''w'' ''i'' demo_pending = Inr wk \<and> tl_lease_deadline l = 11"
proof (rule demo_claim)
  fix l t
  assume a: "claim_work ''w'' ''i'' 10 1 1 1 ''e'' demo_pending = (Inr (Some l), t)"
    "filter (active_for ''w'' ''i'' 1) (fb_work demo_pending) = []" "tl_lease_deadline l = 11"
  from claim_takes_best [OF a(1,2)] a show ?thesis by auto
qed

text \<open>
  a live lease is safe from other workers. A claim never touches a row whose lease has not yet
  expired at the time of the claim: the row is in the table unchanged afterwards.
\<close>

theorem claim_spares_live_lease:
  assumes inv: "fabric_inv E s" and r: "r \<in> set (fb_work s)" "fw_state r = LEASED"
      "fw_lease_deadline r = Some d" "now < d"
    and claim: "claim_work w i secs now region_now emit_now ev s = (x, t)"
  shows "r \<in> set (fb_work t)"
  using claim_effect [OF claim]
proof (elim disjE exE conjE)
  fix chosen ob
  assume c: "chosen \<in> set (fb_work s)" "claimable now chosen"
    and t: "t = s\<lparr>fb_work := tbl_update (\<lambda>r. fw_task_id r = fw_task_id chosen \<and>
              fw_lease_generation r = fw_lease_generation chosen)
            (grant_lease w i (fw_lease_generation chosen + 1) (now + secs) (fw_attempt chosen + 1) now)
            (fb_work s), fb_outbox := ob\<rparr>"
  have "r \<noteq> chosen" using c(2) r by (auto simp: claimable_def)
  then have "fw_task_id r \<noteq> fw_task_id chosen"
    using task.uniqD [of "fb_work s" r chosen] fabric_invD(1) [OF inv] r(1) c(1) by (auto simp: work_inv_def)
  with r(1) t show ?thesis by (simp add: table_simps)
qed (use r in simp)

theorem claim_spares_live_lease_witness:
  "\<exists>x t. claim_work ''v'' ''j'' 10 5 5 5 ''e'' demo_leased = (x, t) \<and>
     demo_row LEASED (Some ''w'') (Some ''i'') 1 (Some 10) 0 \<in> set (fb_work t)"
proof -
  obtain x t where t: "claim_work ''v'' ''j'' 10 5 5 5 ''e'' demo_leased = (x, t)" by fastforce
  have "demo_row LEASED (Some ''w'') (Some ''i'') 1 (Some 10) 0 \<in> set (fb_work t)"
    by (rule claim_spares_live_lease [OF demo_leased_inv [of demo_codec] _ _ _ _ t, where d = 10])
       (simp_all add: demo_defs)
  with t show ?thesis by blast
qed

text \<open>
  replaying a claim. After a claim granted a lease, the same worker instance asking again before
  the deadline (its first answer was lost) gets the very same lease, deadline included, and the store
  is unchanged: only a renewal moves the deadline.
\<close>

theorem claim_replay:
  assumes inv: "fabric_inv E s"
    and granted: "claim_work w i secs now region_now emit_now ev s = (Inr (Some l), t)"
    and fresh: "filter (active_for w i now) (fb_work s) = []"
    and again: "0 < secs'" "now \<le> now'" "now' < tl_lease_deadline l"
  shows "claim_work w i secs' now' region_now' emit_now' ev' t = (Inr (Some l), t)"
proof (rule claim_granted [OF granted fresh])
  fix wk and chosen :: work_row and ob
  let ?Q = "\<lambda>r. eligible r wk \<and> region_eligible r wk region_now s"
  let ?g = "grant_lease w i (fw_lease_generation chosen + 1) (now + secs) (fw_attempt chosen + 1) now"
  assume wk: "find_worker w i s = Inr wk" and found: "List.find ?Q (claim_order (filter (claimable now) (fb_work s))) = Some chosen"
    and l: "lease_of_row chosen w i (fw_lease_generation chosen + 1) (now + secs) (fw_attempt chosen + 1) = Inr l"
    and t: "t = s\<lparr>fb_work := tbl_update (\<lambda>r. fw_task_id r = fw_task_id chosen \<and>
              fw_lease_generation r = fw_lease_generation chosen) ?g (fb_work s), fb_outbox := ob\<rparr>"
  have mem: "chosen \<in> set (fb_work s)"
    using find_Some_set [OF found] by (auto simp: claim_order_def dest!: in_set_takeD)
  have dl: "now' < now + secs" using again(3) lease_of_row_fields(5) [OF l] by simp
  have only: "r = ?g chosen" if r: "r \<in> set (fb_work t)" "active_for w i now' r" for r
  proof -
    from r(1) t consider "r \<in> set (fb_work s)"
      | r0 where "r0 \<in> set (fb_work s)" "fw_task_id r0 = fw_task_id chosen" "r = ?g r0"
      by (auto simp: table_simps)
    then show ?thesis
    proof cases
      case 1
      have "active_for w i now r" using r(2) again(2) by (auto simp: active_for_def split: option.splits)
      with 1 fresh show ?thesis by (auto simp: filter_empty_conv)
    next
      case 2
      then have "r0 = chosen"
        using task.uniqD [of "fb_work s" r0 chosen] fabric_invD(1) [OF inv] mem by (simp add: work_inv_def)
      with 2 show ?thesis by simp
    qed
  qed
  let ?active = "tbl_order_by (\<lambda>r. (fw_updated_at r, fw_task_id r)) (filter (active_for w i now') (fb_work t))"
  have "?g chosen \<in> set ?active"
    using mem t dl by (auto simp: table_simps active_for_def grant_lease_def)
  moreover have "r = ?g chosen" if "r \<in> set ?active" for r
    using that only by simp
  ultimately obtain rest where "?active = ?g chosen # rest" by (cases ?active) fastforce+
  moreover have "find_worker w i t = Inr wk" using wk t by (simp add: find_worker_def)
  moreover have "lease_of_row (?g chosen) w i (fw_lease_generation chosen + 1) (now + secs) (fw_attempt chosen + 1) = Inr l"
    using l by (simp add: lease_of_row_def work_from_row_def grant_lease_def)
  ultimately show ?thesis
    using again(1) by (simp add: claim_work_def) (simp add: grant_lease_def)
qed

theorem claim_replay_witness:
  "\<exists>l t. claim_work ''w'' ''i'' 10 1 1 1 ''e'' demo_pending = (Inr (Some l), t) \<and>
     claim_work ''w'' ''i'' 99 7 7 7 ''f'' t = (Inr (Some l), t)"
proof (rule demo_claim)
  fix l t
  assume a: "claim_work ''w'' ''i'' 10 1 1 1 ''e'' demo_pending = (Inr (Some l), t)"
    "filter (active_for ''w'' ''i'' 1) (fb_work demo_pending) = []" "tl_lease_deadline l = 11"
  have "fabric_inv demo_codec demo_pending"
    by (simp add: fabric_inv_def demo_pending_def work_inv_def row_ok_def demo_defs)
  from claim_replay [OF this a(1,2), of 99 7] a show ?thesis by auto
qed

text \<open>
  compare-and-renew. When a renewal that named the deadline it expected moved the deadline
  forward, sending the same renewal again answers with the same lease and does not extend it a second
  time.
\<close>

theorem renew_replay:
  assumes inv: "fabric_inv E s"
    and first: "renew_task tid w i g secs (Some x) a_now d_now u_now s = (Inr l, t)"
    and later: "x < tl_lease_deadline l" "a_now' < tl_lease_deadline l"
  shows "renew_task tid w i g secs (Some x) a_now' d_now' u_now' t = (Inr l, t)"
proof -
  have secs: "\<not> secs \<le> 0" using first by (auto simp: renew_task_def)
  obtain row where act: "assert_active_lease tid w i g a_now s = Inr row"
    using first secs by (cases "assert_active_lease tid w i g a_now s") (auto simp: renew_task_def)
  note a = active_leaseD [OF act fabric_invD(1) [OF inv]]
  let ?d = "tl_lease_deadline l" and ?f = "\<lambda>r. r\<lparr>fw_lease_deadline := Some (tl_lease_deadline l), fw_updated_at := u_now\<rparr>"
  obtain c where c: "fw_lease_deadline row = Some c" using a(7) by blast
  obtain d where d: "lease_of_row row w i g d (fw_attempt row) = Inr l" and t0:
      "t = (if d \<noteq> c then s\<lparr>fb_work := tbl_update (\<lambda>r. fw_task_id r = tid)
              (\<lambda>r. r\<lparr>fw_lease_deadline := Some d, fw_updated_at := u_now\<rparr>) (fb_work s)\<rparr> else s)"
    using first secs act c by (auto simp: renew_task_def Let_def split: if_splits)
  have "d = ?d" using lease_of_row_fields(5) [OF d] by simp
  with d t0 have lease: "lease_of_row row w i g ?d (fw_attempt row) = Inr l"
    and t: "t = (if ?d \<noteq> c then s\<lparr>fb_work := tbl_update (\<lambda>r. fw_task_id r = tid) ?f (fb_work s)\<rparr> else s)"
    by simp_all
  define row' where "row' = (if ?d \<noteq> c then ?f row else row)"
  have "row' \<in> set (fb_work t)" "fw_task_id row' = tid"
    using a(1,2) t by (auto simp: row'_def table_simps)
  moreover have "fabric_inv E t" using kept_renew [OF inv first] by (simp add: kept_def)
  ultimately have found: "find_work tid t = Some row'" by (simp add: find_work_iff fabric_invD(1))
  have act': "assert_active_lease tid w i g a_now' t = Inr row'"
    using found a(3-6) c later(2) by (auto simp: assert_active_lease_def row'_def py_str_def)
  have "lease_of_row row' w i g ?d (fw_attempt row') = Inr l"
    using lease by (auto simp: row'_def lease_of_row_def work_from_row_def)
  moreover have "the (fw_lease_deadline row') = ?d" using c by (simp add: row'_def)
  ultimately show ?thesis using secs act' later(1) by (simp add: renew_task_def)
qed

theorem renew_replay_witness:
  "\<exists>l t. renew_task ''t1'' ''w'' ''i'' 1 20 (Some 10) 5 5 5 demo_leased = (Inr l, t) \<and>
     renew_task ''t1'' ''w'' ''i'' 1 20 (Some 10) 9 9 9 t = (Inr l, t) \<and> tl_lease_deadline l = 25"
proof -
  have "\<exists>l t. renew_task ''t1'' ''w'' ''i'' 1 20 (Some 10) 5 5 5 demo_leased = (Inr l, t) \<and> tl_lease_deadline l = 25"
    by (simp add: renew_task_def assert_active_lease_def find_work_def tbl_find_def py_str_def lease_of_row_def
        work_from_row_def work_definition_init_def task_lease_init_def demo_defs demo_not_blank Let_def)
  then obtain l t where lt: "renew_task ''t1'' ''w'' ''i'' 1 20 (Some 10) 5 5 5 demo_leased = (Inr l, t)"
    "tl_lease_deadline l = 25" by blast
  from renew_replay [OF demo_leased_inv lt(1), of 9 9 9] lt show ?thesis by auto
qed

section \<open>Two limits of the claim query\<close>

text \<open>
  an exhausted task whose lease ran out is out of reach. When the last permitted attempt
  of a leased task expires, the task is not claimable at any later time and every lease-guarded
  operation (renewal, result commit, finish, fail) refuses it as stale, so no operation of the store
  moves it to COMPLETE or DEAD: it stays counted as leased.
\<close>

theorem exhausted_lease_unreachable:
  assumes inv: "fabric_inv E s" and r: "r \<in> set (fb_work s)" "fw_state r = LEASED"
      "fw_lease_deadline r = Some d" "fw_attempt r = fw_max_attempts r" and later: "d \<le> now"
  shows "\<not> claimable now r \<and> assert_active_lease (fw_task_id r) w i g now s = Inl StaleLeaseError"
proof
  show "\<not> claimable now r" using r by (simp add: claimable_def)
  have "find_work (fw_task_id r) s = Some r" using r(1) fabric_invD(1) [OF inv] by (simp add: find_work_iff)
  with r(3) later show "assert_active_lease (fw_task_id r) w i g now s = Inl StaleLeaseError"
    by (simp add: assert_active_lease_def)
qed

theorem exhausted_lease_unreachable_witness:
  "let s = (empty_fabric False)\<lparr>fb_work := [demo_row LEASED (Some ''w'') (Some ''i'') 2 (Some 10) 0]\<rparr>
   in (\<forall>now \<ge> 10. assert_active_lease ''t1'' ''w'' ''i'' 2 now s = Inl StaleLeaseError) \<and> work_in_state LEASED s = 1"
proof -
  let ?r = "demo_row LEASED (Some ''w'') (Some ''i'') 2 (Some 10) 0"
  let ?s = "(empty_fabric False)\<lparr>fb_work := [?r]\<rparr>"
  have "fabric_inv demo_codec ?s" by (simp add: fabric_inv_def work_inv_def row_ok_def demo_defs)
  note e = exhausted_lease_unreachable [OF this, of ?r 10]
  have "assert_active_lease ''t1'' ''w'' ''i'' 2 now ?s = Inl StaleLeaseError" if "10 \<le> now" for now
    using e [OF _ _ _ _ that, of "''w''" "''i''" 2] by (simp add: demo_defs)
  then show ?thesis by (simp add: Let_def work_in_state_def demo_defs)
qed

definition foreign_row :: "nat \<Rightarrow> work_row" where
  "foreign_row n = (demo_row PENDING None None 0 None 0)\<lparr>fw_task_id := replicate n CHR ''a'',
     fw_work_key := replicate n CHR ''a'', fw_producer := ''q'', fw_priority := 1\<rparr>"

definition crowded :: fabric where
  "crowded = (empty_fabric False)\<lparr>
     fb_workers := [worker_row_of (demo_descriptor ''w'' ''i'') 0],
     fb_work := List.map foreign_row [0..<128] @ [demo_row PENDING None None 0 None 0]\<rparr>"

lemma crowded_inv: "fabric_inv E crowded"
proof -
  have "inj_on (\<lambda>n. replicate n CHR ''a'') (set [0..<128])" by (auto intro: inj_onI)
  then have "distinct (List.map (\<lambda>n. replicate n CHR ''a'') [0..<128])" by (simp add: distinct_map)
  moreover have "''t1'' \<notin> set (List.map (\<lambda>n. replicate n CHR ''a'') [0..<128])"
    "''k1'' \<notin> set (List.map (\<lambda>n. replicate n CHR ''a'') [0..<128])"
    by (auto simp: Cons_replicate_eq)
  ultimately show ?thesis
    by (simp add: fabric_inv_def crowded_def work_inv_def uniq_def row_ok_def foreign_row_def o_def demo_defs)
qed

text \<open>
  the window of the claim query. Only the 128 best claimable rows are examined, and
  eligibility is tested after that cut: there is a consistent store with a pending task the worker is
  eligible for, and a registered worker without a lease, where the claim returns no work because 128
  tasks of higher priority belong to another producer.
\<close>

theorem claim_window_starves:
  "\<exists>s wk r. fabric_inv E s \<and> find_worker ''w'' ''i'' s = Inr wk \<and> r \<in> set (fb_work s) \<and> claimable 1 r \<and>
     eligible r wk \<and> region_eligible r wk 1 s \<and> filter (active_for ''w'' ''i'' 1) (fb_work s) = [] \<and>
     claim_work ''w'' ''i'' 10 1 1 1 ''e'' s = (Inr None, s)"
proof -
  let ?wk = "worker_row_of (demo_descriptor ''w'' ''i'') 0"
  let ?r = "demo_row PENDING None None 0 None 0"
  let ?f = "\<lambda>r. (- fw_priority r, fw_created_at r)"
  have wk: "find_worker ''w'' ''i'' crowded = Inr ?wk"
    by (simp add: find_worker_def crowded_def tbl_find_def worker_row_of_def demo_descriptor_def)
  have cl: "filter (claimable 1) (fb_work crowded) = List.map foreign_row [0..<128] @ [?r]"
    by (simp add: crowded_def filter_empty_conv filter_id_conv claimable_def foreign_row_def demo_defs)
  have "sorted (List.map ?f (List.map foreign_row [0..<128] @ [?r]))"
    by (simp add: sorted_append foreign_row_def demo_defs sorted_wrt_map less_eq_prod_def o_def
        sorted_wrt_true del: upt_rec_numeral)
  then have "tbl_order_by ?f (filter (claimable 1) (fb_work crowded)) = List.map foreign_row [0..<128] @ [?r]"
    unfolding cl tbl_order_by_def by (rule sort_key_id_if_sorted)
  then have window: "claim_order (filter (claimable 1) (fb_work crowded)) = List.map foreign_row [0..<128]"
    by (simp add: claim_order_def)
  have "\<not> eligible (foreign_row n) ?wk" for n
    by (simp add: eligible_def foreign_row_def demo_defs)
  then have none: "List.find (\<lambda>r. eligible r ?wk \<and> region_eligible r ?wk 1 crowded)
      (claim_order (filter (claimable 1) (fb_work crowded))) = None"
    unfolding window by (auto simp: find_None_iff)
  have act: "filter (active_for ''w'' ''i'' 1) (fb_work crowded) = []"
    by (auto simp: filter_empty_conv crowded_def active_for_def foreign_row_def demo_defs)
  have "claim_work ''w'' ''i'' 10 1 1 1 ''e'' crowded = (Inr None, crowded)"
    by (simp add: claim_work_def wk act none tbl_order_by_def)
  moreover have "?r \<in> set (fb_work crowded)" by (simp add: crowded_def)
  moreover have "claimable 1 ?r" "eligible ?r ?wk" "region_eligible ?r ?wk 1 crowded"
    by (simp_all add: claimable_def eligible_def region_eligible_def demo_defs)
  ultimately show ?thesis using crowded_inv wk act by blast
qed

end
