(* ===== verification/Fabric_Permit_Properties.thy ===== *)
theory Fabric_Permit_Properties
  imports Fabric_Lease_Properties
begin

text \<open>
  What the authority store promises about provider permits: the global inflight bound, the spacing of
  requests, cooldowns, replays, settlement, blocked regions; and what garbage collection leaves alone.
\<close>

section \<open>Budgets only move forward\<close>

definition budget_le :: "budget_row \<Rightarrow> budget_row \<Rightarrow> bool" where
  "budget_le b b' \<longleftrightarrow> pb_provider b' = pb_provider b \<and>
     pb_next_request_at b \<le> pb_next_request_at b' \<and> pb_cooldown_until b \<le> pb_cooldown_until b'"

definition budgets_forward :: "fabric \<Rightarrow> fabric \<Rightarrow> bool" where
  "budgets_forward s t \<longleftrightarrow> (\<forall>b \<in> set (fb_budgets s). \<exists>b' \<in> set (fb_budgets t). budget_le b b')"

lemma budget_le_refl [simp, intro]: "budget_le b b"
  by (simp add: budget_le_def)

lemma forward_same: "fb_budgets t = fb_budgets s \<Longrightarrow> budgets_forward s t"
  by (auto simp: budgets_forward_def)

lemma budget_le_trans: "budget_le a b \<Longrightarrow> budget_le b c \<Longrightarrow> budget_le a c"
  by (auto simp: budget_le_def)

lemma forward_update:
  assumes "fb_budgets t = tbl_update P f (fb_budgets s) @ new"
    and "\<And>b. b \<in> set (fb_budgets s) \<Longrightarrow> P b \<Longrightarrow> budget_le b (f b)"
  shows "budgets_forward s t"
  unfolding budgets_forward_def
proof
  fix b assume b: "b \<in> set (fb_budgets s)"
  then have "(if P b then f b else b) \<in> set (fb_budgets t)"
    by (auto simp: assms(1) table_simps)
  moreover have "budget_le b (if P b then f b else b)" using assms(2) b by simp
  ultimately show "\<exists>b' \<in> set (fb_budgets t). budget_le b b'" by blast
qed

lemmas forward_update' = forward_update [where new = "[]", simplified]

lemma forward_configure:
  assumes "configure_provider_budget p rps fl rq pr rep now s = (x, t)"
  shows "budgets_forward s t"
proof -
  consider "t = s" | f where "\<And>b. budget_le b (f b)"
      "fb_budgets t = tbl_update (\<lambda>b. pb_provider b = p) f (fb_budgets s)"
    | b where "fb_budgets t = fb_budgets s @ [b]"
  proof -
    let ?f = "\<lambda>r. r\<lparr>pb_requests_per_second := rps, pb_max_global_inflight := fl,
        pb_require_qualified_region := rq, pb_allow_unknown_region_probe := pr,
        pb_region_reprobe_after_seconds := rep, pb_updated_at := now\<rparr> :: budget_row"
    assume th: "t = s \<Longrightarrow> thesis" "\<And>f. (\<And>b. budget_le b (f b)) \<Longrightarrow>
        fb_budgets t = tbl_update (\<lambda>b. pb_provider b = p) f (fb_budgets s) \<Longrightarrow> thesis"
      "\<And>b. fb_budgets t = fb_budgets s @ [b] \<Longrightarrow> thesis"
    have "budget_le b (?f b)" for b by (simp add: budget_le_def)
    with assms show thesis
      by (auto simp: configure_provider_budget_def tbl_upsert_def split: if_splits intro: th(1,3) th(2) [of ?f])
  qed
  then show ?thesis
  proof cases
    case 3
    show ?thesis by (rule forward_update [of t "\<lambda>_. False" id s "[b]"]) (use 3 in \<open>simp_all add: tbl_update_none\<close>)
  qed (auto intro: forward_same forward_update')
qed

lemma forward_issue:
  assumes inv: "fabric_inv E s" and issue: "issue_provider_permit p w i tid g rid ttl now a_now pid s = (x, t)"
  shows "budgets_forward s t"
  using issue_effect [OF issue]
proof (elim disjE exE conjE)
  fix wk permits
  assume "permit_from_budget p wk i tid g rid ttl now pid permits s = (x, t)"
  from permit_budget_effect [OF this] show ?thesis
  proof (elim disjE exE conjE)
    fix bd
    assume bd: "tbl_find (\<lambda>b. pb_provider b = p) (fb_budgets s) = Some bd" "pb_next_request_at bd \<le> now"
      and t: "t = s\<lparr>fb_budgets := tbl_update (\<lambda>b. pb_provider b = p)
            (\<lambda>b. b\<lparr>pb_next_request_at := now + 1 / pb_requests_per_second bd, pb_updated_at := now\<rparr>)
            (fb_budgets s),
          fb_permits := expire_permits p now permits @ [mint_permit p (wk_worker_id wk) i tid g rid ttl now pid bd]\<rparr>"
    have b: "bd \<in> set (fb_budgets s)" "pb_provider bd = p" using tbl_find_SomeD [OF bd(1)] by auto
    have "0 < 1 / pb_requests_per_second bd" using fabric_invD(6) [OF inv b(1)] by simp
    then have pos: "pb_next_request_at bd \<le> now + 1 / pb_requests_per_second bd" using bd(2) by linarith
    have same: "b = bd" if "b \<in> set (fb_budgets s)" "pb_provider b = p" for b
      using budget.uniqD [OF fabric_invD(5) [OF inv] that(1) b(1)] that(2) b(2) by simp
    show ?thesis
      by (rule forward_update' [of t "\<lambda>b. pb_provider b = p"
            "\<lambda>b. b\<lparr>pb_next_request_at := now + 1 / pb_requests_per_second bd, pb_updated_at := now\<rparr>"])
         (use t pos in \<open>auto simp: budget_le_def dest: same\<close>)
  qed (simp add: forward_same)
qed (simp add: forward_same)

lemma forward_report:
  assumes "report_provider_permit pid w i st cd rb now s = (x, t)"
  shows "budgets_forward s t"
proof -
  have "fb_budgets t = fb_budgets s \<or> (\<exists>p. fb_budgets t = tbl_update (\<lambda>b. pb_provider b = p)
      (\<lambda>b. b\<lparr>pb_cooldown_until := max (pb_cooldown_until b) (now + cd), pb_updated_at := now\<rparr>) (fb_budgets s))"
    using assms by (auto simp: report_provider_permit_def split: if_splits sum.splits option.splits)
  then show ?thesis by (auto intro: forward_same forward_update' simp: budget_le_def)
qed

lemma forward_gc:
  assumes "gc_transient_state ret lmt now s = (x, t)"
  shows "budgets_forward s t"
  using assms by (cases rule: gc_phases) (simp_all add: forward_same gc_phase_defs Let_def)

lemma forward_work:
  "register_worker d now emit_now ev s = (x, t) \<Longrightarrow> budgets_forward s t"
  "revoke_worker w now emit_now ev s = (x, t) \<Longrightarrow> budgets_forward s t"
  "admit_work E k now tid emit_now ev s = (y, t) \<Longrightarrow> budgets_forward s t"
  "claim_work w i secs now region_now emit_now ev s = (z, t) \<Longrightarrow> budgets_forward s t"
  "renew_task tid w i g secs ex a_now d_now u_now s = (l, t) \<Longrightarrow> budgets_forward s t"
  "commit_result_batch E b w i now a_now emit_now ev s = (c, t) \<Longrightarrow> budgets_forward s t"
  "finish_task tid w i g now a_now emit_now ev s = (x, t) \<Longrightarrow> budgets_forward s t"
  "fail_task tid w i g err retryable after now a_now emit_now ev s = (f, t) \<Longrightarrow> budgets_forward s t"
  by (drule register_effect revoke_effect admit_effect claim_effect renew_effect commit_effect
      finish_effect fail_effect, auto intro: forward_same)+

lemma budgets_step:
  assumes "fabric_step E s t" "fabric_inv E s"
  shows "budgets_forward s t"
  using assms
proof (induction rule: fabric_step.induct)
  case (nonce w n ret now s x t)
  then show ?case by (auto simp: consume_request_nonce_def Let_def forward_same split: if_splits sum.splits)
next
  case (heartbeat w i now s x t)
  then show ?case by (auto simp: heartbeat_def forward_same split: sum.splits)
next
  case (consumed bid now s x t)
  then show ?case by (auto simp: mark_batch_consumed_def intro: forward_same)
next
  case (consume_failed bid err m s x t)
  then show ?case
    by (auto simp: mark_batch_consume_failed_def Let_def forward_same split: if_splits option.splits)
next
  case (published ev now s x t)
  then show ?case by (auto simp: mark_outbox_published_def intro: forward_same)
next
  case (observe p w i tid g cs st lat rb tmo pb a_now now s x t)
  then show ?case
    by (auto simp: record_provider_region_observation_def Let_def forward_same split: sum.splits option.splits)
qed (blast intro: forward_work forward_configure forward_issue forward_report forward_gc)+

lemma budget_later:
  assumes run: "(fabric_step E)\<^sup>*\<^sup>* s t" and inv: "fabric_inv E s" and b: "b \<in> set (fb_budgets s)"
  obtains b' where "b' \<in> set (fb_budgets t)" "budget_le b b'"
proof -
  have "\<exists>b' \<in> set (fb_budgets t). budget_le b b'"
  proof (rule fabric.preserved_along [OF run inv, where P = "\<lambda>u. \<exists>b' \<in> set (fb_budgets u). budget_le b b'"])
    show "\<exists>b' \<in> set (fb_budgets s). budget_le b b'" using b by blast
    fix u v assume "fabric_inv E u" "\<exists>b' \<in> set (fb_budgets u). budget_le b b'" "fabric_step E u v"
    with budgets_step [of E u v] show "\<exists>b' \<in> set (fb_budgets v). budget_le b b'"
      unfolding budgets_forward_def by (meson budget_le_trans)
  qed
  with that show ?thesis by blast
qed

section \<open>Minting\<close>

text \<open>A request that changed the store minted a permit from the provider's budget.\<close>

lemma minted:
  assumes "issue_provider_permit p w i tid g rid ttl now a_now pid s = (x, t)" "t \<noteq> s"
  obtains wk bd P where "find_worker w i s = Inr wk"
    "tbl_find (\<lambda>b. pb_provider b = p) (fb_budgets s) = Some bd"
    "int (active_permits p (expire_permits p now (tbl_delete P (fb_permits s)))) < pb_max_global_inflight bd"
    "pb_next_request_at bd \<le> now" "pb_cooldown_until bd \<le> now"
    "permit_region_gate bd wk now (expire_permits p now (tbl_delete P (fb_permits s))) s"
    "x = Inr (Some (permit_of_row (mint_permit p (wk_worker_id wk) i tid g rid ttl now pid bd)))"
    "t = s\<lparr>fb_budgets := tbl_update (\<lambda>b. pb_provider b = p)
            (\<lambda>b. b\<lparr>pb_next_request_at := now + 1 / pb_requests_per_second bd, pb_updated_at := now\<rparr>)
            (fb_budgets s),
          fb_permits := expire_permits p now (tbl_delete P (fb_permits s)) @
            [mint_permit p (wk_worker_id wk) i tid g rid ttl now pid bd]\<rparr>"
proof -
  from issue_effect [OF assms(1)] assms(2) obtain wk P where wk: "find_worker w i s = Inr wk"
    and t: "permit_from_budget p wk i tid g rid ttl now pid (tbl_delete P (fb_permits s)) s = (x, t)" by blast
  from permit_budget_effect [OF t] assms(2) wk that show thesis by blast
qed

lemma find_worker_id: "find_worker w i s = Inr wk \<Longrightarrow> wk_worker_id wk = w"
  by (auto simp: find_worker_def split: option.splits if_splits dest: tbl_find_SomeD)

lemma fresh_active: "pr_active (mint_permit p w i tid g rid ttl now pid bd)"
    "pr_provider (mint_permit p w i tid g rid ttl now pid bd) = p"
  by (simp_all add: mint_permit_def)

text \<open>
  the inflight bound. A request that mints a permit leaves at most \<open>max_global_inflight\<close>
  active permits of its provider, of all workers together, and it is only minted when neither the
  rate limit nor a cooldown of the provider lies ahead of the clock.
\<close>

theorem permit_inflight_bound:
  assumes issue: "issue_provider_permit p w i tid g rid ttl now a_now pid s = (x, t)" "t \<noteq> s"
  shows "\<exists>b. tbl_find (\<lambda>b. pb_provider b = p) (fb_budgets s) = Some b \<and>
     int (active_permits p (fb_permits t)) \<le> pb_max_global_inflight b \<and>
     pb_next_request_at b \<le> now \<and> pb_cooldown_until b \<le> now"
  by (rule minted [OF issue]) (auto simp: active_permits_def fresh_active)

definition demo_budget :: budget_row where
  "demo_budget = \<lparr>pb_provider = ''wayback'', pb_requests_per_second = 1/2, pb_max_global_inflight = 1,
     pb_require_qualified_region = False, pb_allow_unknown_region_probe = False,
     pb_region_reprobe_after_seconds = 60, pb_next_request_at = 0, pb_cooldown_until = 0, pb_updated_at = 0\<rparr>"

definition demo_metered :: fabric where
  "demo_metered = demo_leased\<lparr>fb_budgets := [demo_budget]\<rparr>"

lemma demo_metered_inv: "fabric_inv E demo_metered"
  using demo_leased_inv [of E] by (simp add: demo_metered_def fabric_inv_def demo_leased_def demo_budget_def)

lemma not_blank_request: "\<not> blank ''r1''"
  by (simp add: blank_iff py_space_def Let_def)

lemmas permit_run = issue_provider_permit_def permit_from_budget_def find_worker_def assert_active_lease_def
  find_work_def tbl_find_def py_str_def egress_available_def expire_permits_def tbl_update_def tbl_delete_def
  active_permits_def permit_region_gate_def mint_permit_def permit_of_row_def demo_metered_def demo_budget_def
  not_blank_request

definition demo_granted :: fabric where
  "demo_granted = snd (issue_provider_permit ''wayback'' ''w'' ''i'' ''t1'' 1 ''r1'' 5 1 1 ''p1'' demo_metered)"

lemma demo_grant: "\<exists>pm. issue_provider_permit ''wayback'' ''w'' ''i'' ''t1'' 1 ''r1'' 5 1 1 ''p1'' demo_metered =
     (Inr (Some pm), demo_granted) \<and> demo_granted \<noteq> demo_metered \<and> pm_permit_id pm = ''p1'' \<and> pm_expires_at pm = 6"
  by (simp add: demo_granted_def permit_run demo_defs)

theorem permit_inflight_bound_witness:
  "active_permits ''wayback'' (fb_permits demo_granted) \<le> 1"
proof -
  from demo_grant obtain pm where a: "issue_provider_permit ''wayback'' ''w'' ''i'' ''t1'' 1 ''r1'' 5 1 1 ''p1'' demo_metered =
     (Inr (Some pm), demo_granted)" "demo_granted \<noteq> demo_metered" by blast
  from permit_inflight_bound [OF a] show ?thesis by (auto simp: demo_metered_def demo_budget_def tbl_find_def)
qed

text \<open>
  C3: the provider rate. Two permits minted for one provider are at least \<open>1 / requests_per_second\<close>
  apart, with the rate in force at the first, whatever the fabric did in between: other workers,
  reconfigurations of the budget and garbage collection included.
\<close>

theorem permit_spacing:
  assumes inv: "fabric_inv E s"
    and one: "issue_provider_permit p w i tid g rid ttl now a_now pid s = (x, t)" "t \<noteq> s"
    and run: "(fabric_step E)\<^sup>*\<^sup>* t u"
    and two: "issue_provider_permit p w' i' tid' g' rid' ttl' now' a_now' pid' u = (x', v)" "v \<noteq> u"
    and b: "tbl_find (\<lambda>b. pb_provider b = p) (fb_budgets s) = Some b"
  shows "now + 1 / pb_requests_per_second b \<le> now'"
proof -
  have inv_t: "fabric_inv E t" using kept_issue [OF inv one(1)] by (simp add: kept_def)
  let ?b = "b\<lparr>pb_next_request_at := now + 1 / pb_requests_per_second b, pb_updated_at := now\<rparr>"
  have "?b \<in> set (fb_budgets t)"
    by (rule minted [OF one]) (use b tbl_find_SomeD [OF b] in \<open>auto simp: table_simps\<close>)
  then obtain b' where b': "b' \<in> set (fb_budgets u)" "budget_le ?b b'" by (rule budget_later [OF run inv_t])
  have "fabric_inv E u" using run inv_t by (rule fabric.inv_steps)
  moreover have "pb_provider b' = p" using b'(2) tbl_find_SomeD [OF b] by (simp add: budget_le_def)
  ultimately have "tbl_find (\<lambda>b. pb_provider b = p) (fb_budgets u) = Some b'"
    using b'(1) budget.find_key_iff fabric_invD(5) by blast
  then have "pb_next_request_at b' \<le> now'" using minted [OF two] by fastforce
  with b'(2) show ?thesis by (simp add: budget_le_def)
qed

theorem permit_spacing_witness:
  "\<exists>u v. u = snd (heartbeat ''w'' ''i'' 3 (snd (report_provider_permit ''p1'' ''w'' ''i'' (Some 200) 0 9 2 demo_granted))) \<and>
     v = snd (issue_provider_permit ''wayback'' ''w'' ''i'' ''t1'' 1 ''r1'' 5 3 3 ''p2'' u) \<and> v \<noteq> u \<and> (1::rat) + 1 / (1/2) \<le> 3"
proof -
  obtain x1 s1 where s1: "report_provider_permit ''p1'' ''w'' ''i'' (Some 200) 0 9 2 demo_granted = (x1, s1)" by fastforce
  obtain x2 u where u: "heartbeat ''w'' ''i'' 3 s1 = (x2, u)" by fastforce
  have run: "(fabric_step demo_codec)\<^sup>*\<^sup>* demo_granted u"
    using fabric_step.report [OF s1] fabric_step.heartbeat [OF u] by (rule converse_rtranclp_into_rtranclp [OF _ r_into_rtranclp])
  obtain x v where v: "issue_provider_permit ''wayback'' ''w'' ''i'' ''t1'' 1 ''r1'' 5 3 3 ''p2'' u = (x, v)" by fastforce
  have neq: "v \<noteq> u"
    using s1 u v
    by (auto simp: demo_granted_def permit_run demo_defs report_provider_permit_def heartbeat_def)
  from demo_grant obtain pm where a: "issue_provider_permit ''wayback'' ''w'' ''i'' ''t1'' 1 ''r1'' 5 1 1 ''p1'' demo_metered =
     (Inr (Some pm), demo_granted)" "demo_granted \<noteq> demo_metered" by blast
  have "tbl_find (\<lambda>b. pb_provider b = ''wayback'') (fb_budgets demo_metered) = Some demo_budget"
    by (simp add: demo_metered_def demo_budget_def tbl_find_def)
  from permit_spacing [OF demo_metered_inv a run v neq this] s1 u v neq show ?thesis
    by (simp add: demo_budget_def)
qed

section \<open>Settling a permit\<close>

lemma report_settles:
  assumes "report_provider_permit pid w i st cd rb now s = (Inr (), t)" "t \<noteq> s"
  obtains row where "tbl_find (\<lambda>p. pr_permit_id p = pid) (fb_permits s) = Some row" "pr_active row"
    "pr_worker_id row = w" "pr_instance_id row = i" "0 \<le> cd"
    "t = s\<lparr>fb_permits := tbl_update (\<lambda>p. pr_permit_id p = pid)
                 (\<lambda>p. p\<lparr>pr_active := False, pr_status_code := st\<rparr>) (fb_permits s),
          fb_budgets := (if cd \<noteq> 0
                 then tbl_update (\<lambda>b. pb_provider b = pr_provider row)
                        (\<lambda>b. b\<lparr>pb_cooldown_until := max (pb_cooldown_until b) (now + cd),
                               pb_updated_at := now\<rparr>) (fb_budgets s)
                 else fb_budgets s),
          fb_egress := tbl_upsert (\<lambda>r. (eg_worker_id r, eg_day_key r))
                 (\<lambda>r. r\<lparr>eg_response_bytes := eg_response_bytes r + rb, eg_updated_at := now\<rparr>)
                 \<lparr>eg_worker_id = w, eg_day_key = egress_day_key now,
                  eg_response_bytes = rb, eg_updated_at = now\<rparr> (fb_egress s)\<rparr>"
  using assms that by (auto simp: report_provider_permit_def split: if_splits sum.splits option.splits)

text \<open>
  cooldowns hold for the whole fabric. Once a report asked for a cooldown of the provider,
  no worker is granted a new permit of that provider before the cooldown ended, whatever happened
  in between.
\<close>

theorem cooldown_respected:
  assumes inv: "fabric_inv E s"
    and rep: "report_provider_permit pid w i st cd rb now s = (Inr (), t)" "t \<noteq> s" "cd \<noteq> 0"
    and row: "tbl_find (\<lambda>p. pr_permit_id p = pid) (fb_permits s) = Some row" "pr_provider row = p"
    and b: "b \<in> set (fb_budgets s)" "pb_provider b = p"
    and run: "(fabric_step E)\<^sup>*\<^sup>* t u"
    and two: "issue_provider_permit p w' i' tid' g' rid' ttl' now' a_now' pid' u = (x', v)" "v \<noteq> u"
  shows "now + cd \<le> now'"
proof -
  have inv_t: "fabric_inv E t" using kept_report [OF inv rep(1)] by (simp add: kept_def)
  let ?b = "b\<lparr>pb_cooldown_until := max (pb_cooldown_until b) (now + cd), pb_updated_at := now\<rparr>"
  have "?b \<in> set (fb_budgets t)"
    by (rule report_settles [OF rep(1,2)]) (use b row rep(3) in \<open>auto simp: table_simps\<close>)
  then obtain b' where b': "b' \<in> set (fb_budgets u)" "budget_le ?b b'" by (rule budget_later [OF run inv_t])
  have "fabric_inv E u" using run inv_t by (rule fabric.inv_steps)
  moreover have "pb_provider b' = p" using b'(2) b(2) by (simp add: budget_le_def)
  ultimately have "tbl_find (\<lambda>b. pb_provider b = p) (fb_budgets u) = Some b'"
    using b'(1) budget.find_key_iff fabric_invD(5) by blast
  then have "pb_cooldown_until b' \<le> now'" using minted [OF two] by fastforce
  with b'(2) show ?thesis by (simp add: budget_le_def)
qed

theorem cooldown_respected_witness:
  "\<exists>u v. u = snd (report_provider_permit ''p1'' ''w'' ''i'' (Some 429) 4 9 2 demo_granted) \<and>
     v = snd (issue_provider_permit ''wayback'' ''w'' ''i'' ''t1'' 1 ''r2'' 5 7 7 ''p2'' u) \<and> v \<noteq> u \<and> (2::rat) + 4 \<le> 7"
proof -
  let ?row = "mint_permit ''wayback'' ''w'' ''i'' ''t1'' 1 ''r1'' 5 1 ''p1'' demo_budget"
  let ?b = "demo_budget\<lparr>pb_next_request_at := 3, pb_updated_at := 1\<rparr>"
  have g: "fb_permits demo_granted = [?row]" "fb_budgets demo_granted = [?b]"
    "fb_workers demo_granted = fb_workers demo_leased" "fb_work demo_granted = fb_work demo_leased"
    "fb_egress demo_granted = []"
    by (simp_all add: demo_granted_def permit_run demo_defs)
  have inv: "fabric_inv demo_codec demo_granted"
    using demo_grant kept_issue [OF demo_metered_inv] unfolding kept_def by blast
  have "\<exists>u. report_provider_permit ''p1'' ''w'' ''i'' (Some 429) 4 9 2 demo_granted = (Inr (), u) \<and> u \<noteq> demo_granted"
    by (simp add: report_provider_permit_def demo_granted_def permit_run demo_defs)
  then obtain u where u: "report_provider_permit ''p1'' ''w'' ''i'' (Some 429) 4 9 2 demo_granted = (Inr (), u)" "u \<noteq> demo_granted" by blast
  obtain x v where v: "issue_provider_permit ''wayback'' ''w'' ''i'' ''t1'' 1 ''r2'' 5 7 7 ''p2'' u = (x, v)" by fastforce
  have nb: "\<not> blank ''r2''" by (simp add: blank_iff py_space_def Let_def)
  have neq: "v \<noteq> u"
    using u v by (auto simp: demo_granted_def permit_run demo_defs report_provider_permit_def nb)
  have "tbl_find (\<lambda>p. pr_permit_id p = ''p1'') (fb_permits demo_granted) = Some ?row"
    by (simp add: g tbl_find_def mint_permit_def)
  from cooldown_respected [where b = ?b, OF inv u _ this _ _ _ rtranclp.rtrancl_refl v neq]
  have "(2::rat) + 4 \<le> 7" by (simp add: g mint_permit_def demo_budget_def)
  with u v neq show ?thesis by simp
qed

definition egress_total :: "string \<Rightarrow> int \<Rightarrow> fabric \<Rightarrow> int" where
  "egress_total w day s =
     (case tbl_find (\<lambda>r. eg_worker_id r = w \<and> eg_day_key r = day) (fb_egress s) of
        None \<Rightarrow> 0 | Some r \<Rightarrow> eg_response_bytes r)"

lemma egress_upsert:
  "(case tbl_find (\<lambda>r. eg_worker_id r = w \<and> eg_day_key r = day)
       (tbl_upsert (\<lambda>r. (eg_worker_id r, eg_day_key r))
          (\<lambda>r. r\<lparr>eg_response_bytes := eg_response_bytes r + rb, eg_updated_at := now\<rparr>)
          \<lparr>eg_worker_id = w, eg_day_key = day, eg_response_bytes = rb, eg_updated_at = now\<rparr> t) of
      None \<Rightarrow> 0 | Some r \<Rightarrow> eg_response_bytes r) =
   (case tbl_find (\<lambda>r. eg_worker_id r = w \<and> eg_day_key r = day) t of
      None \<Rightarrow> 0 | Some r \<Rightarrow> eg_response_bytes r) + rb"
proof -
  have up: "tbl_find (\<lambda>r. eg_worker_id r = w \<and> eg_day_key r = day)
      (tbl_update (\<lambda>r. eg_worker_id r = w \<and> eg_day_key r = day)
        (\<lambda>r. r\<lparr>eg_response_bytes := eg_response_bytes r + rb, eg_updated_at := now\<rparr>) t) =
      map_option (\<lambda>r. r\<lparr>eg_response_bytes := eg_response_bytes r + rb, eg_updated_at := now\<rparr>)
        (tbl_find (\<lambda>r. eg_worker_id r = w \<and> eg_day_key r = day) t)" for t
    by (induction t) (auto simp: tbl_find_def tbl_update_def)
  show ?thesis
  proof (cases "\<exists>r \<in> set t. eg_worker_id r = w \<and> eg_day_key r = day")
    case True
    then have "tbl_find (\<lambda>r. eg_worker_id r = w \<and> eg_day_key r = day) t \<noteq> None" by (auto simp: tbl_find_None)
    moreover have "(w, day) \<in> (\<lambda>r. (eg_worker_id r, eg_day_key r)) ` set t" using True by force
    ultimately show ?thesis by (auto simp: tbl_upsert_def up split: option.splits)
  next
    case False
    then have "tbl_find (\<lambda>r. eg_worker_id r = w \<and> eg_day_key r = day) t = None" by (auto simp: tbl_find_None)
    moreover have "(w, day) \<notin> (\<lambda>r. (eg_worker_id r, eg_day_key r)) ` set t" using False by force
    ultimately show ?thesis using False by (auto simp: tbl_upsert_def tbl_find_append_new)
  qed
qed

text \<open>
  a permit is settled once. After a report took effect, repeating it in any way (another status,
  another cooldown, more bytes) succeeds and changes nothing, so its bytes are charged once; and that
  charge raises the worker's total of the day by exactly the bytes reported.
\<close>

theorem permit_settles_once:
  assumes first: "report_provider_permit pid w i st cd rb now s = (Inr (), t)" "t \<noteq> s"
    and again: "0 \<le> cd'" "0 \<le> rb'"
  shows "report_provider_permit pid w i st' cd' rb' now' t = (Inr (), t) \<and>
     egress_total w (egress_day_key now) t = egress_total w (egress_day_key now) s + rb"
proof (rule report_settles [OF first])
  fix row
  assume row: "tbl_find (\<lambda>p. pr_permit_id p = pid) (fb_permits s) = Some row" "pr_worker_id row = w" "pr_instance_id row = i"
    and t: "t = s\<lparr>fb_permits := tbl_update (\<lambda>p. pr_permit_id p = pid)
                 (\<lambda>p. p\<lparr>pr_active := False, pr_status_code := st\<rparr>) (fb_permits s),
          fb_budgets := (if cd \<noteq> 0
                 then tbl_update (\<lambda>b. pb_provider b = pr_provider row)
                        (\<lambda>b. b\<lparr>pb_cooldown_until := max (pb_cooldown_until b) (now + cd),
                               pb_updated_at := now\<rparr>) (fb_budgets s)
                 else fb_budgets s),
          fb_egress := tbl_upsert (\<lambda>r. (eg_worker_id r, eg_day_key r))
                 (\<lambda>r. r\<lparr>eg_response_bytes := eg_response_bytes r + rb, eg_updated_at := now\<rparr>)
                 \<lparr>eg_worker_id = w, eg_day_key = egress_day_key now,
                  eg_response_bytes = rb, eg_updated_at = now\<rparr> (fb_egress s)\<rparr>"
  have "tbl_find (\<lambda>p. pr_permit_id p = pid) (tbl_update (\<lambda>p. pr_permit_id p = pid)
      (\<lambda>p. p\<lparr>pr_active := False, pr_status_code := st\<rparr>) u) =
      map_option (\<lambda>p. p\<lparr>pr_active := False, pr_status_code := st\<rparr>) (tbl_find (\<lambda>p. pr_permit_id p = pid) u)" for u :: "permit_row list"
    by (induction u) (auto simp: tbl_find_def tbl_update_def)
  then have "tbl_find (\<lambda>p. pr_permit_id p = pid) (fb_permits t) = Some (row\<lparr>pr_active := False, pr_status_code := st\<rparr>)"
    using row(1) t by simp
  moreover obtain wk where "find_worker w i s = Inr wk"
    using first(1) by (auto simp: report_provider_permit_def split: if_splits sum.splits)
  then have "find_worker w i t = Inr wk" using t by (simp add: find_worker_def)
  ultimately have "report_provider_permit pid w i st' cd' rb' now' t = (Inr (), t)"
    using again row by (simp add: report_provider_permit_def)
  with t show ?thesis by (simp add: egress_total_def egress_upsert)
qed

theorem permit_settles_once_witness:
  "\<exists>t. report_provider_permit ''p1'' ''w'' ''i'' (Some 200) 0 9 2 demo_granted = (Inr (), t) \<and>
     report_provider_permit ''p1'' ''w'' ''i'' (Some 500) 3 70 4 t = (Inr (), t) \<and> egress_total ''w'' 0 t = 9"
proof -
  have "\<exists>t. report_provider_permit ''p1'' ''w'' ''i'' (Some 200) 0 9 2 demo_granted = (Inr (), t) \<and> t \<noteq> demo_granted"
    by (simp add: report_provider_permit_def demo_granted_def permit_run demo_defs)
  then obtain t where t: "report_provider_permit ''p1'' ''w'' ''i'' (Some 200) 0 9 2 demo_granted = (Inr (), t)" "t \<noteq> demo_granted" by blast
  have "fb_egress demo_granted = []" by (simp add: demo_granted_def permit_run demo_defs)
  moreover have "egress_day_key 2 = 0" by (simp add: egress_day_key_def floor_eq_iff)
  ultimately show ?thesis
    using permit_settles_once [OF t, of 3 70 "Some 500" 4] t by (auto simp: egress_total_def tbl_find_def)
qed

section \<open>Replays and regions\<close>

text \<open>
  replaying a permit request. While the minted permit is active and unexpired, the same
  request (its answer was lost) returns the very same permit and leaves the store as it is, so it
  neither counts against the inflight bound nor moves the rate limit.
\<close>

theorem permit_replay:
  assumes inv: "fabric_inv E s"
    and first: "issue_provider_permit p w i tid g rid ttl now a_now pid s = (Inr (Some pm), t)" "t \<noteq> s"
    and again: "0 < ttl'" "now' < now + ttl"
      "assert_active_lease tid w i g a_now' t = Inr row" "find_worker w i t = Inr wk"
      "egress_available wk now' t"
  shows "issue_provider_permit p w i tid g rid ttl' now' a_now' pid' t = (Inr (Some pm), t)"
proof -
  have nb: "\<not> blank rid" using first by (auto simp: issue_provider_permit_def)
  have prov: "p \<in> set (wk_allowed_providers wk')" if "find_worker w i s = Inr wk'" for wk'
    using first that by (auto simp: issue_provider_permit_def split: if_splits sum.splits)
  show ?thesis
  proof (rule minted [OF first])
    fix wk' :: worker_row and bd :: budget_row and P :: "permit_row \<Rightarrow> bool"
    let ?live = "expire_permits p now (tbl_delete P (fb_permits s))"
    let ?new = "mint_permit p (wk_worker_id wk') i tid g rid ttl now pid bd"
    assume wk': "find_worker w i s = Inr wk'" and pm: "Inr (Some pm) = (Inr (Some (permit_of_row ?new)) :: py_error + provider_permit option)"
      and t: "t = s\<lparr>fb_budgets := tbl_update (\<lambda>b. pb_provider b = p)
            (\<lambda>b. b\<lparr>pb_next_request_at := now + 1 / pb_requests_per_second bd, pb_updated_at := now\<rparr>)
            (fb_budgets s), fb_permits := ?live @ [?new]\<rparr>"
    have same: "wk' = wk" using wk' again(4) t by (simp add: find_worker_def)
    obtain Q where "permit_from_budget p wk' i tid g rid ttl now pid (tbl_delete Q (fb_permits s)) s = (Inr (Some pm), t)"
      using issue_effect [OF first(1)] first(2) wk' by auto
    then have "(w, rid) \<notin> (\<lambda>p. (pr_worker_id p, pr_request_id p)) ` set (expire_permits p now (tbl_delete Q (fb_permits s)))"
        and t': "fb_permits t = expire_permits p now (tbl_delete Q (fb_permits s)) @ [?new]"
      using pm find_worker_id [OF wk']
      by (auto simp: permit_from_budget_def Let_def mint_permit_def permit_of_row_def split: option.splits if_splits)
    then have "(w, rid) \<notin> (\<lambda>p. (pr_worker_id p, pr_request_id p)) ` set ?live" using t by simp
    then have "tbl_find (\<lambda>p. pr_worker_id p = w \<and> pr_request_id p = rid) (?live @ [?new]) = Some ?new"
      using find_worker_id [OF wk'] by (subst tbl_find_append_new) (force simp: mint_permit_def)+
    then show ?thesis
      using again nb prov [OF wk'] same t pm
      by (simp add: issue_provider_permit_def) (simp add: mint_permit_def)
  qed
qed

theorem permit_replay_witness:
  "\<exists>pm. issue_provider_permit ''wayback'' ''w'' ''i'' ''t1'' 1 ''r1'' 5 1 1 ''p1'' demo_metered = (Inr (Some pm), demo_granted) \<and>
     issue_provider_permit ''wayback'' ''w'' ''i'' ''t1'' 1 ''r1'' 5 4 4 ''p9'' demo_granted = (Inr (Some pm), demo_granted)"
proof -
  from demo_grant obtain pm where a: "issue_provider_permit ''wayback'' ''w'' ''i'' ''t1'' 1 ''r1'' 5 1 1 ''p1'' demo_metered =
     (Inr (Some pm), demo_granted)" "demo_granted \<noteq> demo_metered" by blast
  have "find_worker ''w'' ''i'' demo_granted = Inr (worker_row_of (demo_descriptor ''w'' ''i'') 0)"
    "egress_available (worker_row_of (demo_descriptor ''w'' ''i'') 0) 4 demo_granted"
    "assert_active_lease ''t1'' ''w'' ''i'' 1 4 demo_granted = Inr (demo_row LEASED (Some ''w'') (Some ''i'') 1 (Some 10) 0)"
    by (simp_all add: demo_granted_def permit_run demo_defs)
  from permit_replay [OF demo_metered_inv a _ _ this(3,1,2), of 5] a show ?thesis by auto
qed

lemma observe_blocked:
  assumes "record_provider_region_observation p w i tid g cs st lat rb tmo True a_now now s = (Inr rs, t)"
    and "find_worker w i s = Inr wk"
  shows "\<exists>r. observed_region p (wk_region wk) t = Some r \<and> rg_state r = R_BLOCKED \<and> rg_updated_at r = now"
    "fb_budgets t = fb_budgets s" "fb_workers t = fb_workers s" "fb_permits t = fb_permits s"
proof -
  let ?P = "\<lambda>r. rg_provider r = p \<and> rg_region r = wk_region wk"
  obtain u r where u: "tbl_find ?P u = Some r" and t: "t = s\<lparr>fb_regions := tbl_update ?P
      (\<lambda>r. r\<lparr>rg_state := R_BLOCKED, rg_updated_at := now\<rparr>) u\<rparr>"
    using assms by (auto simp: record_provider_region_observation_def qualify_region_def Let_def
        split: sum.splits option.splits)
  show "fb_budgets t = fb_budgets s" "fb_workers t = fb_workers s" "fb_permits t = fb_permits s"
    using t by simp_all
  have "tbl_find ?P (tbl_update ?P (\<lambda>r. r\<lparr>rg_state := R_BLOCKED, rg_updated_at := now\<rparr>) u) =
      map_option (\<lambda>r. r\<lparr>rg_state := R_BLOCKED, rg_updated_at := now\<rparr>) (tbl_find ?P u)" for u :: "region_row list"
    by (induction u) (auto simp: tbl_find_def tbl_update_def)
  with u t show "\<exists>r. observed_region p (wk_region wk) t = Some r \<and> rg_state r = R_BLOCKED \<and> rg_updated_at r = now"
    by (simp add: observed_region_def)
qed

text \<open>
  A step of the fabric is unobserved for a provider and a region when it is not an accepted observation of
  the provider by a worker of the region. Only such an observation touches the row of the two.
\<close>

definition accepted_observation :: "string \<Rightarrow> string \<Rightarrow> fabric \<Rightarrow> fabric \<Rightarrow> bool" where
  "accepted_observation p rg s t \<longleftrightarrow> (\<exists>w i wk tid g cs st lat rb tmo pb a_now now r.
     find_worker w i s = Inr wk \<and> wk_region wk = rg \<and>
     record_provider_region_observation p w i tid g cs st lat rb tmo pb a_now now s = (Inr r, t))"

definition unobserved_step :: "codec \<Rightarrow> string \<Rightarrow> string \<Rightarrow> fabric \<Rightarrow> fabric \<Rightarrow> bool" where
  "unobserved_step E p rg s t \<longleftrightarrow> fabric_step E s t \<and> \<not> accepted_observation p rg s t"

lemma find_update_other:
  "(\<And>r. P r \<Longrightarrow> \<not> Q r) \<Longrightarrow> (\<And>r. P (f r) = P r) \<Longrightarrow> tbl_find P (tbl_update Q f t) = tbl_find P t"
  by (induction t) (auto simp: tbl_find_def tbl_update_def)

lemma find_upsert_other:
  assumes "\<And>r. P r \<Longrightarrow> key r \<noteq> key new" "\<And>r. P (f r) = P r"
  shows "tbl_find P (tbl_upsert key f new t) = tbl_find P t"
proof -
  have "\<not> P new" using assms(1) by blast
  then have "tbl_find P (t @ [new]) = tbl_find P t" by (induction t) (auto simp: tbl_find_def)
  with assms show ?thesis by (simp add: tbl_upsert_def find_update_other)
qed

lemma observe_other:
  assumes obs: "record_provider_region_observation p w i tid g cs st lat rb tmo pb a_now now s = (x, t)"
    and un: "\<not> accepted_observation q rg s t"
  shows "observed_region q rg t = observed_region q rg s"
proof (cases "find_worker w i s")
  case (Inr wk)
  show ?thesis
  proof (cases x)
    case (Inl e)
    then show ?thesis
      using obs by (auto simp: record_provider_region_observation_def Let_def split: sum.splits option.splits)
  next
    case (Inr r)
    have other: "q = p \<Longrightarrow> rg \<noteq> wk_region wk"
      using un obs Inr \<open>find_worker w i s = Inr wk\<close> unfolding accepted_observation_def by blast
    obtain new f state where t: "fb_regions t = tbl_update (\<lambda>r. rg_provider r = p \<and> rg_region r = wk_region wk)
        (\<lambda>r. r\<lparr>rg_state := state, rg_updated_at := now\<rparr>)
        (tbl_upsert (\<lambda>r. (rg_provider r, rg_region r)) (add_observation f) new (fb_regions s))"
      "rg_provider new = p" "rg_region new = wk_region wk"
      using obs Inr \<open>find_worker w i s = Inr wk\<close>
      by (auto simp: record_provider_region_observation_def Let_def split: sum.splits option.splits)
    show ?thesis
      unfolding observed_region_def t(1)
      by (subst find_update_other, use other in force, simp, rule find_upsert_other)
         (use other t(2,3) in \<open>auto simp: add_observation_def\<close>)
  qed
qed (use obs in \<open>simp add: record_provider_region_observation_def\<close>)

lemma regions_kept:
  "register_worker d now emit_now ev s = (x, t) \<Longrightarrow> fb_regions t = fb_regions s"
  "revoke_worker w now emit_now ev s = (x, t) \<Longrightarrow> fb_regions t = fb_regions s"
  "admit_work E k now tid emit_now ev s = (y, t) \<Longrightarrow> fb_regions t = fb_regions s"
  "claim_work w i secs now region_now emit_now ev s = (z, t) \<Longrightarrow> fb_regions t = fb_regions s"
  "renew_task tid w i g secs ex a_now d_now u_now s = (l, t) \<Longrightarrow> fb_regions t = fb_regions s"
  "commit_result_batch E b w i now a_now emit_now ev s = (c, t) \<Longrightarrow> fb_regions t = fb_regions s"
  "finish_task tid w i g now a_now emit_now ev s = (x, t) \<Longrightarrow> fb_regions t = fb_regions s"
  "fail_task tid w i g err retryable after now a_now emit_now ev s = (f, t) \<Longrightarrow> fb_regions t = fb_regions s"
  by (drule register_effect revoke_effect admit_effect claim_effect renew_effect commit_effect
      finish_effect fail_effect, auto)+

lemma regions_kept_permits:
  "issue_provider_permit p w i tid g rid ttl now a_now pid s = (x, t) \<Longrightarrow> fb_regions t = fb_regions s"
  "report_provider_permit pid w i st cd rb now s = (y, t) \<Longrightarrow> fb_regions t = fb_regions s"
  "configure_provider_budget p rps fl rq pr rep now s = (y, t) \<Longrightarrow> fb_regions t = fb_regions s"
  subgoal by (drule issue_effect) (auto dest!: permit_budget_effect)
  subgoal by (auto simp: report_provider_permit_def split: if_splits sum.splits option.splits)
  subgoal by (auto simp: configure_provider_budget_def split: if_splits)
  done

lemma regions_kept_gc:
  assumes "gc_transient_state ret lmt now s = (x, t)"
  shows "fb_regions t = fb_regions s"
  using assms by (cases rule: gc_phases) (simp_all add: gc_phase_defs Let_def)

lemma regions_kept_rest:
  "consume_request_nonce w n ret now s = (x, t) \<Longrightarrow> fb_regions t = fb_regions s"
  "heartbeat w i now s = (y, t) \<Longrightarrow> fb_regions t = fb_regions s"
  "mark_batch_consumed bid now s = (k, t) \<Longrightarrow> fb_regions t = fb_regions s"
  "mark_batch_consume_failed bid err m s = (z, t) \<Longrightarrow> fb_regions t = fb_regions s"
  "mark_outbox_published ev now s = (k, t) \<Longrightarrow> fb_regions t = fb_regions s"
  by (auto simp: consume_request_nonce_def heartbeat_def mark_batch_consumed_def mark_batch_consume_failed_def
      mark_outbox_published_def Let_def split: if_splits sum.splits option.splits)

lemma observed_same: "fb_regions t = fb_regions s \<Longrightarrow> observed_region p rg t = observed_region p rg s"
  by (simp add: observed_region_def)

lemma unobserved_region:
  assumes "unobserved_step E p rg s t"
  shows "observed_region p rg t = observed_region p rg s"
proof -
  have "\<not> accepted_observation p rg s t \<Longrightarrow> ?thesis" if "fabric_step E s t"
    using that
    by (cases rule: fabric_step.cases)
       (blast intro: observe_other observed_same regions_kept regions_kept_permits regions_kept_gc regions_kept_rest)+
  with assms show ?thesis by (simp add: unobserved_step_def)
qed

lemma unobserved_later:
  "(unobserved_step E p rg)\<^sup>*\<^sup>* s t \<Longrightarrow> observed_region p rg t = observed_region p rg s"
  by (induction rule: rtranclp_induct) (simp_all add: unobserved_region)

text \<open>
  Every answer to a permit request: a refusal, the permit the same request was granted before, or a permit
  minted through the region gate.
\<close>

lemma permit_answers:
  assumes "issue_provider_permit p w i tid g rid ttl now a_now pid s = (x, t)"
  obtains (refused) "t = s" "\<And>pm. x \<noteq> Inr (Some pm)"
  | (replayed) q where "t = s" "x = Inr (Some (permit_of_row q))" "q \<in> set (fb_permits s)" "pr_active q"
      "pr_worker_id q = w" "pr_request_id q = rid" "now < pr_expires_at q"
  | (minted) wk bd permits where "find_worker w i s = Inr wk"
      "tbl_find (\<lambda>b. pb_provider b = p) (fb_budgets s) = Some bd" "permit_region_gate bd wk now permits s"
proof -
  have cases: "(t = s \<and> (\<forall>pm. x \<noteq> Inr (Some pm))) \<or>
      (\<exists>q. t = s \<and> x = Inr (Some (permit_of_row q)) \<and> q \<in> set (fb_permits s) \<and> pr_active q \<and>
         pr_worker_id q = w \<and> pr_request_id q = rid \<and> now < pr_expires_at q) \<or>
      (\<exists>wk permits. find_worker w i s = Inr wk \<and>
         permit_from_budget p wk i tid g rid ttl now pid permits s = (x, t))"
    using assms
    by (auto simp: issue_provider_permit_def split: if_splits sum.splits option.splits dest!: tbl_find_SomeD)
  then show thesis
  proof (elim disjE exE conjE)
    fix wk permits
    assume wk: "find_worker w i s = Inr wk"
      and pb: "permit_from_budget p wk i tid g rid ttl now pid permits s = (x, t)"
    from permit_budget_effect [OF pb] consider "t = s" "\<And>pm. x \<noteq> Inr (Some pm)"
      | bd q where "tbl_find (\<lambda>b. pb_provider b = p) (fb_budgets s) = Some bd" "permit_region_gate bd wk now q s" by blast
    then show thesis using refused minted [OF wk] by cases blast+
  qed (use refused replayed in blast)+
qed

text \<open>
  C5: a policy block closes the region. After a worker observed a policy block of a provider, and as long as no
  later observation of the provider by a worker of that region is accepted, whatever else the fabric does in
  between, every permit request of a worker of that region leaves the store unchanged, provided that the
  provider's current budget requires qualified regions and either forbids probing unknown regions or has a
  reprobe time that has not passed since the block. No permit is minted: the only permit such a request can be
  answered with is the worker's own one, issued under the same request id before, still active and not expired.
\<close>

theorem blocked_region_closed:
  assumes obs: "record_provider_region_observation p w i tid g cs st lat rb tmo True a_now now s = (Inr rs, t)"
      "find_worker w i s = Inr wk"
    and run: "(unobserved_step E p (wk_region wk))\<^sup>*\<^sup>* t u"
    and other: "find_worker w' i' u = Inr wk'" "wk_region wk' = wk_region wk"
    and budget: "\<And>b. tbl_find (\<lambda>b. pb_provider b = p) (fb_budgets u) = Some b \<Longrightarrow> pb_require_qualified_region b \<and>
      (\<not> pb_allow_unknown_region_probe b \<or> now' < now + pb_region_reprobe_after_seconds b)"
    and request: "issue_provider_permit p w' i' tid' g' rid' ttl' now' a_now' pid' u = (x, v)"
  shows "v = u \<and> (\<forall>pm. x = Inr (Some pm) \<longrightarrow> (\<exists>q \<in> set (fb_permits u). pm = permit_of_row q \<and> pr_active q \<and>
      pr_worker_id q = w' \<and> pr_request_id q = rid' \<and> now' < pr_expires_at q))"
proof -
  obtain r where r: "observed_region p (wk_region wk) u = Some r" "rg_state r = R_BLOCKED" "rg_updated_at r = now"
    using observe_blocked(1) [OF obs] unobserved_later [OF run] by auto
  have shut: "\<not> permit_region_gate b wk' now' q u"
    if b: "tbl_find (\<lambda>b. pb_provider b = p) (fb_budgets u) = Some b" for b q
    using budget [OF b] r other(2) tbl_find_SomeD [OF b]
    by (auto simp: permit_region_gate_def effective_region_state_def Let_def)
  from request show ?thesis
  proof (cases rule: permit_answers)
    case (minted wk bd permits)
    with shut other(1) show ?thesis by auto
  qed auto
qed

theorem blocked_region_closed_witness:
  "\<exists>s t u. fb_budgets s = [demo_budget\<lparr>pb_require_qualified_region := True\<rparr>] \<and>
     t = snd (record_provider_region_observation ''wayback'' ''w'' ''i'' ''t1'' 1 True (Some 403) 1 1 False True 1 1 s) \<and>
     t \<noteq> s \<and> u = snd (heartbeat ''w'' ''i'' 2 t) \<and> u \<noteq> t \<and>
     snd (issue_provider_permit ''wayback'' ''w'' ''i'' ''t1'' 1 ''r1'' 5 2 2 ''p1'' u) = u"
proof -
  let ?b = "demo_budget\<lparr>pb_require_qualified_region := True\<rparr>"
  let ?s = "demo_leased\<lparr>fb_budgets := [?b]\<rparr>"
  let ?wk = "worker_row_of (demo_descriptor ''w'' ''i'') 0"
  obtain rg where t: "record_provider_region_observation ''wayback'' ''w'' ''i'' ''t1'' 1 True (Some 403) 1 1 False True 1 1 ?s =
      (Inr R_BLOCKED, ?s\<lparr>fb_regions := [rg]\<rparr>)"
    by (simp add: record_provider_region_observation_def permit_run demo_defs qualify_region_def Let_def
        tbl_upsert_def)
  let ?t = "?s\<lparr>fb_regions := [rg]\<rparr>"
  obtain x u where u: "heartbeat ''w'' ''i'' 2 ?t = (x, u)" by fastforce
  have s: "find_worker ''w'' ''i'' ?s = Inr ?wk" by (simp add: permit_run demo_defs)
  have u': "u = ?t\<lparr>fb_workers := [?wk\<lparr>wk_last_heartbeat := 2\<rparr>]\<rparr>"
    using u by (simp add: heartbeat_def permit_run demo_defs)
  have "\<not> accepted_observation ''wayback'' (wk_region ?wk) ?t u"
  proof
    assume "accepted_observation ''wayback'' (wk_region ?wk) ?t u"
    then have "fb_workers u = fb_workers ?t"
      by (auto simp: accepted_observation_def record_provider_region_observation_def Let_def
          split: sum.splits option.splits)
    then show False unfolding u' by (simp add: demo_defs)
  qed
  then have run: "(unobserved_step demo_codec ''wayback'' (wk_region ?wk))\<^sup>*\<^sup>* ?t u"
    using fabric_step.heartbeat [OF u] by (simp add: unobserved_step_def r_into_rtranclp)
  obtain y v where v: "issue_provider_permit ''wayback'' ''w'' ''i'' ''t1'' 1 ''r1'' 5 2 2 ''p1'' u = (y, v)" by fastforce
  have w: "find_worker ''w'' ''i'' u = Inr (?wk\<lparr>wk_last_heartbeat := 2\<rparr>)" unfolding u' by (simp add: permit_run demo_defs)
  have "v = u"
    by (rule conjunct1, rule blocked_region_closed [OF t s run w _ _ v]) (auto simp: u' demo_budget_def tbl_find_def)
  moreover have "?t \<noteq> ?s" "u \<noteq> ?t" unfolding u' by (simp_all add: demo_defs)
  ultimately show ?thesis using t u v by (intro exI [of _ ?s] exI [of _ ?t] exI [of _ u]) simp
qed

section \<open>Garbage collection\<close>

lemma not_victim:
  assumes "uniq key t" "r \<in> set t" "\<not> P r"
  shows "key r \<notin> set (victims key order P n t)"
proof
  assume "key r \<in> set (victims key order P n t)"
  then obtain r' where "r' \<in> set t" "P r'" "key r' = key r"
    by (auto simp: victims_def dest!: in_set_takeD)
  moreover have "inj_on key (set t)" using assms(1) by (simp add: uniq_def distinct_map)
  ultimately show False using assms(2,3) by (auto dest: inj_onD)
qed

lemma in_delete_keys: "r \<in> set (delete_keys key ks t) \<longleftrightarrow> r \<in> set t \<and> key r \<notin> set ks"
  by (auto simp: delete_keys_def table_simps)

text \<open>What the collector must leave alone, and what a work row keeps.\<close>

definition batch_needed :: "batch_row \<Rightarrow> bool" where
  "batch_needed b \<longleftrightarrow> bt_consumed_at b = None \<and> \<not> bt_quarantined b"

definition task_needed :: "fabric \<Rightarrow> work_row \<Rightarrow> bool" where
  "task_needed s r \<longleftrightarrow> fw_state r \<noteq> COMPLETE \<or>
     (\<exists>b \<in> set (fb_batches s). bt_task_id b = fw_task_id r \<and> batch_needed b) \<or>
     (\<exists>p \<in> set (fb_permits s). pr_task_id p = fw_task_id r \<and> pr_active p)"

definition gc_identity :: "work_row \<Rightarrow> string \<times> string \<times> work_state \<times> int \<times> int" where
  "gc_identity r = (fw_task_id r, fw_work_key r, fw_state r, fw_lease_generation r, fw_next_sequence_no r)"

lemma compact_keeps: "List.map gc_identity (compact_work ks ws) = List.map gc_identity ws"
    "fw_task_id r \<notin> set ks \<Longrightarrow> r \<in> set ws \<Longrightarrow> r \<in> set (compact_work ks ws)"
  by (auto simp: compact_work_def tbl_update_def gc_identity_def)

text \<open>
  C6: garbage collection is replay-safe. Whatever retention and limit it is given, it deletes no
  batch that is still to be consumed and no active permit; it deletes no work row and keeps each row's
  identifier, work key, state, generation and sequence number; and it leaves every task alone that is
  not complete or that still has a batch to consume or an active permit.
\<close>

theorem gc_replay_safe:
  assumes inv: "fabric_inv E s" and gc: "gc_transient_state ret lmt now s = (x, t)"
  shows "(\<forall>b \<in> set (fb_batches s). batch_needed b \<longrightarrow> b \<in> set (fb_batches t)) \<and>
     (\<forall>p \<in> set (fb_permits s). pr_active p \<longrightarrow> p \<in> set (fb_permits t)) \<and>
     List.map gc_identity (fb_work t) = List.map gc_identity (fb_work s) \<and>
     (\<forall>r \<in> set (fb_work s). task_needed s r \<longrightarrow> r \<in> set (fb_work t))"
  using gc
proof (cases rule: gc_phases)
  case (2 c n)
  let ?s1 = "snd (gc_permits c n s)"
  let ?s2 = "snd (gc_batches c n ?s1)"
  let ?s3 = "snd (gc_outbox c n ?s2)"
  let ?s4 = "snd (gc_nonces c n ?s3)"
  let ?s5 = "snd (gc_egress c n ?s4)"
  have perm: "p \<in> set (fb_permits ?s1)" if "p \<in> set (fb_permits s)" "pr_active p" for p
    using that fabric_invD(4) [OF inv]
    by (simp add: gc_permits_def gc_permit_keys_def Let_def in_delete_keys) (rule not_victim, simp_all)
  have bat: "b \<in> set (fb_batches ?s2)" if "b \<in> set (fb_batches s)" "batch_needed b" for b
    using that fabric_invD(3) [OF inv]
    by (simp add: gc_batches_def gc_batch_keys_def gc_permits_def Let_def in_delete_keys batch_needed_def)
       (rule not_victim, simp_all)
  have f: "fb_work ?s5 = fb_work s" "fb_batches ?s5 = fb_batches ?s2" "fb_permits ?s5 = fb_permits ?s1"
    by (simp_all add: gc_phase_defs Let_def)
  have t: "fb_batches t = fb_batches ?s2" "fb_permits t = fb_permits ?s1"
      "fb_work t = compact_work (gc_work_keys c n ?s5) (fb_work s)"
    unfolding 2 using f by (simp_all add: gc_work_def Let_def)
  have "fw_task_id r \<notin> set (gc_work_keys c n ?s5)" if r: "r \<in> set (fb_work s)" "task_needed s r" for r
    unfolding gc_work_keys_def f(1)
  proof (rule not_victim [OF _ r(1)])
    show "uniq fw_task_id (fb_work s)" using fabric_invD(1) [OF inv] by (simp add: work_inv_def)
  qed (use r(2) perm bat f(2,3) in \<open>auto simp: task_needed_def batch_needed_def\<close>)
  with t perm bat show ?thesis by (auto simp: compact_keeps)
qed simp

theorem gc_replay_safe_witness:
  "demo_row LEASED (Some ''w'') (Some ''i'') 1 (Some 10) 0 \<in>
     set (fb_work (snd (gc_transient_state (PyInt 1) (PyInt 5) 100 demo_leased)))"
proof -
  obtain x t where t: "gc_transient_state (PyInt 1) (PyInt 5) 100 demo_leased = (x, t)" by fastforce
  from gc_replay_safe [OF demo_leased_inv t] t show ?thesis by (simp add: demo_defs task_needed_def)
qed

end
