(* ===== verification/Credits.thy ===== *)
theory Credits
  imports Prelude "HOL-Library.AList"
begin

text \<open>
  Evidence credits (\<open>scheduler/credits.py\<close>): the grant of a scheduling round (\<open>resource_credits\<close>) and
  the ledger of queued, claimed and reserved work per provider.  The four parallel dictionaries of
  \<open>CreditLedger\<close> are one association list from a provider to its account, in insertion order.
\<close>

section \<open>Credits of a round\<close>

record credits_args =
  ca_source_fetch :: pyval
  ca_parse :: pyval
  ca_evidence :: "(string \<times> pyval) list"
  ca_commit :: pyval
  ca_reserved_evidence_tasks :: pyval

record resource_credits =
  rc_source_fetch :: int
  rc_parse :: int
  rc_evidence :: "(string \<times> int) list"
  rc_commit :: int
  rc_reserved_evidence_tasks :: int

definition resource_credits_init :: "credits_args \<Rightarrow> py_error + resource_credits" where
  "resource_credits_init a =
     check (list_all nonneg_int [ca_source_fetch a, ca_parse a, ca_commit a, ca_reserved_evidence_tasks a]) ValueError (
     check (list_all (\<lambda>(_, v). nonneg_int v) (ca_evidence a)) ValueError (
     Inr \<lparr>rc_source_fetch = the_int_of (ca_source_fetch a), rc_parse = the_int_of (ca_parse a),
          rc_evidence = List.map (\<lambda>(p, v). (p, the_int_of v)) (ca_evidence a),
          rc_commit = the_int_of (ca_commit a),
          rc_reserved_evidence_tasks = the_int_of (ca_reserved_evidence_tasks a)\<rparr>))"

section \<open>The ledger\<close>

record account =
  ac_capacity :: int
  ac_queued :: int
  ac_claimed :: int
  ac_reserved :: int

type_synonym ledger = "(string \<times> account) list"

definition ac_total :: "account \<Rightarrow> int" where
  "ac_total a = ac_queued a + ac_claimed a + ac_reserved a"

definition available :: "account \<Rightarrow> int" where
  "available a = max 0 (ac_capacity a - ac_queued a - ac_claimed a - ac_reserved a)"

definition ledger_init :: "(pyval \<times> pyval) list \<Rightarrow> py_error + ledger" where
  "ledger_init capacities =
     check (list_all (\<lambda>(p, c). (case p of PyStr s \<Rightarrow> \<not> blank s | _ \<Rightarrow> False) \<and> nonneg_int c) capacities) ValueError (
     Inr (List.map (\<lambda>(p, c). ((case p of PyStr s \<Rightarrow> s | _ \<Rightarrow> []),
            \<lparr>ac_capacity = the_int_of c, ac_queued = 0, ac_claimed = 0, ac_reserved = 0\<rparr>)) capacities))"

definition ledger_providers :: "ledger \<Rightarrow> string list" where
  "ledger_providers = List.map fst"

definition balance :: "string \<Rightarrow> ledger \<Rightarrow> py_error + account" where
  "balance provider l = (case map_of l provider of None \<Rightarrow> Inl KeyError | Some a \<Rightarrow> Inr a)"

text \<open>Every operation checks the provider, then the amount, and then changes that account.\<close>

definition on_account :: "string \<Rightarrow> pyval \<Rightarrow> (int \<Rightarrow> account \<Rightarrow> py_error + account) \<Rightarrow> ledger \<Rightarrow> py_error + ledger" where
  "on_account provider amount f l =
     bindr (balance provider l) (\<lambda>a.
     check (nonneg_int amount) ValueError (
     bindr (f (the_int_of amount) a) (\<lambda>a'. Inr (AList.update provider a' l))))"

definition restore_backlog :: "string \<Rightarrow> pyval \<Rightarrow> pyval \<Rightarrow> pyval \<Rightarrow> ledger \<Rightarrow> py_error + ledger" where
  "restore_backlog provider queued claimed reserved l =
     bindr (balance provider l) (\<lambda>a.
     check (list_all nonneg_int [queued, claimed, reserved]) ValueError (
     Inr (AList.update provider (a\<lparr>ac_queued := the_int_of queued, ac_claimed := the_int_of claimed,
                                   ac_reserved := the_int_of reserved\<rparr>) l)))"

definition note_queued :: "string \<Rightarrow> pyval \<Rightarrow> ledger \<Rightarrow> py_error + ledger" where
  "note_queued provider amount = on_account provider amount (\<lambda>n a.
     let reserved = min n (ac_reserved a);
         new_queued = ac_queued a + n;
         new_reserved = ac_reserved a - reserved
     in if ac_capacity a < new_queued + ac_claimed a + new_reserved then Inl ValueError
        else Inr (a\<lparr>ac_reserved := new_reserved, ac_queued := new_queued\<rparr>))"

definition claim_evidence :: "string \<Rightarrow> pyval \<Rightarrow> ledger \<Rightarrow> py_error + ledger" where
  "claim_evidence provider amount = on_account provider amount (\<lambda>n a.
     if ac_queued a < n then Inl ValueError
     else Inr (a\<lparr>ac_queued := ac_queued a - n, ac_claimed := ac_claimed a + n\<rparr>))"

definition note_claimed :: "string \<Rightarrow> pyval \<Rightarrow> ledger \<Rightarrow> py_error + ledger" where
  "note_claimed = claim_evidence"

definition complete_evidence :: "string \<Rightarrow> pyval \<Rightarrow> ledger \<Rightarrow> py_error + ledger" where
  "complete_evidence provider amount = on_account provider amount (\<lambda>n a.
     if ac_claimed a < n then Inl ValueError else Inr (a\<lparr>ac_claimed := ac_claimed a - n\<rparr>))"

definition release_queued :: "string \<Rightarrow> pyval \<Rightarrow> ledger \<Rightarrow> py_error + ledger" where
  "release_queued provider amount = on_account provider amount (\<lambda>n a.
     if ac_queued a < n then Inl ValueError else Inr (a\<lparr>ac_queued := ac_queued a - n\<rparr>))"

definition release_claimed :: "string \<Rightarrow> pyval \<Rightarrow> ledger \<Rightarrow> py_error + ledger" where
  "release_claimed provider amount = on_account provider amount (\<lambda>n a.
     if ac_claimed a < n then Inl ValueError else Inr (a\<lparr>ac_claimed := ac_claimed a - n\<rparr>))"

definition reserve_evidence :: "string \<Rightarrow> pyval \<Rightarrow> ledger \<Rightarrow> (py_error + bool) \<times> ledger" where
  "reserve_evidence provider amount l =
     (case balance provider l of
        Inl e \<Rightarrow> (Inl e, l)
      | Inr a \<Rightarrow>
          if \<not> nonneg_int amount then (Inl ValueError, l)
          else if available a < the_int_of amount then (Inr False, l)
          else (Inr True, AList.update provider (a\<lparr>ac_reserved := ac_reserved a + the_int_of amount\<rparr>) l))"

definition release_evidence :: "string \<Rightarrow> pyval \<Rightarrow> ledger \<Rightarrow> py_error + ledger" where
  "release_evidence provider amount = on_account provider amount (\<lambda>n a.
     if ac_reserved a < n then Inl ValueError else Inr (a\<lparr>ac_reserved := ac_reserved a - n\<rparr>))"

section \<open>The ledger's machine\<close>

inductive ledger_step :: "ledger \<Rightarrow> ledger \<Rightarrow> bool" where
  "note_queued p n l = Inr l' \<Longrightarrow> ledger_step l l'"
| "claim_evidence p n l = Inr l' \<Longrightarrow> ledger_step l l'"
| "complete_evidence p n l = Inr l' \<Longrightarrow> ledger_step l l'"
| "release_queued p n l = Inr l' \<Longrightarrow> ledger_step l l'"
| "release_claimed p n l = Inr l' \<Longrightarrow> ledger_step l l'"
| "reserve_evidence p n l = (Inr b, l') \<Longrightarrow> ledger_step l l'"
| "release_evidence p n l = Inr l' \<Longrightarrow> ledger_step l l'"

definition account_ok :: "account \<Rightarrow> bool" where
  "account_ok a \<longleftrightarrow> 0 \<le> ac_queued a \<and> 0 \<le> ac_claimed a \<and> 0 \<le> ac_reserved a \<and> 0 \<le> ac_capacity a"

definition ledger_ok :: "ledger \<Rightarrow> bool" where
  "ledger_ok l \<longleftrightarrow> (\<forall>p a. map_of l p = Some a \<longrightarrow> account_ok a)"

definition ledger_le :: "ledger \<Rightarrow> ledger \<Rightarrow> bool" where
  "ledger_le l l' \<longleftrightarrow> (\<forall>p. rel_option (\<lambda>a a'. ac_capacity a' = ac_capacity a \<and>
     ac_total a' \<le> max (ac_total a) (ac_capacity a)) (map_of l p) (map_of l' p))"

definition account_step :: "account \<Rightarrow> account \<Rightarrow> bool" where
  "account_step a a' \<longleftrightarrow> ac_capacity a' = ac_capacity a \<and> account_ok a' \<and>
     ac_total a' \<le> max (ac_total a) (ac_capacity a)"

lemma on_account_step:
  assumes "on_account p n f l = Inr l'" "ledger_ok l"
    and "\<And>k a a'. 0 \<le> k \<Longrightarrow> account_ok a \<Longrightarrow> f k a = Inr a' \<Longrightarrow> account_step a a'"
  shows "\<exists>a a'. map_of l p = Some a \<and> l' = AList.update p a' l \<and> account_step a a'"
proof -
  obtain a a' where a: "map_of l p = Some a" "nonneg_int n" "f (the_int_of n) a = Inr a'" "l' = AList.update p a' l"
    using assms(1) by (auto simp: on_account_def balance_def split: option.splits)
  then have "account_step a a'"
    using assms(2) assms(3) [of "the_int_of n" a a'] by (auto simp: ledger_ok_def)
  with a show ?thesis by blast
qed

lemma ledger_step_account:
  assumes "ledger_step l l'" "ledger_ok l"
  shows "l' = l \<or> (\<exists>p a a'. map_of l p = Some a \<and> l' = AList.update p a' l \<and> account_step a a')"
proof -
  have move: "\<exists>p a a'. map_of l p = Some a \<and> l' = AList.update p a' l \<and> account_step a a'"
    if "on_account p n f l = Inr l'" "\<And>k a a'. 0 \<le> k \<Longrightarrow> account_ok a \<Longrightarrow> f k a = Inr a' \<Longrightarrow> account_step a a'"
    for p n f using on_account_step [OF that(1) assms(2)] that(2) by blast
  show ?thesis
    using assms(1)
  proof (cases rule: ledger_step.cases)
    case (6 p n b)
    show ?thesis
    proof (cases "b \<and> nonneg_int n")
      case True
      with 6 obtain a where a: "map_of l p = Some a" "the_int_of n \<le> available a" "0 \<le> the_int_of n"
          "l' = AList.update p (a\<lparr>ac_reserved := ac_reserved a + the_int_of n\<rparr>) l"
        by (auto simp: reserve_evidence_def balance_def split: option.splits if_splits)
      have "account_ok a" using assms(2) a(1) by (simp add: ledger_ok_def)
      with a(2,3) have "account_step a (a\<lparr>ac_reserved := ac_reserved a + the_int_of n\<rparr>)"
        by (auto simp: account_step_def account_ok_def ac_total_def available_def max_def split: if_splits)
      with a show ?thesis by blast
    qed (use 6 in \<open>auto simp: reserve_evidence_def split: sum.splits if_splits\<close>)
  next
    case (1 p n)
    then show ?thesis unfolding note_queued_def
      by (intro disjI2, elim move) (auto simp: account_step_def account_ok_def ac_total_def Let_def split: if_splits)
  qed (unfold claim_evidence_def complete_evidence_def release_queued_def release_claimed_def release_evidence_def,
    (rule disjI2, erule move, force simp: account_step_def account_ok_def ac_total_def split: if_splits)+)
qed

lemma ledger_step_ok: "ledger_ok l \<Longrightarrow> ledger_step l l' \<Longrightarrow> ledger_ok l' \<and> ledger_le l l'"
  by (frule (1) ledger_step_account)
     (auto simp: ledger_ok_def ledger_le_def account_step_def update_conv' option.rel_refl split: if_splits
       intro!: option.rel_refl)

lemma ledger_le_trans: "ledger_le l l' \<Longrightarrow> ledger_le l' l'' \<Longrightarrow> ledger_le l l''"
  unfolding ledger_le_def
proof
  fix p
  assume "\<forall>p. rel_option (\<lambda>a a'. ac_capacity a' = ac_capacity a \<and> ac_total a' \<le> max (ac_total a) (ac_capacity a))
      (map_of l p) (map_of l' p)"
    "\<forall>p. rel_option (\<lambda>a a'. ac_capacity a' = ac_capacity a \<and> ac_total a' \<le> max (ac_total a) (ac_capacity a))
      (map_of l' p) (map_of l'' p)"
  then show "rel_option (\<lambda>a a'. ac_capacity a' = ac_capacity a \<and> ac_total a' \<le> max (ac_total a) (ac_capacity a))
      (map_of l p) (map_of l'' p)"
    by (cases "map_of l p"; cases "map_of l' p"; cases "map_of l'' p") (auto dest!: spec [of _ p])
qed

interpretation ledger: machine "\<lambda>l. \<exists>cs. ledger_init cs = Inr l" ledger_step ledger_ok
proof
  show "\<exists>cs. ledger_init cs = Inr l \<Longrightarrow> ledger_ok l" for l
    by (auto simp: ledger_init_def ledger_ok_def account_ok_def list_all_iff dest!: map_of_SomeD)
       (auto split: prod.splits dest: nonneg_int_the)
qed (use ledger_step_ok in blast)

text \<open>
  evidence credits are bounded. Starting from any consistent ledger (freshly created, or
  restored from a durable backlog that may exceed a lowered capacity), no sequence of reserving,
  queueing, claiming, completing and releasing makes a counter negative, changes a capacity, or lifts
  a provider's outstanding work above its capacity or above the backlog it started with.
\<close>

theorem credits_bounded:
  assumes ok: "ledger_ok l" and run: "ledger_step\<^sup>*\<^sup>* l l'" and p: "map_of l p = Some a"
  shows "\<exists>a'. map_of l' p = Some a' \<and> account_ok a' \<and> ac_capacity a' = ac_capacity a \<and>
     ac_total a' \<le> max (ac_total a) (ac_capacity a)"
proof -
  have "ledger_le l l'"
    by (rule ledger.preserved_along [OF run ok, where P = "ledger_le l"])
       (use ledger_le_trans ledger_step_ok in \<open>auto simp: ledger_le_def option.rel_refl intro!: option.rel_refl\<close>)
  moreover have "ledger_ok l'" using run ok by (rule ledger.inv_steps)
  ultimately show ?thesis using p
    by (auto simp: ledger_le_def ledger_ok_def option_rel_Some1 dest!: spec [of _ p])
qed

theorem credits_bounded_witness:
  "\<exists>l. ledger_init [(PyStr ''w'', PyInt 2)] = Inr l \<and>
     (\<exists>l'. reserve_evidence ''w'' (PyInt 2) l = (Inr True, l') \<and> reserve_evidence ''w'' (PyInt 1) l' = (Inr False, l') \<and>
       (\<exists>a'. map_of l' ''w'' = Some a' \<and> ac_total a' \<le> 2))"
proof -
  let ?a = "\<lparr>ac_capacity = 2, ac_queued = 0, ac_claimed = 0, ac_reserved = 0\<rparr>"
  have nb: "\<not> blank ''w''" by (simp add: blank_iff py_space_def Let_def)
  have l: "ledger_init [(PyStr ''w'', PyInt 2)] = Inr [(''w'', ?a)]" by (simp add: ledger_init_def nb)
  have r: "reserve_evidence ''w'' (PyInt 2) [(''w'', ?a)] = (Inr True, [(''w'', ?a\<lparr>ac_reserved := 2\<rparr>)])"
    by (simp add: reserve_evidence_def balance_def available_def)
  have "ledger_ok [(''w'', ?a)]" by (simp add: ledger_ok_def account_ok_def)
  moreover have "ledger_step\<^sup>*\<^sup>* [(''w'', ?a)] [(''w'', ?a\<lparr>ac_reserved := 2\<rparr>)]"
    using ledger_step.intros(6) [OF r] by blast
  ultimately have "\<exists>a'. map_of [(''w'', ?a\<lparr>ac_reserved := 2\<rparr>)] ''w'' = Some a' \<and> account_ok a' \<and>
      ac_capacity a' = ac_capacity ?a \<and> ac_total a' \<le> max (ac_total ?a) (ac_capacity ?a)"
    by (rule credits_bounded) simp
  with l r show ?thesis
    by (auto simp: reserve_evidence_def balance_def available_def ac_total_def)
qed

end
