(* ===== verification/Governor.thy ===== *)
theory Governor
  imports Credits
begin

text \<open>
  The resource governor (\<open>runtime/resource_governor.py\<close>): the pressure state of a sample, the stage
  credits it grants, the stabilized governor that escalates at once and recovers slowly, and the
  sampler that adds up the memory of a process tree read from \<open>/proc\<close>.
\<close>

section \<open>States and samples\<close>

datatype governor_state = NORMAL | THROTTLED | DRAIN_ONLY | EMERGENCY_STOP

record sample_args =
  xa_rss_bytes :: pyval
  xa_disk_free_bytes :: pyval
  xa_cpu_percent :: pyval
  xa_provider_pressure :: pyval

record resource_sample =
  sm_rss_bytes :: int
  sm_disk_free_bytes :: int
  sm_cpu_percent :: rat
  sm_provider_pressure :: rat

definition resource_sample_init :: "sample_args \<Rightarrow> py_error + resource_sample" where
  "resource_sample_init a =
     check (list_all nonneg_int [xa_rss_bytes a, xa_disk_free_bytes a]) ValueError (
     check (list_all nonneg_number [xa_cpu_percent a, xa_provider_pressure a]) ValueError (
     Inr \<lparr>sm_rss_bytes = the_int_of (xa_rss_bytes a), sm_disk_free_bytes = the_int_of (xa_disk_free_bytes a),
          sm_cpu_percent = the_number_of (xa_cpu_percent a),
          sm_provider_pressure = the_number_of (xa_provider_pressure a)\<rparr>))"

record governor =
  gv_rss_throttle_bytes :: int
  gv_rss_stop_bytes :: int
  gv_disk_throttle_bytes :: int
  gv_disk_stop_bytes :: int
  gv_provider_drain_pressure :: rat
  gv_provider_throttle_pressure :: rat

definition governor_init :: "pyval \<Rightarrow> pyval \<Rightarrow> pyval \<Rightarrow> pyval \<Rightarrow> pyval \<Rightarrow> pyval \<Rightarrow> py_error + governor" where
  "governor_init rss_throttle rss_stop disk_throttle disk_stop drain throttle =
     check (list_all nonneg_int [rss_throttle, rss_stop, disk_throttle, disk_stop]) ValueError (
     check (list_all nonneg_number [drain, throttle]) ValueError (
     check (the_int_of disk_stop \<le> the_int_of disk_throttle) ValueError (
     check (the_int_of rss_throttle \<le> the_int_of rss_stop) ValueError (
     check (the_number_of throttle \<le> the_number_of drain) ValueError (
     Inr \<lparr>gv_rss_throttle_bytes = the_int_of rss_throttle, gv_rss_stop_bytes = the_int_of rss_stop,
          gv_disk_throttle_bytes = the_int_of disk_throttle, gv_disk_stop_bytes = the_int_of disk_stop,
          gv_provider_drain_pressure = the_number_of drain,
          gv_provider_throttle_pressure = the_number_of throttle\<rparr>)))))"

definition evaluate :: "governor \<Rightarrow> resource_sample \<Rightarrow> governor_state" where
  "evaluate g x =
     (if gv_rss_stop_bytes g \<le> sm_rss_bytes x \<or> sm_disk_free_bytes x \<le> gv_disk_stop_bytes g then EMERGENCY_STOP
      else if sm_disk_free_bytes x \<le> gv_disk_throttle_bytes g \<or>
              gv_provider_drain_pressure g \<le> sm_provider_pressure x then DRAIN_ONLY
      else if gv_rss_throttle_bytes g \<le> sm_rss_bytes x \<or>
              gv_provider_throttle_pressure g \<le> sm_provider_pressure x then THROTTLED
      else NORMAL)"

section \<open>Credits\<close>

definition throttled :: "int \<Rightarrow> int" where
  "throttled capacity = (capacity + 1) div 2"

definition resource_names :: "string list" where
  "resource_names = [''source_fetch'', ''parse'', ''commit'']"

definition capacity_of :: "string \<Rightarrow> (string \<times> int) list \<Rightarrow> int" where
  "capacity_of name values = (case map_of values name of None \<Rightarrow> 0 | Some v \<Rightarrow> v)"

definition stage_credits :: "int \<Rightarrow> int \<Rightarrow> (string \<times> int) list \<Rightarrow> int \<Rightarrow> py_error + resource_credits" where
  "stage_credits source_fetch parse evidence commit = resource_credits_init
     \<lparr>ca_source_fetch = PyInt source_fetch, ca_parse = PyInt parse,
      ca_evidence = List.map (\<lambda>(p, v). (p, PyInt v)) evidence, ca_commit = PyInt commit,
      ca_reserved_evidence_tasks = PyInt 0\<rparr>"

definition credits_for :: "governor_state \<Rightarrow> (string \<times> int) list \<Rightarrow> py_error + resource_credits" where
  "credits_for state values =
     (let evidence = filter (\<lambda>(p, _). p \<notin> set resource_names) values;
          f = capacity_of ''source_fetch'' values; p = capacity_of ''parse'' values;
          c = capacity_of ''commit'' values;
          scaled = (\<lambda>h. List.map (\<lambda>(n, v). (n, h v)) evidence)
      in case state of
           EMERGENCY_STOP \<Rightarrow> stage_credits 0 0 (scaled (\<lambda>_. 0)) 0
         | DRAIN_ONLY \<Rightarrow> stage_credits 0 p (scaled (\<lambda>_. 0)) c
         | THROTTLED \<Rightarrow> stage_credits (throttled f) (throttled p) (scaled throttled) (throttled c)
         | NORMAL \<Rightarrow> stage_credits f p evidence c)"

definition governor_credits :: "governor \<Rightarrow> resource_sample \<Rightarrow> (string \<times> pyval) list \<Rightarrow> py_error + resource_credits" where
  "governor_credits g x capacities =
     check (list_all (\<lambda>(_, v). nonneg_int v) capacities) ValueError
       (credits_for (evaluate g x) (List.map (\<lambda>(p, v). (p, the_int_of v)) capacities))"

section \<open>Stabilization\<close>

fun severity :: "governor_state \<Rightarrow> nat" where
  "severity NORMAL = 0"
| "severity THROTTLED = 1"
| "severity DRAIN_ONLY = 2"
| "severity EMERGENCY_STOP = 3"

record stabilized =
  sg_governor :: governor
  sg_recovery_samples :: int
  sg_state :: governor_state
  sg_recovery_streak :: int

definition stabilized_init :: "governor \<Rightarrow> int \<Rightarrow> py_error + stabilized" where
  "stabilized_init g recovery_samples =
     check (1 \<le> recovery_samples) ValueError
       (Inr \<lparr>sg_governor = g, sg_recovery_samples = recovery_samples, sg_state = NORMAL, sg_recovery_streak = 0\<rparr>)"

definition stabilized_update :: "resource_sample \<Rightarrow> stabilized \<Rightarrow> stabilized" where
  "stabilized_update x g =
     (let raw = evaluate (sg_governor g) x in
      if severity (sg_state g) < severity raw then g\<lparr>sg_state := raw, sg_recovery_streak := 0\<rparr>
      else if raw = sg_state g then g\<lparr>sg_recovery_streak := 0\<rparr>
      else let streak = sg_recovery_streak g + 1 in
        if sg_recovery_samples g \<le> streak then g\<lparr>sg_state := raw, sg_recovery_streak := 0\<rparr>
        else g\<lparr>sg_recovery_streak := streak\<rparr>)"

section \<open>The process table\<close>

definition line_end :: "char \<Rightarrow> bool" where
  "line_end c = (of_char c \<in> {10, 11, 12, 13, 28, 29, 30, 133 :: nat})"

text \<open>\<open>splitlines\<close>: CR LF is one line end, and no line follows a final line end.\<close>

fun split_lines :: "string \<Rightarrow> string \<Rightarrow> string list" where
  "split_lines cur [] = (if cur = [] then [] else [rev cur])"
| "split_lines cur [c] = (if line_end c then [rev cur] else [rev (c # cur)])"
| "split_lines cur (c # d # cs) =
     (if of_char c = (13 :: nat) \<and> of_char d = (10 :: nat) then rev cur # split_lines [] cs
      else if line_end c then rev cur # split_lines [] (d # cs)
      else split_lines (c # cur) (d # cs))"

fun split_words :: "string \<Rightarrow> string \<Rightarrow> string list" where
  "split_words cur [] = (if cur = [] then [] else [rev cur])"
| "split_words cur (c # cs) =
     (if py_space c then (if cur = [] then split_words [] cs else rev cur # split_words [] cs)
      else split_words (c # cur) cs)"

definition second_word_int :: "string \<Rightarrow> int option" where
  "second_word_int line = (case split_words [] line of _ # w # _ \<Rightarrow> py_int w | _ \<Rightarrow> None)"

fun status_lines :: "int option \<Rightarrow> int \<Rightarrow> string list \<Rightarrow> (int \<times> int) option" where
  "status_lines ppid rss_kib [] = (case ppid of None \<Rightarrow> None | Some p \<Rightarrow> Some (p, rss_kib * 1024))"
| "status_lines ppid rss_kib (line # lines) =
     (if starts_with line ''PPid:'' then
        (case second_word_int line of None \<Rightarrow> None | Some p \<Rightarrow> status_lines (Some p) rss_kib lines)
      else if starts_with line ''VmRSS:'' then
        status_lines ppid (case second_word_int line of None \<Rightarrow> 0 | Some k \<Rightarrow> k) lines
      else status_lines ppid rss_kib lines)"

definition status_values :: "string option \<Rightarrow> (int \<times> int) option" where
  "status_values contents = (case contents of None \<Rightarrow> None | Some text' \<Rightarrow> status_lines None 0 (split_lines [] text'))"

text \<open>The table: process identifier, parent, resident bytes, in the order of the directory's entries.\<close>

definition all_digits :: "string \<Rightarrow> bool" where
  "all_digits s = (s \<noteq> [] \<and> list_all (\<lambda>c. digit_value c \<noteq> None) s)"

type_synonym process_table = "(int \<times> int \<times> int) list"

definition read_processes :: "(string \<times> string option) list \<Rightarrow> process_table" where
  "read_processes entries = fold (\<lambda>(name, contents) t.
     if \<not> all_digits name then t
     else case (py_int name, status_values contents) of
            (Some pid, Some v) \<Rightarrow> AList.update pid v t
          | _ \<Rightarrow> t) entries []"

definition children_of :: "process_table \<Rightarrow> int \<Rightarrow> int list" where
  "children_of t ppid = List.map fst (filter (\<lambda>(_, p, _). p = ppid) t)"

definition rss_of :: "process_table \<Rightarrow> int \<Rightarrow> int" where
  "rss_of t pid = (case map_of t pid of None \<Rightarrow> 0 | Some (_, rss) \<Rightarrow> rss)"

lemma children_of_table: "set (children_of t p) \<subseteq> fst ` set t"
  by (auto simp: children_of_def)

function walk :: "process_table \<Rightarrow> int set \<Rightarrow> int list \<Rightarrow> int \<Rightarrow> int" where
  "walk t seen stack acc =
     (if stack = [] then acc
      else let pid = last stack; rest = butlast stack in
        if pid \<in> seen then walk t seen rest acc
        else walk t (insert pid seen) (rest @ children_of t pid) (acc + rss_of t pid))"
  by pat_completeness auto

definition unseen :: "process_table \<Rightarrow> int set \<Rightarrow> int list \<Rightarrow> nat" where
  "unseen t seen stack = card (((fst ` set t) \<union> set stack) - seen)"

lemma unseen_pop: "unseen t seen (butlast stack) \<le> unseen t seen stack"
  unfolding unseen_def by (intro card_mono) (auto dest: in_set_butlastD)

lemma unseen_push:
  assumes "stack \<noteq> []" "last stack \<notin> seen"
  shows "unseen t (insert (last stack) seen) (butlast stack @ children_of t (last stack)) < unseen t seen stack"
  unfolding unseen_def
proof (rule psubset_card_mono)
  show "(fst ` set t \<union> set (butlast stack @ children_of t (last stack))) - insert (last stack) seen
      \<subset> (fst ` set t \<union> set stack) - seen"
    using assms children_of_table [of t "last stack"] by (auto dest: in_set_butlastD)
qed simp

termination walk
proof (relation "measures [\<lambda>(t, seen, stack, _). unseen t seen stack, \<lambda>(_, _, stack, _). length stack]")
  fix t :: process_table and seen :: "int set" and stack :: "int list" and acc pid rest
  assume "stack \<noteq> []" "pid = last stack" "rest = butlast stack" "pid \<in> seen"
  then show "((t, seen, rest, acc), (t, seen, stack, acc)) \<in>
      measures [\<lambda>(t, seen, stack, _). unseen t seen stack, \<lambda>(_, _, stack, _). length stack]"
    using unseen_pop [of t seen stack] by (auto simp: le_less)
qed (auto simp: unseen_push)

declare walk.simps [simp del]

text \<open>
  \<open>roots\<close> is a set in the code; the traversal starts from its elements in some order, here in the
  order of their first occurrence.
\<close>

definition root_set :: "pyval list \<Rightarrow> int list" where
  "root_set root_pids = remdups (List.map_filter (\<lambda>v. case v of PyInt n \<Rightarrow> if 0 < n then Some n else None | _ \<Rightarrow> None) root_pids)"

definition process_tree_rss :: "(string \<times> string option) list option \<Rightarrow> pyval list \<Rightarrow> py_error + int" where
  "process_tree_rss entries root_pids =
     (let roots = root_set root_pids in
      if roots = [] then Inr 0
      else case entries of
             None \<Rightarrow> Inl RuntimeError
           | Some es \<Rightarrow> Inr (walk (read_processes es) {} roots 0))"

definition sample_resources ::
  "int option \<Rightarrow> (string \<times> string option) list option \<Rightarrow> pyval list \<Rightarrow> rat \<Rightarrow> py_error + resource_sample" where
  "sample_resources disk_free entries root_pids provider_pressure =
     (case disk_free of
        None \<Rightarrow> Inl RuntimeError
      | Some free \<Rightarrow> bindr (process_tree_rss entries root_pids) (\<lambda>rss.
          resource_sample_init \<lparr>xa_rss_bytes = PyInt rss, xa_disk_free_bytes = PyInt free,
            xa_cpu_percent = PyFloat (Finite 0), xa_provider_pressure = PyFloat (Finite provider_pressure)\<rparr>))"

end
