(* ===== verification/Governor_Properties.thy ===== *)
theory Governor_Properties
  imports Governor
begin

text \<open>
  The governor's promises: credits stay within capacity, escalation is immediate and recovery needs a
  full run of calmer samples, and the process tree's memory is the sum over its processes.
\<close>

section \<open>Credits\<close>

lemma stage_credits_ok:
  "stage_credits f p ev c = Inr r \<longleftrightarrow> 0 \<le> f \<and> 0 \<le> p \<and> 0 \<le> c \<and> (\<forall>(n, v) \<in> set ev. 0 \<le> v) \<and>
     r = \<lparr>rc_source_fetch = f, rc_parse = p, rc_evidence = ev, rc_commit = c, rc_reserved_evidence_tasks = 0\<rparr>"
  by (auto simp: stage_credits_def resource_credits_init_def list_all_iff o_def case_prod_unfold)

lemma capacity_nonneg: "\<forall>(n, v) \<in> set values. 0 \<le> v \<Longrightarrow> 0 \<le> capacity_of k values"
  by (auto simp: capacity_of_def split: option.splits dest!: map_of_SomeD)

lemma throttled_bounds: "0 \<le> c \<Longrightarrow> 0 \<le> throttled c \<and> throttled c \<le> c"
  by (auto simp: throttled_def)

definition credits_within :: "resource_credits \<Rightarrow> (string \<times> int) list \<Rightarrow> bool" where
  "credits_within r caps \<longleftrightarrow> rc_source_fetch r \<le> capacity_of ''source_fetch'' caps \<and>
     rc_parse r \<le> capacity_of ''parse'' caps \<and> rc_commit r \<le> capacity_of ''commit'' caps \<and>
     list_all2 (\<lambda>(n, v) (n', v'). n = n' \<and> 0 \<le> v \<and> v \<le> v') (rc_evidence r)
       (filter (\<lambda>(n, _). n \<notin> set resource_names) caps)"

lemma list_all2_scaled:
  "(\<And>n v. (n, v) \<in> set xs \<Longrightarrow> 0 \<le> h v \<and> h v \<le> v) \<Longrightarrow>
   list_all2 (\<lambda>(n, v) (n', v'). n = n' \<and> 0 \<le> v \<and> v \<le> v') (List.map (\<lambda>(n, v). (n, h v)) xs) xs"
  by (induction xs) auto

lemma credits_for_total:
  assumes "\<forall>(n, v) \<in> set caps. 0 \<le> v"
  shows "\<exists>r. credits_for st caps = Inr r \<and> credits_within r caps \<and>
     (severity st \<ge> 2 \<longrightarrow> rc_source_fetch r = 0 \<and> (\<forall>(n, v) \<in> set (rc_evidence r). v = 0)) \<and>
     (severity st = 3 \<longrightarrow> rc_parse r = 0 \<and> rc_commit r = 0)"
proof -
  let ?ev = "filter (\<lambda>(n, _). n \<notin> set resource_names) caps"
  note cap = capacity_nonneg [OF assms]
  have ev: "0 \<le> v" if "(n, v) \<in> set ?ev" for n v using assms that by auto
  show ?thesis
  proof (cases st)
    case NORMAL
    have "list_all2 (\<lambda>(n, v) (n', v'). n = n' \<and> 0 \<le> v \<and> v \<le> v') ?ev ?ev"
      using list_all2_scaled [of ?ev id] ev by auto
    then show ?thesis using NORMAL cap assms ev
      by (auto simp: credits_for_def Let_def stage_credits_ok credits_within_def)
  next
    case THROTTLED
    have "list_all2 (\<lambda>(n, v) (n', v'). n = n' \<and> 0 \<le> v \<and> v \<le> v') (List.map (\<lambda>(n, v). (n, throttled v)) ?ev) ?ev"
      by (rule list_all2_scaled) (use ev throttled_bounds in blast)
    then show ?thesis using THROTTLED cap throttled_bounds [OF cap] ev throttled_bounds
      by (auto simp: credits_for_def Let_def stage_credits_ok credits_within_def)
  next
    case DRAIN_ONLY
    have "list_all2 (\<lambda>(n, v) (n', v'). n = n' \<and> 0 \<le> v \<and> v \<le> v') (List.map (\<lambda>(n, v). (n, (\<lambda>_. 0) v)) ?ev) ?ev"
      by (rule list_all2_scaled) (use ev in auto)
    then show ?thesis using DRAIN_ONLY cap
      by (auto simp: credits_for_def Let_def stage_credits_ok credits_within_def)
  next
    case EMERGENCY_STOP
    have "list_all2 (\<lambda>(n, v) (n', v'). n = n' \<and> 0 \<le> v \<and> v \<le> v') (List.map (\<lambda>(n, v). (n, (\<lambda>_. 0) v)) ?ev) ?ev"
      by (rule list_all2_scaled) (use ev in auto)
    then show ?thesis using EMERGENCY_STOP cap
      by (auto simp: credits_for_def Let_def stage_credits_ok credits_within_def)
  qed
qed

text \<open>
  credits follow pressure. For every sample and every valid set of capacities the governor
  grants credits (it never fails), no stage or provider gets more than its capacity and providers
  keep their order; memory or disk beyond the stop threshold grants nothing at all, and low disk or a
  draining provider grants no source fetch and no evidence request.
\<close>

theorem credits_follow_pressure:
  assumes caps: "\<forall>(n, v) \<in> set caps. nonneg_int v"
  shows "\<exists>r. governor_credits g x caps = Inr r \<and> credits_within r (List.map (\<lambda>(n, v). (n, the_int_of v)) caps) \<and>
     (sm_disk_free_bytes x \<le> gv_disk_throttle_bytes g \<or> gv_provider_drain_pressure g \<le> sm_provider_pressure x \<longrightarrow>
        rc_source_fetch r = 0 \<and> (\<forall>(n, v) \<in> set (rc_evidence r). v = 0)) \<and>
     (gv_rss_stop_bytes g \<le> sm_rss_bytes x \<or> sm_disk_free_bytes x \<le> gv_disk_stop_bytes g \<longrightarrow>
        rc_source_fetch r = 0 \<and> rc_parse r = 0 \<and> rc_commit r = 0 \<and> (\<forall>(n, v) \<in> set (rc_evidence r). v = 0))"
proof -
  have "list_all (\<lambda>(_, v). nonneg_int v) caps" using caps by (auto simp: list_all_iff)
  moreover have "\<forall>(n, v) \<in> set (List.map (\<lambda>(n, v). (n, the_int_of v)) caps). 0 \<le> v"
    using caps by (auto dest!: bspec)
  ultimately obtain r where r: "governor_credits g x caps = Inr r"
      "credits_within r (List.map (\<lambda>(n, v). (n, the_int_of v)) caps)"
      "severity (evaluate g x) \<ge> 2 \<longrightarrow> rc_source_fetch r = 0 \<and> (\<forall>(n, v) \<in> set (rc_evidence r). v = 0)"
      "severity (evaluate g x) = 3 \<longrightarrow> rc_parse r = 0 \<and> rc_commit r = 0"
    using credits_for_total [of "List.map (\<lambda>(n, v). (n, the_int_of v)) caps" "evaluate g x"]
    by (auto simp: governor_credits_def)
  then show ?thesis by (intro exI [of _ r]) (auto simp: evaluate_def)
qed

definition demo_governor :: governor where
  "demo_governor = \<lparr>gv_rss_throttle_bytes = 60, gv_rss_stop_bytes = 80, gv_disk_throttle_bytes = 40,
     gv_disk_stop_bytes = 20, gv_provider_drain_pressure = 1, gv_provider_throttle_pressure = 8/10\<rparr>"

definition demo_sample :: "int \<Rightarrow> resource_sample" where
  "demo_sample rss = \<lparr>sm_rss_bytes = rss, sm_disk_free_bytes = 100, sm_cpu_percent = 0, sm_provider_pressure = 0\<rparr>"

theorem credits_follow_pressure_witness:
  "\<exists>r. governor_credits demo_governor (demo_sample 90) [(''parse'', PyInt 4), (''w'', PyInt 3)] = Inr r \<and>
     rc_parse r = 0 \<and> (\<forall>(n, v) \<in> set (rc_evidence r). v = 0)"
  using credits_follow_pressure [of "[(''parse'', PyInt 4), (''w'', PyInt 3)]" demo_governor "demo_sample 90"]
  by (auto simp: demo_governor_def demo_sample_def)

section \<open>Stabilization\<close>

text \<open>The stabilized governor after a history of samples, latest first.\<close>

primrec after :: "stabilized \<Rightarrow> resource_sample list \<Rightarrow> stabilized" where
  "after g [] = g"
| "after g (x # xs) = stabilized_update x (after g xs)"

lemma update_fixed [simp]:
  "sg_governor (stabilized_update x g) = sg_governor g"
  "sg_recovery_samples (stabilized_update x g) = sg_recovery_samples g"
  by (simp_all add: stabilized_update_def Let_def)

lemma after_fixed [simp]:
  "sg_governor (after g xs) = sg_governor g" "sg_recovery_samples (after g xs) = sg_recovery_samples g"
  by (induction xs) simp_all

definition calmer :: "governor \<Rightarrow> governor_state \<Rightarrow> resource_sample \<Rightarrow> bool" where
  "calmer g st x \<longleftrightarrow> severity (evaluate g x) < severity st"

lemma severity_inj: "severity a = severity b \<Longrightarrow> a = b"
  by (cases a; cases b) simp_all

lemma streak_inv:
  assumes init: "stabilized_init gv n = Inr g"
  shows "0 \<le> sg_recovery_streak (after g xs) \<and> sg_recovery_streak (after g xs) < n \<and>
     nat (sg_recovery_streak (after g xs)) \<le> length xs \<and>
     (\<forall>x \<in> set (take (nat (sg_recovery_streak (after g xs))) xs). calmer gv (sg_state (after g xs)) x) \<and>
     (\<forall>k \<le> nat (sg_recovery_streak (after g xs)). sg_state (after g (drop k xs)) = sg_state (after g xs))"
proof (induction xs)
  case Nil
  then show ?case using init by (auto simp: stabilized_init_def)
next
  case (Cons x xs)
  have g: "sg_governor g = gv" "sg_recovery_samples g = n" using init by (auto simp: stabilized_init_def)
  let ?s = "after g xs"
  have sev: "severity (evaluate gv x) < severity (sg_state ?s)"
    if "\<not> severity (sg_state ?s) < severity (evaluate gv x)" "evaluate gv x \<noteq> sg_state ?s"
    using that severity_inj [of "evaluate gv x" "sg_state ?s"] by linarith
  show ?case
  proof (cases "severity (sg_state ?s) < severity (evaluate gv x) \<or> evaluate gv x = sg_state ?s \<or>
      n \<le> sg_recovery_streak ?s + 1")
    case True
    with Cons g have "sg_recovery_streak (after g (x # xs)) = 0" "0 < n"
      by (auto simp: stabilized_update_def Let_def)
    then show ?thesis by simp
  next
    case False
    with g have st: "after g (x # xs) = ?s\<lparr>sg_recovery_streak := sg_recovery_streak ?s + 1\<rparr>"
      by (simp add: stabilized_update_def Let_def)
    have "0 \<le> sg_recovery_streak ?s" using Cons by blast
    then have k: "nat (sg_recovery_streak ?s + 1) = Suc (nat (sg_recovery_streak ?s))" by simp
    have same: "sg_state (after g (drop k (x # xs))) = sg_state ?s" if "k \<le> Suc (nat (sg_recovery_streak ?s))" for k
      using Cons that st by (cases k) simp_all
    from False Cons sev st k same show ?thesis by (auto simp: calmer_def)
  qed
qed

text \<open>
  escalation is immediate, recovery is earned. After every sample the stabilized state is at
  least as severe as that sample; and when a sample lowers the state, then at least
  \<open>recovery_samples\<close> samples were seen, the last \<open>recovery_samples\<close> of them were all calmer than the
  state that is left, and that state was held throughout them.
\<close>

theorem recovery_is_earned:
  assumes init: "stabilized_init gv n = Inr g"
  shows "severity (evaluate gv x) \<le> severity (sg_state (after g (x # xs))) \<and>
     (severity (sg_state (after g (x # xs))) < severity (sg_state (after g xs)) \<longrightarrow>
        nat n \<le> length (x # xs) \<and> (\<forall>y \<in> set (take (nat n) (x # xs)). calmer gv (sg_state (after g xs)) y) \<and>
        (\<forall>k < nat n. sg_state (after g (drop k xs)) = sg_state (after g xs)))"
proof
  have g: "sg_governor g = gv" "sg_recovery_samples g = n" using init by (auto simp: stabilized_init_def)
  let ?s = "after g xs"
  show "severity (evaluate gv x) \<le> severity (sg_state (after g (x # xs)))"
    using g by (auto simp: stabilized_update_def Let_def)
  show "severity (sg_state (after g (x # xs))) < severity (sg_state ?s) \<longrightarrow>
      nat n \<le> length (x # xs) \<and> (\<forall>y \<in> set (take (nat n) (x # xs)). calmer gv (sg_state ?s) y) \<and>
      (\<forall>k < nat n. sg_state (after g (drop k xs)) = sg_state ?s)"
  proof
    assume low: "severity (sg_state (after g (x # xs))) < severity (sg_state ?s)"
    note inv = streak_inv [OF init, of xs]
    have "n \<le> sg_recovery_streak ?s + 1" "evaluate gv x = sg_state (after g (x # xs))"
      using low g by (auto simp: stabilized_update_def Let_def split: if_splits)
    moreover from this(1) inv have k: "nat n = Suc (nat (sg_recovery_streak ?s))" by linarith
    ultimately show "nat n \<le> length (x # xs) \<and> (\<forall>y \<in> set (take (nat n) (x # xs)). calmer gv (sg_state ?s) y) \<and>
        (\<forall>k < nat n. sg_state (after g (drop k xs)) = sg_state ?s)"
      using inv low by (auto simp: calmer_def less_Suc_eq_le)
  qed
qed

theorem recovery_is_earned_witness:
  "\<exists>g. stabilized_init demo_governor 2 = Inr g \<and>
     sg_state (after g [demo_sample 90]) = EMERGENCY_STOP \<and>
     sg_state (after g [demo_sample 1, demo_sample 90]) = EMERGENCY_STOP \<and>
     sg_state (after g [demo_sample 1, demo_sample 1, demo_sample 90]) = NORMAL \<and>
     calmer demo_governor EMERGENCY_STOP (demo_sample 1)"
proof -
  let ?g = "\<lparr>sg_governor = demo_governor, sg_recovery_samples = 2, sg_state = NORMAL, sg_recovery_streak = 0\<rparr>"
  have g: "stabilized_init demo_governor 2 = Inr ?g" by (simp add: stabilized_init_def)
  have e: "evaluate demo_governor (demo_sample 90) = EMERGENCY_STOP" "evaluate demo_governor (demo_sample 1) = NORMAL"
    by (simp_all add: evaluate_def demo_governor_def demo_sample_def)
  have s: "sg_state (after ?g [demo_sample 90]) = EMERGENCY_STOP"
     "sg_state (after ?g [demo_sample 1, demo_sample 90]) = EMERGENCY_STOP"
     "sg_state (after ?g [demo_sample 1, demo_sample 1, demo_sample 90]) = NORMAL"
    by (simp_all add: stabilized_update_def Let_def e)
  with recovery_is_earned [OF g, of "demo_sample 1" "[demo_sample 1, demo_sample 90]"] g show ?thesis by auto
qed

section \<open>The process tree\<close>

text \<open>The processes reachable from \<open>R\<close> by child edges that avoid \<open>X\<close>.\<close>

definition edge :: "process_table \<Rightarrow> (int \<times> int) set" where
  "edge t = {(p, q). q \<in> set (children_of t p)}"

definition tree :: "process_table \<Rightarrow> int set \<Rightarrow> int set" where
  "tree t R = (edge t)\<^sup>* `` R"

lemma tree_finite: "finite R \<Longrightarrow> finite (tree t R)"
proof -
  assume "finite R"
  moreover have "tree t R \<subseteq> R \<union> fst ` set t"
  proof
    fix q assume "q \<in> tree t R"
    then obtain r where r: "r \<in> R" "(r, q) \<in> (edge t)\<^sup>*" by (auto simp: tree_def)
    from r(2) show "q \<in> R \<union> fst ` set t"
      by (cases rule: rtranclE) (use r(1) in \<open>auto simp: edge_def dest: subsetD [OF children_of_table]\<close>)
  qed
  ultimately show ?thesis by (meson finite_Un finite_imageI finite_set finite_subset)
qed

text \<open>
  The traversal's invariant: \<open>seen\<close> is closed up to the stack, so what remains to be added are the
  reachable processes not seen yet.
\<close>

lemma walk_sum:
  assumes "\<And>p. p \<in> seen \<Longrightarrow> set (children_of t p) \<subseteq> seen \<union> set stack"
  shows "walk t seen stack acc = acc + sum (rss_of t) (tree t (set stack) - seen)"
  using assms
proof (induction t seen stack acc rule: walk.induct)
  case (1 t seen stack acc)
  show ?case
  proof (cases "stack = []")
    case True
    then show ?thesis by (simp add: walk.simps tree_def)
  next
    case False
    let ?p = "last stack" and ?r = "butlast stack"
    have stack: "set stack = insert ?p (set ?r)" using False by (metis append_butlast_last_id list.simps(15) rotate1.simps(2) set_rotate1)
    have closed: "q \<in> seen \<or> q \<in> tree t R" if "(p, q) \<in> (edge t)\<^sup>*" "p \<in> seen"
        "\<And>p. p \<in> seen \<Longrightarrow> set (children_of t p) \<subseteq> seen \<union> R" for p q R
      using that by (induction rule: rtrancl_induct)
        (auto simp: tree_def edge_def intro: rtrancl_into_rtrancl)
    show ?thesis
    proof (cases "?p \<in> seen")
      case True
      have "set (children_of t p) \<subseteq> seen \<union> set ?r" if "p \<in> seen" for p
        using 1(3) [OF that] stack True by auto
      moreover have "tree t (set stack) = (edge t)\<^sup>* `` {?p} \<union> tree t (set ?r)"
        unfolding tree_def stack by auto
      moreover have "(edge t)\<^sup>* `` {?p} - seen \<subseteq> tree t (set ?r)"
        using closed [OF _ True, of _ "set ?r"] calculation(1) by blast
      moreover have "tree t (set stack) - seen = tree t (set ?r) - seen" using calculation(2,3) by blast
      ultimately show ?thesis
        using 1(1) [OF False refl refl True] False True by (simp add: walk.simps [of t seen stack])
    next
      case new: False
      let ?seen = "insert ?p seen" and ?stack = "?r @ children_of t ?p"
      have cl: "set (children_of t p) \<subseteq> ?seen \<union> set ?stack" if "p \<in> ?seen" for p
        using 1(3) [of p] that stack by auto
      have "tree t (set stack) - seen = insert ?p (tree t (set ?stack) - ?seen)"
      proof
        show "tree t (set stack) - seen \<subseteq> insert ?p (tree t (set ?stack) - ?seen)"
        proof
          fix q assume q: "q \<in> tree t (set stack) - seen"
          then obtain r where r: "r \<in> insert ?p (set ?r)" "(r, q) \<in> (edge t)\<^sup>*" using stack by (auto simp: tree_def)
          show "q \<in> insert ?p (tree t (set ?stack) - ?seen)"
          proof (cases "r = ?p")
            case True
            with closed [OF r(2), of "set ?stack"] show ?thesis using q r(2)
              by (cases "q = ?p") (auto simp: tree_def edge_def elim: converse_rtranclE)
          qed (use r q in \<open>auto simp: tree_def\<close>)
        qed
        have "(?p, q) \<in> edge t" if "q \<in> set (children_of t ?p)" for q using that by (simp add: edge_def)
        then show "insert ?p (tree t (set ?stack) - ?seen) \<subseteq> tree t (set stack) - seen"
          using stack new by (auto simp: tree_def intro: converse_rtrancl_into_rtrancl)
      qed
      then have "sum (rss_of t) (tree t (set stack) - seen) = rss_of t ?p + sum (rss_of t) (tree t (set ?stack) - ?seen)"
        using tree_finite [of "set ?stack" t] by (simp add: sum.insert_remove)
      with 1(2) [OF False refl refl new cl] False new show ?thesis
        by (simp add: walk.simps [of t seen stack] Let_def)
    qed
  qed
qed

text \<open>
  the sampled memory is that of the process tree. Whatever the process table looks like (cycles,
  vanished parents, a child listed under several roots), the traversal ends and its result is the sum
  of the resident sizes of the root processes and all their descendants, each counted once.
\<close>

theorem process_tree_counted_once:
  "process_tree_rss (Some entries) pids =
     Inr (\<Sum>p \<in> tree (read_processes entries) {n. PyInt n \<in> set pids \<and> 0 < n}. rss_of (read_processes entries) p)"
proof -
  have filtered: "set (List.map_filter f xs) = {y. \<exists>x \<in> set xs. f x = Some y}" for f :: "pyval \<Rightarrow> int option" and xs
    by (induction xs) (auto simp: List.map_filter_simps split: option.splits)
  have "(case v of PyInt n \<Rightarrow> if 0 < n then Some n else None | _ \<Rightarrow> None) = Some n \<longleftrightarrow> v = PyInt n \<and> 0 < n" for v n
    by (cases v) auto
  then have roots: "set (root_set pids) = {n. PyInt n \<in> set pids \<and> 0 < n}"
    by (auto simp: root_set_def filtered)
  show ?thesis
  proof (cases "root_set pids = []")
    case True
    then have "{n. PyInt n \<in> set pids \<and> 0 < n} = {}" using roots by auto
    then have "tree (read_processes entries) {n. PyInt n \<in> set pids \<and> 0 < n} = {}" by (simp only: tree_def Image_empty2)
    with True show ?thesis by (simp only: process_tree_rss_def Let_def sum.empty) simp
  next
    case False
    with walk_sum [of "{}" "read_processes entries" "root_set pids" 0] show ?thesis
      by (simp add: process_tree_rss_def Let_def roots)
  qed
qed

end
