(* ===== verification/Lifecycle.thy ===== *)
theory Lifecycle
  imports Prelude
begin

text \<open>
  The finite work units of the scheduler: source budgets (\<open>scheduler/budgets.py\<close>), work leases with
  their state machine (\<open>scheduler/leases.py\<close>), source domains (\<open>sources/domains.py\<close>) and reservoirs
  (\<open>sources/reservoirs.py\<close>).  A dataclass has a record of the arguments its constructor receives
  (arbitrary Python values), a typed record of its fields, and an \<open>_init\<close> that is \<open>__post_init__\<close>;
  \<open>dataclasses.replace\<close> runs \<open>_init\<close> again on the fields.
\<close>

section \<open>Argument checks\<close>

fun is_text :: "pyval \<Rightarrow> bool" where
  "is_text (PyStr s) = (\<not> blank s)"
| "is_text _ = False"

fun is_optional_str :: "pyval \<Rightarrow> bool" where
  "is_optional_str PyNone = True"
| "is_optional_str (PyStr s) = True"
| "is_optional_str _ = False"

definition optionally :: "(pyval \<Rightarrow> bool) \<Rightarrow> pyval \<Rightarrow> bool" where
  "optionally P v = (v = PyNone \<or> P v)"

fun the_str_of :: "pyval \<Rightarrow> string" where
  "the_str_of (PyStr s) = s"
| "the_str_of _ = []"

definition opt_of :: "(pyval \<Rightarrow> 'a) \<Rightarrow> pyval \<Rightarrow> 'a option" where
  "opt_of f v = (if v = PyNone then None else Some (f v))"

definition opt_val :: "('a \<Rightarrow> pyval) \<Rightarrow> 'a option \<Rightarrow> pyval" where
  "opt_val f x = (case x of None \<Rightarrow> PyNone | Some a \<Rightarrow> f a)"

definition num :: "rat \<Rightarrow> pyval" where
  "num q = PyFloat (Finite q)"

lemma num_simps [simp]: "as_number (num q) = Some q" "nonneg_number (num q) \<longleftrightarrow> 0 \<le> q" "the_number_of (num q) = q"
  "num q \<noteq> PyNone"
  by (simp_all add: num_def nonneg_number_def the_number_of_def)

lemma opt_simps [simp]: "opt_val f None = PyNone" "opt_val f (Some a) = f a" "opt_of g PyNone = None"
  "optionally P PyNone"
  by (simp_all add: opt_val_def opt_of_def optionally_def)

section \<open>Source budgets\<close>

record budget_args =
  sa_max_records :: pyval
  sa_max_seconds :: pyval
  sa_records_used :: pyval
  sa_seconds_used :: pyval
  sa_max_requests :: pyval
  sa_max_bytes :: pyval
  sa_requests_used :: pyval
  sa_bytes_used :: pyval

record source_budget =
  sb_max_records :: int
  sb_max_seconds :: rat
  sb_records_used :: int
  sb_seconds_used :: rat
  sb_max_requests :: "int option"
  sb_max_bytes :: "int option"
  sb_requests_used :: int
  sb_bytes_used :: int

definition source_budget_init :: "budget_args \<Rightarrow> py_error + source_budget" where
  "source_budget_init a =
     check (list_all nonneg_int [sa_max_records a, sa_records_used a, sa_requests_used a, sa_bytes_used a]) ValueError (
     check (list_all (optionally nonneg_int) [sa_max_requests a, sa_max_bytes a]) ValueError (
     check (list_all nonneg_number [sa_max_seconds a, sa_seconds_used a]) ValueError (
     Inr \<lparr>sb_max_records = the_int_of (sa_max_records a), sb_max_seconds = the_number_of (sa_max_seconds a),
          sb_records_used = the_int_of (sa_records_used a), sb_seconds_used = the_number_of (sa_seconds_used a),
          sb_max_requests = opt_of the_int_of (sa_max_requests a), sb_max_bytes = opt_of the_int_of (sa_max_bytes a),
          sb_requests_used = the_int_of (sa_requests_used a), sb_bytes_used = the_int_of (sa_bytes_used a)\<rparr>)))"

definition budget_allows :: "source_budget \<Rightarrow> bool" where
  "budget_allows b =
     (sb_records_used b < sb_max_records b \<and> sb_seconds_used b < sb_max_seconds b \<and>
      (case sb_max_requests b of None \<Rightarrow> True | Some m \<Rightarrow> sb_requests_used b < m) \<and>
      (case sb_max_bytes b of None \<Rightarrow> True | Some m \<Rightarrow> sb_bytes_used b < m))"

section \<open>Work leases\<close>

datatype lease_state = L_CREATED | L_GRANTED | L_RUNNING | L_SUCCEEDED | L_PAUSED | L_PREEMPTED | L_ABORTED | L_EXPIRED

fun lease_state_value :: "lease_state \<Rightarrow> string" where
  "lease_state_value L_CREATED = ''CREATED''"
| "lease_state_value L_GRANTED = ''GRANTED''"
| "lease_state_value L_RUNNING = ''RUNNING''"
| "lease_state_value L_SUCCEEDED = ''SUCCEEDED''"
| "lease_state_value L_PAUSED = ''PAUSED''"
| "lease_state_value L_PREEMPTED = ''PREEMPTED''"
| "lease_state_value L_ABORTED = ''ABORTED''"
| "lease_state_value L_EXPIRED = ''EXPIRED''"

definition lease_states :: "lease_state list" where
  "lease_states = [L_CREATED, L_GRANTED, L_RUNNING, L_SUCCEEDED, L_PAUSED, L_PREEMPTED, L_ABORTED, L_EXPIRED]"

definition lease_state_of :: "pyval \<Rightarrow> lease_state option" where
  "lease_state_of v = List.find (\<lambda>st. v = PyStr (lease_state_value st)) lease_states"

lemma lease_state_of_value [simp]: "lease_state_of (PyStr (lease_state_value st)) = Some st"
  by (cases st) (simp_all add: lease_state_of_def lease_states_def)

record result_args =
  ra_lease_id :: pyval
  ra_records :: pyval
  ra_requests :: pyval
  ra_bytes_read :: pyval
  ra_elapsed_seconds :: pyval
  ra_next_cursor :: pyval

record lease_result =
  lr_lease_id :: string
  lr_records :: int
  lr_requests :: int
  lr_bytes_read :: int
  lr_elapsed_seconds :: rat
  lr_next_cursor :: "string option"

definition lease_result_init :: "result_args \<Rightarrow> py_error + lease_result" where
  "lease_result_init a =
     check (is_text (ra_lease_id a)) ValueError (
     check (list_all nonneg_int [ra_records a, ra_requests a, ra_bytes_read a]) ValueError (
     check (nonneg_number (ra_elapsed_seconds a)) ValueError (
     check (is_optional_str (ra_next_cursor a)) ValueError (
     Inr \<lparr>lr_lease_id = the_str_of (ra_lease_id a), lr_records = the_int_of (ra_records a),
          lr_requests = the_int_of (ra_requests a), lr_bytes_read = the_int_of (ra_bytes_read a),
          lr_elapsed_seconds = the_number_of (ra_elapsed_seconds a),
          lr_next_cursor = opt_of the_str_of (ra_next_cursor a)\<rparr>))))"

record lease_args =
  la_lease_id :: pyval
  la_reservoir_id :: pyval
  la_cursor_start :: pyval
  la_cursor_end :: pyval
  la_max_records :: pyval
  la_max_requests :: pyval
  la_max_bytes :: pyval
  la_max_seconds :: pyval
  la_resource_class :: pyval
  la_expected_evidence_tasks :: pyval
  la_expected_novel_eed :: pyval
  la_owner :: pyval
  la_expires_at :: pyval
  la_state :: pyval

record work_lease =
  wl_lease_id :: string
  wl_reservoir_id :: string
  wl_cursor_start :: "string option"
  wl_cursor_end :: "string option"
  wl_max_records :: int
  wl_max_requests :: int
  wl_max_bytes :: int
  wl_max_seconds :: rat
  wl_resource_class :: string
  wl_expected_evidence_tasks :: int
  wl_expected_novel_eed :: rat
  wl_owner :: "string option"
  wl_expires_at :: "rat option"
  wl_state :: lease_state

definition work_lease_init :: "lease_args \<Rightarrow> py_error + work_lease" where
  "work_lease_init a =
     (case lease_state_of (la_state a) of
        None \<Rightarrow> Inl ValueError
      | Some st \<Rightarrow>
          check (list_all is_text [la_lease_id a, la_reservoir_id a, la_resource_class a]) ValueError (
          check (list_all nonneg_int [la_max_records a, la_max_requests a, la_max_bytes a,
                   la_expected_evidence_tasks a]) ValueError (
          check (list_all nonneg_number [la_max_seconds a, la_expected_novel_eed a]) ValueError (
          check (optionally nonneg_number (la_expires_at a)) ValueError (
          check (optionally is_text (la_owner a)) ValueError (
          check (list_all is_optional_str [la_cursor_start a, la_cursor_end a]) ValueError (
          Inr \<lparr>wl_lease_id = the_str_of (la_lease_id a), wl_reservoir_id = the_str_of (la_reservoir_id a),
               wl_cursor_start = opt_of the_str_of (la_cursor_start a),
               wl_cursor_end = opt_of the_str_of (la_cursor_end a),
               wl_max_records = the_int_of (la_max_records a), wl_max_requests = the_int_of (la_max_requests a),
               wl_max_bytes = the_int_of (la_max_bytes a), wl_max_seconds = the_number_of (la_max_seconds a),
               wl_resource_class = the_str_of (la_resource_class a),
               wl_expected_evidence_tasks = the_int_of (la_expected_evidence_tasks a),
               wl_expected_novel_eed = the_number_of (la_expected_novel_eed a),
               wl_owner = opt_of the_str_of (la_owner a),
               wl_expires_at = opt_of the_number_of (la_expires_at a), wl_state = st\<rparr>)))))))"

definition lease_args_of :: "work_lease \<Rightarrow> lease_args" where
  "lease_args_of l =
     \<lparr>la_lease_id = PyStr (wl_lease_id l), la_reservoir_id = PyStr (wl_reservoir_id l),
      la_cursor_start = opt_val PyStr (wl_cursor_start l), la_cursor_end = opt_val PyStr (wl_cursor_end l),
      la_max_records = PyInt (wl_max_records l), la_max_requests = PyInt (wl_max_requests l),
      la_max_bytes = PyInt (wl_max_bytes l), la_max_seconds = num (wl_max_seconds l),
      la_resource_class = PyStr (wl_resource_class l),
      la_expected_evidence_tasks = PyInt (wl_expected_evidence_tasks l),
      la_expected_novel_eed = num (wl_expected_novel_eed l), la_owner = opt_val PyStr (wl_owner l),
      la_expires_at = opt_val num (wl_expires_at l), la_state = PyStr (lease_state_value (wl_state l))\<rparr>"

text \<open>\<open>replace\<close>: the constructor runs on the changed fields.\<close>

definition replace_lease :: "work_lease \<Rightarrow> py_error + work_lease" where
  "replace_lease l = work_lease_init (lease_args_of l)"

definition create_lease :: "string \<Rightarrow> lease_args \<Rightarrow> pyval \<Rightarrow> py_error + work_lease" where
  "create_lease uuid a now =
     check (optionally nonneg_number now) ValueError (
     (let made = (\<lambda>expires. work_lease_init
            (a\<lparr>la_lease_id := PyStr uuid, la_owner := PyNone, la_expires_at := expires,
               la_state := PyStr (lease_state_value L_CREATED)\<rparr>)) in
      if la_expires_at a = PyNone \<and> now \<noteq> PyNone
      then (case as_number (la_max_seconds a) of
              None \<Rightarrow> Inl (if la_max_seconds a = PyNone then TypeError else ValueError)
            | Some q \<Rightarrow> made (num (the_number_of now + q)))
      else if la_expires_at a \<noteq> PyNone \<and> now \<noteq> PyNone
      then check (case as_number (la_expires_at a) of None \<Rightarrow> False | Some q \<Rightarrow> the_number_of now \<le> q) ValueError
             (made (la_expires_at a))
      else made (la_expires_at a)))"

definition lease_allows :: "work_lease \<Rightarrow> int \<Rightarrow> int \<Rightarrow> int \<Rightarrow> rat \<Rightarrow> bool" where
  "lease_allows l records requests bytes_read elapsed_seconds =
     (0 \<le> records \<and> records \<le> wl_max_records l \<and> 0 \<le> requests \<and> requests \<le> wl_max_requests l \<and>
      0 \<le> bytes_read \<and> bytes_read \<le> wl_max_bytes l \<and>
      0 \<le> elapsed_seconds \<and> elapsed_seconds \<le> wl_max_seconds l)"

definition lease_allows_result :: "work_lease \<Rightarrow> lease_result \<Rightarrow> bool" where
  "lease_allows_result l r =
     (if lr_lease_id r \<noteq> wl_lease_id l then False
      else lease_allows l (lr_records r) (lr_requests r) (lr_bytes_read r) (lr_elapsed_seconds r))"

definition lease_move :: "lease_state \<Rightarrow> lease_state \<Rightarrow> (work_lease \<Rightarrow> work_lease) \<Rightarrow> work_lease \<Rightarrow> py_error + work_lease" where
  "lease_move current target change l =
     (if wl_state l \<noteq> current then Inl StateTransitionError else replace_lease (change (l\<lparr>wl_state := target\<rparr>)))"

definition lease_grant :: "pyval \<Rightarrow> work_lease \<Rightarrow> py_error + work_lease" where
  "lease_grant owner l = check (is_text owner) ValueError
     (lease_move L_CREATED L_GRANTED (wl_owner_update (\<lambda>_. Some (the_str_of owner))) l)"

definition lease_start :: "work_lease \<Rightarrow> py_error + work_lease" where
  "lease_start = lease_move L_GRANTED L_RUNNING id"

definition lease_complete :: "work_lease \<Rightarrow> py_error + work_lease" where
  "lease_complete = lease_move L_RUNNING L_SUCCEEDED id"

definition lease_pause :: "work_lease \<Rightarrow> py_error + work_lease" where
  "lease_pause = lease_move L_RUNNING L_PAUSED id"

definition lease_preempt :: "work_lease \<Rightarrow> py_error + work_lease" where
  "lease_preempt = lease_move L_RUNNING L_PREEMPTED id"

definition lease_abort :: "work_lease \<Rightarrow> py_error + work_lease" where
  "lease_abort l =
     (if wl_state l \<notin> {L_CREATED, L_GRANTED, L_RUNNING, L_PAUSED, L_PREEMPTED} then Inl StateTransitionError
      else replace_lease (l\<lparr>wl_state := L_ABORTED\<rparr>))"

definition lease_expire :: "pyval \<Rightarrow> work_lease \<Rightarrow> py_error + lease_state" where
  "lease_expire now l =
     check (nonneg_number now) ValueError (
     check (case wl_expires_at l of None \<Rightarrow> False | Some e \<Rightarrow> \<not> the_number_of now < e) StateTransitionError (
     check (wl_state l \<in> {L_GRANTED, L_RUNNING, L_PAUSED, L_PREEMPTED}) StateTransitionError (
     Inr L_EXPIRED)))"

definition lease_expired :: "pyval \<Rightarrow> work_lease \<Rightarrow> py_error + work_lease" where
  "lease_expired now l =
     (if wl_state l = L_EXPIRED then Inr l
      else bindr (lease_expire now l) (\<lambda>_. replace_lease (l\<lparr>wl_state := L_EXPIRED\<rparr>)))"

definition lease_resume :: "work_lease \<Rightarrow> py_error + work_lease" where
  "lease_resume l =
     (if wl_state l \<notin> {L_PAUSED, L_PREEMPTED} then Inl StateTransitionError
      else replace_lease (l\<lparr>wl_state := L_GRANTED\<rparr>))"

definition lease_retry :: "string \<Rightarrow> pyval \<Rightarrow> pyval \<Rightarrow> work_lease \<Rightarrow> py_error + work_lease" where
  "lease_retry uuid now expires_at l =
     check (wl_state l \<in> {L_EXPIRED, L_ABORTED, L_PREEMPTED}) StateTransitionError (
     check (nonneg_number now) ValueError (
     check (expires_at = PyNone \<or>
            (case as_number expires_at of None \<Rightarrow> False | Some q \<Rightarrow> the_number_of now \<le> q)) ValueError (
     replace_lease (l\<lparr>wl_lease_id := uuid, wl_state := L_CREATED, wl_owner := None,
       wl_expires_at := Some (if expires_at = PyNone then the_number_of now + wl_max_seconds l
                              else the_number_of expires_at)\<rparr>))))"

section \<open>Source domains and reservoirs\<close>

datatype domain_state = UNEXPLORED | EXPLORING | PRODUCTIVE | DECLINING | DORMANT | D_EXHAUSTED

fun domain_transitions :: "domain_state \<Rightarrow> domain_state list" where
  "domain_transitions UNEXPLORED = [EXPLORING]"
| "domain_transitions EXPLORING = [PRODUCTIVE, DORMANT]"
| "domain_transitions PRODUCTIVE = [DECLINING, D_EXHAUSTED]"
| "domain_transitions DECLINING = [PRODUCTIVE, DORMANT, D_EXHAUSTED]"
| "domain_transitions DORMANT = [EXPLORING, D_EXHAUSTED]"
| "domain_transitions D_EXHAUSTED = []"

record source_domain =
  sd_domain_id :: string
  sd_family :: string
  sd_discovery_mechanism :: string
  sd_temporal_scope :: "int \<times> int"
  sd_state :: domain_state

definition source_domain_init :: "source_domain \<Rightarrow> py_error + source_domain" where
  "source_domain_init d =
     check (\<not> blank (sd_domain_id d) \<and> \<not> blank (sd_family d) \<and> \<not> blank (sd_discovery_mechanism d)) ValueError (
     check (fst (sd_temporal_scope d) \<le> snd (sd_temporal_scope d)) ValueError (Inr d))"

definition domain_transition :: "domain_state \<Rightarrow> source_domain \<Rightarrow> py_error + source_domain" where
  "domain_transition st d =
     (if st \<notin> set (domain_transitions (sd_state d)) then Inl StateTransitionError
      else source_domain_init (d\<lparr>sd_state := st\<rparr>))"

datatype reservoir_state = DISCOVERED | QUALIFYING | READY | R_LEASED | R_RUNNING | R_PAUSED | R_PREEMPTED | R_ABORTED | R_EXHAUSTED

fun reservoir_transitions :: "reservoir_state \<Rightarrow> reservoir_state list" where
  "reservoir_transitions DISCOVERED = [QUALIFYING]"
| "reservoir_transitions QUALIFYING = [READY, R_ABORTED]"
| "reservoir_transitions READY = [R_LEASED, R_EXHAUSTED, R_ABORTED]"
| "reservoir_transitions R_LEASED = [R_RUNNING, R_PAUSED, R_PREEMPTED, R_ABORTED]"
| "reservoir_transitions R_RUNNING = [READY, R_PAUSED, R_PREEMPTED, R_EXHAUSTED, R_ABORTED]"
| "reservoir_transitions R_PAUSED = [R_LEASED, R_ABORTED]"
| "reservoir_transitions R_PREEMPTED = [R_LEASED, R_ABORTED]"
| "reservoir_transitions R_ABORTED = []"
| "reservoir_transitions R_EXHAUSTED = []"

record reservoir =
  rv_reservoir_id :: string
  rv_domain_id :: string
  rv_adapter_id :: string
  rv_root_locator :: string
  rv_enumeration_kind :: string
  rv_capacity_lower :: int
  rv_capacity_upper :: "int option"
  rv_evidence_mode :: string
  rv_cursor :: "string option"
  rv_state :: reservoir_state

definition reservoir_estimate_ok :: "int \<Rightarrow> int option \<Rightarrow> int \<Rightarrow> bool" where
  "reservoir_estimate_ok capacity_lower capacity_upper sampled_records =
     (0 \<le> capacity_lower \<and> 0 \<le> sampled_records \<and>
      (case capacity_upper of None \<Rightarrow> True | Some u \<Rightarrow> \<not> u < capacity_lower))"

definition reservoir_init :: "reservoir \<Rightarrow> py_error + reservoir" where
  "reservoir_init r =
     check (reservoir_estimate_ok (rv_capacity_lower r) (rv_capacity_upper r) 0) ValueError (
     check (list_all (\<lambda>s. \<not> blank s) [rv_reservoir_id r, rv_domain_id r, rv_adapter_id r, rv_root_locator r,
              rv_enumeration_kind r, rv_evidence_mode r]) ValueError (Inr r))"

definition reservoir_transition :: "reservoir_state \<Rightarrow> reservoir \<Rightarrow> py_error + reservoir" where
  "reservoir_transition st r =
     (if st \<notin> set (reservoir_transitions (rv_state r)) then Inl StateTransitionError
      else reservoir_init (r\<lparr>rv_state := st\<rparr>))"

end
