(* ===== verification/Scheduler.thy ===== *)
theory Scheduler
  imports Lifecycle Credits
begin

text \<open>
  Ranking and granting of source leases: measured yield (\<open>records/models.py\<close>), costs and candidates
  (\<open>scheduler/priority.py\<close>) and the global scheduler (\<open>scheduler/global_scheduler.py\<close>), which walks the
  ranked candidates, reserves evidence credits and makes a fresh lease.
\<close>

section \<open>Source statistics\<close>

record source_stats =
  ss_source_id :: string
  ss_attempts :: int
  ss_candidates :: int
  ss_baseline_external :: int
  ss_elapsed_seconds :: rat
  ss_saturated :: bool

definition source_stats_init :: "source_stats \<Rightarrow> py_error + source_stats" where
  "source_stats_init s =
     check (\<not> blank (ss_source_id s)) ValueError (
     check (0 \<le> ss_attempts s \<and> 0 \<le> ss_candidates s \<and> 0 \<le> ss_baseline_external s) ValueError (
     check (0 \<le> ss_elapsed_seconds s) ValueError (Inr s)))"

definition yield_per_hour :: "source_stats \<Rightarrow> rat" where
  "yield_per_hour s =
     (if ss_elapsed_seconds s = 0 then 0 else of_int (ss_baseline_external s) / (ss_elapsed_seconds s / 3600))"

record source_decision =
  de_source_id :: string
  de_priority :: rat
  de_reason :: string

definition decide :: "source_stats \<Rightarrow> source_decision" where
  "decide s = \<lparr>de_source_id = ss_source_id s,
     de_priority = (if ss_saturated s then yield_per_hour s * (1/4) else yield_per_hour s),
     de_reason = ''engineering_only_baseline_external''\<rparr>"

definition rank_sources :: "source_stats list \<Rightarrow> source_decision list" where
  "rank_sources stats = sort_key (\<lambda>d. (- de_priority d, de_source_id d)) (List.map decide stats)"

section \<open>Costs and candidates\<close>

record resource_cost =
  rk_general_network :: rat
  rk_evidence_network :: rat
  rk_cpu :: rat
  rk_ssd :: rat

definition resource_cost_init :: "resource_cost \<Rightarrow> py_error + resource_cost" where
  "resource_cost_init c =
     check (0 \<le> rk_general_network c \<and> 0 \<le> rk_evidence_network c \<and> 0 \<le> rk_cpu c \<and> 0 \<le> rk_ssd c) ValueError (Inr c)"

definition cost_values :: "resource_cost \<Rightarrow> (string \<times> rat) list" where
  "cost_values c = [(''general_network'', rk_general_network c), (''evidence_network'', rk_evidence_network c),
     (''cpu'', rk_cpu c), (''ssd'', rk_ssd c)]"

definition capacity_or_one :: "string \<Rightarrow> (string \<times> rat) list \<Rightarrow> rat" where
  "capacity_or_one name capacities = (case map_of capacities name of None \<Rightarrow> 1 | Some q \<Rightarrow> q)"

definition normalized :: "(string \<times> rat) list \<Rightarrow> resource_cost \<Rightarrow> py_error + rat" where
  "normalized capacities c =
     check (list_all (\<lambda>(name, _). 0 < capacity_or_one name capacities) (cost_values c)) ValueError
       (Inr (Max (set (List.map (\<lambda>(name, v). v / capacity_or_one name capacities) (cost_values c)))))"

record lease_candidate =
  lc_reservoir_id :: string
  lc_expected_novel_eed :: rat
  lc_costs :: resource_cost
  lc_reservoir :: "reservoir option"
  lc_lease :: "work_lease option"
  lc_evidence_mode :: string
  lc_evidence_provider :: string
  lc_expected_evidence_tasks :: int
  lc_reservation_evidence_tasks :: "int option"
  lc_source_key :: "string option"
  lc_production_value_score :: "rat option"

definition lease_candidate_init :: "lease_candidate \<Rightarrow> py_error + lease_candidate" where
  "lease_candidate_init c =
     check (\<not> blank (lc_reservoir_id c)) ValueError (
     check (0 \<le> lc_expected_novel_eed c) ValueError (
     check (0 \<le> lc_expected_evidence_tasks c) ValueError (
     check (case lc_reservation_evidence_tasks c of None \<Rightarrow> True | Some n \<Rightarrow> lc_expected_evidence_tasks c \<le> n) ValueError (
     check (\<not> blank (lc_evidence_provider c)) ValueError (
     check (case lc_source_key c of None \<Rightarrow> True | Some k \<Rightarrow> \<not> blank k) ValueError (
     check (case lc_production_value_score c of None \<Rightarrow> True | Some q \<Rightarrow> 0 \<le> q) ValueError (Inr c)))))))"

section \<open>The global scheduler\<close>

record global_scheduler =
  gs_ledger :: ledger
  gs_resource_capacities :: "(string \<times> rat) list"

definition is_direct :: "lease_candidate \<Rightarrow> bool" where
  "is_direct c =
     ((case lc_reservoir c of None \<Rightarrow> lc_evidence_mode c | Some r \<Rightarrow> rv_evidence_mode r) = ''direct_year'')"

definition score :: "(string \<times> rat) list \<Rightarrow> lease_candidate \<Rightarrow> py_error + rat" where
  "score capacities c =
     (case lc_production_value_score c of
        Some q \<Rightarrow> Inr q
      | None \<Rightarrow>
          bindr (if is_direct c then resource_cost_init (lc_costs c\<lparr>rk_evidence_network := 0\<rparr>) else Inr (lc_costs c))
            (\<lambda>costs. bindr (normalized capacities costs) (\<lambda>denominator.
               Inr (lc_expected_novel_eed c / (if denominator = 0 then 1 else denominator)))))"

text \<open>\<open>sorted\<close> evaluates the key of every candidate first; a failing score raises before any grant.\<close>

fun scores :: "(string \<times> rat) list \<Rightarrow> lease_candidate list \<Rightarrow> py_error + (rat \<times> lease_candidate) list" where
  "scores capacities [] = Inr []"
| "scores capacities (c # cs) =
     bindr (score capacities c) (\<lambda>q. bindr (scores capacities cs) (\<lambda>ps. Inr ((q, c) # ps)))"

definition rank :: "(string \<times> rat) list \<Rightarrow> lease_candidate list \<Rightarrow> py_error + lease_candidate list" where
  "rank capacities cs =
     bindr (scores capacities cs) (\<lambda>ps.
       Inr (List.map snd (sort_key (\<lambda>(q, c). (- q, lc_reservoir_id c)) ps)))"

definition fresh_lease :: "string \<Rightarrow> rat \<Rightarrow> string \<Rightarrow> lease_candidate \<Rightarrow> py_error + work_lease" where
  "fresh_lease uuid now owner c =
     (let template = lc_lease c;
          capacity = (case lc_reservoir c of None \<Rightarrow> 1 | Some r \<Rightarrow> rv_capacity_lower r);
          args = \<lparr>la_lease_id = PyNone, la_reservoir_id = PyStr (lc_reservoir_id c),
            la_cursor_start = opt_val PyStr (case template of Some t \<Rightarrow> wl_cursor_start t
               | None \<Rightarrow> (case lc_reservoir c of None \<Rightarrow> None | Some r \<Rightarrow> rv_cursor r)),
            la_cursor_end = opt_val PyStr (case template of None \<Rightarrow> None | Some t \<Rightarrow> wl_cursor_end t),
            la_max_records = PyInt (case template of None \<Rightarrow> max 1 capacity | Some t \<Rightarrow> wl_max_records t),
            la_max_requests = PyInt (case template of None \<Rightarrow> max 1 (lc_expected_evidence_tasks c)
               | Some t \<Rightarrow> wl_max_requests t),
            la_max_bytes = PyInt (case template of None \<Rightarrow> max 1 capacity | Some t \<Rightarrow> wl_max_bytes t),
            la_max_seconds = num (case template of None \<Rightarrow> 1 | Some t \<Rightarrow> wl_max_seconds t),
            la_resource_class = PyStr (case template of None \<Rightarrow> ''default'' | Some t \<Rightarrow> wl_resource_class t),
            la_expected_evidence_tasks = PyInt (lc_expected_evidence_tasks c),
            la_expected_novel_eed = num (lc_expected_novel_eed c), la_owner = PyNone,
            la_expires_at = PyNone, la_state = PyNone\<rparr>
      in bindr (create_lease uuid args (num now)) (lease_grant (PyStr owner)))"

definition tasks_of :: "lease_candidate \<Rightarrow> int" where
  "tasks_of c = (if is_direct c then 0 else lc_expected_evidence_tasks c)"

fun grant_first ::
  "string \<Rightarrow> rat \<Rightarrow> string \<Rightarrow> lease_candidate list \<Rightarrow> ledger \<Rightarrow> (py_error + work_lease option) \<times> ledger" where
  "grant_first uuid now owner [] l = (Inr None, l)"
| "grant_first uuid now owner (c # cs) l =
     (if (case lc_reservoir c of None \<Rightarrow> False | Some r \<Rightarrow> rv_state r \<noteq> READY) then grant_first uuid now owner cs l
      else if tasks_of c = 0 then
        (case fresh_lease uuid now owner c of Inl e \<Rightarrow> (Inl e, l) | Inr g \<Rightarrow> (Inr (Some g), l))
      else case reserve_evidence (lc_evidence_provider c) (PyInt (tasks_of c)) l of
             (Inl e, l') \<Rightarrow> (Inl e, l')
           | (Inr False, l') \<Rightarrow> grant_first uuid now owner cs l'
           | (Inr True, l') \<Rightarrow>
               (case fresh_lease uuid now owner c of
                  Inr g \<Rightarrow> (Inr (Some g), l')
                | Inl e \<Rightarrow> (case release_evidence (lc_evidence_provider c) (PyInt (tasks_of c)) l' of
                              Inl e' \<Rightarrow> (Inl e', l')
                            | Inr l'' \<Rightarrow> (Inl e, l''))))"

definition grant_next ::
  "string \<Rightarrow> rat \<Rightarrow> string \<Rightarrow> lease_candidate list \<Rightarrow> global_scheduler \<Rightarrow>
   (py_error + work_lease option) \<times> global_scheduler" where
  "grant_next uuid now owner cs g =
     (case rank (gs_resource_capacities g) cs of
        Inl e \<Rightarrow> (Inl e, g)
      | Inr ranked \<Rightarrow> (let (x, l) = grant_first uuid now owner ranked (gs_ledger g) in (x, g\<lparr>gs_ledger := l\<rparr>)))"

end
