(* ===== verification/Lifecycle_Properties.thy ===== *)
theory Lifecycle_Properties
  imports Lifecycle "HOL-Library.Sublist"
begin

text \<open>
  Histories of work leases and reservoirs: what a lease keeps from its creation on, that an ended
  lease identity is never active again, and the order in which a reservoir becomes runnable.
\<close>

section \<open>Leases\<close>

definition lease_ok :: "work_lease \<Rightarrow> bool" where
  "lease_ok l \<longleftrightarrow> \<not> blank (wl_lease_id l) \<and> \<not> blank (wl_reservoir_id l) \<and> \<not> blank (wl_resource_class l) \<and>
     0 \<le> wl_max_records l \<and> 0 \<le> wl_max_requests l \<and> 0 \<le> wl_max_bytes l \<and>
     0 \<le> wl_expected_evidence_tasks l \<and> 0 \<le> wl_max_seconds l \<and> 0 \<le> wl_expected_novel_eed l \<and>
     (\<forall>e. wl_expires_at l = Some e \<longrightarrow> 0 \<le> e) \<and> (\<forall>w. wl_owner l = Some w \<longrightarrow> \<not> blank w)"

lemma optional_simps [simp]:
  "opt_of the_str_of (opt_val PyStr x) = x" "opt_of the_number_of (opt_val num q) = q"
  "is_optional_str (opt_val PyStr x)"
  "optionally is_text (opt_val PyStr x) \<longleftrightarrow> (\<forall>w. x = Some w \<longrightarrow> \<not> blank w)"
  "optionally nonneg_number (opt_val num q) \<longleftrightarrow> (\<forall>e. q = Some e \<longrightarrow> 0 \<le> e)"
  by (cases x; cases q; simp add: opt_of_def optionally_def)+

lemma replace_iff: "replace_lease l = Inr l' \<longleftrightarrow> lease_ok l \<and> l' = l"
  by (auto simp: replace_lease_def work_lease_init_def lease_args_of_def lease_ok_def)

lemma init_ok: "work_lease_init a = Inr l \<Longrightarrow> lease_ok l"
  by (auto simp: work_lease_init_def lease_ok_def opt_of_def optionally_def
      elim!: is_text.elims(2) dest!: nonneg_int_the nonneg_number_the split: option.splits if_splits)

text \<open>A lease together with the identifiers drawn for it so far; a retry draws a fresh one.\<close>

inductive lease_step :: "work_lease \<times> string list \<Rightarrow> work_lease \<times> string list \<Rightarrow> bool" where
  grant: "lease_grant w l = Inr l' \<Longrightarrow> lease_step (l, ids) (l', ids)"
| start: "lease_start l = Inr l' \<Longrightarrow> lease_step (l, ids) (l', ids)"
| complete: "lease_complete l = Inr l' \<Longrightarrow> lease_step (l, ids) (l', ids)"
| pause: "lease_pause l = Inr l' \<Longrightarrow> lease_step (l, ids) (l', ids)"
| preempt: "lease_preempt l = Inr l' \<Longrightarrow> lease_step (l, ids) (l', ids)"
| abort: "lease_abort l = Inr l' \<Longrightarrow> lease_step (l, ids) (l', ids)"
| expired: "lease_expired now l = Inr l' \<Longrightarrow> lease_step (l, ids) (l', ids)"
| resume: "lease_resume l = Inr l' \<Longrightarrow> lease_step (l, ids) (l', ids)"
| retry: "lease_retry u now ex l = Inr l' \<Longrightarrow> u \<notin> set ids \<Longrightarrow> lease_step (l, ids) (l', u # ids)"

lemmas lease_op_defs = lease_grant_def lease_start_def lease_complete_def lease_pause_def lease_preempt_def
  lease_move_def lease_abort_def lease_expired_def lease_expire_def lease_resume_def lease_retry_def

definition active_states :: "lease_state set" where
  "active_states = {L_GRANTED, L_RUNNING, L_PAUSED, L_PREEMPTED}"

definition lease_limits :: "work_lease \<Rightarrow> (int \<times> int \<times> int \<times> rat) \<times> string \<times> string option \<times> string option" where
  "lease_limits l = ((wl_max_records l, wl_max_requests l, wl_max_bytes l, wl_max_seconds l),
     wl_reservoir_id l, wl_cursor_start l, wl_cursor_end l)"

definition lease_inv :: "work_lease \<times> string list \<Rightarrow> bool" where
  "lease_inv c \<longleftrightarrow> (case c of (l, ids) \<Rightarrow> lease_ok l \<and> wl_lease_id l \<in> set ids \<and>
     (wl_state l \<in> insert L_SUCCEEDED active_states \<longrightarrow> wl_owner l \<noteq> None))"

lemma create_inv: "create_lease u a now = Inr l \<Longrightarrow> lease_inv (l, [u]) \<and> wl_state l = L_CREATED"
proof -
  have made: "lease_inv (l, [u]) \<and> wl_state l = L_CREATED"
    if "work_lease_init b = Inr l" "la_lease_id b = PyStr u" "la_owner b = PyNone"
      "la_state b = PyStr (lease_state_value L_CREATED)" for b :: lease_args
    using init_ok [OF that(1)] that
    by (auto simp: lease_inv_def work_lease_init_def active_states_def simp del: lease_state_value.simps)
  show "create_lease u a now = Inr l \<Longrightarrow> lease_inv (l, [u]) \<and> wl_state l = L_CREATED"
    unfolding create_lease_def Let_def
    by (auto split: if_splits option.splits dest: made simp del: lease_state_value.simps)
qed

definition state_moves :: "(lease_state \<times> lease_state) set" where
  "state_moves = {(L_GRANTED, L_RUNNING), (L_RUNNING, L_SUCCEEDED), (L_RUNNING, L_PAUSED), (L_RUNNING, L_PREEMPTED),
     (L_PAUSED, L_GRANTED), (L_PREEMPTED, L_GRANTED)} \<union>
     {(st, L_ABORTED) | st. st \<in> insert L_CREATED active_states} \<union> {(st, L_EXPIRED) | st. st \<in> active_states}"

lemma lease_step_cases:
  assumes "lease_step (l, ids) (l', ids')"
  obtains (same) "l' = l" "ids' = ids"
  | (granted) w where "wl_state l = L_CREATED" "l' = l\<lparr>wl_state := L_GRANTED, wl_owner := Some w\<rparr>" "lease_ok l'" "ids' = ids"
  | (moved) st where "(wl_state l, st) \<in> state_moves" "l' = l\<lparr>wl_state := st\<rparr>" "lease_ok l'" "ids' = ids"
  | (retried) u e where "wl_state l \<in> {L_EXPIRED, L_ABORTED, L_PREEMPTED}"
      "l' = l\<lparr>wl_lease_id := u, wl_state := L_CREATED, wl_owner := None, wl_expires_at := e\<rparr>"
      "lease_ok l'" "u \<notin> set ids" "ids' = u # ids"
  using assms
proof (cases rule: lease_step.cases)
  case (grant w)
  then show thesis by (intro granted [of "the_str_of w"]) (auto simp: lease_op_defs replace_iff split: if_splits)
next
  case start
  then show thesis by (intro moved [of L_RUNNING]) (auto simp: lease_op_defs replace_iff state_moves_def split: if_splits)
next
  case complete
  then show thesis by (intro moved [of L_SUCCEEDED]) (auto simp: lease_op_defs replace_iff state_moves_def split: if_splits)
next
  case pause
  then show thesis by (intro moved [of L_PAUSED]) (auto simp: lease_op_defs replace_iff state_moves_def split: if_splits)
next
  case preempt
  then show thesis by (intro moved [of L_PREEMPTED]) (auto simp: lease_op_defs replace_iff state_moves_def split: if_splits)
next
  case abort
  then show thesis
    by (intro moved [of L_ABORTED]) (auto simp: lease_op_defs replace_iff state_moves_def active_states_def split: if_splits)
next
  case (expired now)
  show thesis
  proof (cases "wl_state l = L_EXPIRED")
    case True
    with expired show thesis by (intro same) (simp_all add: lease_expired_def)
  next
    case False
    with expired show thesis
      by (intro moved [of L_EXPIRED]) (auto simp: lease_op_defs replace_iff state_moves_def active_states_def split: if_splits)
  qed
next
  case resume
  then show thesis by (intro moved [of L_GRANTED]) (auto simp: lease_op_defs replace_iff state_moves_def split: if_splits)
next
  case (retry u now ex)
  then show thesis by (intro retried) (auto simp: lease_retry_def replace_iff)
qed

lemma lease_step_effect:
  assumes "lease_step (l, ids) (l', ids')"
  shows "lease_ok l' \<or> l' = l" "lease_limits l' = lease_limits l"
    "(wl_lease_id l' = wl_lease_id l \<and> ids' = ids) \<or> (wl_lease_id l' \<notin> set ids \<and> ids' = wl_lease_id l' # ids)"
  using assms by (cases rule: lease_step_cases; simp add: lease_limits_def)+

lemma lease_step_owner:
  assumes "lease_step (l, ids) (l', ids')" "wl_state l \<in> insert L_SUCCEEDED active_states \<longrightarrow> wl_owner l \<noteq> None"
  shows "wl_state l' \<in> insert L_SUCCEEDED active_states \<longrightarrow> wl_owner l' \<noteq> None"
  using assms by (cases rule: lease_step_cases) (auto simp: state_moves_def active_states_def)

lemma lease_step_inv: "lease_inv c \<Longrightarrow> lease_step c c' \<Longrightarrow> lease_inv c'"
  using lease_step_effect [of "fst c" "snd c" "fst c'" "snd c'"] lease_step_owner [of "fst c" "snd c" "fst c'" "snd c'"]
  by (cases c; cases c') (auto simp: lease_inv_def)

interpretation lease: machine "\<lambda>c. \<exists>u a now l. create_lease u a now = Inr l \<and> c = (l, [u])" lease_step lease_inv
  by unfold_locales (use create_inv lease_step_inv in blast)+

text \<open>
  a lease keeps its limits. Whatever happens to a lease after its creation (grants, pauses,
  expiry, retries under new identifiers), its record, request, byte and time limits, its reservoir and
  its cursor range are those it was created with, and while it is granted, running, paused, preempted
  or succeeded it has an owner.
\<close>

theorem lease_limits_fixed:
  assumes made: "create_lease u a now = Inr l0" and run: "lease_step\<^sup>*\<^sup>* (l0, [u]) (l, ids)"
  shows "lease_limits l = lease_limits l0 \<and>
     (wl_state l \<in> insert L_SUCCEEDED active_states \<longrightarrow> wl_owner l \<noteq> None)"
proof
  have start: "lease_inv (l0, [u])" using create_inv [OF made] by simp
  have "lease_limits (fst (l, ids)) = lease_limits l0"
    by (rule lease.preserved_along [OF run start]) (auto dest: lease_step_effect(2))
  then show "lease_limits l = lease_limits l0" by simp
  show "wl_state l \<in> insert L_SUCCEEDED active_states \<longrightarrow> wl_owner l \<noteq> None"
    using lease.inv_steps [OF run start] by (simp add: lease_inv_def)
qed

definition demo_lease_args :: lease_args where
  "demo_lease_args = \<lparr>la_lease_id = PyNone, la_reservoir_id = PyStr ''r'', la_cursor_start = PyNone,
     la_cursor_end = PyNone, la_max_records = PyInt 5, la_max_requests = PyInt 3, la_max_bytes = PyInt 100,
     la_max_seconds = PyInt 60, la_resource_class = PyStr ''d'', la_expected_evidence_tasks = PyInt 0,
     la_expected_novel_eed = PyInt 0, la_owner = PyNone, la_expires_at = PyNone, la_state = PyNone\<rparr>"

definition demo_lease :: work_lease where
  "demo_lease = \<lparr>wl_lease_id = ''u'', wl_reservoir_id = ''r'', wl_cursor_start = None, wl_cursor_end = None,
     wl_max_records = 5, wl_max_requests = 3, wl_max_bytes = 100, wl_max_seconds = 60,
     wl_resource_class = ''d'', wl_expected_evidence_tasks = 0, wl_expected_novel_eed = 0,
     wl_owner = None, wl_expires_at = Some 70, wl_state = L_CREATED\<rparr>"

lemma lease_words: "\<not> blank ''u''" "\<not> blank ''r''" "\<not> blank ''d''" "\<not> blank ''w''" "\<not> blank ''v''"
  by (simp_all add: blank_iff py_space_def Let_def)

lemma demo_created: "create_lease ''u'' demo_lease_args (PyInt 10) = Inr demo_lease"
  using lease_state_of_value [of L_CREATED]
  by (simp add: create_lease_def demo_lease_args_def demo_lease_def work_lease_init_def lease_words
      nonneg_number_def the_number_of_def optionally_def opt_of_def num_def)

lemma demo_lease_ok: "lease_ok (demo_lease\<lparr>wl_state := st, wl_owner := Some ''w''\<rparr>)"
    "lease_ok (demo_lease\<lparr>wl_owner := Some ''w'', wl_state := st\<rparr>)"
    "lease_ok (demo_lease\<lparr>wl_state := st\<rparr>)"
  by (simp_all add: lease_ok_def demo_lease_def lease_words)

theorem lease_limits_fixed_witness:
  "\<exists>l. lease_step\<^sup>*\<^sup>* (demo_lease, [''u'']) (l, [''u'']) \<and> wl_state l = L_RUNNING \<and> wl_owner l \<noteq> None"
proof -
  let ?g = "demo_lease\<lparr>wl_state := L_GRANTED, wl_owner := Some ''w''\<rparr>"
  let ?r = "demo_lease\<lparr>wl_state := L_RUNNING, wl_owner := Some ''w''\<rparr>"
  have s1: "lease_step (demo_lease, [''u'']) (?g, [''u''])"
    by (rule lease_step.grant [where w = "PyStr ''w''"])
       (simp add: lease_grant_def lease_move_def replace_iff demo_lease_ok lease_words, simp add: demo_lease_def)
  have s2: "lease_step (?g, [''u'']) (?r, [''u''])"
    by (rule lease_step.start) (simp add: lease_start_def lease_move_def replace_iff demo_lease_ok)
  have run: "lease_step\<^sup>*\<^sup>* (demo_lease, [''u'']) (?r, [''u''])" using s1 s2 by simp
  from lease_limits_fixed [OF demo_created run] run show ?thesis by (intro exI [of _ ?r]) simp
qed

text \<open>
  an ended lease identity is never active again. Once a lease succeeded, was aborted or
  expired, every later version under the same identifier is that very lease: work resumes only by a
  retry, which carries a fresh identifier.
\<close>

theorem ended_lease_is_final:
  assumes inv: "lease_inv (l0, ids0)" and ended: "wl_state l0 \<in> {L_SUCCEEDED, L_ABORTED, L_EXPIRED}"
    and run: "lease_step\<^sup>*\<^sup>* (l0, ids0) (l, ids)" and same: "wl_lease_id l = wl_lease_id l0"
  shows "l = l0"
proof -
  let ?P = "\<lambda>(l, ids). wl_lease_id l0 \<in> set ids \<and> (wl_lease_id l = wl_lease_id l0 \<longrightarrow> l = l0)"
  have stuck: "l' = l0 \<or> wl_lease_id l' \<notin> set ids" if "lease_step (l0, ids) (l', ids')" for l' ids ids'
    using that ended by (cases rule: lease_step_cases) (auto simp: state_moves_def active_states_def)
  have "?P (l, ids)"
  proof (rule lease.preserved_along [OF run inv, where P = ?P])
    show "?P (l0, ids0)" using inv by (simp add: lease_inv_def)
    fix c c' assume "lease_inv c" and P: "?P c" and st: "lease_step c c'"
    obtain m ids m' ids' where c: "c = (m, ids)" "c' = (m', ids')" by (cases c; cases c')
    show "?P c'"
    proof (cases "m = l0")
      case True
      with P st stuck [of ids m' ids'] lease_step_effect(3) [of m ids m' ids'] show ?thesis by (auto simp: c)
    next
      case False
      with P st lease_step_effect(3) [of m ids m' ids'] show ?thesis by (auto simp: c)
    qed
  qed
  with same show ?thesis by simp
qed

theorem ended_lease_is_final_witness:
  "\<exists>l ids. lease_step\<^sup>*\<^sup>* (demo_lease\<lparr>wl_state := L_ABORTED\<rparr>, [''u'']) (l, ids) \<and>
     wl_state l = L_CREATED \<and> wl_lease_id l \<noteq> ''u''"
proof -
  let ?a = "demo_lease\<lparr>wl_state := L_ABORTED\<rparr>"
  let ?b = "demo_lease\<lparr>wl_lease_id := ''v'', wl_expires_at := Some 80\<rparr>"
  have "lease_ok ?b" by (simp add: lease_ok_def demo_lease_def lease_words)
  then have "lease_step (?a, [''u'']) (?b, [''v'', ''u''])"
    by (intro lease_step.retry [where now = "PyInt 20" and ex = PyNone])
       (simp_all add: lease_retry_def replace_iff nonneg_number_def the_number_of_def demo_lease_def)
  then have run: "lease_step\<^sup>*\<^sup>* (?a, [''u'']) (?b, [''v'', ''u''])" by simp
  have "lease_inv (?a, [''u''])"
    using demo_lease_ok(3) by (simp add: lease_inv_def active_states_def) (simp add: demo_lease_def)
  from ended_lease_is_final [OF this _ run] run show ?thesis
    by (intro exI [of _ ?b] exI [of _ "[''v'', ''u'']"]) (auto simp: demo_lease_def)
qed

section \<open>Reservoirs\<close>

text \<open>The versions of one reservoir from its discovery on, latest first.\<close>

inductive reservoir_run :: "reservoir list \<Rightarrow> bool" where
  found: "reservoir_init r = Inr r \<Longrightarrow> rv_state r = DISCOVERED \<Longrightarrow> reservoir_run [r]"
| moved: "reservoir_run (r # rs) \<Longrightarrow> reservoir_transition st r = Inr r' \<Longrightarrow> reservoir_run (r' # r # rs)"

fun required_path :: "reservoir_state \<Rightarrow> reservoir_state list" where
  "required_path DISCOVERED = [DISCOVERED]"
| "required_path QUALIFYING = [DISCOVERED, QUALIFYING]"
| "required_path READY = [DISCOVERED, QUALIFYING, READY]"
| "required_path R_LEASED = [DISCOVERED, QUALIFYING, READY, R_LEASED]"
| "required_path R_RUNNING = [DISCOVERED, QUALIFYING, READY, R_LEASED, R_RUNNING]"
| "required_path R_PAUSED = [DISCOVERED, QUALIFYING, READY, R_LEASED, R_PAUSED]"
| "required_path R_PREEMPTED = [DISCOVERED, QUALIFYING, READY, R_LEASED, R_PREEMPTED]"
| "required_path R_ABORTED = [DISCOVERED, QUALIFYING, R_ABORTED]"
| "required_path R_EXHAUSTED = [DISCOVERED, QUALIFYING, READY, R_EXHAUSTED]"

lemma required_step:
  assumes "subseq (required_path st) ss" "st' \<in> set (reservoir_transitions st)"
  shows "subseq (required_path st') (ss @ [st'])"
proof -
  have "required_path st' = butlast (required_path st') @ [st']" by (cases st') simp_all
  moreover have "subseq (butlast (required_path st')) (required_path st)"
    using assms(2) by (cases st) auto
  ultimately show ?thesis
    using assms(1) by (metis list_emb_append_mono subseq_order.order_refl subseq_order.order_trans)
qed

text \<open>
  no reservoir runs unqualified. In every history of a reservoir, the states passed through
  before it was running include, in this order, discovery, qualification, readiness and a lease (and
  likewise for every other state), its capacity estimate stays consistent and its identity, locator
  and capacity never change.
\<close>

theorem reservoir_run_qualified:
  assumes "reservoir_run (r # rs)"
  shows "subseq (required_path (rv_state r)) (List.map rv_state (rev (r # rs))) \<and>
     (\<forall>r' \<in> set rs. r'\<lparr>rv_state := rv_state r\<rparr> = r) \<and>
     reservoir_estimate_ok (rv_capacity_lower r) (rv_capacity_upper r) 0"
  using assms
proof (induction "r # rs" arbitrary: r rs rule: reservoir_run.induct)
  case (found r)
  then show ?case by (auto simp: reservoir_init_def)
next
  case (moved r rs st r')
  have st: "st \<in> set (reservoir_transitions (rv_state r))" and r': "r' = r\<lparr>rv_state := st\<rparr>"
    using moved(3) by (auto simp: reservoir_transition_def reservoir_init_def split: if_splits)
  have "subseq (required_path st) (List.map rv_state (rev (r # rs)) @ [st])"
    using moved(2) st required_step by blast
  moreover have "q\<lparr>rv_state := st\<rparr> = r'" if "q \<in> set rs" for q
  proof -
    have "q\<lparr>rv_state := rv_state r\<rparr> = r" using moved(2) that by blast
    then have "q\<lparr>rv_state := rv_state r\<rparr>\<lparr>rv_state := st\<rparr> = r'" using r' by simp
    then show ?thesis by simp
  qed
  ultimately show ?case using moved(2) r' by auto
qed

theorem reservoir_run_qualified_witness:
  "\<exists>r rs. reservoir_run (r # rs) \<and> rv_state r = QUALIFYING \<and>
     subseq [DISCOVERED, QUALIFYING] (List.map rv_state (rev (r # rs)))"
proof -
  let ?r = "\<lparr>rv_reservoir_id = ''r'', rv_domain_id = ''d'', rv_adapter_id = ''u'', rv_root_locator = ''v'',
    rv_enumeration_kind = ''w'', rv_capacity_lower = 1, rv_capacity_upper = Some 2, rv_evidence_mode = ''d'',
    rv_cursor = None, rv_state = DISCOVERED\<rparr>"
  have ok: "reservoir_init (?r\<lparr>rv_state := st\<rparr>) = Inr (?r\<lparr>rv_state := st\<rparr>)" for st
    by (simp add: reservoir_init_def reservoir_estimate_ok_def lease_words)
  have "reservoir_run [?r]" using ok [of DISCOVERED] by (intro reservoir_run.found) simp_all
  then have "reservoir_run [?r\<lparr>rv_state := QUALIFYING\<rparr>, ?r]"
    using ok [of QUALIFYING] by (intro reservoir_run.moved [where st = QUALIFYING]) (simp_all add: reservoir_transition_def)
  from reservoir_run_qualified [OF this] this show ?thesis
    by (intro exI [of _ "?r\<lparr>rv_state := QUALIFYING\<rparr>"] exI [of _ "[?r]"]) simp
qed

end
