(* ===== verification/Scheduler_Properties.thy ===== *)
theory Scheduler_Properties
  imports Scheduler Lifecycle_Properties "HOL-Library.Multiset"
begin

text \<open>
  What a scheduling round promises: the granted lease is the best candidate that is ready and can be
  paid for, and credits are only spent when a lease is granted.
\<close>

section \<open>Ranking\<close>

definition rank_key :: "(string \<times> rat) list \<Rightarrow> lease_candidate \<Rightarrow> rat \<times> string" where
  "rank_key caps c = (case score caps c of Inl _ \<Rightarrow> (0, []) | Inr q \<Rightarrow> (- q, lc_reservoir_id c))"

lemma scores_Inr:
  "scores caps cs = Inr ps \<Longrightarrow> ps = List.map (\<lambda>c. (- fst (rank_key caps c), c)) cs \<and>
     (\<forall>c \<in> set cs. rank_key caps c = (fst (rank_key caps c), lc_reservoir_id c))"
  by (induction cs arbitrary: ps) (auto simp: rank_key_def)

lemma insort_map:
  "List.map h (insort_key f x xs) = insort_key g (h x) (List.map h xs)" if "\<forall>y \<in> insert x (set xs). f y = g (h y)"
  using that by (induction xs) auto

lemma sort_map: "List.map h (sort_key f xs) = sort_key g (List.map h xs)" if "\<forall>y \<in> set xs. f y = g (h y)"
  using that
proof (induction xs)
  case (Cons x xs)
  then show ?case by (simp add: insort_map [of x "sort_key f xs" f g h])
qed simp

lemma rank_sorts:
  assumes "rank caps cs = Inr ranked"
  shows "ranked = sort_key (rank_key caps) cs"
proof -
  obtain ps where ps: "scores caps cs = Inr ps" "ranked = List.map snd (sort_key (\<lambda>(q, c). (- q, lc_reservoir_id c)) ps)"
    using assms by (auto simp: rank_def)
  note s = scores_Inr [OF ps(1)]
  have "List.map snd (sort_key (\<lambda>(q, c). (- q, lc_reservoir_id c)) ps) = sort_key (rank_key caps) (List.map snd ps)"
    by (rule sort_map) (use s in auto)
  moreover have "List.map snd ps = cs" using s by (simp add: o_def)
  ultimately show ?thesis using ps(2) by simp
qed

section \<open>Granting\<close>

lemma fresh_lease_fields:
  assumes "fresh_lease u now ow c = Inr w"
  shows "wl_lease_id w = u" "wl_reservoir_id w = lc_reservoir_id c" "wl_owner w = Some ow" "wl_state w = L_GRANTED"
    "wl_expires_at w = Some (now + wl_max_seconds w)"
  using assms
  by (auto simp: fresh_lease_def Let_def lease_grant_def lease_move_def replace_iff create_lease_def
      work_lease_init_def opt_of_def split: if_splits option.splits)

definition ready :: "lease_candidate \<Rightarrow> bool" where
  "ready c \<longleftrightarrow> (case lc_reservoir c of None \<Rightarrow> True | Some r \<Rightarrow> rv_state r = READY)"

definition unaffordable :: "ledger \<Rightarrow> lease_candidate \<Rightarrow> bool" where
  "unaffordable l c \<longleftrightarrow> tasks_of c \<noteq> 0 \<and>
     (\<exists>a. map_of l (lc_evidence_provider c) = Some a \<and> available a < tasks_of c)"

definition charged :: "lease_candidate \<Rightarrow> ledger \<Rightarrow> ledger" where
  "charged c l = (if tasks_of c = 0 then l else
     case map_of l (lc_evidence_provider c) of None \<Rightarrow> l
     | Some a \<Rightarrow> AList.update (lc_evidence_provider c) (a\<lparr>ac_reserved := ac_reserved a + tasks_of c\<rparr>) l)"

lemma reserve_cases:
  "reserve_evidence p (PyInt n) l = (Inr False, l') \<Longrightarrow> l' = l \<and> (\<exists>a. map_of l p = Some a \<and> available a < n)"
  "reserve_evidence p (PyInt n) l = (Inl e, l') \<Longrightarrow> l' = l"
  "reserve_evidence p (PyInt n) l = (Inr True, l') \<Longrightarrow> 0 \<le> n \<and> (\<exists>a. map_of l p = Some a \<and> n \<le> available a \<and>
     l' = AList.update p (a\<lparr>ac_reserved := ac_reserved a + n\<rparr>) l)"
  by (auto simp: reserve_evidence_def balance_def split: option.splits if_splits)

lemma grant_first_Some:
  assumes "grant_first u now ow cs l = (Inr (Some w), l')"
  shows "\<exists>pre c post. cs = pre @ c # post \<and> (\<forall>d \<in> set pre. \<not> ready d \<or> unaffordable l d) \<and> ready c \<and>
     \<not> unaffordable l c \<and> fresh_lease u now ow c = Inr w \<and> l' = charged c l"
  using assms
proof (induction cs)
  case (Cons c cs)
  let ?r = "reserve_evidence (lc_evidence_provider c) (PyInt (tasks_of c)) l"
  have step: ?case if a1: "\<not> ready c \<or> unaffordable l c" and a2: "grant_first u now ow cs l = (Inr (Some w), l')"
  proof -
    obtain pre d post where "cs = pre @ d # post" "\<forall>d \<in> set pre. \<not> ready d \<or> unaffordable l d" "ready d"
        "\<not> unaffordable l d" "fresh_lease u now ow d = Inr w" "l' = charged d l"
      using Cons.IH [OF a2] by blast
    with a1 show ?thesis by (intro exI [of _ "c # pre"] exI [of _ d] exI [of _ post]) simp
  qed
  show ?case
  proof (cases "ready c")
    case False
    with Cons.prems have "grant_first u now ow cs l = (Inr (Some w), l')"
      by (auto simp: ready_def split: option.splits if_splits)
    with step False show ?thesis by blast
  next
    case True
    then have r: "\<not> (case lc_reservoir c of None \<Rightarrow> False | Some r \<Rightarrow> rv_state r \<noteq> READY)"
      by (auto simp: ready_def split: option.splits)
    show ?thesis
    proof (cases "tasks_of c = 0")
      case zero: True
      with r Cons.prems have "fresh_lease u now ow c = Inr w" "l' = l" by (auto split: sum.splits)
      with zero True show ?thesis
        by (intro exI [of _ "[]"] exI [of _ c] exI [of _ cs]) (auto simp: charged_def unaffordable_def)
    next
      case False
      obtain x l1 where res: "?r = (x, l1)" by fastforce
      show ?thesis
      proof (cases x)
        case (Inl e)
        with False r Cons.prems res show ?thesis by simp
      next
        case (Inr b)
        show ?thesis
        proof (cases b)
          case True
          with Inr res have "?r = (Inr True, l1)" by simp
          from reserve_cases(3) [OF this] obtain a where a: "map_of l (lc_evidence_provider c) = Some a"
              "tasks_of c \<le> available a"
              "l1 = AList.update (lc_evidence_provider c) (a\<lparr>ac_reserved := ac_reserved a + tasks_of c\<rparr>) l" by blast
          have "fresh_lease u now ow c = Inr w" "l' = l1"
            using True Inr False r Cons.prems res by (auto split: sum.splits)
          with a False \<open>ready c\<close> show ?thesis
            by (intro exI [of _ "[]"] exI [of _ c] exI [of _ cs]) (auto simp: charged_def unaffordable_def)
        next
          case no: False
          with Inr res have "?r = (Inr False, l1)" by simp
          with reserve_cases(1) [OF this] False have "unaffordable l c" "l1 = l" by (auto simp: unaffordable_def)
          moreover from this have "grant_first u now ow cs l = (Inr (Some w), l')"
            using no Inr False r Cons.prems res by simp
          ultimately show ?thesis using step by blast
        qed
      qed
    qed
  qed
qed simp

lemma grant_first_none:
  "grant_first u now ow cs l = (x, l') \<Longrightarrow> (\<forall>w. x \<noteq> Inr (Some w)) \<Longrightarrow> ledger_ok l \<Longrightarrow> map_of l' = map_of l"
proof (induction cs)
  case (Cons c cs)
  let ?p = "lc_evidence_provider c" and ?n = "tasks_of c"
  obtain y l1 where res: "reserve_evidence ?p (PyInt ?n) l = (y, l1)" by fastforce
  consider "grant_first u now ow cs l = (x, l')" | "l' = l"
    | e where "fresh_lease u now ow c = Inl e" "y = Inr True" "?n \<noteq> 0"
        "(case release_evidence ?p (PyInt ?n) l1 of Inl e' \<Rightarrow> (Inl e', l1) | Inr l2 \<Rightarrow> (Inl e, l2)) = (x, l')"
    using Cons.prems(1,2) res reserve_cases(1,2) [of ?p ?n l]
    by (auto split: if_splits sum.splits bool.splits)
  then show ?case
  proof cases
    case 3
    from reserve_cases(3) [of ?p ?n l l1] res 3(2) obtain a where a: "0 \<le> ?n" "map_of l ?p = Some a"
        "l1 = AList.update ?p (a\<lparr>ac_reserved := ac_reserved a + ?n\<rparr>) l" by auto
    have "0 \<le> ac_reserved a" using Cons.prems(3) a(2) by (auto simp: ledger_ok_def account_ok_def)
    then have "release_evidence ?p (PyInt ?n) l1 =
        Inr (AList.update ?p (a\<lparr>ac_reserved := ac_reserved a + ?n - ?n\<rparr>) l1)"
      using a by (simp add: release_evidence_def on_account_def balance_def update_conv')
    with 3(4) a have "l' = AList.update ?p a l1" by simp
    then show ?thesis using a by (auto simp: update_conv')
  qed (use Cons in auto)
qed simp

text \<open>
  C7: the best affordable candidate wins. When the global scheduler grants a lease, it is a fresh
  granted lease on the reservoir of a ready candidate, the ledger is charged exactly that candidate's
  evidence tasks (nothing for direct production), and every candidate that ranks strictly better
  (higher value per normalized cost, then smaller reservoir identifier) was not ready or asked for more
  evidence than its provider had available.
\<close>

theorem grant_takes_best:
  assumes "grant_next u now ow cs g = (Inr (Some w), g')"
  shows "\<exists>c \<in> set cs. ready c \<and> \<not> unaffordable (gs_ledger g) c \<and> wl_reservoir_id w = lc_reservoir_id c \<and>
     wl_lease_id w = u \<and> wl_state w = L_GRANTED \<and> wl_owner w = Some ow \<and>
     gs_ledger g' = charged c (gs_ledger g) \<and>
     (\<forall>d \<in> set cs. rank_key (gs_resource_capacities g) d < rank_key (gs_resource_capacities g) c \<longrightarrow>
        \<not> ready d \<or> unaffordable (gs_ledger g) d)"
proof -
  let ?k = "rank_key (gs_resource_capacities g)"
  obtain ranked l where r: "rank (gs_resource_capacities g) cs = Inr ranked"
      "grant_first u now ow ranked (gs_ledger g) = (Inr (Some w), l)" "g' = g\<lparr>gs_ledger := l\<rparr>"
    using assms by (auto simp: grant_next_def split: sum.splits prod.splits)
  obtain pre c post where c: "ranked = pre @ c # post" "\<forall>d \<in> set pre. \<not> ready d \<or> unaffordable (gs_ledger g) d"
      "ready c" "\<not> unaffordable (gs_ledger g) c" "fresh_lease u now ow c = Inr w" "l = charged c (gs_ledger g)"
    using grant_first_Some [OF r(2)] by blast
  have "sorted (List.map ?k ranked)" and set: "set ranked = set cs" unfolding rank_sorts [OF r(1)] by simp_all
  then have "\<forall>d \<in> set post. ?k c \<le> ?k d" using c(1) by (simp add: sorted_append)
  then have "\<not> ready d \<or> unaffordable (gs_ledger g) d" if "d \<in> set cs" "?k d < ?k c" for d
  proof -
    have "d \<in> set pre \<union> {c} \<union> set post" using that(1) c(1) set by auto
    moreover have "d \<notin> set post" using \<open>\<forall>d \<in> set post. ?k c \<le> ?k d\<close> that(2) leD by blast
    moreover have "d \<noteq> c" using that(2) by blast
    ultimately show ?thesis using c(2) by blast
  qed
  moreover have "c \<in> set cs" using set c(1) by auto
  ultimately show ?thesis using c r(3) fresh_lease_fields [OF c(5)] by auto
qed

definition demo_candidate :: "string \<Rightarrow> int \<Rightarrow> rat \<Rightarrow> lease_candidate" where
  "demo_candidate i n q = \<lparr>lc_reservoir_id = i, lc_expected_novel_eed = 1,
     lc_costs = \<lparr>rk_general_network = 1, rk_evidence_network = 1, rk_cpu = 1, rk_ssd = 1\<rparr>,
     lc_reservoir = None, lc_lease = None, lc_evidence_mode = ''discovery_only'', lc_evidence_provider = ''w'',
     lc_expected_evidence_tasks = n, lc_reservation_evidence_tasks = None, lc_source_key = None,
     lc_production_value_score = Some q\<rparr>"

definition demo_scheduler :: global_scheduler where
  "demo_scheduler = \<lparr>gs_ledger = [(''w'', \<lparr>ac_capacity = 2, ac_queued = 0, ac_claimed = 0, ac_reserved = 0\<rparr>)],
     gs_resource_capacities = []\<rparr>"

lemma word_default: "\<not> blank ''default''"
  by (simp add: blank_iff py_space_def Let_def)

theorem grant_takes_best_witness:
  "\<exists>w g'. grant_next ''u'' 10 ''w'' [demo_candidate ''r'' 2 1, demo_candidate ''d'' 5 3] demo_scheduler = (Inr (Some w), g') \<and>
     wl_reservoir_id w = ''r'' \<and> gs_ledger g' = charged (demo_candidate ''r'' 2 1) (gs_ledger demo_scheduler)"
proof -
  have "\<exists>w g'. grant_next ''u'' 10 ''w'' [demo_candidate ''r'' 2 1, demo_candidate ''d'' 5 3] demo_scheduler = (Inr (Some w), g') \<and>
     wl_reservoir_id w = ''r''"
    using lease_state_of_value [of L_CREATED] lease_state_of_value [of L_GRANTED]
    by (simp add: grant_next_def rank_def score_def demo_candidate_def demo_scheduler_def tasks_of_def is_direct_def
        reserve_evidence_def balance_def available_def fresh_lease_def create_lease_def work_lease_init_def lease_grant_def
        lease_move_def replace_lease_def lease_args_of_def optionally_def opt_of_def word_default lease_words Let_def)
  then obtain w g' where g: "grant_next ''u'' 10 ''w'' [demo_candidate ''r'' 2 1, demo_candidate ''d'' 5 3] demo_scheduler = (Inr (Some w), g')"
      "wl_reservoir_id w = ''r''" by blast
  from grant_takes_best [OF g(1)] g show ?thesis by (auto simp: demo_candidate_def)
qed

text \<open>
  C8: credits are spent only on granted leases. A round that grants nothing, or that fails (an
  unknown provider, an invalid lease template, a bad capacity), leaves every provider's account as it
  was.
\<close>

theorem failed_round_keeps_credits:
  assumes "ledger_ok (gs_ledger g)" and "grant_next u now ow cs g = (x, g')" and "\<forall>w. x \<noteq> Inr (Some w)"
  shows "map_of (gs_ledger g') = map_of (gs_ledger g)"
  using assms by (auto simp: grant_next_def split: sum.splits prod.splits dest: grant_first_none)

theorem failed_round_keeps_credits_witness:
  "map_of (gs_ledger (snd (grant_next ''u'' 10 '''' [demo_candidate ''r'' 2 1] demo_scheduler))) ''w'' =
     map_of (gs_ledger demo_scheduler) ''w''"
proof -
  obtain x g' where g: "grant_next ''u'' 10 '''' [demo_candidate ''r'' 2 1] demo_scheduler = (x, g')" by fastforce
  have "blank ''''" by (simp add: blank_iff)
  then have "x \<noteq> Inr (Some w)" for w
    using grant_takes_best [of "''u''" 10 "''''" "[demo_candidate ''r'' 2 1]" demo_scheduler w g'] g
    by (auto simp: grant_next_def rank_def score_def demo_candidate_def demo_scheduler_def tasks_of_def is_direct_def
        reserve_evidence_def balance_def available_def fresh_lease_def lease_grant_def Let_def bindr_def
        split: sum.splits)
  moreover have "ledger_ok (gs_ledger demo_scheduler)" by (simp add: demo_scheduler_def ledger_ok_def account_ok_def)
  ultimately have "map_of (gs_ledger g') = map_of (gs_ledger demo_scheduler)"
    by (intro failed_round_keeps_credits [OF _ g]) auto
  with g show ?thesis by simp
qed

end
