(* ===== verification/Hostname.thy ===== *)
theory Hostname
  imports Prelude
begin

text \<open>
  Hostname normalization (\<open>authority/normalizer.py\<close>): the regular expression \<open>HOST_RE\<close> as a syntax
  tree with its language, the direct check by labels that the development computes with, and
  \<open>normalize_official\<close>; and the derivation of a registrable-domain candidate
  (\<open>evidence/rdap_candidates.py\<close>).
\<close>

section \<open>The regular expression\<close>

datatype regex = Cls "char \<Rightarrow> bool" | Sq regex regex | Opt regex | Rep nat nat regex | Plus regex

primrec lang :: "regex \<Rightarrow> string set" where
  "lang (Cls P) = {[c] | c. P c}"
| "lang (Sq r q) = {u @ v | u v. u \<in> lang r \<and> v \<in> lang q}"
| "lang (Opt r) = insert [] (lang r)"
| "lang (Rep m n r) = {concat ws | ws. m \<le> length ws \<and> length ws \<le> n \<and> set ws \<subseteq> lang r}"
| "lang (Plus r) = {concat ws | ws. ws \<noteq> [] \<and> set ws \<subseteq> lang r}"

definition az :: "char \<Rightarrow> bool" where
  "az c = (let n = (of_char c :: nat) in 97 \<le> n \<and> n \<le> 122)"

definition digit :: "char \<Rightarrow> bool" where
  "digit c = (let n = (of_char c :: nat) in 48 \<le> n \<and> n \<le> 57)"

definition alnum :: "char \<Rightarrow> bool" where
  "alnum c = (az c \<or> digit c)"

definition label_re :: regex where
  "label_re = Sq (Cls alnum) (Opt (Sq (Rep 0 61 (Cls (\<lambda>c. alnum c \<or> c = CHR ''-''))) (Cls alnum)))"

text \<open>
  \<open>HOST_RE\<close> without its lookahead \<open>(?=.{1,253}\Z)\<close>, which bounds the length of the whole match.
\<close>

definition host_re :: regex where
  "host_re = Sq (Plus (Sq label_re (Cls (\<lambda>c. c = CHR ''.'')))) (Rep 2 63 (Cls az))"

definition host_matches :: "string \<Rightarrow> bool" where
  "host_matches s \<longleftrightarrow> s \<in> lang host_re \<and> 1 \<le> length s \<and> length s \<le> 253"

section \<open>The check by labels\<close>

fun split_dots :: "string \<Rightarrow> string list" where
  "split_dots [] = [[]]"
| "split_dots (c # cs) =
     (if c = CHR ''.'' then [] # split_dots cs
      else case split_dots cs of [] \<Rightarrow> [[c]] | w # ws \<Rightarrow> (c # w) # ws)"

definition label_ok :: "string \<Rightarrow> bool" where
  "label_ok w = (w \<noteq> [] \<and> length w \<le> 63 \<and> alnum (hd w) \<and> alnum (last w) \<and>
     list_all (\<lambda>c. alnum c \<or> c = CHR ''-'') w)"

definition tld_ok :: "string \<Rightarrow> bool" where
  "tld_ok w = (2 \<le> length w \<and> length w \<le> 63 \<and> list_all az w)"

definition host_ok :: "string \<Rightarrow> bool" where
  "host_ok s = (length s \<le> 253 \<and> (let ls = split_dots s in
     2 \<le> length ls \<and> list_all label_ok (butlast ls) \<and> tld_ok (last ls)))"

definition normalize_official :: "string \<Rightarrow> string option" where
  "normalize_official raw =
     (let value = py_lower (py_strip raw) in if value = [] \<or> \<not> host_ok value then None else Some value)"

definition normalize_lines :: "string list \<Rightarrow> string set" where
  "normalize_lines lines = {v. \<exists>line \<in> set lines. normalize_official line = Some v}"

section \<open>RDAP candidates\<close>

definition strip_dots :: "string \<Rightarrow> string" where
  "strip_dots s = rev (dropWhile (\<lambda>c. c = CHR ''.'') (rev (dropWhile (\<lambda>c. c = CHR ''.'') s)))"

fun join_dots :: "string list \<Rightarrow> string" where
  "join_dots [] = []"
| "join_dots [w] = w"
| "join_dots (w # ws) = w @ ''.'' @ join_dots ws"

definition last_labels :: "nat \<Rightarrow> string list \<Rightarrow> string list" where
  "last_labels n ls = drop (length ls - n) ls"

definition rdap_parent_candidate :: "string \<Rightarrow> string option" where
  "rdap_parent_candidate hostname =
     (let labels = split_dots (py_lower (strip_dots hostname)) in
      if length labels < 2 \<or> list_ex (\<lambda>l. l = []) labels then None
      else if length (last labels) = 2 then
        (if length labels < 3 then None else Some (join_dots (last_labels 3 labels)))
      else Some (join_dots (last_labels 2 labels)))"

section \<open>The check decides the expression\<close>

lemma concat_singletons: "set ws \<subseteq> {[c] | c. P c} \<Longrightarrow> length (concat ws) = length ws \<and> (\<forall>c \<in> set (concat ws). P c)"
  by (induction ws) auto

lemma singletons_of: "(\<forall>c \<in> set w. P c) \<Longrightarrow> set (List.map (\<lambda>c. [c]) w) \<subseteq> {[c] | c. P c} \<and> concat (List.map (\<lambda>c. [c]) w) = w"
  by (induction w) auto

lemma lang_rep_cls: "w \<in> lang (Rep m n (Cls P)) \<longleftrightarrow> m \<le> length w \<and> length w \<le> n \<and> (\<forall>c \<in> set w. P c)"
proof
  assume "w \<in> lang (Rep m n (Cls P))"
  then show "m \<le> length w \<and> length w \<le> n \<and> (\<forall>c \<in> set w. P c)"
    using concat_singletons [where P = P] by fastforce
next
  assume "m \<le> length w \<and> length w \<le> n \<and> (\<forall>c \<in> set w. P c)"
  then show "w \<in> lang (Rep m n (Cls P))"
    using singletons_of [of w P] by (simp, intro exI [of _ "List.map (\<lambda>c. [c]) w"]) auto
qed

lemma label_lang: "w \<in> lang label_re \<longleftrightarrow> label_ok w"
proof
  assume "w \<in> lang label_re"
  then consider c where "alnum c" "w = [c]"
    | c m d where "alnum c" "m \<in> lang (Rep 0 61 (Cls (\<lambda>c. alnum c \<or> c = CHR ''-'')))" "alnum d" "w = c # m @ [d]"
    unfolding label_re_def lang.simps(1-3) by (auto simp del: lang.simps)
  then show "label_ok w"
    unfolding lang_rep_cls by cases (auto simp: label_ok_def list_all_iff)
next
  assume w: "label_ok w"
  show "w \<in> lang label_re"
  proof (cases "length w = 1")
    case True
    then obtain c where "w = [c]" by (auto simp: length_Suc_conv)
    with w show ?thesis by (auto simp: label_re_def label_ok_def)
  next
    case False
    with w obtain c v where "w = c # v" "v \<noteq> []" by (cases w) (auto simp: label_ok_def)
    then obtain m d where wm: "w = c # m @ [d]" by (cases v rule: rev_cases) auto
    with w have "m \<in> lang (Rep 0 61 (Cls (\<lambda>c. alnum c \<or> c = CHR ''-'')))" "alnum c" "alnum d"
      unfolding lang_rep_cls by (auto simp: label_ok_def list_all_iff)
    then have "m @ [d] \<in> lang (Opt (Sq (Rep 0 61 (Cls (\<lambda>c. alnum c \<or> c = CHR ''-''))) (Cls alnum)))" "[c] \<in> lang (Cls alnum)"
      unfolding lang.simps(1-3) by blast+
    then have "[c] @ (m @ [d]) \<in> lang label_re" unfolding label_re_def lang.simps(2) by blast
    with wm show ?thesis by simp
  qed
qed

lemma split_dots_ne: "split_dots s \<noteq> []"
  by (cases s) (auto split: list.splits)

lemma split_dots_label: "CHR ''.'' \<notin> set w \<Longrightarrow> split_dots (w @ CHR ''.'' # s) = w # split_dots s"
  by (induction w) (auto split: list.splits)

lemma split_dots_last: "CHR ''.'' \<notin> set w \<Longrightarrow> split_dots w = [w]"
  by (induction w) auto

lemma split_dots_concat:
  "\<forall>w \<in> set ls. CHR ''.'' \<notin> set w \<Longrightarrow> CHR ''.'' \<notin> set t \<Longrightarrow>
   split_dots (concat (List.map (\<lambda>w. w @ ''.'') ls) @ t) = ls @ [t]"
  by (induction ls) (auto simp: split_dots_last split_dots_label)

lemma split_dots_join: "concat (List.map (\<lambda>w. w @ ''.'') (butlast (split_dots s))) @ last (split_dots s) = s"
proof (induction s)
  case (Cons c s)
  then show ?case using split_dots_ne [of s] by (cases "split_dots s") auto
qed simp

lemma no_dots: "label_ok w \<Longrightarrow> CHR ''.'' \<notin> set w" "tld_ok t \<Longrightarrow> CHR ''.'' \<notin> set t"
  by (auto simp: label_ok_def tld_ok_def list_all_iff alnum_def az_def digit_def Let_def)

lemma host_lang:
  "s \<in> lang host_re \<longleftrightarrow> 2 \<le> length (split_dots s) \<and> list_all label_ok (butlast (split_dots s)) \<and> tld_ok (last (split_dots s))"
proof
  assume "s \<in> lang host_re"
  then obtain ws t where ws: "ws \<noteq> []" "set ws \<subseteq> {w @ ''.'' | w. w \<in> lang label_re}"
      and t: "t \<in> lang (Rep 2 63 (Cls az))" and s: "s = concat ws @ t"
    unfolding host_re_def lang.simps(1,2,5) by blast
  have "\<exists>ls. ws = List.map (\<lambda>w. w @ ''.'') ls \<and> list_all label_ok ls"
    using ws(2)
  proof (induction ws)
    case (Cons w ws)
    then obtain ls v where "ws = List.map (\<lambda>w. w @ ''.'') ls" "list_all label_ok ls" "w = v @ ''.''" "label_ok v"
      using label_lang by auto
    then show ?case by (intro exI [of _ "v # ls"]) simp
  qed simp
  then obtain ls where ls: "ws = List.map (\<lambda>w. w @ ''.'') ls" "list_all label_ok ls" by blast
  have tok: "tld_ok t" using t unfolding lang_rep_cls tld_ok_def list_all_iff by blast
  have "split_dots s = ls @ [t]"
    unfolding s ls(1) by (rule split_dots_concat) (use ls(2) tok no_dots in \<open>auto simp: list_all_iff\<close>)
  with ls tok ws(1) show "2 \<le> length (split_dots s) \<and> list_all label_ok (butlast (split_dots s)) \<and> tld_ok (last (split_dots s))"
    by (cases ls) auto
next
  let ?ls = "butlast (split_dots s)" and ?t = "last (split_dots s)"
  assume a: "2 \<le> length (split_dots s) \<and> list_all label_ok ?ls \<and> tld_ok ?t"
  let ?ws = "List.map (\<lambda>w. w @ ''.'') ?ls"
  have "?ws \<noteq> []" using a by (cases "split_dots s" rule: rev_cases) auto
  moreover have "set ?ws \<subseteq> {w @ ''.'' | w. w \<in> lang label_re}" using a by (auto simp: list_all_iff label_lang)
  moreover have "?t \<in> lang (Rep 2 63 (Cls az))" using a unfolding tld_ok_def lang_rep_cls list_all_iff by blast
  moreover have "s = concat ?ws @ ?t" by (simp add: split_dots_join)
  ultimately show "s \<in> lang host_re" unfolding host_re_def lang.simps(1,2,5) by blast
qed

lemma host_ok_iff: "host_ok s \<longleftrightarrow> host_matches s"
proof -
  have "s \<noteq> []" if "2 \<le> length (split_dots s)" using that by auto
  then show ?thesis by (auto simp: host_ok_def host_matches_def host_lang Let_def Suc_le_eq)
qed

lemma host_chars:
  assumes ok: "host_ok s" and c: "c \<in> set s"
  shows "alnum c \<or> c = CHR ''-'' \<or> c = CHR ''.''"
proof -
  have "c \<in> set (concat (List.map (\<lambda>w. w @ ''.'') (butlast (split_dots s))) @ last (split_dots s))"
    using c by (simp only: split_dots_join)
  then consider w where "w \<in> set (butlast (split_dots s))" "c \<in> set w" | "c = CHR ''.''" | "c \<in> set (last (split_dots s))"
    by (auto split: if_splits)
  then show ?thesis
  proof cases
    case 1
    with ok have "label_ok w" unfolding host_ok_def Let_def list_all_iff by blast
    with 1(2) show ?thesis by (auto simp: label_ok_def list_all_iff)
  next
    case 3
    have "tld_ok (last (split_dots s))" using ok unfolding host_ok_def Let_def by blast
    with 3 show ?thesis by (simp add: tld_ok_def list_all_iff alnum_def)
  qed simp
qed

lemma plain_char:
  assumes "alnum c \<or> c = CHR ''-'' \<or> c = CHR ''.''"
  shows "py_lower_char c = c" "\<not> py_space c"
proof -
  consider "97 \<le> (of_char c :: nat)" "(of_char c :: nat) \<le> 122" | "48 \<le> (of_char c :: nat)" "(of_char c :: nat) \<le> 57"
    | "c = CHR ''-''" | "c = CHR ''.''"
    using assms by (auto simp: alnum_def az_def digit_def Let_def)
  then have "\<not> (65 \<le> (of_char c :: nat) \<and> (of_char c :: nat) \<le> 90) \<and> \<not> 192 \<le> (of_char c :: nat) \<and> \<not> py_space c"
    by cases (auto simp: py_space_def Let_def)
  then show "py_lower_char c = c" "\<not> py_space c" by (auto simp: py_lower_char_def Let_def)
qed

lemma normalize_fixed: "host_ok v \<Longrightarrow> normalize_official v = Some v"
proof -
  assume ok: "host_ok v"
  have ne: "v \<noteq> []" using ok by (auto simp: host_ok_def Let_def)
  have plain: "py_lower_char c = c" "\<not> py_space c" if "c \<in> set v" for c
    using plain_char [OF host_chars [OF ok that]] by auto
  have "py_strip v = v" using ne plain(2) by (intro py_strip_id) auto
  moreover have "py_lower v = v" using plain(1) by (simp add: py_lower_def map_idI)
  ultimately show ?thesis using ok ne by (simp add: normalize_official_def)
qed

lemma normalize_again: "normalize_official raw = Some v \<Longrightarrow> normalize_official v = Some v"
  by (rule normalize_fixed) (auto simp: normalize_official_def Let_def split: if_splits)

text \<open>
  C10: normalization computes the expression. A hostname is accepted exactly when its stripped and
  lower-cased form is a match of \<open>HOST_RE\<close> of at most 253 characters, the result is that form, and
  normalizing it again changes nothing.
\<close>

theorem normalize_official_matches:
  "normalize_official raw = (if host_matches (py_lower (py_strip raw)) then Some (py_lower (py_strip raw)) else None) \<and>
   (case normalize_official raw of None \<Rightarrow> True | Some v \<Rightarrow> normalize_official v = Some v)"
proof
  let ?v = "py_lower (py_strip raw)"
  show n: "normalize_official raw = (if host_matches ?v then Some ?v else None)"
    by (auto simp: normalize_official_def host_ok_iff [symmetric] Let_def host_ok_def)
  show "case normalize_official raw of None \<Rightarrow> True | Some v \<Rightarrow> normalize_official v = Some v"
    using n normalize_fixed [of ?v] host_ok_iff by (auto split: option.splits if_splits)
qed

end
