(* ===== verification/Policies.thy ===== *)
theory Policies
  imports Hostname
begin

text \<open>
  Evidence acceptance primitives (\<open>evidence/policies.py\<close>): query keys, capsules and the three kinds of
  provider result, with the consistency checks their constructors make.
\<close>

datatype query_state = Q_UNKNOWN | Q_PENDING | Q_PASS | Q_EMPTY_EXHAUSTIVE | Q_DECOMPOSED | Q_INCOMPLETE
  | Q_TRANSIENT_ERROR | Q_INVALID

section \<open>Keys and capsules\<close>

record temporal_scope =
  ts_from :: int
  ts_to :: int

definition temporal_scope_init :: "pyval \<Rightarrow> pyval \<Rightarrow> py_error + temporal_scope" where
  "temporal_scope_init year_from year_to =
     (case (year_from, year_to) of
        (PyInt a, PyInt b) \<Rightarrow> check (1996 \<le> a \<and> a \<le> b \<and> b \<le> 2001) ValueError (Inr \<lparr>ts_from = a, ts_to = b\<rparr>)
      | _ \<Rightarrow> Inl ValueError)"

record query_key =
  qk_hostname :: string
  qk_temporal_scope :: temporal_scope
  qk_provider :: string
  qk_policy_version :: string

definition query_key_init :: "query_key \<Rightarrow> py_error + query_key" where
  "query_key_init k =
     (case normalize_official (qk_hostname k) of
        None \<Rightarrow> Inl ValueError
      | Some h \<Rightarrow> check (\<not> blank (qk_provider k)) ValueError (
                  check (\<not> blank (qk_policy_version k)) ValueError (Inr (k\<lparr>qk_hostname := h\<rparr>))))"

record capsule =
  cp_hostname :: string
  cp_year :: int
  cp_provider :: string
  cp_temporal_semantics :: string
  cp_evidence_timestamp :: string
  cp_source_locator :: string
  cp_payload_hash :: string
  cp_policy_version :: string
  cp_evidence_type :: string
  cp_source_id :: string
  cp_original_url :: string
  cp_record_locator :: string
  cp_extraction_method :: string

definition or_else :: "string \<Rightarrow> string \<Rightarrow> string" where
  "or_else s d = (if s = [] then d else s)"

definition capsule_init :: "capsule \<Rightarrow> py_error + capsule" where
  "capsule_init c =
     (case normalize_official (cp_hostname c) of
        None \<Rightarrow> Inl ValueError
      | Some h \<Rightarrow>
          check (1996 \<le> cp_year c \<and> cp_year c \<le> 2001) ValueError (
          check (\<not> blank (cp_provider c)) ValueError (
          check (\<not> blank (cp_policy_version c)) ValueError (
          check (\<not> blank (cp_payload_hash c)) ValueError (
          Inr (c\<lparr>cp_hostname := h,
                 cp_evidence_type := or_else (cp_evidence_type c)
                   (if starts_with (cp_provider c) ''direct:'' then ''source_direct_year'' else ''archive_capture''),
                 cp_source_id := or_else (cp_source_id c) (cp_provider c),
                 cp_original_url := or_else (cp_original_url c) (cp_source_locator c),
                 cp_record_locator := or_else (cp_record_locator c) (cp_source_locator c),
                 cp_extraction_method := or_else (cp_extraction_method c) ''provider_record''\<rparr>))))))"

section \<open>Results\<close>

definition accounting_ok :: "pyval list \<Rightarrow> bool" where
  "accounting_ok values = list_all nonneg_int values"

record query_result =
  er_hostname :: string
  er_year :: int
  er_state :: query_state
  er_capsule :: "capsule option"
  er_pages_seen :: int
  er_records_seen :: int
  er_provider_requests :: int
  er_provider_elapsed_milliseconds :: int
  er_error :: "string option"
  er_key :: "query_key option"

definition query_result_init :: "query_result \<Rightarrow> py_error + query_result" where
  "query_result_init r =
     (case normalize_official (er_hostname r) of
        None \<Rightarrow> Inl ValueError
      | Some h \<Rightarrow>
          check (1996 \<le> er_year r \<and> er_year r \<le> 2001) ValueError (
          check (accounting_ok (List.map PyInt [er_pages_seen r, er_records_seen r, er_provider_requests r,
                   er_provider_elapsed_milliseconds r])) ValueError (
          check (case er_key r of None \<Rightarrow> True | Some k \<Rightarrow> qk_hostname k = h \<and>
                   ts_from (qk_temporal_scope k) \<le> er_year r \<and> er_year r \<le> ts_to (qk_temporal_scope k)) ValueError (
          check (case er_capsule r of None \<Rightarrow> True | Some c \<Rightarrow> cp_hostname c = h \<and> cp_year c = er_year r \<and>
                   (case er_key r of None \<Rightarrow> True | Some k \<Rightarrow> cp_provider c = qk_provider k \<and>
                      cp_policy_version c = qk_policy_version k)) ValueError (
          Inr (r\<lparr>er_hostname := h\<rparr>))))))"

record domain_result =
  dr_domain :: string
  dr_key :: query_key
  dr_state :: query_state
  dr_capsules :: "capsule list"
  dr_pages_seen :: int
  dr_records_seen :: int
  dr_provider_requests :: int
  dr_provider_elapsed_milliseconds :: int
  dr_error :: "string option"

definition in_scope :: "temporal_scope \<Rightarrow> int \<Rightarrow> bool" where
  "in_scope s y = (ts_from s \<le> y \<and> y \<le> ts_to s)"

definition domain_result_init :: "domain_result \<Rightarrow> py_error + domain_result" where
  "domain_result_init r =
     (case normalize_official (dr_domain r) of
        None \<Rightarrow> Inl ValueError
      | Some d \<Rightarrow>
          check (d = qk_hostname (dr_key r)) ValueError (
          check (accounting_ok (List.map PyInt [dr_pages_seen r, dr_records_seen r, dr_provider_requests r,
                   dr_provider_elapsed_milliseconds r])) ValueError (
          check (ts_from (qk_temporal_scope (dr_key r)) \<noteq> ts_to (qk_temporal_scope (dr_key r))) ValueError (
          check (dr_state r \<in> {Q_DECOMPOSED, Q_TRANSIENT_ERROR, Q_INVALID}) ValueError (
          check (list_all (\<lambda>c. cp_provider c = qk_provider (dr_key r) \<and>
                   cp_policy_version c = qk_policy_version (dr_key r) \<and>
                   in_scope (qk_temporal_scope (dr_key r)) (cp_year c)) (dr_capsules r)) ValueError (
          check (distinct (List.map (\<lambda>c. (cp_hostname c, cp_year c)) (dr_capsules r))) ValueError (
          Inr (r\<lparr>dr_domain := d\<rparr>))))))))"

record range_result =
  rr_hostname :: string
  rr_key :: query_key
  rr_state :: query_state
  rr_candidate_years :: "int list"
  rr_followup_years :: "int list"
  rr_capsules :: "capsule list"
  rr_pages_seen :: int
  rr_records_seen :: int
  rr_provider_requests :: int
  rr_provider_elapsed_milliseconds :: int
  rr_error :: "string option"

definition range_result_init :: "range_result \<Rightarrow> py_error + range_result" where
  "range_result_init r =
     (case normalize_official (rr_hostname r) of
        None \<Rightarrow> Inl ValueError
      | Some h \<Rightarrow>
          check (qk_hostname (rr_key r) = h) ValueError (
          check (accounting_ok (List.map PyInt [rr_pages_seen r, rr_records_seen r, rr_provider_requests r,
                   rr_provider_elapsed_milliseconds r])) ValueError (
          check (ts_from (qk_temporal_scope (rr_key r)) \<noteq> ts_to (qk_temporal_scope (rr_key r))) ValueError (
          check (list_all (\<lambda>years. list_all (in_scope (qk_temporal_scope (rr_key r))) years \<and> distinct years)
                   [rr_candidate_years r, rr_followup_years r]) ValueError (
          check (set (rr_candidate_years r) \<inter> set (rr_followup_years r) = {}) ValueError (
          check (list_all (\<lambda>c. cp_hostname c = h \<and> cp_provider c = qk_provider (rr_key r) \<and>
                   cp_policy_version c = qk_policy_version (rr_key r) \<and>
                   in_scope (qk_temporal_scope (rr_key r)) (cp_year c)) (rr_capsules r)) ValueError (
          check (distinct (List.map cp_year (rr_capsules r))) ValueError (
          Inr (r\<lparr>rr_hostname := h\<rparr>)))))))))"

definition is_year_timestamp :: "string \<Rightarrow> int \<Rightarrow> py_error + bool" where
  "is_year_timestamp timestamp year =
     (if 4 \<le> length timestamp \<and> py_isdigit (take 4 timestamp)
      then (case py_int (take 4 timestamp) of None \<Rightarrow> Inl ValueError | Some n \<Rightarrow> Inr (n = year))
      else Inr False)"

end
