(* ===== verification/Actions.thy ===== *)
theory Actions
  imports Policies
begin

text \<open>
  Evidence actions (\<open>evidence/actions.py\<close>): the classification of a query key, the prior and posterior
  yield of an action class, the value of a task and the adaptive share of range queries.  The
  arithmetic is exact where the code uses floating point.
\<close>

section \<open>Action classes\<close>

datatype action_kind = EXACT | RANGE | DOMAIN | RDAP

fun prior_yield :: "action_kind \<Rightarrow> rat" where
  "prior_yield EXACT = 1 / 4"
| "prior_yield RANGE = 1 / 2"
| "prior_yield DOMAIN = 1"
| "prior_yield RDAP = 1 / 2"

definition prior_strength :: rat where "prior_strength = 4"

definition retry_penalty :: rat where "retry_penalty = 1 / 4"

definition full_requests :: int where "full_requests = 50"

definition exploration_floor :: rat where "exploration_floor = 1 / 20"

definition exploration_ceiling :: rat where "exploration_ceiling = 19 / 20"

definition classify_fields :: "string \<Rightarrow> int \<Rightarrow> int \<Rightarrow> string \<Rightarrow> action_kind" where
  "classify_fields provider year_from year_to policy_version =
     (if provider = ''rdap'' then RDAP
      else if starts_with policy_version ''cdx-domain-'' then DOMAIN
      else if year_from = year_to then EXACT else RANGE)"

definition classify :: "query_key \<Rightarrow> action_kind" where
  "classify k = classify_fields (qk_provider k) (ts_from (qk_temporal_scope k)) (ts_to (qk_temporal_scope k))
     (qk_policy_version k)"

section \<open>Values\<close>

record action_stats =
  as_action_kind :: action_kind
  as_attempts :: int
  as_provider_requests :: int
  as_provider_elapsed_milliseconds :: int
  as_final_novel_host_years :: int
  as_final_novel_eed :: rat
  as_posterior :: rat
  as_final_eed_per_request :: rat

definition action_stats_init :: "action_stats \<Rightarrow> py_error + action_stats" where
  "action_stats_init a =
     check (list_all (\<lambda>n. 0 \<le> n) [as_attempts a, as_provider_requests a, as_provider_elapsed_milliseconds a,
              as_final_novel_host_years a]) ValueError (
     check (list_all (\<lambda>q. 0 \<le> q) [as_final_novel_eed a, as_posterior a, as_final_eed_per_request a]) ValueError (
     Inr a))"

definition posterior_yield :: "action_kind \<Rightarrow> int \<Rightarrow> int \<Rightarrow> int \<Rightarrow> rat \<Rightarrow> py_error + rat" where
  "posterior_yield kind host_years requests attempts strength =
     check (0 \<le> host_years \<and> 0 \<le> requests \<and> 0 \<le> attempts \<and> 0 < strength) ValueError (
     let effective_requests = max requests attempts in
     Inr ((of_int host_years + strength * prior_yield kind) / (of_int effective_requests + strength)))"

definition task_value_score :: "action_kind \<Rightarrow> rat \<Rightarrow> int \<Rightarrow> int \<Rightarrow> int \<Rightarrow> int \<Rightarrow> py_error + rat" where
  "task_value_score kind eed_weight host_years requests attempts task_attempt =
     check (0 \<le> eed_weight \<and> 0 \<le> task_attempt) ValueError (
     bindr (posterior_yield kind host_years requests attempts prior_strength) (\<lambda>posterior.
     Inr (eed_weight * posterior / (1 + retry_penalty * of_int task_attempt))))"

definition adaptive_range_first_fraction :: "rat \<Rightarrow> rat \<Rightarrow> rat \<Rightarrow> int \<Rightarrow> bool \<Rightarrow> py_error + rat" where
  "adaptive_range_first_fraction base exact_posterior range_posterior requests authoritative =
     check (0 \<le> base \<and> 0 \<le> exact_posterior \<and> 0 \<le> range_posterior) ValueError (
     check (base \<le> 1) ValueError (
     check (0 \<le> requests) ValueError (
     if base = 0 \<or> \<not> authoritative then Inr base
     else let s = exact_posterior + range_posterior;
              target = (if s \<le> 0 then base else range_posterior / s);
              target = min exploration_ceiling (max exploration_floor target);
              confidence = min 1 (of_int requests / of_int full_requests)
          in Inr ((1 - confidence) * base + confidence * target))))"

section \<open>Facts\<close>

lemmas action_constants = prior_strength_def retry_penalty_def full_requests_def exploration_floor_def
  exploration_ceiling_def

lemma prior_pos: "0 < prior_yield k"
  by (cases k) simp_all

lemma convex_between:
  fixes a b t :: rat
  assumes "0 \<le> t" "t \<le> 1"
  shows "min a b \<le> (1 - t) * a + t * b" "(1 - t) * a + t * b \<le> max a b"
proof -
  have "min a b = (1 - t) * min a b + t * min a b" by (simp add: algebra_simps)
  also have "\<dots> \<le> (1 - t) * a + t * b" using assms by (intro add_mono mult_left_mono) simp_all
  finally show "min a b \<le> (1 - t) * a + t * b" .
  have "(1 - t) * a + t * b \<le> (1 - t) * max a b + t * max a b"
    using assms by (intro add_mono mult_left_mono) simp_all
  also have "\<dots> = max a b" by (simp add: algebra_simps)
  finally show "(1 - t) * a + t * b \<le> max a b" .
qed

text \<open>The posterior is the average of the prior and the observed yield, weighted by the evidence.\<close>

lemma posterior_average:
  assumes "posterior_yield k hy req att s = Inr q" "0 < max req att"
  shows "q = (1 - of_int (max req att) / (of_int (max req att) + s)) * prior_yield k +
       of_int (max req att) / (of_int (max req att) + s) * (of_int hy / of_int (max req att))"
proof -
  define n :: rat where "n = of_int (max req att)"
  have pos: "0 < n" "0 < s" "n + s \<noteq> 0" using assms unfolding n_def by (auto simp: posterior_yield_def)
  have "q = (of_int hy + s * prior_yield k) / (n + s)"
    using assms(1) by (auto simp: posterior_yield_def n_def Let_def)
  also have "\<dots> = (1 - n / (n + s)) * prior_yield k + n / (n + s) * (of_int hy / n)"
  proof -
    have "1 - n / (n + s) = s / (n + s)" using pos by (simp add: field_simps)
    moreover have "n / (n + s) * (of_int hy / n) = of_int hy / (n + s)" using pos by simp
    ultimately show ?thesis by (simp add: add_divide_distrib add.commute)
  qed
  finally show ?thesis unfolding n_def .
qed

text \<open>
  learning moves the range share gradually and never beyond its bounds. Without authority for the
  reward, or with a base of zero, the configured share is kept; otherwise the result lies between the
  configured share and the exploration bounds, reaches the clamped learned target after
  50 requests, and is always a share.
\<close>

theorem adaptive_share_bounded:
  assumes "adaptive_range_first_fraction base ex rg requests authoritative = Inr f"
  shows "0 \<le> f \<and> f \<le> 1 \<and> (base = 0 \<or> \<not> authoritative \<longrightarrow> f = base) \<and>
     min base exploration_floor \<le> f \<and> f \<le> max base exploration_ceiling \<and>
     (0 < base \<and> authoritative \<and> full_requests \<le> requests \<longrightarrow> exploration_floor \<le> f \<and> f \<le> exploration_ceiling) \<and>
     (0 < base \<and> authoritative \<and> requests = 0 \<longrightarrow> f = base)"
proof -
  have args: "0 \<le> base" "base \<le> 1" "0 \<le> requests"
    using assms by (auto simp: adaptive_range_first_fraction_def)
  show ?thesis
  proof (cases "base = 0 \<or> \<not> authoritative")
    case True
    then show ?thesis using assms args by (auto simp: adaptive_range_first_fraction_def action_constants)
  next
    case False
    define target where "target = min exploration_ceiling (max exploration_floor (if ex + rg \<le> 0 then base else rg / (ex + rg)))"
    define c :: rat where "c = min 1 (of_int requests / of_int full_requests)"
    have f: "f = (1 - c) * base + c * target"
      using assms False by (auto simp: adaptive_range_first_fraction_def target_def c_def Let_def)
    have t: "exploration_floor \<le> target" "target \<le> exploration_ceiling" by (auto simp: target_def action_constants)
    have c: "0 \<le> c" "c \<le> 1" using args(3) by (simp_all add: c_def full_requests_def)
    have b: "min base target \<le> f" "f \<le> max base target" unfolding f by (rule convex_between [OF c])+
    have "c = 1" if "full_requests \<le> requests" using that by (simp add: c_def full_requests_def)
    moreover have "c = 0" if "requests = 0" using that by (simp add: c_def)
    ultimately show ?thesis using b t args False unfolding f by (auto simp: exploration_floor_def exploration_ceiling_def)
  qed
qed

theorem adaptive_share_bounded_witness:
  "adaptive_range_first_fraction (1 / 2) (1 / 10) (3 / 10) 50 True = Inr (3 / 4) \<and> (3 / 4 :: rat) \<le> exploration_ceiling"
proof -
  have f: "adaptive_range_first_fraction (1 / 2) (1 / 10) (3 / 10) 50 True = Inr (3 / 4)"
    by (simp add: adaptive_range_first_fraction_def action_constants Let_def)
  from adaptive_share_bounded [OF f] f show ?thesis by (simp add: full_requests_def)
qed

end
