(* ===== verification/Planner.thy ===== *)
theory Planner
  imports Policies Fabric_Models
begin

unbundle bit_operations_syntax

text \<open>
  The evidence planner (\<open>evidence/planner.py\<close>): from one host observation and the masks of the years
  already known, the capsules of directly dated years and the query keys of the remaining ranges.
  The digest is the \<open>codec\<close>'s.
\<close>

section \<open>Observations and masks\<close>

datatype source_scope = OFFICIAL_POOL | ISC_REFERENCE | LOCAL_DISCOVERY | COMMON_CRAWL_CORPUS_EXCLUDED

record host_observation =
  ho_hostname :: string
  ho_source_id :: string
  ho_locator :: string
  ho_scope :: source_scope
  ho_source_year :: "int option"
  ho_source_time :: "string option"
  ho_record_type :: string
  ho_artifact_ref :: string
  ho_direct_year_mask :: int
  ho_year_hint_mask :: int
  ho_original_url :: string
  ho_evidence_type :: string
  ho_temporal_semantics :: string
  ho_evidence_contract_id :: string
  ho_evidence_contract_version :: string

definition host_observation_init :: "host_observation \<Rightarrow> py_error + host_observation" where
  "host_observation_init ob =
     check (list_all (\<lambda>s. \<not> blank s) [ho_hostname ob, ho_source_id ob, ho_locator ob]) ValueError (
     check (0 \<le> ho_direct_year_mask ob \<and> 0 \<le> ho_year_hint_mask ob) ValueError (Inr ob))"

definition year_bit :: "int \<Rightarrow> int" where
  "year_bit y = 2 ^ nat (y - 1996)"

definition competition_years :: "int list" where
  "competition_years = [1996, 1997, 1998, 1999, 2000, 2001]"

definition all_year_mask :: int where
  "all_year_mask = sum_list (List.map year_bit competition_years)"

definition years_of :: "int \<Rightarrow> int list" where
  "years_of m = filter (\<lambda>y. m AND year_bit y \<noteq> 0) competition_years"

section \<open>Ranges\<close>

text \<open>The ranges found so far, latest first; the code appends to and extends its last one.\<close>

fun add_year :: "int \<Rightarrow> (int \<times> int) list \<Rightarrow> (int \<times> int) list" where
  "add_year y [] = [(y, y)]"
| "add_year y ((a, b) # rs) = (if y \<noteq> b + 1 then (y, y) # (a, b) # rs else (a, y) # rs)"

definition year_ranges :: "int list \<Rightarrow> (int \<times> int) list" where
  "year_ranges years = rev (fold add_year years [])"

section \<open>The plan\<close>

record evidence_plan =
  ep_direct_capsules :: "capsule list"
  ep_external_keys :: "query_key list"

definition join_nul :: "string list \<Rightarrow> string" where
  "join_nul ws = (case ws of [] \<Rightarrow> [] | w # vs \<Rightarrow> w @ concat (List.map (\<lambda>v. CHR 0x00 # v) vs))"

definition direct_capsule ::
  "codec \<Rightarrow> host_observation \<Rightarrow> string \<Rightarrow> int \<Rightarrow> string \<Rightarrow> py_error + capsule" where
  "direct_capsule E ob hostname year policy_version =
     (let identity = utf8 (join_nul [hostname, dec_int year, ho_source_id ob, ho_locator ob,
            ho_artifact_ref ob, ho_record_type ob]);
          base_method = or_else (ho_record_type ob) ''source_record'';
          extraction_method = (if ho_evidence_contract_id ob \<noteq> [] then
              base_method @ '';contract='' @ ho_evidence_contract_id ob @ ''@'' @
                or_else (ho_evidence_contract_version ob) ''unknown''
            else base_method)
      in capsule_init \<lparr>cp_hostname = hostname, cp_year = year, cp_provider = ''direct:'' @ ho_source_id ob,
           cp_temporal_semantics = or_else (ho_temporal_semantics ob) ''source_direct_year'',
           cp_evidence_timestamp = (case ho_source_time ob of
              Some t \<Rightarrow> or_else t (dec_int year @ ''0101000000'') | None \<Rightarrow> dec_int year @ ''0101000000''),
           cp_source_locator = ho_locator ob, cp_payload_hash = sha256 E identity,
           cp_policy_version = policy_version,
           cp_evidence_type = or_else (ho_evidence_type ob) ''dated_archive_index'',
           cp_source_id = ho_source_id ob, cp_original_url = or_else (ho_original_url ob) (ho_locator ob),
           cp_record_locator = ho_locator ob, cp_extraction_method = extraction_method\<rparr>)"

definition direct_mask_of :: "host_observation \<Rightarrow> int \<Rightarrow> bool \<Rightarrow> int" where
  "direct_mask_of ob suppressed allow_direct =
     (if allow_direct \<and> ho_scope ob \<noteq> COMMON_CRAWL_CORPUS_EXCLUDED
      then ho_direct_year_mask ob AND NOT suppressed else 0)"

definition external_mask_of :: "host_observation \<Rightarrow> int \<Rightarrow> int \<Rightarrow> bool \<Rightarrow> int \<Rightarrow> int" where
  "external_mask_of ob suppressed direct_mask allow_direct covered =
     (let hint = (case ho_source_year ob of
            Some y \<Rightarrow> if y \<in> set competition_years then ho_year_hint_mask ob OR year_bit y else ho_year_hint_mask ob
          | None \<Rightarrow> ho_year_hint_mask ob);
          hint = (if \<not> allow_direct \<or> ho_scope ob = COMMON_CRAWL_CORPUS_EXCLUDED then all_year_mask
                  else if hint = 0 \<and> direct_mask = 0 then all_year_mask else hint)
      in hint AND NOT suppressed AND NOT direct_mask AND NOT covered)"

definition plan ::
  "codec \<Rightarrow> host_observation \<Rightarrow> int \<Rightarrow> int \<Rightarrow> string \<Rightarrow> string \<Rightarrow> bool \<Rightarrow> int \<Rightarrow> rat \<Rightarrow> py_error + evidence_plan" where
  "plan E ob official_mask local_mask provider policy_version allow_direct covered range_first_fraction =
     (case normalize_official (ho_hostname ob) of
        None \<Rightarrow> Inl ValueError
      | Some hostname \<Rightarrow>
          check (0 \<le> range_first_fraction \<and> range_first_fraction \<le> 1) ValueError (
          (let suppressed = official_mask OR local_mask;
               direct_mask = direct_mask_of ob suppressed allow_direct;
               external = external_mask_of ob suppressed direct_mask allow_direct covered
           in bindr (collect (List.map (\<lambda>y. direct_capsule E ob hostname y policy_version) (years_of direct_mask)))
                (\<lambda>capsules. bindr (collect (List.map (\<lambda>(a, b).
                     bindr (temporal_scope_init (PyInt a) (PyInt b)) (\<lambda>scope.
                     query_key_init \<lparr>qk_hostname = hostname, qk_temporal_scope = scope, qk_provider = provider,
                       qk_policy_version = policy_version\<rparr>)) (year_ranges (years_of external))))
                (\<lambda>keys. Inr \<lparr>ep_direct_capsules = capsules, ep_external_keys = keys\<rparr>)))))"

definition range_first_selected :: "codec \<Rightarrow> (string \<Rightarrow> int) \<Rightarrow> string \<Rightarrow> rat \<Rightarrow> bool" where
  "range_first_selected E digest_prefix hostname fraction =
     (if fraction \<le> 0 then False else if 1 \<le> fraction then True
      else digest_prefix (sha256 E (utf8 hostname)) < \<lfloor>fraction * 2 ^ 64\<rfloor>)"

section \<open>Coverage of the ranges\<close>

lemma years_of_bit: "y \<in> set (years_of m) \<longleftrightarrow> y \<in> set competition_years \<and> bit m (nat (y - 1996))"
  by (simp add: years_of_def year_bit_def and_exp_eq_0_iff_not_bit)

text \<open>What \<open>year_ranges\<close> of an ascending list of competition years is, by cases on the 64 subsets.\<close>

definition covers_once :: "int list \<Rightarrow> (int \<times> int) list \<Rightarrow> bool" where
  "covers_once years rs \<longleftrightarrow> length rs \<le> 3 \<and>
     list_all (\<lambda>(a, b). 1996 \<le> a \<and> a \<le> b \<and> b \<le> 2001) rs \<and> sorted_wrt (\<lambda>(_, b) (c, _). b + 1 < c) rs \<and>
     list_all (\<lambda>y. (y \<in> set years) = list_ex (\<lambda>(a, b). a \<le> y \<and> y \<le> b) rs) competition_years"

lemma subset_ranges:
  "covers_once (filter P competition_years) (year_ranges (filter P competition_years))"
  by (cases "P 1996"; cases "P 1997"; cases "P 1998"; cases "P 1999"; cases "P 2000"; cases "P 2001")
     (simp_all add: covers_once_def year_ranges_def competition_years_def)

lemma all_years_bit: "y \<in> set competition_years \<Longrightarrow> bit all_year_mask (nat (y - 1996))"
  by (auto simp: all_year_mask_def competition_years_def year_bit_def)

lemma external_bits:
  "bit (external_mask_of ob known d allow covered) n \<Longrightarrow> \<not> bit known n \<and> \<not> bit d n \<and> \<not> bit covered n"
  by (simp add: external_mask_of_def Let_def bit_and_iff bit_not_iff)

lemma external_all:
  "\<not> allow \<or> ho_scope ob = COMMON_CRAWL_CORPUS_EXCLUDED \<Longrightarrow> bit all_year_mask n \<Longrightarrow>
   bit (external_mask_of ob known 0 allow covered) n = (\<not> bit known n \<and> \<not> bit covered n)"
  by (simp add: external_mask_of_def Let_def bit_and_iff bit_not_iff)

lemma direct_bits:
  "bit (direct_mask_of ob known allow) n = (allow \<and> ho_scope ob \<noteq> COMMON_CRAWL_CORPUS_EXCLUDED \<and>
     bit (ho_direct_year_mask ob) n \<and> \<not> bit known n)"
  by (simp add: direct_mask_of_def bit_and_iff bit_not_iff)

definition plan_scopes :: "evidence_plan \<Rightarrow> (int \<times> int) list" where
  "plan_scopes p = List.map (\<lambda>k. (ts_from (qk_temporal_scope k), ts_to (qk_temporal_scope k))) (ep_external_keys p)"

definition plan_queries :: "evidence_plan \<Rightarrow> int \<Rightarrow> bool" where
  "plan_queries p y = list_ex (\<lambda>k. in_scope (qk_temporal_scope k) y) (ep_external_keys p)"

definition plan_direct :: "evidence_plan \<Rightarrow> int \<Rightarrow> bool" where
  "plan_direct p y = (y \<in> set (List.map cp_year (ep_direct_capsules p)))"

definition year_in :: "int \<Rightarrow> int \<Rightarrow> bool" where
  "year_in m y = bit m (nat (y - 1996))"

definition direct_source :: "bool \<Rightarrow> host_observation \<Rightarrow> bool" where
  "direct_source allow ob = (allow \<and> ho_scope ob \<noteq> COMMON_CRAWL_CORPUS_EXCLUDED)"

text \<open>What a planned observation is made of.\<close>

lemma plan_parts:
  assumes p: "plan E ob official local provider policy allow covered fraction = Inr p"
  defines "dm \<equiv> direct_mask_of ob (official OR local) allow"
  defines "em \<equiv> external_mask_of ob (official OR local) dm allow covered"
  shows "covers_once (years_of em) (plan_scopes p)"
    "\<forall>k \<in> set (ep_external_keys p). normalize_official (ho_hostname ob) = Some (qk_hostname k)"
    "y \<in> set competition_years \<Longrightarrow> plan_queries p y = bit em (nat (y - 1996))"
    "y \<in> set competition_years \<Longrightarrow> plan_direct p y = bit dm (nat (y - 1996))"
proof -
  obtain h where h: "normalize_official (ho_hostname ob) = Some h"
    using p by (auto simp: plan_def split: option.splits)
  let ?key = "\<lambda>(a, b). bindr (temporal_scope_init (PyInt a) (PyInt b)) (\<lambda>scope.
     query_key_init \<lparr>qk_hostname = h, qk_temporal_scope = scope, qk_provider = provider, qk_policy_version = policy\<rparr>)"
  have caps: "List.map (\<lambda>y. direct_capsule E ob h y policy) (years_of dm) = List.map Inr (ep_direct_capsules p)"
    and keys: "List.map ?key (year_ranges (years_of em)) = List.map Inr (ep_external_keys p)"
    using p h by (auto simp: plan_def Let_def collect_Inr dm_def em_def)
  have "cp_year c = y" if "direct_capsule E ob h y policy = Inr c" for y c
    using that by (auto simp: direct_capsule_def capsule_init_def Let_def split: option.splits)
  then have years: "List.map cp_year cs = ys" if "List.map (\<lambda>y. direct_capsule E ob h y policy) ys = List.map Inr cs" for ys cs
    using that by (induction ys arbitrary: cs) (auto simp: Cons_eq_map_conv)
  have hf: "normalize_official h = Some h" using h by (rule normalize_again)
  have key: "ts_from (qk_temporal_scope k) = a \<and> ts_to (qk_temporal_scope k) = b \<and> qk_hostname k = h" if "?key (a, b) = Inr k" for a b k
    using that hf by (auto simp: temporal_scope_init_def query_key_init_def)
  have "List.map (\<lambda>k. (ts_from (qk_temporal_scope k), ts_to (qk_temporal_scope k))) ks = rs \<and> (\<forall>k \<in> set ks. qk_hostname k = h)"
    if "List.map ?key rs = List.map Inr ks" for rs ks
    using that
  proof (induction rs arbitrary: ks)
    case (Cons r rs)
    then obtain k ks' where k: "ks = k # ks'" "?key r = Inr k" "List.map ?key rs = List.map Inr ks'" by (auto simp: Cons_eq_map_conv)
    obtain a b where "r = (a, b)" by (cases r)
    with k(2) key [of a b k] Cons.IH [OF k(3)] k(1) show ?case by simp
  qed simp
  from this [OF keys] have scopes: "plan_scopes p = year_ranges (years_of em)" and host: "\<forall>k \<in> set (ep_external_keys p). qk_hostname k = h"
    by (simp_all add: plan_scopes_def)
  show once: "covers_once (years_of em) (plan_scopes p)" unfolding scopes years_of_def by (rule subset_ranges)
  show "plan_queries p y = bit em (nat (y - 1996))" if "y \<in> set competition_years" for y
  proof -
    have "plan_queries p y = list_ex (\<lambda>(a, b). a \<le> y \<and> y \<le> b) (plan_scopes p)"
      by (auto simp: plan_queries_def plan_scopes_def list_ex_iff in_scope_def)
    with once that show ?thesis by (auto simp: covers_once_def list_all_iff years_of_bit)
  qed
  show "plan_direct p y = bit dm (nat (y - 1996))" if "y \<in> set competition_years" for y
    using that years [OF caps] by (simp add: plan_direct_def years_of_bit)
  show "\<forall>k \<in> set (ep_external_keys p). normalize_official (ho_hostname ob) = Some (qk_hostname k)"
    using h host by simp
qed

text \<open>
  C9: the plan covers every open year exactly once. For a valid observation the planned
  query keys are at most three, for the normalized host, in ascending disjoint ranges with a gap
  between any two; no planned year is already official, local, covered or direct; a year becomes
  direct exactly when direct evidence is allowed for a source that is not excluded and claims it; and
  when direct evidence is not allowed every competition year that is neither known nor covered is
  queried.
\<close>

theorem plan_covers_once:
  assumes p: "plan E ob official local provider policy allow covered fraction = Inr p"
  shows "length (ep_external_keys p) \<le> 3 \<and> sorted_wrt (\<lambda>(_, b) (c, _). b + 1 < c) (plan_scopes p) \<and>
     (\<forall>k \<in> set (ep_external_keys p). normalize_official (ho_hostname ob) = Some (qk_hostname k)) \<and>
     (\<forall>y \<in> set competition_years.
        plan_direct p y = (direct_source allow ob \<and> year_in (ho_direct_year_mask ob) y \<and> \<not> year_in (official OR local) y) \<and>
        (plan_queries p y \<longrightarrow> \<not> year_in (official OR local) y \<and> \<not> plan_direct p y \<and> \<not> year_in covered y) \<and>
        (\<not> direct_source allow ob \<longrightarrow>
           plan_queries p y = (\<not> year_in (official OR local) y \<and> \<not> year_in covered y)))"
proof -
  let ?sup = "official OR local"
  let ?dm = "direct_mask_of ob ?sup allow"
  let ?em = "external_mask_of ob ?sup ?dm allow covered"
  note parts = plan_parts [OF p]
  note once = parts(1) and hosts = parts(2) and q = parts(3) and d = parts(4)
  have year: "plan_direct p y = (direct_source allow ob \<and> year_in (ho_direct_year_mask ob) y \<and> \<not> year_in ?sup y) \<and>
        (plan_queries p y \<longrightarrow> \<not> year_in ?sup y \<and> \<not> plan_direct p y \<and> \<not> year_in covered y) \<and>
        (\<not> direct_source allow ob \<longrightarrow> plan_queries p y = (\<not> year_in ?sup y \<and> \<not> year_in covered y))"
    if y: "y \<in> set competition_years" for y
  proof -
    let ?n = "nat (y - 1996)"
    have year: "plan_direct p y = (direct_source allow ob \<and> year_in (ho_direct_year_mask ob) y \<and> \<not> year_in ?sup y)"
      unfolding d [OF y] direct_bits direct_source_def year_in_def by blast
    moreover have "\<not> year_in ?sup y \<and> \<not> plan_direct p y \<and> \<not> year_in covered y" if "plan_queries p y"
      using that external_bits [of ob ?sup ?dm allow covered ?n] unfolding q [OF y] d [OF y] year_in_def by blast
    moreover have "plan_queries p y = (\<not> year_in ?sup y \<and> \<not> year_in covered y)" if no: "\<not> direct_source allow ob"
    proof -
      have "?dm = 0" using no unfolding direct_mask_of_def direct_source_def by auto
      moreover have "\<not> allow \<or> ho_scope ob = COMMON_CRAWL_CORPUS_EXCLUDED" using no unfolding direct_source_def by blast
      ultimately show ?thesis
        using external_all [OF _ all_years_bit [OF y], of allow ob ?sup covered] unfolding q [OF y] year_in_def by simp
    qed
    ultimately show ?thesis by blast
  qed
  have len: "length (ep_external_keys p) \<le> 3" and srt: "sorted_wrt (\<lambda>(_, b) (c, _). b + 1 < c) (plan_scopes p)"
    using once unfolding covers_once_def by (simp_all only: plan_scopes_def length_map)
  show ?thesis by (rule conjI [OF len conjI [OF srt conjI [OF hosts ballI]]]) (rule year)
qed

definition demo_observation :: host_observation where
  "demo_observation = \<lparr>ho_hostname = ''A.com'', ho_source_id = ''s'', ho_locator = ''l'', ho_scope = LOCAL_DISCOVERY,
     ho_source_year = None, ho_source_time = None, ho_record_type = [], ho_artifact_ref = [], ho_direct_year_mask = 0,
     ho_year_hint_mask = 0, ho_original_url = [], ho_evidence_type = [], ho_temporal_semantics = [],
     ho_evidence_contract_id = [], ho_evidence_contract_version = []\<rparr>"

lemma char_a: "char_of (97 :: nat) = CHR ''a''"
  by (simp add: char_of_def bit_0)

lemma demo_host: "normalize_official ''A.com'' = Some ''a.com''" "normalize_official ''a.com'' = Some ''a.com''"
  by (simp_all add: normalize_official_def py_strip_def py_lower_def py_lower_char_def py_space_def host_ok_def
      label_ok_def tld_ok_def alnum_def az_def digit_def Let_def char_a)

theorem plan_covers_once_witness:
  "\<exists>p. plan \<lparr>sha256 = (\<lambda>b. b), float_repr = (\<lambda>_. [])\<rparr> demo_observation 4 16 ''w'' ''v'' False 0 0 = Inr p \<and>
     plan_scopes p = [(1996, 1997), (1999, 1999), (2001, 2001)] \<and> \<not> plan_queries p 1998 \<and> plan_queries p 2001"
proof -
  let ?E = "\<lparr>sha256 = (\<lambda>b. b), float_repr = (\<lambda>_. [])\<rparr> :: codec"
  have nb: "\<not> blank ''w''" "\<not> blank ''v''" by (simp_all add: blank_iff py_space_def Let_def)
  have "\<exists>p. plan ?E demo_observation 4 16 ''w'' ''v'' False 0 0 = Inr p \<and>
     plan_scopes p = [(1996, 1997), (1999, 1999), (2001, 2001)]"
    by (simp add: plan_def demo_observation_def demo_host direct_mask_of_def external_mask_of_def years_of_def
        competition_years_def all_year_mask_def year_bit_def year_ranges_def temporal_scope_init_def query_key_init_def
        nb plan_scopes_def Let_def)
  then obtain p where p: "plan ?E demo_observation 4 16 ''w'' ''v'' False 0 0 = Inr p"
      "plan_scopes p = [(1996, 1997), (1999, 1999), (2001, 2001)]" by blast
  from plan_covers_once [OF p(1)] p show ?thesis
    by (auto simp: competition_years_def direct_source_def year_in_def)
qed

end
