(* ===== verification/Evidence_Queue.thy ===== *)
theory Evidence_Queue
  imports Actions Planner Tables "HOL-Library.AList"
begin

text \<open>
  The durable evidence queue of the control store: the tables of evidence work in
  \<open>storage/control_store.py\<close> with the operations that enqueue, claim and finish it, and the
  provider-filtered claims and renewals of \<open>storage/evidence_queue.py\<close>.

  An operation takes its arguments, the reading of the clock and the database, and returns an exception
  or the value with the database afterwards; a transaction that raises is rolled back, so an exception
  leaves the database as it was.  \<open>REAL\<close> columns hold exact rationals.
\<close>

section \<open>Schema\<close>

record etask =
  et_key :: query_key
  et_state :: query_state
  et_attempt :: int
  et_retry_at :: "time option"
  et_lease_owner :: "string option"
  et_lease_until :: "time option"
  et_eed_weight :: rat

record origin_row =
  og_key :: query_key
  og_source_key :: string
  og_reservoir_id :: string
  og_lease_id :: string
  og_first_observed_at :: time

record metric_row =
  mt_key :: query_key
  mt_attempt :: int
  mt_state :: query_state
  mt_task_kind :: action_kind
  mt_provider_requests :: int
  mt_elapsed_milliseconds :: int
  mt_pages_seen :: int
  mt_records_seen :: int
  mt_recorded_at :: time

record cost_row =
  cs_task_kind :: action_kind
  cs_attempts :: int
  cs_provider_requests :: int
  cs_elapsed_milliseconds :: int
  cs_pages_seen :: int
  cs_records_seen :: int
  cs_updated_at :: time

record reward_row =
  rw_task_kind :: action_kind
  rw_host_years :: int
  rw_eed :: rat
  rw_updated_at :: time

text \<open>
  Of the tables \<open>reservoirs\<close> and \<open>work_leases\<close> only the keys matter here: origins refer to them.
\<close>

record evidence_db =
  ed_tasks :: "etask list"
  ed_fanout :: "(query_key \<times> int) list"
  ed_origins :: "origin_row list"
  ed_metrics :: "metric_row list"
  ed_costs :: "cost_row list"
  ed_rewards :: "reward_row list"
  ed_authority :: "(string \<times> string \<times> time) option"
  ed_tld_weights :: "(string \<times> rat) list"
  ed_reservoir_ids :: "string list"
  ed_lease_ids :: "string list"

type_synonym 'a db_outcome = "py_error + ('a \<times> evidence_db)"

definition terminal_states :: "query_state list" where
  "terminal_states = [Q_PASS, Q_EMPTY_EXHAUSTIVE, Q_DECOMPOSED, Q_INVALID]"

definition retryable_states :: "query_state list" where
  "retryable_states = [Q_INCOMPLETE, Q_TRANSIENT_ERROR]"

definition claimable_states :: "query_state list" where
  "claimable_states = Q_PENDING # retryable_states"

definition year_from :: "query_key \<Rightarrow> int" where "year_from k = ts_from (qk_temporal_scope k)"

definition year_to :: "query_key \<Rightarrow> int" where "year_to k = ts_to (qk_temporal_scope k)"

section \<open>Weights\<close>

definition creeper_tld :: "string \<Rightarrow> string" where
  "creeper_tld hostname = (if CHR ''.'' \<in> set hostname then py_lower (last (split_dots hostname)) else [])"

definition tld_weight :: "(string \<times> rat) list \<Rightarrow> string \<Rightarrow> rat" where
  "tld_weight weights hostname = (case map_of weights (creeper_tld hostname) of None \<Rightarrow> 0 | Some w \<Rightarrow> w)"

definition normalize_weights :: "(string \<times> rat) list \<Rightarrow> (string \<times> rat) list" where
  "normalize_weights weights = fold (\<lambda>(raw, w) ws.
     let tld = dropWhile (\<lambda>c. c = CHR ''.'') (py_lower (py_strip raw)) in
     if tld \<noteq> [] \<and> 0 \<le> w then AList.update tld w ws else ws) weights []"

definition set_eed_tld_weights :: "(string \<times> rat) list \<Rightarrow> evidence_db \<Rightarrow> nat \<times> evidence_db" where
  "set_eed_tld_weights weights d =
     (let normalized = sort_key fst (normalize_weights weights)
      in (length (ed_tld_weights d) + length normalized + length (ed_tasks d),
          d\<lparr>ed_tld_weights := normalized,
            ed_tasks := tbl_update (\<lambda>_. True)
              (\<lambda>r. r\<lparr>et_eed_weight := tld_weight normalized (qk_hostname (et_key r))\<rparr>) (ed_tasks d)\<rparr>))"

section \<open>Enqueueing\<close>

text \<open>The insertion of a pending task with the trigger that sets its weight.\<close>

definition insert_task :: "query_key \<Rightarrow> evidence_db \<Rightarrow> evidence_db" where
  "insert_task k d = d\<lparr>ed_tasks := tbl_insert_or_ignore et_key
     \<lparr>et_key = k, et_state = Q_PENDING, et_attempt = 0, et_retry_at = None, et_lease_owner = None,
      et_lease_until = None, et_eed_weight = tld_weight (ed_tld_weights d) (qk_hostname k)\<rparr> (ed_tasks d)\<rparr>"

definition has_task :: "query_key \<Rightarrow> evidence_db \<Rightarrow> bool" where
  "has_task k d = (k \<in> set (List.map et_key (ed_tasks d)))"

definition needs_fanout :: "query_key \<Rightarrow> bool" where
  "needs_fanout k = (year_from k < year_to k \<and> \<not> starts_with (qk_policy_version k) ''cdx-domain-'' \<and>
     qk_provider k \<noteq> ''rdap'')"

definition reserve_fanout :: "query_key \<Rightarrow> evidence_db \<Rightarrow> evidence_db" where
  "reserve_fanout k d =
     (case tbl_find (\<lambda>r. et_key r = k \<and> et_state r \<in> set claimable_states) (ed_tasks d) of
        None \<Rightarrow> d
      | Some r \<Rightarrow> d\<lparr>ed_fanout := tbl_insert_or_ignore fst (k, year_to k - year_from k) (ed_fanout d)\<rparr>)"

definition enqueue_evidence_tasks :: "query_key list \<Rightarrow> evidence_db \<Rightarrow> nat \<times> evidence_db" where
  "enqueue_evidence_tasks keys d =
     (let key_list = dedup keys;
          d' = fold insert_task key_list d
      in (length (ed_tasks d') - length (ed_tasks d), fold reserve_fanout (filter needs_fanout key_list) d'))"

section \<open>Origins and cost\<close>

definition origin_key :: "origin_row \<Rightarrow> query_key \<times> string \<times> string \<times> string" where
  "origin_key o1 = (og_key o1, og_source_key o1, og_reservoir_id o1, og_lease_id o1)"

text \<open>\<open>INSERT OR IGNORE\<close> ignores a repeated key, and a missing parent row raises.\<close>

definition insert_origin :: "evidence_db \<Rightarrow> origin_row \<Rightarrow> py_error + evidence_db" where
  "insert_origin d o1 =
     (if origin_key o1 \<in> set (List.map origin_key (ed_origins d)) then Inr d
      else check (has_task (og_key o1) d \<and> og_reservoir_id o1 \<in> set (ed_reservoir_ids d) \<and>
                  og_lease_id o1 \<in> set (ed_lease_ids d)) IntegrityError
        (Inr (d\<lparr>ed_origins := ed_origins d @ [o1]\<rparr>)))"

definition record_task_origins ::
  "query_key list \<Rightarrow> string \<Rightarrow> string \<Rightarrow> string \<Rightarrow> time \<Rightarrow> evidence_db \<Rightarrow> nat db_outcome" where
  "record_task_origins keys source_key reservoir_id lease_id when d =
     check (\<not> blank source_key \<and> \<not> blank reservoir_id \<and> \<not> blank lease_id) ValueError (
     bindr (fold_result insert_origin (List.map (\<lambda>k. \<lparr>og_key = k, og_source_key = source_key,
              og_reservoir_id = reservoir_id, og_lease_id = lease_id, og_first_observed_at = when\<rparr>) (dedup keys)) d)
       (\<lambda>d'. Inr (length (ed_origins d') - length (ed_origins d), d')))"

definition origin_order :: "origin_row \<Rightarrow> rat \<times> string \<times> string \<times> string" where
  "origin_order o1 = (og_first_observed_at o1, og_source_key o1, og_reservoir_id o1, og_lease_id o1)"

definition primary_task_origin :: "query_key \<Rightarrow> evidence_db \<Rightarrow> (string \<times> string \<times> string) option" where
  "primary_task_origin k d =
     (case tbl_order_by origin_order (filter (\<lambda>o1. og_key o1 = k) (ed_origins d)) of
        [] \<Rightarrow> None
      | o1 # _ \<Rightarrow> Some (og_source_key o1, og_reservoir_id o1, og_lease_id o1))"

definition add_cost :: "metric_row \<Rightarrow> cost_row \<Rightarrow> cost_row" where
  "add_cost m c = c\<lparr>cs_attempts := cs_attempts c + 1,
     cs_provider_requests := cs_provider_requests c + mt_provider_requests m,
     cs_elapsed_milliseconds := cs_elapsed_milliseconds c + mt_elapsed_milliseconds m,
     cs_pages_seen := cs_pages_seen c + mt_pages_seen m,
     cs_records_seen := cs_records_seen c + mt_records_seen m, cs_updated_at := mt_recorded_at m\<rparr>"

definition record_attempt_metric :: "metric_row \<Rightarrow> evidence_db \<Rightarrow> bool db_outcome" where
  "record_attempt_metric m0 d =
     check (1 \<le> mt_attempt m0) ValueError (
     check (list_all (\<lambda>n. 0 \<le> n) [mt_provider_requests m0, mt_elapsed_milliseconds m0, mt_pages_seen m0,
              mt_records_seen m0]) ValueError (
     let m = m0\<lparr>mt_task_kind := classify (mt_key m0)\<rparr> in
     if (mt_key m, mt_attempt m) \<in> set (List.map (\<lambda>r. (mt_key r, mt_attempt r)) (ed_metrics d)) then Inr (False, d)
     else check (has_task (mt_key m) d) IntegrityError (
       Inr (True, d\<lparr>ed_metrics := ed_metrics d @ [m],
         ed_costs := tbl_upsert cs_task_kind (add_cost m)
           \<lparr>cs_task_kind = mt_task_kind m, cs_attempts = 1, cs_provider_requests = mt_provider_requests m,
            cs_elapsed_milliseconds = mt_elapsed_milliseconds m, cs_pages_seen = mt_pages_seen m,
            cs_records_seen = mt_records_seen m, cs_updated_at = mt_recorded_at m\<rparr> (ed_costs d)\<rparr>))))"

section \<open>Final rewards\<close>

fun kind_named :: "string \<Rightarrow> action_kind option" where
  "kind_named s = (if s = ''exact'' then Some EXACT else if s = ''range'' then Some RANGE
     else if s = ''domain'' then Some DOMAIN else if s = ''rdap'' then Some RDAP else None)"

definition invalidate_rewards :: "evidence_db \<Rightarrow> evidence_db" where
  "invalidate_rewards d = d\<lparr>ed_rewards := [], ed_authority := None\<rparr>"

definition reward_rows :: "(string \<times> int \<times> rat) list \<Rightarrow> time \<Rightarrow> reward_row list" where
  "reward_rows attribution now = List.map_filter (\<lambda>(raw, host_years, eed). map_option
     (\<lambda>k. \<lparr>rw_task_kind = k, rw_host_years = host_years, rw_eed = eed, rw_updated_at = now\<rparr>) (kind_named raw)) attribution"

definition publish_rewards ::
  "(string \<times> int \<times> rat) list \<Rightarrow> string \<Rightarrow> string \<Rightarrow> time \<Rightarrow> evidence_db \<Rightarrow> bool db_outcome" where
  "publish_rewards attribution baseline model now d =
     check (baseline \<noteq> [] \<and> model \<noteq> []) ValueError (
     let rows = reward_rows attribution now in
     check (list_all (\<lambda>r. 0 \<le> rw_host_years r \<and> 0 \<le> rw_eed r) rows) ValueError (
     let changed = (case ed_authority d of None \<Rightarrow> True | Some (b, m, _) \<Rightarrow> b \<noteq> baseline \<or> m \<noteq> model);
         kept = (if changed then [] else ed_rewards d)
     in Inr (changed, d\<lparr>ed_authority := Some (baseline, model, now),
          ed_rewards := fold (\<lambda>r. tbl_upsert rw_task_kind (\<lambda>_. r) r) rows kept\<rparr>)))"

definition reward_authoritative :: "evidence_db \<Rightarrow> bool" where
  "reward_authoritative d = (ed_authority d \<noteq> None)"

definition cost_of :: "action_kind \<Rightarrow> evidence_db \<Rightarrow> cost_row option" where
  "cost_of k d = tbl_find (\<lambda>c. cs_task_kind c = k) (ed_costs d)"

definition reward_of :: "action_kind \<Rightarrow> evidence_db \<Rightarrow> reward_row option" where
  "reward_of k d = tbl_find (\<lambda>r. rw_task_kind r = k) (ed_rewards d)"

definition opt_field :: "('r \<Rightarrow> 'a) \<Rightarrow> 'a \<Rightarrow> 'r option \<Rightarrow> 'a" where
  "opt_field f d x = (case x of None \<Rightarrow> d | Some r \<Rightarrow> f r)"

definition action_value :: "action_kind \<Rightarrow> evidence_db \<Rightarrow> py_error + action_stats" where
  "action_value k d =
     (let cost = cost_of k d; reward = reward_of k d;
          attempts = opt_field cs_attempts 0 cost; requests = opt_field cs_provider_requests 0 cost;
          host_years = opt_field rw_host_years 0 reward; final_eed = opt_field rw_eed 0 reward;
          effective = max requests attempts
      in bindr (posterior_yield k host_years requests attempts prior_strength) (\<lambda>posterior.
         action_stats_init \<lparr>as_action_kind = k, as_attempts = attempts, as_provider_requests = requests,
           as_provider_elapsed_milliseconds = opt_field cs_elapsed_milliseconds 0 cost,
           as_final_novel_host_years = host_years, as_final_novel_eed = final_eed, as_posterior = posterior,
           as_final_eed_per_request = (if 0 < effective then final_eed / of_int effective else 0)\<rparr>))"

definition action_value_summary :: "evidence_db \<Rightarrow> py_error + action_stats list" where
  "action_value_summary d = collect (List.map (\<lambda>k. action_value k d) [EXACT, RANGE, DOMAIN, RDAP])"

definition recommended_range_first_fraction :: "rat \<Rightarrow> evidence_db \<Rightarrow> py_error + rat" where
  "recommended_range_first_fraction base d =
     (if ed_authority d = None then Inr base
      else bindr (action_value_summary d) (\<lambda>stats.
        let exact = stats ! 0; ranged = stats ! 1;
            requests = max (as_provider_requests exact) (as_attempts exact) +
              max (as_provider_requests ranged) (as_attempts ranged)
        in adaptive_range_first_fraction base (as_posterior exact) (as_posterior ranged) requests True))"

section \<open>Claims\<close>

text \<open>The claims classify with \<open>LIKE 'cdx-domain-%'\<close>, which ignores the case of A-Z.\<close>

definition ascii_lower :: "char \<Rightarrow> char" where
  "ascii_lower c = (let n = (of_char c :: nat) in if 65 \<le> n \<and> n \<le> 90 then char_of (n + 32) else c)"

definition like_domain :: "string \<Rightarrow> bool" where
  "like_domain policy = starts_with (List.map ascii_lower policy) ''cdx-domain-''"

definition sql_kind :: "query_key \<Rightarrow> action_kind" where
  "sql_kind k = (if like_domain (qk_policy_version k) then DOMAIN else if qk_provider k = ''rdap'' then RDAP
     else if year_from k < year_to k then RANGE else EXACT)"

definition if_authority :: "evidence_db \<Rightarrow> int \<Rightarrow> int" where
  "if_authority d n = (if ed_authority d = None then 0 else n)"

definition sql_value :: "evidence_db \<Rightarrow> etask \<Rightarrow> rat" where
  "sql_value d r = (let k = sql_kind (et_key r) in
     et_eed_weight r * (of_int (if_authority d (opt_field rw_host_years 0 (reward_of k d))) + prior_strength * prior_yield k)
     / (of_int (max (if_authority d (opt_field cs_provider_requests 0 (cost_of k d)))
                    (if_authority d (opt_field cs_attempts 0 (cost_of k d)))) + prior_strength)
     / (1 + retry_penalty * of_int (et_attempt r)))"

fun kind_rank :: "action_kind \<Rightarrow> int" where
  "kind_rank DOMAIN = 3" | "kind_rank RDAP = 2" | "kind_rank RANGE = 1" | "kind_rank EXACT = 0"

definition claim_key :: "evidence_db \<Rightarrow> etask \<Rightarrow> rat \<times> int \<times> rat \<times> int \<times> int \<times> string \<times> int \<times> string \<times> string" where
  "claim_key d r = (let k = et_key r in
     (- sql_value d r, - kind_rank (sql_kind k), - et_eed_weight r, - (year_to k - year_from k), year_from k,
      qk_hostname k, year_to k, qk_provider k, qk_policy_version k))"

definition task_claimable :: "time \<Rightarrow> etask \<Rightarrow> bool" where
  "task_claimable now r = (et_state r \<in> set claimable_states \<and>
     (case et_lease_until r of None \<Rightarrow> True | Some u \<Rightarrow> u \<le> now) \<and>
     (case et_retry_at r of None \<Rightarrow> True | Some t \<Rightarrow> t \<le> now))"

definition row_key :: "etask \<Rightarrow> py_error + query_key" where
  "row_key r = bindr (temporal_scope_init (PyInt (year_from (et_key r))) (PyInt (year_to (et_key r)))) (\<lambda>scope.
     query_key_init ((et_key r)\<lparr>qk_temporal_scope := scope\<rparr>))"

record evidence_task =
  tk_key :: query_key
  tk_state :: query_state
  tk_attempt :: int
  tk_retry_at :: "time option"
  tk_lease_owner :: "string option"
  tk_lease_until :: "time option"

definition task_of :: "string \<Rightarrow> time \<Rightarrow> etask \<Rightarrow> query_key \<Rightarrow> evidence_task" where
  "task_of owner until r k = \<lparr>tk_key = k, tk_state = et_state r, tk_attempt = et_attempt r + 1,
     tk_retry_at = et_retry_at r, tk_lease_owner = Some owner, tk_lease_until = Some until\<rparr>"

definition lease_to :: "string \<Rightarrow> time \<Rightarrow> etask \<Rightarrow> etask" where
  "lease_to owner until r = r\<lparr>et_lease_owner := Some owner, et_lease_until := Some until, et_attempt := et_attempt r + 1\<rparr>"

definition unleased :: "time \<Rightarrow> etask \<Rightarrow> bool" where
  "unleased now r = (case et_lease_until r of None \<Rightarrow> True | Some u \<Rightarrow> u \<le> now)"

definition claim_rows :: "(etask \<Rightarrow> bool) \<Rightarrow> int \<Rightarrow> time \<Rightarrow> evidence_db \<Rightarrow> etask list" where
  "claim_rows also limit now d =
     take (nat limit) (tbl_order_by (claim_key d) (filter (\<lambda>r. task_claimable now r \<and> also r) (ed_tasks d)))"

definition lease_rows ::
  "(etask \<Rightarrow> bool) \<Rightarrow> string \<Rightarrow> time \<Rightarrow> query_key list \<Rightarrow> evidence_db \<Rightarrow> evidence_db" where
  "lease_rows guard owner until keys d = d\<lparr>ed_tasks := fold (\<lambda>k. tbl_update (\<lambda>r. et_key r = k \<and> guard r)
     (lease_to owner until)) keys (ed_tasks d)\<rparr>"

definition queue_claim ::
  "string \<Rightarrow> int \<Rightarrow> string list \<Rightarrow> rat \<Rightarrow> time \<Rightarrow> evidence_db \<Rightarrow> evidence_task list db_outcome" where
  "queue_claim owner limit providers lease_seconds now d =
     check (\<not> blank owner) ValueError (
     if limit < 1 then Inr ([], d)
     else check (0 < lease_seconds) ValueError (
       let provider_list = dedup (filter (\<lambda>p. p \<noteq> []) providers) in
       if provider_list = [] then Inr ([], d)
       else check (0 \<le> now) ValueError (
         let until = now + lease_seconds;
             rows = claim_rows (\<lambda>r. qk_provider (et_key r) \<in> set provider_list) limit now d
         in bindr (collect (List.map row_key rows)) (\<lambda>keys.
            Inr (List.map2 (task_of owner until) rows keys, lease_rows (unleased now) owner until keys d)))))"

definition store_claim ::
  "string \<Rightarrow> int \<Rightarrow> rat \<Rightarrow> query_key list option \<Rightarrow> time \<Rightarrow> evidence_db \<Rightarrow> evidence_task list db_outcome" where
  "store_claim owner limit lease_seconds keys now d =
     check (\<not> blank owner) ValueError (
     if limit < 1 then Inr ([], d)
     else check (0 \<le> lease_seconds) ValueError (
       check (0 \<le> now) ValueError (
       if keys = Some [] then Inr ([], d)
       else let until = now + lease_seconds;
                rows = claim_rows (\<lambda>r. case keys of None \<Rightarrow> True | Some ks \<Rightarrow> et_key r \<in> set ks) limit now d
            in bindr (collect (List.map row_key rows)) (\<lambda>ks.
               Inr (List.map2 (task_of owner until) rows ks, lease_rows (\<lambda>_. True) owner until ks d)))))"

definition queue_renew :: "query_key list \<Rightarrow> string \<Rightarrow> rat \<Rightarrow> time \<Rightarrow> evidence_db \<Rightarrow> nat db_outcome" where
  "queue_renew keys owner lease_seconds now d =
     check (\<not> blank owner) ValueError (
     check (0 < lease_seconds) ValueError (
     if keys = [] then Inr (0, d)
     else check (0 \<le> now) ValueError (
       let until = now + lease_seconds;
           mine = (\<lambda>k r. et_key r = k \<and> et_lease_owner r = Some owner)
       in Inr (sum_list (List.map (\<lambda>k. tbl_count (mine k) (ed_tasks d)) (dedup keys)),
               d\<lparr>ed_tasks := fold (\<lambda>k. tbl_update (mine k) (\<lambda>r. r\<lparr>et_lease_until := Some until\<rparr>)) (dedup keys) (ed_tasks d)\<rparr>))))"

section \<open>Finishing\<close>

definition held_by :: "string \<Rightarrow> time \<Rightarrow> etask \<Rightarrow> bool" where
  "held_by owner now r = (et_lease_owner r = Some owner \<and>
     (case et_lease_until r of None \<Rightarrow> False | Some u \<Rightarrow> now < u))"

definition settle :: "query_state \<Rightarrow> time option \<Rightarrow> etask \<Rightarrow> etask" where
  "settle state retry_at r = r\<lparr>et_state := state, et_retry_at := retry_at, et_lease_owner := None, et_lease_until := None\<rparr>"

definition drop_fanout :: "query_key \<Rightarrow> evidence_db \<Rightarrow> evidence_db" where
  "drop_fanout k d = d\<lparr>ed_fanout := tbl_delete (\<lambda>(k', _). k' = k) (ed_fanout d)\<rparr>"

definition followup_ok :: "query_key \<Rightarrow> query_key \<Rightarrow> bool" where
  "followup_ok k f = (year_from f = year_to f \<and> qk_hostname f = qk_hostname k \<and> qk_provider f = qk_provider k \<and>
     qk_policy_version f = qk_policy_version k \<and> year_from k \<le> year_from f \<and> year_from f \<le> year_to k)"

definition copy_origins :: "query_key \<Rightarrow> evidence_db \<Rightarrow> query_key \<Rightarrow> py_error + evidence_db" where
  "copy_origins k d f = fold_result insert_origin
     (List.map (\<lambda>o1. o1\<lparr>og_key := f\<rparr>) (filter (\<lambda>o1. og_key o1 = k) (ed_origins d))) d"

definition finish_range_task ::
  "query_key \<Rightarrow> query_state \<Rightarrow> query_key list \<Rightarrow> string \<Rightarrow> time \<Rightarrow> evidence_db \<Rightarrow> nat db_outcome" where
  "finish_range_task k state followups owner now d =
     check (owner \<noteq> [] \<and> year_from k \<noteq> year_to k \<and> state \<in> set terminal_states) ValueError (
     check (list_all (followup_ok k) followups) ValueError (
     check (\<not> blank owner \<and> 0 \<le> now) ValueError (
     let mine = (\<lambda>r. et_key r = k \<and> held_by owner now r) in
     (case tbl_find mine (ed_tasks d) of
        None \<Rightarrow> Inl KeyError
      | Some _ \<Rightarrow>
          (let d1 = d\<lparr>ed_tasks := tbl_update mine (settle state None) (ed_tasks d)\<rparr>;
               d2 = fold insert_task followups d1;
               created = length (ed_tasks d2) - length (ed_tasks d1)
           in bindr (fold_result (copy_origins k) followups (drop_fanout k d2)) (\<lambda>d3. Inr (created, d3)))))))"

text \<open>
  Of an exact result only the key and the state enter the queue; \<open>results\<close> lists those of the results
  with a key.  Without an owner the ownership conditions are absent.
\<close>

definition may_finish :: "string option \<Rightarrow> time \<Rightarrow> etask \<Rightarrow> bool" where
  "may_finish owner now r = (case owner of None \<Rightarrow> True | Some w \<Rightarrow> held_by w now r)"

definition finish_results ::
  "(query_key \<times> query_state) list \<Rightarrow> string option \<Rightarrow> time option \<Rightarrow> time \<Rightarrow> evidence_db \<Rightarrow> nat db_outcome" where
  "finish_results results owner retry_at now d =
     (if results = [] then Inr (0, d)
      else check (case retry_at of None \<Rightarrow> True | Some t \<Rightarrow> 0 \<le> t) ValueError (
        check (case owner of None \<Rightarrow> True | Some w \<Rightarrow> \<not> blank w \<and> 0 \<le> now) ValueError (
        check (distinct (List.map fst results) \<and>
               list_all (\<lambda>(_, st). st \<in> set (terminal_states @ retryable_states)) results) ValueError (
        check (list_all (\<lambda>(k, _). tbl_find (\<lambda>r. et_key r = k \<and> may_finish owner now r) (ed_tasks d) \<noteq> None) results) KeyError (
        Inr (length results,
          fold (\<lambda>(k, _). drop_fanout k) results
            (d\<lparr>ed_tasks := fold (\<lambda>(k, st). tbl_update (\<lambda>r. et_key r = k \<and> may_finish owner now r) (settle st retry_at))
               results (ed_tasks d)\<rparr>)))))))"

definition keyed_results :: "query_result list \<Rightarrow> (query_key \<times> query_state) list" where
  "keyed_results rs = List.map_filter (\<lambda>r. map_option (\<lambda>k. (k, er_state r)) (er_key r)) rs"

definition finish_evidence_tasks :: "query_result list \<Rightarrow> string \<Rightarrow> time \<Rightarrow> evidence_db \<Rightarrow> nat db_outcome" where
  "finish_evidence_tasks rs owner now d =
     check (owner \<noteq> []) ValueError (finish_results (keyed_results rs) (Some owner) None now d)"

definition finish_evidence_task ::
  "query_key \<Rightarrow> query_state \<Rightarrow> string option \<Rightarrow> time option \<Rightarrow> time \<Rightarrow> evidence_db \<Rightarrow> nat db_outcome" where
  "finish_evidence_task k state owner retry_at now d =
     bindr (query_result_init \<lparr>er_hostname = qk_hostname k, er_year = year_from k, er_state = state, er_capsule = None,
         er_pages_seen = 0, er_records_seen = 0, er_provider_requests = 0, er_provider_elapsed_milliseconds = 0,
         er_error = None, er_key = Some k\<rparr>)
       (\<lambda>r. finish_results (keyed_results [r]) owner retry_at now d)"

section \<open>Reading\<close>

definition row_task :: "etask \<Rightarrow> evidence_task" where
  "row_task r = \<lparr>tk_key = et_key r, tk_state = et_state r, tk_attempt = et_attempt r, tk_retry_at = et_retry_at r,
     tk_lease_owner = et_lease_owner r, tk_lease_until = et_lease_until r\<rparr>"

definition get_evidence_task :: "query_key \<Rightarrow> evidence_db \<Rightarrow> evidence_task option" where
  "get_evidence_task k d = map_option row_task (tbl_find (\<lambda>r. et_key r = k) (ed_tasks d))"

definition list_evidence_tasks :: "evidence_db \<Rightarrow> evidence_task list" where
  "list_evidence_tasks d = List.map row_task (tbl_order_by (\<lambda>r. (qk_hostname (et_key r), year_from (et_key r),
     qk_provider (et_key r), qk_policy_version (et_key r))) (ed_tasks d))"

definition scope_mask :: "int \<Rightarrow> int \<Rightarrow> int" where
  "scope_mask a b = fold (\<lambda>y m. if y \<in> set competition_years then m OR year_bit y else m) [a..b] 0"

definition covers_scope :: "string \<Rightarrow> string \<Rightarrow> string \<Rightarrow> etask \<Rightarrow> bool" where
  "covers_scope hostname provider policy r = (qk_hostname (et_key r) = hostname \<and> qk_provider (et_key r) = provider \<and>
     qk_policy_version (et_key r) = policy \<and> et_state r \<in> {Q_PASS, Q_EMPTY_EXHAUSTIVE})"

definition resolve_coverage_masks ::
  "string list \<Rightarrow> string \<Rightarrow> string \<Rightarrow> int \<Rightarrow> evidence_db \<Rightarrow> py_error + (string \<times> int) list" where
  "resolve_coverage_masks hostnames provider policy chunk_size d =
     check (provider \<noteq> [] \<and> policy \<noteq> []) ValueError (
     check (1 \<le> chunk_size) ValueError (
     Inr (List.map (\<lambda>h. (h, fold (\<lambda>r m. m OR scope_mask (year_from (et_key r)) (year_to (et_key r)))
       (filter (covers_scope h provider policy) (ed_tasks d)) 0)) (dedup (filter (\<lambda>h. h \<noteq> []) hostnames)))))"

end
