(* ===== verification/Visibility.thy ===== *)
theory Visibility
  imports Prelude
begin

text \<open>
  The abstract specification of a queue with visibility leases: a map from keys to tickets, a ticket
  being the state of its task and the lease on it, and the changes an actor may make to a ticket at a
  time: take it up when it is free or its lease is over, extend or settle the lease held, clear a lease
  whose deadline passed, retire a free ticket.  The locale \<open>visibility\<close> is the contract of an implementation, a state machine whose steps are
  steps of the specification under an abstraction; what a lease excludes is proved once for all of them.
\<close>

section \<open>Specification\<close>

datatype actor = Worker string | Admin | Override

record 'st ticket =
  tt_state :: 'st
  tt_lease :: "(string \<times> time) option"

inductive spec_row :: "('st \<Rightarrow> bool) \<Rightarrow> actor \<Rightarrow> time \<Rightarrow> 'st ticket \<Rightarrow> 'st ticket \<Rightarrow> bool"
  for final :: "'st \<Rightarrow> bool" where
  keep: "spec_row final a now t t"
| take_up: "\<not> final (tt_state t) \<Longrightarrow> (\<And>w' u'. tt_lease t = Some (w', u') \<Longrightarrow> u' \<le> now) \<Longrightarrow> \<not> final st \<Longrightarrow>
    spec_row final (Worker w) now t \<lparr>tt_state = st, tt_lease = Some (w, u)\<rparr>"
| extend: "tt_lease t = Some (w, u) \<Longrightarrow> spec_row final (Worker w) now t (t\<lparr>tt_lease := Some (w, u')\<rparr>)"
| settle: "tt_lease t = Some (w, u) \<Longrightarrow> now < u \<Longrightarrow> spec_row final (Worker w) now t \<lparr>tt_state = st, tt_lease = None\<rparr>"
| lapse: "tt_lease t = Some (w, u) \<Longrightarrow> u \<le> now \<Longrightarrow> spec_row final a now t \<lparr>tt_state = st, tt_lease = None\<rparr>"
| retire: "\<not> final (tt_state t) \<Longrightarrow> tt_lease t = None \<Longrightarrow> spec_row final Admin now t (t\<lparr>tt_state := st\<rparr>)"
| force: "spec_row final Override now t \<lparr>tt_state = st, tt_lease = None\<rparr>"

definition spec_step ::
  "('st \<Rightarrow> bool) \<Rightarrow> actor \<Rightarrow> time \<Rightarrow> ('k \<Rightarrow> 'st ticket option) \<Rightarrow> ('k \<Rightarrow> 'st ticket option) \<Rightarrow> bool" where
  "spec_step final a now q q' \<longleftrightarrow>
     (\<forall>k. case q k of
        None \<Rightarrow> (\<forall>t. q' k = Some t \<longrightarrow> \<not> final (tt_state t) \<and> tt_lease t = None)
      | Some t \<Rightarrow> \<exists>t'. q' k = Some t' \<and> spec_row final a now t t')"

definition spec_inv :: "('st \<Rightarrow> bool) \<Rightarrow> ('k \<Rightarrow> 'st ticket option) \<Rightarrow> bool" where
  "spec_inv final q \<longleftrightarrow> (\<forall>k t. q k = Some t \<longrightarrow> tt_lease t \<noteq> None \<longrightarrow> \<not> final (tt_state t))"

inductive run :: "(actor \<Rightarrow> time \<Rightarrow> 's \<Rightarrow> 's \<Rightarrow> bool) \<Rightarrow> (actor \<times> time) list \<Rightarrow> 's \<Rightarrow> 's \<Rightarrow> bool"
  for step :: "actor \<Rightarrow> time \<Rightarrow> 's \<Rightarrow> 's \<Rightarrow> bool" where
  stop: "run step [] s s"
| go: "step a now s t \<Longrightarrow> run step as t u \<Longrightarrow> run step ((a, now) # as) s u"

inductive_cases run_NilE: "run step [] s u"
inductive_cases run_ConsE: "run step (x # as) s u"

section \<open>What a ticket can become\<close>

lemma spec_row_inv:
  "spec_row final a now t t' \<Longrightarrow> (tt_lease t \<noteq> None \<Longrightarrow> \<not> final (tt_state t)) \<Longrightarrow> tt_lease t' \<noteq> None \<Longrightarrow> \<not> final (tt_state t')"
  by (induction rule: spec_row.induct) auto

lemma spec_step_new: "spec_step final a now q q' \<Longrightarrow> q k = None \<Longrightarrow> q' k = Some t \<Longrightarrow> \<not> final (tt_state t) \<and> tt_lease t = None"
  unfolding spec_step_def by (drule spec [of _ k]) simp

lemma spec_step_old: "spec_step final a now q q' \<Longrightarrow> q k = Some t \<Longrightarrow> \<exists>t'. q' k = Some t' \<and> spec_row final a now t t'"
  unfolding spec_step_def by (drule spec [of _ k]) simp

lemma spec_step_inv:
  assumes st: "spec_step final a now q q'" and inv: "spec_inv final q"
  shows "spec_inv final q'"
  unfolding spec_inv_def
proof (intro allI impI)
  fix k t' assume t': "q' k = Some t'" "tt_lease t' \<noteq> None"
  show "\<not> final (tt_state t')"
  proof (cases "q k")
    case None
    with spec_step_new [OF st None t'(1)] show ?thesis by simp
  next
    case (Some t)
    then show ?thesis using spec_step_old [OF st Some] spec_row_inv [of final a now t t'] t' inv
      by (metis option.inject spec_inv_def)
  qed
qed

text \<open>Before its deadline a lease is only touched by its holder or by an override.\<close>

lemma live_row_kept:
  assumes "spec_row final a now t t'" "tt_lease t = Some (w, u)" "now < u" "a \<noteq> Worker w" "a \<noteq> Override"
  shows "t' = t"
  using assms by (induction rule: spec_row.induct) auto

lemma final_row_kept:
  assumes "spec_row final a now t t'" "final (tt_state t)" "tt_lease t = None" "a \<noteq> Override"
  shows "t' = t"
  using assms by (induction rule: spec_row.induct) auto

section \<open>The contract\<close>

locale visibility =
  fixes init :: "'s \<Rightarrow> bool"
    and step :: "actor \<Rightarrow> time \<Rightarrow> 's \<Rightarrow> 's \<Rightarrow> bool"
    and inv :: "'s \<Rightarrow> bool"
    and final :: "'st \<Rightarrow> bool"
    and abs :: "'s \<Rightarrow> 'k \<Rightarrow> 'st ticket option"
  assumes start: "init s \<Longrightarrow> inv s"
    and preserve: "inv s \<Longrightarrow> step a now s t \<Longrightarrow> inv t"
    and leases: "inv s \<Longrightarrow> spec_inv final (abs s)"
    and refines: "inv s \<Longrightarrow> step a now s t \<Longrightarrow> spec_step final a now (abs s) (abs t)"
begin

sublocale machine init "\<lambda>s t. \<exists>a now. step a now s t" inv
  by unfold_locales (auto intro: start preserve)

lemma row_step: "inv s \<Longrightarrow> step a now s t \<Longrightarrow> abs s k = Some r \<Longrightarrow> \<exists>r'. abs t k = Some r' \<and> spec_row final a now r r'"
  using refines spec_step_old by metis

lemma run_inv: "run step as s t \<Longrightarrow> inv s \<Longrightarrow> inv t"
  by (induction rule: run.induct) (auto intro: preserve)

lemma run_kept:
  assumes r: "run step as s t" and inv: "inv s" and k: "abs s k = Some r"
    and ok: "\<And>a now s' t'. (a, now) \<in> set as \<Longrightarrow> inv s' \<Longrightarrow> step a now s' t' \<Longrightarrow> abs s' k = Some r \<Longrightarrow> abs t' k = Some r"
  shows "abs t k = Some r"
  using r inv k ok
proof (induction rule: run.induct)
  case (go a now s t as u)
  have "abs t k = Some r" using go.prems(3) [of a now s t] go.hyps(1) go.prems(1,2) by simp
  then show ?case using go.IH go.prems(3) preserve [OF go.prems(1) go.hyps(1)] by (meson list.set_intros(2))
qed

lemma lease_excludes:
  assumes "run step as s t" "inv s" "abs s k = Some r" "tt_lease r = Some (w, u)"
    and others: "\<And>a now. (a, now) \<in> set as \<Longrightarrow> now < u \<and> a \<noteq> Worker w \<and> a \<noteq> Override"
  shows "abs t k = Some r"
proof (rule run_kept [OF assms(1-3)])
  fix a now s' t' assume a: "(a, now) \<in> set as" "inv s'" "step a now s' t'" "abs s' k = Some r"
  from row_step [OF a(2-4)] obtain r' where "abs t' k = Some r'" "spec_row final a now r r'" by blast
  with live_row_kept [of final a now r r' w u] others [OF a(1)] assms(4) show "abs t' k = Some r" by simp
qed

lemma final_stays:
  assumes "run step as s t" "inv s" "abs s k = Some r" "final (tt_state r)"
    and others: "\<And>a now. (a, now) \<in> set as \<Longrightarrow> a \<noteq> Override"
  shows "abs t k = Some r"
proof (rule run_kept [OF assms(1-3)])
  have free: "tt_lease r = None" using leases [OF assms(2)] assms(3,4) unfolding spec_inv_def by metis
  fix a now s' t' assume a: "(a, now) \<in> set as" "inv s'" "step a now s' t'" "abs s' k = Some r"
  from row_step [OF a(2-4)] obtain r' where "abs t' k = Some r'" "spec_row final a now r r'" by blast
  with final_row_kept [of final a now r r'] others [OF a(1)] assms(4) free show "abs t' k = Some r" by simp
qed

end

end
