(* ===== verification/Evidence_Queue_Invariant.thy ===== *)
theory Evidence_Queue_Invariant
  imports Evidence_Queue Visibility
begin

text \<open>
  Histories of the evidence queue: its operations as steps of an actor at a time, what each does to the
  rows, the invariant of the tables, and the interpretation of \<open>visibility\<close> that makes the tables a
  refinement of the abstract queue of tickets.
\<close>

section \<open>Rows\<close>

lemma has_task_iff: "has_task k d \<longleftrightarrow> (\<exists>r \<in> set (ed_tasks d). et_key r = k)"
  by (auto simp: has_task_def)

interpretation etask: keyed_table et_key "\<lambda>f. \<forall>r. et_key (f r) = et_key r"
  by unfold_locales simp

interpretation cost: keyed_table cs_task_kind "\<lambda>f. \<forall>r. cs_task_kind (f r) = cs_task_kind r"
  by unfold_locales simp

interpretation reward: keyed_table rw_task_kind "\<lambda>f. \<forall>r. rw_task_kind (f r) = rw_task_kind r"
  by unfold_locales simp

text \<open>The keys the constructors build.\<close>

definition valid_key :: "query_key \<Rightarrow> bool" where
  "valid_key k \<longleftrightarrow> normalize_official (qk_hostname k) = Some (qk_hostname k) \<and> 1996 \<le> year_from k \<and>
     year_from k \<le> year_to k \<and> year_to k \<le> 2001 \<and> \<not> blank (qk_provider k) \<and> \<not> blank (qk_policy_version k)"

lemma constructed_key: "query_key_init k = Inr k' \<Longrightarrow> temporal_scope_init a b = Inr (qk_temporal_scope k) \<Longrightarrow> valid_key k'"
  by (cases "qk_temporal_scope k") (auto simp: query_key_init_def temporal_scope_init_def valid_key_def year_from_def
      year_to_def normalize_again split: option.splits pyval.splits)

lemma row_key_valid: "valid_key (et_key r) \<Longrightarrow> row_key r = Inr (et_key r)"
  by (simp add: row_key_def valid_key_def temporal_scope_init_def query_key_init_def year_from_def year_to_def)

lemma collect_row_keys: "(\<And>r. r \<in> set rows \<Longrightarrow> valid_key (et_key r)) \<Longrightarrow> collect (List.map row_key rows) = Inr (List.map et_key rows)"
  by (simp add: collect_Inr row_key_valid)

lemma lease_fields [simp]:
  "et_key (lease_to w u r) = et_key r" "et_state (lease_to w u r) = et_state r"
  "et_lease_owner (lease_to w u r) = Some w" "et_lease_until (lease_to w u r) = Some u"
  "et_attempt (lease_to w u r) = et_attempt r + 1" "et_retry_at (lease_to w u r) = et_retry_at r"
  "et_eed_weight (lease_to w u r) = et_eed_weight r"
  by (simp_all add: lease_to_def)

lemma settle_fields [simp]:
  "et_key (settle st a r) = et_key r" "et_state (settle st a r) = st" "et_lease_owner (settle st a r) = None"
  "et_lease_until (settle st a r) = None" "et_attempt (settle st a r) = et_attempt r"
  "et_retry_at (settle st a r) = a" "et_eed_weight (settle st a r) = et_eed_weight r"
  by (simp_all add: settle_def)

section \<open>What the operations do to the tasks\<close>

definition fresh_task :: "(string \<times> rat) list \<Rightarrow> query_key \<Rightarrow> etask" where
  "fresh_task ws k = \<lparr>et_key = k, et_state = Q_PENDING, et_attempt = 0, et_retry_at = None, et_lease_owner = None,
     et_lease_until = None, et_eed_weight = tld_weight ws (qk_hostname k)\<rparr>"

lemma fresh_fields [simp]:
  "et_key (fresh_task ws k) = k" "et_state (fresh_task ws k) = Q_PENDING" "et_lease_owner (fresh_task ws k) = None"
  "et_lease_until (fresh_task ws k) = None" "et_attempt (fresh_task ws k) = 0" "et_retry_at (fresh_task ws k) = None"
  by (simp_all add: fresh_task_def)

lemma insert_task_eq: "insert_task k d =
    (if has_task k d then d else d\<lparr>ed_tasks := ed_tasks d @ [fresh_task (ed_tld_weights d) k]\<rparr>)"
  by (simp add: insert_task_def tbl_insert_or_ignore_def has_task_def fresh_task_def)

lemma insert_tasks_tasks:
  "\<exists>ks'. fold insert_task ks d = d\<lparr>ed_tasks := ed_tasks d @ List.map (fresh_task (ed_tld_weights d)) ks'\<rparr> \<and>
     set ks' = {k \<in> set ks. \<not> has_task k d} \<and> distinct ks'"
proof (induction ks arbitrary: d)
  case Nil
  then show ?case by simp
next
  case (Cons k ks)
  show ?case
  proof (cases "has_task k d")
    case True
    then show ?thesis using Cons [of d] by (auto simp: insert_task_eq)
  next
    case False
    let ?d = "d\<lparr>ed_tasks := ed_tasks d @ [fresh_task (ed_tld_weights d) k]\<rparr>"
    obtain ks' where ks': "fold insert_task ks ?d = ?d\<lparr>ed_tasks := ed_tasks ?d @ List.map (fresh_task (ed_tld_weights ?d)) ks'\<rparr>"
        "set ks' = {k \<in> set ks. \<not> has_task k ?d}" "distinct ks'"
      using Cons [of ?d] by blast
    have "has_task k' ?d \<longleftrightarrow> k' = k \<or> has_task k' d" for k'
      by (auto simp: has_task_def)
    moreover have "fold insert_task (k # ks) d = fold insert_task ks ?d" using False by (simp add: insert_task_eq [of k d])
    ultimately show ?thesis using ks' False by (intro exI [of _ "k # ks'"]) auto
  qed
qed

lemma lease_rows_eq:
  "distinct ks \<Longrightarrow> lease_rows g w u ks d = d\<lparr>ed_tasks :=
     List.map (\<lambda>r. if et_key r \<in> set ks \<and> g r then lease_to w u r else r) (ed_tasks d)\<rparr>"
  unfolding lease_rows_def by (simp add: etask.fold_update_keys)

lemma renew_tasks:
  "fold (\<lambda>k. tbl_update (\<lambda>r. et_key r = k \<and> P r) (\<lambda>r. r\<lparr>et_lease_until := Some u\<rparr>)) (dedup ks) t =
   List.map (\<lambda>r. if et_key r \<in> set ks \<and> P r then r\<lparr>et_lease_until := Some u\<rparr> else r) t"
  by (simp add: etask.fold_update_keys)

lemma settle_tasks:
  "distinct (List.map fst rs) \<Longrightarrow>
   fold (\<lambda>(k, st). tbl_update (\<lambda>r. et_key r = k \<and> P r) (settle st a)) rs t =
   List.map (\<lambda>r. case map_of rs (et_key r) of None \<Rightarrow> r | Some st \<Rightarrow> if P r then settle st a r else r) t"
  by (rule etask.fold_updates) simp

lemma drop_fanouts: "fold (\<lambda>(k, _). drop_fanout k) rs d =
    d\<lparr>ed_fanout := filter (\<lambda>x. fst x \<notin> fst ` set rs) (ed_fanout d)\<rparr>"
proof (induction rs arbitrary: d)
  case (Cons x rs)
  have "filter (\<lambda>y. fst y \<notin> fst ` set rs) (filter (\<lambda>y. fst y \<noteq> fst x) t) =
      filter (\<lambda>y. fst y \<notin> fst ` set (x # rs)) t" for t :: "(query_key \<times> int) list"
    by (auto intro!: filter_cong)
  then show ?case using Cons by (simp add: drop_fanout_def tbl_delete_def split_beta)
qed simp

definition fanout_for :: "evidence_db \<Rightarrow> query_key \<times> int \<Rightarrow> bool" where
  "fanout_for d x \<longleftrightarrow> year_from (fst x) < year_to (fst x) \<and> snd x = year_to (fst x) - year_from (fst x) \<and>
     (\<exists>r \<in> set (ed_tasks d). et_key r = fst x \<and> et_state r \<in> set claimable_states)"

lemma reserve_fanouts:
  "(\<And>k. k \<in> set ks \<Longrightarrow> needs_fanout k) \<Longrightarrow> uniq fst (ed_fanout d) \<Longrightarrow>
   \<exists>xs. fold reserve_fanout ks d = d\<lparr>ed_fanout := ed_fanout d @ xs\<rparr> \<and> (\<forall>x \<in> set xs. fanout_for d x) \<and>
     uniq fst (ed_fanout d @ xs)"
proof (induction ks arbitrary: d)
  case Nil
  then show ?case by (intro exI [of _ "[]"]) simp
next
  case (Cons k ks)
  have one: "\<exists>xs. reserve_fanout k d = d\<lparr>ed_fanout := ed_fanout d @ xs\<rparr> \<and> (\<forall>x \<in> set xs. fanout_for d x) \<and>
      uniq fst (ed_fanout d @ xs)"
  proof (cases "\<exists>r. tbl_find (\<lambda>r. et_key r = k \<and> et_state r \<in> set claimable_states) (ed_tasks d) = Some r \<and>
      k \<notin> fst ` set (ed_fanout d)")
    case True
    then show ?thesis using Cons.prems
      by (intro exI [of _ "[(k, year_to k - year_from k)]"])
         (auto simp: reserve_fanout_def tbl_insert_or_ignore_def fanout_for_def needs_fanout_def uniq_def dest: tbl_find_SomeD)
  next
    case False
    then show ?thesis using Cons.prems
      by (intro exI [of _ "[]"]) (auto simp: reserve_fanout_def tbl_insert_or_ignore_def split: option.splits)
  qed
  then obtain xs where xs: "reserve_fanout k d = d\<lparr>ed_fanout := ed_fanout d @ xs\<rparr>" "\<forall>x \<in> set xs. fanout_for d x"
      "uniq fst (ed_fanout d @ xs)" by blast
  let ?d = "d\<lparr>ed_fanout := ed_fanout d @ xs\<rparr>"
  obtain ys where "fold reserve_fanout ks ?d = ?d\<lparr>ed_fanout := ed_fanout ?d @ ys\<rparr>" "\<forall>x \<in> set ys. fanout_for ?d x"
      "uniq fst (ed_fanout ?d @ ys)"
    using Cons.IH [of ?d] Cons.prems(1) xs(3) by auto
  with xs show ?case by (intro exI [of _ "xs @ ys"]) (auto simp: fanout_for_def)
qed

lemma insert_origin_cases:
  assumes "insert_origin d o1 = Inr d'"
  obtains "d' = d" | "d' = d\<lparr>ed_origins := ed_origins d @ [o1]\<rparr>" "origin_key o1 \<notin> origin_key ` set (ed_origins d)"
    "has_task (og_key o1) d"
  using assms by (auto simp: insert_origin_def split: if_splits)

section \<open>Steps\<close>

text \<open>
  The operations as steps of an actor at a time.  A worker acts under its owner name; finishing without
  an owner overrides any lease; the rest is administration.
\<close>

inductive queue_step :: "actor \<Rightarrow> time \<Rightarrow> evidence_db \<Rightarrow> evidence_db \<Rightarrow> bool" where
  claim: "queue_claim w limit ps ls now d = Inr (ts, d') \<Longrightarrow> queue_step (Worker w) now d d'"
| store_claim: "store_claim w limit ls ks now d = Inr (ts, d') \<Longrightarrow> queue_step (Worker w) now d d'"
| renew: "queue_renew ks w ls now d = Inr (n, d') \<Longrightarrow> queue_step (Worker w) now d d'"
| finish_range: "finish_range_task k st fs w now d = Inr (n, d') \<Longrightarrow> list_all valid_key fs \<Longrightarrow> queue_step (Worker w) now d d'"
| finish_tasks: "finish_evidence_tasks rs w now d = Inr (n, d') \<Longrightarrow> queue_step (Worker w) now d d'"
| finish_task: "finish_evidence_task k st (Some w) ra now d = Inr (n, d') \<Longrightarrow> queue_step (Worker w) now d d'"
| override: "finish_evidence_task k st None ra now d = Inr (n, d') \<Longrightarrow> queue_step Override now d d'"
| enqueue: "list_all valid_key ks \<Longrightarrow> enqueue_evidence_tasks ks d = (n, d') \<Longrightarrow> queue_step Admin now d d'"
| reweigh: "set_eed_tld_weights ws d = (n, d') \<Longrightarrow> queue_step Admin now d d'"
| origins: "record_task_origins ks sk ri li when d = Inr (n, d') \<Longrightarrow> queue_step Admin now d d'"
| metric: "record_attempt_metric m d = Inr (b, d') \<Longrightarrow> queue_step Admin now d d'"
| publish: "publish_rewards rws b m now d = Inr (c, d') \<Longrightarrow> queue_step Admin now d d'"
| invalidate: "queue_step Admin now d (invalidate_rewards d)"

definition empty_queue :: "string list \<Rightarrow> string list \<Rightarrow> evidence_db" where
  "empty_queue reservoirs leases = \<lparr>ed_tasks = [], ed_fanout = [], ed_origins = [], ed_metrics = [], ed_costs = [],
     ed_rewards = [], ed_authority = None, ed_tld_weights = [], ed_reservoir_ids = reservoirs, ed_lease_ids = leases\<rparr>"

definition row_ok :: "etask \<Rightarrow> bool" where
  "row_ok r \<longleftrightarrow> valid_key (et_key r) \<and> 0 \<le> et_attempt r \<and> 0 \<le> et_eed_weight r \<and>
     (et_lease_owner r = None \<longleftrightarrow> et_lease_until r = None) \<and>
     et_state r \<in> set (claimable_states @ terminal_states) \<and>
     (et_lease_owner r \<noteq> None \<longrightarrow> et_state r \<in> set claimable_states)"

definition tasks_ok :: "evidence_db \<Rightarrow> bool" where
  "tasks_ok d \<longleftrightarrow> uniq et_key (ed_tasks d) \<and> (\<forall>r \<in> set (ed_tasks d). row_ok r) \<and> (\<forall>x \<in> set (ed_tld_weights d). 0 \<le> snd x)"

lemma tld_weight_nonneg: "\<forall>x \<in> set ws. 0 \<le> snd x \<Longrightarrow> 0 \<le> tld_weight ws h"
  by (fastforce simp: tld_weight_def split: option.splits dest: map_of_SomeD)

inductive row_step :: "actor \<Rightarrow> time \<Rightarrow> etask \<Rightarrow> etask \<Rightarrow> bool" where
  reweigh: "w = et_eed_weight r \<or> 0 \<le> w \<Longrightarrow> row_step a now r (r\<lparr>et_eed_weight := w\<rparr>)"
| take_up: "task_claimable now r \<Longrightarrow> row_step (Worker w) now r (lease_to w u r)"
| extend: "et_lease_owner r = Some w \<Longrightarrow> row_step (Worker w) now r (r\<lparr>et_lease_until := Some u\<rparr>)"
| settle: "held_by w now r \<Longrightarrow> st \<in> set (terminal_states @ retryable_states) \<Longrightarrow> row_step (Worker w) now r (settle st t r)"
| force: "st \<in> set (terminal_states @ retryable_states) \<Longrightarrow> row_step Override now r (settle st t r)"

lemma row_step_refl: "row_step a now r r"
  using row_step.reweigh [of "et_eed_weight r" r a now] by simp

lemma row_step_key: "row_step a now r r' \<Longrightarrow> et_key r' = et_key r"
  by (induction rule: row_step.induct) simp_all

lemma row_step_ok: "row_step a now r r' \<Longrightarrow> row_ok r \<Longrightarrow> row_ok r'"
  by (induction rule: row_step.induct)
     (auto simp: row_ok_def task_claimable_def claimable_states_def retryable_states_def)

definition ticket :: "etask \<Rightarrow> query_state ticket" where
  "ticket r = \<lparr>tt_state = et_state r, tt_lease = (case (et_lease_owner r, et_lease_until r) of
     (Some w, Some u) \<Rightarrow> Some (w, u) | _ \<Rightarrow> None)\<rparr>"

definition final_state :: "query_state \<Rightarrow> bool" where
  "final_state st \<longleftrightarrow> st \<in> set terminal_states"

definition queue_abs :: "evidence_db \<Rightarrow> query_key \<Rightarrow> query_state ticket option" where
  "queue_abs d k = map_option ticket (tbl_find (\<lambda>r. et_key r = k) (ed_tasks d))"

lemma ticket_fields [simp]: "tt_state (ticket r) = et_state r"
  "tt_lease (ticket r) = Some (w, u) \<longleftrightarrow> et_lease_owner r = Some w \<and> et_lease_until r = Some u"
  by (auto simp: ticket_def split: option.splits)

lemma ticket_eq: "t = ticket r \<longleftrightarrow> tt_state t = et_state r \<and> tt_lease t = (case (et_lease_owner r, et_lease_until r) of
     (Some w, Some u) \<Rightarrow> Some (w, u) | _ \<Rightarrow> None)"
  by (cases t) (auto simp: ticket_def)

lemma claimable_not_final: "st \<in> set claimable_states \<Longrightarrow> \<not> final_state st"
  by (auto simp: claimable_states_def retryable_states_def terminal_states_def final_state_def)

lemma row_step_spec:
  assumes "row_step a now r r'" "row_ok r"
  shows "spec_row final_state a now (ticket r) (ticket r')"
  using assms
proof (induction rule: row_step.induct)
  case (reweigh w r a now)
  have "ticket (r\<lparr>et_eed_weight := w\<rparr>) = ticket r" by (simp add: ticket_def)
  then show ?case by (simp add: spec_row.keep)
next
  case (take_up now r w u)
  have "ticket (lease_to w u r) = \<lparr>tt_state = et_state r, tt_lease = Some (w, u)\<rparr>" by (simp add: ticket_def)
  moreover have "spec_row final_state (Worker w) now (ticket r) \<lparr>tt_state = et_state r, tt_lease = Some (w, u)\<rparr>"
    using take_up(1) claimable_not_final by (intro spec_row.take_up) (auto simp: task_claimable_def)
  ultimately show ?case by (simp only:)
next
  case (extend r w now u)
  then obtain u0 where "et_lease_until r = Some u0" by (auto simp: row_ok_def)
  with extend(1) have "spec_row final_state (Worker w) now (ticket r) ((ticket r)\<lparr>tt_lease := Some (w, u)\<rparr>)"
    by (intro spec_row.extend) simp
  moreover have "ticket (r\<lparr>et_lease_until := Some u\<rparr>) = (ticket r)\<lparr>tt_lease := Some (w, u)\<rparr>"
    using extend(1) by (simp add: ticket_def)
  ultimately show ?case by (simp only:)
next
  case (settle w now r st t)
  then obtain u where "et_lease_owner r = Some w" "et_lease_until r = Some u" "now < u"
    by (auto simp: held_by_def split: option.splits)
  then have "spec_row final_state (Worker w) now (ticket r) \<lparr>tt_state = st, tt_lease = None\<rparr>"
    by (intro spec_row.settle) simp_all
  then show ?case by (simp add: ticket_def)
next
  case (force st now r t)
  show ?case using spec_row.force [of final_state now "ticket r" st] by (simp add: ticket_def)
qed

text \<open>Every step maps the old rows one by one and appends new pending ones.\<close>

definition evolves :: "actor \<Rightarrow> time \<Rightarrow> evidence_db \<Rightarrow> evidence_db \<Rightarrow> bool" where
  "evolves a now d d' \<longleftrightarrow> (\<exists>f ks. ed_tasks d' = List.map f (ed_tasks d) @ List.map (fresh_task (ed_tld_weights d)) ks \<and>
     (\<forall>r \<in> set (ed_tasks d). row_step a now r (f r)) \<and> distinct ks \<and> (\<forall>k \<in> set ks. \<not> has_task k d \<and> valid_key k)) \<and>
     (\<forall>x \<in> set (ed_tld_weights d'). 0 \<le> snd x)"

lemma evolves_map:
  assumes "ed_tasks d' = List.map f (ed_tasks d)" "\<And>r. r \<in> set (ed_tasks d) \<Longrightarrow> row_step a now r (f r)"
    "\<forall>x \<in> set (ed_tld_weights d'). 0 \<le> snd x"
  shows "evolves a now d d'"
  using assms unfolding evolves_def by (intro conjI exI [of _ f] exI [of _ "[]"]) auto

lemma evolves_same: "ed_tasks d' = ed_tasks d \<Longrightarrow> \<forall>x \<in> set (ed_tld_weights d'). 0 \<le> snd x \<Longrightarrow> evolves a now d d'"
  by (rule evolves_map [where f = id]) (simp_all add: row_step_refl)

lemma evolved_rows:
  assumes ev: "evolves a now d d'" and ok: "tasks_ok d"
  shows "tasks_ok d'" "spec_step final_state a now (queue_abs d) (queue_abs d')"
    "\<And>r. r \<in> set (ed_tasks d) \<Longrightarrow> \<exists>r' \<in> set (ed_tasks d'). row_step a now r r'"
proof -
  obtain f ks where f: "ed_tasks d' = List.map f (ed_tasks d) @ List.map (fresh_task (ed_tld_weights d)) ks"
      "\<And>r. r \<in> set (ed_tasks d) \<Longrightarrow> row_step a now r (f r)" "distinct ks" "\<And>k. k \<in> set ks \<Longrightarrow> \<not> has_task k d \<and> valid_key k"
      "\<forall>x \<in> set (ed_tld_weights d'). 0 \<le> snd x"
    using ev unfolding evolves_def by blast
  have old: "List.map et_key (List.map f (ed_tasks d)) = List.map et_key (ed_tasks d)" using row_step_key [OF f(2)] by simp
  have new: "List.map et_key (List.map (fresh_task (ed_tld_weights d)) ks) = ks" by (simp add: comp_def)
  have u': "uniq et_key (ed_tasks d')"
    using ok f(3,4) unfolding uniq_def f(1) map_append old new tasks_ok_def has_task_def by auto
  have "row_ok (fresh_task (ed_tld_weights d) k)" if "k \<in> set ks" for k
    using f(4) [OF that] ok tld_weight_nonneg [of "ed_tld_weights d"]
    by (auto simp: row_ok_def tasks_ok_def fresh_task_def claimable_states_def)
  moreover have "row_ok (f r)" if "r \<in> set (ed_tasks d)" for r
    using row_step_ok [OF f(2) [OF that]] ok that by (simp add: tasks_ok_def)
  ultimately show tok: "tasks_ok d'" using u' f(5) unfolding tasks_ok_def by (auto simp: f(1))
  show "\<exists>r' \<in> set (ed_tasks d'). row_step a now r r'" if "r \<in> set (ed_tasks d)" for r
    using f(1,2) that by auto
  show "spec_step final_state a now (queue_abs d) (queue_abs d')"
    unfolding spec_step_def
  proof
    fix k
    have U: "uniq et_key (ed_tasks d)" using ok by (simp add: tasks_ok_def)
    show "case queue_abs d k of None \<Rightarrow> (\<forall>t. queue_abs d' k = Some t \<longrightarrow> \<not> final_state (tt_state t) \<and> tt_lease t = None)
        | Some t \<Rightarrow> \<exists>t'. queue_abs d' k = Some t' \<and> spec_row final_state a now t t'"
    proof (cases "tbl_find (\<lambda>r. et_key r = k) (ed_tasks d)")
      case None
      have "\<not> final_state (et_state r') \<and> tt_lease (ticket r') = None"
        if "tbl_find (\<lambda>r. et_key r = k) (ed_tasks d') = Some r'" for r'
      proof -
        have "r' \<in> set (ed_tasks d')" "et_key r' = k" using tbl_find_SomeD [OF that] by auto
        then obtain k' where "r' = fresh_task (ed_tld_weights d) k'"
          using None f(1,2) row_step_key by (fastforce simp: tbl_find_None)
        then show ?thesis by (simp add: final_state_def terminal_states_def ticket_def)
      qed
      with None show ?thesis by (auto simp: queue_abs_def)
    next
      case (Some r)
      then have r: "r \<in> set (ed_tasks d)" "et_key r = k" by (auto dest: tbl_find_SomeD)
      have "f r \<in> set (ed_tasks d')" "et_key (f r) = k" using r f(1) f(2) [OF r(1)] row_step_key by auto
      then have "tbl_find (\<lambda>r. et_key r = k) (ed_tasks d') = Some (f r)"
        using etask.find_key_iff [OF u'] by blast
      moreover have "spec_row final_state a now (ticket r) (ticket (f r))"
        using row_step_spec [OF f(2) [OF r(1)]] ok r(1) by (simp add: tasks_ok_def)
      ultimately show ?thesis using Some by (simp add: queue_abs_def)
    qed
  qed
qed

section \<open>Every operation evolves the tasks\<close>

lemma claim_rows_sub: "r \<in> set (claim_rows also limit now d) \<Longrightarrow> r \<in> set (ed_tasks d) \<and> task_claimable now r \<and> also r"
  by (auto simp: claim_rows_def dest: in_set_takeD)

lemma claim_rows_uniq:
  assumes "tasks_ok d"
  shows "distinct (List.map et_key (claim_rows also limit now d))"
proof -
  let ?rs = "claim_rows also limit now d"
  have "distinct (ed_tasks d)" "inj_on et_key (set (ed_tasks d))"
    using assms by (simp_all add: tasks_ok_def uniq_def distinct_map)
  moreover from this have "distinct ?rs" by (simp add: claim_rows_def tbl_order_by_def distinct_sort)
  ultimately show ?thesis using claim_rows_sub by (auto simp: distinct_map intro: inj_on_subset)
qed

text \<open>What both kinds of claim do once their arguments are accepted.\<close>

definition claimed :: "(etask \<Rightarrow> bool) \<Rightarrow> string \<Rightarrow> int \<Rightarrow> time \<Rightarrow> time \<Rightarrow> evidence_db \<Rightarrow> evidence_db" where
  "claimed also w limit u now d = d\<lparr>ed_tasks := List.map
     (\<lambda>r. if r \<in> set (claim_rows also limit now d) then lease_to w u r else r) (ed_tasks d)\<rparr>"

lemma lease_claimed:
  assumes ok: "tasks_ok d" and g: "\<And>r. task_claimable now r \<Longrightarrow> g r"
  shows "lease_rows g w u (List.map et_key (claim_rows also limit now d)) d = claimed also w limit u now d"
proof -
  let ?rs = "claim_rows also limit now d"
  have "et_key r \<in> et_key ` set ?rs \<and> g r \<longleftrightarrow> r \<in> set ?rs" if "r \<in> set (ed_tasks d)" for r
    using that etask.uniqD [of "ed_tasks d"] ok claim_rows_sub g unfolding tasks_ok_def image_iff by metis
  then show ?thesis unfolding lease_rows_eq [OF claim_rows_uniq [OF ok]] claimed_def
    by (intro arg_cong [where f = "\<lambda>t. d\<lparr>ed_tasks := t\<rparr>"] List.map_cong) simp_all
qed

lemma keys_of_claim: "tasks_ok d \<Longrightarrow> collect (List.map row_key (claim_rows also limit now d)) =
    Inr (List.map et_key (claim_rows also limit now d))"
  by (rule collect_row_keys) (auto simp: tasks_ok_def row_ok_def dest!: claim_rows_sub)

lemma claim_cases:
  assumes "queue_claim w limit ps ls now d = Inr (ts, d')" "tasks_ok d"
  obtains "ts = []" "d' = d" "limit < 1 \<or> (\<forall>p \<in> set ps. p = [])"
  | q u where "q = (\<lambda>r. qk_provider (et_key r) \<in> set ps \<and> qk_provider (et_key r) \<noteq> [])" "u = now + ls" "0 < ls" "1 \<le> limit" "\<not> blank w" "0 \<le> now"
    "d' = claimed q w limit u now d"
    "ts = List.map (\<lambda>r. task_of w u r (et_key r)) (claim_rows q limit now d)"
proof -
  have un: "task_claimable now r \<Longrightarrow> unleased now r" for r by (simp add: task_claimable_def unleased_def)
  have m: "List.map2 f xs (List.map g xs) = List.map (\<lambda>x. f x (g x)) xs" for f :: "etask \<Rightarrow> query_key \<Rightarrow> evidence_task" and g xs
    by (induction xs) simp_all
  show thesis
    using assms that(1) that(2) [OF refl refl]
    by (auto simp: queue_claim_def Let_def keys_of_claim lease_claimed [OF assms(2) un] m filter_empty_conv
        split: if_splits)
qed

lemma store_claim_cases:
  assumes "store_claim w limit ls ks now d = Inr (ts, d')" "tasks_ok d"
  obtains "ts = []" "d' = d" "limit < 1 \<or> ks = Some []"
  | q u where "q = (\<lambda>r. case ks of None \<Rightarrow> True | Some ks \<Rightarrow> et_key r \<in> set ks)" "u = now + ls" "0 \<le> ls" "1 \<le> limit" "\<not> blank w"
    "d' = claimed q w limit u now d"
    "ts = List.map (\<lambda>r. task_of w u r (et_key r)) (claim_rows q limit now d)"
proof -
  have m: "List.map2 f xs (List.map g xs) = List.map (\<lambda>x. f x (g x)) xs" for f :: "etask \<Rightarrow> query_key \<Rightarrow> evidence_task" and g xs
    by (induction xs) simp_all
  show thesis
    using assms that(1) that(2) [OF refl refl]
    by (auto simp: store_claim_def Let_def keys_of_claim lease_claimed [OF assms(2) TrueI] m split: if_splits)
qed

lemma claimed_evolves:
  assumes "tasks_ok d"
  shows "evolves (Worker w) now d (claimed also w limit u now d)"
  by (rule evolves_map [where f = "\<lambda>r. if r \<in> set (claim_rows also limit now d) then lease_to w u r else r"])
     (use assms in \<open>auto simp: claimed_def tasks_ok_def row_step_refl intro: row_step.take_up dest: claim_rows_sub\<close>)

lemma finish_results_cases:
  assumes "finish_results rs owner ra now d = Inr (n, d')" "rs \<noteq> []"
  obtains "distinct (List.map fst rs)" "\<And>k st. (k, st) \<in> set rs \<Longrightarrow> st \<in> set (terminal_states @ retryable_states)"
    "\<And>k st. (k, st) \<in> set rs \<Longrightarrow> \<exists>r \<in> set (ed_tasks d). et_key r = k \<and> may_finish owner now r" "n = length rs"
    "d' = d\<lparr>ed_tasks := List.map (\<lambda>r. case map_of rs (et_key r) of None \<Rightarrow> r
        | Some st \<Rightarrow> if may_finish owner now r then settle st ra r else r) (ed_tasks d),
      ed_fanout := filter (\<lambda>x. fst x \<notin> fst ` set rs) (ed_fanout d)\<rparr>"
proof -
  have found: "\<exists>r \<in> set (ed_tasks d). et_key r = k \<and> may_finish owner now r"
    if "list_all (\<lambda>(k, _). tbl_find (\<lambda>r. et_key r = k \<and> may_finish owner now r) (ed_tasks d) \<noteq> None) rs" "(k, st) \<in> set rs" for k st
    using that by (fastforce simp: list_all_iff tbl_find_None)
  have "distinct (List.map fst rs)" "list_all (\<lambda>(_, st). st \<in> set (terminal_states @ retryable_states)) rs"
      "list_all (\<lambda>(k, _). tbl_find (\<lambda>r. et_key r = k \<and> may_finish owner now r) (ed_tasks d) \<noteq> None) rs" "n = length rs"
      "d' = fold (\<lambda>(k, _). drop_fanout k) rs
            (d\<lparr>ed_tasks := fold (\<lambda>(k, st). tbl_update (\<lambda>r. et_key r = k \<and> may_finish owner now r) (settle st ra))
               rs (ed_tasks d)\<rparr>)"
    using assms unfolding finish_results_def by (simp_all split: if_splits)
  then show thesis
    using that found unfolding drop_fanouts by (auto simp: settle_tasks list_all_iff)
qed

lemma finish_results_evolves:
  assumes fin: "finish_results rs owner ra now d = Inr (n, d')" and ok: "tasks_ok d"
  shows "evolves (case owner of None \<Rightarrow> Override | Some w \<Rightarrow> Worker w) now d d'"
proof (cases "rs = []")
  case True
  then show ?thesis using fin ok by (auto simp: finish_results_def tasks_ok_def intro: evolves_same)
next
  case False
  from fin False show ?thesis
  proof (cases rule: finish_results_cases)
    case 1
    show ?thesis
    proof (rule evolves_map)
      show "ed_tasks d' = List.map (\<lambda>r. case map_of rs (et_key r) of None \<Rightarrow> r
          | Some st \<Rightarrow> if may_finish owner now r then settle st ra r else r) (ed_tasks d)" by (simp add: 1(5))
      show "row_step (case owner of None \<Rightarrow> Override | Some w \<Rightarrow> Worker w) now r
          (case map_of rs (et_key r) of None \<Rightarrow> r | Some st \<Rightarrow> if may_finish owner now r then settle st ra r else r)" for r
        using 1(2) [OF map_of_SomeD] by (auto simp: may_finish_def row_step_refl split: option.splits
            intro: row_step.settle row_step.force)
    qed (use ok in \<open>simp add: 1(5) tasks_ok_def\<close>)
  qed
qed

section \<open>Range tasks, origins and costs\<close>

lemma insert_origins:
  "fold_result insert_origin os d = Inr d' \<Longrightarrow>
   \<exists>xs. d' = d\<lparr>ed_origins := ed_origins d @ xs\<rparr> \<and> set xs \<subseteq> set os \<and>
     (uniq origin_key (ed_origins d) \<longrightarrow> uniq origin_key (ed_origins d @ xs)) \<and>
     origin_key ` set os \<subseteq> origin_key ` set (ed_origins d @ xs) \<and> (\<forall>x \<in> set xs. has_task (og_key x) d)"
proof (induction os arbitrary: d)
  case Nil
  then show ?case by (intro exI [of _ "[]"]) simp
next
  case (Cons o1 os)
  then obtain d1 where d1: "insert_origin d o1 = Inr d1" "fold_result insert_origin os d1 = Inr d'" by auto
  from d1(1) obtain ys where ys: "d1 = d\<lparr>ed_origins := ed_origins d @ ys\<rparr>" "set ys \<subseteq> {o1}"
      "uniq origin_key (ed_origins d) \<longrightarrow> uniq origin_key (ed_origins d @ ys)"
      "origin_key o1 \<in> origin_key ` set (ed_origins d @ ys)" "\<forall>x \<in> set ys. has_task (og_key x) d"
  proof (cases rule: insert_origin_cases)
    case 1
    then have "origin_key o1 \<in> origin_key ` set (ed_origins d)"
      using d1(1) by (auto simp: insert_origin_def dest: arg_cong [where f = "length \<circ> ed_origins"] split: if_splits)
    with 1 show ?thesis by (intro that [of "[]"]) simp_all
  next
    case 2
    then show ?thesis by (intro that [of "[o1]"]) (auto simp: uniq_def)
  qed
  from Cons.IH [OF d1(2)] ys(1) obtain xs where xs: "d' = d1\<lparr>ed_origins := ed_origins d1 @ xs\<rparr>" "set xs \<subseteq> set os"
      "uniq origin_key (ed_origins d1) \<longrightarrow> uniq origin_key (ed_origins d1 @ xs)"
      "origin_key ` set os \<subseteq> origin_key ` set (ed_origins d1 @ xs)" "\<forall>x \<in> set xs. has_task (og_key x) d1" by blast
  have "has_task k d1 = has_task k d" for k by (simp add: ys(1) has_task_def)
  with xs ys show ?case by (intro exI [of _ "ys @ xs"]) auto
qed

lemma copy_origins_all:
  "fold_result (copy_origins k) fs d = Inr d' \<Longrightarrow> k \<notin> set fs \<Longrightarrow>
   \<exists>xs. d' = d\<lparr>ed_origins := ed_origins d @ xs\<rparr> \<and> (\<forall>x \<in> set xs. og_key x \<in> set fs \<and> has_task (og_key x) d) \<and>
     (uniq origin_key (ed_origins d) \<longrightarrow> uniq origin_key (ed_origins d @ xs)) \<and>
     (\<forall>f \<in> set fs. \<forall>o1 \<in> set (ed_origins d). og_key o1 = k \<longrightarrow>
        origin_key (o1\<lparr>og_key := f\<rparr>) \<in> origin_key ` set (ed_origins d @ xs))"
proof (induction fs arbitrary: d)
  case Nil
  then show ?case by (intro exI [of _ "[]"]) simp
next
  case (Cons f fs)
  let ?os = "List.map (\<lambda>o1. o1\<lparr>og_key := f\<rparr>) (filter (\<lambda>o1. og_key o1 = k) (ed_origins d))"
  from Cons.prems(1) obtain d1 where c1: "copy_origins k d f = Inr d1" and c2: "fold_result (copy_origins k) fs d1 = Inr d'" by auto
  note d1 = c1 [unfolded copy_origins_def] c2
  from insert_origins [OF d1(1)] obtain ys where ys: "d1 = d\<lparr>ed_origins := ed_origins d @ ys\<rparr>" "set ys \<subseteq> set ?os"
      "uniq origin_key (ed_origins d) \<longrightarrow> uniq origin_key (ed_origins d @ ys)"
      "origin_key ` set ?os \<subseteq> origin_key ` set (ed_origins d @ ys)" "\<forall>x \<in> set ys. has_task (og_key x) d" by blast
  from Cons.IH [OF d1(2)] Cons.prems(2) obtain xs where xs: "d' = d1\<lparr>ed_origins := ed_origins d1 @ xs\<rparr>"
      "\<forall>x \<in> set xs. og_key x \<in> set fs \<and> has_task (og_key x) d1"
      "uniq origin_key (ed_origins d1) \<longrightarrow> uniq origin_key (ed_origins d1 @ xs)"
      "\<forall>f \<in> set fs. \<forall>o1 \<in> set (ed_origins d1). og_key o1 = k \<longrightarrow>
        origin_key (o1\<lparr>og_key := f\<rparr>) \<in> origin_key ` set (ed_origins d1 @ xs)" by auto
  have ht: "has_task k' d1 = has_task k' d" for k' by (simp add: ys(1) has_task_def)
  show ?case
  proof (intro exI [of _ "ys @ xs"] conjI)
    show "d' = d\<lparr>ed_origins := ed_origins d @ ys @ xs\<rparr>" using xs(1) ys(1) by simp
    show "\<forall>x \<in> set (ys @ xs). og_key x \<in> set (f # fs) \<and> has_task (og_key x) d"
      using xs(2) ys(2,5) ht by fastforce
    show "uniq origin_key (ed_origins d) \<longrightarrow> uniq origin_key (ed_origins d @ ys @ xs)" using xs(3) ys(1,3) by simp
    show "\<forall>g \<in> set (f # fs). \<forall>o1 \<in> set (ed_origins d). og_key o1 = k \<longrightarrow>
        origin_key (o1\<lparr>og_key := g\<rparr>) \<in> origin_key ` set (ed_origins d @ ys @ xs)"
    proof (intro ballI impI)
      fix g o1 assume g: "g \<in> set (f # fs)" and o1: "o1 \<in> set (ed_origins d)" "og_key o1 = k"
      show "origin_key (o1\<lparr>og_key := g\<rparr>) \<in> origin_key ` set (ed_origins d @ ys @ xs)"
      proof (cases "g = f")
        case True
        have "origin_key (o1\<lparr>og_key := f\<rparr>) \<in> origin_key ` set ?os" using o1 by force
        with ys(4) True show ?thesis by auto
      next
        case False
        with g xs(4) o1 ys(1) show ?thesis by auto
      qed
    qed
  qed
qed

lemma finish_range_cases:
  assumes "finish_range_task k st fs w now d = Inr (n, d')" "tasks_ok d"
  obtains r ks xs where "r \<in> set (ed_tasks d)" "et_key r = k" "held_by w now r" "st \<in> set terminal_states"
    "list_all (followup_ok k) fs" "year_from k \<noteq> year_to k" "set ks = {f \<in> set fs. \<not> has_task f d}" "distinct ks" "n = length ks"
    "d' = d\<lparr>ed_tasks := List.map (\<lambda>r. if et_key r = k then settle st None r else r) (ed_tasks d) @
               List.map (fresh_task (ed_tld_weights d)) ks,
            ed_fanout := filter (\<lambda>x. fst x \<noteq> k) (ed_fanout d), ed_origins := ed_origins d @ xs\<rparr>"
    "\<forall>x \<in> set xs. og_key x \<in> set fs" "uniq origin_key (ed_origins d) \<longrightarrow> uniq origin_key (ed_origins d @ xs)"
    "\<forall>f \<in> set fs. \<forall>o1 \<in> set (ed_origins d). og_key o1 = k \<longrightarrow>
        origin_key (o1\<lparr>og_key := f\<rparr>) \<in> origin_key ` set (ed_origins d @ xs)"
proof -
  let ?mine = "\<lambda>r. et_key r = k \<and> held_by w now r"
  let ?d1 = "d\<lparr>ed_tasks := tbl_update ?mine (settle st None) (ed_tasks d)\<rparr>"
  let ?d2 = "fold insert_task fs ?d1"
  obtain r where args: "year_from k \<noteq> year_to k" "st \<in> set terminal_states" "list_all (followup_ok k) fs"
      and r: "tbl_find ?mine (ed_tasks d) = Some r"
      and n: "n = length (ed_tasks ?d2) - length (ed_tasks ?d1)"
      and d': "fold_result (copy_origins k) fs (drop_fanout k ?d2) = Inr d'"
    using assms(1) by (auto simp: finish_range_task_def Let_def split: option.splits)
  have rk: "r \<in> set (ed_tasks d)" "et_key r = k" "held_by w now r" using tbl_find_SomeD [OF r] by simp_all
  have "tbl_update ?mine (settle st None) (ed_tasks d) =
      List.map (\<lambda>r. if et_key r = k then settle st None r else r) (ed_tasks d)"
  proof -
    have "uniq et_key (ed_tasks d)" using assms(2) by (simp add: tasks_ok_def)
    then have "?mine x = (et_key x = k)" if "x \<in> set (ed_tasks d)" for x
      using etask.uniqD [of "ed_tasks d" x r] that rk by metis
    then show ?thesis unfolding tbl_update_def by (intro List.map_cong) simp_all
  qed
  note d1 = this
  obtain ks where ks: "?d2 = ?d1\<lparr>ed_tasks := ed_tasks ?d1 @ List.map (fresh_task (ed_tld_weights ?d1)) ks\<rparr>"
      "set ks = {k \<in> set fs. \<not> has_task k ?d1}" "distinct ks"
    using insert_tasks_tasks by blast
  have ht: "has_task k' ?d1 = has_task k' d" for k' by (simp add: has_task_def etask.keys_update)
  have kfs: "k \<notin> set fs" using args(1,3) by (auto simp: list_all_iff followup_ok_def)
  from copy_origins_all [OF d' kfs] obtain xs where xs: "d' = (drop_fanout k ?d2)\<lparr>ed_origins := ed_origins (drop_fanout k ?d2) @ xs\<rparr>"
      "\<forall>x \<in> set xs. og_key x \<in> set fs"
      "uniq origin_key (ed_origins (drop_fanout k ?d2)) \<longrightarrow> uniq origin_key (ed_origins (drop_fanout k ?d2) @ xs)"
      "\<forall>f \<in> set fs. \<forall>o1 \<in> set (ed_origins (drop_fanout k ?d2)). og_key o1 = k \<longrightarrow>
        origin_key (o1\<lparr>og_key := f\<rparr>) \<in> origin_key ` set (ed_origins (drop_fanout k ?d2) @ xs)" by blast
  have or: "ed_origins (drop_fanout k ?d2) = ed_origins d" by (simp add: drop_fanout_def ks(1))
  have fan: "tbl_delete (\<lambda>(k', _). k' = k) t = filter (\<lambda>x. fst x \<noteq> k) t" for t :: "(query_key \<times> int) list"
    by (simp add: tbl_delete_def split_beta)
  show thesis
  proof (rule that [OF rk args(2,3,1) _ ks(3) _ _ xs(2)])
    show "set ks = {f \<in> set fs. \<not> has_task f d}" using ks(2) ht by simp
    show "n = length ks" unfolding n ks(1) by simp
    show "d' = d\<lparr>ed_tasks := List.map (\<lambda>r. if et_key r = k then settle st None r else r) (ed_tasks d) @
               List.map (fresh_task (ed_tld_weights d)) ks,
            ed_fanout := filter (\<lambda>x. fst x \<noteq> k) (ed_fanout d), ed_origins := ed_origins d @ xs\<rparr>"
      unfolding xs(1) or unfolding drop_fanout_def fan using ks(1) by (simp add: d1)
  qed (use xs(3,4) or in simp_all)
qed

section \<open>The invariant\<close>

text \<open>Of each action class the cost table holds the totals of the recorded attempts.\<close>

definition metrics_of :: "action_kind \<Rightarrow> evidence_db \<Rightarrow> metric_row list" where
  "metrics_of k d = filter (\<lambda>m. mt_task_kind m = k) (ed_metrics d)"

definition cost_matches :: "cost_row option \<Rightarrow> metric_row list \<Rightarrow> bool" where
  "cost_matches c0 ms \<longleftrightarrow> (case c0 of
      None \<Rightarrow> ms = []
    | Some c \<Rightarrow> cs_attempts c = int (length ms) \<and>
        cs_provider_requests c = sum_list (List.map mt_provider_requests ms) \<and>
        cs_elapsed_milliseconds c = sum_list (List.map mt_elapsed_milliseconds ms) \<and>
        cs_pages_seen c = sum_list (List.map mt_pages_seen ms) \<and>
        cs_records_seen c = sum_list (List.map mt_records_seen ms))"

definition cost_is_sum :: "evidence_db \<Rightarrow> bool" where
  "cost_is_sum d \<longleftrightarrow> (\<forall>k. cost_matches (cost_of k d) (metrics_of k d))"

definition measures_ok :: "evidence_db \<Rightarrow> bool" where
  "measures_ok d \<longleftrightarrow> uniq cs_task_kind (ed_costs d) \<and> cost_is_sum d \<and>
     (\<forall>m \<in> set (ed_metrics d). 0 \<le> mt_provider_requests m \<and> has_task (mt_key m) d \<and> mt_task_kind m = classify (mt_key m)) \<and>
     uniq (\<lambda>m. (mt_key m, mt_attempt m)) (ed_metrics d) \<and>
     (\<forall>r \<in> set (ed_rewards d). 0 \<le> rw_host_years r \<and> 0 \<le> rw_eed r) \<and>
     (ed_authority d = None \<longrightarrow> ed_rewards d = [])"

definition links_ok :: "evidence_db \<Rightarrow> bool" where
  "links_ok d \<longleftrightarrow> uniq fst (ed_fanout d) \<and> (\<forall>x \<in> set (ed_fanout d). fanout_for d x) \<and>
     uniq origin_key (ed_origins d) \<and> (\<forall>o1 \<in> set (ed_origins d). has_task (og_key o1) d)"

definition queue_inv :: "evidence_db \<Rightarrow> bool" where
  "queue_inv d \<longleftrightarrow> tasks_ok d \<and> links_ok d \<and> measures_ok d"

lemma empty_inv: "queue_inv (empty_queue rs ls)"
  by (simp add: queue_inv_def tasks_ok_def links_ok_def measures_ok_def cost_is_sum_def cost_matches_def metrics_of_def empty_queue_def
      cost_of_def tbl_find_def)

lemma uniq_filter: "uniq key t \<Longrightarrow> uniq key (filter P t)"
  by (auto simp: uniq_def distinct_map intro: inj_on_subset)

text \<open>The links and measures survive when the tasks evolve and no claimable task with a reservation ends.\<close>

lemma evolves_has: "evolves a now d d' \<Longrightarrow> has_task k d \<Longrightarrow> has_task k d'"
proof -
  assume ev: "evolves a now d d'" and k: "has_task k d"
  then obtain r where r: "r \<in> set (ed_tasks d)" "et_key r = k" by (auto simp: has_task_def)
  obtain f ks where "ed_tasks d' = List.map f (ed_tasks d) @ ks" "\<forall>r \<in> set (ed_tasks d). row_step a now r (f r)"
    using ev unfolding evolves_def by blast
  with r row_step_key [of a now r "f r"] have "f r \<in> set (ed_tasks d')" "et_key (f r) = k" by auto
  then show "has_task k d'" unfolding has_task_iff by blast
qed

lemma measures_frame:
  assumes "measures_ok d" "evolves a now d d'" "ed_costs d' = ed_costs d" "ed_metrics d' = ed_metrics d"
    "ed_rewards d' = ed_rewards d" "ed_authority d' = ed_authority d"
  shows "measures_ok d'"
proof -
  have "cost_is_sum d' = cost_is_sum d"
    by (simp only: cost_is_sum_def metrics_of_def cost_of_def assms(3,4))
  then show ?thesis using assms(1,3-) evolves_has [OF assms(2)] unfolding measures_ok_def by simp
qed

lemma links_frame:
  assumes "links_ok d" "evolves a now d d'" "\<exists>P. ed_fanout d' = filter P (ed_fanout d)"
    "\<And>k. k \<in> fst ` set (ed_fanout d') \<Longrightarrow> \<exists>r \<in> set (ed_tasks d'). et_key r = k \<and> et_state r \<in> set claimable_states"
    "uniq origin_key (ed_origins d')" "\<And>o1. o1 \<in> set (ed_origins d') \<Longrightarrow> has_task (og_key o1) d'"
  shows "links_ok d'"
proof -
  obtain P where P: "ed_fanout d' = filter P (ed_fanout d)" using assms(3) by blast
  have "fanout_for d' x" if "x \<in> set (ed_fanout d')" for x
    using that assms(1,4) P unfolding links_ok_def fanout_for_def by auto
  with assms(1,5,6) P show ?thesis by (simp add: links_ok_def uniq_filter)
qed

text \<open>Operations that change neither states nor links.\<close>

lemma inv_same_states:
  assumes inv: "queue_inv d" and ev: "evolves a now d d'" and t: "ed_tasks d' = List.map f (ed_tasks d)"
    and st: "\<And>r. r \<in> set (ed_tasks d) \<Longrightarrow> et_state (f r) = et_state r \<and> et_key (f r) = et_key r"
    and same: "ed_fanout d' = ed_fanout d" "ed_origins d' = ed_origins d" "ed_costs d' = ed_costs d"
      "ed_metrics d' = ed_metrics d" "ed_rewards d' = ed_rewards d" "ed_authority d' = ed_authority d"
  shows "queue_inv d'"
proof -
  have "\<exists>r \<in> set (ed_tasks d'). et_key r = k \<and> et_state r \<in> set claimable_states" if k: "k \<in> fst ` set (ed_fanout d')" for k
  proof -
    obtain r where "r \<in> set (ed_tasks d)" "et_key r = k" "et_state r \<in> set claimable_states"
      using k inv same(1) unfolding queue_inv_def links_ok_def fanout_for_def by auto
    with st t show ?thesis by (intro bexI [of _ "f r"]) auto
  qed
  moreover have "has_task (og_key o1) d'" if "o1 \<in> set (ed_origins d')" for o1
    using that inv same(2) evolves_has [OF ev] unfolding queue_inv_def links_ok_def by simp
  moreover have "\<exists>P. ed_fanout d' = filter P (ed_fanout d)" using same(1) by (intro exI [of _ "\<lambda>_. True"]) simp
  moreover have "uniq origin_key (ed_origins d')" using inv same(2) by (simp add: queue_inv_def links_ok_def)
  ultimately show ?thesis
    using inv evolved_rows(1) [OF ev] links_frame [OF _ ev] measures_frame [OF _ ev same(3-6)]
    unfolding queue_inv_def by blast
qed

lemma evolves_nonneg: "evolves a now d d' \<Longrightarrow> \<forall>x \<in> set (ed_tld_weights d'). 0 \<le> snd x"
  unfolding evolves_def by blast

lemma claimed_inv:
  assumes inv: "queue_inv d"
  shows "queue_inv (claimed also w limit u now d)" "evolves (Worker w) now d (claimed also w limit u now d)"
proof -
  show ev: "evolves (Worker w) now d (claimed also w limit u now d)"
    using inv by (intro claimed_evolves) (simp add: queue_inv_def)
  show "queue_inv (claimed also w limit u now d)"
    by (rule inv_same_states [OF inv ev, where f = "\<lambda>r. if r \<in> set (claim_rows also limit now d) then lease_to w u r else r"])
       (simp_all add: claimed_def)
qed

lemma renew_inv:
  assumes inv: "queue_inv d" and op: "queue_renew ks w ls now d = Inr (n, d')"
  shows "queue_inv d'" "evolves (Worker w) now d d'"
proof -
  let ?f = "\<lambda>r. if et_key r \<in> set ks \<and> et_lease_owner r = Some w then r\<lparr>et_lease_until := Some (now + ls)\<rparr> else r"
  have d': "d' = d\<lparr>ed_tasks := List.map ?f (ed_tasks d)\<rparr>"
    using op by (auto simp: queue_renew_def Let_def renew_tasks split: if_splits)
  show ev: "evolves (Worker w) now d d'"
    by (rule evolves_map [where f = ?f])
       (use inv in \<open>auto simp: d' queue_inv_def tasks_ok_def row_step_refl intro: row_step.extend\<close>)
  show "queue_inv d'" by (rule inv_same_states [OF inv ev, where f = ?f]) (simp_all add: d')
qed

lemma finish_inv:
  assumes inv: "queue_inv d" and op: "finish_results rs owner ra now d = Inr (n, d')"
  shows "queue_inv d'" "evolves (case owner of None \<Rightarrow> Override | Some w \<Rightarrow> Worker w) now d d'"
proof -
  show ev: "evolves (case owner of None \<Rightarrow> Override | Some w \<Rightarrow> Worker w) now d d'"
    by (rule finish_results_evolves [OF op]) (use inv in \<open>simp add: queue_inv_def\<close>)
  show "queue_inv d'"
  proof (cases "rs = []")
    case True
    with op inv show ?thesis by (simp add: finish_results_def)
  next
    case False
    from op False show ?thesis
    proof (cases rule: finish_results_cases)
      case 1
      have "\<exists>r \<in> set (ed_tasks d'). et_key r = k \<and> et_state r \<in> set claimable_states" if k: "k \<in> fst ` set (ed_fanout d')" for k
      proof -
        have k': "k \<notin> fst ` set rs" "k \<in> fst ` set (ed_fanout d)" using k by (auto simp: 1(5))
        then obtain r where "r \<in> set (ed_tasks d)" "et_key r = k" "et_state r \<in> set claimable_states"
          using inv unfolding queue_inv_def links_ok_def fanout_for_def by auto
        moreover have "map_of rs k = None" using k'(1) by (simp add: map_of_eq_None_iff)
        ultimately show ?thesis by (intro bexI [of _ r]) (auto simp: 1(5) intro!: image_eqI [of _ _ r])
      qed
      moreover have "uniq origin_key (ed_origins d')" "\<And>o1. o1 \<in> set (ed_origins d') \<Longrightarrow> has_task (og_key o1) d'"
        using inv evolves_has [OF ev] by (auto simp: 1(5) queue_inv_def links_ok_def)
      moreover have "\<exists>P. ed_fanout d' = filter P (ed_fanout d)" by (auto simp: 1(5))
      ultimately show ?thesis
        using inv evolved_rows(1) [OF ev] links_frame [OF _ ev, of] measures_frame [OF _ ev] 1(5)
        unfolding queue_inv_def by simp
    qed
  qed
qed

lemma finish_range_inv:
  assumes inv: "queue_inv d" and op: "finish_range_task k st fs w now d = Inr (n, d')" and v: "list_all valid_key fs"
  shows "queue_inv d'" "evolves (Worker w) now d d'"
proof -
  have ok: "tasks_ok d" using inv by (simp add: queue_inv_def)
  show ev: "evolves (Worker w) now d d'" and "queue_inv d'"
    using op ok
  proof (atomize(full), cases rule: finish_range_cases)
    case (1 r0 ks xs)
    have "row_step (Worker w) now r (if et_key r = k then settle st None r else r)" if "r \<in> set (ed_tasks d)" for r
      using that 1(1-4) etask.uniqD [of "ed_tasks d" r r0] ok
      by (auto simp: tasks_ok_def row_step_refl intro!: row_step.settle)
    moreover have "\<not> has_task k d \<and> valid_key k" if "k \<in> set ks" for k
      using that 1(7) v by (auto simp: list_all_iff)
    ultimately have ev: "evolves (Worker w) now d d'"
      using 1(8) ok unfolding evolves_def 1(10) tasks_ok_def
      by (intro conjI exI [of _ "\<lambda>r. if et_key r = k then settle st None r else r"] exI [of _ ks]) simp_all
    have "\<exists>r \<in> set (ed_tasks d'). et_key r = k' \<and> et_state r \<in> set claimable_states" if k': "k' \<in> fst ` set (ed_fanout d')" for k'
    proof -
      have "k' \<noteq> k" "k' \<in> fst ` set (ed_fanout d)" using k' by (auto simp: 1(10))
      then obtain r where "r \<in> set (ed_tasks d)" "et_key r = k'" "et_state r \<in> set claimable_states"
        using inv unfolding queue_inv_def links_ok_def fanout_for_def by auto
      with \<open>k' \<noteq> k\<close> show ?thesis by (intro bexI [of _ r]) (auto simp: 1(10) intro!: image_eqI [of _ _ r])
    qed
    moreover have "has_task (og_key o1) d'" if "o1 \<in> set (ed_origins d')" for o1
    proof (cases "o1 \<in> set (ed_origins d)")
      case True
      with inv evolves_has [OF ev] show ?thesis by (simp add: queue_inv_def links_ok_def)
    next
      case False
      with that 1(11) have "og_key o1 \<in> set fs" by (auto simp: 1(10))
      with 1(7) evolves_has [OF ev] show ?thesis by (cases "has_task (og_key o1) d") (auto simp: has_task_def 1(10))
    qed
    moreover have "uniq origin_key (ed_origins d')" using inv 1(12) by (simp add: 1(10) queue_inv_def links_ok_def)
    moreover have "\<exists>P. ed_fanout d' = filter P (ed_fanout d)" by (auto simp: 1(10))
    ultimately have "queue_inv d'"
      using inv evolved_rows(1) [OF ev ok] links_frame [OF _ ev] measures_frame [OF _ ev] 1(10)
      unfolding queue_inv_def by simp
    with ev show "evolves (Worker w) now d d' \<and> queue_inv d'" ..
  qed
qed

lemma enqueue_inv:
  assumes inv: "queue_inv d" and op: "enqueue_evidence_tasks ks d = (n, d')" and v: "list_all valid_key ks"
  shows "queue_inv d'" "evolves Admin now d d'"
proof -
  let ?ks = "dedup ks"
  obtain ks' where ks': "fold insert_task ?ks d = d\<lparr>ed_tasks := ed_tasks d @ List.map (fresh_task (ed_tld_weights d)) ks'\<rparr>"
      "set ks' = {k \<in> set ?ks. \<not> has_task k d}" "distinct ks'" using insert_tasks_tasks by blast
  let ?d = "d\<lparr>ed_tasks := ed_tasks d @ List.map (fresh_task (ed_tld_weights d)) ks'\<rparr>"
  have ok: "tasks_ok d" "links_ok d" "measures_ok d" using inv by (simp_all add: queue_inv_def)
  have "uniq fst (ed_fanout ?d)" using ok(2) by (simp add: links_ok_def)
  then obtain xs where xs: "fold reserve_fanout (filter needs_fanout ?ks) ?d = ?d\<lparr>ed_fanout := ed_fanout ?d @ xs\<rparr>"
      "\<forall>x \<in> set xs. fanout_for ?d x" "uniq fst (ed_fanout ?d @ xs)"
    using reserve_fanouts [of "filter needs_fanout ?ks" ?d] by auto
  have d': "d' = ?d\<lparr>ed_fanout := ed_fanout d @ xs\<rparr>" using op xs(1) by (simp add: enqueue_evidence_tasks_def Let_def ks'(1))
  show ev: "evolves Admin now d d'"
    using ks'(2,3) v ok(1) unfolding evolves_def d' tasks_ok_def
    by (intro conjI exI [of _ id] exI [of _ ks']) (auto simp: row_step_refl list_all_iff)
  have "fanout_for d' x" if "fanout_for d x \<or> fanout_for ?d x" for x
    using that by (auto simp: fanout_for_def d')
  moreover have "has_task (og_key o1) d'" if "o1 \<in> set (ed_origins d')" for o1
    using that ok(2) evolves_has [OF ev] by (simp add: links_ok_def d')
  ultimately have "links_ok d'" using ok(2) xs(2,3) by (auto simp: links_ok_def d')
  then show "queue_inv d'"
    using evolved_rows(1) [OF ev ok(1)] measures_frame [OF ok(3) ev] by (simp add: queue_inv_def d')
qed

lemma normalize_weights_nonneg: "\<forall>x \<in> set (normalize_weights ws). 0 \<le> snd x"
proof -
  let ?f = "\<lambda>(raw, w) ws. let tld = dropWhile (\<lambda>c. c = CHR ''.'') (py_lower (py_strip raw)) in
     if tld \<noteq> [] \<and> 0 \<le> w then AList.update tld w ws else ws"
  have up: "\<forall>x \<in> set (AList.update k v al). P (snd x)" if "\<forall>x \<in> set al. P (snd x)" "P v"
    for k :: string and v :: rat and al P using that by (induction al) auto
  have "\<forall>x \<in> set acc. 0 \<le> snd x \<Longrightarrow> \<forall>x \<in> set (fold ?f ws acc). 0 \<le> snd x" for acc :: "(string \<times> rat) list"
  proof (induction ws arbitrary: acc)
    case (Cons x ws)
    obtain raw w where x: "x = (raw, w)" by (cases x)
    have "\<forall>y \<in> set (?f x acc). 0 \<le> snd y" using Cons.prems up [of acc "\<lambda>v. 0 \<le> v" w] by (auto simp: x Let_def)
    then show ?case using Cons.IH [of "?f x acc"] by simp
  qed simp
  from this [of "[]"] show ?thesis unfolding normalize_weights_def by simp
qed

lemma reweigh_inv:
  assumes inv: "queue_inv d" and op: "set_eed_tld_weights ws d = (n, d')"
  shows "queue_inv d'" "evolves Admin now d d'"
proof -
  let ?ws = "sort_key fst (normalize_weights ws)"
  let ?f = "\<lambda>r. r\<lparr>et_eed_weight := tld_weight ?ws (qk_hostname (et_key r))\<rparr>"
  have d': "d' = d\<lparr>ed_tld_weights := ?ws, ed_tasks := List.map ?f (ed_tasks d)\<rparr>"
    using op by (auto simp: set_eed_tld_weights_def Let_def tbl_update_def)
  have nn: "\<forall>x \<in> set ?ws. 0 \<le> snd x" using normalize_weights_nonneg by simp
  show ev: "evolves Admin now d d'"
    by (rule evolves_map [where f = ?f]) (use nn tld_weight_nonneg [OF nn] in \<open>auto simp: d' intro!: row_step.reweigh\<close>)
  show "queue_inv d'" by (rule inv_same_states [OF inv ev, where f = ?f]) (simp_all add: d')
qed

lemma same_tasks_evolve: "queue_inv d \<Longrightarrow> ed_tasks d' = ed_tasks d \<Longrightarrow> ed_tld_weights d' = ed_tld_weights d \<Longrightarrow> evolves a now d d'"
  by (rule evolves_same) (simp_all add: queue_inv_def tasks_ok_def)

lemma origins_inv:
  assumes inv: "queue_inv d" and op: "record_task_origins ks sk ri li when d = Inr (n, d')"
  shows "queue_inv d'" "evolves Admin now d d'"
proof -
  obtain os where "fold_result insert_origin os d = Inr d'" using op by (auto simp: record_task_origins_def)
  from insert_origins [OF this] obtain xs where xs: "d' = d\<lparr>ed_origins := ed_origins d @ xs\<rparr>"
      "uniq origin_key (ed_origins d) \<longrightarrow> uniq origin_key (ed_origins d @ xs)" "\<forall>x \<in> set xs. has_task (og_key x) d" by blast
  show ev: "evolves Admin now d d'" by (rule same_tasks_evolve [OF inv]) (simp_all add: xs(1))
  have "links_ok d'" using inv xs by (auto simp: queue_inv_def links_ok_def fanout_for_def has_task_def)
  then show "queue_inv d'"
    using inv evolved_rows(1) [OF ev] measures_frame [OF _ ev] by (simp add: queue_inv_def xs(1))
qed

lemma find_upsert:
  "uniq cs_task_kind t \<Longrightarrow> (\<And>c. cs_task_kind (f c) = cs_task_kind c) \<Longrightarrow>
   tbl_find (\<lambda>c. cs_task_kind c = k) (tbl_upsert cs_task_kind f r t) =
     (if k = cs_task_kind r then Some (case tbl_find (\<lambda>c. cs_task_kind c = k) t of None \<Rightarrow> r | Some c \<Rightarrow> f c)
      else tbl_find (\<lambda>c. cs_task_kind c = k) t)"
proof (cases "cs_task_kind r \<in> set (List.map cs_task_kind t)")
  case True
  assume a: "uniq cs_task_kind t" "\<And>c. cs_task_kind (f c) = cs_task_kind c"
  have "\<exists>c. tbl_find (\<lambda>c. cs_task_kind c = cs_task_kind r) t = Some c"
    using True by (cases "tbl_find (\<lambda>c. cs_task_kind c = cs_task_kind r) t") (auto simp: tbl_find_None)
  then show ?thesis using True cost.find_after_update [OF _ a(1), of f k "cs_task_kind r"] a(2) by (auto simp: tbl_upsert_def)
next
  case False
  then have "tbl_find (\<lambda>c. cs_task_kind c = cs_task_kind r) t = None" unfolding tbl_find_None by (metis image_eqI set_map)
  moreover have "tbl_find P (t @ [r]) = (case tbl_find P t of None \<Rightarrow> if P r then Some r else None | Some c \<Rightarrow> Some c)" for P
    unfolding tbl_find_def by (induction t) auto
  ultimately show ?thesis using False by (auto simp: tbl_upsert_def split: option.splits)
qed

lemma metric_inv:
  assumes inv: "queue_inv d" and op: "record_attempt_metric m0 d = Inr (b, d')"
  shows "queue_inv d'" "evolves Admin now d d'"
proof -
  define m where "m = m0\<lparr>mt_task_kind := classify (mt_key m0)\<rparr>"
  have key: "mt_key m = mt_key m0" "mt_task_kind m = classify (mt_key m)" by (simp_all add: m_def)
  let ?new = "\<lparr>cs_task_kind = mt_task_kind m, cs_attempts = 1, cs_provider_requests = mt_provider_requests m,
            cs_elapsed_milliseconds = mt_elapsed_milliseconds m, cs_pages_seen = mt_pages_seen m,
            cs_records_seen = mt_records_seen m, cs_updated_at = mt_recorded_at m\<rparr>"
  have "d' = d \<or> (d' = d\<lparr>ed_metrics := ed_metrics d @ [m], ed_costs := tbl_upsert cs_task_kind (add_cost m) ?new (ed_costs d)\<rparr> \<and>
      (mt_key m, mt_attempt m) \<notin> (\<lambda>r. (mt_key r, mt_attempt r)) ` set (ed_metrics d) \<and> has_task (mt_key m) d \<and>
      0 \<le> mt_provider_requests m)"
    using op unfolding record_attempt_metric_def m_def [symmetric] by (auto simp: Let_def m_def split: if_splits)
  then consider "d' = d" | (ins) "d' = d\<lparr>ed_metrics := ed_metrics d @ [m], ed_costs := tbl_upsert cs_task_kind (add_cost m) ?new (ed_costs d)\<rparr>"
      "(mt_key m, mt_attempt m) \<notin> (\<lambda>r. (mt_key r, mt_attempt r)) ` set (ed_metrics d)" "has_task (mt_key m) d"
      "0 \<le> mt_provider_requests m" by blast
  then have "queue_inv d' \<and> evolves Admin now d d'"
  proof cases
    case 1
    then show ?thesis using inv by (auto intro: same_tasks_evolve)
  next
    case ins
    have ev: "evolves Admin now d d'" by (rule same_tasks_evolve [OF inv]) (simp_all add: ins(1))
    have kk: "cs_task_kind (add_cost m c) = cs_task_kind c" for c by (simp add: add_cost_def)
    have u: "uniq cs_task_kind (ed_costs d)" and sums: "cost_is_sum d" using inv by (simp_all add: queue_inv_def measures_ok_def)
    have met: "metrics_of k d' = metrics_of k d @ (if k = mt_task_kind m then [m] else [])" for k
      by (simp add: metrics_of_def ins(1))
    have "cost_of k d' = (if k = mt_task_kind m then Some (case cost_of k d of None \<Rightarrow> ?new | Some c \<Rightarrow> add_cost m c) else cost_of k d)" for k
      using find_upsert [OF u kk, of k ?new] by (simp add: cost_of_def ins(1))
    moreover have "cost_matches (Some (case c of None \<Rightarrow> ?new | Some c \<Rightarrow> add_cost m c)) (ms @ [m])" if "cost_matches c ms" for c ms
      using that by (cases c) (simp_all add: cost_matches_def add_cost_def)
    ultimately have "cost_is_sum d'" using sums unfolding cost_is_sum_def met by simp
    moreover have "uniq cs_task_kind (ed_costs d')" using cost.uniq_upsert [OF _ u] kk by (simp add: ins(1))
    moreover have "links_ok d'"
      using inv by (simp_all add: queue_inv_def links_ok_def ins(1) fanout_for_def has_task_def)
    moreover have "uniq (\<lambda>m. (mt_key m, mt_attempt m)) (ed_metrics d')"
      using inv ins(2) by (auto simp: queue_inv_def measures_ok_def uniq_def ins(1))
    ultimately show ?thesis
      using inv evolved_rows(1) [OF ev] ev ins key
      by (auto simp: queue_inv_def measures_ok_def has_task_def)
  qed
  then show "queue_inv d'" "evolves Admin now d d'" by simp_all
qed

lemma publish_inv:
  assumes inv: "queue_inv d" and op: "publish_rewards rws b m now d = Inr (c, d')"
  shows "queue_inv d'" "evolves Admin now' d d'"
proof -
  have up: "\<forall>x \<in> set (fold (\<lambda>r. tbl_upsert rw_task_kind (\<lambda>_. r) r) rows t). P x"
    if "\<forall>x \<in> set t. P x" "\<forall>x \<in> set rows. P x" for rows t and P :: "reward_row \<Rightarrow> bool"
    using that
  proof (induction rows arbitrary: t)
    case (Cons r rows)
    have "\<forall>x \<in> set (tbl_upsert rw_task_kind (\<lambda>_. r) r t). P x"
      using Cons.prems by (auto simp: tbl_upsert_def table_simps)
    with Cons show ?case by simp
  qed simp
  define kept where "kept = (if c then [] else ed_rewards d)"
  have sub: "set kept \<subseteq> set (ed_rewards d)" by (simp add: kept_def)
  have "\<forall>r \<in> set (reward_rows rws now). 0 \<le> rw_host_years r \<and> 0 \<le> rw_eed r"
      "d' = d\<lparr>ed_authority := Some (b, m, now),
          ed_rewards := fold (\<lambda>r. tbl_upsert rw_task_kind (\<lambda>_. r) r) (reward_rows rws now) kept\<rparr>"
    using op by (auto simp: publish_rewards_def Let_def list_all_iff kept_def split: if_splits)
  note kept = sub this
  show ev: "evolves Admin now' d d'" by (rule same_tasks_evolve [OF inv]) (simp_all add: kept(3))
  have "\<forall>r \<in> set (ed_rewards d'). 0 \<le> rw_host_years r \<and> 0 \<le> rw_eed r"
  proof -
    have "\<forall>r \<in> set kept. 0 \<le> rw_host_years r \<and> 0 \<le> rw_eed r"
      using kept(1) inv unfolding queue_inv_def measures_ok_def by blast
    from up [OF this kept(2)] show ?thesis by (simp add: kept(3))
  qed
  moreover have "cost_is_sum d' = cost_is_sum d" unfolding cost_is_sum_def metrics_of_def cost_of_def kept(3) by simp
  ultimately show "queue_inv d'"
    using inv evolved_rows(1) [OF ev] by (simp add: queue_inv_def measures_ok_def links_ok_def kept(3) fanout_for_def has_task_def)
qed

lemma invalidate_inv:
  assumes inv: "queue_inv d"
  shows "queue_inv (invalidate_rewards d)" "evolves Admin now d (invalidate_rewards d)"
proof -
  let ?d = "invalidate_rewards d"
  show ev: "evolves Admin now d ?d" by (rule same_tasks_evolve [OF inv]) (simp_all add: invalidate_rewards_def)
  have "cost_is_sum ?d = cost_is_sum d" unfolding cost_is_sum_def metrics_of_def cost_of_def invalidate_rewards_def by simp
  then show "queue_inv ?d"
    using inv evolved_rows(1) [OF ev]
    by (simp add: queue_inv_def measures_ok_def links_ok_def invalidate_rewards_def fanout_for_def has_task_def)
qed

lemma queue_step_inv:
  assumes "queue_step a now d d'" "queue_inv d"
  shows "queue_inv d' \<and> evolves a now d d'"
  using assms
proof (induction rule: queue_step.induct)
  case (claim w limit ps ls now d ts d')
  from claim.prems have "tasks_ok d" by (simp add: queue_inv_def)
  with claim.hyps show ?case
    using claim.prems claimed_inv [OF claim.prems] same_tasks_evolve [OF claim.prems refl refl] by (elim claim_cases) auto
next
  case (store_claim w limit ls ks now d ts d')
  from store_claim.prems have "tasks_ok d" by (simp add: queue_inv_def)
  with store_claim.hyps show ?case
    using store_claim.prems claimed_inv [OF store_claim.prems] same_tasks_evolve [OF store_claim.prems refl refl]
    by (elim store_claim_cases) auto
next
  case (renew ks w ls now d n d')
  then show ?case using renew_inv by blast
next
  case (finish_range k st fs w now d n d')
  then show ?case using finish_range_inv by blast
next
  case (finish_tasks rs w now d n d')
  then show ?case using finish_inv [of d _ "Some w"] by (auto simp: finish_evidence_tasks_def)
next
  case (finish_task k st w ra now d n d')
  then show ?case using finish_inv [of d _ "Some w"] by (auto simp: finish_evidence_task_def)
next
  case (override k st ra now d n d')
  then show ?case using finish_inv [of d _ None] by (auto simp: finish_evidence_task_def)
next
  case (enqueue ks d n d' now)
  then show ?case using enqueue_inv by blast
next
  case (reweigh ws d n d' now)
  then show ?case using reweigh_inv by blast
next
  case (origins ks sk ri li t d n d' now)
  then show ?case using origins_inv by blast
next
  case (metric m d b d' now)
  then show ?case using metric_inv by blast
next
  case (publish rws b m now d c d')
  then show ?case using publish_inv by blast
next
  case (invalidate now d)
  then show ?case using invalidate_inv by blast
qed

lemma queue_leases: "queue_inv d \<Longrightarrow> spec_inv final_state (queue_abs d)"
  unfolding spec_inv_def queue_abs_def
proof (intro allI impI)
  fix k t assume inv: "queue_inv d" and t: "map_option ticket (tbl_find (\<lambda>r. et_key r = k) (ed_tasks d)) = Some t" "tt_lease t \<noteq> None"
  then obtain r where "r \<in> set (ed_tasks d)" "t = ticket r" by (auto dest: tbl_find_SomeD)
  moreover from this inv have "row_ok r" by (simp add: queue_inv_def tasks_ok_def)
  ultimately show "\<not> final_state (tt_state t)"
    using t(2) claimable_not_final by (cases "tt_lease t") (auto simp: row_ok_def)
qed

interpretation evidence: visibility "\<lambda>d. \<exists>rs ls. d = empty_queue rs ls" queue_step queue_inv final_state queue_abs
proof
  show "queue_inv s" if "\<exists>rs ls. s = empty_queue rs ls" for s using that empty_inv by blast
  show "queue_inv t" if "queue_inv s" "queue_step a now s t" for s t a now using that queue_step_inv by blast
  show "spec_inv final_state (queue_abs s)" if "queue_inv s" for s using that by (rule queue_leases)
  show "spec_step final_state a now (queue_abs s) (queue_abs t)" if "queue_inv s" "queue_step a now s t" for s t a now
    using that queue_step_inv [of a now s t] evolved_rows(2) by (auto simp: queue_inv_def)
qed

section \<open>Reachable queues\<close>

definition queue_reachable :: "evidence_db \<Rightarrow> bool" where
  "queue_reachable d \<longleftrightarrow> (\<exists>rs ls. (\<lambda>s t. \<exists>a now. queue_step a now s t)\<^sup>*\<^sup>* (empty_queue rs ls) d)"

lemma reachable_inv: "queue_reachable d \<Longrightarrow> queue_inv d"
  unfolding queue_reachable_def using evidence.inv_reachable by blast

lemma reachable_start: "queue_reachable (empty_queue rs ls)"
  unfolding queue_reachable_def by blast

lemma reachable_step: "queue_reachable d \<Longrightarrow> queue_step a now d d' \<Longrightarrow> queue_reachable d'"
proof -
  assume "queue_reachable d" and st: "queue_step a now d d'"
  then obtain rs ls where "(\<lambda>s t. \<exists>a now. queue_step a now s t)\<^sup>*\<^sup>* (empty_queue rs ls) d"
    unfolding queue_reachable_def by blast
  then have "(\<lambda>s t. \<exists>a now. queue_step a now s t)\<^sup>*\<^sup>* (empty_queue rs ls) d'"
    by (rule rtranclp.rtrancl_into_rtrancl) (use st in blast)
  then show "queue_reachable d'" unfolding queue_reachable_def by blast
qed

text \<open>A queue with one enqueued task, and the same queue after a claim, for the witnesses.\<close>

definition demo_key :: query_key where
  "demo_key = \<lparr>qk_hostname = ''a.com'', qk_temporal_scope = \<lparr>ts_from = 1996, ts_to = 1998\<rparr>, qk_provider = ''w'',
     qk_policy_version = ''v''\<rparr>"

lemma demo_valid: "valid_key demo_key"
proof -
  have "\<not> blank ''w''" "\<not> blank ''v''" by (simp_all add: blank_iff py_space_def Let_def)
  then show ?thesis by (simp add: valid_key_def demo_key_def year_from_def year_to_def demo_host)
qed

definition demo_queue :: evidence_db where
  "demo_queue = snd (enqueue_evidence_tasks [demo_key] (empty_queue [] []))"

lemma demo_tasks: "demo_queue = (empty_queue [] [])\<lparr>ed_tasks := [fresh_task [] demo_key], ed_fanout := [(demo_key, 2)]\<rparr>"
  by (simp add: demo_queue_def enqueue_evidence_tasks_def insert_task_eq has_task_def empty_queue_def dedup_def Let_def
      needs_fanout_def reserve_fanout_def demo_key_def year_from_def year_to_def tbl_find_def fresh_task_def
      claimable_states_def tbl_insert_or_ignore_def)

lemma demo_reachable: "queue_reachable demo_queue"
  by (rule reachable_step [OF reachable_start queue_step.enqueue [of "[demo_key]"]])
     (auto simp: demo_queue_def demo_valid intro: prod.collapse [symmetric])

end
