(* ===== verification/Evidence_Queue_Properties.thy ===== *)
theory Evidence_Queue_Properties
  imports Evidence_Queue_Invariant
begin

text \<open>
  What the evidence queue promises its users: consistent tables, exclusive leases, claims of the most
  valuable work, atomic completion, and that abandoned work comes back.
\<close>

section \<open>Consistency and refinement\<close>

text \<open>
  C11: the tables of a reachable evidence queue are consistent. Task keys are unique; a
  task has a lease owner exactly when it has a deadline, and only while it is open; a fanout reservation
  belongs to an open multi-year task and has its extra years as amount; origins and attempt metrics
  refer to existing tasks; and the cost table of every action class holds the totals of its attempts.
\<close>

theorem queue_tables_consistent:
  assumes "queue_reachable d"
  shows "distinct (List.map et_key (ed_tasks d)) \<and>
    (\<forall>r \<in> set (ed_tasks d). (et_lease_owner r = None \<longleftrightarrow> et_lease_until r = None) \<and>
       (et_lease_owner r \<noteq> None \<longrightarrow> et_state r \<in> {Q_PENDING, Q_INCOMPLETE, Q_TRANSIENT_ERROR})) \<and>
    distinct (List.map fst (ed_fanout d)) \<and>
    (\<forall>(k, n) \<in> set (ed_fanout d). 0 < n \<and> n = year_to k - year_from k \<and>
       (\<exists>r \<in> set (ed_tasks d). et_key r = k \<and> et_state r \<in> {Q_PENDING, Q_INCOMPLETE, Q_TRANSIENT_ERROR})) \<and>
    (\<forall>o1 \<in> set (ed_origins d). has_task (og_key o1) d) \<and> (\<forall>m \<in> set (ed_metrics d). has_task (mt_key m) d) \<and>
    (\<forall>k. cost_matches (cost_of k d) (metrics_of k d))"
proof -
  have states: "set claimable_states = {Q_PENDING, Q_INCOMPLETE, Q_TRANSIENT_ERROR}"
    by (auto simp: claimable_states_def retryable_states_def)
  have inv: "queue_inv d" by (rule reachable_inv [OF assms])
  have "\<forall>(k, n) \<in> set (ed_fanout d). 0 < n \<and> n = year_to k - year_from k \<and>
       (\<exists>r \<in> set (ed_tasks d). et_key r = k \<and> et_state r \<in> {Q_PENDING, Q_INCOMPLETE, Q_TRANSIENT_ERROR})"
  proof clarify
    fix k n assume "(k, n) \<in> set (ed_fanout d)"
    with inv have "fanout_for d (k, n)" unfolding queue_inv_def links_ok_def by blast
    then show "0 < n \<and> n = year_to k - year_from k \<and>
       (\<exists>r \<in> set (ed_tasks d). et_key r = k \<and> et_state r \<in> {Q_PENDING, Q_INCOMPLETE, Q_TRANSIENT_ERROR})"
      unfolding fanout_for_def states by simp
  qed
  then show ?thesis
    using inv unfolding queue_inv_def tasks_ok_def links_ok_def measures_ok_def cost_is_sum_def uniq_def row_ok_def states
    by blast
qed

theorem queue_tables_consistent_witness:
  "\<exists>d. queue_reachable d \<and> ed_fanout d = [(demo_key, 2)] \<and> distinct (List.map et_key (ed_tasks d))"
  using queue_tables_consistent [OF demo_reachable] demo_reachable by (intro exI [of _ demo_queue]) (simp add: demo_tasks)

text \<open>
  C12: the queue refines its specification. Every operation on a reachable queue is, under
  the abstraction to tickets, a step of the specification: a new key starts open and free; a worker takes
  an open ticket whose lease is over, extends or settles its own, and administration leaves every ticket
  as it is.
\<close>

theorem queue_refines_spec:
  assumes "queue_reachable d" "queue_step a now d d'"
  shows "spec_step final_state a now (queue_abs d) (queue_abs d') \<and> spec_inv final_state (queue_abs d')"
  using evidence.refines [OF reachable_inv assms(2)] queue_leases [OF reachable_inv [OF reachable_step]] assms by blast

lemma demo_claimable: "task_claimable now (fresh_task ws k)"
  by (simp add: task_claimable_def claimable_states_def)

lemma demo_rows: "also (fresh_task [] demo_key) \<Longrightarrow> 1 \<le> limit \<Longrightarrow> claim_rows also limit now demo_queue = [fresh_task [] demo_key]"
  by (simp add: claim_rows_def demo_tasks demo_claimable tbl_order_by_def empty_queue_def take_Cons')

definition demo_leased :: evidence_db where
  "demo_leased = demo_queue\<lparr>ed_tasks := [lease_to ''w1'' 10 (fresh_task [] demo_key)]\<rparr>"

lemma demo_queue_claim: "queue_claim ''w1'' 1 [''w''] 10 0 demo_queue =
    Inr ([task_of ''w1'' 10 (fresh_task [] demo_key) demo_key], demo_leased)"
proof -
  have d: "ed_tasks demo_queue = [fresh_task [] demo_key]" by (simp add: demo_tasks)
  have "claim_rows (\<lambda>r. qk_provider (et_key r) \<in> set (dedup (filter (\<lambda>p. p \<noteq> []) [''w'']))) 1 0 demo_queue = [fresh_task [] demo_key]"
    by (rule demo_rows) (simp_all add: demo_key_def)
  moreover have "row_key (fresh_task [] demo_key) = Inr demo_key" using row_key_valid [of "fresh_task [] demo_key"] demo_valid by simp
  moreover have "\<not> blank ''w1''" by (simp add: blank_iff py_space_def Let_def)
  ultimately show ?thesis
    by (simp add: queue_claim_def Let_def lease_rows_eq d unleased_def demo_leased_def dedup_def)
qed

lemma demo_leased_reachable: "queue_reachable demo_leased"
  by (rule reachable_step [OF demo_reachable queue_step.claim [OF demo_queue_claim]])

theorem queue_refines_spec_witness:
  "spec_step final_state (Worker ''w1'') 0 (queue_abs demo_queue) (queue_abs demo_leased) \<and>
   queue_abs demo_leased demo_key = Some \<lparr>tt_state = Q_PENDING, tt_lease = Some (''w1'', 10)\<rparr>"
  using queue_refines_spec [OF demo_reachable queue_step.claim [OF demo_queue_claim]]
  by (simp add: queue_abs_def demo_leased_def tbl_find_def ticket_def)

section \<open>Exclusive leases\<close>

lemma abs_row:
  assumes "queue_inv d" "r \<in> set (ed_tasks d)"
  shows "queue_abs d (et_key r) = Some (ticket r)"
  using etask.find_by_key [OF _ assms(2)] assms(1) by (simp add: queue_abs_def queue_inv_def tasks_ok_def)

lemma abs_SomeD: "queue_abs d k = Some t \<Longrightarrow> \<exists>r \<in> set (ed_tasks d). et_key r = k \<and> t = ticket r"
  unfolding queue_abs_def using tbl_find_SomeD by fastforce

lemma task_of_fields [simp]: "tk_key (task_of w u r k) = k" "tk_state (task_of w u r k) = et_state r"
  "tk_attempt (task_of w u r k) = et_attempt r + 1"
  by (simp_all add: task_of_def)

lemma claim_returns:
  assumes "queue_claim w limit ps ls now d = Inr (ts, d')" "queue_inv d" "tk \<in> set ts"
  shows "\<exists>r \<in> set (ed_tasks d). tk = task_of w (now + ls) r (et_key r) \<and> task_claimable now r \<and>
    queue_abs d' (et_key r) = Some (ticket (lease_to w (now + ls) r))"
proof -
  have ok: "tasks_ok d" using assms(2) by (simp add: queue_inv_def)
  have inv': "queue_inv d'" using queue_step_inv [OF queue_step.claim [OF assms(1)] assms(2)] by simp
  from assms(1) ok show ?thesis
  proof (cases rule: claim_cases)
    case (2 q u)
    then obtain r where r: "r \<in> set (claim_rows q limit now d)" "tk = task_of w u r (et_key r)" using assms(3) by auto
    from claim_rows_sub [OF r(1)] have "r \<in> set (ed_tasks d)" "task_claimable now r" by auto
    moreover have "lease_to w u r \<in> set (ed_tasks d')"
      using r(1) claim_rows_sub [OF r(1)] by (auto simp: 2(7) claimed_def intro!: image_eqI [of _ _ r])
    then have "queue_abs d' (et_key r) = Some (ticket (lease_to w u r))" using abs_row [OF inv'] by fastforce
    ultimately show ?thesis using r(2) 2(2) by auto
  qed (use assms(3) in simp)
qed

text \<open>
  C13: a claimed task is exclusive until its deadline. After a worker claims a task, whatever the other
  workers and the administration do before the lease ends, the task keeps its state and its
  lease, and no claim of theirs returns it.
\<close>

theorem claimed_task_exclusive:
  assumes reach: "queue_reachable d" and claim: "queue_claim w limit ps ls now d = Inr (ts, d1)" "tk \<in> set ts"
    and others: "run queue_step as d1 d2" "\<And>a t. (a, t) \<in> set as \<Longrightarrow> t < now + ls \<and> a \<noteq> Worker w \<and> a \<noteq> Override"
  shows "queue_abs d2 (tk_key tk) = Some \<lparr>tt_state = tk_state tk, tt_lease = Some (w, now + ls)\<rparr> \<and>
    (\<forall>w' limit' ps' ls' t ts' d3. t < now + ls \<and> queue_claim w' limit' ps' ls' t d2 = Inr (ts', d3) \<longrightarrow>
       tk_key tk \<notin> tk_key ` set ts')"
proof -
  have inv: "queue_inv d" and inv1: "queue_inv d1"
    using reachable_inv [OF reach] reachable_inv [OF reachable_step [OF reach queue_step.claim [OF claim(1)]]] .
  obtain r where r: "r \<in> set (ed_tasks d)" "tk = task_of w (now + ls) r (et_key r)"
      "queue_abs d1 (et_key r) = Some (ticket (lease_to w (now + ls) r))"
    using claim_returns [OF claim(1) inv claim(2)] by blast
  have kept: "queue_abs d2 (et_key r) = Some (ticket (lease_to w (now + ls) r))"
    by (rule evidence.lease_excludes [OF others(1) inv1 r(3), of w "now + ls"]) (use others(2) in auto)
  have inv2: "queue_inv d2" using others(1) inv1
    by (induction rule: run.induct) (auto dest: queue_step_inv)
  have "tk_key tk \<notin> tk_key ` set ts'" if early: "t < now + ls" and cl: "queue_claim w' limit' ps' ls' t d2 = Inr (ts', d3)" for w' limit' ps' ls' t ts' d3
  proof
    assume "tk_key tk \<in> tk_key ` set ts'"
    then obtain tk' where tk': "tk' \<in> set ts'" "tk_key tk' = tk_key tk" by auto
    then obtain r' where r': "r' \<in> set (ed_tasks d2)" "et_key r' = et_key r" "task_claimable t r'"
      using claim_returns [OF cl inv2 tk'(1)] r(2) tk'(2) by (metis task_of_fields(1))
    with abs_row [OF inv2 r'(1)] kept have "ticket r' = ticket (lease_to w (now + ls) r)" by simp
    then have "tt_lease (ticket r') = Some (w, now + ls)" by simp
    with r'(3) early show False by (simp add: task_claimable_def)
  qed
  moreover have key: "tk_key tk = et_key r" "tk_state tk = et_state r" by (simp_all only: r(2) task_of_fields)
  moreover have "ticket (lease_to w (now + ls) r) = \<lparr>tt_state = tk_state tk, tt_lease = Some (w, now + ls)\<rparr>"
    unfolding key(2) by (simp add: ticket_def)
  ultimately show ?thesis using kept by metis
qed

theorem claimed_task_exclusive_witness:
  "\<exists>d1 tk. queue_claim ''w1'' 1 [''w''] 10 0 demo_queue = Inr ([tk], d1) \<and>
     (\<exists>d2. run queue_step [(Admin, 5)] d1 d2 \<and> queue_abs d2 (tk_key tk) = Some \<lparr>tt_state = tk_state tk, tt_lease = Some (''w1'', 10)\<rparr>)"
proof -
  have run: "run queue_step [(Admin, 5)] demo_leased (invalidate_rewards demo_leased)"
    by (rule run.go, rule queue_step.invalidate, rule run.stop)
  let ?tk = "task_of ''w1'' 10 (fresh_task [] demo_key) demo_key"
  from claimed_task_exclusive [OF demo_reachable demo_queue_claim _ run, of ?tk]
  have "queue_abs (invalidate_rewards demo_leased) (tk_key ?tk) = Some \<lparr>tt_state = tk_state ?tk, tt_lease = Some (''w1'', 10)\<rparr>"
    by auto
  with demo_queue_claim run show ?thesis by blast
qed

text \<open>
  C14: a finished task stays finished. Once a task is in a terminal state, no sequence of operations
  short of finishing it again without an owner changes its state or leases it, and no claim returns it.
\<close>

theorem finished_task_final:
  assumes "queue_reachable d" "queue_abs d k = Some t" "tt_state t \<in> {Q_PASS, Q_EMPTY_EXHAUSTIVE, Q_DECOMPOSED, Q_INVALID}"
    and "run queue_step as d d'" "\<And>a now. (a, now) \<in> set as \<Longrightarrow> a \<noteq> Override"
  shows "queue_abs d' k = Some t \<and> tt_lease t = None \<and>
    (\<forall>w limit ps ls now ts d''. queue_claim w limit ps ls now d' = Inr (ts, d'') \<longrightarrow> k \<notin> tk_key ` set ts)"
proof -
  have fin: "final_state (tt_state t)" using assms(3) by (auto simp: final_state_def terminal_states_def)
  have inv: "queue_inv d" by (rule reachable_inv [OF assms(1)])
  have inv': "queue_inv d'" using assms(4) inv by (induction rule: run.induct) (auto dest: queue_step_inv)
  have kept: "queue_abs d' k = Some t" by (rule evidence.final_stays [OF assms(4) inv assms(2) fin assms(5)])
  have "k \<notin> tk_key ` set ts" if cl: "queue_claim w limit ps ls now d' = Inr (ts, d'')" for w limit ps ls now ts d''
  proof
    assume "k \<in> tk_key ` set ts"
    then obtain tk where "tk \<in> set ts" "k = tk_key tk" by blast
    then obtain r where r: "r \<in> set (ed_tasks d')" "et_key r = k" "task_claimable now r"
      using claim_returns [OF cl inv'] by (metis task_of_fields(1))
    with abs_row [OF inv' r(1)] kept have "et_state r = tt_state t" by auto
    with r(3) fin claimable_not_final show False by (auto simp: task_claimable_def)
  qed
  moreover have "tt_lease t = None" using queue_leases [OF inv] assms(2) fin unfolding spec_inv_def by metis
  ultimately show ?thesis using kept by blast
qed

definition demo_done :: evidence_db where
  "demo_done = (empty_queue [] [])\<lparr>ed_tasks := [settle Q_PASS None (lease_to ''w1'' 10 (fresh_task [] demo_key))]\<rparr>"

lemma demo_finish: "finish_range_task demo_key Q_PASS [] ''w1'' 5 demo_leased = Inr (0, demo_done)"
proof -
  have "\<not> blank ''w1''" by (simp add: blank_iff py_space_def Let_def)
  then show ?thesis
    by (simp add: finish_range_task_def demo_leased_def demo_tasks demo_done_def terminal_states_def demo_key_def year_from_def
        year_to_def tbl_find_def held_by_def tbl_update_def drop_fanout_def tbl_delete_def empty_queue_def Let_def)
qed

lemma demo_done_reachable: "queue_reachable demo_done"
  by (rule reachable_step [OF demo_leased_reachable queue_step.finish_range [OF demo_finish]]) simp

theorem finished_task_final_witness:
  "\<exists>d. queue_reachable demo_done \<and> run queue_step [(Admin, 7)] demo_done d \<and>
     queue_abs d demo_key = Some \<lparr>tt_state = Q_PASS, tt_lease = None\<rparr>"
proof -
  have run: "run queue_step [(Admin, 7)] demo_done (invalidate_rewards demo_done)"
    by (rule run.go, rule queue_step.invalidate, rule run.stop)
  have "queue_abs demo_done demo_key = Some \<lparr>tt_state = Q_PASS, tt_lease = None\<rparr>"
    by (simp add: queue_abs_def demo_done_def tbl_find_def ticket_def)
  from finished_task_final [OF demo_done_reachable this _ run] run demo_done_reachable show ?thesis by auto
qed

section \<open>Claiming\<close>

definition value_score :: "evidence_db \<Rightarrow> etask \<Rightarrow> py_error + rat" where
  "value_score d r = (let k = sql_kind (et_key r) in
     task_value_score k (et_eed_weight r) (if_authority d (opt_field rw_host_years 0 (reward_of k d)))
       (if_authority d (opt_field cs_provider_requests 0 (cost_of k d)))
       (if_authority d (opt_field cs_attempts 0 (cost_of k d))) (et_attempt r))"

lemma stats_nonneg:
  assumes "queue_inv d"
  shows "0 \<le> if_authority d (opt_field rw_host_years 0 (reward_of k d))"
    "0 \<le> if_authority d (opt_field cs_provider_requests 0 (cost_of k d))"
    "0 \<le> if_authority d (opt_field cs_attempts 0 (cost_of k d))"
proof -
  have m: "cost_matches (cost_of k d) (metrics_of k d)" "\<forall>m \<in> set (metrics_of k d). 0 \<le> mt_provider_requests m"
    using assms by (auto simp: queue_inv_def measures_ok_def cost_is_sum_def metrics_of_def)
  show "0 \<le> if_authority d (opt_field rw_host_years 0 (reward_of k d))"
    using assms by (auto simp: if_authority_def opt_field_def reward_of_def queue_inv_def measures_ok_def
        split: option.splits dest!: tbl_find_SomeD)
  show "0 \<le> if_authority d (opt_field cs_provider_requests 0 (cost_of k d))"
    using m by (auto simp: if_authority_def opt_field_def cost_matches_def split: option.splits intro!: sum_list_nonneg)
  show "0 \<le> if_authority d (opt_field cs_attempts 0 (cost_of k d))"
    using m by (auto simp: if_authority_def opt_field_def cost_matches_def split: option.splits)
qed

lemma sql_value_score:
  assumes "queue_inv d" "r \<in> set (ed_tasks d)"
  shows "value_score d r = Inr (sql_value d r)"
proof -
  have "0 \<le> et_eed_weight r" "0 \<le> et_attempt r" using assms by (auto simp: queue_inv_def tasks_ok_def row_ok_def)
  with stats_nonneg [OF assms(1)] show ?thesis
    by (simp add: value_score_def task_value_score_def posterior_yield_def sql_value_def Let_def prior_strength_def)
qed

lemma sorted_take_le:
  assumes "x \<in> set (take n (sort_key f xs))" "y \<in> set xs" "y \<notin> set (take n (sort_key f xs))"
  shows "f x \<le> f y"
proof -
  let ?s = "sort_key f xs"
  have "y \<in> set (take n ?s @ drop n ?s)" using assms(2) by simp
  with assms(3) have y: "y \<in> set (drop n ?s)" by (metis Un_iff set_append)
  have "sorted (List.map f (take n ?s @ drop n ?s))" by simp
  with assms(1) y show ?thesis unfolding map_append sorted_append by auto
qed

definition eligible_task :: "string list \<Rightarrow> time \<Rightarrow> etask \<Rightarrow> bool" where
  "eligible_task ps now r = (task_claimable now r \<and> qk_provider (et_key r) \<in> set ps \<and> qk_provider (et_key r) \<noteq> [])"

text \<open>
  C15: a claim takes the most valuable eligible tasks. It returns as many tasks as are
  eligible and asked for, each under its own key with its attempt counted; each was open, free and due,
  of a requested provider; and no eligible task left behind has a greater value, by the score of
  \<open>task_value_score\<close>, than a task taken.
\<close>

theorem queue_claim_best:
  assumes reach: "queue_reachable d" and claim: "queue_claim w limit ps ls now d = Inr (ts, d')" and pos: "1 \<le> limit"
  shows "length ts = min (nat limit) (length (filter (eligible_task ps now) (ed_tasks d))) \<and> distinct (List.map tk_key ts) \<and>
    (\<forall>tk \<in> set ts. \<exists>r \<in> set (ed_tasks d). \<exists>v. eligible_task ps now r \<and> tk_key tk = et_key r \<and>
       tk_attempt tk = et_attempt r + 1 \<and> value_score d r = Inr v \<and>
       (\<forall>r' \<in> set (ed_tasks d). eligible_task ps now r' \<and> et_key r' \<notin> tk_key ` set ts \<longrightarrow>
          (\<exists>v'. value_score d r' = Inr v' \<and> v' \<le> v)))"
proof -
  have inv: "queue_inv d" by (rule reachable_inv [OF reach])
  then have ok: "tasks_ok d" by (simp add: queue_inv_def)
  from claim ok show ?thesis
  proof (cases rule: claim_cases)
    case 1
    then have "filter (eligible_task ps now) (ed_tasks d) = []" using pos unfolding eligible_task_def filter_empty_conv by auto
    with 1 show ?thesis by simp
  next
    case (2 q u)
    let ?rs = "claim_rows q limit now d"
    have el: "(\<lambda>r. task_claimable now r \<and> q r) = eligible_task ps now" unfolding eligible_task_def 2(1) by auto
    then have len: "length ts = min (nat limit) (length (filter (eligible_task ps now) (ed_tasks d)))"
      by (simp add: 2(8) claim_rows_def tbl_order_by_def)
    have keys: "List.map tk_key ts = List.map et_key ?rs" by (simp add: 2(8) comp_def)
    have best: "\<exists>r \<in> set (ed_tasks d). \<exists>v. eligible_task ps now r \<and> tk_key tk = et_key r \<and>
       tk_attempt tk = et_attempt r + 1 \<and> value_score d r = Inr v \<and>
       (\<forall>r' \<in> set (ed_tasks d). eligible_task ps now r' \<and> et_key r' \<notin> tk_key ` set ts \<longrightarrow>
          (\<exists>v'. value_score d r' = Inr v' \<and> v' \<le> v))" if tk: "tk \<in> set ts" for tk
    proof -
      obtain r where r: "r \<in> set ?rs" "tk = task_of w u r (et_key r)" using tk 2(8) by auto
      have elr: "eligible_task ps now r" "r \<in> set (ed_tasks d)" using claim_rows_sub [OF r(1)] fun_cong [OF el] by auto
      have "sql_value d r' \<le> sql_value d r"
        if r': "r' \<in> set (ed_tasks d)" "eligible_task ps now r'" "et_key r' \<notin> tk_key ` set ts" for r'
      proof -
        have "r' \<notin> set ?rs" using r'(3) keys by (metis image_eqI set_map)
        then have "claim_key d r \<le> claim_key d r'"
          using r(1) r'(1,2) unfolding claim_rows_def tbl_order_by_def el by (intro sorted_take_le) auto
        then show ?thesis by (auto simp: claim_key_def less_eq_prod_def Let_def)
      qed
      then show ?thesis using elr r(2) sql_value_score [OF inv] by (intro bexI [of _ r] exI [of _ "sql_value d r"]) auto
    qed
    show ?thesis using len best claim_rows_uniq [OF ok] by (simp add: keys)
  qed
qed

theorem queue_claim_best_witness:
  "\<exists>ts d'. queue_claim ''w1'' 1 [''w''] 10 0 demo_queue = Inr (ts, d') \<and> length ts = 1 \<and>
     (\<forall>tk \<in> set ts. \<exists>r v. tk_key tk = et_key r \<and> value_score demo_queue r = Inr v)"
  using queue_claim_best [OF demo_reachable demo_queue_claim] demo_queue_claim
  by (intro exI [of _ "[task_of ''w1'' 10 (fresh_task [] demo_key) demo_key]"] exI [of _ demo_leased]) auto

section \<open>Finishing\<close>

text \<open>
  C16: a batch of results is committed as a whole or not at all. With an owner, distinct keys and
  legal states it succeeds exactly when every task is held by that owner with a live lease, otherwise
  it raises and the tables stay; when it succeeds each task gets the state of its result, loses its
  lease and its fanout reservation, and every other row is untouched.
\<close>

theorem finish_batch_atomic:
  assumes reach: "queue_reachable d" and args: "rs \<noteq> []" "distinct (List.map fst rs)" "\<not> blank w" "0 \<le> now"
    and states: "\<forall>(k, st) \<in> set rs. st \<in> set (terminal_states @ retryable_states)"
  shows "(case finish_results rs (Some w) None now d of
      Inl e \<Rightarrow> e = KeyError \<and> (\<exists>(k, st) \<in> set rs. \<forall>r \<in> set (ed_tasks d). et_key r = k \<longrightarrow> \<not> held_by w now r)
    | Inr (n, d') \<Rightarrow> n = length rs \<and> (\<forall>(k, st) \<in> set rs. \<exists>r \<in> set (ed_tasks d). et_key r = k \<and> held_by w now r \<and>
          settle st None r \<in> set (ed_tasks d')) \<and>
        (\<forall>r \<in> set (ed_tasks d). et_key r \<notin> fst ` set rs \<longrightarrow> r \<in> set (ed_tasks d')) \<and>
        List.map et_key (ed_tasks d') = List.map et_key (ed_tasks d) \<and>
        ed_fanout d' = filter (\<lambda>x. fst x \<notin> fst ` set rs) (ed_fanout d))"
proof (cases "finish_results rs (Some w) None now d")
  case (Inl e)
  have "list_all (\<lambda>(_, st). st \<in> set (terminal_states @ retryable_states)) rs" using states by (simp add: list_all_iff)
  then have "e = KeyError" "\<not> list_all (\<lambda>(k, _). tbl_find (\<lambda>r. et_key r = k \<and> may_finish (Some w) now r) (ed_tasks d) \<noteq> None) rs"
    using Inl args unfolding finish_results_def by (auto simp: check_Inl)
  moreover from this(2) obtain k st where "(k, st) \<in> set rs"
      "tbl_find (\<lambda>r. et_key r = k \<and> may_finish (Some w) now r) (ed_tasks d) = None"
    unfolding list_all_iff by auto
  ultimately show ?thesis using Inl by (auto simp: tbl_find_None may_finish_def intro!: bexI [of _ "(k, st)"])
next
  case (Inr res)
  obtain n d' where res: "res = (n, d')" by (cases res)
  from Inr [unfolded res] args(1) show ?thesis
  proof (cases rule: finish_results_cases)
    case 1
    have "\<exists>r \<in> set (ed_tasks d). et_key r = k \<and> held_by w now r \<and> settle st None r \<in> set (ed_tasks d')" if k: "(k, st) \<in> set rs" for k st
    proof -
      obtain r where r: "r \<in> set (ed_tasks d)" "et_key r = k" "may_finish (Some w) now r" using 1(3) [OF k] by blast
      have "map_of rs k = Some st" using k args(2) by simp
      with r have "settle st None r \<in> set (ed_tasks d')" by (auto simp: 1(5) intro!: image_eqI [of _ _ r])
      with r show ?thesis by (auto simp: may_finish_def)
    qed
    moreover have "r \<in> set (ed_tasks d')" if r: "r \<in> set (ed_tasks d)" "et_key r \<notin> fst ` set rs" for r
    proof -
      have "map_of rs (et_key r) = None" using r(2) by (simp add: map_of_eq_None_iff)
      with r(1) show ?thesis by (auto simp: 1(5) intro!: image_eqI [of _ _ r])
    qed
    moreover have "List.map et_key (ed_tasks d') = List.map et_key (ed_tasks d)" by (auto simp: 1(5) split: option.splits)
    ultimately show ?thesis using Inr res 1(4,5) by auto
  qed
qed

lemma demo_states: "\<forall>(k, st) \<in> set [(demo_key, Q_PASS)]. st \<in> set (terminal_states @ retryable_states)"
  by (simp add: terminal_states_def)

theorem finish_batch_atomic_witness:
  "(\<exists>d'. finish_results [(demo_key, Q_PASS)] (Some ''w1'') None 5 demo_leased = Inr (1, d') \<and> ed_fanout d' = []) \<and>
   finish_results [(demo_key, Q_PASS)] (Some ''w1'') None 15 demo_leased = Inl KeyError"
proof -
  have nb: "\<not> blank ''w1''" by (simp add: blank_iff py_space_def Let_def)
  let ?f = "\<lambda>now. finish_results [(demo_key, Q_PASS)] (Some ''w1'') None now demo_leased"
  have "\<exists>x. ?f 5 = Inr x" "\<exists>e. ?f 15 = Inl e" using nb
    by (simp_all add: finish_results_def demo_leased_def tbl_find_def may_finish_def held_by_def terminal_states_def)
  then obtain n d' e where r: "?f 5 = Inr (n, d')" "?f 15 = Inl e" by (metis surj_pair)
  have fo: "ed_fanout demo_leased = [(demo_key, 2)]" by (simp add: demo_leased_def demo_tasks)
  show ?thesis
    using finish_batch_atomic [OF demo_leased_reachable _ _ nb _ demo_states, of 5]
      finish_batch_atomic [OF demo_leased_reachable _ _ nb _ demo_states, of 15] r fo by auto
qed

text \<open>
  finishing a range task splits it atomically. When it succeeds the range task was
  held by the caller and is now terminal and free, every exact-year follow-up exists and the new ones
  are pending and free, the result counts the new ones, the range's fanout reservation is gone, and each
  origin of the range task is an origin of every follow-up.
\<close>

theorem range_finish_splits:
  assumes reach: "queue_reachable d" and fin: "finish_range_task k st fs w now d = Inr (n, d')"
  shows "(\<exists>r \<in> set (ed_tasks d). et_key r = k \<and> held_by w now r) \<and> st \<in> set terminal_states \<and>
    queue_abs d' k = Some \<lparr>tt_state = st, tt_lease = None\<rparr> \<and>
    (\<forall>f \<in> set fs. year_from f = year_to f \<and> qk_hostname f = qk_hostname k \<and> year_from k \<le> year_from f \<and> year_to f \<le> year_to k \<and>
       queue_abs d' f = (case queue_abs d f of None \<Rightarrow> Some \<lparr>tt_state = Q_PENDING, tt_lease = None\<rparr> | Some t \<Rightarrow> Some t)) \<and>
    n = card {f \<in> set fs. queue_abs d f = None} \<and> k \<notin> fst ` set (ed_fanout d') \<and>
    (\<forall>f \<in> set fs. \<forall>o1 \<in> set (ed_origins d). og_key o1 = k \<longrightarrow> origin_key (o1\<lparr>og_key := f\<rparr>) \<in> origin_key ` set (ed_origins d'))"
proof -
  have inv: "queue_inv d" by (rule reachable_inv [OF reach])
  then have ok: "tasks_ok d" and U: "uniq et_key (ed_tasks d)" by (simp_all add: queue_inv_def tasks_ok_def)
  have none: "queue_abs d f = None \<longleftrightarrow> \<not> has_task f d" for f
    by (auto simp: queue_abs_def tbl_find_None has_task_iff)
  from fin ok show ?thesis
  proof (cases rule: finish_range_cases)
    case (1 r ks xs)
    have ks: "\<not> has_task f d" if "f \<in> set ks" for f using that 1(7) by auto
    have keys: "List.map et_key (ed_tasks d') = List.map et_key (ed_tasks d) @ ks"
      by (auto simp: 1(10) comp_def)
    have U': "uniq et_key (ed_tasks d')"
      using U 1(8) ks unfolding uniq_def keys has_task_def by auto
    have row: "queue_abs d' (et_key x) = Some (ticket x)" if "x \<in> set (ed_tasks d')" for x
      using etask.find_by_key [OF U' that] by (simp add: queue_abs_def)
    have "settle st None r \<in> set (ed_tasks d')" using 1(1,2) by (auto simp: 1(10) intro!: image_eqI [of _ _ r])
    then have parent: "queue_abs d' k = Some \<lparr>tt_state = st, tt_lease = None\<rparr>"
      using row [of "settle st None r"] 1(2) by (simp add: ticket_def)
    have child: "queue_abs d' f = (case queue_abs d f of None \<Rightarrow> Some \<lparr>tt_state = Q_PENDING, tt_lease = None\<rparr> | Some t \<Rightarrow> Some t)"
      if f: "f \<in> set fs" for f
    proof (cases "queue_abs d f")
      case None
      then have "fresh_task (ed_tld_weights d) f \<in> set (ed_tasks d')" using f 1(7) none by (auto simp: 1(10))
      with row [of "fresh_task (ed_tld_weights d) f"] None show ?thesis by (simp add: ticket_def)
    next
      case (Some t)
      then obtain x where x: "x \<in> set (ed_tasks d)" "et_key x = f" "t = ticket x" using abs_SomeD by blast
      have "f \<noteq> k" using f 1(5,6) by (auto simp: list_all_iff followup_ok_def)
      with x have "x \<in> set (ed_tasks d')" by (auto simp: 1(10) intro!: image_eqI [of _ _ x])
      with row x Some show ?thesis by auto
    qed
    have "card {f \<in> set fs. queue_abs d f = None} = n" using 1(7-9) none distinct_card [OF 1(8)] by simp
    moreover have "k \<notin> fst ` set (ed_fanout d')" by (auto simp: 1(10))
    moreover have "\<forall>f \<in> set fs. \<forall>o1 \<in> set (ed_origins d). og_key o1 = k \<longrightarrow>
        origin_key (o1\<lparr>og_key := f\<rparr>) \<in> origin_key ` set (ed_origins d')" using 1(13) by (simp add: 1(10))
    ultimately show ?thesis using 1(1-5) parent child by (auto simp: list_all_iff followup_ok_def)
  qed
qed

definition year_key :: "int \<Rightarrow> query_key" where
  "year_key y = demo_key\<lparr>qk_temporal_scope := \<lparr>ts_from = y, ts_to = y\<rparr>\<rparr>"

theorem range_finish_splits_witness:
  "\<exists>d'. finish_range_task demo_key Q_DECOMPOSED [year_key 1997, year_key 1998] ''w1'' 5 demo_leased = Inr (2, d') \<and>
     queue_abs d' demo_key = Some \<lparr>tt_state = Q_DECOMPOSED, tt_lease = None\<rparr> \<and>
     queue_abs d' (year_key 1998) = Some \<lparr>tt_state = Q_PENDING, tt_lease = None\<rparr>"
proof -
  have nb: "\<not> blank ''w1''" by (simp add: blank_iff py_space_def Let_def)
  let ?f = "finish_range_task demo_key Q_DECOMPOSED [year_key 1997, year_key 1998] ''w1'' 5 demo_leased"
  have "\<exists>d'. ?f = Inr (2, d')" using nb
    by (simp add: finish_range_task_def demo_leased_def terminal_states_def demo_key_def year_key_def year_from_def year_to_def
        followup_ok_def tbl_find_def held_by_def Let_def tbl_update_def insert_task_eq has_task_def demo_tasks
        copy_origins_def drop_fanout_def empty_queue_def)
  then obtain d' where d': "?f = Inr (2, d')" by blast
  have new: "queue_abs demo_leased (year_key 1998) = None"
    by (simp add: queue_abs_def demo_leased_def tbl_find_def year_key_def demo_key_def)
  from range_finish_splits [OF demo_leased_reachable d'] d' new show ?thesis by auto
qed

section \<open>Abandoned work\<close>

text \<open>
  C17: abandoned work comes back. An open task of a requested provider whose lease and retry delay are
  over, whatever worker let it go, is returned by the next claim that asks for enough tasks, under a
  lease of the claimant.
\<close>

theorem abandoned_task_returns:
  assumes reach: "queue_reachable d" and r: "r \<in> set (ed_tasks d)" "et_state r \<in> {Q_PENDING, Q_INCOMPLETE, Q_TRANSIENT_ERROR}"
    and over: "\<And>u. et_lease_until r = Some u \<Longrightarrow> u \<le> now" "\<And>t. et_retry_at r = Some t \<Longrightarrow> t \<le> now"
    and args: "qk_provider (et_key r) \<in> set ps" "\<not> blank w" "0 < ls" "0 \<le> now" "int (length (ed_tasks d)) \<le> limit"
  shows "\<exists>ts d'. queue_claim w limit ps ls now d = Inr (ts, d') \<and> et_key r \<in> tk_key ` set ts \<and>
     queue_abs d' (et_key r) = Some \<lparr>tt_state = et_state r, tt_lease = Some (w, now + ls)\<rparr>"
proof -
  have inv: "queue_inv d" by (rule reachable_inv [OF reach])
  then have ok: "tasks_ok d" by (simp add: queue_inv_def)
  have cl: "task_claimable now r"
    using r(2) over by (auto simp: task_claimable_def claimable_states_def retryable_states_def split: option.splits)
  have prov: "qk_provider (et_key r) \<noteq> []"
  proof
    assume "qk_provider (et_key r) = []"
    moreover have "\<not> blank (qk_provider (et_key r))" using ok r(1) by (auto simp: tasks_ok_def row_ok_def valid_key_def)
    ultimately show False by (simp add: blank_iff)
  qed
  have pos: "1 \<le> limit" using args(5) r(1) by (cases "ed_tasks d") auto
  let ?q = "\<lambda>r. qk_provider (et_key r) \<in> set (dedup (filter (\<lambda>p. p \<noteq> []) ps))"
  let ?rs = "claim_rows ?q limit now d"
  have "?rs = tbl_order_by (claim_key d) (filter (\<lambda>r. task_claimable now r \<and> ?q r) (ed_tasks d))"
    unfolding claim_rows_def
  proof (rule take_all)
    have "length (filter (\<lambda>r. task_claimable now r \<and> ?q r) (ed_tasks d)) \<le> length (ed_tasks d)" by (rule length_filter_le)
    also have "\<dots> \<le> nat limit" using args(5) by linarith
    finally show "length (tbl_order_by (claim_key d) (filter (\<lambda>r. task_claimable now r \<and> ?q r) (ed_tasks d))) \<le> nat limit"
      unfolding tbl_order_by_def length_sort .
  qed
  then have rrs: "r \<in> set ?rs" using r(1) cl prov args(1) by auto
  have "dedup (filter (\<lambda>p. p \<noteq> []) ps) \<noteq> []" using prov args(1) by (auto simp: filter_empty_conv)
  then obtain ts d' where cd: "queue_claim w limit ps ls now d = Inr (ts, d')" and
      ts: "ts = List.map2 (task_of w (now + ls)) ?rs (List.map et_key ?rs)"
    using args(2-4) pos by (auto simp: queue_claim_def Let_def keys_of_claim [OF ok])
  have "List.map2 f xs (List.map g xs) = List.map (\<lambda>x. f x (g x)) xs" for f :: "etask \<Rightarrow> query_key \<Rightarrow> evidence_task" and g xs
    by (induction xs) simp_all
  then have tk: "task_of w (now + ls) r (et_key r) \<in> set ts" using rrs by (auto simp: ts)
  from claim_returns [OF cd inv tk] obtain r' where r': "r' \<in> set (ed_tasks d)" "task_of w (now + ls) r (et_key r) = task_of w (now + ls) r' (et_key r')"
      "queue_abs d' (et_key r') = Some (ticket (lease_to w (now + ls) r'))" by blast
  from arg_cong [OF r'(2), of tk_key] have "r' = r"
    using etask.uniqD [of "ed_tasks d" r' r] ok r'(1) r(1) by (simp add: tasks_ok_def)
  then have "queue_abs d' (et_key r) = Some \<lparr>tt_state = et_state r, tt_lease = Some (w, now + ls)\<rparr>"
    using r'(3) by (simp add: ticket_def)
  moreover have "et_key r \<in> tk_key ` set ts" using tk by (metis image_eqI task_of_fields(1))
  ultimately show ?thesis using cd by blast
qed

theorem abandoned_task_returns_witness:
  "\<exists>ts d'. queue_claim ''w2'' 1 [''w''] 5 10 demo_leased = Inr (ts, d') \<and> demo_key \<in> tk_key ` set ts"
proof -
  have nb: "\<not> blank ''w2''" by (simp add: blank_iff py_space_def Let_def)
  show ?thesis
    using abandoned_task_returns [OF demo_leased_reachable, of "lease_to ''w1'' 10 (fresh_task [] demo_key)" 10 "[''w'']" "''w2''" 5 1] nb
    by (auto simp: demo_leased_def demo_key_def)
qed

end
