(* ===== verification/Evidence_Flow.thy ===== *)
theory Evidence_Flow
  imports Evidence_Queue_Properties Credits
begin

text \<open>
  How other components read the evidence queue: the provider backlog that restores the credit ledger
  (\<open>scheduler/backlog.py\<close>), the coverage masks that keep the planner from asking twice, and the two
  classifications of an action.
\<close>

section \<open>Provider backlog\<close>

record provider_backlog =
  bl_provider :: string
  bl_queued :: int
  bl_claimed :: int

definition provider_backlog_init :: "provider_backlog \<Rightarrow> py_error + provider_backlog" where
  "provider_backlog_init b =
     check (\<not> blank (bl_provider b)) ValueError (
     check (0 \<le> bl_queued b \<and> 0 \<le> bl_claimed b) ValueError (Inr b))"

definition open_for :: "string \<Rightarrow> etask \<Rightarrow> bool" where
  "open_for p r = (qk_provider (et_key r) = p \<and> et_state r \<in> set claimable_states)"

definition live_lease :: "time \<Rightarrow> etask \<Rightarrow> bool" where
  "live_lease now r = (et_lease_owner r \<noteq> None \<and> (case et_lease_until r of None \<Rightarrow> False | Some u \<Rightarrow> now < u))"

definition no_live_lease :: "time \<Rightarrow> etask \<Rightarrow> bool" where
  "no_live_lease now r = (et_lease_owner r = None \<or> (case et_lease_until r of None \<Rightarrow> True | Some u \<Rightarrow> u \<le> now))"

definition load_provider_backlog :: "time \<Rightarrow> evidence_db \<Rightarrow> py_error + provider_backlog list" where
  "load_provider_backlog now d =
     check (0 \<le> now) ValueError (
     collect (List.map (\<lambda>p. provider_backlog_init
         \<lparr>bl_provider = p, bl_queued = int (tbl_count (\<lambda>r. open_for p r \<and> no_live_lease now r) (ed_tasks d)),
          bl_claimed = int (tbl_count (\<lambda>r. open_for p r \<and> live_lease now r) (ed_tasks d))\<rparr>)
       (sort (remdups (List.map (\<lambda>r. qk_provider (et_key r)) (filter (\<lambda>r. et_state r \<in> set claimable_states) (ed_tasks d)))))))"

definition restore_credit_ledger :: "time \<Rightarrow> evidence_db \<Rightarrow> ledger \<Rightarrow> py_error + (provider_backlog list \<times> ledger)" where
  "restore_credit_ledger now d l =
     bindr (load_provider_backlog now d) (\<lambda>backlog.
     bindr (fold_result (\<lambda>l p.
              bindr (provider_backlog_init \<lparr>bl_provider = p, bl_queued = 0, bl_claimed = 0\<rparr>) (\<lambda>zero.
              let b = (case List.find (\<lambda>b. bl_provider b = p) backlog of None \<Rightarrow> zero | Some b \<Rightarrow> b)
              in restore_backlog p (PyInt (bl_queued b)) (PyInt (bl_claimed b)) (PyInt 0) l)) (ledger_providers l) l)
       (\<lambda>l'. Inr (backlog, l')))"

definition queued_count :: "time \<Rightarrow> evidence_db \<Rightarrow> string \<Rightarrow> int" where
  "queued_count now d p = int (tbl_count (\<lambda>r. open_for p r \<and> no_live_lease now r) (ed_tasks d))"

definition claimed_count :: "time \<Rightarrow> evidence_db \<Rightarrow> string \<Rightarrow> int" where
  "claimed_count now d p = int (tbl_count (\<lambda>r. open_for p r \<and> live_lease now r) (ed_tasks d))"

lemma live_complement: "live_lease now r \<longleftrightarrow> \<not> no_live_lease now r"
  by (auto simp: live_lease_def no_live_lease_def split: option.splits)

lemma counts_add: "queued_count now d p + claimed_count now d p = int (tbl_count (open_for p) (ed_tasks d))"
proof -
  have "tbl_count (\<lambda>r. open_for p r \<and> no_live_lease now r) t + tbl_count (\<lambda>r. open_for p r \<and> live_lease now r) t = tbl_count (open_for p) t" for t
    by (induction t) (auto simp: live_complement)
  then show ?thesis unfolding queued_count_def claimed_count_def by (metis of_nat_add)
qed

lemma counts_nonneg [simp]: "0 \<le> queued_count now d p" "0 \<le> claimed_count now d p"
  by (simp_all add: queued_count_def claimed_count_def)

definition backlog_of :: "time \<Rightarrow> evidence_db \<Rightarrow> string \<Rightarrow> provider_backlog" where
  "backlog_of now d p = \<lparr>bl_provider = p, bl_queued = queued_count now d p, bl_claimed = claimed_count now d p\<rparr>"

definition open_providers :: "evidence_db \<Rightarrow> string list" where
  "open_providers d = sort (remdups (List.map (\<lambda>r. qk_provider (et_key r)) (filter (\<lambda>r. et_state r \<in> set claimable_states) (ed_tasks d))))"

lemma load_backlog:
  assumes "queue_inv d" "0 \<le> now"
  shows "load_provider_backlog now d = Inr (List.map (backlog_of now d) (open_providers d))"
proof -
  have "\<not> blank p" if "p \<in> set (open_providers d)" for p
    using that assms(1) by (auto simp: open_providers_def queue_inv_def tasks_ok_def row_ok_def valid_key_def)
  then have "provider_backlog_init (backlog_of now d p) = Inr (backlog_of now d p)" if "p \<in> set (open_providers d)" for p
    using that by (simp add: provider_backlog_init_def backlog_of_def)
  then show ?thesis
    using assms(2) unfolding load_provider_backlog_def open_providers_def [symmetric] backlog_of_def [symmetric]
      queued_count_def [symmetric] claimed_count_def [symmetric] by (simp add: collect_Inr)
qed

lemma find_backlog:
  "(case List.find (\<lambda>b. bl_provider b = p) (List.map (backlog_of now d) (open_providers d)) of
      None \<Rightarrow> \<lparr>bl_provider = p, bl_queued = 0, bl_claimed = 0\<rparr> | Some b \<Rightarrow> b) = backlog_of now d p"
proof (cases "List.find (\<lambda>b. bl_provider b = p) (List.map (backlog_of now d) (open_providers d))")
  case None
  then have "p \<notin> set (open_providers d)" by (auto simp: find_None_all backlog_of_def)
  then have "\<not> open_for p r" if "r \<in> set (ed_tasks d)" for r using that by (auto simp: open_providers_def open_for_def)
  then have "tbl_count (\<lambda>r. open_for p r \<and> P r) (ed_tasks d) = 0" for P by (simp add: tbl_count_def filter_empty_conv)
  with None show ?thesis by (simp add: backlog_of_def queued_count_def claimed_count_def)
next
  case (Some b)
  then have "b \<in> set (List.map (backlog_of now d) (open_providers d))" "bl_provider b = p" by (auto dest: find_Some_set)
  with Some show ?thesis by (auto simp: backlog_of_def)
qed

definition restored :: "time \<Rightarrow> evidence_db \<Rightarrow> string \<Rightarrow> account \<Rightarrow> account" where
  "restored now d p a = a\<lparr>ac_queued := queued_count now d p, ac_claimed := claimed_count now d p, ac_reserved := 0\<rparr>"

lemma restore_all:
  assumes "\<And>p. p \<in> set ps \<Longrightarrow> \<not> blank p \<and> p \<in> dom (map_of l)" "distinct ps"
  shows "\<exists>l'. fold_result (\<lambda>l p. bindr (provider_backlog_init \<lparr>bl_provider = p, bl_queued = 0, bl_claimed = 0\<rparr>) (\<lambda>zero.
        let b = (case List.find (\<lambda>b. bl_provider b = p) (List.map (backlog_of now d) (open_providers d)) of None \<Rightarrow> zero | Some b \<Rightarrow> b)
        in restore_backlog p (PyInt (bl_queued b)) (PyInt (bl_claimed b)) (PyInt 0) l)) ps l = Inr l' \<and>
     map_of l' = (\<lambda>p. if p \<in> set ps then map_option (restored now d p) (map_of l p) else map_of l p)"
  using assms
proof (induction ps arbitrary: l)
  case (Cons p ps)
  let ?step = "\<lambda>l p. bindr (provider_backlog_init \<lparr>bl_provider = p, bl_queued = 0, bl_claimed = 0\<rparr>) (\<lambda>zero.
        let b = (case List.find (\<lambda>b. bl_provider b = p) (List.map (backlog_of now d) (open_providers d)) of None \<Rightarrow> zero | Some b \<Rightarrow> b)
        in restore_backlog p (PyInt (bl_queued b)) (PyInt (bl_claimed b)) (PyInt 0) l)"
  obtain a where a: "map_of l p = Some a" "\<not> blank p" using Cons.prems(1) [of p] by auto
  let ?l = "AList.update p (restored now d p a) l"
  have step: "?step l p = Inr ?l"
    using a by (simp add: provider_backlog_init_def find_backlog Let_def restore_backlog_def balance_def restored_def
        backlog_of_def)
  have l: "map_of ?l = (map_of l)(p \<mapsto> restored now d p a)" by (simp add: update_conv')
  have "\<not> blank q \<and> q \<in> dom (map_of ?l)" if "q \<in> set ps" for q using Cons.prems(1) that by (auto simp: l)
  with Cons.IH [of ?l] Cons.prems(2) obtain l' where l': "fold_result ?step ps ?l = Inr l'"
      "map_of l' = (\<lambda>q. if q \<in> set ps then map_option (restored now d q) (map_of ?l q) else map_of ?l q)" by auto
  have "map_of l' = (\<lambda>q. if q \<in> set (p # ps) then map_option (restored now d q) (map_of l q) else map_of l q)"
    using l' a Cons.prems(2) by (auto simp: l)
  then show ?case using step l'(1) by auto
qed auto

text \<open>
  the credit ledger is restored from the durable queue. On a reachable queue it always succeeds, and
  afterwards the account of each provider keeps its capacity, has nothing reserved, counts as claimed the
  open tasks under a live lease and as queued all its other open tasks, so that together they are the
  provider's open tasks.
\<close>

theorem ledger_restored_from_queue:
  assumes "queue_reachable d" "0 \<le> now" "distinct (ledger_providers l)" "\<And>p. p \<in> set (ledger_providers l) \<Longrightarrow> \<not> blank p"
  shows "\<exists>bl l'. restore_credit_ledger now d l = Inr (bl, l') \<and>
    (\<forall>p a. map_of l p = Some a \<longrightarrow> (\<exists>a'. map_of l' p = Some a' \<and> ac_capacity a' = ac_capacity a \<and> ac_reserved a' = 0 \<and>
       ac_claimed a' = int (length (filter (\<lambda>r. open_for p r \<and> live_lease now r) (ed_tasks d))) \<and>
       ac_queued a' + ac_claimed a' = int (length (filter (open_for p) (ed_tasks d)))))"
proof -
  have inv: "queue_inv d" by (rule reachable_inv [OF assms(1)])
  have dom: "\<not> blank p \<and> p \<in> dom (map_of l)" if "p \<in> set (ledger_providers l)" for p
    using that assms(4) by (auto simp: ledger_providers_def dom_map_of_conv_image_fst)
  from restore_all [OF dom assms(3), of now d] obtain l' where l': "restore_credit_ledger now d l =
        Inr (List.map (backlog_of now d) (open_providers d), l')"
      "map_of l' = (\<lambda>p. if p \<in> set (ledger_providers l) then map_option (restored now d p) (map_of l p) else map_of l p)"
    unfolding restore_credit_ledger_def load_backlog [OF inv assms(2)] by auto
  have "map_of l' p = Some (restored now d p a)" if "map_of l p = Some a" for p a
  proof -
    have "p \<in> set (ledger_providers l)" using map_of_SomeD [OF that] by (force simp: ledger_providers_def)
    with l'(2) that show ?thesis by simp
  qed
  with l'(1) show ?thesis
    using counts_add [of now d, unfolded claimed_count_def tbl_count_def queued_count_def]
    by (intro exI [of _ "List.map (backlog_of now d) (open_providers d)"] exI [of _ l'])
       (auto simp: restored_def claimed_count_def queued_count_def tbl_count_def)
qed

theorem ledger_restored_from_queue_witness:
  "\<exists>bl l'. restore_credit_ledger 5 demo_leased [(''w'', \<lparr>ac_capacity = 4, ac_queued = 2, ac_claimed = 0, ac_reserved = 1\<rparr>)] = Inr (bl, l') \<and>
     (\<exists>a'. map_of l' ''w'' = Some a' \<and> ac_capacity a' = 4 \<and> ac_queued a' = 0 \<and> ac_claimed a' = 1 \<and> ac_reserved a' = 0)"
proof -
  let ?a = "\<lparr>ac_capacity = 4, ac_queued = 2, ac_claimed = 0, ac_reserved = 1\<rparr>"
  have "\<not> blank ''w''" by (simp add: blank_iff py_space_def Let_def)
  then obtain bl l' where r: "restore_credit_ledger 5 demo_leased [(''w'', ?a)] = Inr (bl, l')"
      "\<forall>p a. map_of [(''w'', ?a)] p = Some a \<longrightarrow> (\<exists>a'. map_of l' p = Some a' \<and> ac_capacity a' = ac_capacity a \<and> ac_reserved a' = 0 \<and>
       ac_claimed a' = int (length (filter (\<lambda>r. open_for p r \<and> live_lease 5 r) (ed_tasks demo_leased))) \<and>
       ac_queued a' + ac_claimed a' = int (length (filter (open_for p) (ed_tasks demo_leased))))"
    using ledger_restored_from_queue [OF demo_leased_reachable, of 5 "[(''w'', ?a)]"] by (auto simp: ledger_providers_def)
  from r(2) [rule_format, of "''w''" ?a] show ?thesis
    using r(1) by (auto simp: demo_leased_def open_for_def live_lease_def demo_key_def claimable_states_def)
qed

section \<open>Coverage\<close>

lemma or_bit_fold: "bit (fold (\<lambda>r m. m OR f r) rs m0) n \<longleftrightarrow> bit m0 n \<or> (\<exists>r \<in> set rs. bit (f r) n)" for f :: "'a \<Rightarrow> int"
  by (induction rs arbitrary: m0) (auto simp: bit_or_iff)

lemma year_bit_bit: "y \<in> set competition_years \<Longrightarrow> y' \<in> set competition_years \<Longrightarrow> bit (year_bit y) (nat (y' - 1996)) \<longleftrightarrow> y = y'"
  by (auto simp: year_bit_def bit_exp_iff competition_years_def)

lemma scope_mask_bit:
  assumes "y \<in> set competition_years"
  shows "bit (scope_mask a b) (nat (y - 1996)) \<longleftrightarrow> a \<le> y \<and> y \<le> b"
proof -
  have "bit (fold (\<lambda>y m. if y \<in> set competition_years then m OR year_bit y else m) ys m0) (nat (y - 1996)) \<longleftrightarrow>
      bit m0 (nat (y - 1996)) \<or> y \<in> set ys" for ys and m0 :: int
    using assms by (induction ys arbitrary: m0) (auto simp: bit_or_iff year_bit_bit)
  from this [of "[a..b]" 0] show ?thesis by (auto simp: scope_mask_def)
qed

text \<open>
  years a provider has already answered are not asked again. The coverage mask of a
  host holds exactly the competition years of its tasks that ended in \<open>PASS\<close> or \<open>EMPTY_EXHAUSTIVE\<close> for that
  provider and policy, and a plan made with this mask queries none of them.
\<close>

theorem covered_years_not_replanned:
  assumes cover: "resolve_coverage_masks hosts provider policy chunk d = Inr masks" "(h, m) \<in> set masks"
    and plan: "plan E ob official local provider policy allow m fraction = Inr p"
    and y: "y \<in> set competition_years"
  shows "(year_in m y \<longleftrightarrow> (\<exists>r \<in> set (ed_tasks d). qk_hostname (et_key r) = h \<and> qk_provider (et_key r) = provider \<and>
       qk_policy_version (et_key r) = policy \<and> et_state r \<in> {Q_PASS, Q_EMPTY_EXHAUSTIVE} \<and>
       year_from (et_key r) \<le> y \<and> y \<le> year_to (et_key r))) \<and>
    (plan_queries p y \<longrightarrow> \<not> year_in m y)"
proof
  have "m = fold (\<lambda>r m. m OR scope_mask (year_from (et_key r)) (year_to (et_key r))) (filter (covers_scope h provider policy) (ed_tasks d)) 0"
    using cover by (auto simp: resolve_coverage_masks_def)
  then have "year_in m y \<longleftrightarrow> (\<exists>r \<in> set (filter (covers_scope h provider policy) (ed_tasks d)). year_from (et_key r) \<le> y \<and> y \<le> year_to (et_key r))"
    by (simp add: year_in_def or_bit_fold scope_mask_bit [OF y])
  then show "year_in m y \<longleftrightarrow> (\<exists>r \<in> set (ed_tasks d). qk_hostname (et_key r) = h \<and> qk_provider (et_key r) = provider \<and>
       qk_policy_version (et_key r) = policy \<and> et_state r \<in> {Q_PASS, Q_EMPTY_EXHAUSTIVE} \<and>
       year_from (et_key r) \<le> y \<and> y \<le> year_to (et_key r))"
    by (auto simp: covers_scope_def)
  show "plan_queries p y \<longrightarrow> \<not> year_in m y"
    using plan_parts(3) [OF plan y] external_bits unfolding year_in_def by blast
qed

theorem covered_years_not_replanned_witness:
  "\<exists>m p. resolve_coverage_masks [''a.com''] ''w'' ''v'' 800 demo_done = Inr [(''a.com'', m)] \<and>
     plan \<lparr>sha256 = (\<lambda>b. b), float_repr = (\<lambda>_. [])\<rparr> demo_observation 0 0 ''w'' ''v'' False m 0 = Inr p \<and>
     year_in m 1997 \<and> \<not> plan_queries p 1997"
proof -
  let ?E = "\<lparr>sha256 = (\<lambda>b. b), float_repr = (\<lambda>_. [])\<rparr> :: codec"
  have nb: "\<not> blank ''w''" "\<not> blank ''v''" by (simp_all add: blank_iff py_space_def Let_def)
  obtain m where m: "resolve_coverage_masks [''a.com''] ''w'' ''v'' 800 demo_done = Inr [(''a.com'', m)]"
    by (simp add: resolve_coverage_masks_def dedup_def)
  have "\<exists>p. plan ?E demo_observation 0 0 ''w'' ''v'' False m' 0 = Inr p" for m'
  proof -
    have key: "1996 \<le> a \<and> a \<le> b \<and> b \<le> 2001 \<Longrightarrow> \<exists>k. bindr (temporal_scope_init (PyInt a) (PyInt b)) (\<lambda>scope.
        query_key_init \<lparr>qk_hostname = ''a.com'', qk_temporal_scope = scope, qk_provider = ''w'', qk_policy_version = ''v''\<rparr>) = Inr k" for a b
      by (simp add: temporal_scope_init_def query_key_init_def nb demo_host)
    have "list_all (\<lambda>(a, b). 1996 \<le> a \<and> a \<le> b \<and> b \<le> 2001) (year_ranges (years_of em))" for em
      using subset_ranges [of "\<lambda>y. em AND year_bit y \<noteq> 0"] by (simp add: covers_once_def years_of_def)
    moreover have "\<exists>ks. collect (List.map (\<lambda>(a, b). bindr (temporal_scope_init (PyInt a) (PyInt b)) (\<lambda>scope.
        query_key_init \<lparr>qk_hostname = ''a.com'', qk_temporal_scope = scope, qk_provider = ''w'', qk_policy_version = ''v''\<rparr>)) rs) = Inr ks"
      if "list_all (\<lambda>(a, b). 1996 \<le> a \<and> a \<le> b \<and> b \<le> 2001) rs" for rs
      using that
    proof (induction rs)
      case (Cons r rs)
      then show ?case using key [of "fst r" "snd r"] by (auto simp: split_beta)
    qed simp
    ultimately show ?thesis
      by (simp add: plan_def demo_observation_def demo_host direct_mask_of_def years_of_def Let_def)
  qed
  then obtain p where p: "plan ?E demo_observation 0 0 ''w'' ''v'' False m 0 = Inr p" by blast
  have "(''a.com'', m) \<in> set [(''a.com'', m)]" "1997 \<in> set competition_years" by (simp_all add: competition_years_def)
  from covered_years_not_replanned [OF m this(1) p this(2)]
  have "year_in m 1997" "\<not> plan_queries p 1997"
    by (auto simp: demo_done_def demo_key_def year_from_def year_to_def)
  with m p show ?thesis by blast
qed

section \<open>Two classifications\<close>

text \<open>
  The claims of the queue classify in SQL what \<open>classify_evidence_action_fields\<close> classifies in Python. They
  disagree on an RDAP task whose policy matches \<open>cdx-domain-%\<close> (SQL says domain, Python says RDAP) and
  on a policy that matches only when letter case is ignored.
\<close>

lemma classifications_agree:
  assumes "year_from k \<le> year_to k"
  shows "sql_kind k = classify k \<longleftrightarrow>
    (if qk_provider k = ''rdap'' then \<not> like_domain (qk_policy_version k)
     else like_domain (qk_policy_version k) = starts_with (qk_policy_version k) ''cdx-domain-'')"
  using assms by (auto simp: sql_kind_def classify_def classify_fields_def year_from_def year_to_def)

end
