(* ===== verification/Exposure.thy ===== *)
theory Exposure
  imports Prelude
begin

text \<open>
  The accounting record of one exposure of production work (\<open>runtime/exposure.py\<close>).  The columns
  \<open>lease_id\<close> and \<open>task_id\<close> of the table hold the empty string for a missing value; here it is \<open>None\<close>.
\<close>

datatype exposure_state = E_RUNNING | E_READ_COMPLETE | E_VALIDATING | E_FINAL_CLOSED | E_ABORTED | E_EXPIRED

record exposure =
  pe_exposure_id :: string
  pe_source_key :: string
  pe_reservoir_id :: string
  pe_lease_id :: "string option"
  pe_task_id :: "string option"
  pe_lane :: string
  pe_baseline_signature :: string
  pe_model_signature :: string
  pe_source_records :: int
  pe_source_requests :: int
  pe_source_bytes :: int
  pe_provider_requests :: int
  pe_provider_bytes :: int
  pe_source_elapsed_seconds :: rat
  pe_provider_elapsed_seconds :: rat
  pe_evidence_frontier :: int
  pe_accepted_host_years :: int
  pe_final_accepted_eed :: rat
  pe_state :: exposure_state
  pe_terminal_reason :: "string option"
  pe_created_at :: time
  pe_updated_at :: time
  pe_closed_at :: "time option"

definition opt_text :: "string option \<Rightarrow> string" where
  "opt_text v = (case v of None \<Rightarrow> [] | Some s \<Rightarrow> s)"

definition exposure_init :: "exposure \<Rightarrow> py_error + exposure" where
  "exposure_init e =
     check (list_all (\<lambda>s. \<not> blank s) [pe_exposure_id e, pe_source_key e, pe_reservoir_id e, pe_lane e,
              pe_baseline_signature e, pe_model_signature e]) ValueError (
     check (opt_text (pe_lease_id e) \<noteq> [] \<or> opt_text (pe_task_id e) \<noteq> []) ValueError (
     check (list_all (\<lambda>n. 0 \<le> n) [pe_source_records e, pe_source_requests e, pe_source_bytes e,
              pe_provider_requests e, pe_provider_bytes e, pe_evidence_frontier e, pe_accepted_host_years e]) ValueError (
     check (list_all (\<lambda>q. 0 \<le> q) [pe_source_elapsed_seconds e, pe_provider_elapsed_seconds e,
              pe_final_accepted_eed e]) ValueError (
     check (0 \<le> pe_created_at e \<and> 0 \<le> pe_updated_at e) ValueError (
     check (pe_created_at e \<le> pe_updated_at e) ValueError (
     check (case pe_closed_at e of None \<Rightarrow> True | Some t \<Rightarrow> pe_created_at e \<le> t) ValueError (
     Inr e)))))))"

definition exposure_bytes_read :: "exposure \<Rightarrow> int" where
  "exposure_bytes_read e = pe_source_bytes e + pe_provider_bytes e"

definition exposure_elapsed_seconds :: "exposure \<Rightarrow> rat" where
  "exposure_elapsed_seconds e = pe_source_elapsed_seconds e + pe_provider_elapsed_seconds e"

definition authority_of :: "exposure \<Rightarrow> string \<times> string" where
  "authority_of e = (pe_baseline_signature e, pe_model_signature e)"

definition closed_states :: "exposure_state list" where
  "closed_states = [E_FINAL_CLOSED, E_ABORTED, E_EXPIRED]"

definition terminal_exposure :: "exposure \<Rightarrow> bool" where
  "terminal_exposure e = (pe_state e \<in> set closed_states)"

end
