(* ===== verification/Platform_Harvest.thy ===== *)
theory Platform_Harvest
  imports Policies Fabric_Models
begin

text \<open>
  The work items of the platform-by-year harvest (\<open>evidence/platform_harvest.py\<close>): their identities
  and the task and result of one provider page with the checks of their constructors.
  Identities are SHA-256 digests of a JSON object; the digest is the parameter
  \<open>codec\<close> of \<open>Fabric_Models\<close>.
\<close>

datatype harvest_state = H_READY | H_RUNNING | H_PARTIAL | H_RETRYABLE | H_COMPLETE | H_FAILED_INVALID

definition claimable_harvest_states :: "harvest_state list" where
  "claimable_harvest_states = [H_READY, H_PARTIAL, H_RETRYABLE]"

section \<open>Identities\<close>

text \<open>\<open>json.dumps\<close> with its default \<open>ensure_ascii\<close>: other characters become escapes.\<close>

definition ascii_escape :: "char \<Rightarrow> string" where
  "ascii_escape c = (let n = (of_char c :: nat) in
     if n < 128 then [c]
     else [CHR 0x5C, CHR ''u'', CHR ''0'', CHR ''0'', hex_digit (n div 16), hex_digit (n mod 16)])"

definition ascii_json :: "codec \<Rightarrow> json \<Rightarrow> string" where
  "ascii_json E j = concat (List.map ascii_escape (canonical_json E j))"

definition string_fields :: "(string \<times> string) list \<Rightarrow> (string \<times> json) list" where
  "string_fields kvs = List.map (\<lambda>(k, v). (k, JStr v)) kvs"

record harvest_identity =
  hi_provider :: string
  hi_subject :: string
  hi_target_year :: int
  hi_request_template_hash :: string
  hi_policy_version :: string
  hi_source_key :: string
  hi_reservoir_id :: string
  hi_exposure_id :: string
  hi_authority_digest :: string

definition lineage :: "harvest_identity \<Rightarrow> string list" where
  "lineage i = [hi_source_key i, hi_reservoir_id i, hi_exposure_id i, hi_authority_digest i]"

definition lineage_complete :: "string list \<Rightarrow> bool" where
  "lineage_complete vs = ((\<exists>v \<in> set vs. v \<noteq> []) \<longrightarrow> list_all (\<lambda>v. \<not> blank v) vs)"

definition year_ok :: "int \<Rightarrow> bool" where
  "year_ok y = (1996 \<le> y \<and> y \<le> 2001)"

definition identity_json :: "harvest_identity \<Rightarrow> string \<Rightarrow> json" where
  "identity_json i subject = JObj
     ([(''provider'', JStr (hi_provider i)), (''subject'', JStr subject), (''target_year'', JInt (hi_target_year i)),
       (''request_template_hash'', JStr (hi_request_template_hash i)), (''policy_version'', JStr (hi_policy_version i))] @
      (if \<exists>v \<in> set (lineage i). v \<noteq> []
       then string_fields (zip [''source_key'', ''reservoir_id'', ''exposure_id'', ''authority_digest''] (lineage i))
       else []))"

definition platform_year_harvest_id :: "codec \<Rightarrow> harvest_identity \<Rightarrow> py_error + string" where
  "platform_year_harvest_id E i =
     (case normalize_official (hi_subject i) of
        None \<Rightarrow> Inl ValueError
      | Some subject \<Rightarrow>
          check (year_ok (hi_target_year i)) ValueError (
          check (list_all (\<lambda>v. \<not> blank v) [hi_provider i, hi_request_template_hash i, hi_policy_version i]) ValueError (
          check (lineage_complete (lineage i)) ValueError (
          Inr (''platform-year:'' @ sha256 E (ascii_json E (identity_json i subject)))))))"

definition platform_year_exposure_id :: "codec \<Rightarrow> harvest_identity \<Rightarrow> py_error + string" where
  "platform_year_exposure_id E i =
     bindr (platform_year_harvest_id E (i\<lparr>hi_exposure_id := ''pending''\<rparr>))
       (\<lambda>task_id. Inr (''platform-exposure:'' @ sha256 E (utf8 task_id)))"

definition platform_authority_digest :: "codec \<Rightarrow> string \<Rightarrow> string \<Rightarrow> py_error + string" where
  "platform_authority_digest E baseline model =
     check (\<not> blank baseline \<and> \<not> blank model) ValueError
       (Inr (sha256 E (ascii_json E (JObj (string_fields
         [(''baseline_signature'', baseline), (''model_signature'', model)])))))"

definition platform_year_request_template_hash ::
  "codec \<Rightarrow> string \<Rightarrow> string \<Rightarrow> int \<Rightarrow> string \<Rightarrow> string \<Rightarrow> int \<Rightarrow> py_error + string" where
  "platform_year_request_template_hash E endpoint subject year policy provider limit =
     (case normalize_official subject of
        None \<Rightarrow> Inl ValueError
      | Some host \<Rightarrow>
          check (year_ok year) ValueError (
          check (list_all (\<lambda>v. \<not> blank v) [endpoint, provider, policy]) ValueError (
          check (1 \<le> limit) ValueError (
          Inr (sha256 E (ascii_json E (JObj
            ((''target_year'', JInt year) # string_fields
              [(''template_version'', ''wayback-platform-year-v1''), (''provider'', provider), (''endpoint'', endpoint),
               (''subject'', host), (''policy_version'', policy), (''matchType'', ''domain''),
               (''from'', dec_int year @ ''0101000000''), (''to'', dec_int year @ ''1231235959''),
               (''output'', ''json''), (''fl'', ''urlkey,timestamp,original,statuscode,digest,length''),
               (''filter'', ''statuscode:[23][0-9][0-9]''), (''gzip'', ''false''), (''showResumeKey'', ''true''),
               (''limit'', dec_int limit)]))))))))"

section \<open>Tasks\<close>

record harvest_task =
  ht_harvest_id :: string
  ht_identity :: harvest_identity
  ht_resume_key :: "string option"
  ht_page_number :: int
  ht_state :: harvest_state
  ht_attempt :: int
  ht_retry_at :: "time option"
  ht_claimed_by :: "string option"
  ht_lease_expires_at :: "time option"
  ht_rows_seen :: int
  ht_unique_host_years_seen :: int
  ht_requests :: int
  ht_bytes :: int
  ht_elapsed_seconds :: rat
  ht_baseline_external_host_years :: int
  ht_final_eed :: rat
  ht_created_at :: time
  ht_updated_at :: time
  ht_completed_at :: "time option"
  ht_origin_decision :: string
  ht_evidence_frontier :: int
  ht_terminal_reason :: "string option"

definition opt_nonneg :: "rat option \<Rightarrow> bool" where
  "opt_nonneg v = (case v of None \<Rightarrow> True | Some q \<Rightarrow> 0 \<le> q)"

definition harvest_task_init :: "codec \<Rightarrow> harvest_task \<Rightarrow> py_error + harvest_task" where
  "harvest_task_init E t =
     (case normalize_official (hi_subject (ht_identity t)) of
        None \<Rightarrow> Inl ValueError
      | Some subject \<Rightarrow>
          (let i = (ht_identity t)\<lparr>hi_subject := subject\<rparr> in
           check (year_ok (hi_target_year i)) ValueError (
           bindr (platform_year_harvest_id E i) (\<lambda>expected.
           check (ht_harvest_id t = expected) ValueError (
           check (list_all (\<lambda>n. 0 \<le> n) [ht_page_number t, ht_attempt t, ht_rows_seen t, ht_unique_host_years_seen t,
                    ht_requests t, ht_bytes t, ht_baseline_external_host_years t, ht_evidence_frontier t]) ValueError (
           check (0 \<le> ht_elapsed_seconds t \<and> 0 \<le> ht_final_eed t) ValueError (
           check (list_all opt_nonneg [ht_retry_at t, ht_lease_expires_at t, Some (ht_created_at t),
                    Some (ht_updated_at t), ht_completed_at t]) ValueError (
           check (lineage_complete (lineage i)) ValueError (
           Inr (t\<lparr>ht_identity := i\<rparr>))))))))))"

section \<open>Results of a page\<close>

record harvest_result =
  hr_harvest_id :: string
  hr_provider :: string
  hr_subject :: string
  hr_target_year :: int
  hr_request_template_hash :: string
  hr_policy_version :: string
  hr_resume_key_used :: "string option"
  hr_state :: harvest_state
  hr_next_resume_key :: "string option"
  hr_capsules :: "capsule list"
  hr_rows_seen :: int
  hr_requests :: int
  hr_bytes :: int
  hr_elapsed_seconds :: rat
  hr_exhaustive :: bool
  hr_error :: "string option"

definition page_states :: "harvest_state list" where
  "page_states = [H_PARTIAL, H_RETRYABLE, H_COMPLETE, H_FAILED_INVALID]"

definition continuation_ok :: "harvest_result \<Rightarrow> bool" where
  "continuation_ok r =
     (if hr_state r = H_PARTIAL
      then (case hr_next_resume_key r of None \<Rightarrow> False | Some k \<Rightarrow> k \<noteq> [] \<and> hr_next_resume_key r \<noteq> hr_resume_key_used r)
      else hr_next_resume_key r = None)"

definition under_subject :: "string \<Rightarrow> string \<Rightarrow> bool" where
  "under_subject subject h = (h = subject \<or> starts_with (rev h) (rev (CHR ''.'' # subject)))"

definition page_capsules_ok :: "harvest_result \<Rightarrow> string \<Rightarrow> bool" where
  "page_capsules_ok r subject =
     (list_all (\<lambda>c. cp_provider c = hr_provider r \<and> cp_policy_version c = hr_policy_version r \<and>
        cp_year c = hr_target_year r \<and>
        (case normalize_official (cp_hostname c) of None \<Rightarrow> False | Some h \<Rightarrow> under_subject subject h)) (hr_capsules r) \<and>
      distinct (List.map (\<lambda>c. (normalize_official (cp_hostname c), cp_year c)) (hr_capsules r)))"

definition harvest_result_init :: "harvest_result \<Rightarrow> py_error + harvest_result" where
  "harvest_result_init r =
     (case normalize_official (hr_subject r) of
        None \<Rightarrow> Inl ValueError
      | Some subject \<Rightarrow>
          check (year_ok (hr_target_year r)) ValueError (
          check (hr_state r \<in> set page_states) ValueError (
          check (continuation_ok r) ValueError (
          check (hr_exhaustive r \<longleftrightarrow> hr_state r = H_COMPLETE) ValueError (
          check (0 \<le> hr_rows_seen r \<and> 0 \<le> hr_requests r \<and> 0 \<le> hr_bytes r) ValueError (
          check (0 \<le> hr_elapsed_seconds r) ValueError (
          check (page_capsules_ok r subject) ValueError (
          Inr (r\<lparr>hr_subject := subject\<rparr>)))))))))"

end
