(* ===== verification/Control_Tables.thy ===== *)
theory Control_Tables
  imports Tables Lifecycle Exposure Platform_Harvest
begin

text \<open>
  The production tables of the control store (\<open>storage/control_store.py\<close>): source domains, reservoirs,
  activations and leases, exposures, and platform harvests with the host-years they saw; and the two ways
  its operations use transactions.

  A transaction (\<open>'a txn\<close>) takes the database to an exception, and is then rolled back, or to a value
  with the database committed.  An operation that reads again after its commit may raise with the changes
  kept; it is a \<open>'a prog\<close>, which returns the database in either case.
\<close>

section \<open>Schema\<close>

record activation =
  ac_source_key :: string
  ac_domain_id :: string
  ac_reservoir_id :: string
  ac_adapter_id :: string
  ac_adapter_kind :: string
  ac_root_locator :: string
  ac_config_hash :: string
  ac_activation_state :: string
  ac_created_at :: time
  ac_updated_at :: time

record harvest_row =
  hv_task :: harvest_task
  hv_last_error :: "string option"

record control_db =
  cd_domains :: "source_domain list"
  cd_reservoirs :: "reservoir list"
  cd_activations :: "activation list"
  cd_leases :: "work_lease list"
  cd_exposures :: "exposure list"
  cd_harvests :: "harvest_row list"
  cd_host_years :: "(string \<times> string \<times> int) list"
  cd_checkpoints :: "(string \<times> string) list"

section \<open>Transactions and programs\<close>

type_synonym 'a txn = "control_db \<Rightarrow> py_error + ('a \<times> control_db)"
type_synonym 'a prog = "control_db \<Rightarrow> (py_error + 'a) \<times> control_db"

definition perform :: "'a txn \<Rightarrow> 'a prog" where
  "perform t d = (case t d of Inl e \<Rightarrow> (Inl e, d) | Inr (x, d') \<Rightarrow> (Inr x, d'))"

definition after :: "'a prog \<Rightarrow> ('a \<Rightarrow> 'b prog) \<Rightarrow> 'b prog" where
  "after p f d = (case p d of (Inl e, d') \<Rightarrow> (Inl e, d') | (Inr x, d') \<Rightarrow> f x d')"

definition query :: "(control_db \<Rightarrow> py_error + 'a) \<Rightarrow> 'a prog" where
  "query q d = (q d, d)"

text \<open>The guard \<open>assert\<close> on a row read back.\<close>

definition found :: "('a option) \<Rightarrow> py_error + 'a" where
  "found x = (case x of None \<Rightarrow> Inl RuntimeError | Some y \<Rightarrow> Inr y)"

lemma perform_Inr [simp]: "perform t d = (Inr x, d') \<longleftrightarrow> t d = Inr (x, d')"
  by (auto simp: perform_def split: sum.splits)

lemma perform_Inl: "perform t d = (Inl e, d') \<longleftrightarrow> t d = Inl e \<and> d' = d"
  by (auto simp: perform_def split: sum.splits)

lemma snd_perform: "snd (perform t d) = (case t d of Inl _ \<Rightarrow> d | Inr (_, d') \<Rightarrow> d')"
  by (auto simp: perform_def split: sum.splits)

lemma query_simps [simp]: "snd (query q d) = d" "fst (query q d) = q d"
  by (simp_all add: query_def)

lemma after_cases:
  assumes "snd (after p f d) = d'"
  obtains e where "p d = (Inl e, d')" | x d1 where "p d = (Inr x, d1)" "snd (f x d1) = d'"
  using assms by (cases "p d") (auto simp: after_def split: sum.splits)

section \<open>Keys\<close>

interpretation domains: keyed_table sd_domain_id "\<lambda>f. \<forall>r. sd_domain_id (f r) = sd_domain_id r"
  by unfold_locales simp

interpretation reservoirs: keyed_table rv_reservoir_id "\<lambda>f. \<forall>r. rv_reservoir_id (f r) = rv_reservoir_id r"
  by unfold_locales simp

interpretation leases: keyed_table wl_lease_id "\<lambda>f. \<forall>r. wl_lease_id (f r) = wl_lease_id r"
  by unfold_locales simp

interpretation exposures: keyed_table pe_exposure_id "\<lambda>f. \<forall>r. pe_exposure_id (f r) = pe_exposure_id r"
  by unfold_locales simp

definition harvest_key :: "harvest_row \<Rightarrow> string" where "harvest_key r = ht_harvest_id (hv_task r)"

interpretation harvests: keyed_table harvest_key "\<lambda>f. \<forall>r. harvest_key (f r) = harvest_key r"
  by unfold_locales simp

definition empty_control :: control_db where
  "empty_control = \<lparr>cd_domains = [], cd_reservoirs = [], cd_activations = [], cd_leases = [], cd_exposures = [],
     cd_harvests = [], cd_host_years = [], cd_checkpoints = []\<rparr>"

end
