(* ===== verification/Lease_Store.thy ===== *)
theory Lease_Store
  imports Control_Tables
begin

text \<open>
  Source domains, reservoirs, activations and leases in the control store: the operations of
  \<open>storage/control_store.py\<close> on the tables \<open>source_domains\<close>, \<open>reservoirs\<close>, \<open>source_activations\<close> and
  \<open>work_leases\<close>.  A lease row and its reservoir row change in one transaction.
\<close>

section \<open>Saving\<close>

definition set_checkpoint :: "string \<Rightarrow> string \<Rightarrow> unit txn" where
  "set_checkpoint k v d = Inr ((), d\<lparr>cd_checkpoints := tbl_upsert fst (\<lambda>_. (k, v)) (k, v) (cd_checkpoints d)\<rparr>)"

definition get_checkpoint :: "string \<Rightarrow> control_db \<Rightarrow> string option" where
  "get_checkpoint k d = map_option snd (tbl_find (\<lambda>r. fst r = k) (cd_checkpoints d))"

definition save_domain :: "source_domain \<Rightarrow> unit txn" where
  "save_domain s d = Inr ((), d\<lparr>cd_domains := tbl_upsert sd_domain_id (\<lambda>_. s) s (cd_domains d)\<rparr>)"

definition get_domain :: "string \<Rightarrow> control_db \<Rightarrow> py_error + source_domain option" where
  "get_domain i d = (case tbl_find (\<lambda>s. sd_domain_id s = i) (cd_domains d) of
     None \<Rightarrow> Inr None | Some s \<Rightarrow> bindr (source_domain_init s) (\<lambda>s. Inr (Some s)))"

definition save_reservoir :: "reservoir \<Rightarrow> unit txn" where
  "save_reservoir r d =
     bindr (get_domain (rv_domain_id r) d) (\<lambda>s. check (s \<noteq> None) KeyError
       (Inr ((), d\<lparr>cd_reservoirs := tbl_upsert rv_reservoir_id (\<lambda>_. r) r (cd_reservoirs d)\<rparr>)))"

definition get_reservoir :: "string \<Rightarrow> control_db \<Rightarrow> py_error + reservoir option" where
  "get_reservoir i d = (case tbl_find (\<lambda>r. rv_reservoir_id r = i) (cd_reservoirs d) of
     None \<Rightarrow> Inr None | Some r \<Rightarrow> bindr (reservoir_init r) (\<lambda>r. Inr (Some r)))"

text \<open>
  The last insertion resolves a conflict on \<open>source_key\<close>; a new source whose reservoir another
  activation holds, or a reservoir of an unknown domain, violates a constraint.
\<close>

definition save_activation ::
  "string \<Rightarrow> source_domain \<Rightarrow> reservoir \<Rightarrow> string \<Rightarrow> string \<Rightarrow> string \<Rightarrow> time \<Rightarrow> unit txn" where
  "save_activation source_key s r adapter_kind config_hash activation_state now d =
     check (\<not> blank source_key \<and> \<not> blank adapter_kind \<and> \<not> blank config_hash) ValueError (
     let d1 = d\<lparr>cd_domains := tbl_insert_or_ignore sd_domain_id s (cd_domains d)\<rparr>;
         d2 = d1\<lparr>cd_reservoirs := tbl_insert_or_ignore rv_reservoir_id r (cd_reservoirs d1)\<rparr>;
         row = \<lparr>ac_source_key = source_key, ac_domain_id = sd_domain_id s, ac_reservoir_id = rv_reservoir_id r,
           ac_adapter_id = rv_adapter_id r, ac_adapter_kind = adapter_kind, ac_root_locator = rv_root_locator r,
           ac_config_hash = config_hash, ac_activation_state = activation_state, ac_created_at = now, ac_updated_at = now\<rparr>
     in check (rv_domain_id r \<in> sd_domain_id ` set (cd_domains d1) \<or>
               rv_reservoir_id r \<in> rv_reservoir_id ` set (cd_reservoirs d)) IntegrityError (
        check (source_key \<in> ac_source_key ` set (cd_activations d) \<or>
               rv_reservoir_id r \<notin> ac_reservoir_id ` set (cd_activations d)) IntegrityError (
        Inr ((), d2\<lparr>cd_activations := tbl_upsert ac_source_key
          (\<lambda>a. a\<lparr>ac_updated_at := now, ac_activation_state := activation_state\<rparr>) row (cd_activations d)\<rparr>))))"

definition get_activation :: "string \<Rightarrow> control_db \<Rightarrow> activation option" where
  "get_activation k d = tbl_find (\<lambda>a. ac_source_key a = k) (cd_activations d)"

definition exhaust_ready_reservoir :: "string \<Rightarrow> bool txn" where
  "exhaust_ready_reservoir i d =
     (let ready = (\<lambda>r. rv_reservoir_id r = i \<and> rv_state r = READY)
      in Inr (tbl_count ready (cd_reservoirs d) = 1,
        d\<lparr>cd_reservoirs := tbl_update ready (\<lambda>r. r\<lparr>rv_state := R_EXHAUSTED, rv_cursor := None\<rparr>) (cd_reservoirs d)\<rparr>))"

section \<open>Leases\<close>

definition lease_row :: "string \<Rightarrow> control_db \<Rightarrow> work_lease option" where
  "lease_row i d = tbl_find (\<lambda>l. wl_lease_id l = i) (cd_leases d)"

definition get_lease :: "string \<Rightarrow> control_db \<Rightarrow> py_error + work_lease option" where
  "get_lease i d = (case lease_row i d of
     None \<Rightarrow> Inr None | Some l \<Rightarrow> bindr (replace_lease l) (\<lambda>l. Inr (Some l)))"

text \<open>
  \<open>expires_at\<close> is \<open>NOT NULL\<close> and \<open>reservoir_id\<close> a foreign key.
\<close>

definition lease_constraints :: "work_lease \<Rightarrow> control_db \<Rightarrow> bool" where
  "lease_constraints l d = (wl_expires_at l \<noteq> None \<and> wl_reservoir_id l \<in> rv_reservoir_id ` set (cd_reservoirs d))"

definition save_lease :: "work_lease \<Rightarrow> unit txn" where
  "save_lease l0 d =
     bindr (replace_lease l0) (\<lambda>l.
     check (wl_state l = L_RUNNING \<longrightarrow>
              (case lease_row (wl_lease_id l) d of None \<Rightarrow> False | Some row \<Rightarrow> wl_state row = L_GRANTED)) ValueError (
     check (lease_constraints l d) IntegrityError (
     Inr ((), d\<lparr>cd_leases := tbl_upsert wl_lease_id (\<lambda>_. l) l (cd_leases d)\<rparr>))))"

definition set_reservoirs ::
  "string \<Rightarrow> reservoir_state list \<Rightarrow> reservoir_state \<Rightarrow> string option \<Rightarrow> control_db \<Rightarrow> control_db" where
  "set_reservoirs i from_states st cursor d = d\<lparr>cd_reservoirs :=
     tbl_update (\<lambda>r. rv_reservoir_id r = i \<and> rv_state r \<in> set from_states)
       (\<lambda>r. r\<lparr>rv_state := st, rv_cursor := cursor\<rparr>) (cd_reservoirs d)\<rparr>"

definition count_reservoirs :: "string \<Rightarrow> reservoir_state list \<Rightarrow> control_db \<Rightarrow> nat" where
  "count_reservoirs i from_states d =
     tbl_count (\<lambda>r. rv_reservoir_id r = i \<and> rv_state r \<in> set from_states) (cd_reservoirs d)"

definition held_states :: "reservoir_state list" where
  "held_states = [R_LEASED, R_RUNNING, R_PAUSED, R_PREEMPTED]"

definition set_lease_state :: "string \<Rightarrow> lease_state \<Rightarrow> control_db \<Rightarrow> control_db" where
  "set_lease_state i st d = d\<lparr>cd_leases := tbl_update (\<lambda>l. wl_lease_id l = i) (\<lambda>l. l\<lparr>wl_state := st\<rparr>) (cd_leases d)\<rparr>"

record lease_request =
  lq_max_records :: int
  lq_max_requests :: int
  lq_max_bytes :: int
  lq_max_seconds :: rat
  lq_resource_class :: string
  lq_expected_evidence_tasks :: int
  lq_expected_novel_eed :: rat

definition request_args :: "string \<Rightarrow> string option \<Rightarrow> lease_request \<Rightarrow> rat option \<Rightarrow> lease_args" where
  "request_args reservoir_id cursor q expires_at =
     \<lparr>la_lease_id = PyNone, la_reservoir_id = PyStr reservoir_id, la_cursor_start = opt_val PyStr cursor,
      la_cursor_end = PyNone, la_max_records = PyInt (lq_max_records q), la_max_requests = PyInt (lq_max_requests q),
      la_max_bytes = PyInt (lq_max_bytes q), la_max_seconds = num (lq_max_seconds q),
      la_resource_class = PyStr (lq_resource_class q),
      la_expected_evidence_tasks = PyInt (lq_expected_evidence_tasks q),
      la_expected_novel_eed = num (lq_expected_novel_eed q), la_owner = PyNone,
      la_expires_at = opt_val num expires_at, la_state = PyStr (lease_state_value L_CREATED)\<rparr>"

definition first_cursor :: "string option \<Rightarrow> string option \<Rightarrow> string option" where
  "first_cursor durable initial = (case durable of None \<Rightarrow> initial | Some c \<Rightarrow> Some c)"

definition grant_fresh_lease ::
  "string \<Rightarrow> string \<Rightarrow> string \<Rightarrow> lease_request \<Rightarrow> time \<Rightarrow> rat option \<Rightarrow> string option \<Rightarrow> work_lease option txn" where
  "grant_fresh_lease uuid i owner q now ttl initial d =
     check (0 \<le> now) ValueError (
     check (case ttl of None \<Rightarrow> True | Some t \<Rightarrow> 0 < t) ValueError (
     case tbl_find (\<lambda>r. rv_reservoir_id r = i) (cd_reservoirs d) of
       None \<Rightarrow> Inr (None, d)
     | Some r \<Rightarrow>
         if rv_state r \<noteq> READY then Inr (None, d)
         else (let cursor = first_cursor (rv_cursor r) initial;
                   d1 = set_reservoirs i [READY] READY cursor d
               in bindr (create_lease uuid (request_args i cursor q (map_option (\<lambda>t. now + t) ttl)) (num now)) (\<lambda>made.
                  bindr (lease_grant (PyStr owner) made) (\<lambda>l.
                  check (lease_constraints l d1) IntegrityError (
                  bindr (tbl_insert wl_lease_id l (cd_leases d1)) (\<lambda>rows.
                  check (count_reservoirs i [READY] d1 = 1) RuntimeError (
                  Inr (Some l, set_reservoirs i [READY] R_LEASED cursor (d1\<lparr>cd_leases := rows\<rparr>))))))))))"

definition live_lease :: "work_lease \<Rightarrow> bool" where
  "live_lease l = (wl_state l \<in> {L_GRANTED, L_RUNNING})"

definition max_expiry :: "rat \<Rightarrow> rat option \<Rightarrow> rat" where
  "max_expiry e stored = max e (case stored of None \<Rightarrow> 0 | Some x \<Rightarrow> x)"

definition renew_lease :: "work_lease \<Rightarrow> rat \<Rightarrow> time option \<Rightarrow> time \<Rightarrow> time txn" where
  "renew_lease l ttl requested clock d =
     check (0 < ttl) ValueError (
     check (wl_lease_id l \<noteq> [] \<and> opt_text (wl_owner l) \<noteq> []) ValueError (
     check (opt_nonneg requested \<and> 0 \<le> clock) ValueError (
     let current = (case requested of None \<Rightarrow> clock | Some t \<Rightarrow> max clock t) in
     case lease_row (wl_lease_id l) d of
       None \<Rightarrow> Inl ValueError
     | Some row \<Rightarrow>
         check (wl_owner row = wl_owner l \<and> live_lease row) ValueError (
         check (case wl_expires_at row of None \<Rightarrow> True | Some e \<Rightarrow> current < e) RuntimeError (
         let e = max_expiry (current + ttl) (wl_expires_at row)
         in Inr (e, d\<lparr>cd_leases := tbl_update (\<lambda>x. wl_lease_id x = wl_lease_id l) (\<lambda>x. x\<lparr>wl_expires_at := Some e\<rparr>)
              (cd_leases d)\<rparr>))))))"

definition finalize_lease :: "work_lease \<Rightarrow> string option \<Rightarrow> bool \<Rightarrow> time \<Rightarrow> unit txn" where
  "finalize_lease l next_cursor exhausted clock d =
     check (wl_lease_id l \<noteq> [] \<and> wl_reservoir_id l \<noteq> [] \<and> opt_text (wl_owner l) \<noteq> []) ValueError (
     check (exhausted \<longleftrightarrow> next_cursor = None) ValueError (
     check (0 \<le> clock) ValueError (
     case lease_row (wl_lease_id l) d of
       None \<Rightarrow> Inl ValueError
     | Some row \<Rightarrow>
         check (wl_state row = L_RUNNING \<and> wl_owner row = wl_owner l \<and> wl_reservoir_id row = wl_reservoir_id l) ValueError (
         check (case wl_expires_at row of None \<Rightarrow> False | Some e \<Rightarrow> clock < e) RuntimeError (
         let d1 = set_lease_state (wl_lease_id l) L_SUCCEEDED d
         in check (count_reservoirs (wl_reservoir_id l) [R_LEASED, R_RUNNING] d1 = 1) ValueError (
            Inr ((), set_reservoirs (wl_reservoir_id l) [R_LEASED, R_RUNNING]
              (if exhausted then R_EXHAUSTED else READY) next_cursor d1)))))))"

definition abort_lease :: "work_lease \<Rightarrow> unit txn" where
  "abort_lease l d =
     check (wl_lease_id l \<noteq> [] \<and> wl_reservoir_id l \<noteq> [] \<and> opt_text (wl_owner l) \<noteq> []) ValueError (
     case lease_row (wl_lease_id l) d of
       None \<Rightarrow> Inl KeyError
     | Some row \<Rightarrow>
         check (wl_owner row = wl_owner l \<and> wl_reservoir_id row = wl_reservoir_id l) ValueError (
         check (wl_state row \<in> {L_GRANTED, L_RUNNING, L_PAUSED, L_PREEMPTED}) ValueError (
         let d1 = set_lease_state (wl_lease_id l) L_ABORTED d
         in check (count_reservoirs (wl_reservoir_id l) held_states d1 = 1) ValueError (
            Inr ((), set_reservoirs (wl_reservoir_id l) held_states READY (wl_cursor_start row) d1)))))"

section \<open>Recovery\<close>

definition expired_lease :: "time \<Rightarrow> work_lease \<Rightarrow> bool" where
  "expired_lease now l = (live_lease l \<and> (case wl_expires_at l of None \<Rightarrow> False | Some e \<Rightarrow> e \<le> now))"

definition expire_row :: "work_lease \<Rightarrow> control_db \<Rightarrow> control_db" where
  "expire_row row d =
     set_reservoirs (wl_reservoir_id row) held_states READY (wl_cursor_start row) (set_lease_state (wl_lease_id row) L_EXPIRED d)"

definition recover_expired_leases :: "time option \<Rightarrow> time \<Rightarrow> nat txn" where
  "recover_expired_leases requested clock d =
     (let now = (case requested of None \<Rightarrow> clock | Some t \<Rightarrow> t) in
      check (0 \<le> now) ValueError (
      let rows = filter (expired_lease now) (cd_leases d)
      in Inr (length rows, fold expire_row rows d)))"

section \<open>Counting\<close>

definition state_counts :: "('r \<Rightarrow> 's) \<Rightarrow> 'r list \<Rightarrow> ('s \<times> nat) list" where
  "state_counts st rows = List.map (\<lambda>s. (s, tbl_count (\<lambda>r. st r = s) rows)) (dedup (List.map st rows))"

definition reservoir_state_counts :: "control_db \<Rightarrow> (reservoir_state \<times> nat) list" where
  "reservoir_state_counts d = state_counts rv_state (cd_reservoirs d)"

definition work_lease_state_counts :: "control_db \<Rightarrow> (lease_state \<times> nat) list" where
  "work_lease_state_counts d = state_counts wl_state (cd_leases d)"

end
