(* ===== verification/Lease_Store_Invariant.thy ===== *)
theory Lease_Store_Invariant
  imports Lease_Store Lifecycle_Properties Visibility
begin

text \<open>
  Histories of reservoirs and their leases.  Everything the operations decide about a reservoir is in its
  slot, the reservoir row with the live leases on it; the section on effects says what each operation does
  to the slots, the invariant is a condition on each slot, and the interpretation of \<open>visibility\<close> makes
  a reservoir a ticket that the owner of its live lease holds until the deadline.
\<close>

section \<open>Slots\<close>

definition reservoir_row :: "string \<Rightarrow> control_db \<Rightarrow> reservoir option" where
  "reservoir_row i d = tbl_find (\<lambda>r. rv_reservoir_id r = i) (cd_reservoirs d)"

definition live_on :: "string \<Rightarrow> control_db \<Rightarrow> work_lease list" where
  "live_on i d = filter (\<lambda>l. wl_reservoir_id l = i \<and> live_lease l) (cd_leases d)"

definition slot :: "control_db \<Rightarrow> string \<Rightarrow> reservoir option \<times> work_lease list" where
  "slot d i = (reservoir_row i d, live_on i d)"

named_theorems slot_simps \<open>what the statements do to slots\<close>

definition moved :: "reservoir_state list \<Rightarrow> reservoir_state \<Rightarrow> string option \<Rightarrow> reservoir \<Rightarrow> reservoir" where
  "moved sts st c r = (if rv_state r \<in> set sts then r\<lparr>rv_state := st, rv_cursor := c\<rparr> else r)"

lemma moved_id [simp]: "rv_reservoir_id (moved sts st c r) = rv_reservoir_id r"
  by (simp add: moved_def)

lemma row_set_reservoirs [slot_simps]: "reservoir_row k (set_reservoirs i sts st c d) =
    (if k = i then map_option (moved sts st c) (reservoir_row k d) else reservoir_row k d)"
proof -
  let ?h = "\<lambda>r. if rv_reservoir_id r = i \<and> rv_state r \<in> set sts then r\<lparr>rv_state := st, rv_cursor := c\<rparr> else r"
  have "reservoir_row k (set_reservoirs i sts st c d) = map_option ?h (reservoir_row k d)"
    by (simp add: reservoir_row_def set_reservoirs_def tbl_find_def tbl_update_def find_map_key [where key = rv_reservoir_id])
  also have "\<dots> = (if k = i then map_option (moved sts st c) (reservoir_row k d) else reservoir_row k d)"
  proof (cases "reservoir_row k d")
    case (Some r)
    then have "rv_reservoir_id r = k" by (auto simp: reservoir_row_def dest: tbl_find_SomeD)
    with Some show ?thesis by (cases "k = i") (simp_all add: moved_def)
  qed (cases "k = i", simp_all)
  finally show ?thesis .
qed

lemma live_set_reservoirs [slot_simps]: "live_on k (set_reservoirs i sts st c d) = live_on k d"
  by (simp add: live_on_def set_reservoirs_def)

lemma row_set_lease [slot_simps]: "reservoir_row k (set_lease_state i st d) = reservoir_row k d"
  by (simp add: reservoir_row_def set_lease_state_def)

lemma live_set_lease [slot_simps]: "st \<notin> {L_GRANTED, L_RUNNING} \<Longrightarrow>
    live_on k (set_lease_state i st d) = filter (\<lambda>l. wl_lease_id l \<noteq> i) (live_on k d)"
  unfolding live_on_def set_lease_state_def tbl_update_def
  by (simp, subst filter_update_out) (auto simp: live_lease_def)

lemma row_leases_update [slot_simps]: "reservoir_row k (d\<lparr>cd_leases := t\<rparr>) = reservoir_row k d"
  by (simp add: reservoir_row_def)

lemma live_append [slot_simps]: "live_on k (d\<lparr>cd_leases := cd_leases d @ [l]\<rparr>) =
    live_on k d @ (if wl_reservoir_id l = k \<and> live_lease l then [l] else [])"
  by (simp add: live_on_def)

lemma leases_set_reservoirs [simp]: "cd_leases (set_reservoirs i sts st c d) = cd_leases d"
  and reservoirs_set_lease [simp]: "cd_reservoirs (set_lease_state i s d) = cd_reservoirs d"
  by (simp_all add: set_reservoirs_def set_lease_state_def)

lemma count_row: "uniq rv_reservoir_id (cd_reservoirs d) \<Longrightarrow> count_reservoirs i sts d = 1 \<Longrightarrow>
    \<exists>r. reservoir_row i d = Some r \<and> rv_state r \<in> set sts"
proof -
  assume u: "uniq rv_reservoir_id (cd_reservoirs d)" and c: "count_reservoirs i sts d = 1"
  then have "filter (\<lambda>r. rv_reservoir_id r = i \<and> rv_state r \<in> set sts) (cd_reservoirs d) \<noteq> []"
    by (auto simp: count_reservoirs_def tbl_count_def)
  then obtain r where r: "r \<in> set (cd_reservoirs d)" "rv_reservoir_id r = i" "rv_state r \<in> set sts"
    by (auto simp: filter_empty_conv)
  then have "reservoir_row i d = Some r" using reservoirs.find_key_iff [OF u, of i r] by (simp add: reservoir_row_def)
  with r(3) show ?thesis by blast
qed

section \<open>The invariant\<close>

definition held_row :: "reservoir \<Rightarrow> bool" where
  "held_row r \<longleftrightarrow> rv_state r \<in> {R_LEASED, R_RUNNING}"

fun slot_ok :: "reservoir option \<times> work_lease list \<Rightarrow> bool" where
  "slot_ok (None, ls) = (ls = [])"
| "slot_ok (Some r, []) = (\<not> held_row r)"
| "slot_ok (Some r, [l]) = (held_row r \<and> rv_cursor r = wl_cursor_start l \<and> wl_owner l \<noteq> None \<and> wl_expires_at l \<noteq> None)"
| "slot_ok (Some r, _) = False"

definition lease_rows_ok :: "control_db \<Rightarrow> bool" where
  "lease_rows_ok d \<longleftrightarrow> uniq rv_reservoir_id (cd_reservoirs d) \<and> uniq wl_lease_id (cd_leases d) \<and>
     uniq sd_domain_id (cd_domains d) \<and> uniq ac_source_key (cd_activations d) \<and> uniq ac_reservoir_id (cd_activations d) \<and>
     set (List.map wl_reservoir_id (cd_leases d)) \<subseteq> set (List.map rv_reservoir_id (cd_reservoirs d)) \<and>
     set (List.map rv_domain_id (cd_reservoirs d)) \<subseteq> set (List.map sd_domain_id (cd_domains d)) \<and>
     set (List.map ac_reservoir_id (cd_activations d)) \<subseteq> set (List.map rv_reservoir_id (cd_reservoirs d))"

text \<open>No operation here pauses or preempts a lease.\<close>

definition states_ok :: "control_db \<Rightarrow> bool" where
  "states_ok d \<longleftrightarrow> (\<forall>l \<in> set (cd_leases d). wl_state l \<notin> {L_PAUSED, L_PREEMPTED})"

definition source_inv :: "control_db \<Rightarrow> bool" where
  "source_inv d \<longleftrightarrow> lease_rows_ok d \<and> states_ok d \<and> (\<forall>i. slot_ok (slot d i))"

definition slot_lease :: "work_lease list \<Rightarrow> (string \<times> time) option" where
  "slot_lease ls = (case ls of [] \<Rightarrow> None | l # _ \<Rightarrow>
     (case (wl_owner l, wl_expires_at l) of (Some w, Some u) \<Rightarrow> Some (w, u) | _ \<Rightarrow> None))"

definition slot_ticket :: "reservoir option \<times> work_lease list \<Rightarrow> reservoir_state ticket option" where
  "slot_ticket s = map_option (\<lambda>r. \<lparr>tt_state = rv_state r, tt_lease = slot_lease (snd s)\<rparr>) (fst s)"

definition source_abs :: "control_db \<Rightarrow> string \<Rightarrow> reservoir_state ticket option" where
  "source_abs d i = slot_ticket (slot d i)"

definition final_reservoir :: "reservoir_state \<Rightarrow> bool" where
  "final_reservoir st \<longleftrightarrow> st \<in> {R_EXHAUSTED, R_ABORTED}"

lemma slot_cases:
  assumes "slot_ok (slot d i)"
  obtains (none) "reservoir_row i d = None" "live_on i d = []"
  | (free) r where "reservoir_row i d = Some r" "live_on i d = []" "\<not> held_row r"
  | (held) r l w u where "reservoir_row i d = Some r" "live_on i d = [l]" "held_row r" "rv_cursor r = wl_cursor_start l"
      "wl_owner l = Some w" "wl_expires_at l = Some u"
  using assms by (cases "slot d i" rule: slot_ok.cases) (auto simp: slot_def)

section \<open>Steps\<close>

inductive source_step :: "actor \<Rightarrow> time \<Rightarrow> control_db \<Rightarrow> control_db \<Rightarrow> bool" where
  domain: "save_domain s d = Inr ((), d') \<Longrightarrow> source_step Admin now d d'"
| activate: "save_activation k s r ak ch st t d = Inr ((), d') \<Longrightarrow> rv_state r \<in> {DISCOVERED, QUALIFYING, READY} \<Longrightarrow>
    source_step Admin now d d'"
| override: "save_reservoir r d = Inr ((), d') \<Longrightarrow> rv_state r \<in> {DISCOVERED, QUALIFYING, READY} \<Longrightarrow> live_on (rv_reservoir_id r) d = [] \<Longrightarrow>
    source_step Override now d d'"
| exhaust: "exhaust_ready_reservoir i d = Inr (b, d') \<Longrightarrow> source_step Admin now d d'"
| grant: "grant_fresh_lease uuid i w q now ttl init d = Inr (x, d') \<Longrightarrow> source_step (Worker w) now d d'"
| start: "lease_row (wl_lease_id l) d = Some row \<Longrightarrow> l = row\<lparr>wl_state := L_RUNNING, wl_expires_at := e\<rparr> \<Longrightarrow>
    wl_owner l = Some w \<Longrightarrow> save_lease l d = Inr ((), d') \<Longrightarrow> source_step (Worker w) now d d'"
| renew: "renew_lease l ttl req clock d = Inr (e, d') \<Longrightarrow> wl_owner l = Some w \<Longrightarrow> source_step (Worker w) now d d'"
| finalize: "finalize_lease l c ex now d = Inr ((), d') \<Longrightarrow> wl_owner l = Some w \<Longrightarrow> source_step (Worker w) now d d'"
| abort: "abort_lease l d = Inr ((), d') \<Longrightarrow> wl_owner l = Some w \<Longrightarrow> source_step (Worker w) now d d'"
| recover: "recover_expired_leases (Some now) clock d = Inr (n, d') \<Longrightarrow> source_step Admin now d d'"
| recover_now: "recover_expired_leases None now d = Inr (n, d') \<Longrightarrow> source_step Admin now d d'"

text \<open>What a step can do to one slot.\<close>

inductive slot_step :: "actor \<Rightarrow> time \<Rightarrow> reservoir option \<times> work_lease list \<Rightarrow> reservoir option \<times> work_lease list \<Rightarrow> bool" where
  keep: "slot_step a now s s"
| appear: "rv_state r \<in> {DISCOVERED, QUALIFYING, READY} \<Longrightarrow> a = Admin \<or> a = Override \<Longrightarrow> slot_step a now (None, []) (Some r, [])"
| force: "rv_state r' \<in> {DISCOVERED, QUALIFYING, READY} \<Longrightarrow> slot_step Override now (Some r, []) (Some r', [])"
| take: "rv_state r = READY \<Longrightarrow> live_lease l \<Longrightarrow> wl_owner l = Some w \<Longrightarrow> wl_expires_at l = Some u \<Longrightarrow>
    wl_cursor_start l = first_cursor (rv_cursor r) init \<Longrightarrow>
    slot_step (Worker w) now (Some r, []) (Some (r\<lparr>rv_state := R_LEASED, rv_cursor := wl_cursor_start l\<rparr>), [l])"
| extend: "wl_owner l = Some w \<Longrightarrow> live_lease (l\<lparr>wl_state := st\<rparr>) \<Longrightarrow>
    slot_step (Worker w) now (Some r, [l]) (Some r, [l\<lparr>wl_state := st, wl_expires_at := Some u\<rparr>])"
| finish: "wl_owner l = Some w \<Longrightarrow> wl_expires_at l = Some u \<Longrightarrow> now < u \<Longrightarrow> wl_state l = L_RUNNING \<Longrightarrow> held_row r \<Longrightarrow>
    (st, c) = (R_EXHAUSTED, None) \<or> st = READY \<and> c \<noteq> None \<Longrightarrow>
    slot_step (Worker w) now (Some r, [l]) (Some (r\<lparr>rv_state := st, rv_cursor := c\<rparr>), [])"
| release: "(\<exists>w. wl_owner l = Some w \<and> a = Worker w) \<or> (\<exists>u. wl_expires_at l = Some u \<and> u \<le> now) \<Longrightarrow>
    slot_step a now (Some r, [l]) (Some (r\<lparr>rv_state := READY, rv_cursor := wl_cursor_start l\<rparr>), [])"
| retire: "rv_state r = READY \<Longrightarrow>
    slot_step Admin now (Some r, []) (Some (r\<lparr>rv_state := R_EXHAUSTED, rv_cursor := None\<rparr>), [])"

inductive_cases slot_stepE: "slot_step a now (Some r, ls) s'"

lemma slot_step_ok: "slot_step a now s s' \<Longrightarrow> slot_ok s \<Longrightarrow> slot_ok s'"
  by (induction rule: slot_step.induct) (auto simp: held_row_def)

lemma slot_step_new: "slot_step a now (None, []) s' \<Longrightarrow> slot_ticket s' = Some t \<Longrightarrow>
    \<not> final_reservoir (tt_state t) \<and> tt_lease t = None"
  by (erule slot_step.cases) (auto simp: slot_ticket_def slot_lease_def final_reservoir_def)

lemma slot_step_spec:
  assumes "slot_step a now s s'" "slot_ok s" "fst s \<noteq> None"
  shows "\<exists>t t'. slot_ticket s = Some t \<and> slot_ticket s' = Some t' \<and> spec_row final_reservoir a now t t'"
  using assms
proof (induction rule: slot_step.induct)
  case (keep a now s)
  then show ?case by (auto simp: slot_ticket_def intro: spec_row.keep)
next
  case (take r l w u init now)
  then show ?case
    by (auto simp: slot_ticket_def slot_lease_def final_reservoir_def intro!: spec_row.take_up)
next
  case (extend l w st now r u)
  then obtain u0 where "wl_expires_at l = Some u0" by auto
  with extend show ?case
    using spec_row.extend [of "\<lparr>tt_state = rv_state r, tt_lease = Some (w, u0)\<rparr>" w u0 final_reservoir now u]
    by (simp add: slot_ticket_def slot_lease_def)
next
  case (finish l w u now r st c)
  then show ?case by (auto simp: slot_ticket_def slot_lease_def intro!: spec_row.settle)
next
  case (release l a now r)
  then obtain w u where l: "wl_owner l = Some w" "wl_expires_at l = Some u" by auto
  let ?t = "\<lparr>tt_state = rv_state r, tt_lease = Some (w, u)\<rparr>" and ?t' = "\<lparr>tt_state = READY, tt_lease = None\<rparr>"
  have "spec_row final_reservoir a now ?t ?t'"
  proof (cases "now < u")
    case True
    with release(1) l show ?thesis by (auto intro: spec_row.settle [where u = u])
  next
    case False
    then show ?thesis by (auto intro: spec_row.lapse [where u = u])
  qed
  with l show ?case by (simp add: slot_ticket_def slot_lease_def)
next
  case (retire r now)
  have "\<not> final_reservoir READY" by (simp add: final_reservoir_def)
  with retire show ?case
    using spec_row.retire [of final_reservoir "\<lparr>tt_state = READY, tt_lease = None\<rparr>" now R_EXHAUSTED]
    by (simp add: slot_ticket_def slot_lease_def)
qed (auto simp: slot_ticket_def slot_lease_def intro: spec_row.force)

section \<open>What the operations do to the slots\<close>

lemma rows_ok_cong:
  assumes "List.map rv_reservoir_id (cd_reservoirs d') = List.map rv_reservoir_id (cd_reservoirs d)"
    "List.map rv_domain_id (cd_reservoirs d') = List.map rv_domain_id (cd_reservoirs d)"
    "List.map wl_lease_id (cd_leases d') = List.map wl_lease_id (cd_leases d)"
    "List.map wl_reservoir_id (cd_leases d') = List.map wl_reservoir_id (cd_leases d)"
    "cd_domains d' = cd_domains d" "cd_activations d' = cd_activations d"
  shows "lease_rows_ok d' = lease_rows_ok d"
  unfolding lease_rows_ok_def uniq_def assms ..

lemma rows_ok_set_reservoirs [simp]: "lease_rows_ok (set_reservoirs i sts st c d) = lease_rows_ok d"
  by (rule rows_ok_cong) (simp_all add: set_reservoirs_def map_tbl_update)

lemma rows_ok_map_leases:
  "(\<And>l. wl_lease_id (f l) = wl_lease_id l) \<Longrightarrow> (\<And>l. wl_reservoir_id (f l) = wl_reservoir_id l) \<Longrightarrow>
   lease_rows_ok (d\<lparr>cd_leases := tbl_update P f (cd_leases d)\<rparr>) = lease_rows_ok d"
  by (rule rows_ok_cong) (simp_all add: map_tbl_update)

lemma rows_ok_set_lease [simp]: "lease_rows_ok (set_lease_state i st d) = lease_rows_ok d"
  unfolding set_lease_state_def by (rule rows_ok_map_leases) simp_all

lemma lease_row_iff:
  assumes "lease_rows_ok d"
  shows "lease_row i d = Some l \<longleftrightarrow> l \<in> set (cd_leases d) \<and> wl_lease_id l = i"
  using assms leases.find_key_iff [of "cd_leases d"] by (simp add: lease_row_def lease_rows_ok_def)

text \<open>A live lease is the only one of its slot.\<close>

lemma live_slot:
  assumes inv: "source_inv d" and l: "l \<in> set (cd_leases d)" "live_lease l"
  obtains r w u where "reservoir_row (wl_reservoir_id l) d = Some r" "live_on (wl_reservoir_id l) d = [l]" "held_row r"
    "rv_cursor r = wl_cursor_start l" "wl_owner l = Some w" "wl_expires_at l = Some u"
proof -
  have "l \<in> set (live_on (wl_reservoir_id l) d)" using l by (simp add: live_on_def)
  have "slot_ok (slot d (wl_reservoir_id l))" using inv by (simp add: source_inv_def)
  then show thesis by (cases rule: slot_cases) (use \<open>l \<in> set (live_on (wl_reservoir_id l) d)\<close> in \<open>auto intro: that\<close>)
qed

lemma live_other:
  assumes inv: "source_inv d" and l: "l \<in> set (cd_leases d)" and k: "k \<noteq> wl_reservoir_id l"
  shows "x \<in> set (live_on k d) \<Longrightarrow> wl_lease_id x \<noteq> wl_lease_id l"
proof
  assume x: "x \<in> set (live_on k d)" "wl_lease_id x = wl_lease_id l"
  then have "x = l" using inv l leases.uniqD [of "cd_leases d" x l] by (auto simp: live_on_def source_inv_def lease_rows_ok_def)
  with x k show False by (simp add: live_on_def)
qed

lemma moved_held: "held_row r \<Longrightarrow> {R_LEASED, R_RUNNING} \<subseteq> set sts \<Longrightarrow> moved sts st c r = r\<lparr>rv_state := st, rv_cursor := c\<rparr>"
  by (auto simp: moved_def held_row_def)

text \<open>Ending a live lease together with its reservoir.\<close>

lemma slot_after_end:
  assumes inv: "source_inv d" and l: "l \<in> set (cd_leases d)" "live_lease l" and st: "st \<notin> {L_GRANTED, L_RUNNING}"
    and sts: "{R_LEASED, R_RUNNING} \<subseteq> set sts"
  shows "slot (set_reservoirs (wl_reservoir_id l) sts rst c (set_lease_state (wl_lease_id l) st d)) k =
    (if k = wl_reservoir_id l then (map_option (\<lambda>r. r\<lparr>rv_state := rst, rv_cursor := c\<rparr>) (fst (slot d k)), []) else slot d k)"
proof (cases "k = wl_reservoir_id l")
  case True
  show ?thesis
    by (rule live_slot [OF inv l])
       (simp add: True slot_def row_set_reservoirs live_set_reservoirs row_set_lease live_set_lease [OF st] moved_held [OF _ sts])
next
  case False
  have "filter (\<lambda>x. wl_lease_id x \<noteq> wl_lease_id l) (live_on k d) = live_on k d"
    using live_other [OF inv l(1) False] by (simp add: filter_id_conv)
  with False show ?thesis
    by (simp add: slot_def row_set_reservoirs live_set_reservoirs row_set_lease live_set_lease [OF st])
qed

definition source_moves :: "actor \<Rightarrow> time \<Rightarrow> control_db \<Rightarrow> control_db \<Rightarrow> bool" where
  "source_moves a now d d' \<longleftrightarrow> lease_rows_ok d' \<and> states_ok d' \<and> (\<forall>k. slot_step a now (slot d k) (slot d' k))"

lemma movesI: "lease_rows_ok d' \<Longrightarrow> states_ok d' \<Longrightarrow> (\<And>k. slot_step a now (slot d k) (slot d' k)) \<Longrightarrow> source_moves a now d d'"
  by (simp add: source_moves_def)

lemma states_set_lease [simp]: "st \<notin> {L_PAUSED, L_PREEMPTED} \<Longrightarrow> states_ok d \<Longrightarrow> states_ok (set_lease_state i st d)"
  by (auto simp: states_ok_def set_lease_state_def table_simps)

lemma states_set_reservoirs [simp]: "states_ok (set_reservoirs i sts st c d) = states_ok d"
  by (simp add: states_ok_def)

lemma no_reservoir: "source_inv d \<Longrightarrow> i \<notin> rv_reservoir_id ` set (cd_reservoirs d) \<Longrightarrow> slot d i = (None, [])"
  by (auto simp: slot_def reservoir_row_def tbl_find_None live_on_def source_inv_def lease_rows_ok_def filter_empty_conv)

lemma finalize_moves:
  assumes inv: "source_inv d" and op: "finalize_lease l c ex now d = Inr ((), d')" and w: "wl_owner l = Some w"
  shows "source_moves (Worker w) now d d'"
proof -
  let ?i = "wl_reservoir_id l"
  obtain row e where row: "lease_row (wl_lease_id l) d = Some row" "wl_state row = L_RUNNING" "wl_owner row = Some w"
      "wl_reservoir_id row = ?i" "wl_expires_at row = Some e" "now < e" and ex: "ex \<longleftrightarrow> c = None"
      and d': "d' = set_reservoirs ?i [R_LEASED, R_RUNNING] (if ex then R_EXHAUSTED else READY) c
        (set_lease_state (wl_lease_id l) L_SUCCEEDED d)"
    using op w by (auto simp: finalize_lease_def Let_def split: option.splits)
  have rk: "row \<in> set (cd_leases d)" "wl_lease_id row = wl_lease_id l"
    using row(1) inv lease_row_iff [of d] by (auto simp: source_inv_def)
  have live: "live_lease row" by (simp add: live_lease_def row(2))
  have s: "slot d' k = (if k = ?i then (map_option (\<lambda>r. r\<lparr>rv_state := if ex then R_EXHAUSTED else READY, rv_cursor := c\<rparr>)
      (fst (slot d k)), []) else slot d k)" for k
    unfolding d' using slot_after_end [OF inv rk(1) live, of L_SUCCEEDED "[R_LEASED, R_RUNNING]"] row(4) rk(2) by simp
  from live_slot [OF inv rk(1) live] row(4) obtain r where r: "slot d ?i = (Some r, [row])" "held_row r"
    by (metis slot_def)
  show ?thesis
  proof (rule movesI)
    show "slot_step (Worker w) now (slot d k) (slot d' k)" for k
      using r row(2,3,5,6) ex
      by (cases "k = ?i") (auto simp: s intro!: slot_step.keep slot_step.finish)
  qed (use inv in \<open>simp_all add: d' source_inv_def\<close>)
qed

lemma abort_moves:
  assumes inv: "source_inv d" and op: "abort_lease l d = Inr ((), d')" and w: "wl_owner l = Some w"
  shows "source_moves (Worker w) now d d'"
proof -
  let ?i = "wl_reservoir_id l"
  obtain row where row: "lease_row (wl_lease_id l) d = Some row" "wl_owner row = Some w" "wl_reservoir_id row = ?i"
      "wl_state row \<in> {L_GRANTED, L_RUNNING, L_PAUSED, L_PREEMPTED}"
      and d': "d' = set_reservoirs ?i held_states READY (wl_cursor_start row) (set_lease_state (wl_lease_id l) L_ABORTED d)"
    using op w by (auto simp: abort_lease_def Let_def split: option.splits)
  have rk: "row \<in> set (cd_leases d)" "wl_lease_id row = wl_lease_id l"
    using row(1) inv lease_row_iff [of d] by (auto simp: source_inv_def)
  have live: "live_lease row" using row(4) inv rk(1) by (auto simp: live_lease_def source_inv_def states_ok_def)
  have s: "slot d' k = (if k = ?i then (map_option (\<lambda>r. r\<lparr>rv_state := READY, rv_cursor := wl_cursor_start row\<rparr>)
      (fst (slot d k)), []) else slot d k)" for k
    unfolding d' using slot_after_end [OF inv rk(1) live, of L_ABORTED held_states] row(3) rk(2) by (simp add: held_states_def)
  from live_slot [OF inv rk(1) live] row(3) obtain r where r: "slot d ?i = (Some r, [row])"
    by (metis slot_def)
  show ?thesis
  proof (rule movesI)
    show "slot_step (Worker w) now (slot d k) (slot d' k)" for k
      using r row(2) by (cases "k = ?i") (auto simp: s intro!: slot_step.keep slot_step.release)
  qed (use inv in \<open>simp_all add: d' source_inv_def\<close>)
qed

lemma slots_same:
  assumes "cd_reservoirs d' = cd_reservoirs d" "cd_leases d' = cd_leases d"
  shows "slot d' k = slot d k"
  by (simp add: slot_def reservoir_row_def live_on_def assms)

lemma domain_moves:
  assumes inv: "source_inv d" and op: "save_domain s d = Inr ((), d')"
  shows "source_moves a now d d'"
proof (rule movesI)
  have d': "d' = d\<lparr>cd_domains := tbl_upsert sd_domain_id (\<lambda>_. s) s (cd_domains d)\<rparr>"
    using op by (simp add: save_domain_def)
  show "lease_rows_ok d'"
    using inv domains.uniq_upsert_row set_upsert_keys [of sd_domain_id s]
    by (auto simp: d' source_inv_def lease_rows_ok_def)
  show "states_ok d'" using inv by (simp add: d' source_inv_def states_ok_def)
  show "slot_step a now (slot d k) (slot d' k)" for k
    using slots_same [of d' d k] by (simp add: d' slot_step.keep)
qed

lemma override_moves:
  assumes inv: "source_inv d" and op: "save_reservoir r d = Inr ((), d')"
    and r: "rv_state r \<in> {DISCOVERED, QUALIFYING, READY}" "live_on (rv_reservoir_id r) d = []"
  shows "source_moves Override now d d'"
proof (rule movesI)
  obtain s where s: "get_domain (rv_domain_id r) d = Inr (Some s)"
    and d': "d' = d\<lparr>cd_reservoirs := tbl_upsert rv_reservoir_id (\<lambda>_. r) r (cd_reservoirs d)\<rparr>"
    using op by (auto simp: save_reservoir_def)
  have dom: "rv_domain_id r \<in> sd_domain_id ` set (cd_domains d)"
    using s by (auto simp: get_domain_def split: option.splits dest!: tbl_find_SomeD intro: rev_image_eqI)
  have "rv_domain_id ` set (cd_reservoirs d') \<subseteq> sd_domain_id ` set (cd_domains d)"
    using dom inv by (auto simp: d' tbl_upsert_def table_simps source_inv_def lease_rows_ok_def)
  moreover have "rv_reservoir_id ` set (cd_reservoirs d') = insert (rv_reservoir_id r) (rv_reservoir_id ` set (cd_reservoirs d))"
    by (simp add: d' set_upsert_keys)
  moreover have "uniq rv_reservoir_id (cd_reservoirs d')"
    using inv by (simp add: d' source_inv_def lease_rows_ok_def reservoirs.uniq_upsert_row)
  ultimately show "lease_rows_ok d'"
    using inv unfolding source_inv_def lease_rows_ok_def by (simp add: d') blast
  show "states_ok d'" using inv by (simp add: d' source_inv_def states_ok_def)
  have s: "slot d' k = (if k = rv_reservoir_id r then (Some r, []) else slot d k)" for k
    using r(2) by (simp add: slot_def reservoir_row_def live_on_def d' find_upsert_row)
  show "slot_step Override now (slot d k) (slot d' k)" for k
  proof (cases "k = rv_reservoir_id r")
    case True
    then show ?thesis using r by (cases "reservoir_row k d") (auto simp: s slot_def [of d] intro: slot_step.appear slot_step.force)
  qed (simp add: s slot_step.keep)
qed

lemma exhaust_moves:
  assumes inv: "source_inv d" and op: "exhaust_ready_reservoir i d = Inr (b, d')"
  shows "source_moves Admin now d d'"
proof -
  have d': "d' = set_reservoirs i [READY] R_EXHAUSTED None d"
    using op by (simp add: exhaust_ready_reservoir_def set_reservoirs_def Let_def)
  show ?thesis
  proof (rule movesI)
    have ok: "slot_ok (slot d i)" using inv by (simp add: source_inv_def)
    show "slot_step Admin now (slot d k) (slot d' k)" for k
    proof (cases "k = i")
      case True
      from ok show ?thesis
        by (cases rule: slot_cases)
           (auto simp: True d' slot_def slot_simps moved_def held_row_def intro: slot_step.keep slot_step.retire)
    qed (simp add: d' slot_def slot_simps slot_step.keep)
  qed (use inv in \<open>simp_all add: d' source_inv_def\<close>)
qed

lemma activate_moves:
  assumes inv: "source_inv d" and op: "save_activation key s r ak ch st t d = Inr ((), d')"
    and r: "rv_state r \<in> {DISCOVERED, QUALIFYING, READY}"
  shows "source_moves Admin now d d'"
proof (rule movesI)
  let ?doms = "tbl_insert_or_ignore sd_domain_id s (cd_domains d)" and ?res = "tbl_insert_or_ignore rv_reservoir_id r (cd_reservoirs d)"
  define f :: "activation \<Rightarrow> activation" where "f = (\<lambda>a. a\<lparr>ac_updated_at := t, ac_activation_state := st\<rparr>)"
  define row where "row = \<lparr>ac_source_key = key, ac_domain_id = sd_domain_id s, ac_reservoir_id = rv_reservoir_id r,
    ac_adapter_id = rv_adapter_id r, ac_adapter_kind = ak, ac_root_locator = rv_root_locator r,
    ac_config_hash = ch, ac_activation_state = st, ac_created_at = t, ac_updated_at = t\<rparr>"
  have row: "ac_source_key row = key" "ac_reservoir_id row = rv_reservoir_id r" by (simp_all add: row_def)
  have fk: "rv_domain_id r \<in> sd_domain_id ` set ?doms \<or> rv_reservoir_id r \<in> rv_reservoir_id ` set (cd_reservoirs d)"
      "key \<in> ac_source_key ` set (cd_activations d) \<or> rv_reservoir_id r \<notin> ac_reservoir_id ` set (cd_activations d)"
    and d': "d' = d\<lparr>cd_domains := ?doms, cd_reservoirs := ?res, cd_activations := tbl_upsert ac_source_key f row (cd_activations d)\<rparr>"
    using op unfolding save_activation_def Let_def f_def [symmetric] row_def [symmetric] by simp_all
  have keys: "ac_source_key (f a) = ac_source_key a" "ac_reservoir_id (f a) = ac_reservoir_id a" for a by (simp_all add: f_def)
  let ?acts = "tbl_upsert ac_source_key f row (cd_activations d)"
  have ids: "rv_reservoir_id ` set ?res = insert (rv_reservoir_id r) (rv_reservoir_id ` set (cd_reservoirs d))"
    "sd_domain_id ` set ?doms = insert (sd_domain_id s) (sd_domain_id ` set (cd_domains d))"
    by (auto simp: tbl_insert_or_ignore_def)
  have acts: "uniq ac_source_key ?acts \<and> uniq ac_reservoir_id ?acts \<and>
      ac_reservoir_id ` set ?acts \<subseteq> insert (rv_reservoir_id r) (ac_reservoir_id ` set (cd_activations d))"
  proof (cases "key \<in> ac_source_key ` set (cd_activations d)")
    case True
    then have "List.map ac_source_key ?acts = List.map ac_source_key (cd_activations d)"
        "List.map ac_reservoir_id ?acts = List.map ac_reservoir_id (cd_activations d)"
      by (simp_all add: tbl_upsert_def row map_tbl_update keys)
    then show ?thesis using inv unfolding uniq_def set_map [symmetric] source_inv_def lease_rows_ok_def by auto
  next
    case False
    then show ?thesis using inv fk(2) by (auto simp: tbl_upsert_def row source_inv_def lease_rows_ok_def uniq_def)
  qed
  have "rv_domain_id ` set ?res \<subseteq> sd_domain_id ` set ?doms"
    using inv fk(1) ids(2) by (auto simp: tbl_insert_or_ignore_def source_inv_def lease_rows_ok_def)
  moreover have "ac_reservoir_id ` set ?acts \<subseteq> rv_reservoir_id ` set ?res" "wl_reservoir_id ` set (cd_leases d) \<subseteq> rv_reservoir_id ` set ?res"
    using inv order_trans [OF acts [THEN conjunct2, THEN conjunct2]] unfolding ids(1) source_inv_def lease_rows_ok_def
    by (simp_all add: subset_insertI2 insert_mono)
  moreover have "uniq sd_domain_id ?doms" "uniq rv_reservoir_id ?res" "uniq wl_lease_id (cd_leases d)"
    using inv by (simp_all add: source_inv_def lease_rows_ok_def domains.uniq_insert_or_ignore reservoirs.uniq_insert_or_ignore)
  ultimately show "lease_rows_ok d'" using acts by (simp add: d' lease_rows_ok_def)
  show "states_ok d'" using inv by (simp add: d' source_inv_def states_ok_def)
  show "slot_step Admin now (slot d k) (slot d' k)" for k
  proof (cases "k = rv_reservoir_id r \<and> rv_reservoir_id r \<notin> rv_reservoir_id ` set (cd_reservoirs d)")
    case True
    then have "slot d' k = (Some r, live_on k d)"
      using find_append_other [of rv_reservoir_id r "cd_reservoirs d" k]
      by (simp add: d' slot_def reservoir_row_def live_on_def tbl_insert_or_ignore_def)
    moreover have "slot d k = (None, [])" using no_reservoir [OF inv] True by simp
    ultimately show ?thesis using r by (auto simp: slot_def intro: slot_step.appear)
  next
    case False
    then have "reservoir_row k d' = reservoir_row k d"
      using find_append_other [of rv_reservoir_id r "cd_reservoirs d" k]
      by (auto simp: d' reservoir_row_def tbl_insert_or_ignore_def)
    then have "slot d' k = slot d k" by (simp add: slot_def live_on_def d')
    then show ?thesis by (simp add: slot_step.keep)
  qed
qed

lemma granted_fields:
  assumes "create_lease u (request_args i c q e) (num now) = Inr made" "lease_grant (PyStr w) made = Inr l"
  shows "wl_lease_id l = u" "wl_reservoir_id l = i" "wl_cursor_start l = c" "wl_state l = L_GRANTED" "wl_owner l = Some w"
    "wl_expires_at l = Some (case e of None \<Rightarrow> now + lq_max_seconds q | Some x \<Rightarrow> x)"
proof -
  have "wl_lease_id made = u \<and> wl_reservoir_id made = i \<and> wl_cursor_start made = c \<and> wl_state made = L_CREATED \<and>
      wl_expires_at made = Some (case e of None \<Rightarrow> now + lq_max_seconds q | Some x \<Rightarrow> x)"
    using assms(1) by (cases e; cases c; auto simp: create_lease_def request_args_def work_lease_init_def Let_def opt_of_def
        simp del: lease_state_value.simps split: if_splits)
  moreover have "l = made\<lparr>wl_state := L_GRANTED, wl_owner := Some w\<rparr>"
    using assms(2) by (auto simp: lease_grant_def lease_move_def replace_iff split: if_splits)
  ultimately show "wl_lease_id l = u" "wl_reservoir_id l = i" "wl_cursor_start l = c" "wl_state l = L_GRANTED" "wl_owner l = Some w"
    "wl_expires_at l = Some (case e of None \<Rightarrow> now + lq_max_seconds q | Some x \<Rightarrow> x)" by simp_all
qed

lemma grant_cases:
  assumes "grant_fresh_lease u i w q now ttl init d = Inr (x, d')" "source_inv d"
  obtains "x = None" "d' = d"
  | r l where "x = Some l" "reservoir_row i d = Some r" "rv_state r = READY" "l \<notin> set (cd_leases d)"
      "wl_lease_id l = u" "wl_reservoir_id l = i" "wl_state l = L_GRANTED" "wl_owner l = Some w"
      "wl_cursor_start l = first_cursor (rv_cursor r) init"
      "wl_expires_at l = Some (case ttl of None \<Rightarrow> now + lq_max_seconds q | Some t \<Rightarrow> now + t)"
      "d' = set_reservoirs i [READY] R_LEASED (wl_cursor_start l) (set_reservoirs i [READY] READY (wl_cursor_start l)
         (d\<lparr>cd_leases := cd_leases d @ [l]\<rparr>))" "u \<notin> wl_lease_id ` set (cd_leases d)"
proof (cases "\<exists>r. reservoir_row i d = Some r \<and> rv_state r = READY")
  case False
  then have "x = None \<and> d' = d" using assms(1)
    by (auto simp: grant_fresh_lease_def reservoir_row_def split: option.splits if_splits)
  with that(1) show thesis by blast
next
  case True
  then obtain r where r: "reservoir_row i d = Some r" "rv_state r = READY" by blast
  let ?c = "first_cursor (rv_cursor r) init"
  let ?d1 = "set_reservoirs i [READY] READY ?c d"
  obtain made l where l: "create_lease u (request_args i ?c q (map_option (\<lambda>t. now + t) ttl)) (num now) = Inr made"
      "lease_grant (PyStr w) made = Inr l" "wl_lease_id l \<notin> wl_lease_id ` set (cd_leases d)" "x = Some l"
      "d' = set_reservoirs i [READY] R_LEASED ?c (?d1\<lparr>cd_leases := cd_leases d @ [l]\<rparr>)"
    using assms(1) r by (auto simp: grant_fresh_lease_def reservoir_row_def Let_def tbl_insert_Inr)
  note g = granted_fields [OF l(1,2)]
  show thesis
  proof (rule that(2) [OF l(4) r])
    show "d' = set_reservoirs i [READY] R_LEASED (wl_cursor_start l) (set_reservoirs i [READY] READY (wl_cursor_start l)
         (d\<lparr>cd_leases := cd_leases d @ [l]\<rparr>))"
      by (simp add: l(5) g(3)) (simp add: set_reservoirs_def)
    show "wl_expires_at l = Some (case ttl of None \<Rightarrow> now + lq_max_seconds q | Some t \<Rightarrow> now + t)"
      using g(6) by (cases ttl) simp_all
  qed (use g l(3) in auto)
qed

lemma grant_moves:
  assumes inv: "source_inv d" and op: "grant_fresh_lease u i w q now ttl init d = Inr (x, d')"
  shows "source_moves (Worker w) now d d'"
  using op inv
proof (cases rule: grant_cases)
  case 1
  with inv show ?thesis by (auto simp: source_inv_def intro: movesI slot_step.keep)
next
  case (2 r l)
  have "slot_ok (slot d i)" using inv by (simp add: source_inv_def)
  then have free: "live_on i d = []" using 2(2,3) by (cases rule: slot_cases) (auto simp: held_row_def)
  show ?thesis
  proof (rule movesI)
    have "i \<in> rv_reservoir_id ` set (cd_reservoirs d)"
      using 2(2) by (auto simp: reservoir_row_def dest!: tbl_find_SomeD)
    then show "lease_rows_ok d'" unfolding 2(11) rows_ok_set_reservoirs
      using inv 2(5,6,12) by (auto simp: source_inv_def lease_rows_ok_def uniq_def)
    show "states_ok d'" using inv 2(7) by (simp add: 2(11) source_inv_def states_ok_def)
    show "slot_step (Worker w) now (slot d k) (slot d' k)" for k
    proof (cases "k = i")
      case True
      have "slot d' i = (Some (r\<lparr>rv_state := R_LEASED, rv_cursor := wl_cursor_start l\<rparr>), [l])"
        using 2(2,3,6,7) free unfolding 2(11) slot_def slot_simps
        by (simp add: moved_def live_lease_def reservoir_row_def)
      moreover have "slot d i = (Some r, [])" using 2(2) free by (simp add: slot_def)
      ultimately show ?thesis using True 2(3,7-10) slot_step.take [of r l w _ init now] by (simp add: live_lease_def)
    next
      case False
      then have "slot d' k = slot d k" using 2(6) unfolding 2(11) slot_def slot_simps by (simp add: reservoir_row_def)
      then show ?thesis by (simp add: slot_step.keep)
    qed
  qed
qed

text \<open>An update of one live lease that keeps it live leaves the other slots alone.\<close>

lemma slot_update_lease:
  assumes inv: "source_inv d" and l: "l \<in> set (cd_leases d)" "live_lease l"
    and f: "wl_reservoir_id (f l) = wl_reservoir_id l" "live_lease (f l)"
  shows "slot (d\<lparr>cd_leases := tbl_update (\<lambda>x. wl_lease_id x = wl_lease_id l) f (cd_leases d)\<rparr>) k =
    (if k = wl_reservoir_id l then (fst (slot d k), [f l]) else slot d k)"
proof -
  have only: "x = l" if "x \<in> set (cd_leases d)" "wl_lease_id x = wl_lease_id l" for x
    using that l(1) inv leases.uniqD [of "cd_leases d" x l] by (auto simp: source_inv_def lease_rows_ok_def)
  have "live_on k (d\<lparr>cd_leases := tbl_update (\<lambda>x. wl_lease_id x = wl_lease_id l) f (cd_leases d)\<rparr>) =
      List.map (\<lambda>x. if wl_lease_id x = wl_lease_id l then f x else x) (live_on k d)"
    unfolding live_on_def tbl_update_def using only l(2) f by (simp, intro filter_update_in) metis
  also have "\<dots> = (if k = wl_reservoir_id l then [f l] else live_on k d)"
  proof (cases "k = wl_reservoir_id l")
    case True
    show ?thesis by (rule live_slot [OF inv l]) (simp add: True)
  next
    case False
    then show ?thesis using live_other [OF inv l(1) False] by (simp add: map_idI)
  qed
  finally show ?thesis by (simp add: slot_def reservoir_row_def)
qed

lemma renew_moves:
  assumes inv: "source_inv d" and op: "renew_lease l ttl req clock d = Inr (e, d')" and w: "wl_owner l = Some w"
  shows "source_moves (Worker w) now d d'"
proof -
  obtain row where row: "lease_row (wl_lease_id l) d = Some row" "wl_owner row = Some w" "live_lease row"
      and d': "d' = d\<lparr>cd_leases := tbl_update (\<lambda>x. wl_lease_id x = wl_lease_id l) (\<lambda>x. x\<lparr>wl_expires_at := Some e\<rparr>) (cd_leases d)\<rparr>"
    using op w by (auto simp: renew_lease_def Let_def split: option.splits)
  have rk: "row \<in> set (cd_leases d)" "wl_lease_id row = wl_lease_id l"
    using row(1) inv lease_row_iff [of d] by (auto simp: source_inv_def)
  have s: "slot d' k = (if k = wl_reservoir_id row then (fst (slot d k), [row\<lparr>wl_expires_at := Some e\<rparr>]) else slot d k)" for k
    unfolding d' rk(2) [symmetric] using rk(1) row(3) by (subst slot_update_lease [OF inv]) (simp_all add: live_lease_def)
  from live_slot [OF inv rk(1) row(3)] obtain r where r: "slot d (wl_reservoir_id row) = (Some r, [row])" by (metis slot_def)
  show ?thesis
  proof (rule movesI)
    show "lease_rows_ok d'" using inv unfolding d' by (simp add: rows_ok_map_leases source_inv_def)
    show "states_ok d'" using inv by (auto simp: d' source_inv_def states_ok_def table_simps)
    show "slot_step (Worker w) now (slot d k) (slot d' k)" for k
      using r row(2,3) slot_step.extend [of row w "wl_state row" now r e]
      by (cases "k = wl_reservoir_id row") (auto simp: s intro: slot_step.keep)
  qed
qed

lemma start_moves:
  assumes inv: "source_inv d" and row: "lease_row (wl_lease_id l) d = Some row"
    and l: "l = row\<lparr>wl_state := L_RUNNING, wl_expires_at := e\<rparr>" "wl_owner l = Some w" and op: "save_lease l d = Inr ((), d')"
  shows "source_moves (Worker w) now d d'"
proof -
  have rk: "row \<in> set (cd_leases d)" "wl_lease_id row = wl_lease_id l"
    using row inv lease_row_iff [of d] by (auto simp: source_inv_def)
  obtain u where st: "wl_state row = L_GRANTED" "e = Some u"
      and d': "d' = d\<lparr>cd_leases := tbl_upsert wl_lease_id (\<lambda>_. l) l (cd_leases d)\<rparr>"
    using op row l(1) by (auto simp: save_lease_def replace_iff lease_constraints_def)
  have live: "live_lease row" by (simp add: live_lease_def st(1))
  have d'': "d' = d\<lparr>cd_leases := tbl_update (\<lambda>x. wl_lease_id x = wl_lease_id row) (\<lambda>_. l) (cd_leases d)\<rparr>"
    using rk by (simp add: d' tbl_upsert_def rev_image_eqI)
  have s: "slot d' k = (if k = wl_reservoir_id row then (fst (slot d k), [l]) else slot d k)" for k
    unfolding d'' using rk(1) live l(1) by (subst slot_update_lease [OF inv]) (simp_all add: live_lease_def)
  from live_slot [OF inv rk(1) live] obtain r where r: "slot d (wl_reservoir_id row) = (Some r, [row])" by (metis slot_def)
  show ?thesis
  proof (rule movesI)
    have "x = row" if "x \<in> set (cd_leases d)" "wl_lease_id x = wl_lease_id row" for x
      using that rk(1) inv leases.uniqD [of "cd_leases d" x row] by (auto simp: source_inv_def lease_rows_ok_def)
    then have "lease_rows_ok d' = lease_rows_ok d" using l(1)
      by (intro rows_ok_cong) (auto simp: d'' tbl_update_def)
    then show "lease_rows_ok d'" using inv by (simp add: source_inv_def)
    show "states_ok d'" using inv l(1) by (auto simp: d'' source_inv_def states_ok_def table_simps)
    show "slot_step (Worker w) now (slot d k) (slot d' k)" for k
      using r l st slot_step.extend [of row w L_RUNNING now r u]
      by (cases "k = wl_reservoir_id row") (auto simp: s live_lease_def intro: slot_step.keep)
  qed
qed

section \<open>Recovery\<close>

text \<open>Expiring leases one after the other: of a slot the leases in the list go, and its row moves once for each.\<close>

lemma expire_rows:
  "reservoir_row k (fold expire_row ls d) =
     fold (\<lambda>l. map_option (moved held_states READY (wl_cursor_start l))) (filter (\<lambda>l. wl_reservoir_id l = k) ls) (reservoir_row k d)"
  "live_on k (fold expire_row ls d) = filter (\<lambda>l. wl_lease_id l \<notin> wl_lease_id ` set ls) (live_on k d)"
  "lease_rows_ok (fold expire_row ls d) = lease_rows_ok d"
  "states_ok d \<Longrightarrow> states_ok (fold expire_row ls d)"
proof (induction ls arbitrary: d)
  case (Cons l ls)
  { case 1 show ?case by (simp add: Cons(1)) (simp add: expire_row_def slot_simps) }
  { case 2 show ?case by (simp add: Cons(2)) (simp add: expire_row_def live_set_reservoirs live_set_lease conj_commute) }
  { case 3 show ?case by (simp add: Cons(3)) (simp add: expire_row_def) }
  { case 4 then show ?case by (simp, intro Cons(4)) (simp add: expire_row_def) }
qed simp_all

lemma recover_effect:
  assumes inv: "source_inv d"
  shows "slot (fold expire_row (filter (expired_lease now) (cd_leases d)) d) k =
    (case slot d k of (Some r, [l]) \<Rightarrow> if expired_lease now l
       then (Some (r\<lparr>rv_state := READY, rv_cursor := wl_cursor_start l\<rparr>), []) else (Some r, [l]) | s \<Rightarrow> s)"
proof -
  let ?ls = "filter (expired_lease now) (cd_leases d)"
  have hs: "{R_LEASED, R_RUNNING} \<subseteq> set held_states" by (simp add: held_states_def)
  have sub: "filter (\<lambda>l. expired_lease now l \<and> wl_reservoir_id l = k) (cd_leases d) = filter (expired_lease now) (live_on k d)"
    by (auto simp: live_on_def expired_lease_def intro!: filter_cong)
  have gone: "wl_lease_id l \<in> wl_lease_id ` set ?ls \<longleftrightarrow> expired_lease now l" if "l \<in> set (live_on k d)" for l
  proof -
    have l: "l \<in> set (cd_leases d)" using that by (simp add: live_on_def)
    have u: "x = l" if "x \<in> set (cd_leases d)" "wl_lease_id x = wl_lease_id l" for x
      using that l inv leases.uniqD [of "cd_leases d" x l] by (auto simp: source_inv_def lease_rows_ok_def)
    show ?thesis
    proof
      assume "wl_lease_id l \<in> wl_lease_id ` set ?ls"
      then obtain x where "x \<in> set (cd_leases d)" "expired_lease now x" "wl_lease_id x = wl_lease_id l" by (auto simp: eq_commute)
      with u show "expired_lease now l" by metis
    qed (use l in simp)
  qed
  have "slot_ok (slot d k)" using inv by (simp add: source_inv_def)
  then show ?thesis
  proof (cases rule: slot_cases)
    case (held r l w u)
    then show ?thesis using gone [of l]
      by (simp add: slot_def expire_rows sub moved_held [OF _ hs])
  qed (simp_all add: slot_def expire_rows sub)
qed

lemma recover_moves:
  assumes inv: "source_inv d" and op: "recover_expired_leases req clock d = Inr (n, d')"
    and now: "now = (case req of None \<Rightarrow> clock | Some t \<Rightarrow> t)"
  shows "source_moves Admin now d d'"
proof -
  have d': "d' = fold expire_row (filter (expired_lease now) (cd_leases d)) d"
    using op by (auto simp: recover_expired_leases_def Let_def now split: option.splits)
  show ?thesis
  proof (rule movesI)
    show "slot_step Admin now (slot d k) (slot d' k)" for k
    proof -
      have "slot_ok (slot d k)" using inv by (simp add: source_inv_def)
      then show ?thesis
      proof (cases rule: slot_cases)
        case (held r l w u)
        then have "slot d k = (Some r, [l])" by (simp add: slot_def)
        with held(6) show ?thesis
          by (auto simp: d' recover_effect [OF inv] expired_lease_def intro: slot_step.keep slot_step.release)
      qed (simp_all add: d' recover_effect [OF inv] slot_step.keep, simp_all add: slot_def slot_step.keep)
    qed
  qed (use inv in \<open>simp_all add: d' expire_rows source_inv_def\<close>)
qed

section \<open>The contract\<close>

lemma source_step_moves: "source_step a now d d' \<Longrightarrow> source_inv d \<Longrightarrow> source_moves a now d d'"
proof (induction rule: source_step.induct)
  case (start l d row e w d' now)
  then show ?case by (intro start_moves)
qed (auto intro: domain_moves activate_moves override_moves exhaust_moves grant_moves renew_moves finalize_moves abort_moves
     recover_moves)

lemma moves_inv: "source_moves a now d d' \<Longrightarrow> source_inv d \<Longrightarrow> source_inv d'"
  unfolding source_moves_def source_inv_def using slot_step_ok by blast

lemma moves_spec:
  assumes m: "source_moves a now d d'" and inv: "source_inv d"
  shows "spec_step final_reservoir a now (source_abs d) (source_abs d')"
  unfolding spec_step_def
proof
  fix k
  have st: "slot_step a now (slot d k) (slot d' k)" "slot_ok (slot d k)"
    using m inv by (simp_all add: source_moves_def source_inv_def)
  show "case source_abs d k of None \<Rightarrow> (\<forall>t. source_abs d' k = Some t \<longrightarrow> \<not> final_reservoir (tt_state t) \<and> tt_lease t = None)
      | Some t \<Rightarrow> \<exists>t'. source_abs d' k = Some t' \<and> spec_row final_reservoir a now t t'"
  proof (cases "fst (slot d k)")
    case None
    then have "slot d k = (None, [])" using st(2) by (cases "slot d k" rule: slot_ok.cases) auto
    then show ?thesis using slot_step_new [of a now "slot d' k"] st(1) by (auto simp: source_abs_def slot_ticket_def)
  next
    case (Some r)
    then show ?thesis using slot_step_spec [OF st] by (auto simp: source_abs_def)
  qed
qed

lemma empty_source_inv: "source_inv empty_control"
  by (simp add: source_inv_def lease_rows_ok_def states_ok_def empty_control_def slot_def reservoir_row_def live_on_def tbl_find_def)

lemma source_leases: "source_inv d \<Longrightarrow> spec_inv final_reservoir (source_abs d)"
  unfolding spec_inv_def
proof (intro allI impI)
  fix k t assume inv: "source_inv d" and t: "source_abs d k = Some t" "tt_lease t \<noteq> None"
  have "slot_ok (slot d k)" using inv by (simp add: source_inv_def)
  then show "\<not> final_reservoir (tt_state t)"
    by (cases rule: slot_cases) (use t in \<open>auto simp: source_abs_def slot_ticket_def slot_def slot_lease_def final_reservoir_def held_row_def\<close>)
qed

interpretation sources: visibility "\<lambda>d. d = empty_control" source_step source_inv final_reservoir source_abs
proof
  show "source_inv d" if "d = empty_control" for d using that empty_source_inv by simp
  show "source_inv t" if "source_inv s" "source_step a now s t" for a now s t
    using that moves_inv source_step_moves by blast
  show "spec_inv final_reservoir (source_abs s)" if "source_inv s" for s using that by (rule source_leases)
  show "spec_step final_reservoir a now (source_abs s) (source_abs t)" if "source_inv s" "source_step a now s t" for a now s t
    using that moves_spec source_step_moves by blast
qed

end
