(* ===== verification/Lease_Store_Properties.thy ===== *)
theory Lease_Store_Properties
  imports Lease_Store_Invariant
begin

text \<open>
  Properties of the reservoirs and leases of the control store, on the histories of \<open>source_step\<close>.
\<close>

lemma reached_inv: "run source_step as empty_control d \<Longrightarrow> source_inv d"
  using sources.run_inv empty_source_inv by blast

section \<open>A store with one activated reservoir and its lease\<close>

definition demo_domain :: source_domain where
  "demo_domain = \<lparr>sd_domain_id = ''d'', sd_family = ''f'', sd_discovery_mechanism = ''m'', sd_temporal_scope = (1996, 2001),
     sd_state = EXPLORING\<rparr>"

definition demo_reservoir :: reservoir where
  "demo_reservoir = \<lparr>rv_reservoir_id = ''r'', rv_domain_id = ''d'', rv_adapter_id = ''a'', rv_root_locator = ''l'',
     rv_enumeration_kind = ''k'', rv_capacity_lower = 0, rv_capacity_upper = None, rv_evidence_mode = ''e'',
     rv_cursor = Some ''c0'', rv_state = READY\<rparr>"

definition demo_ready :: control_db where
  "demo_ready = empty_control\<lparr>cd_domains := [demo_domain], cd_reservoirs := [demo_reservoir],
     cd_activations := [\<lparr>ac_source_key = ''s'', ac_domain_id = ''d'', ac_reservoir_id = ''r'', ac_adapter_id = ''a'',
       ac_adapter_kind = ''x'', ac_root_locator = ''l'', ac_config_hash = ''h'', ac_activation_state = ''ACTIVE'',
       ac_created_at = 0, ac_updated_at = 0\<rparr>]\<rparr>"

definition demo_request :: lease_request where
  "demo_request = \<lparr>lq_max_records = 5, lq_max_requests = 5, lq_max_bytes = 5, lq_max_seconds = 60,
     lq_resource_class = ''g'', lq_expected_evidence_tasks = 0, lq_expected_novel_eed = 0\<rparr>"

definition demo_work :: work_lease where
  "demo_work = \<lparr>wl_lease_id = ''l1'', wl_reservoir_id = ''r'', wl_cursor_start = Some ''c0'', wl_cursor_end = None,
     wl_max_records = 5, wl_max_requests = 5, wl_max_bytes = 5, wl_max_seconds = 60, wl_resource_class = ''g'',
     wl_expected_evidence_tasks = 0, wl_expected_novel_eed = 0, wl_owner = Some ''w1'', wl_expires_at = Some 10,
     wl_state = L_GRANTED\<rparr>"

definition demo_held :: control_db where
  "demo_held = demo_ready\<lparr>cd_reservoirs := [demo_reservoir\<lparr>rv_state := R_LEASED\<rparr>], cd_leases := [demo_work]\<rparr>"

lemma activate_demo: "save_activation ''s'' demo_domain demo_reservoir ''x'' ''h'' ''ACTIVE'' 0 empty_control = Inr ((), demo_ready)"
  by code_simp

lemma grant_demo: "grant_fresh_lease ''l1'' ''r'' ''w1'' demo_request 0 (Some 10) None demo_ready = Inr (Some demo_work, demo_held)"
  by code_simp

lemma ready_reached: "run source_step [(Admin, 0)] empty_control demo_ready"
  by (rule run.go, rule source_step.activate, rule activate_demo) (simp add: demo_reservoir_def, rule run.stop)

lemma held_reached: "run source_step [(Admin, 0), (Worker ''w1'', 0)] empty_control demo_held"
  by (rule run.go, rule source_step.activate, rule activate_demo, simp add: demo_reservoir_def)
     (rule run.go, rule source_step.grant, rule grant_demo, rule run.stop)

section \<open>Properties\<close>

text \<open>
  C18: one live lease per reservoir. In every store reached by the operations, a reservoir is leased or
  running exactly when one lease on it is granted or running; that lease is the only one, it has an owner
  and a deadline, and it started at the cursor the reservoir still has. Identifiers are unique and leases,
  reservoirs and activations refer to existing rows.
\<close>

theorem reservoir_leases_consistent:
  assumes "run source_step as empty_control d"
  shows "lease_rows_ok d \<and>
    (\<forall>r \<in> set (cd_reservoirs d). case live_on (rv_reservoir_id r) d of
       [] \<Rightarrow> rv_state r \<notin> {R_LEASED, R_RUNNING}
     | l # ls \<Rightarrow> ls = [] \<and> rv_state r \<in> {R_LEASED, R_RUNNING} \<and> rv_cursor r = wl_cursor_start l \<and>
         wl_owner l \<noteq> None \<and> wl_expires_at l \<noteq> None)"
proof -
  have inv: "source_inv d" by (rule reached_inv [OF assms])
  have "case live_on (rv_reservoir_id r) d of [] \<Rightarrow> rv_state r \<notin> {R_LEASED, R_RUNNING}
     | l # ls \<Rightarrow> ls = [] \<and> rv_state r \<in> {R_LEASED, R_RUNNING} \<and> rv_cursor r = wl_cursor_start l \<and>
         wl_owner l \<noteq> None \<and> wl_expires_at l \<noteq> None" if "r \<in> set (cd_reservoirs d)" for r
  proof -
    have row: "reservoir_row (rv_reservoir_id r) d = Some r"
      using inv that reservoirs.find_by_key by (auto simp: reservoir_row_def source_inv_def lease_rows_ok_def)
    have "slot_ok (slot d (rv_reservoir_id r))" using inv by (simp add: source_inv_def)
    then show ?thesis by (cases rule: slot_cases) (use row in \<open>auto simp: held_row_def\<close>)
  qed
  with inv show ?thesis by (simp add: source_inv_def)
qed

theorem reservoir_leases_consistent_witness: "live_on ''r'' demo_held = [demo_work] \<and> lease_rows_ok demo_held"
  using reservoir_leases_consistent [OF held_reached]
  by (simp add: live_on_def demo_held_def demo_work_def live_lease_def)

text \<open>
  C19: a granted lease excludes other workers until its deadline. After a worker is granted a fresh
  lease, whatever other workers, recovery and administration do before the lease ends, the reservoir
  stays leased to that worker with the same deadline, and no other grant on it succeeds.
\<close>

theorem reservoir_lease_exclusive:
  assumes reach: "run source_step as0 empty_control d"
    and grant: "grant_fresh_lease u i w q now ttl init d = Inr (Some l, d1)" "wl_expires_at l = Some e"
    and others: "run source_step as d1 d2" "\<And>a t. (a, t) \<in> set as \<Longrightarrow> t < e \<and> a \<noteq> Worker w \<and> a \<noteq> Override"
  shows "(\<exists>r l'. reservoir_row i d2 = Some r \<and> rv_state r = R_LEASED \<and> live_on i d2 = [l'] \<and>
      wl_owner l' = Some w \<and> wl_expires_at l' = Some e \<and> rv_cursor r = wl_cursor_start l') \<and>
    (\<forall>u' w' q' t ttl' init' x d3. grant_fresh_lease u' i w' q' t ttl' init' d2 = Inr (x, d3) \<longrightarrow> x = None \<and> d3 = d2)"
proof -
  have inv: "source_inv d" by (rule reached_inv [OF reach])
  have inv1: "source_inv d1" using sources.preserve [OF inv source_step.grant [OF grant(1)]] .
  have inv2: "source_inv d2" using sources.run_inv [OF others(1) inv1] .
  from grant(1) inv obtain r where g: "reservoir_row i d = Some r" "rv_state r = READY" "wl_reservoir_id l = i"
      "wl_owner l = Some w" "wl_state l = L_GRANTED"
      "d1 = set_reservoirs i [READY] R_LEASED (wl_cursor_start l) (set_reservoirs i [READY] READY (wl_cursor_start l)
         (d\<lparr>cd_leases := cd_leases d @ [l]\<rparr>))"
    by (cases rule: grant_cases) auto
  have row1: "reservoir_row i d1 = Some (r\<lparr>rv_state := R_LEASED, rv_cursor := wl_cursor_start l\<rparr>)"
    using g(1,2) unfolding g(6) slot_simps by (simp add: moved_def reservoir_row_def)
  have "l \<in> set (cd_leases d1)" "live_lease l" by (simp_all add: g(5,6) live_lease_def)
  then have "live_on i d1 = [l]" using live_slot [OF inv1, of l] g(3) by metis
  with row1 have "source_abs d1 i = Some \<lparr>tt_state = R_LEASED, tt_lease = Some (w, e)\<rparr>"
    by (simp add: source_abs_def slot_def slot_ticket_def slot_lease_def g(4) grant(2))
  then have kept: "source_abs d2 i = Some \<lparr>tt_state = R_LEASED, tt_lease = Some (w, e)\<rparr>"
    by (rule sources.lease_excludes [OF others(1) inv1, of _ _ w e]) (use others(2) in auto)
  have "slot_ok (slot d2 i)" using inv2 by (simp add: source_inv_def)
  then obtain r2 l2 where s: "reservoir_row i d2 = Some r2" "rv_state r2 = R_LEASED" "live_on i d2 = [l2]"
      "wl_owner l2 = Some w" "wl_expires_at l2 = Some e" "rv_cursor r2 = wl_cursor_start l2"
    by (cases rule: slot_cases) (use kept in \<open>auto simp: source_abs_def slot_def slot_ticket_def slot_lease_def\<close>)
  moreover have "x = None \<and> d3 = d2" if "grant_fresh_lease u' i w' q' t ttl' init' d2 = Inr (x, d3)" for u' w' q' t ttl' init' x d3
    using that inv2 by (cases rule: grant_cases) (use s(1,2) in auto)
  ultimately show ?thesis by blast
qed

theorem reservoir_lease_exclusive_witness:
  "\<exists>d2. run source_step [(Admin, 5)] demo_held d2 \<and> live_on ''r'' d2 \<noteq> [] \<and>
     (\<forall>u w q x d3. grant_fresh_lease u ''r'' w q 6 None None d2 = Inr (x, d3) \<longrightarrow> x = None)"
proof -
  have "recover_expired_leases (Some 5) 5 demo_held = Inr (0, demo_held)"
    by (simp add: recover_expired_leases_def demo_held_def demo_work_def expired_lease_def)
  then have run: "run source_step [(Admin, 5)] demo_held demo_held"
    by (intro run.go [where t = demo_held] source_step.recover run.stop)
  have "wl_expires_at demo_work = Some 10" by (simp add: demo_work_def)
  from reservoir_lease_exclusive [OF ready_reached grant_demo this run] run show ?thesis by auto
qed

text \<open>
  C20: who moves a reservoir's cursor. When an operation changes the cursor of a reservoir, it is one of four:
  the final commit of the owner of the one live lease, which was running, not expired and started at the old
  cursor (the reservoir becomes ready at a new cursor or exhausted with none, and the lease is over); the first grant,
  which finds a ready reservoir without cursor and without lease and leases it to the granted worker at the
  lease's start; the retirement of a ready, unleased reservoir as exhausted; or an administrative save of an
  unleased reservoir. So while a lease is live only its owner's final commit moves the cursor: aborting, renewing,
  expiring and recovering a lease, and granting one on a reservoir that has a cursor, leave it where it was.
\<close>

theorem cursor_moves_under_lease:
  assumes reach: "run source_step as empty_control d" and st: "source_step a now d d'"
    and rows: "reservoir_row i d = Some r" "reservoir_row i d' = Some r'" and moved: "rv_cursor r' \<noteq> rv_cursor r"
  shows "(\<exists>l w u. live_on i d = [l] \<and> a = Worker w \<and> wl_owner l = Some w \<and> wl_state l = L_RUNNING \<and>
        wl_expires_at l = Some u \<and> now < u \<and> wl_cursor_start l = rv_cursor r \<and> live_on i d' = [] \<and>
        (rv_state r' = READY \<and> rv_cursor r' \<noteq> None \<or> rv_state r' = R_EXHAUSTED \<and> rv_cursor r' = None)) \<or>
     (\<exists>l w. live_on i d = [] \<and> rv_state r = READY \<and> rv_cursor r = None \<and> a = Worker w \<and> live_on i d' = [l] \<and>
        wl_owner l = Some w \<and> rv_state r' = R_LEASED \<and> rv_cursor r' = wl_cursor_start l) \<or>
     (live_on i d = [] \<and> rv_state r = READY \<and> a = Admin \<and> rv_state r' = R_EXHAUSTED \<and> rv_cursor r' = None) \<or>
     (live_on i d = [] \<and> a = Override \<and> live_on i d' = [] \<and> rv_state r' \<in> {DISCOVERED, QUALIFYING, READY})"
proof -
  have inv: "source_inv d" by (rule reached_inv [OF reach])
  have "slot_step a now (slot d i) (slot d' i)" and ok: "slot_ok (slot d i)"
    using source_step_moves [OF st inv] inv by (simp_all add: source_moves_def source_inv_def)
  then have "slot_step a now (Some r, live_on i d) (Some r', live_on i d')" by (simp add: slot_def rows)
  then show ?thesis
  proof (cases rule: slot_step.cases)
    case (take l w u init)
    with moved show ?thesis by (auto simp: first_cursor_def split: option.splits)
  next
    case (release l)
    with ok moved show ?thesis by (simp add: slot_def rows)
  next
    case (finish l w u st c)
    with ok rows show ?thesis by (auto simp: slot_def)
  qed (use moved in auto)
qed

definition demo_running :: control_db where
  "demo_running = demo_held\<lparr>cd_leases := [demo_work\<lparr>wl_state := L_RUNNING\<rparr>]\<rparr>"

definition demo_advanced :: control_db where
  "demo_advanced = demo_ready\<lparr>cd_reservoirs := [demo_reservoir\<lparr>rv_cursor := Some ''c1''\<rparr>],
     cd_leases := [demo_work\<lparr>wl_state := L_SUCCEEDED\<rparr>]\<rparr>"

lemma start_demo: "save_lease (demo_work\<lparr>wl_state := L_RUNNING\<rparr>) demo_held = Inr ((), demo_running)"
  by code_simp

lemma finalize_demo: "finalize_lease demo_work (Some ''c1'') False 5 demo_running = Inr ((), demo_advanced)"
  by code_simp

lemma running_reached: "run source_step [(Admin, 0), (Worker ''w1'', 0), (Worker ''w1'', 1)] empty_control demo_running"
proof (rule run.go, rule source_step.activate, rule activate_demo)
  show "rv_state demo_reservoir \<in> {DISCOVERED, QUALIFYING, READY}" by (simp add: demo_reservoir_def)
  have "source_step (Worker ''w1'') 1 demo_held demo_running"
    by (rule source_step.start [OF _ _ _ start_demo, of demo_work "Some 10"])
       (simp_all add: lease_row_def demo_held_def demo_work_def tbl_find_def)
  then show "run source_step [(Worker ''w1'', 0), (Worker ''w1'', 1)] demo_ready demo_running"
    by (intro run.go [where t = demo_held] run.go [where t = demo_running] run.stop source_step.grant [OF grant_demo])
qed

theorem cursor_moves_under_lease_witness:
  "\<exists>l w u. live_on ''r'' demo_running = [l] \<and> wl_owner l = Some w \<and> wl_expires_at l = Some u \<and> 5 < u \<and>
     wl_cursor_start l = Some ''c0''"
proof -
  have st: "source_step (Worker ''w1'') 5 demo_running demo_advanced"
    by (rule source_step.finalize [OF finalize_demo]) (simp add: demo_work_def)
  have r: "reservoir_row ''r'' demo_running = Some (demo_reservoir\<lparr>rv_state := R_LEASED\<rparr>)"
    "reservoir_row ''r'' demo_advanced = Some (demo_reservoir\<lparr>rv_cursor := Some ''c1''\<rparr>)" by code_simp+
  show ?thesis using cursor_moves_under_lease [OF running_reached st r] by (auto simp: demo_reservoir_def)
qed

text \<open>
  an abandoned reservoir returns. When a reservoir is leased or running, recovery at any time from the
  deadline of its lease on makes it ready again at the cursor it had, and from then on no final commit
  under a lease on this reservoir succeeds, so a worker that comes back late cannot advance it.
\<close>

theorem abandoned_reservoir_returns:
  assumes reach: "run source_step as empty_control d"
    and row: "reservoir_row i d = Some r" "rv_state r \<in> {R_LEASED, R_RUNNING}"
  shows "\<exists>l u. live_on i d = [l] \<and> wl_expires_at l = Some u \<and> (\<forall>now clock. u \<le> now \<and> 0 \<le> now \<longrightarrow>
    (\<exists>n d'. recover_expired_leases (Some now) clock d = Inr (n, d') \<and> reservoir_row i d' = Some (r\<lparr>rv_state := READY\<rparr>) \<and>
       (\<forall>late c ex t. wl_reservoir_id late = i \<longrightarrow> (\<exists>e. finalize_lease late c ex t d' = Inl e))))"
proof -
  have inv: "source_inv d" by (rule reached_inv [OF reach])
  then have ok: "slot_ok (slot d i)" by (simp add: source_inv_def)
  obtain l u where l: "live_on i d = [l]" "wl_expires_at l = Some u" "rv_cursor r = wl_cursor_start l" "live_lease l"
    using ok
  proof (cases rule: slot_cases)
    case (held r0 l w u)
    moreover have "live_lease l" using arg_cong [OF held(2), of set] by (auto simp: live_on_def)
    ultimately show ?thesis using that row by simp
  qed (use row in \<open>auto simp: held_row_def\<close>)
  have "\<exists>n d'. recover_expired_leases (Some now) clock d = Inr (n, d') \<and> reservoir_row i d' = Some (r\<lparr>rv_state := READY\<rparr>) \<and>
       (\<forall>late c ex t. wl_reservoir_id late = i \<longrightarrow> (\<exists>e. finalize_lease late c ex t d' = Inl e))"
    if now: "u \<le> now" "0 \<le> now" for now clock
  proof -
    let ?d = "fold expire_row (filter (expired_lease now) (cd_leases d)) d"
    have rec: "recover_expired_leases (Some now) clock d = Inr (length (filter (expired_lease now) (cd_leases d)), ?d)"
      using now by (simp add: recover_expired_leases_def Let_def)
    have inv': "source_inv ?d" using sources.preserve [OF inv source_step.recover [OF rec]] .
    have "slot ?d i = (Some (r\<lparr>rv_state := READY, rv_cursor := wl_cursor_start l\<rparr>), [])"
      using recover_effect [OF inv, of now i] now l row by (simp add: slot_def expired_lease_def)
    then have s: "reservoir_row i ?d = Some (r\<lparr>rv_state := READY\<rparr>)" "live_on i ?d = []"
      using l(3) by (auto simp: slot_def)
    have "\<exists>e. finalize_lease late c ex t ?d = Inl e" if late: "wl_reservoir_id late = i" for late c ex t
    proof (cases "finalize_lease late c ex t ?d")
      case (Inr x)
      then obtain row where "lease_row (wl_lease_id late) ?d = Some row" "wl_state row = L_RUNNING" "wl_reservoir_id row = i"
        using late by (auto simp: finalize_lease_def Let_def split: option.splits)
      then have "row \<in> set (live_on i ?d)"
        using lease_row_iff [of ?d] inv' by (simp add: live_on_def live_lease_def source_inv_def)
      with s(2) show ?thesis by simp
    qed simp
    with rec s(1) show ?thesis by blast
  qed
  with l(1,2) show ?thesis by blast
qed

theorem abandoned_reservoir_returns_witness:
  "\<exists>n d'. recover_expired_leases (Some 10) 0 demo_running = Inr (n, d') \<and>
     reservoir_row ''r'' d' = Some (demo_reservoir\<lparr>rv_state := READY\<rparr>)"
proof -
  have r: "reservoir_row ''r'' demo_running = Some (demo_reservoir\<lparr>rv_state := R_LEASED\<rparr>)" by code_simp
  have "live_on ''r'' demo_running = [demo_work\<lparr>wl_state := L_RUNNING\<rparr>]" by code_simp
  with abandoned_reservoir_returns [OF running_reached r] show ?thesis by (force simp: demo_work_def)
qed

end
