(* ===== verification/Exposure_Store.thy ===== *)
theory Exposure_Store
  imports Lease_Store
begin

text \<open>
  Production exposures in the control store (\<open>storage/control_store.py\<close>): beginning, progress, the
  terminal transitions, and the recovery that closes the exposures of dead leases.
\<close>

section \<open>Arguments\<close>

definition exposure_authority ::
  "(string \<times> string) option \<Rightarrow> string option \<Rightarrow> string option \<Rightarrow> py_error + (string \<times> string)" where
  "exposure_authority authority baseline model =
     check (case authority of None \<Rightarrow> True | Some (b, m) \<Rightarrow>
              (baseline = None \<and> model = None) \<or> (baseline = Some b \<and> model = Some m)) ValueError (
     case (case authority of None \<Rightarrow> (baseline, model) | Some (b, m) \<Rightarrow> (Some b, Some m)) of
       (Some b, Some m) \<Rightarrow> check (\<not> blank b \<and> \<not> blank m) ValueError (Inr (b, m))
     | _ \<Rightarrow> Inl ValueError)"

record exposure_request =
  eq_source_key :: string
  eq_reservoir_id :: string
  eq_lane :: string
  eq_baseline_signature :: "string option"
  eq_model_signature :: "string option"
  eq_authority :: "(string \<times> string) option"
  eq_lease_id :: "string option"
  eq_task_id :: "string option"
  eq_exposure_id :: "string option"

definition opt_nonblank :: "string option \<Rightarrow> bool" where
  "opt_nonblank v = (case v of None \<Rightarrow> True | Some s \<Rightarrow> \<not> blank s)"

section \<open>Beginning\<close>

definition exposure_row :: "string \<Rightarrow> control_db \<Rightarrow> exposure option" where
  "exposure_row i d = tbl_find (\<lambda>e. pe_exposure_id e = i) (cd_exposures d)"

definition get_production_exposure :: "string \<Rightarrow> control_db \<Rightarrow> py_error + exposure option" where
  "get_production_exposure i d = (case exposure_row i d of
     None \<Rightarrow> Inr None | Some e \<Rightarrow> bindr (exposure_init e) (\<lambda>e. Inr (Some e)))"

definition exposure_identity :: "exposure \<Rightarrow> string \<times> string \<times> string option \<times> string option \<times> string \<times> string \<times> string" where
  "exposure_identity e = (pe_source_key e, pe_reservoir_id e, pe_lease_id e, pe_task_id e, pe_lane e,
     pe_baseline_signature e, pe_model_signature e)"

definition new_exposure :: "string \<Rightarrow> exposure_request \<Rightarrow> string \<times> string \<Rightarrow> time \<Rightarrow> exposure" where
  "new_exposure i q auth now = \<lparr>pe_exposure_id = i, pe_source_key = eq_source_key q, pe_reservoir_id = eq_reservoir_id q,
     pe_lease_id = eq_lease_id q, pe_task_id = eq_task_id q, pe_lane = eq_lane q, pe_baseline_signature = fst auth,
     pe_model_signature = snd auth, pe_source_records = 0, pe_source_requests = 0, pe_source_bytes = 0,
     pe_provider_requests = 0, pe_provider_bytes = 0, pe_source_elapsed_seconds = 0, pe_provider_elapsed_seconds = 0,
     pe_evidence_frontier = 0, pe_accepted_host_years = 0, pe_final_accepted_eed = 0, pe_state = E_RUNNING,
     pe_terminal_reason = None, pe_created_at = now, pe_updated_at = now, pe_closed_at = None\<rparr>"

text \<open>\<open>INSERT OR IGNORE\<close> skips a row whose identifier or whose identity is taken.\<close>

definition begin_production_exposure :: "string \<Rightarrow> exposure_request \<Rightarrow> time \<Rightarrow> exposure txn" where
  "begin_production_exposure uuid q now d =
     check (list_all (\<lambda>s. \<not> blank s) [eq_source_key q, eq_reservoir_id q, eq_lane q]) ValueError (
     bindr (exposure_authority (eq_authority q) (eq_baseline_signature q) (eq_model_signature q)) (\<lambda>auth.
     check (opt_nonblank (eq_lease_id q) \<and> opt_nonblank (eq_task_id q)) ValueError (
     check (opt_nonblank (eq_exposure_id q)) ValueError (
     check (eq_lease_id q \<noteq> None \<or> eq_task_id q \<noteq> None) ValueError (
     check (0 \<le> now) ValueError (
     let row = new_exposure (case eq_exposure_id q of None \<Rightarrow> uuid | Some i \<Rightarrow> i) q auth now;
         rows = (if pe_exposure_id row \<in> pe_exposure_id ` set (cd_exposures d) \<or>
                    exposure_identity row \<in> exposure_identity ` set (cd_exposures d)
                 then cd_exposures d else cd_exposures d @ [row])
     in (case tbl_find (\<lambda>e. exposure_identity e = exposure_identity row) rows of
           None \<Rightarrow> Inl RuntimeError
         | Some e \<Rightarrow> bindr (exposure_init e) (\<lambda>e. Inr (e, d\<lparr>cd_exposures := rows\<rparr>)))))))))"

section \<open>Progress\<close>

record progress =
  pg_source_records :: "int option"
  pg_source_requests :: "int option"
  pg_source_bytes :: "int option"
  pg_bytes_read :: "int option"
  pg_provider_requests :: "int option"
  pg_provider_bytes :: "int option"
  pg_source_elapsed_seconds :: "rat option"
  pg_provider_elapsed_seconds :: "rat option"
  pg_elapsed_seconds :: "rat option"
  pg_evidence_frontier :: "int option"
  pg_accepted_host_years :: "int option"
  pg_authority :: "(string \<times> string) option"
  pg_baseline_signature :: "string option"
  pg_model_signature :: "string option"

definition no_progress :: progress where
  "no_progress = \<lparr>pg_source_records = None, pg_source_requests = None, pg_source_bytes = None, pg_bytes_read = None,
     pg_provider_requests = None, pg_provider_bytes = None, pg_source_elapsed_seconds = None,
     pg_provider_elapsed_seconds = None, pg_elapsed_seconds = None, pg_evidence_frontier = None,
     pg_accepted_host_years = None, pg_authority = None, pg_baseline_signature = None, pg_model_signature = None\<rparr>"

text \<open>The two aliases of the arguments.\<close>

definition resolve_aliases :: "progress \<Rightarrow> py_error + progress" where
  "resolve_aliases p =
     check (pg_bytes_read p = None \<or> pg_source_bytes p = None) ValueError (
     let p1 = (if pg_bytes_read p = None then p else p\<lparr>pg_source_bytes := pg_bytes_read p\<rparr>)
     in if pg_elapsed_seconds p1 = None then Inr p1
        else check (pg_source_elapsed_seconds p1 = None \<and> pg_provider_elapsed_seconds p1 = None) ValueError
          (Inr (p1\<lparr>pg_provider_elapsed_seconds := pg_elapsed_seconds p1\<rparr>)))"

definition opt_nonneg_int :: "int option \<Rightarrow> bool" where
  "opt_nonneg_int v = (case v of None \<Rightarrow> True | Some n \<Rightarrow> 0 \<le> n)"

definition counters_ok :: "progress \<Rightarrow> bool" where
  "counters_ok p = (list_all opt_nonneg_int [pg_source_records p, pg_source_requests p, pg_source_bytes p,
     pg_provider_requests p, pg_provider_bytes p, pg_evidence_frontier p, pg_accepted_host_years p] \<and>
     opt_nonneg (pg_source_elapsed_seconds p) \<and> opt_nonneg (pg_provider_elapsed_seconds p))"

fun phase :: "exposure_state \<Rightarrow> nat" where
  "phase E_RUNNING = 0"
| "phase E_READ_COMPLETE = 1"
| "phase E_VALIDATING = 2"
| "phase _ = 3"

definition updated :: "'a option \<Rightarrow> 'a \<Rightarrow> 'a" where
  "updated v current = (case v of None \<Rightarrow> current | Some x \<Rightarrow> x)"

definition apply_progress :: "exposure_state \<Rightarrow> progress \<Rightarrow> time \<Rightarrow> exposure \<Rightarrow> exposure" where
  "apply_progress target p now e = e\<lparr>
     pe_source_records := updated (pg_source_records p) (pe_source_records e),
     pe_source_requests := updated (pg_source_requests p) (pe_source_requests e),
     pe_source_bytes := updated (pg_source_bytes p) (pe_source_bytes e),
     pe_provider_requests := updated (pg_provider_requests p) (pe_provider_requests e),
     pe_provider_bytes := updated (pg_provider_bytes p) (pe_provider_bytes e),
     pe_source_elapsed_seconds := updated (pg_source_elapsed_seconds p) (pe_source_elapsed_seconds e),
     pe_provider_elapsed_seconds := updated (pg_provider_elapsed_seconds p) (pe_provider_elapsed_seconds e),
     pe_evidence_frontier := updated (pg_evidence_frontier p) (pe_evidence_frontier e),
     pe_accepted_host_years := updated (pg_accepted_host_years p) (pe_accepted_host_years e),
     pe_state := (if phase target < phase (pe_state e) then pe_state e else target),
     pe_updated_at := now\<rparr>"

definition update_exposure :: "string \<Rightarrow> exposure_state list \<Rightarrow> (exposure \<Rightarrow> exposure) \<Rightarrow> control_db \<Rightarrow> control_db" where
  "update_exposure i sts f d = d\<lparr>cd_exposures :=
     tbl_update (\<lambda>e. pe_exposure_id e = i \<and> pe_state e \<in> set sts) f (cd_exposures d)\<rparr>"

definition requested_authority :: "progress \<Rightarrow> py_error + (string \<times> string) option" where
  "requested_authority p =
     (if pg_authority p = None \<and> pg_baseline_signature p = None \<and> pg_model_signature p = None then Inr None
      else bindr (exposure_authority (pg_authority p) (pg_baseline_signature p) (pg_model_signature p)) (\<lambda>a. Inr (Some a)))"

definition record_progress_txn :: "string \<Rightarrow> exposure_state \<Rightarrow> progress \<Rightarrow> time \<Rightarrow> unit txn" where
  "record_progress_txn i target p0 now d =
     check (target \<notin> set closed_states) ValueError (
     bindr (resolve_aliases p0) (\<lambda>p.
     check (counters_ok p) ValueError (
     bindr (requested_authority p) (\<lambda>auth.
     case exposure_row i d of
       None \<Rightarrow> Inl KeyError
     | Some row \<Rightarrow>
         bindr (exposure_init row) (\<lambda>current.
         check (case auth of None \<Rightarrow> True | Some a \<Rightarrow> authority_of current = a) ValueError (
         if terminal_exposure current
         then check (target = pe_state current) ValueError (Inr ((), d))
         else Inr ((), update_exposure i [pe_state current] (apply_progress target p now) d)))))))"

text \<open>After the commit the row is read back, which checks it again.\<close>

definition read_exposure :: "string \<Rightarrow> exposure prog" where
  "read_exposure i = query (\<lambda>d. bindr (get_production_exposure i d) found)"

definition record_production_exposure_progress :: "string \<Rightarrow> exposure_state \<Rightarrow> progress \<Rightarrow> time \<Rightarrow> exposure prog" where
  "record_production_exposure_progress i target p now =
     after (perform (record_progress_txn i target p now)) (\<lambda>_. read_exposure i)"

section \<open>Terminal transitions\<close>

definition close_exposure :: "exposure_state \<Rightarrow> string \<Rightarrow> time \<Rightarrow> exposure \<Rightarrow> exposure" where
  "close_exposure st reason now e =
     e\<lparr>pe_state := st, pe_terminal_reason := Some reason, pe_updated_at := now, pe_closed_at := Some now\<rparr>"

definition finalize_production_exposure ::
  "string \<Rightarrow> rat \<Rightarrow> int \<Rightarrow> int \<Rightarrow> string \<times> string \<Rightarrow> time \<Rightarrow> bool txn" where
  "finalize_production_exposure i eed host_years frontier authority now d =
     check (0 \<le> eed) ValueError (
     check (0 \<le> host_years \<and> 0 \<le> frontier) ValueError (
     bindr (exposure_authority (Some authority) None None) (\<lambda>auth.
     case exposure_row i d of
       None \<Rightarrow> Inl KeyError
     | Some row \<Rightarrow>
         bindr (exposure_init row) (\<lambda>current.
         if authority_of current \<noteq> auth then Inr (False, d)
         else if pe_state current = E_FINAL_CLOSED
         then Inr (pe_final_accepted_eed current = eed \<and> pe_accepted_host_years current = host_years \<and>
                   pe_evidence_frontier current = frontier, d)
         else if terminal_exposure current \<or> pe_state current \<noteq> E_VALIDATING then Inr (False, d)
         else check (pe_evidence_frontier current \<le> frontier) ValueError (
              check (pe_accepted_host_years current \<le> host_years) ValueError (
              Inr (True, update_exposure i [E_VALIDATING]
                (\<lambda>e. (close_exposure E_FINAL_CLOSED ''finalized'' now e)\<lparr>pe_accepted_host_years := host_years,
                   pe_evidence_frontier := frontier, pe_final_accepted_eed := eed\<rparr>) d)))))))"

definition open_states :: "exposure_state list" where
  "open_states = [E_RUNNING, E_READ_COMPLETE, E_VALIDATING]"

definition abort_production_exposure ::
  "string \<Rightarrow> exposure_state \<Rightarrow> string \<Rightarrow> (string \<times> string) option \<Rightarrow> time \<Rightarrow> bool txn" where
  "abort_production_exposure i target reason authority now d =
     check (target \<in> {E_ABORTED, E_EXPIRED}) ValueError (
     check (\<not> blank reason) ValueError (
     bindr (case authority of None \<Rightarrow> Inr None
              | Some a \<Rightarrow> bindr (exposure_authority (Some a) None None) (\<lambda>a. Inr (Some a))) (\<lambda>auth.
     case exposure_row i d of
       None \<Rightarrow> Inl KeyError
     | Some row \<Rightarrow>
         bindr (exposure_init row) (\<lambda>current.
         if \<not> (case auth of None \<Rightarrow> True | Some a \<Rightarrow> authority_of current = a) then Inr (False, d)
         else if terminal_exposure current
         then Inr (pe_state current = target \<and> pe_terminal_reason current = Some reason, d)
         else Inr (True, update_exposure i open_states (close_exposure target reason now) d)))))"

section \<open>Recovery\<close>

text \<open>
  First the expired leases are recovered, in a transaction of their own; then the open exposures of leases
  that were aborted or have expired are closed with them.
\<close>

definition dead_lease :: "exposure \<Rightarrow> control_db \<Rightarrow> lease_state option" where
  "dead_lease e d = (case pe_lease_id e of None \<Rightarrow> None | Some i \<Rightarrow>
     (case lease_row i d of None \<Rightarrow> None | Some l \<Rightarrow>
        if wl_state l \<in> {L_ABORTED, L_EXPIRED} then Some (wl_state l) else None))"

definition recoverable :: "control_db \<Rightarrow> exposure list" where
  "recoverable d = filter (\<lambda>e. pe_state e \<in> set open_states \<and> dead_lease e d \<noteq> None) (cd_exposures d)"

definition close_dead :: "time \<Rightarrow> control_db \<Rightarrow> exposure \<Rightarrow> control_db \<Rightarrow> control_db" where
  "close_dead now d0 e = update_exposure (pe_exposure_id e) open_states
     (if dead_lease e d0 = Some L_EXPIRED then close_exposure E_EXPIRED ''lease expired'' now
      else close_exposure E_ABORTED ''lease aborted'' now)"

definition recover_open_production_exposures :: "time \<Rightarrow> nat prog" where
  "recover_open_production_exposures now =
     after (perform (recover_expired_leases (Some now) now)) (\<lambda>_.
     perform (\<lambda>d. Inr (length (recoverable d), fold (close_dead now d) (recoverable d) d)))"

end
