(* ===== verification/Exposure_Properties.thy ===== *)
theory Exposure_Properties
  imports Exposure_Store Visibility
begin

text \<open>
  Histories of production exposures: an exposure keeps its identity, moves forward through its phases,
  and never changes again once closed.
\<close>

section \<open>Steps and what they do to a row\<close>

inductive exposure_step :: "control_db \<Rightarrow> control_db \<Rightarrow> bool" where
  begin_exposure: "begin_production_exposure u q now d = Inr (e, d') \<Longrightarrow> exposure_step d d'"
| record_progress: "record_production_exposure_progress i st p now d = (res, d') \<Longrightarrow> exposure_step d d'"
| finalize: "finalize_production_exposure i eed hy fr auth now d = Inr (b, d') \<Longrightarrow> exposure_step d d'"
| abort: "abort_production_exposure i st reason auth now d = Inr (b, d') \<Longrightarrow> exposure_step d d'"
| recover: "recover_open_production_exposures now d = (res, d') \<Longrightarrow> exposure_step d d'"

definition forward :: "exposure \<Rightarrow> exposure \<Rightarrow> bool" where
  "forward e e' \<longleftrightarrow> pe_exposure_id e' = pe_exposure_id e \<and> exposure_identity e' = exposure_identity e \<and>
     pe_created_at e' = pe_created_at e \<and> phase (pe_state e) \<le> phase (pe_state e') \<and> (terminal_exposure e \<longrightarrow> e' = e)"

lemma forward_refl [simp]: "forward e e"
  by (simp add: forward_def)

lemma forward_trans: "forward e e' \<Longrightarrow> forward e' e'' \<Longrightarrow> forward e e''"
  by (auto simp: forward_def)

lemma terminal_phase: "terminal_exposure e \<longleftrightarrow> phase (pe_state e) = 3"
  by (cases "pe_state e") (simp_all add: terminal_exposure_def closed_states_def)

lemma open_not_terminal: "pe_state e \<in> set open_states \<longleftrightarrow> \<not> terminal_exposure e"
  by (cases "pe_state e") (simp_all add: open_states_def terminal_exposure_def closed_states_def)

text \<open>Every step maps the rows forward one by one and appends at most new identities.\<close>

definition exposures_ok :: "control_db \<Rightarrow> bool" where
  "exposures_ok d \<longleftrightarrow> uniq pe_exposure_id (cd_exposures d) \<and> uniq exposure_identity (cd_exposures d)"

definition advances :: "control_db \<Rightarrow> control_db \<Rightarrow> bool" where
  "advances d d' \<longleftrightarrow> (\<exists>f new. cd_exposures d' = List.map f (cd_exposures d) @ new \<and> (\<forall>e \<in> set (cd_exposures d). forward e (f e)) \<and>
     (exposures_ok d \<longrightarrow> exposures_ok d'))"

lemma advances_refl [simp]: "cd_exposures d' = cd_exposures d \<Longrightarrow> advances d d'"
  unfolding advances_def exposures_ok_def by (intro exI [of _ id] exI [of _ "[]"]) simp

lemma keys_forward:
  assumes "\<And>e. e \<in> set t \<Longrightarrow> forward e (f e)"
  shows "List.map pe_exposure_id (List.map f t) = List.map pe_exposure_id t"
    "List.map exposure_identity (List.map f t) = List.map exposure_identity t"
  using assms by (simp_all add: forward_def)

lemma advances_map:
  assumes "cd_exposures d' = List.map f (cd_exposures d)" "\<And>e. e \<in> set (cd_exposures d) \<Longrightarrow> forward e (f e)"
  shows "advances d d'"
  unfolding advances_def
proof (intro exI [of _ f] exI [of _ "[]"] conjI ballI impI)
  show "exposures_ok d'" if "exposures_ok d"
    using that keys_forward [of "cd_exposures d" f, OF assms(2)] by (simp only: exposures_ok_def uniq_def assms(1))
qed (use assms in simp_all)

lemma advances_trans:
  assumes "advances d d1" "advances d1 d2"
  shows "advances d d2"
proof -
  obtain f new where f: "cd_exposures d1 = List.map f (cd_exposures d) @ new" "\<And>e. e \<in> set (cd_exposures d) \<Longrightarrow> forward e (f e)"
    using assms(1) unfolding advances_def by blast
  obtain g new' where g: "cd_exposures d2 = List.map g (cd_exposures d1) @ new'" "\<And>e. e \<in> set (cd_exposures d1) \<Longrightarrow> forward e (g e)"
    using assms(2) unfolding advances_def by blast
  show ?thesis unfolding advances_def
  proof (intro exI [of _ "g \<circ> f"] exI [of _ "List.map g new @ new'"] conjI ballI)
    show "cd_exposures d2 = List.map (g \<circ> f) (cd_exposures d) @ List.map g new @ new'" by (simp add: f(1) g(1))
    show "forward e ((g \<circ> f) e)" if "e \<in> set (cd_exposures d)" for e
      using f(2) [OF that] g(2) [of "f e"] that forward_trans by (auto simp: f(1))
    show "exposures_ok d \<longrightarrow> exposures_ok d2" using assms unfolding advances_def by blast
  qed
qed

lemma update_advances:
  assumes "\<And>e. pe_state e \<in> set sts \<Longrightarrow> forward e (f e)"
  shows "advances d (update_exposure i sts f d)"
  by (rule advances_map [where f = "\<lambda>e. if pe_exposure_id e = i \<and> pe_state e \<in> set sts then f e else e"])
     (use assms in \<open>simp_all add: update_exposure_def tbl_update_def\<close>)

lemma phase_le: "phase st \<le> 3"
  by (cases st) simp_all

lemma closed_phase: "st \<in> set closed_states \<Longrightarrow> phase st = 3"
  by (auto simp: closed_states_def)

lemma advances_append:
  assumes "cd_exposures d' = cd_exposures d @ [row]" "pe_exposure_id row \<notin> pe_exposure_id ` set (cd_exposures d)"
    "exposure_identity row \<notin> exposure_identity ` set (cd_exposures d)"
  shows "advances d d'"
  unfolding advances_def exposures_ok_def uniq_def assms(1)
  by (intro exI [of _ id] exI [of _ "[row]"]) (use assms(2,3) in simp)

lemma close_forward: "st \<in> set closed_states \<Longrightarrow> \<not> terminal_exposure e \<Longrightarrow> forward e (close_exposure st reason now e)"
  using closed_phase [of st] phase_le [of "pe_state e"] by (simp add: forward_def close_exposure_def exposure_identity_def)

lemma progress_forward:
  "\<not> terminal_exposure e \<Longrightarrow> forward e (apply_progress st p now e)"
  by (auto simp: forward_def apply_progress_def exposure_identity_def)

lemma leases_advance:
  assumes "perform (recover_expired_leases (Some now) t) d = (res, d')"
  shows "cd_exposures d' = cd_exposures d"
proof -
  have e: "cd_exposures (fold expire_row ls d) = cd_exposures d" for ls d
    by (induction ls arbitrary: d) (simp_all add: expire_row_def set_reservoirs_def set_lease_state_def)
  show ?thesis using assms
    by (auto simp: perform_def recover_expired_leases_def Let_def check_def e split: sum.splits if_splits)
qed

lemma close_dead_advances: "advances d (fold (close_dead now d0) es d)"
proof (induction es arbitrary: d)
  case (Cons e es)
  have "advances d (close_dead now d0 e d)"
    unfolding close_dead_def by (rule update_advances) (auto simp: open_not_terminal closed_states_def intro: close_forward)
  then show ?case using Cons [of "close_dead now d0 e d"] advances_trans by simp
qed simp

lemma init_same: "exposure_init e = Inr e' \<Longrightarrow> e' = e"
  by (auto simp: exposure_init_def)

lemma begin_cases:
  assumes "begin_production_exposure u q now d = Inr (e, d')"
  obtains i auth rows where "exposure_authority (eq_authority q) (eq_baseline_signature q) (eq_model_signature q) = Inr auth"
    "rows = (if i \<in> pe_exposure_id ` set (cd_exposures d) \<or>
       exposure_identity (new_exposure i q auth now) \<in> exposure_identity ` set (cd_exposures d)
       then cd_exposures d else cd_exposures d @ [new_exposure i q auth now])"
    "d' = d\<lparr>cd_exposures := rows\<rparr>" "e \<in> set rows" "exposure_identity e = exposure_identity (new_exposure i q auth now)"
proof -
  define i where "i = (case eq_exposure_id q of None \<Rightarrow> u | Some i \<Rightarrow> i)"
  have id: "pe_exposure_id (new_exposure i q auth now) = i" for auth by (simp add: new_exposure_def)
  obtain auth rows where 1: "exposure_authority (eq_authority q) (eq_baseline_signature q) (eq_model_signature q) = Inr auth"
    "rows = (if i \<in> pe_exposure_id ` set (cd_exposures d) \<or>
       exposure_identity (new_exposure i q auth now) \<in> exposure_identity ` set (cd_exposures d)
       then cd_exposures d else cd_exposures d @ [new_exposure i q auth now])"
    "d' = d\<lparr>cd_exposures := rows\<rparr>" "tbl_find (\<lambda>e. exposure_identity e = exposure_identity (new_exposure i q auth now)) rows = Some e"
    using assms unfolding begin_production_exposure_def Let_def i_def [symmetric] id
    by (auto split: option.splits dest!: init_same)
  from tbl_find_SomeD [OF 1(4)] show thesis by (intro that [OF 1(1-3)]) auto
qed

text \<open>Two requests for the same unit of work under the same authority.\<close>

definition same_unit :: "exposure_request \<Rightarrow> exposure_request \<Rightarrow> bool" where
  "same_unit q q' = (eq_source_key q' = eq_source_key q \<and> eq_reservoir_id q' = eq_reservoir_id q \<and>
     eq_lane q' = eq_lane q \<and> eq_lease_id q' = eq_lease_id q \<and> eq_task_id q' = eq_task_id q \<and>
     exposure_authority (eq_authority q') (eq_baseline_signature q') (eq_model_signature q') =
     exposure_authority (eq_authority q) (eq_baseline_signature q) (eq_model_signature q))"

lemma same_unit_identity: "same_unit q q' \<Longrightarrow> exposure_identity (new_exposure i q a now) = exposure_identity (new_exposure i' q' a now')"
  by (simp add: same_unit_def new_exposure_def exposure_identity_def)

lemma record_cases:
  assumes "record_production_exposure_progress i st p now d = (res, d')"
  obtains (same) "d' = d"
  | (moved) e p' where "exposure_row i d = Some e" "\<not> terminal_exposure e" "resolve_aliases p = Inr p'"
      "d' = update_exposure i [pe_state e] (apply_progress st p' now) d" "res = fst (read_exposure i d')"
proof (cases "record_progress_txn i st p now d")
  case (Inl e)
  with assms same show thesis by (simp add: record_production_exposure_progress_def after_def perform_def)
next
  case (Inr x)
  then obtain d1 where x: "x = ((), d1)" by (cases x) simp
  have d1: "d1 = d' \<and> res = fst (read_exposure i d')"
    using assms Inr x by (auto simp: record_production_exposure_progress_def after_def perform_def read_exposure_def query_def)
  from Inr x have "d1 = d \<or> (\<exists>e p'. exposure_row i d = Some e \<and> \<not> terminal_exposure e \<and> resolve_aliases p = Inr p' \<and>
      d1 = update_exposure i [pe_state e] (apply_progress st p' now) d)"
    by (auto simp: record_progress_txn_def split: option.splits if_splits dest!: init_same)
  with d1 same moved show thesis by blast
qed

lemma step_advances: "exposure_step d d' \<Longrightarrow> advances d d'"
proof (induction rule: exposure_step.induct)
  case (begin_exposure u q now d e d')
  then show ?case
  proof (cases rule: begin_cases)
    case (1 i auth rows)
    have "pe_exposure_id (new_exposure i q auth now) = i" by (simp add: new_exposure_def)
    with 1 show ?thesis using advances_append [of d' d "new_exposure i q auth now"] by (auto split: if_splits)
  qed
next
  case (record_progress i st p now d res d')
  then show ?case
    by (cases rule: record_cases) (auto simp: terminal_exposure_def intro!: update_advances progress_forward)
next
  case (finalize i eed hy fr auth now d b d')
  then have "d' = d \<or> d' = update_exposure i [E_VALIDATING]
      (\<lambda>e. (close_exposure E_FINAL_CLOSED ''finalized'' now e)\<lparr>pe_accepted_host_years := hy,
         pe_evidence_frontier := fr, pe_final_accepted_eed := eed\<rparr>) d"
    by (auto simp: finalize_production_exposure_def split: option.splits if_splits)
  then show ?case
    by (auto simp: forward_def close_exposure_def exposure_identity_def terminal_exposure_def closed_states_def
        intro!: update_advances)
next
  case (abort i st reason auth now d b d')
  then have "d' = d \<or> st \<in> {E_ABORTED, E_EXPIRED} \<and> d' = update_exposure i open_states (close_exposure st reason now) d"
    by (auto simp: abort_production_exposure_def split: option.splits if_splits)
  then show ?case
    by (auto simp: open_not_terminal closed_states_def intro!: update_advances close_forward)
next
  case (recover now d res d')
  obtain r1 d1 where d1: "perform (recover_expired_leases (Some now) now) d = (r1, d1)" by fastforce
  have "advances d1 d'" using recover unfolding recover_open_production_exposures_def after_def d1
    by (cases r1) (auto simp: perform_def intro: close_dead_advances)
  then show ?case using advances_trans [of d d1 d'] leases_advance [OF d1] by simp
qed

interpretation exposure: machine "\<lambda>d. d = empty_control" exposure_step exposures_ok
proof
  show "exposures_ok d" if "d = empty_control" for d
    using that by (simp add: exposures_ok_def empty_control_def uniq_def)
  show "exposures_ok d'" if "exposures_ok d" "exposure_step d d'" for d d'
    using step_advances [OF that(2)] that(1) unfolding advances_def by blast
qed

lemma reached_ok: "exposure_step\<^sup>*\<^sup>* empty_control d \<Longrightarrow> exposures_ok d"
  using exposure.inv_reachable by blast

lemma steps_advance: "exposure_step\<^sup>*\<^sup>* d d' \<Longrightarrow> advances d d'"
  by (induction rule: rtranclp_induct) (auto intro: advances_trans step_advances)

lemma advancesE: "advances d d' \<Longrightarrow> e \<in> set (cd_exposures d) \<Longrightarrow> \<exists>e' \<in> set (cd_exposures d'). forward e e'"
  unfolding advances_def by fastforce

section \<open>Properties\<close>

text \<open>
  C21: the lifecycle of an exposure is monotone. However the operations interleave, an exposure keeps
  its identifier, its identity with the paired authority and its creation time, its phase never moves
  back, and once it is finally closed, aborted or expired its row never changes again.
\<close>

theorem exposure_lifecycle_monotone:
  assumes "exposure_step\<^sup>*\<^sup>* d d'" "e \<in> set (cd_exposures d)"
  shows "\<exists>e' \<in> set (cd_exposures d'). pe_exposure_id e' = pe_exposure_id e \<and> exposure_identity e' = exposure_identity e \<and>
     pe_created_at e' = pe_created_at e \<and> phase (pe_state e) \<le> phase (pe_state e') \<and> (terminal_exposure e \<longrightarrow> e' = e)"
  using advancesE [OF steps_advance [OF assms(1)] assms(2)] by (simp add: forward_def)

text \<open>A store with one exposure, for the witnesses.\<close>

definition demo_exposure_request :: exposure_request where
  "demo_exposure_request = \<lparr>eq_source_key = ''s'', eq_reservoir_id = ''r'', eq_lane = ''platform_year'',
     eq_baseline_signature = None, eq_model_signature = None, eq_authority = Some (''b'', ''m''), eq_lease_id = None,
     eq_task_id = Some ''t'', eq_exposure_id = Some ''x''\<rparr>"

definition demo_exposure :: exposure where
  "demo_exposure = new_exposure ''x'' demo_exposure_request (''b'', ''m'') 10"

definition demo_exposed :: control_db where
  "demo_exposed = empty_control\<lparr>cd_exposures := [demo_exposure]\<rparr>"

lemma begin_demo: "begin_production_exposure ''u'' demo_exposure_request 10 empty_control = Inr (demo_exposure, demo_exposed)"
  by code_simp

lemma exposed_reached: "exposure_step\<^sup>*\<^sup>* empty_control demo_exposed"
  by (rule r_into_rtranclp, rule exposure_step.begin_exposure, rule begin_demo)

definition demo_validating :: control_db where
  "demo_validating = empty_control\<lparr>cd_exposures := [demo_exposure\<lparr>pe_state := E_VALIDATING, pe_provider_requests := 7,
     pe_accepted_host_years := 4, pe_updated_at := 20\<rparr>]\<rparr>"

lemma validate_demo: "record_production_exposure_progress ''x'' E_VALIDATING
    (no_progress\<lparr>pg_provider_requests := Some 7, pg_accepted_host_years := Some 4\<rparr>) 20 demo_exposed =
   (Inr (demo_exposure\<lparr>pe_state := E_VALIDATING, pe_provider_requests := 7, pe_accepted_host_years := 4, pe_updated_at := 20\<rparr>),
    demo_validating)"
  by code_simp

lemma validating_reached: "exposure_step\<^sup>*\<^sup>* demo_exposed demo_validating"
  by (rule r_into_rtranclp, rule exposure_step.record_progress, rule validate_demo)

theorem exposure_lifecycle_monotone_witness:
  "\<exists>e' \<in> set (cd_exposures demo_validating). pe_exposure_id e' = ''x'' \<and> phase (pe_state demo_exposure) \<le> phase (pe_state e')"
proof -
  have "demo_exposure \<in> set (cd_exposures demo_exposed)" by (simp add: demo_exposed_def)
  from exposure_lifecycle_monotone [OF validating_reached this] show ?thesis
    by (auto simp: demo_exposure_def new_exposure_def)
qed

text \<open>
  beginning an exposure is idempotent. In any later store a request with the same source,
  reservoir, lease, task, lane and authority returns the exposure first created for it, whatever
  state it is in, and writes nothing.
\<close>

theorem begin_exposure_idempotent:
  assumes reach: "exposure_step\<^sup>*\<^sup>* empty_control d" and first: "begin_production_exposure u q now d = Inr (e, d1)"
    and later: "exposure_step\<^sup>*\<^sup>* d1 d2" and again: "begin_production_exposure u' q' now' d2 = Inr (e', d3)"
    and same: "same_unit q q'"
  shows "d3 = d2 \<and> pe_exposure_id e' = pe_exposure_id e \<and> pe_created_at e' = pe_created_at e"
proof -
  have ok2: "exposures_ok d2"
    using reach first later by (meson converse_rtranclp_into_rtranclp exposure_step.begin_exposure reached_ok rtranclp_trans)
  from first obtain i auth where e: "exposure_authority (eq_authority q) (eq_baseline_signature q) (eq_model_signature q) = Inr auth"
      "e \<in> set (cd_exposures d1)" "exposure_identity e = exposure_identity (new_exposure i q auth now)"
    by (cases rule: begin_cases) auto
  obtain e2 where e2: "e2 \<in> set (cd_exposures d2)" "forward e e2"
    using advancesE [OF steps_advance [OF later] e(2)] by blast
  from again show ?thesis
  proof (cases rule: begin_cases)
    case (1 i' auth' rows)
    have "auth' = auth" using 1(1) e(1) same by (simp add: same_unit_def)
    then have id: "exposure_identity (new_exposure i' q' auth' now') = exposure_identity e2"
      using e2(2) e(3) same_unit_identity [OF same] by (metis forward_def)
    then have rows: "rows = cd_exposures d2" using 1(2) e2(1) by (auto intro: rev_image_eqI)
    have "e' = e2"
      using 1(4,5) e2(1) id ok2 unfolding rows exposures_ok_def uniq_def by (auto simp: distinct_map dest: inj_onD)
    with e2(2) 1(3) rows show ?thesis by (simp add: forward_def)
  qed
qed

theorem begin_exposure_idempotent_witness:
  "\<exists>e d3. begin_production_exposure ''v'' demo_exposure_request 30 demo_validating = Inr (e, d3) \<and> d3 = demo_validating \<and>
     pe_exposure_id e = ''x'' \<and> pe_created_at e = 10"
proof -
  let ?e = "demo_exposure\<lparr>pe_state := E_VALIDATING, pe_provider_requests := 7, pe_accepted_host_years := 4, pe_updated_at := 20\<rparr>"
  have again: "begin_production_exposure ''v'' demo_exposure_request 30 demo_validating = Inr (?e, demo_validating)" by code_simp
  have "same_unit demo_exposure_request demo_exposure_request" by (simp add: same_unit_def)
  from begin_exposure_idempotent [OF rtranclp.rtrancl_refl begin_demo validating_reached again this] again
  show ?thesis by (simp add: demo_exposure_def new_exposure_def)
qed

text \<open>
  the final values of an exposure are decided once. A finalization that succeeds on an exposure not
  yet closed was made under its authority from the validating phase and moved neither the frontier nor the
  accepted count backwards; afterwards a finalization of the same exposure answers whether it repeats the
  same values under the same authority, and changes nothing.
\<close>

theorem exposure_finalized_once:
  assumes fin: "finalize_production_exposure i eed hy fr auth now d = Inr (True, d1)"
    and row: "exposure_row i d = Some e" "pe_state e \<noteq> E_FINAL_CLOSED"
    and later: "exposure_step\<^sup>*\<^sup>* d1 d2" and reach: "exposure_step\<^sup>*\<^sup>* empty_control d"
    and again: "finalize_production_exposure i eed' hy' fr' auth' now' d2 = Inr (b, d3)"
  shows "pe_state e = E_VALIDATING \<and> authority_of e = auth \<and> pe_evidence_frontier e \<le> fr \<and> pe_accepted_host_years e \<le> hy \<and>
    d3 = d2 \<and> b = (auth' = auth \<and> eed' = eed \<and> hy' = hy \<and> fr' = fr)"
proof -
  let ?f = "\<lambda>e. (close_exposure E_FINAL_CLOSED ''finalized'' now e)\<lparr>pe_accepted_host_years := hy,
     pe_evidence_frontier := fr, pe_final_accepted_eed := eed\<rparr>"
  have e: "pe_state e = E_VALIDATING" "authority_of e = auth" "pe_evidence_frontier e \<le> fr" "pe_accepted_host_years e \<le> hy"
      "d1 = update_exposure i [E_VALIDATING] ?f d"
    using fin row by (auto simp: finalize_production_exposure_def exposure_authority_def split: if_splits prod.splits dest!: init_same)
  have st: "exposure_step d d1" by (rule exposure_step.finalize [OF fin])
  have ok2: "exposures_ok d2" using reach st later by (meson converse_rtranclp_into_rtranclp reached_ok rtranclp_trans)
  have "e \<in> set (cd_exposures d)" "pe_exposure_id e = i" using row(1) by (auto simp: exposure_row_def dest: tbl_find_SomeD)
  then have "?f e \<in> set (cd_exposures d1)" using e(1) by (auto simp: e(5) update_exposure_def table_simps)
  moreover have "terminal_exposure (?f e)" by (simp add: terminal_exposure_def close_exposure_def closed_states_def)
  ultimately have "?f e \<in> set (cd_exposures d2)"
    using advancesE [OF steps_advance [OF later]] by (auto simp: forward_def)
  then have row2: "exposure_row i d2 = Some (?f e)"
    using exposures.find_key_iff [of "cd_exposures d2" i "?f e"] ok2 \<open>pe_exposure_id e = i\<close>
    by (simp add: exposure_row_def exposures_ok_def close_exposure_def)
  have "d3 = d2 \<and> b = (auth' = auth \<and> eed' = eed \<and> hy' = hy \<and> fr' = fr)"
    using again row2 e(2)
    by (auto simp: finalize_production_exposure_def exposure_authority_def close_exposure_def authority_of_def
        split: if_splits prod.splits dest!: init_same)
  with e show ?thesis by simp
qed

theorem exposure_finalized_once_witness:
  "\<exists>d1. finalize_production_exposure ''x'' 3 5 9 (''b'', ''m'') 30 demo_validating = Inr (True, d1) \<and>
     finalize_production_exposure ''x'' 3 6 9 (''b'', ''m'') 40 d1 = Inr (False, d1)"
proof -
  let ?e = "demo_exposure\<lparr>pe_state := E_VALIDATING, pe_provider_requests := 7, pe_accepted_host_years := 4, pe_updated_at := 20\<rparr>"
  let ?d1 = "empty_control\<lparr>cd_exposures := [demo_exposure\<lparr>pe_state := E_FINAL_CLOSED, pe_provider_requests := 7,
     pe_accepted_host_years := 5, pe_evidence_frontier := 9, pe_final_accepted_eed := 3, pe_terminal_reason := Some ''finalized'',
     pe_closed_at := Some 30, pe_updated_at := 30\<rparr>]\<rparr>"
  have fin: "finalize_production_exposure ''x'' 3 5 9 (''b'', ''m'') 30 demo_validating = Inr (True, ?d1)" by code_simp
  have row: "exposure_row ''x'' demo_validating = Some ?e" "pe_state ?e \<noteq> E_FINAL_CLOSED" by code_simp+
  obtain b d3 where again: "finalize_production_exposure ''x'' 3 6 9 (''b'', ''m'') 40 ?d1 = Inr (b, d3)"
  proof -
    have "finalize_production_exposure ''x'' 3 6 9 (''b'', ''m'') 40 ?d1 = Inr (False, ?d1)" by code_simp
    then show thesis by (rule that)
  qed
  from exposure_finalized_once [OF fin row rtranclp.rtrancl_refl rtranclp_trans [OF exposed_reached validating_reached] again] again fin
  show ?thesis by auto
qed

text \<open>
  a clock that steps back behind the creation of an open exposure locks it. The progress update is
  committed with the earlier time before the row is read back, the reading then raises, and from then on
  progress, finalization and abortion of the exposure all raise and change nothing.
\<close>

theorem clock_step_back_locks_exposure:
  assumes ok: "exposure_step\<^sup>*\<^sup>* empty_control d" and row: "exposure_row i d = Some e"
    and earlier: "now < pe_created_at e" and rec: "record_production_exposure_progress i st p now d = (res, d')" "d' \<noteq> d"
  shows "res = Inl ValueError \<and> get_production_exposure i d' = Inl ValueError \<and>
    (\<forall>st' p' now'. snd (record_production_exposure_progress i st' p' now' d') = d') \<and>
    (\<forall>eed hy fr auth now'. \<exists>x. finalize_production_exposure i eed hy fr auth now' d' = Inl x) \<and>
    (\<forall>st' reason auth now'. \<exists>x. abort_production_exposure i st' reason auth now' d' = Inl x)"
  using rec(1)
proof (cases rule: record_cases)
  case same
  with rec(2) show ?thesis by simp
next
  case (moved e0 p')
  let ?e = "apply_progress st p' now e"
  have e: "e0 = e" "e \<in> set (cd_exposures d)" "pe_exposure_id e = i"
    using moved(1) row by (auto simp: exposure_row_def dest: tbl_find_SomeD)
  have ok': "exposures_ok d'"
    using ok exposure_step.record_progress [OF rec(1)] by (meson rtranclp.rtrancl_into_rtrancl reached_ok)
  have "?e \<in> set (cd_exposures d')" using e by (auto simp: moved(4) update_exposure_def table_simps)
  then have row': "exposure_row i d' = Some ?e"
    using exposures.find_key_iff [of "cd_exposures d'" i ?e] ok' e(3)
    by (simp add: exposure_row_def exposures_ok_def apply_progress_def)
  have bad: "exposure_init ?e = Inl ValueError"
    using earlier by (auto simp: exposure_init_def apply_progress_def check_def)
  then have get: "get_production_exposure i d' = Inl ValueError" by (simp add: get_production_exposure_def row')
  have "record_progress_txn i st' q now' d' = Inl x \<or> (\<exists>x. record_progress_txn i st' q now' d' = Inl x)" for st' q now' x
    by (cases "record_progress_txn i st' q now' d'") (auto simp: record_progress_txn_def row' bad)
  then have "snd (record_production_exposure_progress i st' q now' d') = d'" for st' q now'
    by (metis (no_types, lifting) record_production_exposure_progress_def after_def perform_def old.prod.case old.sum.simps(5) snd_conv)
  moreover have "\<exists>x. finalize_production_exposure i eed hy fr auth now' d' = Inl x" for eed hy fr auth now'
    by (cases "finalize_production_exposure i eed hy fr auth now' d'") (auto simp: finalize_production_exposure_def row' bad)
  moreover have "\<exists>x. abort_production_exposure i st' reason auth now' d' = Inl x" for st' reason auth now'
    by (cases "abort_production_exposure i st' reason auth now' d'") (auto simp: abort_production_exposure_def row' bad)
  moreover have "res = Inl ValueError" by (simp add: moved(5) read_exposure_def get)
  ultimately show ?thesis using get by blast
qed

theorem clock_step_back_locks_exposure_witness:
  "\<exists>d'. record_production_exposure_progress ''x'' E_READ_COMPLETE no_progress 9 demo_exposed = (Inl ValueError, d') \<and>
     get_production_exposure ''x'' d' = Inl ValueError"
proof -
  let ?d = "empty_control\<lparr>cd_exposures := [demo_exposure\<lparr>pe_state := E_READ_COMPLETE, pe_updated_at := 9\<rparr>]\<rparr>"
  have row: "exposure_row ''x'' demo_exposed = Some demo_exposure" "9 < pe_created_at demo_exposure" by code_simp+
  have rec: "record_production_exposure_progress ''x'' E_READ_COMPLETE no_progress 9 demo_exposed = (Inl ValueError, ?d)" "?d \<noteq> demo_exposed"
    by code_simp+
  from clock_step_back_locks_exposure [OF exposed_reached row rec] rec show ?thesis by blast
qed

text \<open>
  A late writer cannot move the phase back, but the counters it reports replace larger ones: after
  seven requests and four accepted host-years, a late report of three and one leaves three and one.
\<close>

theorem late_progress_lowers_counters:
  "record_production_exposure_progress ''x'' E_RUNNING
     (no_progress\<lparr>pg_provider_requests := Some 3, pg_accepted_host_years := Some 1\<rparr>) 30 demo_validating =
   (Inr (demo_exposure\<lparr>pe_state := E_VALIDATING, pe_provider_requests := 3, pe_accepted_host_years := 1, pe_updated_at := 30\<rparr>),
    empty_control\<lparr>cd_exposures := [demo_exposure\<lparr>pe_state := E_VALIDATING, pe_provider_requests := 3,
      pe_accepted_host_years := 1, pe_updated_at := 30\<rparr>]\<rparr>)"
  by code_simp

end
