(* ===== verification/Harvest_Store.thy ===== *)
theory Harvest_Store
  imports Exposure_Store
begin

text \<open>
  Platform harvests in the control store (\<open>storage/control_store.py\<close>): the resumable work items with
  their leases and continuation cursors, and their link to production exposures.  Rows become tasks
  through the constructor of \<open>Platform_Harvest\<close>, which recomputes the identity.
\<close>

section \<open>Registration\<close>

definition harvest_task_of :: "codec \<Rightarrow> harvest_row \<Rightarrow> py_error + harvest_task" where
  "harvest_task_of E r = harvest_task_init E (hv_task r)"

definition get_platform_year_harvest :: "codec \<Rightarrow> string \<Rightarrow> control_db \<Rightarrow> py_error + harvest_task option" where
  "get_platform_year_harvest E i d = (case tbl_find (\<lambda>r. harvest_key r = i) (cd_harvests d) of
     None \<Rightarrow> Inr None | Some r \<Rightarrow> bindr (harvest_task_of E r) (\<lambda>t. Inr (Some t)))"

definition harvest_order :: "harvest_row \<Rightarrow> string \<times> string \<times> int \<times> string" where
  "harvest_order r = (let i = ht_identity (hv_task r) in (hi_provider i, hi_subject i, hi_target_year i, harvest_key r))"

definition list_platform_year_harvests :: "codec \<Rightarrow> harvest_state option \<Rightarrow> control_db \<Rightarrow> py_error + harvest_task list" where
  "list_platform_year_harvests E st d = collect (List.map (harvest_task_of E) (tbl_order_by harvest_order
     (filter (\<lambda>r. case st of None \<Rightarrow> True | Some s \<Rightarrow> ht_state (hv_task r) = s) (cd_harvests d))))"

definition seed_task :: "string \<Rightarrow> harvest_identity \<Rightarrow> string \<Rightarrow> time \<Rightarrow> harvest_task" where
  "seed_task i ident decision now = \<lparr>ht_harvest_id = i, ht_identity = ident, ht_resume_key = None, ht_page_number = 0,
     ht_state = H_READY, ht_attempt = 0, ht_retry_at = None, ht_claimed_by = None, ht_lease_expires_at = None,
     ht_rows_seen = 0, ht_unique_host_years_seen = 0, ht_requests = 0, ht_bytes = 0, ht_elapsed_seconds = 0,
     ht_baseline_external_host_years = 0, ht_final_eed = 0, ht_created_at = now, ht_updated_at = now,
     ht_completed_at = None, ht_origin_decision = decision, ht_evidence_frontier = 0, ht_terminal_reason = None\<rparr>"

definition enqueue_txn :: "codec \<Rightarrow> harvest_identity \<Rightarrow> string \<Rightarrow> time \<Rightarrow> string txn" where
  "enqueue_txn E ident decision now d =
     check (lineage_complete (lineage ident)) ValueError (
     check (decision = [] \<or> list_all (\<lambda>v. v \<noteq> []) (lineage ident)) ValueError (
     bindr (platform_year_harvest_id E ident) (\<lambda>i.
     bindr (harvest_task_init E (seed_task i ident decision 0)) (\<lambda>seed.
     check (0 \<le> now) ValueError (
     Inr (i, d\<lparr>cd_harvests := tbl_insert_or_ignore harvest_key
       \<lparr>hv_task = seed_task i (ht_identity seed) decision now, hv_last_error = None\<rparr> (cd_harvests d)\<rparr>))))))"

definition read_harvest :: "codec \<Rightarrow> string \<Rightarrow> harvest_task prog" where
  "read_harvest E i = query (\<lambda>d. bindr (get_platform_year_harvest E i d) found)"

definition enqueue_platform_year_harvest :: "codec \<Rightarrow> harvest_identity \<Rightarrow> string \<Rightarrow> time \<Rightarrow> harvest_task prog" where
  "enqueue_platform_year_harvest E ident decision now = after (perform (enqueue_txn E ident decision now)) (read_harvest E)"

definition harvest_states :: "harvest_state list" where
  "harvest_states = [H_READY, H_RUNNING, H_PARTIAL, H_RETRYABLE, H_COMPLETE, H_FAILED_INVALID]"

definition platform_year_harvest_state_counts :: "control_db \<Rightarrow> (harvest_state \<times> nat) list" where
  "platform_year_harvest_state_counts d =
     List.map (\<lambda>st. (st, tbl_count (\<lambda>r. ht_state (hv_task r) = st) (cd_harvests d))) harvest_states"

section \<open>Claims\<close>

definition harvest_claimable :: "time \<Rightarrow> string list \<Rightarrow> harvest_row \<Rightarrow> bool" where
  "harvest_claimable now providers r = (let t = hv_task r in
     (ht_state t \<in> set claimable_harvest_states \<or>
      ht_state t = H_RUNNING \<and> (case ht_lease_expires_at t of None \<Rightarrow> False | Some u \<Rightarrow> u \<le> now)) \<and>
     (case ht_retry_at t of None \<Rightarrow> True | Some a \<Rightarrow> a \<le> now) \<and>
     (providers = [] \<or> hi_provider (ht_identity t) \<in> set providers))"

definition claim_harvest :: "string \<Rightarrow> time \<Rightarrow> time \<Rightarrow> harvest_task \<Rightarrow> harvest_task" where
  "claim_harvest owner until now t = t\<lparr>ht_state := H_RUNNING, ht_attempt := ht_attempt t + 1, ht_retry_at := None,
     ht_claimed_by := Some owner, ht_lease_expires_at := Some until, ht_updated_at := now\<rparr>"

definition update_harvest :: "(harvest_row \<Rightarrow> bool) \<Rightarrow> (harvest_task \<Rightarrow> harvest_task) \<Rightarrow> control_db \<Rightarrow> control_db" where
  "update_harvest P f d = d\<lparr>cd_harvests := tbl_update P (\<lambda>r. r\<lparr>hv_task := f (hv_task r)\<rparr>) (cd_harvests d)\<rparr>"

definition harvests_to_claim :: "int \<Rightarrow> string list \<Rightarrow> time \<Rightarrow> control_db \<Rightarrow> harvest_row list" where
  "harvests_to_claim limit providers now d = take (nat limit) (tbl_order_by (\<lambda>r. (ht_updated_at (hv_task r), harvest_key r))
     (filter (harvest_claimable now providers) (cd_harvests d)))"

definition claim_platform_year_harvests ::
  "codec \<Rightarrow> string \<Rightarrow> int \<Rightarrow> rat \<Rightarrow> string list \<Rightarrow> time \<Rightarrow> harvest_task list txn" where
  "claim_platform_year_harvests E owner limit lease_seconds providers now d =
     check (\<not> blank owner) ValueError (
     if limit < 1 then Inr ([], d)
     else check (0 < lease_seconds) ValueError (
       check (list_all (\<lambda>p. \<not> blank p) providers) ValueError (
       check (0 \<le> now) ValueError (
       let until = now + lease_seconds;
           rows = harvests_to_claim limit (dedup providers) now d
       in bindr (collect (List.map (\<lambda>r. bindr (harvest_task_of E r) (\<lambda>t. harvest_task_init E (claim_harvest owner until now t))) rows))
            (\<lambda>claimed. Inr (claimed,
              fold (\<lambda>r. update_harvest (\<lambda>x. harvest_key x = harvest_key r) (claim_harvest owner until now)) rows d))))))"

definition harvest_held :: "string \<Rightarrow> string \<Rightarrow> time \<Rightarrow> harvest_row \<Rightarrow> bool" where
  "harvest_held i owner now r = (let t = hv_task r in
     harvest_key r = i \<and> ht_state t = H_RUNNING \<and> ht_claimed_by t = Some owner \<and>
     (case ht_lease_expires_at t of None \<Rightarrow> False | Some u \<Rightarrow> now < u))"

definition renew_platform_year_harvest :: "string \<Rightarrow> string \<Rightarrow> rat \<Rightarrow> time \<Rightarrow> time txn" where
  "renew_platform_year_harvest i owner lease_seconds now d =
     check (\<not> blank owner) ValueError (
     check (0 < lease_seconds) ValueError (
     check (0 \<le> now) ValueError (
     check (tbl_count (harvest_held i owner now) (cd_harvests d) = 1) RuntimeError (
     Inr (now + lease_seconds, update_harvest (harvest_held i owner now)
       (\<lambda>t. t\<lparr>ht_lease_expires_at := Some (now + lease_seconds), ht_updated_at := now\<rparr>) d)))))"

section \<open>Finishing a page\<close>

definition page_committed :: "harvest_state \<Rightarrow> bool" where
  "page_committed st = (st \<in> {H_PARTIAL, H_COMPLETE})"

definition result_matches :: "harvest_result \<Rightarrow> harvest_task \<Rightarrow> bool" where
  "result_matches r t = (hr_provider r = hi_provider (ht_identity t) \<and> hr_subject r = hi_subject (ht_identity t) \<and>
     hr_target_year r = hi_target_year (ht_identity t) \<and>
     hr_request_template_hash r = hi_request_template_hash (ht_identity t) \<and>
     hr_policy_version r = hi_policy_version (ht_identity t) \<and> hr_resume_key_used r = ht_resume_key t)"

text \<open>\<open>INSERT OR IGNORE\<close> also skips a year outside the \<open>CHECK\<close> of the column.\<close>

definition insert_host_years :: "string \<Rightarrow> capsule list \<Rightarrow> control_db \<Rightarrow> control_db" where
  "insert_host_years i cs d = d\<lparr>cd_host_years := fold (\<lambda>c t.
     if year_ok (cp_year c) then tbl_insert_or_ignore id (i, cp_hostname c, cp_year c) t else t) cs (cd_host_years d)\<rparr>"

definition count_host_years :: "string \<Rightarrow> control_db \<Rightarrow> int" where
  "count_host_years i d = int (tbl_count (\<lambda>(h, _, _). h = i) (cd_host_years d))"

definition next_cursor :: "harvest_result \<Rightarrow> harvest_task \<Rightarrow> string option" where
  "next_cursor r t = (if hr_state r = H_PARTIAL then hr_next_resume_key r
     else if hr_state r = H_COMPLETE then None else ht_resume_key t)"

definition finish_page :: "harvest_result \<Rightarrow> time option \<Rightarrow> int \<Rightarrow> time \<Rightarrow> harvest_task \<Rightarrow> harvest_task" where
  "finish_page r retry_at unique now t = t\<lparr>
     ht_resume_key := next_cursor r t,
     ht_page_number := ht_page_number t + (if page_committed (hr_state r) then 1 else 0),
     ht_state := hr_state r,
     ht_retry_at := (if hr_state r = H_RETRYABLE then retry_at else None),
     ht_claimed_by := None,
     ht_lease_expires_at := None,
     ht_rows_seen := ht_rows_seen t + hr_rows_seen r,
     ht_unique_host_years_seen := unique,
     ht_requests := ht_requests t + hr_requests r,
     ht_bytes := ht_bytes t + hr_bytes r,
     ht_elapsed_seconds := ht_elapsed_seconds t + hr_elapsed_seconds r,
     ht_updated_at := now,
     ht_completed_at := (if hr_state r = H_COMPLETE then Some now else ht_completed_at t)\<rparr>"

definition finish_page_txn :: "codec \<Rightarrow> harvest_result \<Rightarrow> string \<Rightarrow> time option \<Rightarrow> time \<Rightarrow> unit txn" where
  "finish_page_txn E r owner retry_at now d =
     check (\<not> blank owner) ValueError (
     check (opt_nonneg retry_at) ValueError (
     check (hr_state r = H_RETRYABLE \<longleftrightarrow> retry_at \<noteq> None) ValueError (
     check (hr_state r \<in> set page_states) ValueError (
     check (0 \<le> now) ValueError (
     case tbl_find (harvest_held (hr_harvest_id r) owner now) (cd_harvests d) of
       None \<Rightarrow> Inl KeyError
     | Some row \<Rightarrow>
         bindr (harvest_task_of E row) (\<lambda>t.
         check (result_matches r t) ValueError (
         let d1 = (if page_committed (hr_state r) then insert_host_years (ht_harvest_id t) (hr_capsules r) d else d);
             unique = count_host_years (ht_harvest_id t) d1
         in Inr ((), d1\<lparr>cd_harvests := tbl_update
              (\<lambda>x. harvest_key x = ht_harvest_id t \<and> ht_state (hv_task x) = H_RUNNING \<and> ht_claimed_by (hv_task x) = Some owner)
              (\<lambda>x. x\<lparr>hv_task := finish_page r retry_at unique now (hv_task x), hv_last_error := hr_error r\<rparr>)
              (cd_harvests d1)\<rparr>))))))))"

definition finish_platform_year_harvest_page ::
  "codec \<Rightarrow> harvest_result \<Rightarrow> string \<Rightarrow> time option \<Rightarrow> time \<Rightarrow> harvest_task prog" where
  "finish_platform_year_harvest_page E r owner retry_at now =
     after (perform (finish_page_txn E r owner retry_at now)) (\<lambda>_. read_harvest E (hr_harvest_id r))"

section \<open>Exposures of harvests\<close>

definition task_exposure_request :: "harvest_task \<Rightarrow> string \<times> string \<Rightarrow> exposure_request" where
  "task_exposure_request t authority = \<lparr>eq_source_key = hi_source_key (ht_identity t),
     eq_reservoir_id = hi_reservoir_id (ht_identity t), eq_lane = ''platform_year'', eq_baseline_signature = None,
     eq_model_signature = None, eq_authority = Some authority, eq_lease_id = None, eq_task_id = Some (ht_harvest_id t),
     eq_exposure_id = Some (hi_exposure_id (ht_identity t))\<rparr>"

definition ensure_platform_year_exposure ::
  "string \<Rightarrow> harvest_task \<Rightarrow> (string \<times> string) option \<Rightarrow> time \<Rightarrow> exposure option txn" where
  "ensure_platform_year_exposure uuid t authority now d =
     (let i = ht_identity t in
      if hi_source_key i = [] then Inr (None, d)
      else bindr (get_production_exposure (hi_exposure_id i) d) (\<lambda>existing.
        case existing of
          Some e \<Rightarrow> Inr (Some e, d)
        | None \<Rightarrow> bindr (begin_production_exposure uuid (task_exposure_request t
              (case authority of None \<Rightarrow> (hi_authority_digest i, hi_authority_digest i) | Some a \<Rightarrow> a)) now d)
            (\<lambda>(e, d'). Inr (Some e, d'))))"

definition provider_progress :: "int \<Rightarrow> int \<Rightarrow> rat \<Rightarrow> int \<Rightarrow> int \<Rightarrow> progress" where
  "provider_progress requests bytes elapsed frontier host_years = no_progress\<lparr>pg_provider_requests := Some requests,
     pg_provider_bytes := Some bytes, pg_provider_elapsed_seconds := Some elapsed, pg_evidence_frontier := Some frontier,
     pg_accepted_host_years := Some host_years\<rparr>"

definition set_frontier :: "string \<Rightarrow> int \<Rightarrow> time \<Rightarrow> unit txn" where
  "set_frontier i frontier now d = check (0 \<le> frontier) IntegrityError (Inr ((), update_harvest (\<lambda>r. harvest_key r = i)
     (\<lambda>t. t\<lparr>ht_evidence_frontier := frontier, ht_updated_at := now\<rparr>) d))"

definition known_harvest :: "harvest_task option \<Rightarrow> py_error + harvest_task" where
  "known_harvest t = (case t of None \<Rightarrow> Inl KeyError | Some t \<Rightarrow> Inr t)"

definition record_platform_year_exposure_progress ::
  "codec \<Rightarrow> string \<Rightarrow> exposure_state \<Rightarrow> int \<Rightarrow> int \<Rightarrow> rat \<Rightarrow> int \<Rightarrow> int \<Rightarrow> time \<Rightarrow> time \<Rightarrow> harvest_task prog" where
  "record_platform_year_exposure_progress E i st requests bytes elapsed frontier host_years t1 t2 =
     after (query (\<lambda>d. bindr (get_platform_year_harvest E i d) known_harvest)) (\<lambda>t.
     after (if hi_source_key (ht_identity t) = [] then query (\<lambda>_. Inr ())
            else after (record_production_exposure_progress (hi_exposure_id (ht_identity t)) st
                   (provider_progress requests bytes elapsed frontier host_years) t1) (\<lambda>_. query (\<lambda>_. Inr ()))) (\<lambda>_.
     after (perform (set_frontier i frontier t2)) (\<lambda>_. read_harvest E i)))"

definition finalize_row :: "rat \<Rightarrow> int \<Rightarrow> time \<Rightarrow> harvest_task \<Rightarrow> harvest_task" where
  "finalize_row eed frontier now t = t\<lparr>ht_final_eed := eed, ht_evidence_frontier := frontier,
     ht_terminal_reason := Some ''finalized'', ht_updated_at := now\<rparr>"

definition finalize_platform_year_harvest ::
  "codec \<Rightarrow> string \<Rightarrow> rat \<Rightarrow> int \<Rightarrow> int \<Rightarrow> string \<Rightarrow> time \<Rightarrow> time \<Rightarrow> time \<Rightarrow> bool prog" where
  "finalize_platform_year_harvest E i eed host_years frontier digest t1 t2 t3 =
     after (query (\<lambda>d. bindr (get_platform_year_harvest E i d) known_harvest)) (\<lambda>t.
     if ht_state t \<noteq> H_COMPLETE \<or> hi_source_key (ht_identity t) = [] \<or> hi_authority_digest (ht_identity t) \<noteq> digest
     then query (\<lambda>_. Inr False)
     else after (query (get_production_exposure (hi_exposure_id (ht_identity t)))) (\<lambda>existing.
       case existing of
         None \<Rightarrow> query (\<lambda>_. Inr False)
       | Some e \<Rightarrow>
           after (query (\<lambda>_. if authority_of e = (digest, digest) then Inr digest
                    else platform_authority_digest E (pe_baseline_signature e) (pe_model_signature e))) (\<lambda>paired.
           if paired \<noteq> digest then query (\<lambda>_. Inr False)
           else after (if pe_state e = E_FINAL_CLOSED then query (\<lambda>_. Inr ())
                  else after (record_production_exposure_progress (hi_exposure_id (ht_identity t)) E_VALIDATING
                         (provider_progress (ht_requests t) (ht_bytes t) (ht_elapsed_seconds t) frontier host_years) t1)
                         (\<lambda>_. query (\<lambda>_. Inr ()))) (\<lambda>_.
             after (perform (finalize_production_exposure (hi_exposure_id (ht_identity t)) eed host_years frontier (authority_of e) t2)) (\<lambda>finalized.
             if \<not> finalized then query (\<lambda>_. Inr False)
             else perform (\<lambda>d. Inr (True, update_harvest (\<lambda>r. harvest_key r = i) (finalize_row eed frontier t3) d)))))))"

definition publish_platform_year_final :: "string \<Rightarrow> rat \<Rightarrow> int \<Rightarrow> int \<Rightarrow> time \<Rightarrow> bool txn" where
  "publish_platform_year_final exposure_id eed host_years frontier now d =
     check (0 \<le> eed) ValueError (
     check (0 \<le> host_years \<and> 0 \<le> frontier) ValueError (
     bindr (get_production_exposure exposure_id d) (\<lambda>e.
     if \<not> (case e of None \<Rightarrow> False | Some x \<Rightarrow> pe_state x = E_FINAL_CLOSED) then Inr (False, d)
     else (case tbl_find (\<lambda>r. hi_exposure_id (ht_identity (hv_task r)) = exposure_id) (cd_harvests d) of
             None \<Rightarrow> Inr (False, d)
           | Some r \<Rightarrow> if ht_state (hv_task r) \<noteq> H_COMPLETE then Inr (False, d)
               else Inr (True, update_harvest (\<lambda>r. hi_exposure_id (ht_identity (hv_task r)) = exposure_id \<and>
                      ht_state (hv_task r) = H_COMPLETE) (finalize_row eed frontier now) d)))))"

end
