(* ===== verification/Harvest_Store_Invariant.thy ===== *)
theory Harvest_Store_Invariant
  imports Harvest_Store Exposure_Properties
begin

text \<open>
  Histories of the platform harvests: what each operation does to the rows, the invariant of the two
  tables, and the interpretation of \<open>visibility\<close> that makes a harvest a ticket held by its claimant.
\<close>

section \<open>Valid tasks\<close>

definition harvest_valid :: "codec \<Rightarrow> harvest_task \<Rightarrow> bool" where
  "harvest_valid E t \<longleftrightarrow> (let i = ht_identity t in
     normalize_official (hi_subject i) = Some (hi_subject i) \<and> year_ok (hi_target_year i) \<and>
     platform_year_harvest_id E i = Inr (ht_harvest_id t) \<and>
     (\<forall>n \<in> {ht_page_number t, ht_attempt t, ht_rows_seen t, ht_unique_host_years_seen t, ht_requests t, ht_bytes t,
        ht_baseline_external_host_years t, ht_evidence_frontier t}. 0 \<le> n) \<and>
     0 \<le> ht_elapsed_seconds t \<and> 0 \<le> ht_final_eed t \<and> opt_nonneg (ht_retry_at t) \<and> opt_nonneg (ht_lease_expires_at t) \<and>
     0 \<le> ht_created_at t \<and> 0 \<le> ht_updated_at t \<and> opt_nonneg (ht_completed_at t) \<and> lineage_complete (lineage i))"

lemma opt_nonneg_simps [simp]: "opt_nonneg None" "opt_nonneg (Some q) \<longleftrightarrow> 0 \<le> q"
  by (simp_all add: opt_nonneg_def)

lemma id_normalized: "normalize_official (hi_subject i) = Some s \<Longrightarrow>
    platform_year_harvest_id E (i\<lparr>hi_subject := s\<rparr>) = platform_year_harvest_id E i"
  using normalize_again [of "hi_subject i" s] by (simp add: platform_year_harvest_id_def lineage_def identity_json_def)

lemma init_valid: "harvest_task_init E t = Inr t' \<Longrightarrow> harvest_valid E t' \<and> (\<exists>i. t' = t\<lparr>ht_identity := i\<rparr>)"
  using normalize_again
  by (auto simp: harvest_task_init_def harvest_valid_def Let_def split: option.splits)

lemma valid_init: "harvest_valid E t \<Longrightarrow> harvest_task_init E t = Inr t"
  by (cases "ht_identity t") (simp add: harvest_task_init_def harvest_valid_def Let_def)

section \<open>Rows\<close>

definition harvest_ok :: "codec \<Rightarrow> harvest_row \<Rightarrow> bool" where
  "harvest_ok E r \<longleftrightarrow> (let t = hv_task r in harvest_valid E t \<and>
     (ht_state t = H_RUNNING \<longleftrightarrow> ht_claimed_by t \<noteq> None) \<and> (ht_claimed_by t = None \<longleftrightarrow> ht_lease_expires_at t = None) \<and>
     (ht_resume_key t \<noteq> None \<longrightarrow> ht_state t \<noteq> H_READY \<and> ht_state t \<noteq> H_COMPLETE) \<and>
     (ht_state t = H_COMPLETE \<longleftrightarrow> ht_completed_at t \<noteq> None))"

definition final_harvest :: "harvest_state \<Rightarrow> bool" where
  "final_harvest st \<longleftrightarrow> st \<in> {H_COMPLETE, H_FAILED_INVALID}"

definition harvest_ticket :: "harvest_row \<Rightarrow> harvest_state ticket" where
  "harvest_ticket r = \<lparr>tt_state = ht_state (hv_task r),
     tt_lease = (case (ht_claimed_by (hv_task r), ht_lease_expires_at (hv_task r)) of
       (Some w, Some u) \<Rightarrow> Some (w, u) | _ \<Rightarrow> None)\<rparr>"

text \<open>What a step can do to one row.\<close>

inductive hrow_step :: "actor \<Rightarrow> time \<Rightarrow> harvest_row \<Rightarrow> harvest_row \<Rightarrow> bool" where
  keep: "hrow_step a now r r"
| amend: "0 \<le> fr \<Longrightarrow> 0 \<le> eed \<Longrightarrow> 0 \<le> t \<Longrightarrow> hrow_step Admin now r (r\<lparr>hv_task := (hv_task r)\<lparr>ht_evidence_frontier := fr,
     ht_final_eed := eed, ht_terminal_reason := reason, ht_updated_at := t\<rparr>\<rparr>)"
| take: "harvest_claimable now ps r \<Longrightarrow> 0 \<le> now \<Longrightarrow> 0 \<le> u \<Longrightarrow>
    hrow_step (Worker w) now r (r\<lparr>hv_task := claim_harvest w u now (hv_task r)\<rparr>)"
| extend: "harvest_held (harvest_key r) w now r \<Longrightarrow> 0 \<le> now \<Longrightarrow> 0 \<le> u \<Longrightarrow>
    hrow_step (Worker w) now r (r\<lparr>hv_task := (hv_task r)\<lparr>ht_lease_expires_at := Some u, ht_updated_at := now\<rparr>\<rparr>)"
| page: "harvest_held (harvest_key r) w now r \<Longrightarrow> 0 \<le> now \<Longrightarrow> harvest_result_init res = Inr res \<Longrightarrow> result_matches res (hv_task r) \<Longrightarrow>
    hr_state res = H_RETRYABLE \<longleftrightarrow> ra \<noteq> None \<Longrightarrow> opt_nonneg ra \<Longrightarrow> 0 \<le> n \<Longrightarrow>
    hrow_step (Worker w) now r (r\<lparr>hv_task := finish_page res ra n now (hv_task r), hv_last_error := hr_error res\<rparr>)"

lemma result_okD: "harvest_result_init res = Inr res \<Longrightarrow> hr_state res \<in> set page_states \<and> continuation_ok res \<and>
    0 \<le> hr_rows_seen res \<and> 0 \<le> hr_requests res \<and> 0 \<le> hr_bytes res \<and> 0 \<le> hr_elapsed_seconds res"
  by (simp add: harvest_result_init_def split: option.splits)

lemma hrow_step_key: "hrow_step a now r r' \<Longrightarrow> harvest_key r' = harvest_key r \<and> ht_identity (hv_task r') = ht_identity (hv_task r)"
  by (induction rule: hrow_step.induct) (simp_all add: harvest_key_def claim_harvest_def finish_page_def)

lemma hrow_step_ok: "hrow_step a now r r' \<Longrightarrow> harvest_ok E r \<Longrightarrow> harvest_ok E r'"
proof (induction rule: hrow_step.induct)
  case (page r w now res ra n)
  have "ht_state (hv_task r) = H_RUNNING" using page(1) by (simp add: harvest_held_def Let_def)
  with page result_okD [OF page(3)] show ?case
    by (cases "hr_state res")
       (auto simp: harvest_ok_def harvest_valid_def finish_page_def Let_def page_states_def next_cursor_def page_committed_def)
next
  case (take now ps r u w)
  then show ?case by (auto simp: harvest_ok_def harvest_valid_def claim_harvest_def harvest_claimable_def claimable_harvest_states_def Let_def)
next
  case (extend r w now u)
  then show ?case by (auto simp: harvest_ok_def harvest_valid_def harvest_held_def Let_def)
qed (auto simp: harvest_ok_def harvest_valid_def Let_def)

lemma ticket_of [simp]: "tt_state (harvest_ticket r) = ht_state (hv_task r)"
  "tt_lease (harvest_ticket r) = Some (w, u) \<longleftrightarrow> ht_claimed_by (hv_task r) = Some w \<and> ht_lease_expires_at (hv_task r) = Some u"
  by (auto simp: harvest_ticket_def split: option.splits)

lemma hrow_step_spec:
  assumes "hrow_step a now r r'" "harvest_ok E r"
  shows "spec_row final_harvest a now (harvest_ticket r) (harvest_ticket r')"
  using assms
proof (induction rule: hrow_step.induct)
  case (keep a now r)
  show ?case by (rule spec_row.keep)
next
  case (amend fr eed t now r reason)
  have "harvest_ticket (r\<lparr>hv_task := (hv_task r)\<lparr>ht_evidence_frontier := fr, ht_final_eed := eed, ht_terminal_reason := reason,
      ht_updated_at := t\<rparr>\<rparr>) = harvest_ticket r" by (simp add: harvest_ticket_def)
  then show ?case by (simp add: spec_row.keep)
next
  case (take now ps r u w)
  have "harvest_ticket (r\<lparr>hv_task := claim_harvest w u now (hv_task r)\<rparr>) = \<lparr>tt_state = H_RUNNING, tt_lease = Some (w, u)\<rparr>"
    by (simp add: harvest_ticket_def claim_harvest_def)
  moreover have "spec_row final_harvest (Worker w) now (harvest_ticket r) \<lparr>tt_state = H_RUNNING, tt_lease = Some (w, u)\<rparr>"
    using take by (intro spec_row.take_up)
      (auto simp: harvest_claimable_def claimable_harvest_states_def final_harvest_def harvest_ok_def Let_def)
  ultimately show ?case by (simp only:)
next
  case (extend r w now u)
  then obtain u0 where "tt_lease (harvest_ticket r) = Some (w, u0)"
    by (auto simp: harvest_held_def Let_def split: option.splits)
  then have "spec_row final_harvest (Worker w) now (harvest_ticket r) ((harvest_ticket r)\<lparr>tt_lease := Some (w, u)\<rparr>)"
    by (rule spec_row.extend)
  moreover have "harvest_ticket (r\<lparr>hv_task := (hv_task r)\<lparr>ht_lease_expires_at := Some u, ht_updated_at := now\<rparr>\<rparr>) =
      (harvest_ticket r)\<lparr>tt_lease := Some (w, u)\<rparr>"
    using extend(1) by (simp add: harvest_ticket_def harvest_held_def Let_def)
  ultimately show ?case by (simp only:)
next
  case (page r w now res ra n)
  then obtain u where "tt_lease (harvest_ticket r) = Some (w, u)" "now < u"
    by (auto simp: harvest_held_def Let_def split: option.splits)
  then have "spec_row final_harvest (Worker w) now (harvest_ticket r) \<lparr>tt_state = hr_state res, tt_lease = None\<rparr>"
    by (rule spec_row.settle)
  then show ?case by (simp add: harvest_ticket_def finish_page_def)
qed

section \<open>Tables\<close>

definition harvests_ok :: "codec \<Rightarrow> control_db \<Rightarrow> bool" where
  "harvests_ok E d \<longleftrightarrow> uniq harvest_key (cd_harvests d) \<and> (\<forall>r \<in> set (cd_harvests d). harvest_ok E r)"

definition host_years_ok :: "control_db \<Rightarrow> bool" where
  "host_years_ok d \<longleftrightarrow> distinct (cd_host_years d) \<and> (\<forall>(h, n, y) \<in> set (cd_host_years d). h \<in> harvest_key ` set (cd_harvests d) \<and> year_ok y) \<and>
     (\<forall>r \<in> set (cd_harvests d). ht_unique_host_years_seen (hv_task r) = count_host_years (harvest_key r) d)"

definition harvest_inv :: "codec \<Rightarrow> control_db \<Rightarrow> bool" where
  "harvest_inv E d \<longleftrightarrow> harvests_ok E d \<and> host_years_ok d"

definition harvest_abs :: "control_db \<Rightarrow> string \<Rightarrow> harvest_state ticket option" where
  "harvest_abs d k = map_option harvest_ticket (tbl_find (\<lambda>r. harvest_key r = k) (cd_harvests d))"

definition fresh_harvest :: "codec \<Rightarrow> harvest_row \<Rightarrow> bool" where
  "fresh_harvest E r \<longleftrightarrow> harvest_ok E r \<and> ht_state (hv_task r) = H_READY \<and> ht_unique_host_years_seen (hv_task r) = 0"

definition harvest_moves :: "codec \<Rightarrow> actor \<Rightarrow> time \<Rightarrow> control_db \<Rightarrow> control_db \<Rightarrow> bool" where
  "harvest_moves E a now d d' \<longleftrightarrow> (\<exists>f new. cd_harvests d' = List.map f (cd_harvests d) @ new \<and>
     (\<forall>r \<in> set (cd_harvests d). hrow_step a now r (f r)) \<and> (\<forall>r \<in> set new. fresh_harvest E r) \<and>
     distinct (List.map harvest_key new) \<and> (\<forall>r \<in> set new. harvest_key r \<notin> harvest_key ` set (cd_harvests d)))"

lemma moves_ok:
  assumes m: "harvest_moves E a now d d'" and ok: "harvests_ok E d"
  shows "harvests_ok E d'" "spec_step final_harvest a now (harvest_abs d) (harvest_abs d')"
proof -
  obtain f new where f: "cd_harvests d' = List.map f (cd_harvests d) @ new" "\<And>r. r \<in> set (cd_harvests d) \<Longrightarrow> hrow_step a now r (f r)"
      "\<And>r. r \<in> set new \<Longrightarrow> fresh_harvest E r" "distinct (List.map harvest_key new)"
      "\<And>r. r \<in> set new \<Longrightarrow> harvest_key r \<notin> harvest_key ` set (cd_harvests d)"
    using m unfolding harvest_moves_def by blast
  have keys: "List.map harvest_key (List.map f (cd_harvests d)) = List.map harvest_key (cd_harvests d)"
    using hrow_step_key [OF f(2)] by simp
  have "harvest_key ` set (cd_harvests d) \<inter> harvest_key ` set new = {}"
  proof (rule equals0I)
    fix k assume "k \<in> harvest_key ` set (cd_harvests d) \<inter> harvest_key ` set new"
    then obtain r where "r \<in> set new" "k = harvest_key r" "k \<in> harvest_key ` set (cd_harvests d)" by blast
    with f(5) show False by simp
  qed
  then have u': "uniq harvest_key (cd_harvests d')"
    using ok f(4) unfolding uniq_def f(1) map_append keys harvests_ok_def by simp
  have "harvest_ok E (f r)" if "r \<in> set (cd_harvests d)" for r
    using hrow_step_ok [OF f(2) [OF that]] ok that by (simp add: harvests_ok_def)
  with u' f(3) show "harvests_ok E d'" by (auto simp: harvests_ok_def f(1) fresh_harvest_def)
  show "spec_step final_harvest a now (harvest_abs d) (harvest_abs d')"
    unfolding spec_step_def
  proof
    fix k
    show "case harvest_abs d k of None \<Rightarrow> (\<forall>t. harvest_abs d' k = Some t \<longrightarrow> \<not> final_harvest (tt_state t) \<and> tt_lease t = None)
        | Some t \<Rightarrow> \<exists>t'. harvest_abs d' k = Some t' \<and> spec_row final_harvest a now t t'"
    proof (cases "tbl_find (\<lambda>r. harvest_key r = k) (cd_harvests d)")
      case None
      have "\<not> final_harvest (ht_state (hv_task r')) \<and> tt_lease (harvest_ticket r') = None"
        if found: "tbl_find (\<lambda>r. harvest_key r = k) (cd_harvests d') = Some r'" for r'
      proof -
        have r': "r' \<in> set (cd_harvests d')" "harvest_key r' = k" using tbl_find_SomeD [OF found] by auto
        have "r' \<notin> f ` set (cd_harvests d)" using None r'(2) hrow_step_key [OF f(2)] by (auto simp: tbl_find_None)
        then have "fresh_harvest E r'" using r'(1) f(1,3) by auto
        then show ?thesis by (auto simp: fresh_harvest_def harvest_ok_def final_harvest_def harvest_ticket_def Let_def)
      qed
      with None show ?thesis by (auto simp: harvest_abs_def)
    next
      case (Some r)
      then have r: "r \<in> set (cd_harvests d)" "harvest_key r = k" by (auto dest: tbl_find_SomeD)
      have "f r \<in> set (cd_harvests d')" "harvest_key (f r) = k" using r f(1) hrow_step_key [OF f(2) [OF r(1)]] by auto
      then have "tbl_find (\<lambda>r. harvest_key r = k) (cd_harvests d') = Some (f r)" using harvests.find_key_iff [OF u'] by blast
      moreover have "spec_row final_harvest a now (harvest_ticket r) (harvest_ticket (f r))"
        using hrow_step_spec [OF f(2) [OF r(1)]] ok r(1) by (auto simp: harvests_ok_def)
      ultimately show ?thesis using Some by (simp add: harvest_abs_def)
    qed
  qed
qed

lemma moves_map:
  assumes "cd_harvests d' = List.map f (cd_harvests d)" "\<And>r. r \<in> set (cd_harvests d) \<Longrightarrow> hrow_step a now r (f r)"
  shows "harvest_moves E a now d d'"
  unfolding harvest_moves_def by (intro exI [of _ f] exI [of _ "[]"]) (use assms in simp)

text \<open>Operations that leave the host-years alone.\<close>

lemma host_years_frame:
  assumes "host_years_ok d" "cd_host_years d' = cd_host_years d" "cd_harvests d' = List.map f (cd_harvests d) @ new"
    "\<And>r. r \<in> set (cd_harvests d) \<Longrightarrow> harvest_key (f r) = harvest_key r \<and>
       ht_unique_host_years_seen (hv_task (f r)) = ht_unique_host_years_seen (hv_task r)"
    "\<And>r. r \<in> set new \<Longrightarrow> harvest_key r \<notin> harvest_key ` set (cd_harvests d) \<and> ht_unique_host_years_seen (hv_task r) = 0"
  shows "host_years_ok d'"
proof -
  have c: "count_host_years k d' = count_host_years k d" for k by (simp add: count_host_years_def assms(2))
  have none: "count_host_years (harvest_key r) d = 0" if "r \<in> set new" for r
    using assms(1) assms(5) [OF that] by (auto simp: count_host_years_def tbl_count_def host_years_ok_def filter_empty_conv)
  have keys: "harvest_key ` set (cd_harvests d) \<subseteq> harvest_key ` set (cd_harvests d')"
  proof
    fix k assume "k \<in> harvest_key ` set (cd_harvests d)"
    then obtain r where "r \<in> set (cd_harvests d)" "harvest_key (f r) = k" using assms(4) by auto
    then show "k \<in> harvest_key ` set (cd_harvests d')" by (force simp: assms(3))
  qed
  have "ht_unique_host_years_seen (hv_task r) = count_host_years (harvest_key r) d" if "r \<in> set (cd_harvests d')" for r
  proof (cases "r \<in> set new")
    case True
    with none assms(5) show ?thesis by simp
  next
    case False
    with that obtain r0 where "r0 \<in> set (cd_harvests d)" "r = f r0" by (auto simp: assms(3))
    with assms(1,4) show ?thesis by (simp add: host_years_ok_def)
  qed
  with assms(1) keys show ?thesis by (auto simp: host_years_ok_def c assms(2))
qed

section \<open>Operations\<close>

inductive harvest_step :: "codec \<Rightarrow> actor \<Rightarrow> time \<Rightarrow> control_db \<Rightarrow> control_db \<Rightarrow> bool" for E :: codec where
  enqueue: "enqueue_platform_year_harvest E ident decision t d = (res, d') \<Longrightarrow> harvest_step E Admin now d d'"
| claim: "claim_platform_year_harvests E w limit ls ps now d = Inr (ts, d') \<Longrightarrow> harvest_step E (Worker w) now d d'"
| renew: "renew_platform_year_harvest i w ls now d = Inr (t, d') \<Longrightarrow> harvest_step E (Worker w) now d d'"
| finish: "finish_platform_year_harvest_page E r w ra now d = (res, d') \<Longrightarrow> harvest_result_init r = Inr r \<Longrightarrow>
    harvest_step E (Worker w) now d d'"
| progress: "record_platform_year_exposure_progress E i st rq by el fr hy t1 t2 d = (res, d') \<Longrightarrow> 0 \<le> t2 \<Longrightarrow>
    harvest_step E Admin now d d'"
| finalize: "finalize_platform_year_harvest E i eed hy fr digest t1 t2 t3 d = (res, d') \<Longrightarrow> 0 \<le> t3 \<Longrightarrow>
    harvest_step E Admin now d d'"
| publish: "publish_platform_year_final x eed hy fr t d = Inr (b, d') \<Longrightarrow> 0 \<le> t \<Longrightarrow> harvest_step E Admin now d d'"

text \<open>An update of the tasks of some rows.\<close>

definition retask :: "(harvest_row \<Rightarrow> bool) \<Rightarrow> (harvest_task \<Rightarrow> harvest_task) \<Rightarrow> harvest_row \<Rightarrow> harvest_row" where
  "retask P f r = (if P r then r\<lparr>hv_task := f (hv_task r)\<rparr> else r)"

lemma update_retask: "cd_harvests (update_harvest P f d) = List.map (retask P f) (cd_harvests d)"
  "cd_host_years (update_harvest P f d) = cd_host_years d"
  by (simp_all add: update_harvest_def tbl_update_def retask_def)

lemma retask_moves:
  assumes inv: "harvest_inv E d" and d': "cd_harvests d' = List.map (retask P f) (cd_harvests d)" "cd_host_years d' = cd_host_years d"
    and st: "\<And>r. r \<in> set (cd_harvests d) \<Longrightarrow> P r \<Longrightarrow> hrow_step a now r (r\<lparr>hv_task := f (hv_task r)\<rparr>)"
    and seen: "\<And>t. ht_unique_host_years_seen (f t) = ht_unique_host_years_seen t"
  shows "harvest_inv E d' \<and> harvest_moves E a now d d'"
proof -
  have step: "hrow_step a now r (retask P f r)" if "r \<in> set (cd_harvests d)" for r
    using st [OF that] by (simp add: retask_def hrow_step.keep)
  have m: "harvest_moves E a now d d'" by (rule moves_map [OF d'(1) step])
  have key: "harvest_key (retask P f r) = harvest_key r \<and>
      ht_unique_host_years_seen (hv_task (retask P f r)) = ht_unique_host_years_seen (hv_task r)" if "r \<in> set (cd_harvests d)" for r
    using hrow_step_key [OF step [OF that]] by (simp add: retask_def seen)
  have hy: "host_years_ok d" and h': "cd_harvests d' = List.map (retask P f) (cd_harvests d) @ []"
    using inv by (simp_all add: harvest_inv_def d'(1))
  have "host_years_ok d'" by (rule host_years_frame [OF hy d'(2) h' key]) simp_all
  with m moves_ok(1) [OF m] inv show ?thesis by (simp add: harvest_inv_def)
qed

lemma same_moves:
  assumes "harvest_inv E d" "cd_harvests d' = cd_harvests d" "cd_host_years d' = cd_host_years d"
  shows "harvest_inv E d' \<and> harvest_moves E a now d d'"
  by (rule retask_moves [where P = "\<lambda>_. False" and f = id]) (use assms in \<open>simp_all add: retask_def [abs_def]\<close>)

lemma fold_update_harvest:
  "cd_harvests (fold (\<lambda>r. update_harvest (Q r) f) rows d) =
     fold (\<lambda>r. tbl_update (Q r) (\<lambda>x. x\<lparr>hv_task := f (hv_task x)\<rparr>)) rows (cd_harvests d) \<and>
   cd_host_years (fold (\<lambda>r. update_harvest (Q r) f) rows d) = cd_host_years d"
  by (induction rows arbitrary: d) (simp_all add: update_harvest_def)

lemma claim_shape:
  assumes inv: "harvest_inv E d" and op: "claim_platform_year_harvests E w limit ls ps now d = Inr (ts, d')" and lim: "\<not> limit < 1"
  defines "rows \<equiv> harvests_to_claim limit (dedup ps) now d" and "g \<equiv> claim_harvest w (now + ls) now"
  shows "cd_harvests d' = List.map (retask (\<lambda>x. harvest_key x \<in> harvest_key ` set rows) g) (cd_harvests d)"
    "cd_host_years d' = cd_host_years d" "0 < ls" "0 \<le> now"
    "set rows \<subseteq> {r \<in> set (cd_harvests d). harvest_claimable now (dedup ps) r}"
    "collect (List.map (\<lambda>r. bindr (harvest_task_of E r) (\<lambda>t. harvest_task_init E (g t))) rows) = Inr ts"
proof -
  have ok: "0 < ls" "0 \<le> now" and d': "d' = fold (\<lambda>r. update_harvest (\<lambda>x. harvest_key x = harvest_key r) g) rows d"
    and ts: "collect (List.map (\<lambda>r. bindr (harvest_task_of E r) (\<lambda>t. harvest_task_init E (g t))) rows) = Inr ts"
    using op lim by (auto simp: claim_platform_year_harvests_def Let_def rows_def g_def)
  show "0 < ls" "0 \<le> now" "collect (List.map (\<lambda>r. bindr (harvest_task_of E r) (\<lambda>t. harvest_task_init E (g t))) rows) = Inr ts"
    by (rule ok ts)+
  have u: "uniq harvest_key (cd_harvests d)" using inv by (simp add: harvest_inv_def harvests_ok_def)
  show rows: "set rows \<subseteq> {r \<in> set (cd_harvests d). harvest_claimable now (dedup ps) r}"
    by (auto simp: harvests_to_claim_def rows_def dest: in_set_takeD)
  have dist: "distinct (List.map harvest_key rows)"
  proof -
    have "distinct (cd_harvests d)" "inj_on harvest_key (set (cd_harvests d))" using u by (simp_all add: uniq_def distinct_map)
    moreover from this have "distinct rows" by (simp add: harvests_to_claim_def rows_def tbl_order_by_def distinct_sort)
    ultimately show ?thesis using rows by (auto simp: distinct_map intro: inj_on_subset)
  qed
  have fold: "cd_harvests d' = fold (\<lambda>r. tbl_update (\<lambda>x. harvest_key x = harvest_key r) (\<lambda>x. x\<lparr>hv_task := g (hv_task x)\<rparr>)) rows (cd_harvests d)
      \<and> cd_host_years d' = cd_host_years d"
    unfolding d' by (rule fold_update_harvest)
  then show "cd_host_years d' = cd_host_years d" by simp
  have "fold (\<lambda>r. tbl_update (\<lambda>x. harvest_key x = harvest_key r) (\<lambda>x. x\<lparr>hv_task := g (hv_task x)\<rparr>)) rows t =
      fold (\<lambda>k. tbl_update (\<lambda>x. harvest_key x = k \<and> True) (\<lambda>x. x\<lparr>hv_task := g (hv_task x)\<rparr>)) (List.map harvest_key rows) t" for t
    by (simp add: fold_map comp_def)
  also have "\<dots> t = List.map (\<lambda>x. if harvest_key x \<in> set (List.map harvest_key rows) \<and> True then x\<lparr>hv_task := g (hv_task x)\<rparr> else x) t" for t
    by (rule harvests.fold_update_keys [OF _ dist]) (simp add: harvest_key_def claim_harvest_def g_def)
  finally show "cd_harvests d' = List.map (retask (\<lambda>x. harvest_key x \<in> harvest_key ` set rows) g) (cd_harvests d)"
    using fold by (simp add: retask_def [abs_def])
qed

lemma claim_moves:
  assumes inv: "harvest_inv E d" and op: "claim_platform_year_harvests E w limit ls ps now d = Inr (ts, d')"
  shows "harvest_inv E d' \<and> harvest_moves E (Worker w) now d d'"
proof (cases "limit < 1")
  case True
  with op inv show ?thesis by (intro same_moves) (simp_all add: claim_platform_year_harvests_def)
next
  case False
  note c = claim_shape [OF inv op False]
  have u: "uniq harvest_key (cd_harvests d)" using inv by (simp add: harvest_inv_def harvests_ok_def)
  show ?thesis
  proof (rule retask_moves [OF inv c(1,2)])
    fix r assume r: "r \<in> set (cd_harvests d)" "harvest_key r \<in> harvest_key ` set (harvests_to_claim limit (dedup ps) now d)"
    then obtain x where "x \<in> set (harvests_to_claim limit (dedup ps) now d)" "harvest_key x = harvest_key r" by auto
    with c(5) r(1) harvests.uniqD [OF u, of x r] have "harvest_claimable now (dedup ps) r" by auto
    then show "hrow_step (Worker w) now r (r\<lparr>hv_task := claim_harvest w (now + ls) now (hv_task r)\<rparr>)"
      using c(3,4) by (intro hrow_step.take) simp_all
  qed (simp add: claim_harvest_def)
qed

text \<open>What a claim returns are the rows it stored.\<close>

lemma claimed_rows:
  assumes inv: "harvest_inv E d" and op: "claim_platform_year_harvests E w limit ls ps now d = Inr (ts, d')" and t: "t \<in> set ts"
  obtains r where "r \<in> set (cd_harvests d')" "hv_task r = t" "ht_state t = H_RUNNING" "ht_claimed_by t = Some w"
    "ht_lease_expires_at t = Some (now + ls)"
proof -
  have lim: "\<not> limit < 1" using op t by (auto simp: claim_platform_year_harvests_def split: if_splits)
  let ?rows = "harvests_to_claim limit (dedup ps) now d"
  let ?g = "claim_harvest w (now + ls) now"
  note c = claim_shape [OF inv op lim]
  obtain r where r: "r \<in> set ?rows" "bindr (harvest_task_of E r) (\<lambda>t. harvest_task_init E (?g t)) = Inr t"
    using c(6) t list.set_map unfolding collect_Inr by (metis (no_types, lifting) image_iff)
  have "harvest_ok E r" "r \<in> set (cd_harvests d)" using r(1) c(5) inv by (auto simp: harvest_inv_def harvests_ok_def)
  moreover from this(1) have "harvest_ok E (r\<lparr>hv_task := ?g (hv_task r)\<rparr>)"
    using hrow_step_ok [OF hrow_step.take] r(1) c(3-5) by auto
  ultimately have "t = ?g (hv_task r)" "retask (\<lambda>x. harvest_key x \<in> harvest_key ` set ?rows) ?g r \<in> set (cd_harvests d')"
    using r(2) valid_init [of E "hv_task r"] valid_init [of E "?g (hv_task r)"]
    unfolding c(1) by (simp_all add: harvest_ok_def harvest_task_of_def Let_def)
  with r(1) show ?thesis by (intro that [of "r\<lparr>hv_task := ?g (hv_task r)\<rparr>"]) (auto simp: retask_def claim_harvest_def)
qed

lemma renew_moves_harvest:
  assumes inv: "harvest_inv E d" and op: "renew_platform_year_harvest i w ls now d = Inr (t, d')"
  shows "harvest_inv E d' \<and> harvest_moves E (Worker w) now d d'"
proof -
  let ?f = "\<lambda>t. t\<lparr>ht_lease_expires_at := Some (now + ls), ht_updated_at := now\<rparr>"
  have ok: "0 < ls" "0 \<le> now" and d': "d' = update_harvest (harvest_held i w now) ?f d"
    using op by (auto simp: renew_platform_year_harvest_def)
  show ?thesis
  proof (rule retask_moves [OF inv])
    show "hrow_step (Worker w) now r (r\<lparr>hv_task := ?f (hv_task r)\<rparr>)" if "harvest_held i w now r" for r
      using that ok by (intro hrow_step.extend) (auto simp: harvest_held_def Let_def)
  qed (simp_all add: d' update_retask)
qed

lemma seed_fresh:
  assumes "harvest_task_init E (seed_task i ident decision 0) = Inr seed" "0 \<le> now"
  shows "fresh_harvest E \<lparr>hv_task = seed_task i (ht_identity seed) decision now, hv_last_error = None\<rparr>"
  using init_valid [OF assms(1)] assms(2)
  by (auto simp: fresh_harvest_def harvest_ok_def harvest_valid_def seed_task_def Let_def)

lemma enqueue_moves:
  assumes inv: "harvest_inv E d" and op: "enqueue_platform_year_harvest E ident decision t d = (res, d')"
  shows "harvest_inv E d' \<and> harvest_moves E a now d d'"
proof (cases "enqueue_txn E ident decision t d")
  case (Inl e)
  with op inv show ?thesis by (intro same_moves) (auto simp: enqueue_platform_year_harvest_def after_def perform_def)
next
  case (Inr x)
  then obtain i seed where seed: "harvest_task_init E (seed_task i ident decision 0) = Inr seed" "0 \<le> t"
      and x: "x = (i, d\<lparr>cd_harvests := tbl_insert_or_ignore harvest_key
        \<lparr>hv_task = seed_task i (ht_identity seed) decision t, hv_last_error = None\<rparr> (cd_harvests d)\<rparr>)"
    by (auto simp: enqueue_txn_def)
  let ?r = "\<lparr>hv_task = seed_task i (ht_identity seed) decision t, hv_last_error = None\<rparr> :: harvest_row"
  have d': "d' = d\<lparr>cd_harvests := tbl_insert_or_ignore harvest_key ?r (cd_harvests d)\<rparr>"
    using op Inr by (simp add: x enqueue_platform_year_harvest_def after_def perform_def read_harvest_def query_def)
  show ?thesis
  proof (cases "harvest_key ?r \<in> harvest_key ` set (cd_harvests d)")
    case True
    then show ?thesis by (intro same_moves [OF inv]) (simp_all add: d' tbl_insert_or_ignore_def)
  next
    case False
    have h: "cd_harvests d' = List.map id (cd_harvests d) @ [?r]" using False by (simp add: d' tbl_insert_or_ignore_def)
    have m: "harvest_moves E a now d d'" unfolding harvest_moves_def
      by (intro exI [of _ id] exI [of _ "[?r]"]) (use h False seed_fresh [OF seed] in \<open>simp add: hrow_step.keep\<close>)
    have "host_years_ok d'"
      by (rule host_years_frame [OF _ _ h]) (use inv False in \<open>simp_all add: d' harvest_inv_def seed_task_def\<close>)
    with m moves_ok(1) [OF m] inv show ?thesis by (simp add: harvest_inv_def)
  qed
qed

text \<open>Finishing a page also inserts host-years.\<close>

lemma insert_host_years_frame:
  "cd_harvests (insert_host_years i cs d) = cd_harvests d"
  "distinct (cd_host_years d) \<Longrightarrow> distinct (cd_host_years (insert_host_years i cs d))"
  "set (cd_host_years (insert_host_years i cs d)) = set (cd_host_years d) \<union> {(i, cp_hostname c, cp_year c) | c. c \<in> set cs \<and> year_ok (cp_year c)}"
proof -
  let ?g = "\<lambda>c t. if year_ok (cp_year c) then tbl_insert_or_ignore id (i, cp_hostname c, cp_year c) t else t"
  have "distinct (fold ?g cs t) = distinct t \<and>
      set (fold ?g cs t) = set t \<union> {(i, cp_hostname c, cp_year c) | c. c \<in> set cs \<and> year_ok (cp_year c)}" for t
    by (induction cs arbitrary: t) (auto simp: tbl_insert_or_ignore_def)
  then show "distinct (cd_host_years d) \<Longrightarrow> distinct (cd_host_years (insert_host_years i cs d))"
    "set (cd_host_years (insert_host_years i cs d)) = set (cd_host_years d) \<union> {(i, cp_hostname c, cp_year c) | c. c \<in> set cs \<and> year_ok (cp_year c)}"
    by (simp_all add: insert_host_years_def)
qed (simp add: insert_host_years_def)

lemma insert_host_years_other: "k \<noteq> i \<Longrightarrow> count_host_years k (insert_host_years i cs d) = count_host_years k d"
proof -
  assume "k \<noteq> i"
  then have "tbl_count (\<lambda>(h, _, _). h = k) (fold (\<lambda>c t. if year_ok (cp_year c)
      then tbl_insert_or_ignore id (i, cp_hostname c, cp_year c) t else t) cs t) = tbl_count (\<lambda>(h, _, _). h = k) t" for t
    by (induction cs arbitrary: t) (simp_all add: tbl_insert_or_ignore_def)
  then show ?thesis by (simp add: count_host_years_def insert_host_years_def)
qed

definition page_db :: "harvest_result \<Rightarrow> string \<Rightarrow> control_db \<Rightarrow> control_db" where
  "page_db r i d = (if page_committed (hr_state r) then insert_host_years i (hr_capsules r) d else d)"

lemma page_db_frame: "cd_harvests (page_db r i d) = cd_harvests d"
  "k \<noteq> i \<Longrightarrow> count_host_years k (page_db r i d) = count_host_years k d"
  by (simp_all add: page_db_def insert_host_years_frame insert_host_years_other)

lemma page_db_ok: "distinct (cd_host_years d) \<Longrightarrow> distinct (cd_host_years (page_db r i d))"
  "set (cd_host_years (page_db r i d)) \<subseteq> set (cd_host_years d) \<union> {(i, n, y) | n y. year_ok y}"
  by (auto simp: page_db_def insert_host_years_frame)

lemma finish_cases:
  assumes "finish_platform_year_harvest_page E r w ra now d = (res, d')" "harvest_inv E d"
  obtains (failed) e where "res = Inl e" "d' = d"
  | (page) row where "row \<in> set (cd_harvests d)" "harvest_key row = hr_harvest_id r" "harvest_held (hr_harvest_id r) w now row"
      "0 \<le> now" "result_matches r (hv_task row)" "hr_state r = H_RETRYABLE \<longleftrightarrow> ra \<noteq> None" "opt_nonneg ra"
      "hr_state r \<in> set page_states"
      "cd_harvests d' = List.map (\<lambda>x. if harvest_key x = hr_harvest_id r
         then x\<lparr>hv_task := finish_page r ra (count_host_years (hr_harvest_id r) (page_db r (hr_harvest_id r) d)) now (hv_task x),
                hv_last_error := hr_error r\<rparr> else x) (cd_harvests d)"
      "cd_host_years d' = cd_host_years (page_db r (hr_harvest_id r) d)" "res = fst (read_harvest E (hr_harvest_id r) d')"
proof (cases "finish_page_txn E r w ra now d")
  case (Inl e)
  with assms failed show thesis by (auto simp: finish_platform_year_harvest_page_def after_def perform_def)
next
  case (Inr x)
  let ?i = "hr_harvest_id r"
  have u: "uniq harvest_key (cd_harvests d)" and ok: "\<And>r. r \<in> set (cd_harvests d) \<Longrightarrow> harvest_task_init E (hv_task r) = Inr (hv_task r)"
    using assms(2) by (auto simp: harvest_inv_def harvests_ok_def harvest_ok_def Let_def intro: valid_init)
  obtain row where row: "tbl_find (harvest_held ?i w now) (cd_harvests d) = Some row"
    using Inr by (auto simp: finish_page_txn_def split: option.splits)
  have rk: "row \<in> set (cd_harvests d)" "harvest_held ?i w now row" "harvest_key row = ?i"
    using tbl_find_SomeD [OF row] by (auto simp: harvest_held_def Let_def)
  have id: "ht_harvest_id (hv_task row) = ?i" using rk(3) by (simp add: harvest_key_def)
  let ?n = "count_host_years ?i (page_db r ?i d)"
  have d': "d' = (page_db r ?i d)\<lparr>cd_harvests := tbl_update
              (\<lambda>x. harvest_key x = ?i \<and> ht_state (hv_task x) = H_RUNNING \<and> ht_claimed_by (hv_task x) = Some w)
              (\<lambda>x. x\<lparr>hv_task := finish_page r ra ?n now (hv_task x), hv_last_error := hr_error r\<rparr>)
              (cd_harvests (page_db r ?i d))\<rparr>"
      and args: "0 \<le> now" "result_matches r (hv_task row)" "hr_state r = H_RETRYABLE \<longleftrightarrow> ra \<noteq> None" "opt_nonneg ra"
        "hr_state r \<in> set page_states" and res: "res = fst (read_harvest E ?i d')"
    using Inr assms(1) ok [OF rk(1)]
    by (auto simp: finish_page_txn_def row harvest_task_of_def id page_db_def Let_def
        finish_platform_year_harvest_page_def after_def perform_def read_harvest_def query_def)
  have "(harvest_key x = ?i \<and> ht_state (hv_task x) = H_RUNNING \<and> ht_claimed_by (hv_task x) = Some w) = (harvest_key x = ?i)"
    if "x \<in> set (cd_harvests d)" for x
    using that rk harvests.uniqD [OF u, of x row] by (auto simp: harvest_held_def Let_def)
  then have h: "cd_harvests d' = List.map (\<lambda>x. if harvest_key x = ?i
         then x\<lparr>hv_task := finish_page r ra ?n now (hv_task x), hv_last_error := hr_error r\<rparr> else x) (cd_harvests d)"
    unfolding d' page_db_frame by (simp add: tbl_update_def)
  show thesis by (rule page [OF rk(1,3,2) args h _ res]) (simp add: d')
qed

lemma finish_moves:
  assumes inv: "harvest_inv E d" and op: "finish_platform_year_harvest_page E r w ra now d = (res, d')"
    and r: "harvest_result_init r = Inr r"
  shows "harvest_inv E d' \<and> harvest_moves E (Worker w) now d d'"
  using op inv
proof (cases rule: finish_cases)
  case (failed e)
  with inv show ?thesis by (intro same_moves) simp_all
next
  case (page row)
  let ?i = "hr_harvest_id r"
  let ?n = "count_host_years ?i (page_db r ?i d)"
  let ?f = "\<lambda>x. if harvest_key x = ?i then x\<lparr>hv_task := finish_page r ra ?n now (hv_task x), hv_last_error := hr_error r\<rparr> else x"
  have u: "uniq harvest_key (cd_harvests d)" using inv by (simp add: harvest_inv_def harvests_ok_def)
  have step: "hrow_step (Worker w) now x (?f x)" if "x \<in> set (cd_harvests d)" for x
  proof (cases "harvest_key x = ?i")
    case True
    then have "x = row" using harvests.uniqD [OF u that page(1)] page(2) by simp
    moreover have "0 \<le> ?n" by (simp add: count_host_years_def)
    ultimately show ?thesis using True page r by (auto intro!: hrow_step.page)
  qed (simp add: hrow_step.keep)
  have m: "harvest_moves E (Worker w) now d d'" by (rule moves_map [OF page(9) step])
  have key: "harvest_key (?f x) = harvest_key x" for x by (simp add: harvest_key_def finish_page_def)
  have keys: "harvest_key ` set (cd_harvests d') = harvest_key ` set (cd_harvests d)"
    by (simp only: page(9) set_map image_image key)
  have count: "count_host_years k d' = count_host_years k (page_db r ?i d)" for k
    by (simp add: count_host_years_def page(10))
  have hy: "host_years_ok d" using inv by (simp add: harvest_inv_def)
  have "ht_unique_host_years_seen (hv_task x) = count_host_years (harvest_key x) d'" if x: "x \<in> set (cd_harvests d')" for x
  proof -
    obtain x0 where x0: "x0 \<in> set (cd_harvests d)" "x = ?f x0" using x unfolding page(9) set_map by blast
    show ?thesis
    proof (cases "harvest_key x0 = ?i")
      case True
      then show ?thesis using x0(2) key [of x0] by (simp add: count finish_page_def)
    next
      case False
      then show ?thesis using x0 hy by (simp add: count page_db_frame(2) host_years_ok_def)
    qed
  qed
  moreover have "h \<in> harvest_key ` set (cd_harvests d') \<and> year_ok y" if "(h, n, y) \<in> set (cd_host_years d')" for h n y
    using that page_db_ok(2) [of r ?i d] hy page(1,2) unfolding keys page(10) host_years_ok_def by force
  ultimately have "host_years_ok d'"
    using page_db_ok(1) [of d r ?i] hy unfolding host_years_ok_def page(10) by blast
  with m moves_ok(1) [OF m] inv show ?thesis by (simp add: harvest_inv_def)
qed

section \<open>Exposures leave the harvests alone\<close>

lemma record_frame:
  assumes "record_production_exposure_progress i st p now d = (res, d')"
  shows "cd_harvests d' = cd_harvests d" "cd_host_years d' = cd_host_years d"
  using assms by (cases rule: record_cases; simp add: update_exposure_def)+

lemma finalize_frame:
  assumes "finalize_production_exposure i eed hy fr auth now d = Inr (b, d')"
  shows "cd_harvests d' = cd_harvests d" "cd_host_years d' = cd_host_years d" "b \<Longrightarrow> 0 \<le> eed \<and> 0 \<le> fr"
  using assms by (auto simp: finalize_production_exposure_def update_exposure_def split: option.splits if_splits)

lemma harvest_inv_frame: "harvest_inv E d \<Longrightarrow> cd_harvests d' = cd_harvests d \<Longrightarrow> cd_host_years d' = cd_host_years d \<Longrightarrow> harvest_inv E d'"
  using same_moves by blast

lemma moves_frame: "harvest_moves E a now d1 d' \<Longrightarrow> cd_harvests d1 = cd_harvests d \<Longrightarrow> harvest_moves E a now d d'"
  by (simp add: harvest_moves_def)

lemma amend_moves:
  assumes inv: "harvest_inv E d" and fr: "0 \<le> fr" and t: "0 \<le> t" and eed: "\<And>x. harvest_valid E x \<Longrightarrow> 0 \<le> eed x"
  shows "harvest_inv E (update_harvest P (\<lambda>x. x\<lparr>ht_evidence_frontier := fr, ht_final_eed := eed x,
      ht_terminal_reason := reason x, ht_updated_at := t\<rparr>) d) \<and>
    harvest_moves E Admin now d (update_harvest P (\<lambda>x. x\<lparr>ht_evidence_frontier := fr, ht_final_eed := eed x,
      ht_terminal_reason := reason x, ht_updated_at := t\<rparr>) d)"
proof (rule retask_moves [OF inv update_retask])
  fix r assume "r \<in> set (cd_harvests d)"
  then have "harvest_valid E (hv_task r)" using inv by (auto simp: harvest_inv_def harvests_ok_def harvest_ok_def Let_def)
  then show "hrow_step Admin now r (r\<lparr>hv_task := (hv_task r)\<lparr>ht_evidence_frontier := fr, ht_final_eed := eed (hv_task r),
      ht_terminal_reason := reason (hv_task r), ht_updated_at := t\<rparr>\<rparr>)"
    using fr t eed by (intro hrow_step.amend) simp_all
qed simp

lemma set_frontier_moves:
  assumes inv: "harvest_inv E d" and op: "set_frontier i fr t d = Inr ((), d')" and t: "0 \<le> t"
  shows "harvest_inv E d' \<and> harvest_moves E Admin now d d'"
proof -
  have "d' = update_harvest (\<lambda>r. harvest_key r = i) (\<lambda>x. x\<lparr>ht_evidence_frontier := fr, ht_final_eed := ht_final_eed x,
      ht_terminal_reason := ht_terminal_reason x, ht_updated_at := t\<rparr>) d" "0 \<le> fr"
    using op by (auto simp: set_frontier_def update_harvest_def)
  with amend_moves [OF inv, of fr t ht_final_eed "\<lambda>r. harvest_key r = i" ht_terminal_reason now] t show ?thesis by (simp add: harvest_valid_def Let_def)
qed

lemma finalize_row_moves:
  assumes inv: "harvest_inv E d" and "0 \<le> eed" "0 \<le> fr" "0 \<le> t"
  shows "harvest_inv E (update_harvest P (finalize_row eed fr t) d) \<and> harvest_moves E Admin now d (update_harvest P (finalize_row eed fr t) d)"
proof -
  have "finalize_row eed fr t = (\<lambda>x. x\<lparr>ht_evidence_frontier := fr, ht_final_eed := eed,
      ht_terminal_reason := Some ''finalized'', ht_updated_at := t\<rparr>)" by (rule ext) (simp add: finalize_row_def)
  with amend_moves [OF inv, of fr t "\<lambda>_. eed" P "\<lambda>_. Some ''finalized''" now] assms(2-4) show ?thesis by simp
qed

lemma perform_cases:
  assumes "perform t d = (res, d')"
  obtains "d' = d" "\<exists>e. res = Inl e" | x where "t d = Inr (x, d')" "res = Inr x"
  using assms by (cases "t d") (auto simp: perform_def)

lemma after_Inl [simp]: "p d = (Inl e, d1) \<Longrightarrow> after p f d = (Inl e, d1)"
  and after_Inr [simp]: "p d = (Inr x, d1) \<Longrightarrow> after p f d = f x d1"
  by (simp_all add: after_def)

lemma progress_moves:
  assumes inv: "harvest_inv E d" and t: "0 \<le> t2"
    and op: "record_platform_year_exposure_progress E i st rq by0 el fr hy t1 t2 d = (res, d')"
  shows "harvest_inv E d' \<and> harvest_moves E Admin now d d'"
proof -
  let ?rest = "after (perform (set_frontier i fr t2)) (\<lambda>_. read_harvest E i)"
  have rest: "harvest_inv E d' \<and> harvest_moves E Admin now d d'"
    if "?rest d1 = (r, d')" "cd_harvests d1 = cd_harvests d" "cd_host_years d1 = cd_host_years d" for d1 r
  proof -
    have inv1: "harvest_inv E d1" by (rule harvest_inv_frame [OF inv that(2,3)])
    have "d' = d1 \<or> set_frontier i fr t2 d1 = Inr ((), d')"
      using that(1) by (cases "set_frontier i fr t2 d1") (auto simp: after_def perform_def read_harvest_def query_def)
    then have "harvest_inv E d' \<and> harvest_moves E Admin now d1 d'"
      using set_frontier_moves [OF inv1 _ t] same_moves [OF inv1] by auto
    with moves_frame that(2) show ?thesis by blast
  qed
  show ?thesis
  proof (cases "bindr (get_platform_year_harvest E i d) known_harvest")
    case (Inl e)
    with op same_moves [OF inv] show ?thesis by (simp add: record_platform_year_exposure_progress_def after_def query_def)
  next
    case (Inr t)
    show ?thesis
    proof (cases "hi_source_key (ht_identity t) = []")
      case True
      with op Inr rest [of d res] show ?thesis
        by (simp add: record_platform_year_exposure_progress_def after_def [of "query _"] query_def)
    next
      case False
      obtain r1 d1 where r1: "record_production_exposure_progress (hi_exposure_id (ht_identity t)) st (provider_progress rq by0 el fr hy) t1 d = (r1, d1)"
        by fastforce
      note f = record_frame [OF r1]
      show ?thesis
      proof (cases r1)
        case (Inl e)
        then have "d' = d1" using op False Inr r1 by (simp add: record_platform_year_exposure_progress_def after_def query_def)
        with f same_moves [OF inv] show ?thesis by simp
      next
        case (Inr x)
        with op False \<open>bindr _ _ = Inr t\<close> r1 have "?rest d1 = (res, d')"
          by (simp add: record_platform_year_exposure_progress_def after_def [of "query _"] query_def)
        with rest f show ?thesis by blast
      qed
    qed
  qed
qed

lemma publish_moves:
  assumes inv: "harvest_inv E d" and op: "publish_platform_year_final x eed hy fr t d = Inr (b, d')" and t: "0 \<le> t"
  shows "harvest_inv E d' \<and> harvest_moves E Admin now d d'"
proof -
  have "d' = d \<or> 0 \<le> eed \<and> 0 \<le> fr \<and> (\<exists>P. d' = update_harvest P (finalize_row eed fr t) d)"
    using op by (auto simp: publish_platform_year_final_def split: option.splits if_splits)
  then show ?thesis using finalize_row_moves [OF inv] same_moves [OF inv] t by auto
qed

lemma finalize_moves_harvest:
  assumes inv: "harvest_inv E d" and op: "finalize_platform_year_harvest E i eed hy fr digest t1 t2 t3 d = (res, d')" and t: "0 \<le> t3"
  shows "harvest_inv E d' \<and> harvest_moves E Admin now d d'"
proof -
  have same: ?thesis if "cd_harvests d' = cd_harvests d" "cd_host_years d' = cd_host_years d"
    using same_moves [OF inv that] .
  let ?last = "\<lambda>finalized. if \<not> finalized then query (\<lambda>_. Inr False)
             else perform (\<lambda>d. Inr (True, update_harvest (\<lambda>r. harvest_key r = i) (finalize_row eed fr t3) d))"
  have last: ?thesis if "after (perform (finalize_production_exposure x eed hy fr auth t2)) ?last d1 = (r, d')"
    "cd_harvests d1 = cd_harvests d" "cd_host_years d1 = cd_host_years d" for x auth d1 r
  proof (cases "finalize_production_exposure x eed hy fr auth t2 d1")
    case (Inl e)
    with that(1) have "d' = d1" by (simp add: after_def perform_def)
    with that(2,3) show ?thesis by (intro same) simp_all
  next
    case (Inr y)
    obtain b d2 where y: "y = (b, d2)" by (cases y)
    note f = finalize_frame [OF Inr [unfolded y]]
    show ?thesis
    proof (cases b)
      case False
      with that(1) Inr y have "d' = d2" by (simp add: after_def perform_def query_def)
      with f that(2,3) show ?thesis by (intro same) simp_all
    next
      case True
      with that(1) Inr y have d': "d' = update_harvest (\<lambda>r. harvest_key r = i) (finalize_row eed fr t3) d2"
        by (simp add: after_def perform_def)
      have "harvest_inv E d2" by (rule harvest_inv_frame [OF inv]) (simp_all add: f that(2,3))
      from finalize_row_moves [OF this] f(3) True t have "harvest_inv E d' \<and> harvest_moves E Admin now d2 d'" by (simp add: d')
      with moves_frame [of E Admin now d2 d' d] f(1) that(2) show ?thesis by simp
    qed
  qed
  show ?thesis
  proof (cases "bindr (get_platform_year_harvest E i d) known_harvest")
    case (Inl e)
    with op have "d' = d" by (simp add: finalize_platform_year_harvest_def after_def query_def)
    then show ?thesis by (intro same) simp_all
  next
    case (Inr t)
    note known = this
    let ?x = "hi_exposure_id (ht_identity t)"
    show ?thesis
    proof (cases "ht_state t \<noteq> H_COMPLETE \<or> hi_source_key (ht_identity t) = [] \<or> hi_authority_digest (ht_identity t) \<noteq> digest")
      case True
      with op known have "d' = d" by (simp add: finalize_platform_year_harvest_def after_def query_def)
      then show ?thesis by (intro same) simp_all
    next
      case run: False
      show ?thesis
      proof (cases "\<exists>e. get_production_exposure ?x d = Inr (Some e) \<and> (if authority_of e = (digest, digest) then Inr digest
                    else platform_authority_digest E (pe_baseline_signature e) (pe_model_signature e)) = Inr digest")
        case False
        with op known run have "d' = d"
          by (auto simp: finalize_platform_year_harvest_def after_def query_def split: sum.splits option.splits if_splits)
        then show ?thesis by (intro same) simp_all
      next
        case True
        then obtain e where e: "get_production_exposure ?x d = Inr (Some e)" "(if authority_of e = (digest, digest) then Inr digest
                    else platform_authority_digest E (pe_baseline_signature e) (pe_model_signature e)) = Inr digest" by blast
        obtain r1 d1 where r1: "record_production_exposure_progress ?x E_VALIDATING
            (provider_progress (ht_requests t) (ht_bytes t) (ht_elapsed_seconds t) fr hy) t1 d = (r1, d1)" by fastforce
        note f = record_frame [OF r1]
        have "(pe_state e = E_FINAL_CLOSED \<and> after (perform (finalize_production_exposure ?x eed hy fr (authority_of e) t2)) ?last d = (res, d')) \<or>
            (\<exists>x. r1 = Inr x \<and> after (perform (finalize_production_exposure ?x eed hy fr (authority_of e) t2)) ?last d1 = (res, d')) \<or> d' = d1"
          using op known run e r1
          by (cases r1; cases "pe_state e = E_FINAL_CLOSED")
             (simp_all add: finalize_platform_year_harvest_def after_def [of "query _"] query_def del: if_split)
        then show ?thesis using last f same by blast
      qed
    qed
  qed
qed

section \<open>The contract\<close>

lemma harvest_step_moves: "harvest_step E a now d d' \<Longrightarrow> harvest_inv E d \<Longrightarrow> harvest_inv E d' \<and> harvest_moves E a now d d'"
  by (induction rule: harvest_step.induct)
     (rule enqueue_moves claim_moves renew_moves_harvest finish_moves progress_moves finalize_moves_harvest publish_moves; assumption)+

lemma empty_harvest_inv: "harvest_inv E empty_control"
  by (simp add: harvest_inv_def harvests_ok_def host_years_ok_def empty_control_def)

lemma harvest_leases: "harvest_inv E d \<Longrightarrow> spec_inv final_harvest (harvest_abs d)"
  unfolding spec_inv_def harvest_abs_def
proof (intro allI impI)
  fix k t assume inv: "harvest_inv E d" and t: "map_option harvest_ticket (tbl_find (\<lambda>r. harvest_key r = k) (cd_harvests d)) = Some t"
    "tt_lease t \<noteq> None"
  then obtain r where "r \<in> set (cd_harvests d)" "t = harvest_ticket r" by (auto dest: tbl_find_SomeD)
  with inv t(2) show "\<not> final_harvest (tt_state t)"
    by (auto simp: harvest_inv_def harvests_ok_def harvest_ok_def harvest_ticket_def final_harvest_def Let_def split: option.splits)
qed

interpretation harvest: visibility "\<lambda>d. d = empty_control" "harvest_step E" "harvest_inv E" final_harvest harvest_abs for E
proof
  show "harvest_inv E d" if "d = empty_control" for d using that empty_harvest_inv by simp
  show "harvest_inv E t" if "harvest_inv E s" "harvest_step E a now s t" for a now s t
    using that harvest_step_moves by blast
  show "spec_inv final_harvest (harvest_abs s)" if "harvest_inv E s" for s using that by (rule harvest_leases)
  show "spec_step final_harvest a now (harvest_abs s) (harvest_abs t)" if "harvest_inv E s" "harvest_step E a now s t" for a now s t
    using that harvest_step_moves moves_ok(2) unfolding harvest_inv_def by blast
qed

end
