(* ===== verification/Harvest_Store_Properties.thy ===== *)
theory Harvest_Store_Properties
  imports Harvest_Store_Invariant Planner
begin

text \<open>
  Properties of the platform harvests of the control store, on the histories of \<open>harvest_step\<close>.
\<close>

lemma harvest_reached_inv: "run (harvest_step E) as empty_control d \<Longrightarrow> harvest_inv E d"
  using harvest.run_inv empty_harvest_inv by blast

lemma harvest_abs_row: "harvest_inv E d \<Longrightarrow> r \<in> set (cd_harvests d) \<Longrightarrow> harvest_abs d (harvest_key r) = Some (harvest_ticket r)"
  using harvests.find_key_iff [of "cd_harvests d" "harvest_key r" r]
  by (simp add: harvest_abs_def harvest_inv_def harvests_ok_def)

lemma harvest_abs_SomeE:
  assumes "harvest_abs d k = Some t"
  obtains r where "r \<in> set (cd_harvests d)" "harvest_key r = k" "harvest_ticket r = t"
  using assms by (auto simp: harvest_abs_def dest: tbl_find_SomeD)

lemma harvest_row_moves:
  assumes inv: "harvest_inv E d" and step: "harvest_step E a now d d'"
    and r: "r \<in> set (cd_harvests d)" "r' \<in> set (cd_harvests d')" "harvest_key r' = harvest_key r"
  shows "hrow_step a now r r'"
proof -
  have m: "harvest_inv E d'" "harvest_moves E a now d d'" using harvest_step_moves [OF step inv] by auto
  then obtain f new where f: "cd_harvests d' = List.map f (cd_harvests d) @ new" "\<And>r. r \<in> set (cd_harvests d) \<Longrightarrow> hrow_step a now r (f r)"
    unfolding harvest_moves_def by blast
  have u: "uniq harvest_key (cd_harvests d')" using m(1) by (simp add: harvest_inv_def harvests_ok_def)
  have "f r \<in> set (cd_harvests d')" "harvest_key (f r) = harvest_key r" using r(1) f hrow_step_key [OF f(2)] by auto
  then have "r' = f r" using harvests.uniqD [OF u r(2)] r(3) by simp
  with f(2) r(1) show ?thesis by simp
qed

lemma run_append: "run step as s t \<Longrightarrow> run step bs t u \<Longrightarrow> run step (as @ bs) s u"
  by (induction rule: run.induct) (auto intro: run.intros)

section \<open>A store with one harvest\<close>

text \<open>The digest of the demonstration is the identity.\<close>

definition demo_codec :: codec where
  "demo_codec = \<lparr>sha256 = (\<lambda>s. s), float_repr = (\<lambda>_. [])\<rparr>"

definition demo_identity :: harvest_identity where
  "demo_identity = \<lparr>hi_provider = ''w'', hi_subject = ''a.com'', hi_target_year = 1998, hi_request_template_hash = ''h'',
     hi_policy_version = ''v'', hi_source_key = [], hi_reservoir_id = [], hi_exposure_id = [], hi_authority_digest = []\<rparr>"

definition demo_id :: string where
  "demo_id = ''platform-year:'' @ ascii_json demo_codec (identity_json demo_identity ''a.com'')"

definition demo_harvest :: harvest_row where
  "demo_harvest = \<lparr>hv_task = seed_task demo_id demo_identity [] 1, hv_last_error = None\<rparr>"

definition demo_harvests :: control_db where
  "demo_harvests = empty_control\<lparr>cd_harvests := [demo_harvest]\<rparr>"

definition demo_claimed :: control_db where
  "demo_claimed = empty_control\<lparr>cd_harvests := [demo_harvest\<lparr>hv_task := claim_harvest ''w1'' 12 2 (hv_task demo_harvest)\<rparr>]\<rparr>"

definition demo_page :: harvest_result where
  "demo_page = \<lparr>hr_harvest_id = demo_id, hr_provider = ''w'', hr_subject = ''a.com'', hr_target_year = 1998,
     hr_request_template_hash = ''h'', hr_policy_version = ''v'', hr_resume_key_used = None, hr_state = H_COMPLETE,
     hr_next_resume_key = None, hr_capsules = [], hr_rows_seen = 3, hr_requests = 1, hr_bytes = 10,
     hr_elapsed_seconds = 1, hr_exhaustive = True, hr_error = None\<rparr>"

lemma demo_identified: "platform_year_harvest_id demo_codec demo_identity = Inr demo_id"
proof -
  have "\<not> blank ''w''" "\<not> blank ''h''" "\<not> blank ''v''" by (simp_all add: blank_iff py_space_def Let_def)
  then show ?thesis
    by (simp add: platform_year_harvest_id_def demo_identity_def demo_host year_ok_def lineage_complete_def lineage_def demo_id_def demo_codec_def)
qed

lemma demo_task_valid: "harvest_valid demo_codec (hv_task demo_harvest)"
  using demo_identified demo_host
  by (simp add: harvest_valid_def demo_harvest_def seed_task_def demo_identity_def year_ok_def lineage_complete_def lineage_def Let_def)

lemma demo_enqueue: "\<exists>t. enqueue_platform_year_harvest demo_codec demo_identity [] 1 empty_control = (Inr t, demo_harvests)"
proof -
  have seed: "harvest_task_init demo_codec (seed_task demo_id demo_identity [] 0) = Inr (seed_task demo_id demo_identity [] 0)"
    using demo_task_valid by (intro valid_init) (simp add: harvest_valid_def demo_harvest_def seed_task_def Let_def)
  have cs: "cd_harvests empty_control = []" by (simp add: empty_control_def)
  have ident: "ht_identity (seed_task demo_id demo_identity [] 0) = demo_identity" by (simp add: seed_task_def)
  have lin: "lineage_complete (lineage demo_identity)" by (simp add: lineage_complete_def lineage_def demo_identity_def)
  have txn: "enqueue_txn demo_codec demo_identity [] 1 empty_control = Inr (demo_id, demo_harvests)"
    by (simp add: enqueue_txn_def lin demo_identified seed ident cs tbl_insert_or_ignore_def)
       (simp add: demo_harvests_def demo_harvest_def)
  have "harvest_key demo_harvest = demo_id" by (simp add: harvest_key_def demo_harvest_def seed_task_def)
  then have "tbl_find (\<lambda>r. harvest_key r = demo_id) (cd_harvests demo_harvests) = Some demo_harvest"
    by (simp add: demo_harvests_def tbl_find_def)
  then show ?thesis using valid_init [OF demo_task_valid]
    by (simp add: enqueue_platform_year_harvest_def after_def perform_def txn read_harvest_def query_def
        get_platform_year_harvest_def harvest_task_of_def found_def)
qed

lemma demo_harvest_claimable: "harvest_claimable 2 [] demo_harvest"
  by (simp add: harvest_claimable_def demo_harvest_def seed_task_def claimable_harvest_states_def Let_def)

lemma demo_harvest_claim: "claim_platform_year_harvests demo_codec ''w1'' 1 10 [] 2 demo_harvests =
    Inr ([claim_harvest ''w1'' 12 2 (hv_task demo_harvest)], demo_claimed)"
proof -
  let ?t = "claim_harvest ''w1'' 12 2 (hv_task demo_harvest)"
  have "harvest_ok demo_codec demo_harvest"
    using demo_task_valid by (simp add: harvest_ok_def Let_def) (simp add: demo_harvest_def seed_task_def)
  then have "harvest_ok demo_codec (demo_harvest\<lparr>hv_task := ?t\<rparr>)"
    using hrow_step_ok [OF hrow_step.take [OF demo_harvest_claimable]] by simp
  then have t: "harvest_task_init demo_codec ?t = Inr ?t"
    by (intro valid_init) (simp add: harvest_ok_def Let_def)
  have w: "\<not> blank ''w1''" by (simp add: blank_iff py_space_def Let_def)
  have rows: "harvests_to_claim 1 [] 2 demo_harvests = [demo_harvest]"
    using demo_harvest_claimable by (simp add: harvests_to_claim_def demo_harvests_def tbl_order_by_def)
  have "update_harvest (\<lambda>x. harvest_key x = harvest_key demo_harvest) (claim_harvest ''w1'' 12 2) demo_harvests = demo_claimed"
    by (simp add: update_harvest_def tbl_update_def demo_harvests_def demo_claimed_def)
  then show ?thesis
    by (simp add: claim_platform_year_harvests_def Let_def harvest_task_of_def w rows dedup_def valid_init [OF demo_task_valid] t)
qed

lemma demo_harvest_runs:
  "run (harvest_step demo_codec) [(Admin, 1)] empty_control demo_harvests"
  "run (harvest_step demo_codec) [(Admin, 1), (Worker ''w1'', 2)] empty_control demo_claimed"
proof -
  obtain t where t: "enqueue_platform_year_harvest demo_codec demo_identity [] 1 empty_control = (Inr t, demo_harvests)"
    using demo_enqueue by blast
  show "run (harvest_step demo_codec) [(Admin, 1)] empty_control demo_harvests"
    "run (harvest_step demo_codec) [(Admin, 1), (Worker ''w1'', 2)] empty_control demo_claimed"
    by (rule run.go, rule harvest_step.enqueue [OF t], rule run.stop)
       (rule run.go, rule harvest_step.enqueue [OF t], rule run.go, rule harvest_step.claim [OF demo_harvest_claim], rule run.stop)
qed

definition demo_finished :: harvest_row where
  "demo_finished = \<lparr>hv_task = finish_page demo_page None 0 3 (claim_harvest ''w1'' 12 2 (hv_task demo_harvest)), hv_last_error = None\<rparr>"

lemma demo_harvest_finish: "\<exists>res. finish_platform_year_harvest_page demo_codec demo_page ''w1'' None 3 demo_claimed =
    (res, empty_control\<lparr>cd_harvests := [demo_finished]\<rparr>)"
proof -
  let ?t = "claim_harvest ''w1'' 12 2 (hv_task demo_harvest)"
  let ?r = "demo_harvest\<lparr>hv_task := ?t\<rparr>"
  have claimed: "cd_harvests demo_claimed = [?r]" "cd_host_years demo_claimed = []" "demo_claimed\<lparr>cd_host_years := []\<rparr> = demo_claimed" by (simp_all add: demo_claimed_def empty_control_def)
  have "harvest_ok demo_codec demo_harvest"
    using demo_task_valid by (simp add: harvest_ok_def Let_def) (simp add: demo_harvest_def seed_task_def)
  then have "harvest_ok demo_codec ?r" using hrow_step_ok [OF hrow_step.take [OF demo_harvest_claimable]] by simp
  then have t: "harvest_task_of demo_codec ?r = Inr ?t" using valid_init by (simp add: harvest_task_of_def harvest_ok_def Let_def)
  have w: "\<not> blank ''w1''" by (simp add: blank_iff py_space_def Let_def)
  have task: "ht_harvest_id ?t = demo_id" "ht_identity ?t = demo_identity" "ht_resume_key ?t = None" "ht_state ?t = H_RUNNING"
      "ht_claimed_by ?t = Some ''w1''" "ht_lease_expires_at ?t = Some 12"
    by (simp_all add: claim_harvest_def demo_harvest_def seed_task_def)
  have page: "hr_harvest_id demo_page = demo_id" "hr_state demo_page = H_COMPLETE" "hr_capsules demo_page = []" "hr_error demo_page = None"
    by (simp_all add: demo_page_def)
  have match: "result_matches demo_page ?t" by (simp add: result_matches_def task) (simp add: demo_page_def demo_identity_def)
  have "tbl_find (harvest_held demo_id ''w1'' 3) (cd_harvests demo_claimed) = Some ?r"
    using task by (simp add: claimed tbl_find_def harvest_held_def harvest_key_def)
  then have "finish_page_txn demo_codec demo_page ''w1'' None 3 demo_claimed = Inr ((), demo_claimed\<lparr>cd_harvests := [demo_finished]\<rparr>)"
    using t match task
    by (simp add: finish_page_txn_def Let_def w page page_states_def page_committed_def insert_host_years_def claimed
        count_host_years_def tbl_count_def tbl_update_def harvest_key_def) (simp add: demo_finished_def demo_harvest_def claimed(3))
  moreover have "demo_claimed\<lparr>cd_harvests := x\<rparr> = empty_control\<lparr>cd_harvests := x\<rparr>" for x by (simp add: demo_claimed_def)
  ultimately show ?thesis
    by (simp add: finish_platform_year_harvest_page_def after_def perform_def read_harvest_def query_def)
qed

lemma demo_page_valid: "harvest_result_init demo_page = Inr demo_page"
  using demo_host by (simp add: harvest_result_init_def demo_page_def page_states_def continuation_ok_def page_capsules_ok_def year_ok_def)

section \<open>Properties\<close>

text \<open>
  C22: the stored harvests are well formed. In every reachable store each row is a valid task whose
  identifier is the digest of its identity, so reading it back never raises; it is running exactly when
  it has a claimant and a deadline, has a completion time exactly when it is complete, has a continuation
  only after its first page, and counts exactly the distinct host-years its pages committed.
\<close>

theorem stored_harvests_valid:
  assumes "run (harvest_step E) as empty_control d"
  shows "uniq harvest_key (cd_harvests d) \<and> distinct (cd_host_years d) \<and> (\<forall>r \<in> set (cd_harvests d).
    harvest_task_of E r = Inr (hv_task r) \<and>
    platform_year_harvest_id E (ht_identity (hv_task r)) = Inr (harvest_key r) \<and>
    (ht_state (hv_task r) = H_RUNNING \<longleftrightarrow> ht_claimed_by (hv_task r) \<noteq> None) \<and>
    (ht_claimed_by (hv_task r) = None \<longleftrightarrow> ht_lease_expires_at (hv_task r) = None) \<and>
    (ht_state (hv_task r) = H_COMPLETE \<longleftrightarrow> ht_completed_at (hv_task r) \<noteq> None) \<and>
    (ht_resume_key (hv_task r) \<noteq> None \<longrightarrow> ht_state (hv_task r) \<noteq> H_READY \<and> ht_state (hv_task r) \<noteq> H_COMPLETE) \<and>
    ht_unique_host_years_seen (hv_task r) = count_host_years (harvest_key r) d)"
proof -
  have inv: "harvests_ok E d" "host_years_ok d" using harvest_reached_inv [OF assms] by (simp_all add: harvest_inv_def)
  have "harvest_task_of E r = Inr (hv_task r)" "platform_year_harvest_id E (ht_identity (hv_task r)) = Inr (harvest_key r)"
    if r: "r \<in> set (cd_harvests d)" for r
  proof -
    have v: "harvest_valid E (hv_task r)" using inv(1) r by (simp add: harvests_ok_def harvest_ok_def Let_def)
    then show "harvest_task_of E r = Inr (hv_task r)" by (simp add: harvest_task_of_def valid_init)
    show "platform_year_harvest_id E (ht_identity (hv_task r)) = Inr (harvest_key r)"
      using v by (simp add: harvest_valid_def harvest_key_def Let_def)
  qed
  with inv show ?thesis by (auto simp: harvests_ok_def host_years_ok_def harvest_ok_def Let_def)
qed

theorem stored_harvests_valid_witness:
  "harvest_task_of demo_codec demo_harvest = Inr (hv_task demo_harvest) \<and> demo_harvest \<in> set (cd_harvests demo_harvests)"
  using stored_harvests_valid [OF demo_harvest_runs(1)] by (simp add: demo_harvests_def)

text \<open>Claims and renewals leave the continuation and the page number of every harvest alone.\<close>

lemma page_kept:
  assumes inv: "harvest_inv E d" and rows: "r \<in> set (cd_harvests d)" "r' \<in> set (cd_harvests d')" "harvest_key r' = harvest_key r"
    and map: "cd_harvests d' = List.map f (cd_harvests d)"
    and same: "\<And>x. harvest_key (f x) = harvest_key x \<and> ht_resume_key (hv_task (f x)) = ht_resume_key (hv_task x) \<and>
      ht_page_number (hv_task (f x)) = ht_page_number (hv_task x)"
  shows "ht_resume_key (hv_task r') = ht_resume_key (hv_task r) \<and> ht_page_number (hv_task r') = ht_page_number (hv_task r)"
proof -
  obtain x where x: "x \<in> set (cd_harvests d)" "r' = f x" using rows(2) unfolding map by auto
  have "uniq harvest_key (cd_harvests d)" using inv by (simp add: harvest_inv_def harvests_ok_def)
  then have "x = r" using harvests.uniqD x rows(1,3) same by metis
  with x(2) same show ?thesis by simp
qed

lemma page_kept_claim:
  assumes inv: "harvest_inv E d" and rows: "r \<in> set (cd_harvests d)" "r' \<in> set (cd_harvests d')" "harvest_key r' = harvest_key r"
    and op: "claim_platform_year_harvests E w limit ls ps now d = Inr (ts, d')"
  shows "ht_resume_key (hv_task r') = ht_resume_key (hv_task r) \<and> ht_page_number (hv_task r') = ht_page_number (hv_task r)"
proof (cases "limit < 1")
  case True
  then have "d' = d" using op by (simp add: claim_platform_year_harvests_def)
  then show ?thesis by (intro page_kept [OF inv rows, where f = id]) simp_all
next
  case False
  show ?thesis
    by (rule page_kept [OF inv rows claim_shape(1) [OF inv op False]])
       (simp add: retask_def harvest_key_def claim_harvest_def)
qed

lemma page_kept_renew:
  assumes inv: "harvest_inv E d" and rows: "r \<in> set (cd_harvests d)" "r' \<in> set (cd_harvests d')" "harvest_key r' = harvest_key r"
    and op: "renew_platform_year_harvest i w ls now d = Inr (t, d')"
  shows "ht_resume_key (hv_task r') = ht_resume_key (hv_task r) \<and> ht_page_number (hv_task r') = ht_page_number (hv_task r)"
proof -
  have d': "d' = update_harvest (harvest_held i w now) (\<lambda>t. t\<lparr>ht_lease_expires_at := Some (now + ls), ht_updated_at := now\<rparr>) d"
    using op by (auto simp: renew_platform_year_harvest_def)
  show ?thesis
    by (rule page_kept [OF inv rows]) (unfold d', rule update_retask(1), simp add: retask_def harvest_key_def)
qed

lemma page_step_finishes:
  assumes inv: "harvest_inv E d" and step: "harvest_step E a now d d'"
    and rows: "r \<in> set (cd_harvests d)" "r' \<in> set (cd_harvests d')" "harvest_key r' = harvest_key r"
    and moved: "ht_resume_key (hv_task r') \<noteq> ht_resume_key (hv_task r) \<or> ht_page_number (hv_task r') \<noteq> ht_page_number (hv_task r)"
  shows "\<exists>res w ra x. a = Worker w \<and> finish_platform_year_harvest_page E res w ra now d = (x, d')"
proof -
  have "a \<noteq> Admin"
    using harvest_row_moves [OF inv step rows] moved by (cases rule: hrow_step.cases) (auto simp: claim_harvest_def)
  with step show ?thesis
  proof (cases rule: harvest_step.cases)
    case (claim w limit ls ps ts)
    with page_kept_claim [OF inv rows claim(2)] moved show ?thesis by simp
  next
    case (renew i w ls t)
    with page_kept_renew [OF inv rows renew(2)] moved show ?thesis by simp
  qed auto
qed

text \<open>What a call that moves a page must agree with, field by field.\<close>

definition page_fits :: "harvest_result \<Rightarrow> string \<Rightarrow> time \<Rightarrow> harvest_row \<Rightarrow> harvest_row \<Rightarrow> bool" where
  "page_fits res w now r r' \<longleftrightarrow> (let t = hv_task r; t' = hv_task r'; i = ht_identity t in
     hr_harvest_id res = harvest_key r \<and> ht_state t = H_RUNNING \<and> ht_claimed_by t = Some w \<and>
     (\<exists>u. ht_lease_expires_at t = Some u \<and> now < u) \<and>
     hr_resume_key_used res = ht_resume_key t \<and> hr_provider res = hi_provider i \<and> hr_subject res = hi_subject i \<and>
     hr_target_year res = hi_target_year i \<and> hr_request_template_hash res = hi_request_template_hash i \<and>
     hr_policy_version res = hi_policy_version i \<and>
     hr_state res \<in> {H_PARTIAL, H_COMPLETE} \<and> ht_state t' = hr_state res \<and> ht_claimed_by t' = None \<and>
     ht_page_number t' = ht_page_number t + 1 \<and>
     ht_resume_key t' = (if hr_state res = H_PARTIAL then hr_next_resume_key res else None))"

text \<open>
  C23: a page is committed by the live claimant that resumed at the stored continuation. If an operation of
  the store changes the continuation or the page number of a harvest, it is the finish of a page by a worker; and
  whatever result and worker that call was given, they fit the row it found: the call names this harvest,
  which was running under the worker's unexpired claim; the result carries the harvest's own provider,
  subject, year, request template and policy; the continuation it says it resumed from is the stored one. The page was
  partial or complete, the page number grew by one, the claim is over, and the new continuation is the result's
  next one after a partial page and none after a complete one.
\<close>

theorem harvest_page_fenced:
  assumes "run (harvest_step E) as empty_control d" "harvest_step E a now d d'"
    and "r \<in> set (cd_harvests d)" "r' \<in> set (cd_harvests d')" "harvest_key r' = harvest_key r"
    and "ht_resume_key (hv_task r') \<noteq> ht_resume_key (hv_task r) \<or> ht_page_number (hv_task r') \<noteq> ht_page_number (hv_task r)"
  shows "(\<exists>res w ra x. a = Worker w \<and> finish_platform_year_harvest_page E res w ra now d = (x, d')) \<and>
    (\<forall>res w ra x. finish_platform_year_harvest_page E res w ra now d = (x, d') \<longrightarrow> page_fits res w now r r')"
proof (intro conjI allI impI)
  have inv: "harvest_inv E d" by (rule harvest_reached_inv [OF assms(1)])
  then have u: "uniq harvest_key (cd_harvests d)" by (simp add: harvest_inv_def harvests_ok_def)
  show "\<exists>res w ra x. a = Worker w \<and> finish_platform_year_harvest_page E res w ra now d = (x, d')"
    by (rule page_step_finishes [OF inv assms(2-6)])
  fix res w ra x
  assume "finish_platform_year_harvest_page E res w ra now d = (x, d')"
  then show "page_fits res w now r r'" using inv
  proof (cases rule: finish_cases)
    case (failed e)
    with assms(4) have "r' \<in> set (cd_harvests d)" by simp
    then have "r' = r" by (rule harvests.uniqD [OF u _ assms(3,5)])
    with assms(6) show ?thesis by simp
  next
    case (page row)
    let ?f = "\<lambda>x. if harvest_key x = hr_harvest_id res then x\<lparr>hv_task := finish_page res ra
        (count_host_years (hr_harvest_id res) (page_db res (hr_harvest_id res) d)) now (hv_task x), hv_last_error := hr_error res\<rparr> else x"
    have key: "harvest_key (?f x) = harvest_key x" for x by (simp add: harvest_key_def finish_page_def)
    obtain x where x: "x \<in> set (cd_harvests d)" "r' = ?f x" using assms(4) unfolding page(9) set_map by blast
    have "harvest_key x = harvest_key r" using assms(5) key [of x] unfolding x(2) by simp
    then have "x = r" by (rule harvests.uniqD [OF u x(1) assms(3)])
    with x(2) have r': "r' = ?f r" by (simp only:)
    have k: "harvest_key r = hr_harvest_id res"
    proof (rule ccontr)
      assume "harvest_key r \<noteq> hr_harvest_id res"
      with r' have "r' = r" by (simp only: if_False)
      with assms(6) show False by simp
    qed
    then have "row = r" using harvests.uniqD [OF u page(1) assms(3)] page(2) by simp
    with page(3,5) have held: "harvest_held (hr_harvest_id res) w now r" and m: "result_matches res (hv_task r)" by simp_all
    obtain n where t': "hv_task r' = finish_page res ra n now (hv_task r)" using r' k by simp
    have "page_committed (hr_state res)"
      using assms(6) unfolding t' by (auto simp: finish_page_def next_cursor_def page_committed_def split: if_splits)
    then have "hr_state res \<in> {H_PARTIAL, H_COMPLETE}" "ht_page_number (hv_task r') = ht_page_number (hv_task r) + 1"
      "ht_resume_key (hv_task r') = (if hr_state res = H_PARTIAL then hr_next_resume_key res else None)"
      "ht_state (hv_task r') = hr_state res" "ht_claimed_by (hv_task r') = None"
      unfolding t' by (auto simp: finish_page_def next_cursor_def page_committed_def)
    with k held m show ?thesis
      by (simp add: page_fits_def Let_def harvest_held_def result_matches_def split: option.splits)
  qed
qed

theorem harvest_page_fenced_witness:
  "ht_page_number (hv_task demo_finished) = 1 \<and> hr_resume_key_used demo_page = None \<and>
   hr_harvest_id demo_page = harvest_key demo_harvest"
proof -
  obtain res where res: "finish_platform_year_harvest_page demo_codec demo_page ''w1'' None 3 demo_claimed =
      (res, empty_control\<lparr>cd_harvests := [demo_finished]\<rparr>)" using demo_harvest_finish by blast
  have n: "ht_page_number (hv_task demo_finished) = 1"
    by (simp add: demo_finished_def finish_page_def demo_page_def page_committed_def claim_harvest_def demo_harvest_def seed_task_def)
  let ?r = "demo_harvest\<lparr>hv_task := claim_harvest ''w1'' 12 2 (hv_task demo_harvest)\<rparr>"
  have r: "ht_page_number (hv_task ?r) = 0" "harvest_key ?r = harvest_key demo_harvest" "ht_resume_key (hv_task ?r) = None"
      "harvest_key demo_finished = harvest_key ?r"
    by (simp_all add: claim_harvest_def demo_harvest_def seed_task_def harvest_key_def demo_finished_def finish_page_def)
  have fits: "page_fits demo_page ''w1'' 3 ?r demo_finished"
    by (rule conjunct2 [OF harvest_page_fenced [OF demo_harvest_runs(2) harvest_step.finish [OF res demo_page_valid], of ?r demo_finished],
          rule_format, OF _ _ _ _ res])
       (use r(1,4) n in \<open>simp_all only: r demo_claimed_def simp_thms\<close>, simp_all)
  then have "hr_harvest_id demo_page = harvest_key ?r" "hr_resume_key_used demo_page = ht_resume_key (hv_task ?r)"
    unfolding page_fits_def Let_def by blast+
  with r(2,3) n show ?thesis by (simp only: simp_thms)
qed

text \<open>
  a claimed harvest is worked by one worker at a time. Once a worker has claimed a harvest, no
  history of steps by others before the deadline of the claim changes its state, its claimant or its
  deadline.
\<close>

theorem harvest_claim_exclusive:
  assumes "run (harvest_step E) before empty_control d"
    and "claim_platform_year_harvests E w limit seconds providers now d = Inr (ts, d1)" "t \<in> set ts"
    and "run (harvest_step E) as d1 d2" "\<forall>(a, s) \<in> set as. a \<noteq> Worker w \<and> a \<noteq> Override \<and> s < now + seconds"
  shows "\<exists>r \<in> set (cd_harvests d2). harvest_key r = ht_harvest_id t \<and> ht_state (hv_task r) = H_RUNNING \<and>
    ht_claimed_by (hv_task r) = Some w \<and> ht_lease_expires_at (hv_task r) = Some (now + seconds)"
proof -
  have inv: "harvest_inv E d" by (rule harvest_reached_inv [OF assms(1)])
  have inv1: "harvest_inv E d1" using claim_moves [OF inv assms(2)] by simp
  obtain r1 where r1: "r1 \<in> set (cd_harvests d1)" "hv_task r1 = t" "ht_state t = H_RUNNING" "ht_claimed_by t = Some w"
      "ht_lease_expires_at t = Some (now + seconds)"
    using claimed_rows [OF inv assms(2,3)] by blast
  have "harvest_abs d1 (ht_harvest_id t) = Some (harvest_ticket r1)"
    using harvest_abs_row [OF inv1 r1(1)] r1(2) by (simp add: harvest_key_def)
  then have "harvest_abs d2 (ht_harvest_id t) = Some (harvest_ticket r1)"
    by (rule harvest.lease_excludes [OF assms(4) inv1, where w = w and u = "now + seconds"]) (use r1 assms(5) in auto)
  then obtain r where r: "r \<in> set (cd_harvests d2)" "harvest_key r = ht_harvest_id t" "harvest_ticket r = harvest_ticket r1"
    by (rule harvest_abs_SomeE)
  have "tt_lease (harvest_ticket r) = Some (w, now + seconds)" "tt_state (harvest_ticket r) = H_RUNNING"
    unfolding r(3) using r1 by (simp_all add: harvest_ticket_def)
  with r(1,2) show ?thesis by auto
qed

theorem harvest_claim_exclusive_witness:
  "\<exists>r \<in> set (cd_harvests demo_claimed). harvest_key r = demo_id \<and> ht_claimed_by (hv_task r) = Some ''w1''"
proof -
  have "\<exists>r \<in> set (cd_harvests demo_claimed). harvest_key r = ht_harvest_id (claim_harvest ''w1'' 12 2 (hv_task demo_harvest)) \<and>
      ht_state (hv_task r) = H_RUNNING \<and> ht_claimed_by (hv_task r) = Some ''w1'' \<and> ht_lease_expires_at (hv_task r) = Some (2 + 10)"
    by (rule harvest_claim_exclusive [OF demo_harvest_runs(1) demo_harvest_claim _ run.stop]) simp_all
  moreover have "ht_harvest_id (claim_harvest ''w1'' 12 2 (hv_task demo_harvest)) = demo_id"
    by (simp add: claim_harvest_def demo_harvest_def seed_task_def)
  ultimately show ?thesis by metis
qed

text \<open>
  a complete harvest stays complete. No history of claims, pages, enqueues and finalisations reopens
  a harvest that ended complete or invalid, so its host-years are collected once.
\<close>

theorem complete_harvest_stays:
  assumes "run (harvest_step E) before empty_control d" "r \<in> set (cd_harvests d)"
    and "ht_state (hv_task r) \<in> {H_COMPLETE, H_FAILED_INVALID}"
    and "run (harvest_step E) as d d'" "\<forall>(a, s) \<in> set as. a \<noteq> Override"
  shows "\<exists>r' \<in> set (cd_harvests d'). harvest_key r' = harvest_key r \<and> ht_state (hv_task r') = ht_state (hv_task r) \<and>
    ht_claimed_by (hv_task r') = None"
proof -
  have inv: "harvest_inv E d" by (rule harvest_reached_inv [OF assms(1)])
  have "harvest_abs d (harvest_key r) = Some (harvest_ticket r)" by (rule harvest_abs_row [OF inv assms(2)])
  then have "harvest_abs d' (harvest_key r) = Some (harvest_ticket r)"
    by (rule harvest.final_stays [OF assms(4) inv]) (use assms(3,5) in \<open>auto simp: final_harvest_def\<close>)
  then obtain r' where r': "r' \<in> set (cd_harvests d')" "harvest_key r' = harvest_key r" "harvest_ticket r' = harvest_ticket r"
    by (rule harvest_abs_SomeE)
  have st: "ht_state (hv_task r') = ht_state (hv_task r)" using ticket_of(1) r'(3) by metis
  have "harvest_inv E d'" by (rule harvest.run_inv [OF assms(4) inv])
  then have "ht_claimed_by (hv_task r') = None" using r'(1) assms(3) st
    by (auto simp: harvest_inv_def harvests_ok_def harvest_ok_def Let_def)
  with r' st show ?thesis by blast
qed

theorem complete_harvest_stays_witness: "\<exists>r' :: harvest_row. harvest_key r' = demo_id \<and> ht_state (hv_task r') = H_COMPLETE"
proof -
  obtain res where res: "finish_platform_year_harvest_page demo_codec demo_page ''w1'' None 3 demo_claimed =
      (res, empty_control\<lparr>cd_harvests := [demo_finished]\<rparr>)" using demo_harvest_finish by blast
  have last: "run (harvest_step demo_codec) [(Worker ''w1'', 3)] demo_claimed (empty_control\<lparr>cd_harvests := [demo_finished]\<rparr>)"
    by (rule run.go, rule harvest_step.finish [OF res demo_page_valid], rule run.stop)
  have "run (harvest_step demo_codec) ([(Admin, 1), (Worker ''w1'', 2)] @ [(Worker ''w1'', 3)]) empty_control (empty_control\<lparr>cd_harvests := [demo_finished]\<rparr>)"
    by (rule run_append [OF demo_harvest_runs(2) last])
  moreover have "ht_state (hv_task demo_finished) = H_COMPLETE" "harvest_key demo_finished = demo_id"
    by (simp_all add: demo_finished_def finish_page_def demo_page_def harvest_key_def claim_harvest_def demo_harvest_def seed_task_def)
  ultimately show ?thesis using complete_harvest_stays [OF _ _ _ run.stop, of demo_codec _ _ demo_finished] by fastforce
qed

end
