(* ===== verification/Evidence_Store.thy ===== *)
theory Evidence_Store
  imports Evidence_Queue
begin

text \<open>
  The store of positive evidence (\<open>storage/evidence_store.py\<close>): capsules under their five-column key,
  the deduplicated index of proven host-years, and the provenance rows that tie a capsule to the task
  that earned it.  An operation returns an exception or its value with the store afterwards.

  \<open>AUTOINCREMENT\<close> draws a number for every attempted insertion, also one that \<open>OR IGNORE\<close> drops; the two
  counters are the rows of \<open>sqlite_sequence\<close>.
\<close>

section \<open>Schema\<close>

record host_year_row =
  hy_sequence :: nat
  hy_hostname :: string
  hy_year :: int

record proof_row =
  pf_sequence :: nat
  pf_capsule :: "string \<times> int \<times> string \<times> string \<times> string"
  pf_task_kind :: string
  pf_task_key :: query_key
  pf_source_key :: string
  pf_reservoir_id :: string
  pf_lease_id :: string
  pf_committed_at :: time

record evidence_store =
  es_capsules :: "capsule list"
  es_host_years :: "host_year_row list"
  es_proofs :: "proof_row list"
  es_host_year_counter :: nat
  es_proof_counter :: nat
  es_indexed :: bool
  es_cutover :: "nat option"

type_synonym 'a store_outcome = "py_error + ('a \<times> evidence_store)"

text \<open>The primary key is \<open>(hostname, year, provider, payload_hash, policy_version)\<close>.\<close>

definition capsule_key :: "capsule \<Rightarrow> string \<times> int \<times> string \<times> string \<times> string" where
  "capsule_key c = (cp_hostname c, cp_year c, cp_provider c, cp_payload_hash c, cp_policy_version c)"

definition capsule_host_year :: "capsule \<Rightarrow> string \<times> int" where
  "capsule_host_year c = (cp_hostname c, cp_year c)"

definition host_year :: "host_year_row \<Rightarrow> string \<times> int" where
  "host_year r = (hy_hostname r, hy_year r)"

definition proof_host_year :: "proof_row \<Rightarrow> string \<times> int" where
  "proof_host_year p = (case pf_capsule p of (h, y, _) \<Rightarrow> (h, y))"

definition proof_key ::
  "proof_row \<Rightarrow> (string \<times> int \<times> string \<times> string \<times> string) \<times> string \<times> query_key \<times> string \<times> string \<times> string" where
  "proof_key p = (pf_capsule p, pf_task_kind p, pf_task_key p, pf_source_key p, pf_reservoir_id p, pf_lease_id p)"

definition empty_store :: evidence_store where
  "empty_store = \<lparr>es_capsules = [], es_host_years = [], es_proofs = [], es_host_year_counter = 0, es_proof_counter = 0,
     es_indexed = False, es_cutover = None\<rparr>"

section \<open>Writing\<close>

definition insert_host_year :: "string \<times> int \<Rightarrow> evidence_store \<Rightarrow> evidence_store" where
  "insert_host_year hy s = s\<lparr>es_host_years := tbl_insert_or_ignore host_year
       \<lparr>hy_sequence = Suc (es_host_year_counter s), hy_hostname = fst hy, hy_year = snd hy\<rparr> (es_host_years s),
     es_host_year_counter := Suc (es_host_year_counter s)\<rparr>"

definition insert_proof :: "proof_row \<Rightarrow> evidence_store \<Rightarrow> evidence_store" where
  "insert_proof p s = s\<lparr>es_proofs := tbl_insert_or_ignore proof_key
       (p\<lparr>pf_sequence := Suc (es_proof_counter s)\<rparr>) (es_proofs s),
     es_proof_counter := Suc (es_proof_counter s)\<rparr>"

definition insert_capsules :: "capsule list \<Rightarrow> evidence_store \<Rightarrow> evidence_store" where
  "insert_capsules rows s = s\<lparr>es_capsules := fold (tbl_insert_or_ignore capsule_key) rows (es_capsules s)\<rparr>"

definition normalized :: "capsule \<Rightarrow> py_error + capsule" where
  "normalized c = (case normalize_official (cp_hostname c) of None \<Rightarrow> Inl ValueError | Some h \<Rightarrow> Inr (c\<lparr>cp_hostname := h\<rparr>))"

definition put_many :: "capsule list \<Rightarrow> evidence_store \<Rightarrow> int store_outcome" where
  "put_many capsules s =
     bindr (collect (List.map normalized capsules)) (\<lambda>rows.
     if rows = [] then Inr (0, s)
     else let s1 = insert_capsules rows s
          in Inr (int (length (es_capsules s1)) - int (length (es_capsules s)),
                  fold insert_host_year (dedup (List.map capsule_host_year rows)) s1))"

definition put :: "capsule \<Rightarrow> evidence_store \<Rightarrow> unit store_outcome" where
  "put c s = bindr (put_many [c] s) (\<lambda>(_, s'). Inr ((), s'))"

record provenance =
  pv_key :: query_key
  pv_source_key :: string
  pv_reservoir_id :: string
  pv_lease_id :: string
  pv_committed_at :: time
  pv_task_kind :: string

definition provenance_init :: "provenance \<Rightarrow> py_error + provenance" where
  "provenance_init p =
     check (0 \<le> pv_committed_at p) ValueError (
     check (pv_task_kind p = [] \<or> pv_task_kind p \<in> {''exact'', ''range'', ''domain'', ''rdap'', ''platform_year''}) ValueError (Inr p))"

definition task_kind_of :: "query_key \<Rightarrow> string" where
  "task_kind_of k =
     (if qk_provider k = ''rdap'' then ''rdap''
      else if starts_with (qk_policy_version k) ''cdx-domain-'' then ''domain''
      else if year_from k = year_to k then ''exact'' else ''range'')"

definition proof_of :: "capsule \<Rightarrow> provenance \<Rightarrow> py_error + (capsule \<times> proof_row)" where
  "proof_of c p =
     bindr (normalized c) (\<lambda>row.
     let k = pv_key p; kind = or_else (pv_task_kind p) (task_kind_of k)
     in check (cp_provider c = qk_provider k) ValueError (
        check (cp_policy_version c = qk_policy_version k) ValueError (
        check (year_from k \<le> cp_year c \<and> cp_year c \<le> year_to k) ValueError (
        check (kind \<in> {''domain'', ''platform_year''} \<or> cp_hostname row = qk_hostname k) ValueError (
        Inr (row, \<lparr>pf_sequence = 0, pf_capsule = capsule_key row, pf_task_kind = kind, pf_task_key = k,
          pf_source_key = pv_source_key p, pf_reservoir_id = pv_reservoir_id p, pf_lease_id = pv_lease_id p,
          pf_committed_at = pv_committed_at p\<rparr>))))))"

definition put_many_with_task_provenance :: "(capsule \<times> provenance) list \<Rightarrow> evidence_store \<Rightarrow> int store_outcome" where
  "put_many_with_task_provenance items s =
     bindr (collect (List.map (\<lambda>(c, p). proof_of c p) items)) (\<lambda>rows.
     if rows = [] then Inr (0, s)
     else let s1 = insert_capsules (List.map fst rows) s;
              s2 = fold insert_host_year (dedup (List.map (capsule_host_year \<circ> fst) rows)) s1
          in Inr (int (length (es_capsules s1)) - int (length (es_capsules s)), fold insert_proof (List.map snd rows) s2))"

section \<open>Opening\<close>

definition max_host_year_sequence :: "evidence_store \<Rightarrow> nat" where
  "max_host_year_sequence s = Max (insert 0 (hy_sequence ` set (es_host_years s)))"

text \<open>The backfill of the index and the cutover mark, each done once.\<close>

definition ensure_schema :: "evidence_store \<Rightarrow> evidence_store" where
  "ensure_schema s =
     (let s1 = (if es_indexed s then s
            else (fold insert_host_year (sort (dedup (List.map capsule_host_year (es_capsules s)))) s)\<lparr>es_indexed := True\<rparr>)
      in if es_cutover s1 = None then s1\<lparr>es_cutover := Some (max_host_year_sequence s1)\<rparr> else s1)"

definition cutover_sequence :: "evidence_store \<Rightarrow> nat" where
  "cutover_sequence s = (case es_cutover s of None \<Rightarrow> 0 | Some n \<Rightarrow> n)"

section \<open>Reading\<close>

definition first_proof :: "(proof_row \<Rightarrow> bool) \<Rightarrow> string \<times> int \<Rightarrow> evidence_store \<Rightarrow> proof_row option" where
  "first_proof P hy s =
     (case tbl_order_by pf_sequence (filter (\<lambda>p. P p \<and> proof_host_year p = hy) (es_proofs s)) of [] \<Rightarrow> None | p # _ \<Rightarrow> Some p)"

definition platform_proof :: "string \<Rightarrow> string \<Rightarrow> string \<Rightarrow> proof_row \<Rightarrow> bool" where
  "platform_proof source_key reservoir_id exposure_id p =
     (pf_task_kind p = ''platform_year'' \<and> pf_source_key p = source_key \<and> pf_reservoir_id p = reservoir_id \<and> pf_lease_id p = exposure_id)"

definition resolve_platform_year_provenance :: "string \<Rightarrow> string \<Rightarrow> string \<Rightarrow> evidence_store \<Rightarrow> py_error + proof_row list" where
  "resolve_platform_year_provenance source_key reservoir_id exposure_id s =
     check (\<not> blank source_key \<and> \<not> blank reservoir_id \<and> \<not> blank exposure_id) ValueError (
     let P = platform_proof source_key reservoir_id exposure_id
     in Inr (List.map_filter (\<lambda>hy. first_proof P hy s) (sort (dedup (List.map proof_host_year (filter P (es_proofs s)))))))"

definition max_platform_year_provenance_sequence :: "string \<Rightarrow> string \<Rightarrow> string \<Rightarrow> evidence_store \<Rightarrow> nat" where
  "max_platform_year_provenance_sequence source_key reservoir_id exposure_id s =
     Max (insert 0 (pf_sequence ` set (filter (platform_proof source_key reservoir_id exposure_id) (es_proofs s))))"

definition normalized_host_years :: "(string \<times> int) list \<Rightarrow> (string \<times> int) list" where
  "normalized_host_years host_years =
     dedup (List.map_filter (\<lambda>(raw, y). map_option (\<lambda>h. (h, y)) (normalize_official raw)) host_years)"

definition resolve_provider_task_provenance ::
  "(string \<times> int) list \<Rightarrow> int \<Rightarrow> evidence_store \<Rightarrow> py_error + ((string \<times> int) \<rightharpoonup> proof_row)" where
  "resolve_provider_task_provenance host_years chunk_size s =
     check (1 \<le> chunk_size) ValueError (Inr (
       fold (\<lambda>chunk result hy. if hy \<in> set chunk
               then (case first_proof (\<lambda>_. True) hy s of None \<Rightarrow> result hy | Some p \<Rightarrow> Some p) else result hy)
         (chunks (nat (min chunk_size 300)) (normalized_host_years host_years)) Map.empty))"

definition for_hostname :: "string \<Rightarrow> evidence_store \<Rightarrow> py_error + capsule list" where
  "for_hostname hostname s =
     (case normalize_official hostname of
        None \<Rightarrow> Inr []
      | Some h \<Rightarrow> collect (List.map capsule_init (tbl_order_by (\<lambda>c. (cp_year c, cp_provider c))
          (filter (\<lambda>c. cp_hostname c = h) (tbl_order_by capsule_key (es_capsules s))))))"

definition all_capsules :: "evidence_store \<Rightarrow> py_error + capsule list" where
  "all_capsules s = collect (List.map capsule_init (tbl_order_by capsule_key (es_capsules s)))"

text \<open>One batch of \<open>fetchmany\<close>: rows of the last host-year seen are skipped.\<close>

fun skip_repeats :: "(string \<times> int) option \<Rightarrow> capsule list \<Rightarrow> capsule list \<times> (string \<times> int) option" where
  "skip_repeats last_key [] = ([], last_key)"
| "skip_repeats last_key (c # cs) =
     (if Some (capsule_host_year c) = last_key then skip_repeats last_key cs
      else (let (out, k) = skip_repeats (Some (capsule_host_year c)) cs in (c # out, k)))"

fun canonical_batches :: "(string \<times> int) option \<Rightarrow> capsule list list \<Rightarrow> capsule list" where
  "canonical_batches last_key [] = []"
| "canonical_batches last_key (batch # batches) =
     (let (out, k) = skip_repeats last_key batch in out @ canonical_batches k batches)"

definition exported :: "int option \<Rightarrow> evidence_store \<Rightarrow> capsule \<Rightarrow> bool" where
  "exported max_sequence s c =
     (case max_sequence of None \<Rightarrow> True
      | Some m \<Rightarrow> list_ex (\<lambda>r. host_year r = capsule_host_year c \<and> int (hy_sequence r) \<le> m) (es_host_years s))"

definition iter_canonical_host_year_capsules :: "int \<Rightarrow> int option \<Rightarrow> evidence_store \<Rightarrow> py_error + capsule list" where
  "iter_canonical_host_year_capsules batch_size max_sequence s =
     check (1 \<le> batch_size) ValueError (
     check (case max_sequence of None \<Rightarrow> True | Some m \<Rightarrow> 0 \<le> m) ValueError (
     collect (List.map capsule_init (canonical_batches None (chunks (nat batch_size)
       (tbl_order_by capsule_key (filter (exported max_sequence s) (es_capsules s))))))))"

definition host_years_after :: "int \<Rightarrow> int \<Rightarrow> evidence_store \<Rightarrow> py_error + host_year_row list" where
  "host_years_after sequence limit s =
     check (0 \<le> sequence) ValueError (
     check (1 \<le> limit) ValueError (
     Inr (take (nat limit) (tbl_order_by hy_sequence (filter (\<lambda>r. sequence < int (hy_sequence r)) (es_host_years s))))))"

definition host_year_count :: "evidence_store \<Rightarrow> nat" where
  "host_year_count s = length (es_host_years s)"

definition capsule_count :: "evidence_store \<Rightarrow> nat" where
  "capsule_count s = length (es_capsules s)"

text \<open>\<open>LIKE 'direct:%'\<close> ignores the case of ASCII letters.\<close>

definition direct_provider :: "string \<Rightarrow> bool" where
  "direct_provider provider = starts_with (List.map ascii_lower provider) ''direct:''"

definition direct_sources :: "string \<times> int \<Rightarrow> evidence_store \<Rightarrow> string list" where
  "direct_sources hy s = sort (dedup (List.map cp_source_id (filter (\<lambda>c. direct_provider (cp_provider c) \<and>
     capsule_host_year c = hy \<and> cp_source_id c \<noteq> []) (es_capsules s))))"

definition resolve_direct_source_origins ::
  "(string \<times> int) list \<Rightarrow> int \<Rightarrow> evidence_store \<Rightarrow> py_error + ((string \<times> int) \<rightharpoonup> string list)" where
  "resolve_direct_source_origins host_years chunk_size s =
     check (1 \<le> chunk_size) ValueError (Inr (
       fold (\<lambda>chunk result hy. if hy \<in> set chunk \<and> direct_sources hy s \<noteq> [] then Some (direct_sources hy s) else result hy)
         (chunks (nat (min chunk_size 400)) (normalized_host_years host_years)) Map.empty))"

definition mask_bit :: "int \<Rightarrow> int" where
  "mask_bit y = (if y \<in> set competition_years then year_bit y else 0)"

definition resolve_year_masks :: "string list \<Rightarrow> int \<Rightarrow> evidence_store \<Rightarrow> py_error + (string \<rightharpoonup> int)" where
  "resolve_year_masks hostnames chunk_size s =
     check (0 < chunk_size) ValueError (
     let values = dedup (List.map_filter normalize_official hostnames)
     in Inr (fold (\<lambda>chunk result. fold (\<lambda>r result. case result (hy_hostname r) of
                 None \<Rightarrow> result | Some m \<Rightarrow> result(hy_hostname r \<mapsto> m OR mask_bit (hy_year r)))
               (filter (\<lambda>r. hy_hostname r \<in> set chunk) (es_host_years s)) result)
             (chunks (nat (min chunk_size 900)) values) (\<lambda>h. if h \<in> set values then Some 0 else None)))"

end
