(* ===== verification/Transactions.thy ===== *)
theory Transactions
  imports Prelude
begin

text \<open>
  Methods of several transactions.  An action takes a state and returns its value or exception together
  with the states it makes durable, in order: what a crash can leave behind.  One transaction is one
  state; a transaction that raises leaves none.  The rules of \<open>guarded\<close> ask for an invariant in every
  durable state, and for a condition on the last one when the action returns.
\<close>

section \<open>Actions\<close>

type_synonym ('s, 'a) transactions = "'s \<Rightarrow> (py_error + 'a) \<times> 's list"

definition last_world :: "'s \<Rightarrow> 's list \<Rightarrow> 's" where
  "last_world w h = last (w # h)"

definition act_return :: "'a \<Rightarrow> ('s, 'a) transactions" where "act_return x w = (Inr x, [])"

definition act_raise :: "py_error \<Rightarrow> ('s, 'a) transactions" where "act_raise e w = (Inl e, [])"

definition act_init :: "(py_error + 'a) \<Rightarrow> ('s, 'a) transactions" where "act_init x w = (x, [])"

definition act_read :: "('s \<Rightarrow> 'a) \<Rightarrow> ('s, 'a) transactions" where "act_read q w = (Inr (q w), [])"

definition act_txn :: "('s \<Rightarrow> py_error + ('a \<times> 's)) \<Rightarrow> ('s, 'a) transactions" where
  "act_txn t w = (case t w of Inl e \<Rightarrow> (Inl e, []) | Inr (x, w') \<Rightarrow> (Inr x, [w']))"

definition act_then :: "('s, 'a) transactions \<Rightarrow> ('a \<Rightarrow> ('s, 'b) transactions) \<Rightarrow> ('s, 'b) transactions" where
  "act_then a f w = (case a w of (Inl e, h) \<Rightarrow> (Inl e, h)
     | (Inr x, h) \<Rightarrow> (case f x (last_world w h) of (r, h') \<Rightarrow> (r, h @ h')))"

text \<open>\<open>try: a finally: b\<close>\<close>

definition act_finally :: "('s, 'a) transactions \<Rightarrow> ('s, unit) transactions \<Rightarrow> ('s, 'a) transactions" where
  "act_finally a b w = (case a w of (r, h) \<Rightarrow> (case b (last_world w h) of
     (Inl e, h') \<Rightarrow> (Inl e, h @ h') | (Inr _, h') \<Rightarrow> (r, h @ h')))"

fun act_each :: "('a \<Rightarrow> ('s, unit) transactions) \<Rightarrow> 'a list \<Rightarrow> ('s, unit) transactions" where
  "act_each f [] = act_return ()"
| "act_each f (x # xs) = act_then (f x) (\<lambda>_. act_each f xs)"

text \<open>A loop that adds the numbers its body returns.\<close>

fun act_sum :: "('a \<Rightarrow> ('s, nat) transactions) \<Rightarrow> 'a list \<Rightarrow> ('s, nat) transactions" where
  "act_sum f [] = act_return 0"
| "act_sum f (x # xs) = act_then (f x) (\<lambda>m. act_then (act_sum f xs) (\<lambda>n. act_return (m + n)))"

section \<open>Rules\<close>

definition guarded :: "('s \<Rightarrow> bool) \<Rightarrow> ('s \<Rightarrow> bool) \<Rightarrow> ('s, 'a) transactions \<Rightarrow> ('a \<Rightarrow> 's \<Rightarrow> bool) \<Rightarrow> bool" where
  "guarded I P a Q \<longleftrightarrow> (\<forall>w. I w \<and> P w \<longrightarrow> (\<forall>w' \<in> set (snd (a w)). I w') \<and>
     (\<forall>x. fst (a w) = Inr x \<longrightarrow> Q x (last_world w (snd (a w)))))"

named_theorems guards

lemma last_world_simps [simp]: "last_world w [] = w" "last_world w (h @ h') = last_world (last_world w h) h'"
  by (simp_all add: last_world_def)

lemma last_world_inv: "I w \<Longrightarrow> \<forall>w' \<in> set h. I w' \<Longrightarrow> I (last_world w h)"
  by (simp add: last_world_def)

lemma guarded_weaken: "guarded I P' a Q' \<Longrightarrow> (\<And>w. I w \<Longrightarrow> P w \<Longrightarrow> P' w) \<Longrightarrow> (\<And>x w. I w \<Longrightarrow> Q' x w \<Longrightarrow> Q x w) \<Longrightarrow> guarded I P a Q"
  unfolding guarded_def using last_world_inv by (metis (mono_tags))

lemma guarded_return [guards]: "(\<And>w. I w \<Longrightarrow> P w \<Longrightarrow> Q x w) \<Longrightarrow> guarded I P (act_return x) Q"
  by (simp add: guarded_def act_return_def)

lemma guarded_raise [guards]: "guarded I P (act_raise e) Q"
  by (simp add: guarded_def act_raise_def)

lemma guarded_init [guards]: "(\<And>w x. I w \<Longrightarrow> P w \<Longrightarrow> v = Inr x \<Longrightarrow> Q x w) \<Longrightarrow> guarded I P (act_init v) Q"
  by (simp add: guarded_def act_init_def)

lemma guarded_read [guards]: "(\<And>w. I w \<Longrightarrow> P w \<Longrightarrow> Q (q w) w) \<Longrightarrow> guarded I P (act_read q) Q"
  by (simp add: guarded_def act_read_def)

lemma guarded_then:
  assumes a: "guarded I P a R" and f: "\<And>x. guarded I (R x) (f x) Q"
  shows "guarded I P (act_then a f) Q"
  unfolding guarded_def
proof (intro allI impI)
  fix w assume w: "I w \<and> P w"
  obtain r h where r: "a w = (r, h)" by fastforce
  have h: "\<forall>w' \<in> set h. I w'" "\<And>x. r = Inr x \<Longrightarrow> R x (last_world w h)" using a w r by (auto simp: guarded_def)
  show "(\<forall>w' \<in> set (snd (act_then a f w)). I w') \<and> (\<forall>x. fst (act_then a f w) = Inr x \<longrightarrow> Q x (last_world w (snd (act_then a f w))))"
  proof (cases r)
    case (Inl e)
    with r h(1) show ?thesis by (simp add: act_then_def)
  next
    case (Inr x)
    obtain r' h' where r': "f x (last_world w h) = (r', h')" by fastforce
    have "I (last_world w h)" using w h(1) by (simp add: last_world_inv)
    then have "\<forall>w' \<in> set h'. I w'" "\<And>y. r' = Inr y \<Longrightarrow> Q y (last_world (last_world w h) h')"
      using f [of x] h(2) [OF Inr] r' by (auto simp: guarded_def)
    with r r' Inr h(1) show ?thesis by (auto simp: act_then_def)
  qed
qed

lemma guarded_if [guards]: "(b \<Longrightarrow> guarded I P a Q) \<Longrightarrow> (\<not> b \<Longrightarrow> guarded I P a' Q) \<Longrightarrow> guarded I P (if b then a else a') Q"
  by simp

lemma guarded_finally:
  assumes "guarded I P a (\<lambda>_ _. True)" "guarded I (\<lambda>_. True) b (\<lambda>_ _. True)"
  shows "guarded I P (act_finally a b) (\<lambda>_ _. True)"
  unfolding guarded_def
proof (intro allI impI)
  fix w assume w: "I w \<and> P w"
  obtain r h where r: "a w = (r, h)" by fastforce
  obtain r' h' where r': "b (last_world w h) = (r', h')" by fastforce
  have h: "\<forall>w' \<in> set h. I w'" using assms(1) w r by (auto simp: guarded_def)
  then have "\<forall>w' \<in> set h'. I w'" using assms(2) w r' last_world_inv [of I w h] by (auto simp: guarded_def)
  with r r' h show "(\<forall>w' \<in> set (snd (act_finally a b w)). I w') \<and> (\<forall>x. fst (act_finally a b w) = Inr x \<longrightarrow> True)"
    by (auto simp: act_finally_def split: sum.splits)
qed

lemma guarded_each: "(\<And>x. x \<in> set xs \<Longrightarrow> guarded I P (f x) (\<lambda>_. P)) \<Longrightarrow> guarded I P (act_each f xs) (\<lambda>_. P)"
proof (induction xs)
  case (Cons x xs)
  have "guarded I P (f x) (\<lambda>_. P)" "guarded I P (act_each f xs) (\<lambda>_. P)" using Cons by simp_all
  then show ?case unfolding act_each.simps by (rule guarded_then)
qed (simp add: guarded_def act_return_def)

lemma guarded_fact: "(b \<Longrightarrow> guarded I P a Q) \<Longrightarrow> guarded I (\<lambda>w. b \<and> P w) a Q"
  by (auto simp: guarded_def)

lemma guarded_drop: "guarded I P a Q \<Longrightarrow> guarded I P a (\<lambda>_ _. True)"
  by (simp add: guarded_def)

lemma guarded_txn:
  "(\<And>w x w'. I w \<Longrightarrow> P w \<Longrightarrow> t w = Inr (x, w') \<Longrightarrow> I w' \<and> Q x w') \<Longrightarrow> guarded I P (act_txn t) Q"
  by (auto simp: guarded_def act_txn_def last_world_def split: sum.splits prod.splits)

lemma guarded_sum: "(\<And>x. x \<in> set xs \<Longrightarrow> guarded I P (f x) (\<lambda>_. P)) \<Longrightarrow> guarded I P (act_sum f xs) (\<lambda>_. P)"
proof (induction xs)
  case (Cons x xs)
  have "guarded I P (f x) (\<lambda>_. P)" "guarded I P (act_sum f xs) (\<lambda>_. P)" using Cons by simp_all
  then show ?case unfolding act_sum.simps by (intro guarded_then guarded_return)
qed (simp add: guarded_def act_return_def)

end
