(* ===== verification/Evidence_Commit.thy ===== *)
theory Evidence_Commit
  imports Evidence_Store Transactions
begin

text \<open>
  Committing provider results: the attribution tables of the control store
  (\<open>storage/control_store.py\<close>), the retry deadline and the result committer
  (\<open>evidence/result_commit.py\<close>) and the batching writer (\<open>storage/commit_writer.py\<close>).

  A commit spans two databases and several transactions; its worlds are the states of \<open>Transactions\<close>.
  The readings of a clock are the values of a function from their number in the action.
\<close>

section \<open>Attribution\<close>

record kind_row =
  hk_hostname :: string
  hk_year :: int
  hk_task_kind :: string
  hk_provider :: string
  hk_task_years :: "(int \<times> int) option"
  hk_task_policy :: "string option"
  hk_attributed_at :: time

record credit_row =
  cr_hostname :: string
  cr_year :: int
  cr_source_key :: string
  cr_reservoir_id :: string
  cr_lease_id :: string
  cr_provider :: string
  cr_task_years :: "(int \<times> int) option"
  cr_task_policy :: "string option"
  cr_attributed_at :: time

record unit_row =
  un_hostname :: string
  un_year :: int
  un_source_key :: string
  un_reservoir_id :: string
  un_origin_kind :: string
  un_origin_unit_id :: string
  un_provider :: string
  un_attributed_at :: time

record control_side =
  cn_queue :: evidence_db
  cn_kinds :: "kind_row list"
  cn_credits :: "credit_row list"
  cn_units :: "unit_row list"

definition kind_key :: "kind_row \<Rightarrow> string \<times> int" where "kind_key r = (hk_hostname r, hk_year r)"

definition credit_key :: "credit_row \<Rightarrow> string \<times> int" where "credit_key r = (cr_hostname r, cr_year r)"

definition unit_key :: "unit_row \<Rightarrow> string \<times> int" where "unit_key r = (un_hostname r, un_year r)"

definition add_kinds :: "kind_row list \<Rightarrow> control_side \<Rightarrow> control_side" where
  "add_kinds rows c = c\<lparr>cn_kinds := fold (tbl_insert_or_ignore kind_key) rows (cn_kinds c)\<rparr>"

text \<open>A row that is not ignored must refer to an existing reservoir and lease.\<close>

definition insert_credit :: "control_side \<Rightarrow> credit_row \<Rightarrow> py_error + control_side" where
  "insert_credit c r =
     (if credit_key r \<in> set (List.map credit_key (cn_credits c)) then Inr c
      else check (cr_reservoir_id r \<in> set (ed_reservoir_ids (cn_queue c)) \<and> cr_lease_id r \<in> set (ed_lease_ids (cn_queue c))) IntegrityError
        (Inr (c\<lparr>cn_credits := cn_credits c @ [r]\<rparr>)))"

definition insert_unit :: "control_side \<Rightarrow> unit_row \<Rightarrow> py_error + control_side" where
  "insert_unit c r =
     (if unit_key r \<in> set (List.map unit_key (cn_units c)) then Inr c
      else check (un_reservoir_id r \<in> set (ed_reservoir_ids (cn_queue c))) IntegrityError
        (Inr (c\<lparr>cn_units := cn_units c @ [r]\<rparr>)))"

definition add_credits :: "credit_row list \<Rightarrow> control_side \<Rightarrow> py_error + (nat \<times> control_side)" where
  "add_credits rows c =
     bindr (fold_result insert_credit rows c) (\<lambda>c'. Inr (length (cn_credits c') - length (cn_credits c), c'))"

section \<open>Actions\<close>

record commit_writer =
  cw_owner :: string
  cw_flush_count :: int
  cw_flush_interval :: rat
  cw_pending :: "(capsule option \<times> query_result) list"
  cw_closed :: bool
  cw_last_flush :: time
  cw_inserted :: int
  cw_finished :: nat

record commit_world =
  wd_control :: control_side
  wd_store :: evidence_store
  wd_writer :: commit_writer

type_synonym 'a act = "(commit_world, 'a) transactions"

definition on_control :: "(control_side \<Rightarrow> py_error + ('a \<times> control_side)) \<Rightarrow> 'a act" where
  "on_control t w = (case t (wd_control w) of Inl e \<Rightarrow> (Inl e, []) | Inr (x, c) \<Rightarrow> (Inr x, [w\<lparr>wd_control := c\<rparr>]))"

definition on_queue :: "(evidence_db \<Rightarrow> 'a db_outcome) \<Rightarrow> 'a act" where
  "on_queue t = on_control (\<lambda>c. bindr (t (cn_queue c)) (\<lambda>(x, d). Inr (x, c\<lparr>cn_queue := d\<rparr>)))"

definition on_store :: "(evidence_store \<Rightarrow> 'a store_outcome) \<Rightarrow> 'a act" where
  "on_store t w = (case t (wd_store w) of Inl e \<Rightarrow> (Inl e, []) | Inr (x, s) \<Rightarrow> (Inr x, [w\<lparr>wd_store := s\<rparr>]))"

definition on_writer :: "(commit_writer \<Rightarrow> commit_writer) \<Rightarrow> unit act" where
  "on_writer f w = (Inr (), [w\<lparr>wd_writer := f (wd_writer w)\<rparr>])"

section \<open>Attributing host-years\<close>

definition attribute_task_host_years :: "query_key \<Rightarrow> int list \<Rightarrow> time \<Rightarrow> nat act" where
  "attribute_task_host_years k years when =
     (let year_list = sort (dedup years);
          kind = (if qk_provider k = ''rdap'' then ''rdap'' else if year_from k = year_to k then ''exact'' else ''range'') in
      if year_list = [] then act_return 0
      else if list_ex (\<lambda>y. y < year_from k \<or> year_to k < y) year_list then act_raise ValueError
      else act_then (on_control (\<lambda>c. Inr ((), add_kinds (List.map (\<lambda>y. \<lparr>hk_hostname = qk_hostname k, hk_year = y, hk_task_kind = kind,
               hk_provider = qk_provider k, hk_task_years = Some (year_from k, year_to k), hk_task_policy = Some (qk_policy_version k),
               hk_attributed_at = when\<rparr>) year_list) c))) (\<lambda>_.
           act_then (act_read (\<lambda>w. primary_task_origin k (cn_queue (wd_control w)))) (\<lambda>origin.
           case origin of
             None \<Rightarrow> act_return 0
           | Some (source_key, reservoir_id, lease_id) \<Rightarrow>
               on_control (add_credits (List.map (\<lambda>y. \<lparr>cr_hostname = qk_hostname k, cr_year = y, cr_source_key = source_key,
                 cr_reservoir_id = reservoir_id, cr_lease_id = lease_id, cr_provider = qk_provider k,
                 cr_task_years = Some (year_from k, year_to k), cr_task_policy = Some (qk_policy_version k),
                 cr_attributed_at = when\<rparr>) year_list)))))"

definition attribute_domain_task_host_years :: "query_key \<Rightarrow> capsule list \<Rightarrow> time \<Rightarrow> nat act" where
  "attribute_domain_task_host_years k capsules when =
     (let vs = dedup (List.map (\<lambda>c. (cp_hostname c, cp_year c, cp_provider c)) capsules) in
      if vs = [] then act_return 0
      else act_then (on_control (\<lambda>c. Inr ((), add_kinds (List.map (\<lambda>(h, y, p). \<lparr>hk_hostname = h, hk_year = y, hk_task_kind = ''domain'',
               hk_provider = p, hk_task_years = Some (year_from k, year_to k), hk_task_policy = Some (qk_policy_version k),
               hk_attributed_at = when\<rparr>) vs) c))) (\<lambda>_.
           act_then (act_read (\<lambda>w. primary_task_origin k (cn_queue (wd_control w)))) (\<lambda>origin.
           case origin of
             None \<Rightarrow> act_return 0
           | Some (source_key, reservoir_id, lease_id) \<Rightarrow>
               on_control (add_credits (List.map (\<lambda>(h, y, p). \<lparr>cr_hostname = h, cr_year = y, cr_source_key = source_key,
                 cr_reservoir_id = reservoir_id, cr_lease_id = lease_id, cr_provider = p,
                 cr_task_years = Some (year_from k, year_to k), cr_task_policy = Some (qk_policy_version k),
                 cr_attributed_at = when\<rparr>) vs)))))"

definition direct_kind :: "time \<Rightarrow> string \<times> int \<times> string \<Rightarrow> kind_row" where
  "direct_kind when v = (case v of (h, y, p) \<Rightarrow> \<lparr>hk_hostname = h, hk_year = y, hk_task_kind = ''direct'', hk_provider = p,
     hk_task_years = None, hk_task_policy = None, hk_attributed_at = when\<rparr>)"

definition attribute_direct_origin_unit_host_years ::
  "(string \<times> int \<times> string) list \<Rightarrow> string \<Rightarrow> string \<Rightarrow> string \<Rightarrow> string \<Rightarrow> time \<Rightarrow> nat act" where
  "attribute_direct_origin_unit_host_years host_years source_key reservoir_id origin_kind origin_unit_id when =
     (if blank source_key \<or> blank reservoir_id \<or> blank origin_kind \<or> blank origin_unit_id then act_raise ValueError
      else let vs = dedup host_years in
      if vs = [] then act_return 0
      else on_control (\<lambda>c. bindr (fold_result insert_unit (List.map (\<lambda>(h, y, p). \<lparr>un_hostname = h, un_year = y,
               un_source_key = source_key, un_reservoir_id = reservoir_id, un_origin_kind = origin_kind,
               un_origin_unit_id = origin_unit_id, un_provider = p, un_attributed_at = when\<rparr>) vs)
             (add_kinds (List.map (direct_kind when) vs) c))
           (\<lambda>c'. Inr (length (cn_units c') - length (cn_units c), c'))))"

definition attribute_direct_host_years ::
  "(string \<times> int \<times> string) list \<Rightarrow> string \<Rightarrow> string \<Rightarrow> string \<Rightarrow> time \<Rightarrow> nat act" where
  "attribute_direct_host_years host_years source_key reservoir_id lease_id when =
     (if blank source_key \<or> blank reservoir_id \<or> blank lease_id then act_raise ValueError
      else let vs = dedup host_years in
      if vs = [] then act_return 0
      else act_then (on_control (\<lambda>c. Inr ((), add_kinds (List.map (direct_kind when) vs) c))) (\<lambda>_.
           on_control (add_credits (List.map (\<lambda>(h, y, p). \<lparr>cr_hostname = h, cr_year = y, cr_source_key = source_key,
             cr_reservoir_id = reservoir_id, cr_lease_id = lease_id, cr_provider = p, cr_task_years = None,
             cr_task_policy = None, cr_attributed_at = when\<rparr>) vs))))"

definition resolve_host_year_task_kinds ::
  "(string \<times> int) list \<Rightarrow> int \<Rightarrow> control_side \<Rightarrow> py_error + ((string \<times> int) \<rightharpoonup> string)" where
  "resolve_host_year_task_kinds host_years chunk_size c =
     check (1 \<le> chunk_size) ValueError (Inr (
       fold (\<lambda>chunk result hy. if hy \<in> set chunk
               then (case tbl_find (\<lambda>r. kind_key r = hy) (cn_kinds c) of None \<Rightarrow> result hy | Some r \<Rightarrow> Some (hk_task_kind r)) else result hy)
         (chunks (nat (min chunk_size 400)) (dedup host_years)) Map.empty))"

text \<open>The candidates of a host-year in the order \<open>attributed_at, source_key, origin_kind, origin_unit_id\<close>.\<close>

definition origin_candidates :: "string \<times> int \<Rightarrow> control_side \<Rightarrow> (rat \<times> string \<times> string \<times> string) list" where
  "origin_candidates hy c =
     List.map (\<lambda>r. (cr_attributed_at r, cr_source_key r, ''work_lease'', cr_lease_id r)) (filter (\<lambda>r. credit_key r = hy) (cn_credits c)) @
     List.map (\<lambda>r. (un_attributed_at r, un_source_key r, un_origin_kind r, un_origin_unit_id r)) (filter (\<lambda>r. unit_key r = hy) (cn_units c))"

definition primary_origin :: "string \<times> int \<Rightarrow> control_side \<Rightarrow> string option" where
  "primary_origin hy c = (case sort (origin_candidates hy c) of [] \<Rightarrow> None | (_, source_key, _) # _ \<Rightarrow> Some source_key)"

definition resolve_primary_source_origins ::
  "(string \<times> int) list \<Rightarrow> int \<Rightarrow> control_side \<Rightarrow> py_error + ((string \<times> int) \<rightharpoonup> string)" where
  "resolve_primary_source_origins host_years chunk_size c =
     check (1 \<le> chunk_size) ValueError (Inr (
       fold (\<lambda>chunk result hy. if hy \<in> set chunk
               then (case primary_origin hy c of None \<Rightarrow> result hy | Some v \<Rightarrow> Some v) else result hy)
         (chunks (nat (min chunk_size 400)) (dedup host_years)) Map.empty))"

section \<open>Retry deadlines\<close>

text \<open>\<open>max(0, ceil(log2(maximum / base)))\<close>: the number of doublings that take the base to the maximum.\<close>

function doublings :: "rat \<Rightarrow> rat \<Rightarrow> nat" where
  "doublings base maximum = (if base \<le> 0 \<or> maximum \<le> base then 0 else Suc (doublings (2 * base) maximum))"
  by pat_completeness auto
termination
proof (relation "measure (\<lambda>(base, maximum). nat \<lfloor>maximum / base\<rfloor>)")
  fix base maximum :: rat
  assume "\<not> (base \<le> 0 \<or> maximum \<le> base)"
  then have base: "0 < base" "1 < maximum / base" by auto
  have half: "maximum / (2 * base) = (maximum / base) / 2" by simp
  define x where "x = maximum / base"
  have "x < of_int \<lfloor>x\<rfloor> + 1" by (rule floor_correct [THEN conjunct2, simplified])
  moreover have "(1 :: rat) \<le> of_int \<lfloor>x\<rfloor>" using base(2) by (simp add: x_def)
  ultimately have "x / 2 < of_int \<lfloor>x\<rfloor>" by linarith
  then have "\<lfloor>maximum / (2 * base)\<rfloor> < \<lfloor>maximum / base\<rfloor>" unfolding half x_def by (simp only: floor_less_iff)
  moreover have "0 < \<lfloor>maximum / base\<rfloor>" using base(2) by (simp only: zero_less_floor)
  ultimately show "((2 * base, maximum), (base, maximum)) \<in> measure (\<lambda>(base, maximum). nat \<lfloor>maximum / base\<rfloor>)"
    by (simp only: in_measure prod.case nat_mono_iff)
qed simp

declare doublings.simps [simp del]

definition retry_delay :: "int \<Rightarrow> rat \<Rightarrow> rat \<Rightarrow> rat" where
  "retry_delay attempt base maximum =
     (if base \<le> 0 \<or> maximum \<le> 0 then 0
      else if maximum \<le> base then maximum
      else min maximum (base * 2 ^ min (nat (attempt - 1)) (doublings base maximum)))"

definition evidence_retry_at :: "int \<Rightarrow> rat \<Rightarrow> rat \<Rightarrow> time \<Rightarrow> py_error + time" where
  "evidence_retry_at attempt base maximum now =
     check (0 \<le> attempt) ValueError (
     check (0 \<le> base \<and> 0 \<le> maximum) ValueError (
     check (base \<le> maximum) ValueError (
     check (0 \<le> now) ValueError (
     Inr (now + retry_delay attempt base maximum)))))"

section \<open>The batching writer\<close>

definition new_writer :: "string \<Rightarrow> int \<Rightarrow> rat \<Rightarrow> time \<Rightarrow> py_error + commit_writer" where
  "new_writer owner flush_count flush_interval now =
     check (1 \<le> flush_count) ValueError (
     check (0 < flush_interval) ValueError (
     check (\<not> blank owner) ValueError (
     check (0 \<le> now) ValueError (
     Inr \<lparr>cw_owner = owner, cw_flush_count = flush_count, cw_flush_interval = flush_interval, cw_pending = [],
       cw_closed = False, cw_last_flush = now, cw_inserted = 0, cw_finished = 0\<rparr>))))"

definition task_provenance :: "query_key \<Rightarrow> evidence_db \<Rightarrow> time \<Rightarrow> provenance" where
  "task_provenance k d when =
     (case primary_task_origin k d of
        None \<Rightarrow> \<lparr>pv_key = k, pv_source_key = [], pv_reservoir_id = [], pv_lease_id = [], pv_committed_at = when, pv_task_kind = []\<rparr>
      | Some (source_key, reservoir_id, lease_id) \<Rightarrow> \<lparr>pv_key = k, pv_source_key = source_key, pv_reservoir_id = reservoir_id,
          pv_lease_id = lease_id, pv_committed_at = when, pv_task_kind = []\<rparr>)"

text \<open>The pairs of a capsule and the key of its result; a capsule whose result has no key is left out.\<close>

definition proven :: "(capsule option \<times> query_result) list \<Rightarrow> (capsule \<times> query_key) list" where
  "proven pending = List.map_filter (\<lambda>(c, r). case (c, er_key r) of (Some c, Some k) \<Rightarrow> Some (c, k) | _ \<Rightarrow> None) pending"

definition attested :: "(capsule \<times> query_key) list \<Rightarrow> (nat \<Rightarrow> time) \<Rightarrow> (capsule \<times> provenance) list act" where
  "attested items clock =
     act_then (act_read (\<lambda>w. List.map2 (\<lambda>i (c, k). bindr (provenance_init (task_provenance k (cn_queue (wd_control w)) (clock i)))
       (\<lambda>p. Inr (c, p))) [0..<length items] items)) (\<lambda>rows. act_init (collect rows))"

text \<open>The order of a flush: first the capsules and their proofs, then the credit, and the tasks last.\<close>

definition store_proofs :: "(capsule \<times> query_key) list \<Rightarrow> (nat \<Rightarrow> time) \<Rightarrow> unit act" where
  "store_proofs items clock =
     act_then (attested items clock) (\<lambda>rows.
     act_then (on_store (put_many_with_task_provenance rows)) (\<lambda>inserted.
     act_then (on_writer (\<lambda>cw. cw\<lparr>cw_inserted := cw_inserted cw + inserted\<rparr>)) (\<lambda>_.
     act_each (\<lambda>(i, (c, k)). act_then (attribute_task_host_years k [cp_year c] (clock i)) (\<lambda>_. act_return ()))
       (zip [length items..<length items + length items] items))))"

definition finish_batch :: "query_result list \<Rightarrow> time \<Rightarrow> unit act" where
  "finish_batch results t =
     act_then (act_read (cw_owner \<circ> wd_writer)) (\<lambda>owner.
     if results \<noteq> []
     then act_then (on_queue (finish_evidence_tasks results owner t)) (\<lambda>m. on_writer (\<lambda>cw. cw\<lparr>cw_finished := cw_finished cw + m\<rparr>))
     else act_return ())"

definition flush_pending :: "(capsule option \<times> query_result) list \<Rightarrow> time \<Rightarrow> (nat \<Rightarrow> time) \<Rightarrow> nat act" where
  "flush_pending pending now clock =
     act_then (if list_ex (\<lambda>(c, _). c \<noteq> None) pending then store_proofs (proven pending) clock else act_return ()) (\<lambda>_.
     act_then (finish_batch (filter (\<lambda>r. er_key r \<noteq> None) (List.map snd pending))
                 (clock (length (proven pending) + length (proven pending)))) (\<lambda>_.
     act_then (on_writer (\<lambda>cw. cw\<lparr>cw_pending := [], cw_last_flush := now\<rparr>)) (\<lambda>_.
     act_return (length pending))))"

definition flush_writer :: "time \<Rightarrow> (nat \<Rightarrow> time) \<Rightarrow> nat act" where
  "flush_writer now clock =
     (if now < 0 then act_raise ValueError
      else act_then (act_read (cw_pending \<circ> wd_writer)) (\<lambda>pending.
        if pending = [] then act_then (on_writer (\<lambda>cw. cw\<lparr>cw_last_flush := now\<rparr>)) (\<lambda>_. act_return 0)
        else flush_pending pending now clock))"

definition submit_result :: "capsule option \<Rightarrow> query_result \<Rightarrow> time \<Rightarrow> (nat \<Rightarrow> time) \<Rightarrow> unit act" where
  "submit_result c r now clock =
     act_then (act_read (cw_closed \<circ> wd_writer)) (\<lambda>closed.
     if closed then act_raise RuntimeError
     else if now < 0 then act_raise ValueError
     else act_then (on_writer (\<lambda>cw. cw\<lparr>cw_pending := cw_pending cw @ [(c, r)]\<rparr>)) (\<lambda>_.
          act_then (act_read wd_writer) (\<lambda>cw.
          if cw_flush_count cw \<le> int (length (cw_pending cw)) \<or> cw_flush_interval cw \<le> now - cw_last_flush cw
          then act_then (flush_writer now clock) (\<lambda>_. act_return ()) else act_return ())))"

definition close_writer :: "time \<Rightarrow> (nat \<Rightarrow> time) \<Rightarrow> unit act" where
  "close_writer now clock =
     act_then (act_read (cw_closed \<circ> wd_writer)) (\<lambda>closed.
     if closed then act_return ()
     else act_then (flush_writer now clock) (\<lambda>_. on_writer (\<lambda>cw. cw\<lparr>cw_closed := True\<rparr>)))"

section \<open>The result committer\<close>

datatype provider_result = Exact_Result query_result | Range_Result range_result | Domain_Result domain_result

record commit_outcome =
  co_terminal :: nat
  co_retryable :: nat
  co_inserted_capsules :: int

definition terminal_outcome :: "int \<Rightarrow> commit_outcome" where
  "terminal_outcome n = \<lparr>co_terminal = 1, co_retryable = 0, co_inserted_capsules = n\<rparr>"

definition retryable_outcome :: "int \<Rightarrow> commit_outcome" where
  "retryable_outcome n = \<lparr>co_terminal = 0, co_retryable = 1, co_inserted_capsules = n\<rparr>"

fun result_key :: "provider_result \<Rightarrow> query_key option" where
  "result_key (Exact_Result r) = er_key r"
| "result_key (Range_Result r) = Some (rr_key r)"
| "result_key (Domain_Result r) = Some (dr_key r)"

fun result_metric :: "query_key \<Rightarrow> int \<Rightarrow> time \<Rightarrow> provider_result \<Rightarrow> metric_row" where
  "result_metric k attempt when (Exact_Result r) = \<lparr>mt_key = k, mt_attempt = attempt, mt_state = er_state r, mt_task_kind = EXACT,
     mt_provider_requests = er_provider_requests r, mt_elapsed_milliseconds = er_provider_elapsed_milliseconds r,
     mt_pages_seen = er_pages_seen r, mt_records_seen = er_records_seen r, mt_recorded_at = when\<rparr>"
| "result_metric k attempt when (Range_Result r) = \<lparr>mt_key = k, mt_attempt = attempt, mt_state = rr_state r, mt_task_kind = EXACT,
     mt_provider_requests = rr_provider_requests r, mt_elapsed_milliseconds = rr_provider_elapsed_milliseconds r,
     mt_pages_seen = rr_pages_seen r, mt_records_seen = rr_records_seen r, mt_recorded_at = when\<rparr>"
| "result_metric k attempt when (Domain_Result r) = \<lparr>mt_key = k, mt_attempt = attempt, mt_state = dr_state r, mt_task_kind = EXACT,
     mt_provider_requests = dr_provider_requests r, mt_elapsed_milliseconds = dr_provider_elapsed_milliseconds r,
     mt_pages_seen = dr_pages_seen r, mt_records_seen = dr_records_seen r, mt_recorded_at = when\<rparr>"

definition persist_positive_capsules :: "query_key \<Rightarrow> capsule list \<Rightarrow> bool \<Rightarrow> (nat \<Rightarrow> time) \<Rightarrow> int act" where
  "persist_positive_capsules k capsules domain clock =
     (if capsules = [] then act_return 0
      else act_then (act_read (\<lambda>w. provenance_init (task_provenance k (cn_queue (wd_control w)) (clock 0)))) (\<lambda>p.
        act_then (act_init p) (\<lambda>p.
        act_then (on_store (put_many_with_task_provenance (List.map (\<lambda>c. (c, p)) capsules))) (\<lambda>inserted.
        act_then (if domain then attribute_domain_task_host_years k capsules (clock 1)
                  else attribute_task_host_years k (List.map cp_year capsules) (clock 1)) (\<lambda>_.
        act_return inserted)))))"

record committer =
  ct_owner :: string
  ct_retry_base :: rat
  ct_retry_max :: rat

definition finish_retryable :: "committer \<Rightarrow> query_key \<Rightarrow> query_state \<Rightarrow> int \<Rightarrow> (nat \<Rightarrow> time) \<Rightarrow> unit act" where
  "finish_retryable C k st attempt clock =
     act_then (act_init (evidence_retry_at attempt (ct_retry_base C) (ct_retry_max C) (clock 2))) (\<lambda>t.
     act_then (on_queue (finish_evidence_task k st (Some (ct_owner C)) (Some t) (clock 3))) (\<lambda>_. act_return ()))"

definition finish_terminal :: "committer \<Rightarrow> query_key \<Rightarrow> query_state \<Rightarrow> (nat \<Rightarrow> time) \<Rightarrow> unit act" where
  "finish_terminal C k st clock =
     act_then (on_queue (finish_range_task k st [] (ct_owner C) (clock 3))) (\<lambda>_. act_return ())"

text \<open>The writer of an exact result has its own clock, \<open>time.monotonic\<close>.\<close>

definition write_exact :: "committer \<Rightarrow> query_result \<Rightarrow> (nat \<Rightarrow> time) \<Rightarrow> (nat \<Rightarrow> time) \<Rightarrow> int act" where
  "write_exact C r clock monotonic =
     act_then (act_init (new_writer (ct_owner C) 1 1 (monotonic 0))) (\<lambda>cw.
     act_then (on_writer (\<lambda>_. cw)) (\<lambda>_.
     act_then (act_finally (submit_result (er_capsule r) r (monotonic 1) clock)
                 (close_writer (monotonic 2) (\<lambda>i. clock (i + 10)))) (\<lambda>_.
     act_read (cw_inserted \<circ> wd_writer))))"

fun commit_result :: "committer \<Rightarrow> query_key \<Rightarrow> int \<Rightarrow> (nat \<Rightarrow> time) \<Rightarrow> (nat \<Rightarrow> time) \<Rightarrow> provider_result \<Rightarrow> commit_outcome act" where
  "commit_result C k attempt clock monotonic (Domain_Result r) =
     act_then (persist_positive_capsules k (dr_capsules r) True clock) (\<lambda>inserted.
     if dr_state r \<in> {Q_DECOMPOSED, Q_INVALID}
     then act_then (finish_terminal C k (dr_state r) clock) (\<lambda>_. act_return (terminal_outcome inserted))
     else if dr_state r = Q_TRANSIENT_ERROR
     then act_then (finish_retryable C k (dr_state r) attempt clock) (\<lambda>_. act_return (retryable_outcome inserted))
     else act_raise ValueError)"
| "commit_result C k attempt clock monotonic (Range_Result r) =
     act_then (persist_positive_capsules k (rr_capsules r) False clock) (\<lambda>inserted.
     if rr_state r \<in> {Q_PASS, Q_EMPTY_EXHAUSTIVE, Q_INVALID}
     then act_then (finish_terminal C k (rr_state r) clock) (\<lambda>_. act_return (terminal_outcome inserted))
     else if rr_state r \<in> {Q_DECOMPOSED, Q_INCOMPLETE, Q_TRANSIENT_ERROR}
     then act_then (finish_retryable C k (if rr_state r = Q_DECOMPOSED then Q_INCOMPLETE else rr_state r) attempt clock)
            (\<lambda>_. act_return (retryable_outcome inserted))
     else act_raise ValueError)"
| "commit_result C k attempt clock monotonic (Exact_Result r) =
     (if er_state r \<in> {Q_PASS, Q_EMPTY_EXHAUSTIVE, Q_INVALID}
      then act_then (write_exact C r clock monotonic) (\<lambda>inserted. act_return (terminal_outcome inserted))
      else if er_state r \<in> {Q_INCOMPLETE, Q_TRANSIENT_ERROR}
      then act_then (finish_retryable C k (er_state r) attempt clock) (\<lambda>_. act_return (retryable_outcome 0))
      else act_raise ValueError)"

definition commit :: "committer \<Rightarrow> evidence_task \<Rightarrow> (nat \<Rightarrow> time) \<Rightarrow> (nat \<Rightarrow> time) \<Rightarrow> provider_result \<Rightarrow> commit_outcome act" where
  "commit C task clock monotonic r =
     (case result_key r of
        None \<Rightarrow> act_raise ValueError
      | Some k \<Rightarrow>
          if k \<noteq> tk_key task then act_raise ValueError
          else act_then (on_queue (record_attempt_metric (result_metric k (tk_attempt task) (clock 4) r))) (\<lambda>_.
            commit_result C k (tk_attempt task) clock monotonic r))"

end
