(* ===== verification/Evidence_Store_Properties.thy ===== *)
theory Evidence_Store_Properties
  imports Evidence_Store
begin

text \<open>
  Histories of the evidence store and what it promises: an index that agrees with the capsules, writes
  that can be repeated, an export with one capsule per proven host-year, numbered pages that reach every
  host-year once, and attributions that never change hands.
\<close>

section \<open>Insertions\<close>

lemma insert_all_appends:
  "\<exists>new. fold (tbl_insert_or_ignore key) rows t = t @ new \<and> set new \<subseteq> set rows"
proof (induction rows arbitrary: t)
  case (Cons r rows)
  obtain new where new: "fold (tbl_insert_or_ignore key) rows (tbl_insert_or_ignore key r t) = tbl_insert_or_ignore key r t @ new"
      "set new \<subseteq> set rows" using Cons.IH by blast
  show ?case
  proof (cases "key r \<in> key ` set t")
    case True
    then have "tbl_insert_or_ignore key r t = t" by (simp add: tbl_insert_or_ignore_def)
    with new show ?thesis by (intro exI [of _ new]) auto
  next
    case False
    then have "tbl_insert_or_ignore key r t = t @ [r]" by (simp add: tbl_insert_or_ignore_def)
    with new show ?thesis by (intro exI [of _ "r # new"]) auto
  qed
qed simp

lemma insert_all_keys: "key ` set (fold (tbl_insert_or_ignore key) rows t) = key ` set t \<union> key ` set rows"
  by (induction rows arbitrary: t) (auto simp: tbl_insert_or_ignore_def)

lemma insert_all_uniq: "uniq key t \<Longrightarrow> uniq key (fold (tbl_insert_or_ignore key) rows t)"
  by (induction rows arbitrary: t) (auto simp: tbl_insert_or_ignore_def uniq_def)

lemma insert_all_known: "key ` set rows \<subseteq> key ` set t \<Longrightarrow> fold (tbl_insert_or_ignore key) rows t = t"
  by (induction rows) (auto simp: tbl_insert_or_ignore_def)

text \<open>A table whose rows are numbered by a counter.\<close>

definition numbered :: "('r \<Rightarrow> nat) \<Rightarrow> nat \<Rightarrow> 'r list \<Rightarrow> bool" where
  "numbered f n t \<longleftrightarrow> sorted_wrt (<) (List.map f t) \<and> (\<forall>r \<in> set t. 1 \<le> f r \<and> f r \<le> n)"

lemma numbered_insert: "numbered f n t \<Longrightarrow> f r = Suc n \<Longrightarrow> numbered f (Suc n) (tbl_insert_or_ignore key r t)"
  by (fastforce simp: numbered_def tbl_insert_or_ignore_def sorted_wrt_append)

lemma insert_host_year_fields [simp]:
  "es_capsules (insert_host_year hy s) = es_capsules s" "es_proofs (insert_host_year hy s) = es_proofs s"
  "es_proof_counter (insert_host_year hy s) = es_proof_counter s" "es_indexed (insert_host_year hy s) = es_indexed s"
  "es_cutover (insert_host_year hy s) = es_cutover s"
  by (simp_all add: insert_host_year_def)

lemma insert_host_years_fields [simp]:
  "es_capsules (fold insert_host_year hys s) = es_capsules s" "es_proofs (fold insert_host_year hys s) = es_proofs s"
  "es_proof_counter (fold insert_host_year hys s) = es_proof_counter s" "es_indexed (fold insert_host_year hys s) = es_indexed s"
  "es_cutover (fold insert_host_year hys s) = es_cutover s"
  by (induction hys arbitrary: s) simp_all

lemma insert_proofs_fields [simp]:
  "es_capsules (fold insert_proof ps s) = es_capsules s" "es_host_years (fold insert_proof ps s) = es_host_years s"
  "es_host_year_counter (fold insert_proof ps s) = es_host_year_counter s" "es_indexed (fold insert_proof ps s) = es_indexed s"
  "es_cutover (fold insert_proof ps s) = es_cutover s"
  by (induction ps arbitrary: s) (simp_all add: insert_proof_def)

lemma insert_capsules_fields [simp]:
  "es_capsules (insert_capsules rows s) = fold (tbl_insert_or_ignore capsule_key) rows (es_capsules s)"
  "es_host_years (insert_capsules rows s) = es_host_years s" "es_proofs (insert_capsules rows s) = es_proofs s"
  "es_host_year_counter (insert_capsules rows s) = es_host_year_counter s"
  "es_proof_counter (insert_capsules rows s) = es_proof_counter s" "es_indexed (insert_capsules rows s) = es_indexed s"
  "es_cutover (insert_capsules rows s) = es_cutover s"
  by (simp_all add: insert_capsules_def)

lemma host_year_mk [simp]: "host_year \<lparr>hy_sequence = n, hy_hostname = fst hy, hy_year = snd hy\<rparr> = hy"
  by (simp add: host_year_def)

definition index_ok :: "evidence_store \<Rightarrow> bool" where
  "index_ok s \<longleftrightarrow> uniq host_year (es_host_years s) \<and> numbered hy_sequence (es_host_year_counter s) (es_host_years s)"

lemma insert_host_years:
  assumes "index_ok s"
  shows "index_ok (fold insert_host_year hys s)"
    "host_year ` set (es_host_years (fold insert_host_year hys s)) = host_year ` set (es_host_years s) \<union> set hys"
    "\<exists>new. es_host_years (fold insert_host_year hys s) = es_host_years s @ new"
proof -
  have one: "index_ok (insert_host_year hy s) \<and> host_year ` set (es_host_years (insert_host_year hy s)) = insert hy (host_year ` set (es_host_years s)) \<and>
      (\<exists>new. es_host_years (insert_host_year hy s) = es_host_years s @ new)" if "index_ok s" for hy s
  proof -
    let ?r = "\<lparr>hy_sequence = Suc (es_host_year_counter s), hy_hostname = fst hy, hy_year = snd hy\<rparr>"
    have "index_ok (insert_host_year hy s)"
      using that numbered_insert [of hy_sequence "es_host_year_counter s" "es_host_years s" ?r host_year]
      by (auto simp: index_ok_def insert_host_year_def uniq_def tbl_insert_or_ignore_def)
    then show ?thesis by (auto simp: insert_host_year_def tbl_insert_or_ignore_def)
  qed
  have "index_ok (fold insert_host_year hys s) \<and>
      host_year ` set (es_host_years (fold insert_host_year hys s)) = host_year ` set (es_host_years s) \<union> set hys \<and>
      (\<exists>new. es_host_years (fold insert_host_year hys s) = es_host_years s @ new)"
    using assms
  proof (induction hys arbitrary: s)
    case (Cons hy hys)
    from Cons.IH [of "insert_host_year hy s"] one [OF Cons.prems, of hy] show ?case by auto
  qed simp
  then show "index_ok (fold insert_host_year hys s)"
    "host_year ` set (es_host_years (fold insert_host_year hys s)) = host_year ` set (es_host_years s) \<union> set hys"
    "\<exists>new. es_host_years (fold insert_host_year hys s) = es_host_years s @ new" by blast+
qed

lemma known_host_years: "set hys \<subseteq> host_year ` set (es_host_years s) \<Longrightarrow> es_host_years (fold insert_host_year hys s) = es_host_years s"
proof (induction hys arbitrary: s)
  case (Cons hy hys)
  then have "es_host_years (insert_host_year hy s) = es_host_years s"
    by (auto simp: insert_host_year_def tbl_insert_or_ignore_def)
  with Cons show ?case by simp
qed simp

definition proofs_ok :: "evidence_store \<Rightarrow> bool" where
  "proofs_ok s \<longleftrightarrow> uniq proof_key (es_proofs s) \<and> numbered pf_sequence (es_proof_counter s) (es_proofs s)"

lemma insert_proofs:
  assumes "proofs_ok s"
  shows "proofs_ok (fold insert_proof ps s)"
    "proof_key ` set (es_proofs (fold insert_proof ps s)) = proof_key ` set (es_proofs s) \<union> proof_key ` set ps"
    "\<exists>new. es_proofs (fold insert_proof ps s) = es_proofs s @ new"
proof -
  have key: "proof_key (p\<lparr>pf_sequence := n\<rparr>) = proof_key p" for p n by (simp add: proof_key_def)
  have one: "proofs_ok (insert_proof p s) \<and>
      proof_key ` set (es_proofs (insert_proof p s)) = insert (proof_key p) (proof_key ` set (es_proofs s)) \<and>
      (\<exists>new. es_proofs (insert_proof p s) = es_proofs s @ new)" if "proofs_ok s" for p s
  proof -
    let ?r = "p\<lparr>pf_sequence := Suc (es_proof_counter s)\<rparr>"
    have "proofs_ok (insert_proof p s)"
      using that numbered_insert [of pf_sequence "es_proof_counter s" "es_proofs s" ?r proof_key]
      by (auto simp: proofs_ok_def insert_proof_def uniq_def tbl_insert_or_ignore_def key)
    then show ?thesis by (auto simp: insert_proof_def tbl_insert_or_ignore_def key)
  qed
  have "proofs_ok (fold insert_proof ps s) \<and>
      proof_key ` set (es_proofs (fold insert_proof ps s)) = proof_key ` set (es_proofs s) \<union> proof_key ` set ps \<and>
      (\<exists>new. es_proofs (fold insert_proof ps s) = es_proofs s @ new)"
    using assms
  proof (induction ps arbitrary: s)
    case (Cons p ps)
    from one [OF Cons.prems, of p] Cons.IH [of "insert_proof p s"] show ?case by auto
  qed simp
  then show "proofs_ok (fold insert_proof ps s)"
    "proof_key ` set (es_proofs (fold insert_proof ps s)) = proof_key ` set (es_proofs s) \<union> proof_key ` set ps"
    "\<exists>new. es_proofs (fold insert_proof ps s) = es_proofs s @ new" by blast+
qed

lemma known_proofs: "proof_key ` set ps \<subseteq> proof_key ` set (es_proofs s) \<Longrightarrow> es_proofs (fold insert_proof ps s) = es_proofs s"
proof (induction ps arbitrary: s)
  case (Cons p ps)
  have "proof_key (p\<lparr>pf_sequence := n\<rparr>) = proof_key p" for n by (simp add: proof_key_def)
  then have "es_proofs (insert_proof p s) = es_proofs s"
    using Cons.prems by (auto simp: insert_proof_def tbl_insert_or_ignore_def)
  with Cons show ?case by simp
qed simp

lemma proof_capsules: "pf_capsule ` P = fst ` proof_key ` P"
  by (simp add: image_image proof_key_def)

section \<open>Histories\<close>

definition valid_capsule :: "capsule \<Rightarrow> bool" where
  "valid_capsule c \<longleftrightarrow> capsule_init c = Inr c"

text \<open>Callers pass capsules, which their constructor has checked; the start is a store of any capsules.\<close>

inductive store_step :: "evidence_store \<Rightarrow> evidence_store \<Rightarrow> bool" where
  save: "list_all valid_capsule cs \<Longrightarrow> put_many cs s = Inr (n, t) \<Longrightarrow> store_step s t"
| attest: "list_all (valid_capsule \<circ> fst) items \<Longrightarrow> put_many_with_task_provenance items s = Inr (n, t) \<Longrightarrow> store_step s t"
| reopen: "store_step s (ensure_schema s)"

definition opened :: "evidence_store \<Rightarrow> bool" where
  "opened s \<longleftrightarrow> (\<exists>cs. list_all valid_capsule cs \<and> uniq capsule_key cs \<and> s = ensure_schema (empty_store\<lparr>es_capsules := cs\<rparr>))"

definition capsules_ok :: "evidence_store \<Rightarrow> bool" where
  "capsules_ok s \<longleftrightarrow> uniq capsule_key (es_capsules s) \<and> (\<forall>c \<in> set (es_capsules s). valid_capsule c)"

definition store_inv :: "evidence_store \<Rightarrow> bool" where
  "store_inv s \<longleftrightarrow> capsules_ok s \<and> index_ok s \<and> proofs_ok s \<and> es_indexed s \<and> es_cutover s \<noteq> None \<and>
     host_year ` set (es_host_years s) = capsule_host_year ` set (es_capsules s) \<and>
     pf_capsule ` set (es_proofs s) \<subseteq> capsule_key ` set (es_capsules s)"

lemma capsule_init_again: "capsule_init c = Inr c' \<Longrightarrow> capsule_init c' = Inr c'"
proof -
  assume init: "capsule_init c = Inr c'"
  then obtain h where h: "normalize_official (cp_hostname c) = Some h"
    by (cases "normalize_official (cp_hostname c)") (simp_all add: capsule_init_def)
  have again: "or_else (or_else x y) y = or_else x y" for x y by (simp add: or_else_def)
  show ?thesis using init normalize_again [OF h] by (auto simp: capsule_init_def h again simp del: if_split)
qed

lemma valid_normalized: "valid_capsule c \<Longrightarrow> normalized c = Inr c"
  by (cases c) (auto simp: valid_capsule_def capsule_init_def normalized_def split: option.splits)

lemma collect_id: "(\<And>x. x \<in> set xs \<Longrightarrow> f x = Inr x) \<Longrightarrow> collect (List.map f xs) = Inr xs"
  by (simp add: collect_Inr)

lemma put_many_valid:
  assumes "list_all valid_capsule cs"
  shows "put_many cs s = Inr (if cs = [] then (0, s) else
    (int (length (es_capsules (insert_capsules cs s))) - int (length (es_capsules s)),
     fold insert_host_year (dedup (List.map capsule_host_year cs)) (insert_capsules cs s)))"
proof -
  have "collect (List.map normalized cs) = Inr cs"
    using assms by (intro collect_id) (simp add: list_all_iff valid_normalized)
  then show ?thesis by (simp add: put_many_def Let_def)
qed

lemma insert_capsules_ok:
  assumes "capsules_ok s" "list_all valid_capsule cs"
  shows "capsules_ok (insert_capsules cs s)"
    "capsule_key ` set (es_capsules (insert_capsules cs s)) = capsule_key ` set (es_capsules s) \<union> capsule_key ` set cs"
    "capsule_host_year ` set (es_capsules (insert_capsules cs s)) = capsule_host_year ` set (es_capsules s) \<union> capsule_host_year ` set cs"
    "\<exists>new. es_capsules (insert_capsules cs s) = es_capsules s @ new"
proof -
  obtain new where new: "fold (tbl_insert_or_ignore capsule_key) cs (es_capsules s) = es_capsules s @ new" "set new \<subseteq> set cs"
    using insert_all_appends [of capsule_key cs "es_capsules s"] by (elim exE conjE)
  from new(1) show "\<exists>new. es_capsules (insert_capsules cs s) = es_capsules s @ new" by (intro exI [of _ new]) simp
  have "uniq capsule_key (es_capsules (insert_capsules cs s))"
    using assms(1) insert_all_uniq [of capsule_key "es_capsules s" cs] by (simp add: capsules_ok_def)
  moreover have "valid_capsule c" if "c \<in> set (es_capsules (insert_capsules cs s))" for c
    using that assms new by (auto simp: capsules_ok_def list_all_iff)
  ultimately show "capsules_ok (insert_capsules cs s)" by (simp add: capsules_ok_def)
  show keys: "capsule_key ` set (es_capsules (insert_capsules cs s)) = capsule_key ` set (es_capsules s) \<union> capsule_key ` set cs"
    by (simp add: insert_all_keys)
  have hy: "capsule_host_year ` C = (\<lambda>(h, y, _). (h, y)) ` capsule_key ` C" for C
    by (simp add: image_image capsule_key_def capsule_host_year_def)
  show "capsule_host_year ` set (es_capsules (insert_capsules cs s)) = capsule_host_year ` set (es_capsules s) \<union> capsule_host_year ` set cs"
    unfolding hy keys by (rule image_Un)
qed

lemma attest_items:
  assumes "collect (List.map (\<lambda>(c, p). proof_of c p) items) = Inr rows" "list_all (valid_capsule \<circ> fst) items"
  shows "List.map fst rows = List.map fst items" "List.map (pf_capsule \<circ> snd) rows = List.map (capsule_key \<circ> fst) items"
proof -
  have item: "r = c \<and> pf_capsule q = capsule_key c" if "proof_of c p = Inr (r, q)" "valid_capsule c" for c p r q
    using that valid_normalized by (auto simp: proof_of_def Let_def)
  from assms have "List.map fst rows = List.map fst items \<and> List.map (pf_capsule \<circ> snd) rows = List.map (capsule_key \<circ> fst) items"
    by (induction items arbitrary: rows) (auto dest: item)
  then show "List.map fst rows = List.map fst items" "List.map (pf_capsule \<circ> snd) rows = List.map (capsule_key \<circ> fst) items"
    by blast+
qed

lemma attest_shape:
  assumes "put_many_with_task_provenance items s = Inr (n, t)" "list_all (valid_capsule \<circ> fst) items" "items \<noteq> []"
  obtains ps where "t = fold insert_proof ps (fold insert_host_year (dedup (List.map (capsule_host_year \<circ> fst) items))
      (insert_capsules (List.map fst items) s))" "List.map pf_capsule ps = List.map (capsule_key \<circ> fst) items"
    "collect (List.map (\<lambda>(c, p). proof_of c p) items) = Inr (zip (List.map fst items) ps)"
    "n = int (length (es_capsules (insert_capsules (List.map fst items) s))) - int (length (es_capsules s))"
proof -
  obtain rows where rows: "collect (List.map (\<lambda>(c, p). proof_of c p) items) = Inr rows"
    using assms(1) by (auto simp: put_many_with_task_provenance_def)
  note shape = attest_items [OF rows assms(2)]
  have "rows \<noteq> []" using shape(1) assms(3) by auto
  then have "t = fold insert_proof (List.map snd rows) (fold insert_host_year (dedup (List.map capsule_host_year (List.map fst rows)))
      (insert_capsules (List.map fst rows) s))"
    "n = int (length (es_capsules (insert_capsules (List.map fst rows) s))) - int (length (es_capsules s))"
    using assms(1) rows by (simp_all add: put_many_with_task_provenance_def Let_def)
  moreover have "rows = zip (List.map fst rows) (List.map snd rows)" by (simp add: zip_map_fst_snd)
  ultimately show ?thesis using shape rows by (intro that [of "List.map snd rows"]) (simp_all add: comp_def)
qed

lemma written_inv:
  assumes inv: "store_inv s" and cs: "list_all valid_capsule cs" and ps: "pf_capsule ` set ps \<subseteq> capsule_key ` set cs"
  shows "store_inv (fold insert_proof ps (fold insert_host_year (dedup (List.map capsule_host_year cs)) (insert_capsules cs s)))"
proof -
  let ?s1 = "insert_capsules cs s"
  let ?s2 = "fold insert_host_year (dedup (List.map capsule_host_year cs)) ?s1"
  let ?s3 = "fold insert_proof ps ?s2"
  have ok: "capsules_ok s" "index_ok s" "proofs_ok s" "es_indexed s" "es_cutover s \<noteq> None"
      "host_year ` set (es_host_years s) = capsule_host_year ` set (es_capsules s)"
      "pf_capsule ` set (es_proofs s) \<subseteq> capsule_key ` set (es_capsules s)"
    using inv unfolding store_inv_def by blast+
  note caps = insert_capsules_ok [OF ok(1) cs]
  have i1: "index_ok ?s1" "proofs_ok ?s2" using ok(2,3) by (simp_all add: index_ok_def proofs_ok_def)
  note hys = insert_host_years [OF i1(1), of "dedup (List.map capsule_host_year cs)"]
  note made = insert_proofs [OF i1(2), of ps]
  have "capsules_ok ?s3" using caps(1) by (simp add: capsules_ok_def)
  moreover have "index_ok ?s3" using hys(1) by (simp add: index_ok_def)
  moreover have "host_year ` set (es_host_years ?s3) = capsule_host_year ` set (es_capsules ?s3)"
  proof -
    have "host_year ` set (es_host_years ?s3) = capsule_host_year ` set (es_capsules s) \<union> capsule_host_year ` set cs"
      using hys(2) ok(6) by simp
    also have "\<dots> = capsule_host_year ` set (es_capsules ?s1)" by (rule caps(3) [symmetric])
    finally show ?thesis by simp
  qed
  moreover have "pf_capsule ` set (es_proofs ?s3) \<subseteq> capsule_key ` set (es_capsules ?s3)"
  proof -
    have "pf_capsule ` set (es_proofs ?s3) = pf_capsule ` set (es_proofs s) \<union> pf_capsule ` set ps"
      unfolding proof_capsules made(2) by (simp add: image_Un)
    also have "\<dots> \<subseteq> capsule_key ` set (es_capsules s) \<union> capsule_key ` set cs" using ok(7) ps by blast
    also have "\<dots> = capsule_key ` set (es_capsules ?s1)" by (rule caps(2) [symmetric])
    finally show ?thesis by simp
  qed
  ultimately show ?thesis using made(1) ok(4,5) unfolding store_inv_def by simp
qed

lemma ensured_inv:
  assumes "capsules_ok s" "index_ok s" "proofs_ok s" "pf_capsule ` set (es_proofs s) \<subseteq> capsule_key ` set (es_capsules s)"
    and "host_year ` set (es_host_years s) \<subseteq> capsule_host_year ` set (es_capsules s)"
    and "es_indexed s \<Longrightarrow> host_year ` set (es_host_years s) = capsule_host_year ` set (es_capsules s)"
  shows "store_inv (ensure_schema s)"
proof -
  define s1 where "s1 = (if es_indexed s then s
      else (fold insert_host_year (sort (dedup (List.map capsule_host_year (es_capsules s)))) s)\<lparr>es_indexed := True\<rparr>)"
  note hys = insert_host_years [OF assms(2), of "sort (dedup (List.map capsule_host_year (es_capsules s)))"]
  have s1: "capsules_ok s1" "index_ok s1" "proofs_ok s1" "es_indexed s1" "es_capsules s1 = es_capsules s" "es_proofs s1 = es_proofs s"
      "host_year ` set (es_host_years s1) = capsule_host_year ` set (es_capsules s)"
    using assms hys(1,2) by (simp_all add: s1_def capsules_ok_def index_ok_def proofs_ok_def) blast+
  have "ensure_schema s = (if es_cutover s1 = None then s1\<lparr>es_cutover := Some (max_host_year_sequence s1)\<rparr> else s1)"
    by (simp add: ensure_schema_def s1_def Let_def)
  with s1 assms(4) show ?thesis by (simp add: store_inv_def capsules_ok_def index_ok_def proofs_ok_def)
qed

lemma store_step_inv: "store_inv s \<Longrightarrow> store_step s t \<Longrightarrow> store_inv t"
proof (cases rule: store_step.cases, assumption)
  fix cs n
  assume "store_inv s" "list_all valid_capsule cs" "put_many cs s = Inr (n, t)"
  then show "store_inv t" using written_inv [of s cs "[]"] by (simp add: put_many_valid split: if_splits)
next
  fix items n
  assume inv: "store_inv s" and items: "list_all (valid_capsule \<circ> fst) items" and op: "put_many_with_task_provenance items s = Inr (n, t)"
  show "store_inv t"
  proof (cases "items = []")
    case True
    with op inv show ?thesis by (simp add: put_many_with_task_provenance_def)
  next
    case False
    obtain ps where t: "t = fold insert_proof ps (fold insert_host_year (dedup (List.map (capsule_host_year \<circ> fst) items))
        (insert_capsules (List.map fst items) s))" and ps: "List.map pf_capsule ps = List.map (capsule_key \<circ> fst) items"
      using attest_shape [OF op items False] by blast
    have "set (List.map pf_capsule ps) = set (List.map (capsule_key \<circ> fst) items)" using ps by simp
    then have "pf_capsule ` set ps \<subseteq> capsule_key ` set (List.map fst items)" by (simp add: image_image)
    from written_inv [OF inv _ this] items show ?thesis unfolding t by (simp add: list_all_iff)
  qed
next
  assume "store_inv s" "t = ensure_schema s"
  then show "store_inv t" using ensured_inv [of s] by (simp add: store_inv_def)
qed

lemma opened_inv: "opened s \<Longrightarrow> store_inv s"
  unfolding opened_def
  by (elim exE conjE, hypsubst, rule ensured_inv)
     (auto simp: empty_store_def capsules_ok_def index_ok_def proofs_ok_def list_all_iff numbered_def)

interpretation evidence_store: machine opened store_step store_inv
  by unfold_locales (auto intro: opened_inv store_step_inv)

section \<open>Properties\<close>

lemma store_reached: "opened s \<Longrightarrow> store_step\<^sup>*\<^sup>* s t \<Longrightarrow> store_inv t"
  by (rule evidence_store.inv_reachable)

definition demo_proof :: "string \<Rightarrow> capsule" where
  "demo_proof digest = \<lparr>cp_hostname = ''a.com'', cp_year = 1998, cp_provider = ''w'', cp_temporal_semantics = [],
     cp_evidence_timestamp = [], cp_source_locator = ''l'', cp_payload_hash = digest, cp_policy_version = ''v'',
     cp_evidence_type = ''archive_capture'', cp_source_id = ''w'', cp_original_url = ''l'', cp_record_locator = ''l'',
     cp_extraction_method = ''provider_record''\<rparr>"

definition demo_store :: evidence_store where
  "demo_store = \<lparr>es_capsules = [demo_proof ''p'', demo_proof ''q''],
     es_host_years = [\<lparr>hy_sequence = 1, hy_hostname = ''a.com'', hy_year = 1998\<rparr>], es_proofs = [],
     es_host_year_counter = 1, es_proof_counter = 0, es_indexed = True, es_cutover = Some 0\<rparr>"

lemma demo_proof_valid: "valid_capsule (demo_proof ''p'')" "valid_capsule (demo_proof ''q'')"
proof -
  have nb: "\<not> blank ''w''" "\<not> blank ''v''" "\<not> blank ''p''" "\<not> blank ''q''" by (simp_all add: blank_iff py_space_def Let_def)
  then show "valid_capsule (demo_proof ''p'')" "valid_capsule (demo_proof ''q'')"
    by (simp_all add: valid_capsule_def capsule_init_def demo_proof_def demo_host or_else_def)
qed

lemma demo_put: "put_many [demo_proof ''p'', demo_proof ''q''] (ensure_schema empty_store) = Inr (2, demo_store)"
proof -
  have "list_all valid_capsule [demo_proof ''p'', demo_proof ''q'']" using demo_proof_valid by simp
  then show ?thesis
    by (simp add: put_many_valid insert_capsules_def tbl_insert_or_ignore_def capsule_key_def)
       (simp add: demo_proof_def demo_store_def ensure_schema_def empty_store_def dedup_def capsule_host_year_def
          insert_host_year_def tbl_insert_or_ignore_def host_year_def max_host_year_sequence_def insert_capsules_def capsule_key_def)
qed

lemma demo_store_reached: "opened (ensure_schema empty_store)" "store_step\<^sup>*\<^sup>* (ensure_schema empty_store) demo_store"
proof -
  have "empty_store\<lparr>es_capsules := []\<rparr> = empty_store" by (simp add: empty_store_def)
  then show "opened (ensure_schema empty_store)" by (auto simp: opened_def intro: exI [of _ "[]"])
  show "store_step\<^sup>*\<^sup>* (ensure_schema empty_store) demo_store"
    using demo_put demo_proof_valid by (intro r_into_rtranclp store_step.save [of "[demo_proof ''p'', demo_proof ''q'']"]) simp_all
qed

text \<open>
  C25: the tables of the evidence store agree. In every store reached from opening one, with or without
  earlier capsules, by writes, attested writes and reopening, the capsules are valid and distinct by
  key, the index holds exactly the host-years of the capsules, numbered in strictly increasing order,
  and every provenance row refers to a stored capsule.
\<close>

theorem evidence_index_complete:
  assumes "opened s" "store_step\<^sup>*\<^sup>* s t"
  shows "uniq capsule_key (es_capsules t) \<and> (\<forall>c \<in> set (es_capsules t). capsule_init c = Inr c) \<and>
    host_year ` set (es_host_years t) = capsule_host_year ` set (es_capsules t) \<and> uniq host_year (es_host_years t) \<and>
    sorted_wrt (<) (List.map hy_sequence (es_host_years t)) \<and> sorted_wrt (<) (List.map pf_sequence (es_proofs t)) \<and>
    uniq proof_key (es_proofs t) \<and> pf_capsule ` set (es_proofs t) \<subseteq> capsule_key ` set (es_capsules t)"
proof -
  have "store_inv t" using assms by (rule store_reached)
  then show ?thesis
    by (simp add: store_inv_def capsules_ok_def index_ok_def proofs_ok_def numbered_def valid_capsule_def)
qed

theorem evidence_index_complete_witness:
  "host_year ` set (es_host_years demo_store) = {(''a.com'', 1998)} \<and> uniq capsule_key (es_capsules demo_store)"
  using evidence_index_complete [OF demo_store_reached] by (simp add: demo_store_def demo_proof_def capsule_host_year_def)

text \<open>
  C26: a write can be repeated. Replaying an attested write after it committed, as a worker does after a
  crash between the two databases, inserts no capsule and reports none, and leaves the capsules, the
  index and the provenance rows as they are.
\<close>

theorem attested_write_replays:
  assumes "list_all (valid_capsule \<circ> fst) items" "opened s0" "store_step\<^sup>*\<^sup>* s0 s"
    and "put_many_with_task_provenance items s = Inr (n, t)"
  shows "\<exists>u. put_many_with_task_provenance items t = Inr (0, u) \<and> es_capsules u = es_capsules t \<and>
    es_host_years u = es_host_years t \<and> es_proofs u = es_proofs t"
proof (cases "items = []")
  case True
  then show ?thesis by (simp add: put_many_with_task_provenance_def)
next
  case False
  let ?cs = "List.map fst items" and ?hys = "dedup (List.map (capsule_host_year \<circ> fst) items)"
  obtain ps where t: "t = fold insert_proof ps (fold insert_host_year ?hys (insert_capsules ?cs s))"
      and ps: "List.map pf_capsule ps = List.map (capsule_key \<circ> fst) items"
      and rows: "collect (List.map (\<lambda>(c, p). proof_of c p) items) = Inr (zip ?cs ps)"
    using attest_shape [OF assms(4,1) False] by blast
  have len: "length ps = length items" using ps by (metis length_map)
  have inv: "store_inv s" "list_all valid_capsule ?cs" using assms store_reached by (simp_all add: list_all_iff)
  have ok: "capsules_ok s" "index_ok (insert_capsules ?cs s)" "proofs_ok (fold insert_host_year ?hys (insert_capsules ?cs s))"
    using inv(1) by (simp_all add: store_inv_def index_ok_def proofs_ok_def)
  have "capsule_key ` set ?cs \<subseteq> capsule_key ` set (es_capsules t)" using insert_capsules_ok(2) [OF ok(1) inv(2)] by (simp add: t)
  then have c: "es_capsules (insert_capsules ?cs t) = es_capsules t" by (simp add: insert_all_known)
  have "set ?hys \<subseteq> host_year ` set (es_host_years t)" using insert_host_years(2) [OF ok(2), of ?hys] by (simp add: t)
  then have h: "es_host_years (fold insert_host_year ?hys u) = es_host_years u" if "es_host_years u = es_host_years t" for u
    using known_host_years that by metis
  have "proof_key ` set ps \<subseteq> proof_key ` set (es_proofs t)" using insert_proofs(2) [OF ok(3), of ps] by (simp add: t)
  then have p: "es_proofs (fold insert_proof ps u) = es_proofs u" if "es_proofs u = es_proofs t" for u
    using known_proofs that by metis
  have "zip ?cs ps \<noteq> []" "List.map fst (zip ?cs ps) = ?cs" "List.map snd (zip ?cs ps) = ps" using len False by (simp_all add: zip_eq_Nil_iff) auto
  then have "put_many_with_task_provenance items t =
      Inr (0, fold insert_proof ps (fold insert_host_year (dedup (List.map capsule_host_year ?cs)) (insert_capsules ?cs t)))"
    using rows c by (simp add: put_many_with_task_provenance_def Let_def flip: map_map)
  then show ?thesis using c h p by simp
qed

definition demo_query :: query_key where
  "demo_query = \<lparr>qk_hostname = ''a.com'', qk_temporal_scope = \<lparr>ts_from = 1998, ts_to = 1998\<rparr>, qk_provider = ''w'', qk_policy_version = ''v''\<rparr>"

definition demo_provenance :: provenance where
  "demo_provenance = \<lparr>pv_key = demo_query, pv_source_key = ''s'', pv_reservoir_id = ''r'', pv_lease_id = ''l'',
     pv_committed_at = 5, pv_task_kind = []\<rparr>"

lemma demo_attest: "\<exists>t. put_many_with_task_provenance [(demo_proof ''p'', demo_provenance)] demo_store = Inr (0, t) \<and>
    List.map proof_host_year (es_proofs t) = [(''a.com'', 1998)]"
proof -
  have "proof_of (demo_proof ''p'') demo_provenance = Inr (demo_proof ''p'', \<lparr>pf_sequence = 0, pf_capsule = capsule_key (demo_proof ''p''),
      pf_task_kind = ''exact'', pf_task_key = demo_query, pf_source_key = ''s'', pf_reservoir_id = ''r'', pf_lease_id = ''l'', pf_committed_at = 5\<rparr>)"
    using valid_normalized [OF demo_proof_valid(1)]
    by (simp add: proof_of_def demo_provenance_def or_else_def task_kind_of_def year_from_def year_to_def)
       (simp add: demo_query_def demo_proof_def)
  then show ?thesis
    by (simp add: put_many_with_task_provenance_def Let_def insert_proof_def tbl_insert_or_ignore_def insert_all_known)
       (simp add: demo_store_def proof_host_year_def capsule_key_def demo_proof_def)
qed

theorem attested_write_replays_witness:
  "\<exists>t u. put_many_with_task_provenance [(demo_proof ''p'', demo_provenance)] t = Inr (0, u) \<and> length (es_proofs u) = 1"
proof -
  obtain t where t: "put_many_with_task_provenance [(demo_proof ''p'', demo_provenance)] demo_store = Inr (0, t)" "List.map proof_host_year (es_proofs t) = [(''a.com'', 1998)]"
    using demo_attest by (elim exE conjE)
  have "list_all (valid_capsule \<circ> fst) [(demo_proof ''p'', demo_provenance)]" using demo_proof_valid by simp
  from attested_write_replays [OF this demo_store_reached t(1)] t(2) show ?thesis by (metis length_map length_Cons list.size(3) One_nat_def)
qed

subsection \<open>The export\<close>

lemma skip_batches:
  "canonical_batches k (map_chunks) = fst (skip_repeats k (concat map_chunks))"
proof (induction map_chunks arbitrary: k)
  case (Cons b bs)
  have "skip_repeats k (xs @ ys) = (let (out, k') = skip_repeats k xs; (out', k'') = skip_repeats k' ys in (out @ out', k''))" for xs ys k
    by (induction xs arbitrary: k) (auto split: prod.splits)
  then show ?case using Cons by (simp split: prod.splits)
qed simp

lemma key_le_host_year: "capsule_key c \<le> capsule_key d \<Longrightarrow> capsule_host_year c \<le> capsule_host_year d"
  by (auto simp: capsule_key_def capsule_host_year_def)

text \<open>On rows in key order the skipping keeps the first row of each host-year but the last one seen.\<close>

lemma skip_sorted:
  assumes "sorted (List.map capsule_key cs)" "\<And>c hy. c \<in> set cs \<Longrightarrow> k = Some hy \<Longrightarrow> hy \<le> capsule_host_year c"
  shows "capsule_host_year ` set (fst (skip_repeats k cs)) = {hy \<in> capsule_host_year ` set cs. Some hy \<noteq> k} \<and>
    sorted_wrt (<) (List.map capsule_host_year (fst (skip_repeats k cs))) \<and>
    (\<forall>c \<in> set (fst (skip_repeats k cs)). c \<in> set cs \<and> (\<forall>d \<in> set cs. capsule_host_year d = capsule_host_year c \<longrightarrow> capsule_key c \<le> capsule_key d))"
  using assms
proof (induction cs arbitrary: k)
  case (Cons c cs)
  have le: "capsule_key c \<le> capsule_key d" "capsule_host_year c \<le> capsule_host_year d" if "d \<in> set cs" for d
    using Cons.prems(1) that key_le_host_year by auto
  show ?case
  proof (cases "Some (capsule_host_year c) = k")
    case True
    have "capsule_host_year ` set (fst (skip_repeats k cs)) = {hy \<in> capsule_host_year ` set cs. Some hy \<noteq> k} \<and>
      sorted_wrt (<) (List.map capsule_host_year (fst (skip_repeats k cs))) \<and>
      (\<forall>c \<in> set (fst (skip_repeats k cs)). c \<in> set cs \<and> (\<forall>d \<in> set cs. capsule_host_year d = capsule_host_year c \<longrightarrow> capsule_key c \<le> capsule_key d))"
      using Cons.prems by (intro Cons.IH) simp_all
    moreover have "capsule_host_year x \<noteq> capsule_host_year c" if "x \<in> set (fst (skip_repeats k cs))" for x
      using calculation that True by auto
    ultimately show ?thesis using True by auto
  next
    case False
    define out where "out = fst (skip_repeats (Some (capsule_host_year c)) cs)"
    have "capsule_host_year ` set out = {hy \<in> capsule_host_year ` set cs. Some hy \<noteq> Some (capsule_host_year c)} \<and>
      sorted_wrt (<) (List.map capsule_host_year out) \<and>
      (\<forall>x \<in> set out. x \<in> set cs \<and> (\<forall>d \<in> set cs. capsule_host_year d = capsule_host_year x \<longrightarrow> capsule_key x \<le> capsule_key d))"
      unfolding out_def by (rule Cons.IH) (use Cons.prems(1) le(2) in auto)
    then have IH: "capsule_host_year ` set out = {hy \<in> capsule_host_year ` set cs. hy \<noteq> capsule_host_year c}"
      "sorted_wrt (<) (List.map capsule_host_year out)"
      "\<And>x. x \<in> set out \<Longrightarrow> x \<in> set cs \<and> (\<forall>d \<in> set cs. capsule_host_year d = capsule_host_year x \<longrightarrow> capsule_key x \<le> capsule_key d)"
      by simp_all
    have skip: "fst (skip_repeats k (c # cs)) = c # out" using False by (simp add: out_def split: prod.split)
    have other: "capsule_host_year x \<noteq> capsule_host_year c \<and> capsule_host_year c < capsule_host_year x" if "x \<in> set out" for x
    proof -
      have "capsule_host_year x \<noteq> capsule_host_year c" "x \<in> set cs" using IH(1,3) that by auto
      with le(2) show ?thesis by (simp add: order_less_le)
    qed
    have new: "Some (capsule_host_year x) \<noteq> k" if "x \<in> set (c # cs)" for x
    proof
      assume k: "Some (capsule_host_year x) = k"
      have "capsule_host_year x \<le> capsule_host_year c" by (rule Cons.prems(2)) (simp_all add: k)
      moreover have "capsule_host_year c \<le> capsule_host_year x" using that le(2) [of x] by (cases "x = c") simp_all
      ultimately have "capsule_host_year x = capsule_host_year c" by (rule order.antisym)
      with k False show False by simp
    qed
    have "{hy \<in> capsule_host_year ` set (c # cs). Some hy \<noteq> k} = capsule_host_year ` set (c # cs)"
      using new by blast
    then have "capsule_host_year ` set (c # out) = {hy \<in> capsule_host_year ` set (c # cs). Some hy \<noteq> k}"
      using IH(1) by auto
    moreover have "sorted_wrt (<) (List.map capsule_host_year (c # out))" using IH(2) other by simp
    moreover have "x \<in> set (c # cs) \<and> (\<forall>d \<in> set (c # cs). capsule_host_year d = capsule_host_year x \<longrightarrow> capsule_key x \<le> capsule_key d)"
      if x: "x \<in> set (c # out)" for x
    proof (cases "x = c")
      case True
      with le(1) show ?thesis by auto
    next
      case False
      then have "x \<in> set out" using x by simp
      with IH(3) [OF this] other [OF this] show ?thesis by auto
    qed
    ultimately show ?thesis unfolding skip by blast
  qed
qed simp

text \<open>
  C27: the export has one capsule per proven host-year. Whatever the batch size, the iterator yields the
  host-years whose number does not exceed the frontier, all of them, in increasing order without
  repetition, each with the stored capsule of least key.
\<close>

theorem export_canonical:
  assumes "opened s0" "store_step\<^sup>*\<^sup>* s0 s" "1 \<le> batch" "0 \<le> frontier"
  shows "\<exists>cs. iter_canonical_host_year_capsules batch (Some frontier) s = Inr cs \<and>
    capsule_host_year ` set cs = host_year ` {r \<in> set (es_host_years s). int (hy_sequence r) \<le> frontier} \<and>
    sorted_wrt (<) (List.map capsule_host_year cs) \<and>
    (\<forall>c \<in> set cs. c \<in> set (es_capsules s) \<and>
       (\<forall>d \<in> set (es_capsules s). capsule_host_year d = capsule_host_year c \<longrightarrow> capsule_key c \<le> capsule_key d))"
proof -
  have inv: "store_inv s" by (rule store_reached [OF assms(1,2)])
  define rows where "rows = tbl_order_by capsule_key (filter (exported (Some frontier) s) (es_capsules s))"
  define out where "out = fst (skip_repeats None rows)"
  have batches: "canonical_batches None (chunks (nat batch) rows) = out" using assms(3) by (simp add: skip_batches out_def)
  have "sorted (List.map capsule_key rows)" by (simp add: rows_def tbl_order_by_def)
  then have skip: "capsule_host_year ` set out = capsule_host_year ` set rows" "sorted_wrt (<) (List.map capsule_host_year out)"
    "\<And>c. c \<in> set out \<Longrightarrow> c \<in> set rows \<and> (\<forall>d \<in> set rows. capsule_host_year d = capsule_host_year c \<longrightarrow> capsule_key c \<le> capsule_key d)"
    using skip_sorted [of rows None] by (simp_all add: out_def)
  have rows: "set rows = {c \<in> set (es_capsules s). exported (Some frontier) s c}" by (simp add: rows_def)
  have "collect (List.map capsule_init out) = Inr out"
    using inv skip(3) rows by (intro collect_id) (simp add: store_inv_def capsules_ok_def valid_capsule_def)
  then have iter: "iter_canonical_host_year_capsules batch (Some frontier) s = Inr out"
    using assms(3,4) batches by (simp add: iter_canonical_host_year_capsules_def rows_def)
  have index: "host_year ` set (es_host_years s) = capsule_host_year ` set (es_capsules s)" using inv by (simp add: store_inv_def)
  have "capsule_host_year ` set rows = host_year ` {r \<in> set (es_host_years s). int (hy_sequence r) \<le> frontier}"
  proof (rule set_eqI)
    fix hy
    have "hy \<in> capsule_host_year ` set rows \<longleftrightarrow> hy \<in> capsule_host_year ` set (es_capsules s) \<and>
        (\<exists>r \<in> set (es_host_years s). host_year r = hy \<and> int (hy_sequence r) \<le> frontier)"
      by (auto simp: rows exported_def list_ex_iff)
    also have "\<dots> \<longleftrightarrow> hy \<in> host_year ` {r \<in> set (es_host_years s). int (hy_sequence r) \<le> frontier}"
      unfolding index [symmetric] by (auto simp: image_iff)
    finally show "hy \<in> capsule_host_year ` set rows \<longleftrightarrow> hy \<in> host_year ` {r \<in> set (es_host_years s). int (hy_sequence r) \<le> frontier}" .
  qed
  moreover have "c \<in> set (es_capsules s) \<and> (\<forall>d \<in> set (es_capsules s). capsule_host_year d = capsule_host_year c \<longrightarrow> capsule_key c \<le> capsule_key d)"
    if "c \<in> set out" for c
    using skip(3) [OF that] by (auto simp: rows exported_def)
  ultimately show ?thesis using iter skip(1,2) by (intro exI [of _ out]) simp
qed

theorem export_canonical_witness:
  "\<exists>cs. iter_canonical_host_year_capsules 1 (Some 1) demo_store = Inr cs \<and> capsule_host_year ` set cs = {(''a.com'', 1998)}"
proof -
  have "{r \<in> set (es_host_years demo_store). int (hy_sequence r) \<le> 1} = {\<lparr>hy_sequence = 1, hy_hostname = ''a.com'', hy_year = 1998\<rparr>}"
    by (auto simp: demo_store_def)
  then show ?thesis using export_canonical [OF demo_store_reached, of 1 1] by (auto simp: host_year_def)
qed

subsection \<open>Pages\<close>

text \<open>A reader that asks for the next page after the last number it saw, until a page is empty; with fuel.\<close>

fun read_pages :: "nat \<Rightarrow> int \<Rightarrow> int \<Rightarrow> evidence_store \<Rightarrow> py_error + host_year_row list" where
  "read_pages 0 last_seen limit s = Inl RuntimeError"
| "read_pages (Suc fuel) last_seen limit s =
     bindr (host_years_after last_seen limit s) (\<lambda>page.
     if page = [] then Inr []
     else bindr (read_pages fuel (int (hy_sequence (last page))) limit s) (\<lambda>rest. Inr (page @ rest)))"

lemma numbered_sorted: "numbered hy_sequence n t \<Longrightarrow> tbl_order_by hy_sequence t = t"
  by (simp add: tbl_order_by_def numbered_def sort_key_id_if_sorted strict_sorted_iff)

text \<open>The rows after a number are a suffix of the table.\<close>

lemma rows_after:
  assumes "sorted_wrt (<) (List.map hy_sequence (xs @ ys))" "xs \<noteq> []"
  shows "filter (\<lambda>r. int (hy_sequence (last xs)) < int (hy_sequence r)) (xs @ ys) = ys"
proof -
  have "filter (\<lambda>r. hy_sequence (last xs) < hy_sequence r) xs = []"
    using assms by (cases xs rule: rev_cases) (auto simp: sorted_wrt_append filter_empty_conv)
  moreover have "filter (\<lambda>r. hy_sequence (last xs) < hy_sequence r) ys = ys"
    using assms by (auto simp: sorted_wrt_append filter_id_conv)
  ultimately show ?thesis by simp
qed

lemma read_rest:
  assumes "es_host_years s = xs @ ys" "numbered hy_sequence n (xs @ ys)" "1 \<le> limit" "length ys < fuel"
    and "filter (\<lambda>r. seen < int (hy_sequence r)) (xs @ ys) = ys" "0 \<le> seen"
  shows "read_pages fuel seen limit s = Inr ys"
  using assms
proof (induction fuel arbitrary: xs ys seen)
  case (Suc fuel)
  let ?k = "nat limit"
  have sorted: "tbl_order_by hy_sequence ys = ys"
    using numbered_sorted [of n ys] Suc.prems(2) by (simp add: numbered_def sorted_wrt_append)
  have page: "host_years_after seen limit s = Inr (take ?k ys)"
    using Suc.prems(3,5,6) sorted by (simp add: host_years_after_def Suc.prems(1) del: filter_append)
  show ?case
  proof (cases "ys = []")
    case True
    with page show ?thesis by simp
  next
    case False
    have k: "0 < ?k" using Suc.prems(3) by simp
    then have ne: "take ?k ys \<noteq> []" using False by simp
    have split: "xs @ ys = (xs @ take ?k ys) @ drop ?k ys" by simp
    have l: "last (xs @ take ?k ys) = last (take ?k ys)" using ne by simp
    have "read_pages fuel (int (hy_sequence (last (take ?k ys)))) limit s = Inr (drop ?k ys)"
    proof (rule Suc.IH)
      show "es_host_years s = (xs @ take ?k ys) @ drop ?k ys" by (simp add: Suc.prems(1))
      show "numbered hy_sequence n ((xs @ take ?k ys) @ drop ?k ys)" using Suc.prems(2) by simp
      show "length (drop ?k ys) < fuel" using Suc.prems(4) k False by (cases ys) auto
      show "filter (\<lambda>r. int (hy_sequence (last (take ?k ys))) < int (hy_sequence r)) ((xs @ take ?k ys) @ drop ?k ys) = drop ?k ys"
        using rows_after [of "xs @ take ?k ys" "drop ?k ys"] Suc.prems(2) ne unfolding l split [symmetric]
        by (simp add: numbered_def del: filter_append)
    qed (use Suc.prems(3) in simp_all)
    with page ne show ?thesis by (simp add: append_take_drop_id)
  qed
qed simp

text \<open>
  C28: paging reaches every host-year once. Reading pages of at least one row, each after the last number
  of the one before, ends after at most one page per host-year and one empty page, and returns the whole
  index in the order of its numbers.
\<close>

theorem paging_complete:
  assumes "opened s0" "store_step\<^sup>*\<^sup>* s0 s" "1 \<le> limit" "host_year_count s < fuel"
  shows "read_pages fuel 0 limit s = Inr (es_host_years s)"
proof -
  have "numbered hy_sequence (es_host_year_counter s) (es_host_years s)"
    using store_reached [OF assms(1,2)] by (simp add: store_inv_def index_ok_def)
  then show ?thesis using assms(3,4)
    by (intro read_rest [where xs = "[]"]) (auto simp: host_year_count_def numbered_def filter_id_conv)
qed

theorem paging_complete_witness: "read_pages 2 0 1 demo_store = Inr [\<lparr>hy_sequence = 1, hy_hostname = ''a.com'', hy_year = 1998\<rparr>]"
  using paging_complete [OF demo_store_reached, of 1 2] by (simp add: host_year_count_def demo_store_def)

subsection \<open>Attribution\<close>

lemma resolve_chunks:
  "fold (\<lambda>chunk result k. if k \<in> set chunk then (case f k of None \<Rightarrow> result k | Some v \<Rightarrow> Some v) else result k) css m k =
     (if k \<in> set (concat css) \<and> f k \<noteq> None then f k else m k)"
  by (induction css arbitrary: m) (auto split: option.splits)

lemma resolved_provenance:
  "resolve_provider_task_provenance hys n s = Inr m \<Longrightarrow>
     m hy = (if hy \<in> set (normalized_host_years hys) then first_proof (\<lambda>_. True) hy s else None)"
  by (auto simp: resolve_provider_task_provenance_def resolve_chunks simp del: set_concat)

lemma first_proof_find:
  assumes "store_inv s"
  shows "first_proof P hy s = List.find (\<lambda>p. P p \<and> proof_host_year p = hy) (es_proofs s)"
proof -
  have "sorted (List.map pf_sequence (es_proofs s))"
    using assms by (simp add: store_inv_def proofs_ok_def numbered_def strict_sorted_iff)
  then have "tbl_order_by pf_sequence (filter Q (es_proofs s)) = filter Q (es_proofs s)" for Q
    by (simp add: tbl_order_by_def sort_key_id_if_sorted sorted_filter)
  moreover have "(case filter Q xs of [] \<Rightarrow> None | p # _ \<Rightarrow> Some p) = List.find Q xs" for Q and xs :: "proof_row list"
    by (induction xs) auto
  ultimately show ?thesis by (simp add: first_proof_def)
qed

lemma find_append_first: "List.find Q xs = Some x \<Longrightarrow> List.find Q (xs @ ys) = Some x"
  by (induction xs) (auto split: if_splits)

lemma step_appends:
  assumes "store_inv s" "store_step s t"
  shows "(\<exists>new. es_proofs t = es_proofs s @ new) \<and> set (es_capsules s) \<subseteq> set (es_capsules t)"
  using assms(2)
proof (cases rule: store_step.cases)
  case (save cs n)
  then show ?thesis using insert_capsules_ok(4) [of s cs] assms(1)
    by (auto simp: put_many_valid store_inv_def split: if_splits)
next
  case (attest items n)
  show ?thesis
  proof (cases "items = []")
    case True
    with attest(2) show ?thesis by (simp add: put_many_with_task_provenance_def)
  next
    case False
    let ?s1 = "insert_capsules (List.map fst items) s"
    let ?s2 = "fold insert_host_year (dedup (List.map (capsule_host_year \<circ> fst) items)) ?s1"
    obtain ps where t: "t = fold insert_proof ps ?s2" using attest_shape [OF attest(2,1) False] by blast
    have "proofs_ok ?s2" using assms(1) by (simp add: store_inv_def proofs_ok_def)
    from insert_proofs(3) [OF this, of ps] have "\<exists>new. es_proofs t = es_proofs s @ new" by (simp add: t)
    moreover have "\<exists>new. es_capsules ?s1 = es_capsules s @ new"
      using insert_capsules_ok(4) [of s "List.map fst items"] assms(1) attest(1) by (simp add: store_inv_def list_all_iff)
    then have "set (es_capsules s) \<subseteq> set (es_capsules t)" by (auto simp: t)
    ultimately show ?thesis by blast
  qed
next
  case reopen
  with assms(1) show ?thesis by (simp add: ensure_schema_def store_inv_def Let_def)
qed

lemma steps_append:
  assumes "store_step\<^sup>*\<^sup>* s t" "store_inv s"
  shows "store_inv t \<and> (\<exists>new. es_proofs t = es_proofs s @ new) \<and> set (es_capsules s) \<subseteq> set (es_capsules t)"
  using assms
proof (induction rule: rtranclp_induct)
  case (step t u)
  then have "store_inv t" "store_inv u" using store_step_inv by blast+
  with step step_appends [of t u] show ?case by auto
qed auto

text \<open>
  credit for a host-year stays where it went first. Once the proof ledger resolves a host-year to the
  task that earned it, later writes by any task, replays and reopening never change the answer, whatever
  chunk sizes the two readers use.
\<close>

theorem proof_credit_stable:
  assumes "opened s0" "store_step\<^sup>*\<^sup>* s0 s" "store_step\<^sup>*\<^sup>* s t"
    and "resolve_provider_task_provenance hys n s = Inr m" "resolve_provider_task_provenance hys n' t = Inr m'"
    and "m hy = Some p"
  shows "m' hy = Some p"
proof -
  have inv: "store_inv s" by (rule store_reached [OF assms(1,2)])
  obtain new where new: "store_inv t" "es_proofs t = es_proofs s @ new" using steps_append [OF assms(3) inv] by blast
  have "hy \<in> set (normalized_host_years hys)" "first_proof (\<lambda>_. True) hy s = Some p"
    using resolved_provenance [OF assms(4), of hy] assms(6) by (auto split: if_splits)
  then have "hy \<in> set (normalized_host_years hys)" "first_proof (\<lambda>_. True) hy t = Some p"
    using first_proof_find [OF inv] first_proof_find [OF new(1)] new(2) find_append_first by metis+
  then show ?thesis using resolved_provenance [OF assms(5), of hy] by simp
qed

theorem proof_credit_stable_witness:
  "\<exists>t m p. put_many_with_task_provenance [(demo_proof ''p'', demo_provenance)] demo_store = Inr (0, t) \<and>
     resolve_provider_task_provenance [(''a.com'', 1998)] 7 t = Inr m \<and> m (''a.com'', 1998) = Some p"
proof -
  obtain t where t: "put_many_with_task_provenance [(demo_proof ''p'', demo_provenance)] demo_store = Inr (0, t)" "List.map proof_host_year (es_proofs t) = [(''a.com'', 1998)]"
    using demo_attest by (elim exE conjE)
  have v: "list_all (valid_capsule \<circ> fst) [(demo_proof ''p'', demo_provenance)]" using demo_proof_valid by simp
  have "store_step demo_store t" by (rule store_step.attest [OF v t(1)])
  with demo_store_reached(2) have run: "store_step\<^sup>*\<^sup>* (ensure_schema empty_store) t" by simp
  obtain p where p: "es_proofs t = [p]" "proof_host_year p = (''a.com'', 1998)" using t(2) by auto
  have inv: "store_inv t" by (rule store_reached [OF demo_store_reached(1) run])
  have first: "first_proof (\<lambda>_. True) (''a.com'', 1998) t = Some p" using first_proof_find [OF inv] p by simp
  have "normalized_host_years [(''a.com'', 1998)] = [(''a.com'', 1998)]"
    by (simp add: normalized_host_years_def demo_host dedup_def List.map_filter_simps)
  then obtain m where m: "\<And>n. 1 \<le> n \<Longrightarrow> \<exists>m. resolve_provider_task_provenance [(''a.com'', 1998)] n t = Inr m \<and> m (''a.com'', 1998) = Some p"
    using resolved_provenance [of "[(''a.com'', 1998)]" _ t] first by (fastforce simp: resolve_provider_task_provenance_def)
  obtain m1 where m1: "resolve_provider_task_provenance [(''a.com'', 1998)] 1 t = Inr m1" "m1 (''a.com'', 1998) = Some p" using m [of 1] by auto
  obtain m7 where m7: "resolve_provider_task_provenance [(''a.com'', 1998)] 7 t = Inr m7" using m [of 7] by auto
  from proof_credit_stable [OF demo_store_reached(1) run rtranclp.rtrancl_refl m1(1) m7 m1(2)] t(1) m7 show ?thesis by blast
qed

end
