(* ===== verification/Evidence_Commit_Properties.thy ===== *)
theory Evidence_Commit_Properties
  imports Evidence_Commit Evidence_Store_Properties Evidence_Flow
begin

text \<open>
  What committing a result promises across the two databases and any crash between their transactions:
  a task is never recorded as passed before its proof is stored.
\<close>

section \<open>Rules for the two databases\<close>

lemma guarded_control:
  "(\<And>w x c. I w \<Longrightarrow> P w \<Longrightarrow> t (wd_control w) = Inr (x, c) \<Longrightarrow> I (w\<lparr>wd_control := c\<rparr>) \<and> Q x (w\<lparr>wd_control := c\<rparr>)) \<Longrightarrow> guarded I P (on_control t) Q"
  by (auto simp: guarded_def on_control_def last_world_def split: sum.splits prod.splits)

lemma guarded_store:
  "(\<And>w x s. I w \<Longrightarrow> P w \<Longrightarrow> t (wd_store w) = Inr (x, s) \<Longrightarrow> I (w\<lparr>wd_store := s\<rparr>) \<and> Q x (w\<lparr>wd_store := s\<rparr>)) \<Longrightarrow> guarded I P (on_store t) Q"
  by (auto simp: guarded_def on_store_def last_world_def split: sum.splits prod.splits)

lemma guarded_writer:
  "(\<And>w. I w \<Longrightarrow> P w \<Longrightarrow> I (w\<lparr>wd_writer := f (wd_writer w)\<rparr>) \<and> Q () (w\<lparr>wd_writer := f (wd_writer w)\<rparr>)) \<Longrightarrow> guarded I P (on_writer f) Q"
  by (simp add: guarded_def on_writer_def last_world_def)

lemma guarded_queue:
  assumes "\<And>w x d. I w \<Longrightarrow> P w \<Longrightarrow> t (cn_queue (wd_control w)) = Inr (x, d) \<Longrightarrow>
    I (w\<lparr>wd_control := (wd_control w)\<lparr>cn_queue := d\<rparr>\<rparr>) \<and> Q x (w\<lparr>wd_control := (wd_control w)\<lparr>cn_queue := d\<rparr>\<rparr>)"
  shows "guarded I P (on_queue t) Q"
  unfolding on_queue_def by (rule guarded_control) (use assms in \<open>auto split: prod.splits\<close>)

section \<open>Passed tasks\<close>

definition pass_keys :: "evidence_db \<Rightarrow> query_key set" where
  "pass_keys d = et_key ` {r \<in> set (ed_tasks d). et_state r = Q_PASS}"

fun result_state :: "provider_result \<Rightarrow> query_state" where
  "result_state (Exact_Result r) = er_state r"
| "result_state (Range_Result r) = rr_state r"
| "result_state (Domain_Result r) = dr_state r"

fun result_capsules :: "provider_result \<Rightarrow> capsule list" where
  "result_capsules (Exact_Result r) = (case er_capsule r of None \<Rightarrow> [] | Some c \<Rightarrow> [c])"
| "result_capsules (Range_Result r) = rr_capsules r"
| "result_capsules (Domain_Result r) = dr_capsules r"

text \<open>An answer is an object its constructor has checked; nothing else is asked of a provider.\<close>

fun formed :: "provider_result \<Rightarrow> bool" where
  "formed (Exact_Result r) \<longleftrightarrow> query_result_init r = Inr r \<and> (case er_capsule r of None \<Rightarrow> True | Some c \<Rightarrow> valid_capsule c)"
| "formed (Range_Result r) \<longleftrightarrow> range_result_init r = Inr r \<and> list_all valid_capsule (rr_capsules r)"
| "formed (Domain_Result r) \<longleftrightarrow> domain_result_init r = Inr r \<and> list_all valid_capsule (dr_capsules r)"

definition capsule_kept :: "evidence_store \<Rightarrow> capsule \<Rightarrow> bool" where
  "capsule_kept s c \<longleftrightarrow> capsule_key c \<in> capsule_key ` set (es_capsules s)"

text \<open>The key passed by one of the answers \<open>A\<close>, and all of its capsules are stored.\<close>

definition passed_by :: "provider_result set \<Rightarrow> query_key \<Rightarrow> evidence_store \<Rightarrow> bool" where
  "passed_by A k s \<longleftrightarrow> (\<exists>r \<in> A. formed r \<and> result_key r = Some k \<and> result_state r = Q_PASS \<and>
     (\<forall>c \<in> set (result_capsules r). capsule_kept s c))"

definition honest :: "provider_result set \<Rightarrow> (capsule option \<times> query_result) list \<Rightarrow> bool" where
  "honest A pending \<longleftrightarrow> list_all (\<lambda>(c, r). er_capsule r = c \<and> formed (Exact_Result r) \<and> Exact_Result r \<in> A) pending"

definition world_inv :: "provider_result set \<Rightarrow> commit_world \<Rightarrow> bool" where
  "world_inv A w \<longleftrightarrow> queue_inv (cn_queue (wd_control w)) \<and> store_inv (wd_store w) \<and> honest A (cw_pending (wd_writer w)) \<and>
     (\<forall>k \<in> pass_keys (cn_queue (wd_control w)). passed_by A k (wd_store w))"

lemma stored_mono: "passed_by A k s \<Longrightarrow> set (es_capsules s) \<subseteq> set (es_capsules t) \<Longrightarrow> passed_by A k t"
  unfolding passed_by_def capsule_kept_def by (meson image_mono subsetD)

text \<open>Attestation stores the proof of each of its items.\<close>

lemma attested_stores:
  assumes "store_inv s" "list_all (valid_capsule \<circ> fst) items" "put_many_with_task_provenance items s = Inr (n, t)"
  shows "store_inv t" "set (es_capsules s) \<subseteq> set (es_capsules t)"
    "(c, p) \<in> set items \<Longrightarrow> capsule_kept t c"
proof -
  have step: "store_step s t" by (rule store_step.attest [OF assms(2,3)])
  show "store_inv t" by (rule store_step_inv [OF assms(1) step])
  show "set (es_capsules s) \<subseteq> set (es_capsules t)" using step_appends [OF assms(1) step] by blast
  assume item: "(c, p) \<in> set items"
  then have ne: "items \<noteq> []" by auto
  obtain ps where t: "t = fold insert_proof ps (fold insert_host_year (dedup (List.map (capsule_host_year \<circ> fst) items))
      (insert_capsules (List.map fst items) s))"
    using attest_shape [OF assms(3,2) ne] by blast
  have "c \<in> set (List.map fst items)" using item by force
  then have "capsule_key c \<in> capsule_key ` set (es_capsules (insert_capsules (List.map fst items) s))"
    by (simp add: insert_all_keys)
  then show "capsule_kept t c" by (simp add: capsule_kept_def t)
qed

section \<open>Operations on the queue\<close>

text \<open>The operations that finish nothing keep the set of passed keys.\<close>

inductive upkeep :: "evidence_db \<Rightarrow> evidence_db \<Rightarrow> bool" where
  claim: "queue_claim w limit ps ls now d = Inr (ts, d') \<Longrightarrow> upkeep d d'"
| store_claim: "store_claim w limit ls ks now d = Inr (ts, d') \<Longrightarrow> upkeep d d'"
| renew: "queue_renew ks w ls now d = Inr (n, d') \<Longrightarrow> upkeep d d'"
| enqueue: "list_all valid_key ks \<Longrightarrow> enqueue_evidence_tasks ks d = (n, d') \<Longrightarrow> upkeep d d'"
| reweigh: "set_eed_tld_weights ws d = (n, d') \<Longrightarrow> upkeep d d'"
| origins: "record_task_origins ks sk ri li when d = Inr (n, d') \<Longrightarrow> upkeep d d'"
| metric: "record_attempt_metric m d = Inr (b, d') \<Longrightarrow> upkeep d d'"
| publish: "publish_rewards rws b m now d = Inr (c, d') \<Longrightarrow> upkeep d d'"
| invalidate: "upkeep d (invalidate_rewards d)"

lemma upkeep_step: "upkeep d d' \<Longrightarrow> \<exists>a now. queue_step a now d d'"
  by (induction rule: upkeep.induct) (blast intro: queue_step.intros)+

lemma pass_same:
  assumes "ed_tasks d' = List.map f (ed_tasks d) @ new" "\<And>r. r \<in> set (ed_tasks d) \<Longrightarrow> et_state (f r) = et_state r \<and> et_key (f r) = et_key r"
    "\<And>r. r \<in> set new \<Longrightarrow> et_state r \<noteq> Q_PASS"
  shows "pass_keys d' = pass_keys d"
proof -
  have "{r \<in> set (ed_tasks d'). et_state r = Q_PASS} = f ` {r \<in> set (ed_tasks d). et_state r = Q_PASS}"
    unfolding assms(1) using assms(2,3) by auto
  then have "pass_keys d' = (\<lambda>r. et_key (f r)) ` {r \<in> set (ed_tasks d). et_state r = Q_PASS}"
    unfolding pass_keys_def by (simp add: image_image)
  also have "\<dots> = pass_keys d" unfolding pass_keys_def by (rule image_cong) (simp_all add: assms(2))
  finally show ?thesis .
qed

lemma reserved_tasks: "ed_tasks (fold reserve_fanout ks d) = ed_tasks d"
  by (induction ks arbitrary: d) (simp_all add: reserve_fanout_def split: option.splits)

lemma upkeep_pass:
  assumes "upkeep d d'" "queue_inv d"
  shows "pass_keys d' = pass_keys d"
proof -
  have ok: "tasks_ok d" using assms(2) by (simp add: queue_inv_def)
  have claimed: "pass_keys (claimed q w l u now d) = pass_keys d" for q w l u now
    by (rule pass_same [where f = "\<lambda>r. if r \<in> set (claim_rows q l now d) then lease_to w u r else r" and new = "[]"])
       (auto simp: claimed_def)
  show ?thesis using assms(1)
  proof (cases rule: upkeep.cases)
    case (claim w limit ps ls now ts)
    then show ?thesis using claimed by (cases rule: claim_cases [OF claim ok]) simp_all
  next
    case (store_claim w limit ls ks now ts)
    then show ?thesis using claimed by (cases rule: store_claim_cases [OF store_claim ok]) simp_all
  next
    case (renew ks w ls now n)
    then show ?thesis
      by (intro pass_same [where f = "\<lambda>r. if et_key r \<in> set ks \<and> et_lease_owner r = Some w then r\<lparr>et_lease_until := Some (now + ls)\<rparr> else r" and new = "[]"])
         (auto simp: queue_renew_def renew_tasks Let_def split: if_splits)
  next
    case (enqueue ks n)
    obtain ks' where "fold insert_task (dedup ks) d = d\<lparr>ed_tasks := ed_tasks d @ List.map (fresh_task (ed_tld_weights d)) ks'\<rparr>"
      using insert_tasks_tasks [of "dedup ks" d] by (elim exE conjE)
    then have "ed_tasks d' = List.map id (ed_tasks d) @ List.map (fresh_task (ed_tld_weights d)) ks'"
      using enqueue(2) by (auto simp: enqueue_evidence_tasks_def reserved_tasks Let_def)
    then show ?thesis by (rule pass_same) auto
  next
    case (reweigh ws n)
    then show ?thesis
      by (intro pass_same [where f = "\<lambda>r. r\<lparr>et_eed_weight := tld_weight (sort_key fst (normalize_weights ws)) (qk_hostname (et_key r))\<rparr>" and new = "[]"])
         (auto simp: set_eed_tld_weights_def tbl_update_def Let_def)
  next
    case (origins ks sk ri li t n)
    then obtain os where "fold_result insert_origin os d = Inr d'" by (auto simp: record_task_origins_def)
    from insert_origins [OF this] show ?thesis by (auto simp: pass_keys_def)
  next
    case (metric m b)
    then show ?thesis by (auto simp: record_attempt_metric_def pass_keys_def Let_def split: if_splits)
  next
    case (publish rws b m now c)
    then show ?thesis by (auto simp: publish_rewards_def pass_keys_def invalidate_rewards_def Let_def split: if_splits option.splits)
  next
    case invalidate
    then show ?thesis by (simp add: invalidate_rewards_def pass_keys_def)
  qed
qed

section \<open>Committing\<close>

abbreviation keeps :: "provider_result set \<Rightarrow> (commit_world \<Rightarrow> bool) \<Rightarrow> 'a act \<Rightarrow> bool" where
  "keeps A P a \<equiv> guarded (world_inv A) P a (\<lambda>_. P)"

abbreviation stored :: "provider_result set \<Rightarrow> query_key set \<Rightarrow> commit_world \<Rightarrow> bool" where
  "stored A K w \<equiv> \<forall>k \<in> K. passed_by A k (wd_store w)"

text \<open>Actions on the attribution tables leave queue, store and writer alone.\<close>

lemma keeps_control:
  "(\<And>c x c'. t c = Inr (x, c') \<Longrightarrow> cn_queue c' = cn_queue c) \<Longrightarrow> keeps A (stored A K) (on_control t)"
  by (rule guarded_control) (simp add: world_inv_def)

lemma queue_credits: "fold_result insert_credit rs c = Inr c' \<Longrightarrow> cn_queue c' = cn_queue c"
  by (induction rs arbitrary: c) (auto simp: insert_credit_def split: if_splits)

lemma queue_units: "fold_result insert_unit rs c = Inr c' \<Longrightarrow> cn_queue c' = cn_queue c"
  by (induction rs arbitrary: c) (auto simp: insert_unit_def split: if_splits)

lemma keeps_then: "keeps A P a \<Longrightarrow> (\<And>x. keeps A P (f x)) \<Longrightarrow> keeps A P (act_then a f)"
  by (rule guarded_then)

lemma keeps_attribute:
  "keeps A (stored A K) (attribute_task_host_years k ys t)"
  "keeps A (stored A K) (attribute_domain_task_host_years k cs t)"
  "keeps A (stored A K) (attribute_direct_host_years hys sk ri li t)"
  "keeps A (stored A K) (attribute_direct_origin_unit_host_years hys sk ri ok oi t)"
  unfolding attribute_task_host_years_def attribute_domain_task_host_years_def attribute_direct_host_years_def
    attribute_direct_origin_unit_host_years_def Let_def
  by (auto intro!: guards keeps_then keeps_control split: option.splits
      simp: add_kinds_def add_credits_def dest!: queue_credits queue_units)

text \<open>Queue operations that are steps of the queue and only pass keys whose proof is stored.\<close>

lemma keeps_queue:
  assumes "\<And>d x d'. queue_inv d \<Longrightarrow> t d = Inr (x, d') \<Longrightarrow> (\<exists>a now. queue_step a now d d') \<and> pass_keys d' \<subseteq> pass_keys d \<union> K"
  shows "keeps A (stored A K) (on_queue t)"
proof (rule guarded_queue)
  fix w x d'
  assume w: "world_inv A w" "stored A K w" "t (cn_queue (wd_control w)) = Inr (x, d')"
  then obtain a now where "queue_step a now (cn_queue (wd_control w)) d'" "pass_keys d' \<subseteq> pass_keys (cn_queue (wd_control w)) \<union> K"
    using assms [of "cn_queue (wd_control w)" x d'] by (auto simp: world_inv_def)
  moreover from this(1) have "queue_inv d'" using queue_step_inv w(1) by (auto simp: world_inv_def)
  ultimately show "world_inv A (w\<lparr>wd_control := (wd_control w)\<lparr>cn_queue := d'\<rparr>\<rparr>) \<and>
      stored A K (w\<lparr>wd_control := (wd_control w)\<lparr>cn_queue := d'\<rparr>\<rparr>)"
    using w(1,2) by (auto simp: world_inv_def)
qed

lemma settled_pass:
  assumes "ed_tasks d' = List.map (\<lambda>r. case m (et_key r) of None \<Rightarrow> r | Some st \<Rightarrow> if P r then settle st ra r else r) (ed_tasks d) @ new"
    "\<And>r. r \<in> set new \<Longrightarrow> et_state r \<noteq> Q_PASS"
  shows "pass_keys d' \<subseteq> pass_keys d \<union> {k. m k = Some Q_PASS}"
proof
  fix k assume "k \<in> pass_keys d'"
  then obtain r where r: "r \<in> set (ed_tasks d')" "et_state r = Q_PASS" "et_key r = k" by (auto simp: pass_keys_def)
  then obtain r0 where "r0 \<in> set (ed_tasks d)" "r = (case m (et_key r0) of None \<Rightarrow> r0 | Some st \<Rightarrow> if P r0 then settle st ra r0 else r0)"
    using assms by auto
  with r show "k \<in> pass_keys d \<union> {k. m k = Some Q_PASS}"
    by (auto simp: pass_keys_def split: option.splits if_splits)
qed

lemma finish_results_pass:
  assumes "finish_results rs owner ra now d = Inr (n, d')"
  shows "pass_keys d' \<subseteq> pass_keys d \<union> {k. (k, Q_PASS) \<in> set rs}"
proof (cases "rs = []")
  case True
  with assms show ?thesis by (simp add: finish_results_def)
next
  case False
  have "ed_tasks d' = List.map (\<lambda>r. case map_of rs (et_key r) of None \<Rightarrow> r
      | Some st \<Rightarrow> if may_finish owner now r then settle st ra r else r) (ed_tasks d) @ []"
    by (rule finish_results_cases [OF assms False]) simp
  then have "pass_keys d' \<subseteq> pass_keys d \<union> {k. map_of rs k = Some Q_PASS}" by (rule settled_pass) simp
  then show ?thesis by (blast dest: map_of_SomeD)
qed

lemma finish_tasks_pass:
  assumes "finish_evidence_tasks rs w now d = Inr (n, d')"
  shows "pass_keys d' \<subseteq> pass_keys d \<union> {k. \<exists>r \<in> set rs. er_key r = Some k \<and> er_state r = Q_PASS}"
proof -
  have "finish_results (keyed_results rs) (Some w) None now d = Inr (n, d')"
    using assms by (simp add: finish_evidence_tasks_def split: if_splits)
  then have "pass_keys d' \<subseteq> pass_keys d \<union> {k. (k, Q_PASS) \<in> set (keyed_results rs)}" by (rule finish_results_pass)
  moreover have "\<exists>r \<in> set rs. er_key r = Some k \<and> er_state r = Q_PASS" if "(k, Q_PASS) \<in> set (keyed_results rs)" for k
    using that by (auto simp: keyed_results_def List.map_filter_def split: option.splits)
  ultimately show ?thesis by blast
qed

lemma finish_range_pass:
  assumes "finish_range_task k st [] w now d = Inr (n, d')" "queue_inv d"
  shows "pass_keys d' \<subseteq> pass_keys d \<union> (if st = Q_PASS then {k} else {})"
proof -
  have ok: "tasks_ok d" using assms(2) by (simp add: queue_inv_def)
  obtain ks where ks: "ed_tasks d' = List.map (\<lambda>r. if et_key r = k then settle st None r else r) (ed_tasks d) @ List.map (fresh_task (ed_tld_weights d)) ks"
  proof (cases rule: finish_range_cases [OF assms(1) ok, case_names shape])
    case (shape r ks xs)
    show ?thesis by (rule that [of ks], unfold shape(10)) simp
  qed
  have eq: "(if et_key r = k then settle st None r else r) = (case [k \<mapsto> st] (et_key r) of None \<Rightarrow> r | Some st \<Rightarrow> if True then settle st None r else r)" for r
    by simp
  have "pass_keys d' \<subseteq> pass_keys d \<union> {j. [k \<mapsto> st] j = Some Q_PASS}"
    by (rule settled_pass [OF ks [unfolded eq]]) auto
  then show ?thesis by (auto split: if_splits)
qed

lemma finish_task_pass:
  assumes "finish_evidence_task k st owner ra now d = Inr (n, d')" "st \<noteq> Q_PASS"
  shows "pass_keys d' \<subseteq> pass_keys d"
proof -
  have "finish_results [(k, st)] owner ra now d = Inr (n, d')"
    using assms(1) by (auto simp: finish_evidence_task_def query_result_init_def keyed_results_def split: option.splits if_splits)
  from finish_results_pass [OF this] assms(2) show ?thesis by simp
qed

lemma keeps_retryable: "st \<noteq> Q_PASS \<Longrightarrow> keeps A (stored A K) (finish_retryable C k st n clock)"
  unfolding finish_retryable_def
  by (intro keeps_then guards keeps_queue) (auto dest: finish_task_pass intro: queue_step.finish_task)

lemma keeps_terminal: "(st = Q_PASS \<Longrightarrow> k \<in> K) \<Longrightarrow> keeps A (stored A K) (finish_terminal C k st clock)"
  unfolding finish_terminal_def
proof (intro keeps_then guards keeps_queue conjI)
  fix d x d' assume "queue_inv d" "finish_range_task k st [] (ct_owner C) (clock 3) d = Inr (x, d')"
  then show "\<exists>a now. queue_step a now d d'" by (intro exI) (rule queue_step.finish_range, auto)
qed (auto dest!: finish_range_pass split: if_splits)

lemma keeps_metric: "keeps A (stored A K) (on_queue (record_attempt_metric m))"
  by (rule keeps_queue) (auto dest: upkeep.metric intro: queue_step.metric simp: upkeep_pass)

text \<open>Once the capsules are persisted, the key may pass by every answer that carried just them.\<close>

lemma persisted:
  assumes v: "list_all valid_capsule cs"
  shows "guarded (world_inv A) (\<lambda>_. True) (persist_positive_capsules k cs domain clock)
    (\<lambda>_. stored A {k. \<exists>r \<in> A. formed r \<and> result_key r = Some k \<and> result_state r = Q_PASS \<and> set (result_capsules r) \<subseteq> set cs})"
proof (cases "cs = []")
  case True
  then show ?thesis
    unfolding persist_positive_capsules_def by simp (rule guarded_return, auto simp: passed_by_def)
next
  case False
  let ?K = "{k. \<exists>r \<in> A. formed r \<and> result_key r = Some k \<and> result_state r = Q_PASS \<and> set (result_capsules r) \<subseteq> set cs}"
  have put: "guarded (world_inv A) (\<lambda>_. True) (on_store (put_many_with_task_provenance (List.map (\<lambda>c. (c, p)) cs))) (\<lambda>_. stored A ?K)" for p
  proof (rule guarded_store)
    fix w n s assume w: "world_inv A w" "put_many_with_task_provenance (List.map (\<lambda>c. (c, p)) cs) (wd_store w) = Inr (n, s)"
    have vs: "list_all (valid_capsule \<circ> fst) (List.map (\<lambda>c. (c, p)) cs)" using v by (simp add: list_all_iff)
    have st: "store_inv (wd_store w)" using w(1) by (simp add: world_inv_def)
    note a = attested_stores [OF st vs w(2)]
    have "capsule_kept s c" if "c \<in> set cs" for c using a(3) [of c p] that by simp
    then have "passed_by A k s" if "k \<in> ?K" for k using that unfolding passed_by_def by blast
    then show "world_inv A (w\<lparr>wd_store := s\<rparr>) \<and> stored A ?K (w\<lparr>wd_store := s\<rparr>)"
      using w(1) a(1,2) stored_mono by (auto simp: world_inv_def)
  qed
  show ?thesis using False
    unfolding persist_positive_capsules_def
    by (auto intro!: guarded_then [where R = "\<lambda>p w. True"]
        guarded_then [OF put] guarded_then [OF keeps_attribute(1)] guarded_then [OF keeps_attribute(2)] guards)
qed

text \<open>The batching writer stores the proofs of its pending results before it finishes their tasks.\<close>

lemma keeps_writer: "(\<And>cw. honest A (cw_pending cw) \<Longrightarrow> honest A (cw_pending (f cw))) \<Longrightarrow> keeps A (stored A K) (on_writer f)"
  by (rule guarded_writer) (simp add: world_inv_def)

lemma honest_proven:
  assumes "honest A pending" "(c, k) \<in> set (proven pending)"
  shows "valid_capsule c"
proof -
  obtain r where r: "(Some c, r) \<in> set pending"
    using assms(2) by (auto simp: proven_def List.map_filter_def split: option.splits)
  then show "valid_capsule c" using assms(1) by (auto simp: honest_def list_all_iff)
qed

text \<open>The keys that the pending results pass.\<close>

definition passing :: "(capsule option \<times> query_result) list \<Rightarrow> query_key set" where
  "passing pending = {k. \<exists>(c, r) \<in> set pending. er_key r = Some k \<and> er_state r = Q_PASS}"

lemma passing_stored:
  assumes "honest A pending" "k \<in> passing pending" "\<And>c k. (c, k) \<in> set (proven pending) \<Longrightarrow> capsule_kept s c"
  shows "passed_by A k s"
proof -
  obtain c r where r: "(c, r) \<in> set pending" "er_key r = Some k" "er_state r = Q_PASS" using assms(2) by (auto simp: passing_def)
  have h: "er_capsule r = c" "formed (Exact_Result r)" "Exact_Result r \<in> A" using assms(1) r(1) by (auto simp: honest_def list_all_iff)
  have "capsule_kept s c'" if "c = Some c'" for c'
  proof (rule assms(3))
    show "(c', k) \<in> set (proven pending)"
      using r(1,2) that by (auto simp: proven_def List.map_filter_def intro!: image_eqI [where x = "(c, r)"] split: option.splits)
  qed
  then have "\<forall>c' \<in> set (result_capsules (Exact_Result r)). capsule_kept s c'" using h(1) by (auto split: option.splits)
  with h r(2,3) show ?thesis unfolding passed_by_def by (intro bexI [of _ "Exact_Result r"]) auto
qed

lemma attested_rows:
  assumes "collect (List.map2 (\<lambda>i (c, k). bindr (provenance_init (task_provenance k d (clock i))) (\<lambda>p. Inr (c, p))) is items) = Inr rows"
    "length is = length items"
  shows "List.map (\<lambda>(c, p). (c, pv_key p)) rows = items"
  using assms
proof (induction "is" items arbitrary: rows rule: list_induct2')
  case (4 i "is" ck items)
  obtain c k where ck: "ck = (c, k)" by fastforce
  have key: "provenance_init (task_provenance k d t) = Inr p \<Longrightarrow> pv_key p = k" for t p
    by (auto simp: provenance_init_def task_provenance_def split: option.splits)
  show ?case using 4 key by (auto simp: ck)
qed auto

abbreviation attests :: "(capsule \<times> query_key) list \<Rightarrow> (capsule \<times> provenance) list \<Rightarrow> bool" where
  "attests items rows \<equiv> List.map (\<lambda>(c, p). (c, pv_key p)) rows = items"

lemma attested_ok: "guarded (world_inv A) (\<lambda>_. True) (attested items clock) (\<lambda>rows _. attests items rows)"
  unfolding attested_def
proof (rule guarded_then)
  let ?m = "\<lambda>w. List.map2 (\<lambda>i (c, k). bindr (provenance_init (task_provenance k (cn_queue (wd_control w)) (clock i)))
       (\<lambda>p. Inr (c, p))) [0..<length items] items"
  show "guarded (world_inv A) (\<lambda>_. True) (act_read ?m) (\<lambda>ms _. \<forall>rows. collect ms = Inr rows \<longrightarrow> attests items rows)"
    by (rule guarded_read) (auto dest: attested_rows)
  show "guarded (world_inv A) (\<lambda>_. \<forall>rows. collect ms = Inr rows \<longrightarrow> attests items rows) (act_init (collect ms)) (\<lambda>rows _. attests items rows)" for ms
    by (rule guarded_init) simp
qed

lemma rows_stored:
  assumes "honest A pending"
  shows "guarded (world_inv A) (\<lambda>_. attests (proven pending) rows) (on_store (put_many_with_task_provenance rows))
    (\<lambda>_. stored A (passing pending))"
proof (rule guarded_store)
  fix w n s assume w: "world_inv A w" "attests (proven pending) rows" "put_many_with_task_provenance rows (wd_store w) = Inr (n, s)"
  have item: "(c, pv_key p) \<in> set (proven pending)" if "(c, p) \<in> set rows" for c p
    unfolding w(2) [symmetric] using that by force
  have v: "list_all (valid_capsule \<circ> fst) rows" using honest_proven [OF assms item] by (auto simp: list_all_iff)
  have st: "store_inv (wd_store w)" using w(1) by (simp add: world_inv_def)
  note a = attested_stores [OF st v w(3)]
  have "capsule_kept s c" if k: "(c, k) \<in> set (proven pending)" for c k
  proof -
    obtain p where "(c, p) \<in> set rows" using k unfolding w(2) [symmetric] by auto
    then show ?thesis by (rule a(3))
  qed
  then have "passed_by A k s" if "k \<in> passing pending" for k by (rule passing_stored [OF assms that])
  then show "world_inv A (w\<lparr>wd_store := s\<rparr>) \<and> stored A (passing pending) (w\<lparr>wd_store := s\<rparr>)"
    using w(1) a(1,2) stored_mono by (auto simp: world_inv_def)
qed

lemma keeps_finish:
  assumes "set rs \<subseteq> snd ` set pending"
  shows "keeps A (stored A (passing pending)) (on_queue (finish_evidence_tasks rs owner t))"
proof (rule keeps_queue, intro conjI)
  fix d x d' assume f: "finish_evidence_tasks rs owner t d = Inr (x, d')"
  then show "\<exists>a now. queue_step a now d d'" by (intro exI) (rule queue_step.finish_tasks)
  show "pass_keys d' \<subseteq> pass_keys d \<union> passing pending"
    using finish_tasks_pass [OF f] assms by (fastforce simp: passing_def)
qed

abbreviation safe :: "provider_result set \<Rightarrow> 'a act \<Rightarrow> bool" where "safe A a \<equiv> guarded (world_inv A) (\<lambda>_. True) a (\<lambda>_ _. True)"

lemma safe_then: "safe A a \<Longrightarrow> (\<And>x. safe A (f x)) \<Longrightarrow> safe A (act_then a f)"
  by (rule guarded_then)

lemma safe_read: "safe A (act_read q)"
  by (simp add: guarded_def act_read_def)

lemma safe_return: "safe A (act_return x)"
  by (simp add: guarded_def act_return_def)

lemma safe_init: "safe A (act_init v)"
  by (simp add: guarded_def act_init_def)

lemma safe_writer: "(\<And>cw. honest A (cw_pending cw) \<Longrightarrow> honest A (cw_pending (f cw))) \<Longrightarrow> safe A (on_writer f)"
  by (rule guarded_writer) (simp add: world_inv_def)

lemmas safes = safe_then safe_read safe_return safe_init guarded_if guarded_raise

lemma keeps_credits:
  "keeps A (stored A K) (act_each (\<lambda>(i, (c, k)). act_then (attribute_task_host_years k [cp_year c] (clock i)) (\<lambda>_. act_return ())) xs)"
proof (rule guarded_each)
  fix x assume "x \<in> set xs"
  obtain i c k where x: "x = (i, (c, k))" by (metis prod.exhaust)
  show "keeps A (stored A K) (case x of (i, (c, k)) \<Rightarrow> act_then (attribute_task_host_years k [cp_year c] (clock i)) (\<lambda>_. act_return ()))"
    unfolding x prod.case by (rule keeps_then [OF keeps_attribute(1)], rule guarded_return)
qed

lemma flush_pending_keeps:
  assumes "honest A pending"
  shows "safe A (flush_pending pending now clock)"
proof -
  let ?S = "stored A (passing pending)"
  have proofs: "guarded (world_inv A) (\<lambda>_. True) (store_proofs (proven pending) clock) (\<lambda>_. ?S)"
    unfolding store_proofs_def
    by (rule guarded_then [OF attested_ok], rule guarded_then [OF rows_stored [OF assms]], rule keeps_then, rule keeps_writer, simp,
        rule keeps_credits)
  have none: "guarded (world_inv A) (\<lambda>_. True) (act_return ()) (\<lambda>_. ?S)" if "\<not> list_ex (\<lambda>(c, _). c \<noteq> None) pending"
  proof -
    have "proven pending = []"
      using that by (auto simp: proven_def List.map_filter_def list_ex_iff filter_empty_conv split: option.splits)
    then have "stored A (passing pending) w" for w using passing_stored [OF assms] by simp
    then show ?thesis by (intro guarded_return) simp
  qed
  have finish: "keeps A ?S (finish_batch (filter (\<lambda>r. er_key r \<noteq> None) (List.map snd pending)) t)" for t
    unfolding finish_batch_def
    by (intro keeps_then guarded_if keeps_finish keeps_writer) (auto intro: guards)
  show ?thesis
    unfolding flush_pending_def
    by (rule guarded_then [where R = "\<lambda>_. ?S"], rule guarded_if [OF proofs none], assumption,
        rule guarded_then [OF finish], rule guarded_then [where R = "\<lambda>_ _. True"], rule guarded_writer)
       (auto simp: world_inv_def honest_def intro: guards)
qed

lemma flush_keeps: "safe A (flush_writer now clock)"
  unfolding flush_writer_def
proof (intro guarded_if guarded_raise)
  have "safe A (act_then (on_writer (\<lambda>cw. cw\<lparr>cw_last_flush := now\<rparr>)) (\<lambda>_. act_return 0))"
    by (intro safes safe_writer) simp
  then have "guarded (world_inv A) (\<lambda>w. honest A pending \<and> True)
      (if pending = [] then act_then (on_writer (\<lambda>cw. cw\<lparr>cw_last_flush := now\<rparr>)) (\<lambda>_. act_return 0) else flush_pending pending now clock)
      (\<lambda>_ _. True)" for pending
    by (intro guarded_fact guarded_if flush_pending_keeps)
  then show "safe A (act_then (act_read (cw_pending \<circ> wd_writer)) (\<lambda>pending.
      if pending = [] then act_then (on_writer (\<lambda>cw. cw\<lparr>cw_last_flush := now\<rparr>)) (\<lambda>_. act_return 0) else flush_pending pending now clock))"
    by (rule guarded_then [rotated]) (rule guarded_read, simp add: world_inv_def)
qed

lemma submit_keeps:
  assumes "er_capsule r = c" "formed (Exact_Result r)" "Exact_Result r \<in> A"
  shows "safe A (submit_result c r now clock)"
  unfolding submit_result_def
  by (intro safes flush_keeps safe_writer) (use assms in \<open>simp add: honest_def\<close>)

lemma close_keeps: "safe A (close_writer now clock)"
  unfolding close_writer_def by (intro safes flush_keeps safe_writer) simp

lemma exact_keeps:
  assumes "formed (Exact_Result r)" "Exact_Result r \<in> A"
  shows "safe A (write_exact C r clock monotonic)"
proof -
  have made: "guarded (world_inv A) (\<lambda>_. True) (act_init (new_writer w n m t)) (\<lambda>cw _. cw_pending cw = [])" for w n m t
    by (rule guarded_init) (auto simp: new_writer_def)
  have put: "guarded (world_inv A) (\<lambda>_. cw_pending cw = []) (on_writer (\<lambda>_. cw)) (\<lambda>_ _. True)" for cw
    by (rule guarded_writer) (simp add: world_inv_def honest_def)
  show ?thesis
    unfolding write_exact_def
    by (rule guarded_then [OF made], rule guarded_then [OF put],
        rule safe_then [OF guarded_finally [OF submit_keeps [OF refl assms] close_keeps]], rule safe_read)
qed

text \<open>Every branch of a commit is safe.\<close>

lemma commit_result_keeps:
  assumes "formed r" "r \<in> A" "result_key r = Some k"
  shows "safe A (commit_result C k n clock monotonic r)"
proof (cases r)
  case (Exact_Result e)
  have "er_state e \<noteq> Q_PASS \<Longrightarrow> safe A (finish_retryable C k (er_state e) n clock)"
    using keeps_retryable [where K = "{}"] by simp
  then show ?thesis
    unfolding Exact_Result commit_result.simps
    by (intro safes exact_keeps) (use assms(1,2) Exact_Result in auto)
next
  case (Range_Result e)
  have v: "list_all valid_capsule (rr_capsules e)" using assms(1) Range_Result by simp
  let ?K = "{k. \<exists>r \<in> A. formed r \<and> result_key r = Some k \<and> result_state r = Q_PASS \<and> set (result_capsules r) \<subseteq> set (rr_capsules e)}"
  have k: "k \<in> ?K" if "rr_state e = Q_PASS"
    using assms that by (intro CollectI bexI [of _ r]) (auto simp: Range_Result)
  have terminal: "keeps A (stored A ?K) (finish_terminal C k (rr_state e) clock)"
    by (rule keeps_terminal) (use k in blast)
  have retry: "keeps A (stored A ?K) (finish_retryable C k (if rr_state e = Q_DECOMPOSED then Q_INCOMPLETE else rr_state e) n clock)"
    if "\<not> rr_state e \<in> {Q_PASS, Q_EMPTY_EXHAUSTIVE, Q_INVALID}"
    by (rule keeps_retryable) (use that in auto)
  show ?thesis
    unfolding Range_Result commit_result.simps
    by (rule guarded_then [OF persisted [OF v]], intro guarded_if guarded_raise guarded_then [OF terminal] guarded_then [OF retry])
       (auto simp: guarded_def act_return_def)
next
  case (Domain_Result e)
  have v: "list_all valid_capsule (dr_capsules e)" using assms(1) Domain_Result by simp
  let ?K = "{k. \<exists>r \<in> A. formed r \<and> result_key r = Some k \<and> result_state r = Q_PASS \<and> set (result_capsules r) \<subseteq> set (dr_capsules e)}"
  have terminal: "keeps A (stored A ?K) (finish_terminal C k (dr_state e) clock)" if "dr_state e \<in> {Q_DECOMPOSED, Q_INVALID}"
    by (rule keeps_terminal) (use that in auto)
  have retry: "keeps A (stored A ?K) (finish_retryable C k (dr_state e) n clock)" if "dr_state e = Q_TRANSIENT_ERROR"
    by (rule keeps_retryable) (use that in auto)
  show ?thesis
    unfolding Domain_Result commit_result.simps
    by (rule guarded_then [OF persisted [OF v]], intro guarded_if guarded_raise guarded_then [OF terminal] guarded_then [OF retry])
       (auto simp: guarded_def act_return_def)
qed

lemma commit_keeps: "formed r \<Longrightarrow> r \<in> A \<Longrightarrow> safe A (commit C task clock monotonic r)"
  using keeps_metric [where K = "{}"]
  by (auto simp: commit_def intro!: safes commit_result_keeps split: option.split)

section \<open>Proof before pass\<close>

text \<open>
  The steps of the whole when the commits are given the answers \<open>A\<close>: any world a commit leaves behind, be it by finishing, failing or crashing
  between two transactions; the operations of the queue that finish nothing; other writes to the store;
  and direct attribution.
\<close>

inductive system_step :: "provider_result set \<Rightarrow> commit_world \<Rightarrow> commit_world \<Rightarrow> bool" for A :: "provider_result set" where
  commit: "r \<in> A \<Longrightarrow> formed r \<Longrightarrow> w' \<in> set (snd (commit C task clock monotonic r w)) \<Longrightarrow> system_step A w w'"
| queue: "upkeep (cn_queue (wd_control w)) d \<Longrightarrow> system_step A w (w\<lparr>wd_control := (wd_control w)\<lparr>cn_queue := d\<rparr>\<rparr>)"
| store: "store_step (wd_store w) s \<Longrightarrow> system_step A w (w\<lparr>wd_store := s\<rparr>)"
| direct: "w' \<in> set (snd (attribute_direct_host_years hys sk ri li t w)) \<Longrightarrow> system_step A w w'"
| direct_unit: "w' \<in> set (snd (attribute_direct_origin_unit_host_years hys sk ri ok oi t w)) \<Longrightarrow> system_step A w w'"

definition started :: "commit_world \<Rightarrow> bool" where
  "started w \<longleftrightarrow> (\<exists>rs ls. cn_queue (wd_control w) = empty_queue rs ls) \<and> opened (wd_store w) \<and> cw_pending (wd_writer w) = []"

lemma safe_worlds: "safe A a \<Longrightarrow> world_inv A w \<Longrightarrow> w' \<in> set (snd (a w)) \<Longrightarrow> world_inv A w'"
  by (simp add: guarded_def)

lemma store_only_grows: "store_inv s \<Longrightarrow> store_step s t \<Longrightarrow> passed_by A k s \<Longrightarrow> passed_by A k t"
  using step_appends stored_mono by blast

lemma system_step_inv:
  assumes "world_inv A w" "system_step A w w'"
  shows "world_inv A w'"
  using assms(2)
proof (cases rule: system_step.cases)
  case (commit r C task clock monotonic)
  then show ?thesis using safe_worlds [OF commit_keeps assms(1)] by blast
next
  case (queue d)
  have "queue_inv d" using upkeep_step [OF queue(2)] queue_step_inv assms(1) by (auto simp: world_inv_def)
  moreover have "pass_keys d = pass_keys (cn_queue (wd_control w))" using upkeep_pass [OF queue(2)] assms(1) by (simp add: world_inv_def)
  ultimately show ?thesis using assms(1) by (simp add: queue(1) world_inv_def)
next
  case (store s)
  then show ?thesis using assms(1) store_step_inv store_only_grows by (auto simp: world_inv_def)
next
  case (direct hys sk ri li t)
  have "safe A (attribute_direct_host_years hys sk ri li t)" using keeps_attribute(3) [where K = "{}"] by simp
  from safe_worlds [OF this assms(1) direct] show ?thesis .
next
  case (direct_unit hys sk ri ok oi t)
  have "safe A (attribute_direct_origin_unit_host_years hys sk ri ok oi t)" using keeps_attribute(4) [where K = "{}"] by simp
  from safe_worlds [OF this assms(1) direct_unit] show ?thesis .
qed

lemma empty_passes: "pass_keys (empty_queue rs ls) = {}"
  by (simp add: pass_keys_def empty_queue_def)

lemma started_inv: "started w \<Longrightarrow> world_inv A w"
  by (auto simp: started_def world_inv_def empty_inv empty_passes opened_inv honest_def)

interpretation commit_system: machine started "system_step A" "world_inv A" for A
  by unfold_locales (auto intro: started_inv system_step_inv)

text \<open>What the constructors of the answers check of a passing answer's capsules.\<close>

lemma formed_scope:
  assumes "formed r" "result_key r = Some k" "result_state r = Q_PASS" "c \<in> set (result_capsules r)"
  shows "cp_hostname c = qk_hostname k \<and> cp_provider c = qk_provider k \<and> cp_policy_version c = qk_policy_version k \<and>
    cp_year c \<in> {year_from k..year_to k}"
proof (cases r)
  case (Exact_Result e)
  with assms show ?thesis
    by (auto simp: query_result_init_def year_from_def year_to_def split: option.splits if_splits)
next
  case (Range_Result e)
  with assms show ?thesis
    by (auto simp: range_result_init_def in_scope_def list_all_iff year_from_def year_to_def split: option.splits if_splits)
next
  case (Domain_Result e)
  with assms show ?thesis by (auto simp: domain_result_init_def split: option.splits if_splits)
qed

text \<open>
  C24: proof before pass. Let commits of any answers \<open>A\<close> run from an empty queue and an opened store, finish, fail
  or stop between two of their transactions, interleaved with the other operations of the queue and the store.
  Then a task recorded as passed was passed by one of the answers: one for its key with the state \<open>PASS\<close>, and
  every capsule that answer carried is already stored, valid, within the key's hostname, provider, policy and years,
  and its host-year is in the index that is exported. An answer may pass without a capsule, which the code
  accepts; then there is nothing to store.
\<close>

theorem proof_before_pass:
  assumes "started w" "(system_step A)\<^sup>*\<^sup>* w w'" "r \<in> set (ed_tasks (cn_queue (wd_control w')))" "et_state r = Q_PASS"
  shows "\<exists>a \<in> A. result_key a = Some (et_key r) \<and> result_state a = Q_PASS \<and> (\<forall>c \<in> set (result_capsules a).
    cp_hostname c = qk_hostname (et_key r) \<and> cp_provider c = qk_provider (et_key r) \<and>
    cp_policy_version c = qk_policy_version (et_key r) \<and> cp_year c \<in> {year_from (et_key r)..year_to (et_key r)} \<and>
    (\<exists>c' \<in> set (es_capsules (wd_store w')). capsule_init c' = Inr c' \<and> capsule_key c' = capsule_key c) \<and>
    (cp_hostname c, cp_year c) \<in> host_year ` set (es_host_years (wd_store w')))"
proof -
  have inv: "world_inv A w'" by (rule commit_system.inv_reachable [OF assms(1,2)])
  have "et_key r \<in> pass_keys (cn_queue (wd_control w'))" using assms(3,4) by (auto simp: pass_keys_def)
  then obtain a where a: "a \<in> A" "formed a" "result_key a = Some (et_key r)" "result_state a = Q_PASS"
      and kept: "\<And>c. c \<in> set (result_capsules a) \<Longrightarrow> capsule_kept (wd_store w') c"
    using inv by (auto simp: world_inv_def passed_by_def)
  have st: "store_inv (wd_store w')" using inv by (simp add: world_inv_def)
  have "(\<exists>c' \<in> set (es_capsules (wd_store w')). capsule_init c' = Inr c' \<and> capsule_key c' = capsule_key c) \<and>
    (cp_hostname c, cp_year c) \<in> host_year ` set (es_host_years (wd_store w'))" if c: "c \<in> set (result_capsules a)" for c
  proof -
    obtain c' where c': "c' \<in> set (es_capsules (wd_store w'))" "capsule_key c' = capsule_key c"
      using kept [OF c] by (auto simp: capsule_kept_def)
    then have "capsule_init c' = Inr c'" "capsule_host_year c' \<in> host_year ` set (es_host_years (wd_store w'))"
      using st by (auto simp: store_inv_def capsules_ok_def valid_capsule_def)
    with c' show ?thesis by (auto simp: capsule_key_def capsule_host_year_def)
  qed
  with a formed_scope [OF a(2-4)] show ?thesis by blast
qed

definition demo_committer :: committer where
  "demo_committer = \<lparr>ct_owner = ''w1'', ct_retry_base = 0, ct_retry_max = 0\<rparr>"

definition demo_world :: "evidence_db \<Rightarrow> evidence_store \<Rightarrow> commit_world" where
  "demo_world d s = \<lparr>wd_control = \<lparr>cn_queue = d, cn_kinds = [], cn_credits = [], cn_units = []\<rparr>, wd_store = s,
     wd_writer = \<lparr>cw_owner = ''w1'', cw_flush_count = 1, cw_flush_interval = 1, cw_pending = [], cw_closed = False,
       cw_last_flush = 0, cw_inserted = 0, cw_finished = 0\<rparr>\<rparr>"

definition demo_range :: range_result where
  "demo_range = \<lparr>rr_hostname = ''a.com'', rr_key = demo_key, rr_state = Q_PASS, rr_candidate_years = [1998],
     rr_followup_years = [], rr_capsules = [demo_proof ''p''], rr_pages_seen = 1, rr_records_seen = 1,
     rr_provider_requests = 1, rr_provider_elapsed_milliseconds = 1, rr_error = None\<rparr>"

lemma demo_range_formed: "formed (Range_Result demo_range)"
  using demo_proof_valid by (simp add: demo_range_def range_result_init_def demo_host demo_key_def demo_proof_def in_scope_def accounting_ok_def)

lemma demo_metric: "\<exists>ms cs. record_attempt_metric (result_metric demo_key 1 5 (Range_Result demo_range)) demo_leased =
    Inr (True, demo_leased\<lparr>ed_metrics := ms, ed_costs := cs\<rparr>)"
  by (simp add: record_attempt_metric_def demo_range_def demo_leased_def demo_tasks empty_queue_def has_task_def lease_to_def Let_def)

definition demo_world2 :: "evidence_db \<Rightarrow> evidence_store \<Rightarrow> commit_world" where
  "demo_world2 d s = (demo_world d s)\<lparr>wd_control := \<lparr>cn_queue = d, cn_kinds = [\<lparr>hk_hostname = ''a.com'', hk_year = 1998,
     hk_task_kind = ''range'', hk_provider = ''w'', hk_task_years = Some (1996, 1998), hk_task_policy = Some ''v'', hk_attributed_at = 5\<rparr>],
     cn_credits = [], cn_units = []\<rparr>\<rparr>"

lemma demo_provenance: "ed_origins d = [] \<Longrightarrow> provenance_init (task_provenance demo_key d 5) =
    Inr \<lparr>pv_key = demo_key, pv_source_key = [], pv_reservoir_id = [], pv_lease_id = [], pv_committed_at = 5, pv_task_kind = []\<rparr>"
  by (simp add: task_provenance_def primary_task_origin_def tbl_order_by_def provenance_init_def)

lemma demo_range_put: "\<exists>t. put_many_with_task_provenance [(demo_proof ''p'',
    \<lparr>pv_key = demo_key, pv_source_key = [], pv_reservoir_id = [], pv_lease_id = [], pv_committed_at = 5, pv_task_kind = []\<rparr>)] demo_store = Inr (0, t)"
proof -
  have "\<exists>x. proof_of (demo_proof ''p'') \<lparr>pv_key = demo_key, pv_source_key = [], pv_reservoir_id = [], pv_lease_id = [], pv_committed_at = 5, pv_task_kind = []\<rparr>
      = Inr (demo_proof ''p'', x)"
    using valid_normalized [OF demo_proof_valid(1)]
    by (simp add: proof_of_def or_else_def task_kind_of_def year_from_def year_to_def)
       (simp add: demo_key_def demo_proof_def)
  then show ?thesis
    by (elim exE) (simp add: put_many_with_task_provenance_def Let_def insert_all_known, simp add: demo_store_def tbl_insert_or_ignore_def)
qed

lemma demo_fields [simp]: "year_from demo_key = 1996" "year_to demo_key = 1998" "qk_provider demo_key = ''w''" "qk_hostname demo_key = ''a.com''"
    "qk_policy_version demo_key = ''v''" "cp_year (demo_proof x) = 1998"
  by (simp_all add: demo_key_def demo_proof_def year_from_def year_to_def)

lemma demo_persist:
  assumes "ed_origins d = []"
  shows "\<exists>t. persist_positive_capsules demo_key [demo_proof ''p''] False (\<lambda>_. 5) (demo_world d demo_store) =
    (Inr 0, [demo_world d t, demo_world2 d t])"
proof -
  obtain t where t: "put_many_with_task_provenance [(demo_proof ''p'',
    \<lparr>pv_key = demo_key, pv_source_key = [], pv_reservoir_id = [], pv_lease_id = [], pv_committed_at = 5, pv_task_kind = []\<rparr>)] demo_store = Inr (0, t)"
    using demo_range_put by (elim exE)
  have o1: "primary_task_origin demo_key d = None" using assms by (simp add: primary_task_origin_def tbl_order_by_def)
  have "on_store (put_many_with_task_provenance [(demo_proof ''p'',
    \<lparr>pv_key = demo_key, pv_source_key = [], pv_reservoir_id = [], pv_lease_id = [], pv_committed_at = 5, pv_task_kind = []\<rparr>)]) (demo_world d demo_store)
      = (Inr 0, [demo_world d t])"
    using t by (simp add: on_store_def demo_world_def)
  moreover have "attribute_task_host_years demo_key [cp_year (demo_proof ''p'')] 5 (demo_world d t) = (Inr 0, [demo_world2 d t])"
    using o1 by (simp add: attribute_task_host_years_def act_then_def on_control_def add_kinds_def act_read_def act_return_def
        last_world_def dedup_def demo_world_def demo_world2_def tbl_insert_or_ignore_def)
  ultimately show ?thesis
    by (intro exI [of _ t]) (simp add: persist_positive_capsules_def act_then_def act_read_def act_init_def act_return_def
        demo_provenance assms last_world_def demo_world_def)
qed

lemma demo_range_finish:
  "finish_range_task demo_key Q_PASS [] ''w1'' 5 (demo_leased\<lparr>ed_metrics := ms, ed_costs := cs\<rparr>) = Inr (0, demo_done\<lparr>ed_metrics := ms, ed_costs := cs\<rparr>)"
proof -
  have "\<not> blank ''w1''" by (simp add: blank_iff py_space_def Let_def)
  then show ?thesis
    by (simp add: finish_range_task_def demo_leased_def demo_tasks demo_done_def terminal_states_def
        tbl_find_def held_by_def tbl_update_def drop_fanout_def tbl_delete_def empty_queue_def Let_def)
qed

lemma demo_range_commit:
  assumes m: "record_attempt_metric (result_metric demo_key 1 5 (Range_Result demo_range)) demo_leased = Inr (True, demo_leased\<lparr>ed_metrics := ms, ed_costs := cs\<rparr>)"
  shows "\<exists>d t h. commit demo_committer (task_of ''w1'' 10 (fresh_task [] demo_key) demo_key) (\<lambda>_. 5) (\<lambda>_. 5) (Range_Result demo_range)
      (demo_world demo_leased demo_store) = (Inr (terminal_outcome 0), h @ [demo_world2 d t]) \<and> ed_tasks d = ed_tasks demo_done"
proof -
  let ?q = "demo_leased\<lparr>ed_metrics := ms, ed_costs := cs\<rparr>"
  have "ed_origins ?q = []" by (simp add: demo_leased_def demo_tasks empty_queue_def)
  from demo_persist [OF this] obtain t where t: "persist_positive_capsules demo_key [demo_proof ''p''] False (\<lambda>_. 5) (demo_world ?q demo_store) =
    (Inr 0, [demo_world ?q t, demo_world2 ?q t])" by (elim exE)
  have fin: "finish_terminal demo_committer demo_key Q_PASS (\<lambda>_. 5) (demo_world2 ?q t) =
      (Inr (), [demo_world2 (demo_done\<lparr>ed_metrics := ms, ed_costs := cs\<rparr>) t])"
    using demo_range_finish [where ms = ms and cs = cs]
    by (simp add: finish_terminal_def act_then_def on_queue_def on_control_def act_return_def last_world_def demo_world2_def demo_world_def demo_committer_def)
  have f: "rr_capsules demo_range = [demo_proof ''p'']" "rr_state demo_range = Q_PASS" "rr_key demo_range = demo_key" by (simp_all add: demo_range_def)
  have k: "tk_key (task_of ''w1'' 10 (fresh_task [] demo_key) demo_key) = demo_key" "tk_attempt (task_of ''w1'' 10 (fresh_task [] demo_key) demo_key) = 1"
    by (simp_all add: task_of_def)
  have met: "on_queue (record_attempt_metric (result_metric demo_key 1 5 (Range_Result demo_range))) (demo_world demo_leased demo_store) =
      (Inr True, [demo_world ?q demo_store])"
    using m by (simp add: on_queue_def on_control_def demo_world_def)
  show ?thesis
    by (intro exI [of _ "demo_done\<lparr>ed_metrics := ms, ed_costs := cs\<rparr>"] exI [of _ t] exI [of _ "[demo_world ?q demo_store, demo_world ?q t, demo_world2 ?q t]"])
       (simp add: commit_def k f met t fin act_then_def act_return_def last_world_def del: result_metric.simps)
qed

lemma demo_leased_reached: "upkeep (empty_queue [] []) demo_queue" "upkeep demo_queue demo_leased"
proof -
  show "upkeep (empty_queue [] []) demo_queue"
    by (rule upkeep.enqueue [of "[demo_key]" _ "fst (enqueue_evidence_tasks [demo_key] (empty_queue [] []))"]) (simp_all add: demo_valid demo_queue_def)
  show "upkeep demo_queue demo_leased" by (rule upkeep.claim [OF demo_queue_claim])
qed

theorem proof_before_pass_witness:
  "\<exists>w d t. started w \<and> (system_step {Range_Result demo_range})\<^sup>*\<^sup>* w (demo_world2 d t) \<and> List.map et_state (ed_tasks d) = [Q_PASS] \<and>
     (\<exists>c \<in> set (es_capsules t). cp_hostname c = ''a.com'' \<and> cp_year c \<in> {1996..1998})"
proof -
  let ?w = "\<lambda>d. demo_world d demo_store" and ?start = "demo_world (empty_queue [] []) (ensure_schema empty_store)" and ?A = "{Range_Result demo_range}"
  obtain ms cs where m: "record_attempt_metric (result_metric demo_key 1 5 (Range_Result demo_range)) demo_leased = Inr (True, demo_leased\<lparr>ed_metrics := ms, ed_costs := cs\<rparr>)"
    using demo_metric by (elim exE)
  obtain d t h where c: "commit demo_committer (task_of ''w1'' 10 (fresh_task [] demo_key) demo_key) (\<lambda>_. 5) (\<lambda>_. 5) (Range_Result demo_range)
      (?w demo_leased) = (Inr (terminal_outcome 0), h @ [demo_world2 d t])" "ed_tasks d = ed_tasks demo_done"
    using demo_range_commit [OF m] by (elim exE conjE)
  have "store_step (ensure_schema empty_store) demo_store"
    by (rule store_step.save [OF _ demo_put]) (simp add: demo_proof_valid)
  then have s1: "system_step ?A ?start (?w (empty_queue [] []))" using system_step.store [of ?start demo_store] by (simp add: demo_world_def)
  have s2: "system_step ?A (?w (empty_queue [] [])) (?w demo_queue)"
    using system_step.queue [of "?w (empty_queue [] [])" demo_queue] demo_leased_reached(1) by (simp add: demo_world_def)
  have s3: "system_step ?A (?w demo_queue) (?w demo_leased)"
    using system_step.queue [of "?w demo_queue" demo_leased] demo_leased_reached(2) by (simp add: demo_world_def)
  have s4: "system_step ?A (?w demo_leased) (demo_world2 d t)"
    by (rule system_step.commit [OF _ demo_range_formed, where C = demo_committer and task = "task_of ''w1'' 10 (fresh_task [] demo_key) demo_key" and clock = "\<lambda>_. 5" and monotonic = "\<lambda>_. 5"])
       (simp_all add: c)
  have run: "(system_step {Range_Result demo_range})\<^sup>*\<^sup>* ?start (demo_world2 d t)" using s1 s2 s3 s4 by (meson converse_rtranclp_into_rtranclp rtranclp.rtrancl_refl)
  have st: "started ?start" using demo_store_reached(1) by (auto simp: started_def demo_world_def)
  let ?r = "settle Q_PASS None (lease_to ''w1'' 10 (fresh_task [] demo_key))"
  have tasks: "ed_tasks d = [?r]" by (simp add: c(2) demo_done_def)
  have r: "?r \<in> set (ed_tasks (cn_queue (wd_control (demo_world2 d t))))" by (simp add: demo_world2_def tasks)
  have k: "et_key ?r = demo_key" "et_state ?r = Q_PASS" by (simp_all add: settle_def lease_to_def)
  have w: "wd_store (demo_world2 d t) = t" by (simp add: demo_world2_def demo_world_def)
  have "\<exists>c \<in> set (es_capsules t). cp_hostname c = ''a.com'' \<and> cp_year c \<in> {1996..1998}"
    using proof_before_pass [OF st run r k(2)] unfolding k w by (auto simp: capsule_key_def demo_range_def)
  then show ?thesis using st run by (intro exI [of _ ?start] exI [of _ d] exI [of _ t]) (simp add: tasks k)
qed

section \<open>Retry deadlines\<close>

lemma doublings_cap: "0 < base \<Longrightarrow> maximum \<le> base * 2 ^ doublings base maximum"
proof (induction base maximum rule: doublings.induct)
  case (1 base maximum)
  then show ?case by (cases "maximum \<le> base") (simp_all add: doublings.simps [of base] algebra_simps)
qed

lemma doublings_least: "0 < base \<Longrightarrow> n < doublings base maximum \<Longrightarrow> base * 2 ^ n < maximum"
proof (induction base maximum arbitrary: n rule: doublings.induct)
  case (1 base maximum)
  have small: "\<not> maximum \<le> base" using 1(3) by (auto simp: doublings.simps [of base] split: if_splits)
  show ?case
  proof (cases n)
    case 0
    with small show ?thesis by simp
  next
    case (Suc m)
    then have "m < doublings (2 * base) maximum" using 1(2,3) small by (simp add: doublings.simps [of base])
    with 1(1) [of m] 1(2) small Suc show ?thesis by (simp add: algebra_simps)
  qed
qed

text \<open>
  capping the exponent does not change a retry deadline. The committer doubles the base at most
  \<open>ceil(log2(maximum / base))\<close> times; this is the plain exponential back-off \<open>min(maximum, base *
  2^(attempt - 1))\<close> for every attempt, the first and the zeroth included.
\<close>

theorem retry_delay_plain:
  assumes "evidence_retry_at attempt base maximum now = Inr t"
  shows "t = now + min maximum (base * 2 ^ nat (attempt - 1)) \<and> now \<le> t \<and> t \<le> now + maximum"
proof -
  have ok: "0 \<le> attempt" "0 \<le> base" "base \<le> maximum" "t = now + retry_delay attempt base maximum"
    using assms by (auto simp: evidence_retry_at_def)
  have "retry_delay attempt base maximum = min maximum (base * 2 ^ nat (attempt - 1))"
  proof (cases "base = 0 \<or> maximum \<le> base")
    case True
    moreover have "base \<le> base * 2 ^ nat (attempt - 1)" using ok(2) by (simp add: mult_le_cancel_left1)
    ultimately show ?thesis using ok(2,3) by (auto simp: retry_delay_def min_def)
  next
    case False
    then have base: "0 < base" "base < maximum" using ok(2) by auto
    have "min maximum (base * 2 ^ min n (doublings base maximum)) = min maximum (base * 2 ^ n)" for n
    proof (cases "n \<le> doublings base maximum")
      case False
      then have "base * 2 ^ doublings base maximum \<le> base * 2 ^ n" using base(1) by (simp add: power_increasing)
      with doublings_cap [OF base(1), of maximum] False show ?thesis by (simp add: min_def)
    qed (simp add: min_def)
    with base ok(2) show ?thesis by (simp add: retry_delay_def)
  qed
  moreover have "0 \<le> base * 2 ^ nat (attempt - 1)" using ok(2) by simp
  ultimately show ?thesis using ok by simp
qed

lemma demo_retry: "evidence_retry_at 3 10 35 0 = Inr 35"
  by (simp add: evidence_retry_at_def retry_delay_def doublings.simps)

theorem retry_delay_plain_witness: "(35 :: rat) = 0 + min 35 (10 * 2 ^ nat (3 - 1)) \<and> evidence_retry_at 3 10 35 0 = Inr 35"
  using retry_delay_plain [OF demo_retry] demo_retry by simp

section \<open>Proof before plan\<close>

lemma or_rows:
  assumes "result h = Some m"
  shows "\<exists>m'. fold (\<lambda>r result. case result (hy_hostname r) of None \<Rightarrow> result
      | Some m \<Rightarrow> result(hy_hostname r \<mapsto> m OR mask_bit (hy_year r))) rs result h = Some m' \<and>
    (\<forall>n. bit m' n \<longleftrightarrow> bit m n \<or> (\<exists>r \<in> set rs. hy_hostname r = h \<and> bit (mask_bit (hy_year r)) n))"
  using assms
proof (induction rs arbitrary: result m)
  case (Cons r rs)
  let ?result = "case result (hy_hostname r) of None \<Rightarrow> result | Some m \<Rightarrow> result(hy_hostname r \<mapsto> m OR mask_bit (hy_year r))"
  have "?result h = Some (if hy_hostname r = h then m OR mask_bit (hy_year r) else m)" using Cons.prems by (auto split: option.split)
  from Cons.IH [where result = ?result and m = "if hy_hostname r = h then m OR mask_bit (hy_year r) else m", OF this]
  show ?case by (auto simp: bit_or_iff split: if_splits)
qed simp

lemma or_chunks:
  assumes "result h = Some m"
  shows "\<exists>m'. fold (\<lambda>chunk result. fold (\<lambda>r result. case result (hy_hostname r) of None \<Rightarrow> result
        | Some m \<Rightarrow> result(hy_hostname r \<mapsto> m OR mask_bit (hy_year r))) (filter (\<lambda>r. hy_hostname r \<in> set chunk) rows) result) css result h = Some m' \<and>
    (\<forall>n. bit m' n \<longleftrightarrow> bit m n \<or> (h \<in> set (concat css) \<and> (\<exists>r \<in> set rows. hy_hostname r = h \<and> bit (mask_bit (hy_year r)) n)))"
  using assms
proof (induction css arbitrary: result m)
  case (Cons chunk css)
  obtain m1 where m1: "fold (\<lambda>r result. case result (hy_hostname r) of None \<Rightarrow> result
        | Some m \<Rightarrow> result(hy_hostname r \<mapsto> m OR mask_bit (hy_year r))) (filter (\<lambda>r. hy_hostname r \<in> set chunk) rows) result h = Some m1"
      "\<forall>n. bit m1 n \<longleftrightarrow> bit m n \<or> (\<exists>r \<in> set (filter (\<lambda>r. hy_hostname r \<in> set chunk) rows). hy_hostname r = h \<and> bit (mask_bit (hy_year r)) n)"
    using or_rows [where result = result and h = h and m = m and rs = "filter (\<lambda>r. hy_hostname r \<in> set chunk) rows", OF Cons.prems]
    by (elim exE conjE)
  define merged where "merged = fold (\<lambda>r result. case result (hy_hostname r) of None \<Rightarrow> result
        | Some m \<Rightarrow> result(hy_hostname r \<mapsto> m OR mask_bit (hy_year r))) (filter (\<lambda>r. hy_hostname r \<in> set chunk) rows) result"
  have step: "merged h = Some m1" using m1(1) by (simp add: merged_def)
  show ?case using Cons.IH [where result = merged and m = m1, OF step] m1(2) by (auto simp: merged_def)
qed simp

lemma year_masks:
  assumes "resolve_year_masks hosts chunk s = Inr masks" "h \<in> normalize_official -` {Some h}" "h \<in> set hosts"
  shows "\<exists>m. masks h = Some m \<and> (\<forall>n. bit m n \<longleftrightarrow> (\<exists>r \<in> set (es_host_years s). hy_hostname r = h \<and> bit (mask_bit (hy_year r)) n))"
proof -
  let ?hs = "dedup (List.map_filter normalize_official hosts)"
  have h: "h \<in> set ?hs" using assms(2,3) by (force simp: dedup_def List.map_filter_def)
  have n: "0 < nat (min chunk 900)" using assms(1) by (auto simp: resolve_year_masks_def split: if_splits)
  have "(\<lambda>h. if h \<in> set ?hs then Some 0 else None) h = Some (0 :: int)" using h by simp
  from or_chunks [where result = "\<lambda>h. if h \<in> set ?hs then Some 0 else None" and h = h and m = 0, OF this,
      where rows = "es_host_years s" and css = "chunks (nat (min chunk 900)) ?hs"] h n assms(1)
  show ?thesis by (auto simp: resolve_year_masks_def Let_def concat_chunks)
qed

text \<open>
  C29: proven years are not planned again. The local mask of a host holds exactly the competition
  years for which the store has a capsule of that host, in every store reached by writes and reopening
  and for every chunk size, and a plan made with this mask neither queries nor claims any of them.
\<close>

theorem proven_years_not_replanned:
  assumes "opened s0" "store_step\<^sup>*\<^sup>* s0 s" "resolve_year_masks hosts chunk s = Inr masks"
    and "h \<in> set hosts" "normalize_official h = Some h" "y \<in> set competition_years"
  shows "\<exists>m. masks h = Some m \<and> (year_in m y \<longleftrightarrow> (\<exists>c \<in> set (es_capsules s). cp_hostname c = h \<and> cp_year c = y)) \<and>
    (\<forall>E ob official provider policy allow covered fraction p.
       plan E ob official m provider policy allow covered fraction = Inr p \<and> year_in m y \<longrightarrow> \<not> plan_queries p y \<and> \<not> plan_direct p y)"
proof -
  have inv: "store_inv s" by (rule store_reached [OF assms(1,2)])
  obtain m where m: "masks h = Some m" "\<And>n. bit m n \<longleftrightarrow> (\<exists>r \<in> set (es_host_years s). hy_hostname r = h \<and> bit (mask_bit (hy_year r)) n)"
    using year_masks [OF assms(3) _ assms(4)] assms(5) by auto
  have bit: "bit (mask_bit y') (nat (y - 1996)) \<longleftrightarrow> y' = y" for y' using year_bit_bit [OF _ assms(6), of y'] assms(6) by (auto simp: mask_bit_def)
  have "year_in m y \<longleftrightarrow> (h, y) \<in> host_year ` set (es_host_years s)"
    unfolding year_in_def m(2) by (force simp: bit host_year_def)
  also have "\<dots> \<longleftrightarrow> (\<exists>c \<in> set (es_capsules s). cp_hostname c = h \<and> cp_year c = y)"
    using inv by (auto simp: store_inv_def capsule_host_year_def)
  finally have y: "year_in m y \<longleftrightarrow> (\<exists>c \<in> set (es_capsules s). cp_hostname c = h \<and> cp_year c = y)" .
  have "\<not> plan_queries p y \<and> \<not> plan_direct p y" if p: "plan E ob official m provider policy allow covered fraction = Inr p" "year_in m y"
    for E ob official provider policy allow covered fraction p
  proof
    have known: "bit (official OR m) (nat (y - 1996))" using p(2) by (simp add: year_in_def bit_or_iff)
    then show "\<not> plan_queries p y" using plan_parts(3) [OF p(1) assms(6)] external_bits by blast
    have "\<not> bit (direct_mask_of ob (official OR m) allow) (nat (y - 1996))"
      using known by (auto simp: direct_mask_of_def bit_simps)
    then show "\<not> plan_direct p y" using plan_parts(4) [OF p(1) assms(6)] by blast
  qed
  with m(1) y show ?thesis by blast
qed

theorem proven_years_not_replanned_witness:
  "\<exists>masks m. resolve_year_masks [''a.com''] 7 demo_store = Inr masks \<and> masks ''a.com'' = Some m \<and> year_in m 1998"
proof -
  obtain masks where r: "resolve_year_masks [''a.com''] 7 demo_store = Inr masks" by (auto simp: resolve_year_masks_def Let_def)
  have "1998 \<in> set competition_years" by (simp add: competition_years_def)
  from proven_years_not_replanned [OF demo_store_reached r _ demo_host(2) this]
  obtain m where "masks ''a.com'' = Some m" "year_in m 1998 \<longleftrightarrow> (\<exists>c \<in> set (es_capsules demo_store). cp_hostname c = ''a.com'' \<and> cp_year c = 1998)"
    by auto
  with r show ?thesis by (auto simp: demo_store_def demo_proof_def)
qed

end
