(* ===== verification/Fanout.thy ===== *)
theory Fanout
  imports Evidence_Queue
begin

text \<open>
  Fan-out of domains and the RDAP backfill of \<open>storage/control_store.py\<close>, with the summaries it reads
  off the evidence tables.  A parent domain keeps a sketch of 63 bits of the children seen below it; the
  digest of a hostname (\<open>int.from_bytes(blake2s(...), "big")\<close>) is an argument.
\<close>

unbundle bit_operations_syntax

section \<open>The sketch of a parent\<close>

record fanout_row =
  fo_parent_hostname :: string
  fo_observed_self :: bool
  fo_child_count :: nat
  fo_child_sketch :: nat
  fo_query_enqueued :: bool
  fo_rdap_enqueued :: bool
  fo_first_source_key :: "string option"
  fo_updated_at :: time

text \<open>\<open>int.bit_count\<close>\<close>

fun bit_count :: "nat \<Rightarrow> nat" where
  "bit_count n = (if n = 0 then 0 else n mod 2 + bit_count (n div 2))"

declare bit_count.simps [simp del]

definition observed_parent :: "string \<Rightarrow> string option" where
  "observed_parent hostname =
     (let labels = split_dots hostname; parent_labels = tl labels in
      if length labels < 3 then None
      else if length (last parent_labels) = 2 \<and> length parent_labels < 3 then None
      else Some (join_dots parent_labels))"

definition sketch_slot :: "(string \<Rightarrow> nat) \<Rightarrow> string \<Rightarrow> nat" where
  "sketch_slot digest hostname = digest hostname mod 63"

definition add_bit :: "(string \<Rightarrow> nat) \<Rightarrow> string \<Rightarrow> (string \<times> nat) list \<Rightarrow> (string \<times> nat) list" where
  "add_bit digest hostname batch_bits =
     (case observed_parent hostname of
        None \<Rightarrow> batch_bits
      | Some p \<Rightarrow> AList.update p ((case map_of batch_bits p of None \<Rightarrow> 0 | Some b \<Rightarrow> b) OR push_bit (sketch_slot digest hostname) 1)
          batch_bits)"

definition merge_bits :: "string option \<Rightarrow> time \<Rightarrow> string \<times> nat \<Rightarrow> fanout_row list \<Rightarrow> fanout_row list" where
  "merge_bits source now = (\<lambda>(parent, bits) t. tbl_upsert fo_parent_hostname
     (\<lambda>r. let combined = fo_child_sketch r OR bits in
        r\<lparr>fo_child_count := max (fo_child_count r) (bit_count combined), fo_child_sketch := combined,
          fo_first_source_key := (case fo_first_source_key r of None \<Rightarrow> source | Some s \<Rightarrow> Some s), fo_updated_at := now\<rparr>)
     \<lparr>fo_parent_hostname = parent, fo_observed_self = False, fo_child_count = bit_count bits, fo_child_sketch = bits,
      fo_query_enqueued = False, fo_rdap_enqueued = False, fo_first_source_key = source, fo_updated_at = now\<rparr> t)"

definition normal_hosts :: "string list \<Rightarrow> string list" where
  "normal_hosts raws = dedup (List.map_filter normalize_official raws)"

definition record_domain_fanout_observations ::
  "(string \<Rightarrow> nat) \<Rightarrow> string list \<Rightarrow> string option \<Rightarrow> time \<Rightarrow> fanout_row list \<Rightarrow> nat \<times> fanout_row list" where
  "record_domain_fanout_observations digest hostnames source now t =
     (let batch_bits = fold (add_bit digest) (normal_hosts hostnames) []
      in (length batch_bits, fold (merge_bits source now) batch_bits t))"

definition fanout_order :: "fanout_row \<Rightarrow> int \<times> string" where
  "fanout_order r = (- int (fo_child_count r), fo_parent_hostname r)"

definition ready_domain_fanout_candidates :: "int \<Rightarrow> int \<Rightarrow> fanout_row list \<Rightarrow> py_error + string list" where
  "ready_domain_fanout_candidates min_children n t =
     check (1 \<le> min_children \<and> 1 \<le> n) ValueError (Inr (List.map fo_parent_hostname (take (nat n) (tbl_order_by fanout_order
       (filter (\<lambda>r. \<not> fo_query_enqueued r \<and> min_children \<le> int (fo_child_count r)) t)))))"

text \<open>A statement run for each parent; the value counts the changed rows.\<close>

definition mark_each :: "(string \<Rightarrow> fanout_row \<Rightarrow> bool) \<Rightarrow> (fanout_row \<Rightarrow> fanout_row) \<Rightarrow> string list \<Rightarrow> fanout_row list \<Rightarrow> nat \<times> fanout_row list" where
  "mark_each P f parents t = fold (\<lambda>p (n, t). (n + tbl_count (P p) t, tbl_update (P p) f t)) parents (0, t)"

definition mark_domain_fanout_enqueued :: "string list \<Rightarrow> time \<Rightarrow> fanout_row list \<Rightarrow> nat \<times> fanout_row list" where
  "mark_domain_fanout_enqueued parents now t =
     mark_each (\<lambda>p r. fo_parent_hostname r = p \<and> \<not> fo_query_enqueued r) (\<lambda>r. r\<lparr>fo_query_enqueued := True, fo_updated_at := now\<rparr>)
       (normal_hosts parents) t"

definition ready_rdap_candidates :: "int \<Rightarrow> int \<Rightarrow> fanout_row list \<Rightarrow> py_error + string list" where
  "ready_rdap_candidates min_children n t =
     check (1 \<le> min_children \<and> 1 \<le> n) ValueError (Inr (List.map fo_parent_hostname (take (nat n) (tbl_order_by fanout_order
       (filter (\<lambda>r. fo_observed_self r \<and> \<not> fo_rdap_enqueued r \<and> (min_children \<le> int (fo_child_count r) \<or>
         length (filter (\<lambda>c. c = CHR ''.'') (fo_parent_hostname r)) = 1)) t)))))"

definition mark_rdap_enqueued :: "string list \<Rightarrow> time \<Rightarrow> fanout_row list \<Rightarrow> nat \<times> fanout_row list" where
  "mark_rdap_enqueued hostnames now t =
     mark_each (\<lambda>p r. fo_parent_hostname r = p \<and> \<not> fo_rdap_enqueued r) (\<lambda>r. r\<lparr>fo_rdap_enqueued := True, fo_updated_at := now\<rparr>)
       (normal_hosts hostnames) t"

section \<open>RDAP backfill\<close>

definition first_origin :: "query_key \<Rightarrow> evidence_db \<Rightarrow> origin_row option" where
  "first_origin k d = (case tbl_order_by origin_order (filter (\<lambda>o1. og_key o1 = k) (ed_origins d)) of
     [] \<Rightarrow> None | o1 # _ \<Rightarrow> Some o1)"

definition wayback_order :: "etask \<Rightarrow> rat \<times> int \<times> string" where
  "wayback_order r = (- et_eed_weight r, year_from (et_key r), qk_hostname (et_key r))"

definition wayback_open :: "etask \<Rightarrow> bool" where
  "wayback_open r = (qk_provider (et_key r) = ''wayback'' \<and> et_state r \<in> set claimable_states)"

definition wayback_rows :: "int \<Rightarrow> evidence_db \<Rightarrow> (string \<times> origin_row option) list" where
  "wayback_rows scan_limit d = List.map (\<lambda>r. (qk_hostname (et_key r), first_origin (et_key r) d))
     (take (nat scan_limit) (tbl_order_by wayback_order (filter wayback_open (ed_tasks d))))"

fun rdap_candidates :: "nat \<Rightarrow> (string \<times> origin_row option) list \<Rightarrow> (string \<times> origin_row option) list \<Rightarrow> (string \<times> origin_row option) list" where
  "rdap_candidates n [] candidates = candidates"
| "rdap_candidates n ((hostname, o1) # rows) candidates =
     (case rdap_parent_candidate hostname of
        None \<Rightarrow> rdap_candidates n rows candidates
      | Some p \<Rightarrow>
          if p \<in> set (List.map fst candidates) then rdap_candidates n rows candidates
          else if n \<le> length candidates + 1 then candidates @ [(p, o1)]
          else rdap_candidates n rows (candidates @ [(p, o1)]))"

definition rdap_key :: "string \<Rightarrow> string \<Rightarrow> py_error + query_key" where
  "rdap_key policy hostname = bindr (temporal_scope_init (PyInt 1996) (PyInt 2001)) (\<lambda>scope.
     query_key_init \<lparr>qk_hostname = hostname, qk_temporal_scope = scope, qk_provider = ''rdap'', qk_policy_version = policy\<rparr>)"

definition seed_rdap :: "string \<Rightarrow> nat \<times> evidence_db \<Rightarrow> string \<times> origin_row option \<Rightarrow> py_error + (nat \<times> evidence_db)" where
  "seed_rdap policy = (\<lambda>(n, d) (hostname, origin). bindr (rdap_key policy hostname) (\<lambda>k.
     if has_task k d then Inr (n, d)
     else case origin of
            None \<Rightarrow> Inr (n + 1, insert_task k d)
          | Some o1 \<Rightarrow> bindr (insert_origin (insert_task k d) (o1\<lparr>og_key := k\<rparr>)) (\<lambda>d'. Inr (n + 1, d'))))"

definition backfill_rdap_tasks_from_wayback :: "int \<Rightarrow> string \<Rightarrow> evidence_db \<Rightarrow> nat db_outcome" where
  "backfill_rdap_tasks_from_wayback n policy d =
     check (1 \<le> n) ValueError (
       fold_result (seed_rdap policy) (rdap_candidates (nat n) (wayback_rows (max (n * 8) n) d) []) (0, d))"

section \<open>Summaries\<close>

text \<open>\<open>GROUP BY key ORDER BY key\<close>\<close>

definition group_rows :: "('r \<Rightarrow> 'k::linorder) \<Rightarrow> ('r list \<Rightarrow> 'v) \<Rightarrow> 'r list \<Rightarrow> ('k \<times> 'v) list" where
  "group_rows key agg t = List.map (\<lambda>k. (k, agg (filter (\<lambda>r. key r = k) t))) (sort (remdups (List.map key t)))"

instantiation action_kind :: linorder
begin

fun kind_rank :: "action_kind \<Rightarrow> nat" where
  "kind_rank DOMAIN = 0" | "kind_rank EXACT = 1" | "kind_rank RANGE = 2" | "kind_rank RDAP = 3"

definition less_eq_action_kind :: "action_kind \<Rightarrow> action_kind \<Rightarrow> bool" where "less_eq_action_kind k l = (kind_rank k \<le> kind_rank l)"

definition less_action_kind :: "action_kind \<Rightarrow> action_kind \<Rightarrow> bool" where "less_action_kind k l = (kind_rank k < kind_rank l)"

instance
proof
  have "kind_rank k = kind_rank l \<Longrightarrow> k = l" for k l by (cases k; cases l) simp_all
  then show "k \<le> l \<Longrightarrow> l \<le> k \<Longrightarrow> k = l" for k l :: action_kind by (simp add: less_eq_action_kind_def)
qed (auto simp: less_eq_action_kind_def less_action_kind_def)

end

instantiation query_state :: linorder
begin

fun state_rank :: "query_state \<Rightarrow> nat" where
  "state_rank Q_DECOMPOSED = 0" | "state_rank Q_EMPTY_EXHAUSTIVE = 1" | "state_rank Q_INCOMPLETE = 2" | "state_rank Q_INVALID = 3"
| "state_rank Q_PASS = 4" | "state_rank Q_PENDING = 5" | "state_rank Q_TRANSIENT_ERROR = 6" | "state_rank Q_UNKNOWN = 7"

definition less_eq_query_state :: "query_state \<Rightarrow> query_state \<Rightarrow> bool" where "less_eq_query_state k l = (state_rank k \<le> state_rank l)"

definition less_query_state :: "query_state \<Rightarrow> query_state \<Rightarrow> bool" where "less_query_state k l = (state_rank k < state_rank l)"

instance
proof
  have "state_rank k = state_rank l \<Longrightarrow> k = l" for k l by (cases k; cases l) simp_all
  then show "k \<le> l \<Longrightarrow> l \<le> k \<Longrightarrow> k = l" for k l :: query_state by (simp add: less_eq_query_state_def)
qed (auto simp: less_eq_query_state_def less_query_state_def)

end

record attempt_summary =
  ma_attempts :: nat
  ma_provider_requests :: int
  ma_elapsed_milliseconds :: int
  ma_pages_seen :: int
  ma_records_seen :: int

definition sum_metrics :: "metric_row list \<Rightarrow> attempt_summary" where
  "sum_metrics ms = \<lparr>ma_attempts = length ms, ma_provider_requests = sum_list (List.map mt_provider_requests ms),
     ma_elapsed_milliseconds = sum_list (List.map mt_elapsed_milliseconds ms), ma_pages_seen = sum_list (List.map mt_pages_seen ms),
     ma_records_seen = sum_list (List.map mt_records_seen ms)\<rparr>"

definition evidence_attempt_metric_summary :: "evidence_db \<Rightarrow> (action_kind \<times> attempt_summary) list" where
  "evidence_attempt_metric_summary d = group_rows mt_task_kind sum_metrics (ed_metrics d)"

definition evidence_task_origin_coverage :: "evidence_db \<Rightarrow> (query_state \<times> nat \<times> nat) list" where
  "evidence_task_origin_coverage d = group_rows et_state (\<lambda>ts. (length ts,
     tbl_count (\<lambda>r. list_ex (\<lambda>o1. og_key o1 = et_key r) (ed_origins d)) ts)) (ed_tasks d)"

definition primary_source :: "evidence_db \<Rightarrow> metric_row \<Rightarrow> string" where
  "primary_source d m = (case first_origin (mt_key m) d of None \<Rightarrow> ''__unattributed__'' | Some o1 \<Rightarrow> og_source_key o1)"

definition source_provider_request_totals :: "evidence_db \<Rightarrow> (string \<times> int) list" where
  "source_provider_request_totals d = group_rows (primary_source d) (\<lambda>ms. sum_list (List.map mt_provider_requests ms)) (ed_metrics d)"

end
