(* ===== verification/Admission.thy ===== *)
theory Admission
  imports Evidence_Flow Transactions
begin

text \<open>
  Admission to the evidence backlog (\<open>scheduler/admission.py\<close>) and the router that spills what does not
  fit (\<open>evidence/router.py\<close>).  Both keep a table of their own in the control database beside the
  evidence queue.  Each method is an action of \<open>Transactions\<close>.
\<close>

section \<open>Reservations\<close>

record reservation_row =
  rs_reservation_id :: string
  rs_provider :: string
  rs_amount :: int
  rs_expires_at :: time
  rs_lease_id :: "string option"

record evidence_need =
  nd_key :: query_key
  nd_source_key :: string
  nd_reservoir_id :: string
  nd_lease_id :: string

record admission_db =
  ad_queue :: evidence_db
  ad_reservations :: "reservation_row list"
  ad_spill :: "(evidence_need \<times> time) list"

record capacity_reservation =
  cy_reservation_id :: "string option"
  cy_provider :: string
  cy_amount :: int
  cy_expires_at :: time

definition capacity_reservation_init :: "capacity_reservation \<Rightarrow> py_error + capacity_reservation" where
  "capacity_reservation_init c =
     check (case cy_reservation_id c of None \<Rightarrow> True | Some i \<Rightarrow> \<not> blank i) ValueError (
     check (\<not> blank (cy_provider c)) ValueError (
     check (0 \<le> cy_amount c) ValueError (
     check (0 \<le> cy_expires_at c) ValueError (Inr c))))"

definition purge_expired :: "time \<Rightarrow> admission_db \<Rightarrow> admission_db" where
  "purge_expired now d = d\<lparr>ad_reservations := tbl_delete (\<lambda>r. rs_expires_at r \<le> now) (ad_reservations d)\<rparr>"

definition durable_backlog :: "string \<Rightarrow> admission_db \<Rightarrow> int" where
  "durable_backlog p d = int (tbl_count (open_for p) (ed_tasks (ad_queue d)))"

definition reserved_for :: "string \<Rightarrow> time \<Rightarrow> admission_db \<Rightarrow> int" where
  "reserved_for p now d = sum_list (List.map rs_amount (filter (\<lambda>r. rs_provider r = p \<and> now < rs_expires_at r) (ad_reservations d)))"

definition occupied :: "string \<Rightarrow> time \<Rightarrow> admission_db \<Rightarrow> int" where
  "occupied p now d = durable_backlog p d + reserved_for p now d"

definition available_capacity :: "string \<Rightarrow> int \<Rightarrow> time \<Rightarrow> (admission_db, int) transactions" where
  "available_capacity p capacity now =
     (if p = [] \<or> capacity < 0 \<or> now < 0 then act_raise ValueError
      else act_txn (\<lambda>d. let d1 = purge_expired now d in Inr (max 0 (capacity - occupied p now d1), d1)))"

definition try_reserve ::
  "string \<Rightarrow> int \<Rightarrow> int \<Rightarrow> time \<Rightarrow> time \<Rightarrow> string \<Rightarrow> (admission_db, capacity_reservation option) transactions" where
  "try_reserve p amount capacity ttl now uuid =
     (if p = [] \<or> amount < 0 \<or> capacity < 0 \<or> ttl \<le> 0 \<or> now < 0 then act_raise ValueError
      else if amount = 0
      then act_init (bindr (capacity_reservation_init \<lparr>cy_reservation_id = None, cy_provider = p, cy_amount = 0, cy_expires_at = now + ttl\<rparr>)
             (\<lambda>c. Inr (Some c)))
      else act_then (act_txn (\<lambda>d. let d1 = purge_expired now d
               in if capacity < occupied p now d1 + amount then Inr (False, d1)
                  else bindr (tbl_insert rs_reservation_id \<lparr>rs_reservation_id = uuid, rs_provider = p, rs_amount = amount,
                         rs_expires_at = now + ttl, rs_lease_id = None\<rparr> (ad_reservations d1))
                       (\<lambda>rows. Inr (True, d1\<lparr>ad_reservations := rows\<rparr>)))) (\<lambda>reserved.
           if \<not> reserved then act_return None
           else act_init (bindr (capacity_reservation_init \<lparr>cy_reservation_id = Some uuid, cy_provider = p, cy_amount = amount,
                  cy_expires_at = now + ttl\<rparr>) (\<lambda>c. Inr (Some c)))))"

definition by_id :: "string \<Rightarrow> reservation_row \<Rightarrow> bool" where
  "by_id i r = (rs_reservation_id r = i)"

definition bind_lease :: "capacity_reservation \<Rightarrow> string \<Rightarrow> (admission_db, unit) transactions" where
  "bind_lease c lease =
     (case cy_reservation_id c of
        None \<Rightarrow> act_return ()
      | Some i \<Rightarrow> if lease = [] then act_raise ValueError
          else act_txn (\<lambda>d. check (tbl_count (by_id i) (ad_reservations d) = 1) KeyError
            (Inr ((), d\<lparr>ad_reservations := tbl_update (by_id i) (\<lambda>r. r\<lparr>rs_lease_id := Some lease\<rparr>) (ad_reservations d)\<rparr>))))"

text \<open>A reservation that is still counted against the backlog.\<close>

definition live_reservation :: "string \<Rightarrow> string \<Rightarrow> time \<Rightarrow> admission_db \<Rightarrow> reservation_row option" where
  "live_reservation i p now d =
     (case tbl_find (\<lambda>r. rs_reservation_id r = i \<and> rs_provider r = p) (ad_reservations d) of
        None \<Rightarrow> None | Some r \<Rightarrow> if rs_expires_at r \<le> now then None else Some r)"

definition renew_reservation :: "capacity_reservation \<Rightarrow> time \<Rightarrow> time \<Rightarrow> (admission_db, capacity_reservation) transactions" where
  "renew_reservation c ttl now =
     (if ttl \<le> 0 \<or> now < 0 then act_raise ValueError
      else case cy_reservation_id c of
        None \<Rightarrow> act_init (capacity_reservation_init \<lparr>cy_reservation_id = None, cy_provider = cy_provider c, cy_amount = 0, cy_expires_at = now + ttl\<rparr>)
      | Some i \<Rightarrow> act_then (act_txn (\<lambda>d. case live_reservation i (cy_provider c) now d of
            None \<Rightarrow> Inl RuntimeError
          | Some r \<Rightarrow> let until = max (rs_expires_at r) (now + ttl)
              in Inr (\<lparr>cy_reservation_id = Some i, cy_provider = cy_provider c, cy_amount = rs_amount r, cy_expires_at = until\<rparr>,
                   d\<lparr>ad_reservations := tbl_update (by_id i) (\<lambda>r. r\<lparr>rs_expires_at := until\<rparr>) (ad_reservations d)\<rparr>)))
          (\<lambda>c'. act_init (capacity_reservation_init c')))"

definition remaining :: "capacity_reservation option \<Rightarrow> time \<Rightarrow> admission_db \<Rightarrow> py_error + int" where
  "remaining c now d =
     (case c of None \<Rightarrow> Inr 0 | Some c \<Rightarrow> (case cy_reservation_id c of None \<Rightarrow> Inr 0 | Some i \<Rightarrow>
        check (0 \<le> now) ValueError (
        Inr (case live_reservation i (cy_provider c) now d of None \<Rightarrow> 0 | Some r \<Rightarrow> max 0 (rs_amount r)))))"

definition on_ad_queue :: "(evidence_db \<Rightarrow> py_error + evidence_db) \<Rightarrow> admission_db \<Rightarrow> py_error + admission_db" where
  "on_ad_queue f d = bindr (f (ad_queue d)) (\<lambda>q. Inr (d\<lparr>ad_queue := q\<rparr>))"

text \<open>What is left of a reservation of which \<open>n\<close> slots became tasks.\<close>

definition consume :: "string \<Rightarrow> int \<Rightarrow> admission_db \<Rightarrow> admission_db" where
  "consume i left d = d\<lparr>ad_reservations := (if left \<noteq> 0 then tbl_update (by_id i) (\<lambda>r. r\<lparr>rs_amount := left\<rparr>) (ad_reservations d)
     else tbl_delete (by_id i) (ad_reservations d))\<rparr>"

definition lineage_given :: "string option list \<Rightarrow> bool" where
  "lineage_given ls = (list_all (\<lambda>v. v = None) ls \<or> list_all (\<lambda>v. case v of None \<Rightarrow> False | Some s \<Rightarrow> \<not> blank s) ls)"

definition lineage_origins :: "query_key list \<Rightarrow> string option \<Rightarrow> string option \<Rightarrow> string option \<Rightarrow> time \<Rightarrow> origin_row list" where
  "lineage_origins keys source reservoir lease now =
     (case (source, reservoir, lease) of
        (Some s, Some r, Some l) \<Rightarrow> List.map (\<lambda>k. \<lparr>og_key = k, og_source_key = s, og_reservoir_id = r, og_lease_id = l,
          og_first_observed_at = now\<rparr>) keys
      | _ \<Rightarrow> [])"

definition enqueue_reserved ::
  "capacity_reservation \<Rightarrow> query_key list \<Rightarrow> string option \<Rightarrow> string option \<Rightarrow> string option \<Rightarrow> time \<Rightarrow> (admission_db, nat) transactions" where
  "enqueue_reserved c keys source reservoir lease now =
     (let rows = dedup keys in
      if rows = [] then act_return 0
      else case cy_reservation_id c of
        None \<Rightarrow> act_raise RuntimeError
      | Some i \<Rightarrow>
          if \<not> list_all (\<lambda>k. qk_provider k = cy_provider c) rows \<or> \<not> lineage_given [source, reservoir, lease] \<or> now < 0
          then act_raise ValueError
          else act_txn (\<lambda>d. case live_reservation i (cy_provider c) now d of
              None \<Rightarrow> Inl RuntimeError
            | Some r \<Rightarrow>
                let q = fold insert_task rows (ad_queue d); n = length (ed_tasks q) - length (ed_tasks (ad_queue d))
                in check (int n \<le> rs_amount r) RuntimeError (
                   bindr (on_ad_queue (fold_result insert_origin (lineage_origins rows source reservoir lease now)) (d\<lparr>ad_queue := q\<rparr>))
                     (\<lambda>d'. Inr (n, consume i (rs_amount r - int n) d')))))"

definition release :: "capacity_reservation option \<Rightarrow> (admission_db, unit) transactions" where
  "release c =
     (case c of None \<Rightarrow> act_return () | Some c \<Rightarrow> (case cy_reservation_id c of None \<Rightarrow> act_return ()
      | Some i \<Rightarrow> act_txn (\<lambda>d. Inr ((), d\<lparr>ad_reservations := tbl_delete (by_id i) (ad_reservations d)\<rparr>))))"

definition reserved :: "string \<Rightarrow> time \<Rightarrow> admission_db \<Rightarrow> py_error + int" where
  "reserved p now d = check (\<not> blank p) ValueError (check (0 \<le> now) ValueError (Inr (reserved_for p now d)))"

end
