(* ===== verification/Evidence_Router.thy ===== *)
theory Evidence_Router
  imports Admission
begin

text \<open>
  Routing of unresolved evidence work (\<open>evidence/router.py\<close>): a need is first written to a spill table
  and leaves it only after its task is in the evidence queue.  Every provider has a bounded lane.

  The readings of the clock and the fresh identifiers of a call are functions: the reading \<open>j\<close> of the
  group \<open>i\<close> of needs is \<open>clock i j\<close>, its identifier is \<open>uuid i\<close>.
\<close>

section \<open>The router and its table\<close>

record router =
  ro_backlog_capacities :: "(string \<times> int) list"
  ro_generic_archive_provider :: string

definition router_init :: "router \<Rightarrow> py_error + router" where
  "router_init ro =
     check (\<not> blank (ro_generic_archive_provider ro)) ValueError (
     check (list_all (\<lambda>(p, n). p \<noteq> [] \<and> 0 \<le> n) (ro_backlog_capacities ro)) ValueError (Inr ro))"

definition lane_capacity :: "router \<Rightarrow> string \<Rightarrow> int" where
  "lane_capacity ro p = (case map_of (ro_backlog_capacities ro) p of None \<Rightarrow> 0 | Some n \<Rightarrow> n)"

definition evidence_need_init :: "evidence_need \<Rightarrow> py_error + evidence_need" where
  "evidence_need_init nd = check (\<not> blank (nd_source_key nd) \<and> \<not> blank (nd_reservoir_id nd) \<and> \<not> blank (nd_lease_id nd)) ValueError (Inr nd)"

definition rebuilt_key :: "string \<Rightarrow> query_key \<Rightarrow> py_error + query_key" where
  "rebuilt_key p k = bindr (temporal_scope_init (PyInt (year_from k)) (PyInt (year_to k))) (\<lambda>scope.
     query_key_init (k\<lparr>qk_temporal_scope := scope, qk_provider := p\<rparr>))"

definition route_external :: "router \<Rightarrow> query_key list \<Rightarrow> string option \<Rightarrow> py_error + query_key list" where
  "route_external ro keys preferred =
     (let p = (case preferred of None \<Rightarrow> ro_generic_archive_provider ro | Some q \<Rightarrow> q) in
      check (\<not> blank p) ValueError (
      collect (List.map (\<lambda>k. rebuilt_key (if qk_provider k = ''rdap'' then qk_provider k else p) k) (dedup keys))))"

definition stage :: "evidence_need list \<Rightarrow> time \<Rightarrow> (admission_db, nat) transactions" where
  "stage needs now =
     (let rows = dedup needs in
      if rows = [] then act_return 0
      else if now < 0 then act_raise ValueError
      else act_txn (\<lambda>d. let spill = fold (\<lambda>nd. tbl_insert_or_ignore fst (nd, now)) rows (ad_spill d)
             in Inr (length spill - length (ad_spill d), d\<lparr>ad_spill := spill\<rparr>)))"

definition pending_count :: "string option \<Rightarrow> admission_db \<Rightarrow> nat" where
  "pending_count provider d = (case provider of None \<Rightarrow> length (ad_spill d)
     | Some p \<Rightarrow> tbl_count (\<lambda>(nd, _). qk_provider (nd_key nd) = p) (ad_spill d))"

definition lineage_of :: "evidence_need \<Rightarrow> string \<times> string \<times> string" where
  "lineage_of nd = (nd_source_key nd, nd_reservoir_id nd, nd_lease_id nd)"

definition pending_count_for_lineage :: "string \<times> string \<times> string \<Rightarrow> admission_db \<Rightarrow> nat" where
  "pending_count_for_lineage l d = tbl_count (\<lambda>(nd, _). lineage_of nd = l) (ad_spill d)"

definition delete_staged :: "evidence_need list \<Rightarrow> (admission_db, unit) transactions" where
  "delete_staged needs =
     (let rows = dedup needs in
      if rows = [] then act_return ()
      else act_txn (\<lambda>d. Inr ((), d\<lparr>ad_spill := fold (\<lambda>nd. tbl_delete (\<lambda>(nd', _). nd' = nd)) rows (ad_spill d)\<rparr>)))"

section \<open>Promotion\<close>

definition enqueue_group :: "evidence_need \<Rightarrow> evidence_need list \<Rightarrow> capacity_reservation \<Rightarrow> time \<Rightarrow> (admission_db, nat) transactions" where
  "enqueue_group nd needs c now =
     act_then (bind_lease c (nd_lease_id nd)) (\<lambda>_.
     act_then (enqueue_reserved c (List.map nd_key needs) (Some (nd_source_key nd)) (Some (nd_reservoir_id nd)) (Some (nd_lease_id nd)) now) (\<lambda>n.
     act_then (delete_staged needs) (\<lambda>_. act_return n)))"

definition try_enqueue_group :: "router \<Rightarrow> evidence_need list \<Rightarrow> time \<Rightarrow> (nat \<Rightarrow> time) \<Rightarrow> string \<Rightarrow> (admission_db, nat) transactions" where
  "try_enqueue_group ro needs ttl clock uuid =
     (case needs of
        [] \<Rightarrow> act_return 0
      | nd # _ \<Rightarrow>
          let p = qk_provider (nd_key nd); capacity = lane_capacity ro p in
          if \<not> list_all (\<lambda>nd'. qk_provider (nd_key nd') = p \<and> lineage_of nd' = lineage_of nd) needs then act_raise ValueError
          else if capacity \<le> 0 then act_return 0
          else act_then (try_reserve p (int (length needs)) capacity ttl (clock 0) uuid) (\<lambda>c.
               case c of None \<Rightarrow> act_return 0
               | Some c \<Rightarrow> act_finally (enqueue_group nd needs c (clock 1)) (release (Some c))))"

text \<open>\<open>dict.setdefault(key, []).append(x)\<close>: the groups in the order of their first element.\<close>

definition grouped :: "('a \<Rightarrow> 'k) \<Rightarrow> 'a list \<Rightarrow> 'a list list" where
  "grouped f xs = List.map (\<lambda>k. filter (\<lambda>x. f x = k) xs) (dedup (List.map f xs))"

record route_result =
  rt_enqueued :: nat
  rt_staged :: nat

definition enqueue_or_stage ::
  "router \<Rightarrow> query_key list \<Rightarrow> string \<times> string \<times> string \<Rightarrow> time \<Rightarrow> string option \<Rightarrow> (nat \<Rightarrow> nat \<Rightarrow> time) \<Rightarrow> (nat \<Rightarrow> string) \<Rightarrow>
     (admission_db, route_result) transactions" where
  "enqueue_or_stage ro keys lineage ttl preferred clock uuid =
     (case lineage of (source_key, reservoir_id, lease_id) \<Rightarrow>
      act_then (act_init (bindr (route_external ro keys preferred) (\<lambda>routed.
        collect (List.map (\<lambda>k. evidence_need_init \<lparr>nd_key = k, nd_source_key = source_key, nd_reservoir_id = reservoir_id,
          nd_lease_id = lease_id\<rparr>) routed)))) (\<lambda>needs.
      act_then (stage needs (clock 0 0)) (\<lambda>_.
      let groups = grouped (\<lambda>nd. qk_provider (nd_key nd)) needs in
      act_then (act_sum (\<lambda>(i, g). try_enqueue_group ro g ttl (clock (Suc i)) (uuid i)) (zip [0..<length groups] groups)) (\<lambda>n.
      act_then (act_read (pending_count_for_lineage lineage)) (\<lambda>m.
      act_return \<lparr>rt_enqueued = n, rt_staged = m\<rparr>)))))"

section \<open>Flushing the spill\<close>

definition spill_order :: "evidence_need \<times> time \<Rightarrow> rat \<times> string \<times> string \<times> int \<times> int" where
  "spill_order x = (case x of (nd, created) \<Rightarrow>
     (created, qk_provider (nd_key nd), qk_hostname (nd_key nd), year_from (nd_key nd), year_to (nd_key nd)))"

definition spilled_need :: "evidence_need \<times> time \<Rightarrow> py_error + evidence_need" where
  "spilled_need x = bindr (rebuilt_key (qk_provider (nd_key (fst x))) (nd_key (fst x))) (\<lambda>k. evidence_need_init ((fst x)\<lparr>nd_key := k\<rparr>))"

text \<open>The needs of a group that fit: one slot each, in order.\<close>

definition fitting :: "int \<Rightarrow> evidence_need list \<Rightarrow> evidence_need list" where
  "fitting room needs = take (nat room) needs"

definition flush_group :: "router \<Rightarrow> time \<Rightarrow> (nat \<Rightarrow> time) \<Rightarrow> string \<Rightarrow> evidence_need list \<Rightarrow> (admission_db, nat) transactions" where
  "flush_group ro ttl clock uuid needs =
     (let p = qk_provider (nd_key (hd needs)); capacity = lane_capacity ro p in
      if capacity \<le> 0 then act_return 0
      else act_then (available_capacity p capacity (clock 0)) (\<lambda>room.
        if room \<le> 0 \<or> fitting room needs = [] then act_return 0
        else try_enqueue_group ro (fitting room needs) ttl (\<lambda>j. clock (Suc j)) uuid))"

definition flush_needs :: "router \<Rightarrow> time \<Rightarrow> (nat \<Rightarrow> nat \<Rightarrow> time) \<Rightarrow> (nat \<Rightarrow> string) \<Rightarrow> evidence_need list \<Rightarrow> (admission_db, nat) transactions" where
  "flush_needs ro ttl clock uuid needs =
     (let groups = grouped (\<lambda>nd. (qk_provider (nd_key nd), lineage_of nd)) needs
      in act_sum (\<lambda>(i, g). flush_group ro ttl (clock i) (uuid i) g) (zip [0..<length groups] groups))"

definition flush_pending :: "router \<Rightarrow> time \<Rightarrow> int \<Rightarrow> (nat \<Rightarrow> nat \<Rightarrow> time) \<Rightarrow> (nat \<Rightarrow> string) \<Rightarrow> (admission_db, nat) transactions" where
  "flush_pending ro ttl max_needs clock uuid =
     (if ttl \<le> 0 then act_raise ValueError
      else if max_needs < 1 then act_return 0
      else act_then (act_read (\<lambda>d. List.map spilled_need (take (nat max_needs) (tbl_order_by spill_order (ad_spill d))))) (\<lambda>rows.
           act_then (act_init (collect rows)) (\<lambda>needs. flush_needs ro ttl clock uuid needs)))"

end
