(* ===== verification/Router_Properties.thy ===== *)
theory Router_Properties
  imports Evidence_Router
begin

text \<open>
  Properties of admission and routing: the backlog of a provider never exceeds the capacity of its lane,
  whatever the clock does, and a need that was once spilled is never lost, whatever crashes.
\<close>

section \<open>The load of a lane\<close>

definition held :: "string \<Rightarrow> reservation_row list \<Rightarrow> int" where
  "held p t = sum_list (List.map rs_amount (filter (\<lambda>r. rs_provider r = p) t))"

definition load :: "string \<Rightarrow> admission_db \<Rightarrow> int" where
  "load p d = durable_backlog p d + held p (ad_reservations d)"

definition amounts_ok :: "reservation_row list \<Rightarrow> bool" where
  "amounts_ok t \<longleftrightarrow> uniq rs_reservation_id t \<and> (\<forall>r \<in> set t. 0 < rs_amount r)"

lemma held_simps [simp]: "held p [] = 0" "held p (r # t) = (if rs_provider r = p then rs_amount r else 0) + held p t"
    "held p (t @ u) = held p t + held p u"
  by (simp_all add: held_def)

lemma held_delete: "amounts_ok t \<Longrightarrow> held p (tbl_delete P t) \<le> held p t"
  by (induction t) (auto simp: tbl_delete_def amounts_ok_def)

lemma amounts_delete: "amounts_ok t \<Longrightarrow> amounts_ok (tbl_delete P t)"
  by (auto simp: amounts_ok_def uniq_def tbl_delete_def distinct_map intro: inj_on_subset)

lemma held_update: "(\<And>r. rs_provider (f r) = rs_provider r \<and> rs_amount (f r) = rs_amount r) \<Longrightarrow> held p (tbl_update P f t) = held p t"
  by (induction t) (auto simp: tbl_update_def)

lemma amounts_update:
  "amounts_ok t \<Longrightarrow> (\<And>r. rs_reservation_id (f r) = rs_reservation_id r) \<Longrightarrow> (\<And>r. r \<in> set t \<Longrightarrow> P r \<Longrightarrow> 0 < rs_amount (f r)) \<Longrightarrow>
   amounts_ok (tbl_update P f t)"
  by (auto simp: amounts_ok_def uniq_def tbl_update_def comp_def if_distrib cong: if_cong)

text \<open>After a purge every reservation is live.\<close>

lemma reserved_purged: "reserved_for p now (purge_expired now d) = held p (ad_reservations (purge_expired now d))"
  by (simp add: reserved_for_def held_def purge_expired_def tbl_delete_def) (metis (no_types, lifting) linorder_not_le)

lemma held_by_id:
  assumes "amounts_ok t" "tbl_find (by_id i) t = Some r"
  shows "held p (tbl_update (by_id i) (\<lambda>r. r\<lparr>rs_amount := n\<rparr>) t) = held p t + (if rs_provider r = p then n - rs_amount r else 0)"
    "held p (tbl_delete (by_id i) t) = held p t - (if rs_provider r = p then rs_amount r else 0)"
proof -
  have gone: "tbl_update (by_id i) f t = t" "tbl_delete (by_id i) t = t" if "\<forall>x \<in> set t. rs_reservation_id x \<noteq> i" for f t
    using that by (induction t) (auto simp: tbl_update_def tbl_delete_def by_id_def)
  have "held p (tbl_update (by_id i) (\<lambda>r. r\<lparr>rs_amount := n\<rparr>) t) = held p t + (if rs_provider r = p then n - rs_amount r else 0) \<and>
    held p (tbl_delete (by_id i) t) = held p t - (if rs_provider r = p then rs_amount r else 0)"
    using assms
  proof (induction t)
    case (Cons x t)
    show ?case
    proof (cases "rs_reservation_id x = i")
      case True
      with Cons.prems have "r = x" "\<forall>y \<in> set t. rs_reservation_id y \<noteq> i"
        by (auto simp: tbl_find_def by_id_def amounts_ok_def image_iff)
      with True gone [of t] show ?thesis by (simp add: tbl_update_def tbl_delete_def by_id_def)
    next
      case False
      with Cons show ?thesis by (simp add: tbl_update_def tbl_delete_def tbl_find_def by_id_def amounts_ok_def)
    qed
  qed (simp add: tbl_find_def)
  then show "held p (tbl_update (by_id i) (\<lambda>r. r\<lparr>rs_amount := n\<rparr>) t) = held p t + (if rs_provider r = p then n - rs_amount r else 0)"
    "held p (tbl_delete (by_id i) t) = held p t - (if rs_provider r = p then rs_amount r else 0)" by blast+
qed

section \<open>Queue operations\<close>

text \<open>Work on existing tasks opens none.\<close>

lemma open_after:
  assumes "row_step a now r r'" "row_ok r" "a \<noteq> Override" "open_for p r'"
  shows "open_for p r"
  using assms
  by (induction rule: row_step.induct) (auto simp: open_for_def held_by_def row_ok_def split: option.splits)

lemma queue_opens_none:
  assumes "queue_inv d" "queue_step a now d d'" "a \<noteq> Override" "\<And>k. has_task k d' \<Longrightarrow> has_task k d"
  shows "tbl_count (open_for p) (ed_tasks d') \<le> tbl_count (open_for p) (ed_tasks d)"
proof -
  have ev: "evolves a now d d'" using queue_step_inv [OF assms(2,1)] by blast
  then obtain f ks where f: "ed_tasks d' = List.map f (ed_tasks d) @ List.map (fresh_task (ed_tld_weights d)) ks"
      "\<forall>r \<in> set (ed_tasks d). row_step a now r (f r)" "\<forall>k \<in> set ks. \<not> has_task k d"
    unfolding evolves_def by blast
  have "has_task k d'" if "k \<in> set ks" for k using that f(1) by (force simp: has_task_def)
  then have ks: "ks = []" using f(3) assms(4) by (cases ks) auto
  have "\<forall>r \<in> set (ed_tasks d). row_ok r" using assms(1) by (simp add: queue_inv_def tasks_ok_def)
  then have "open_for p (f r) \<Longrightarrow> open_for p r" if "r \<in> set (ed_tasks d)" for r
    using open_after [of a now r "f r"] f(2) assms(3) that by blast
  then have "tbl_count (open_for p) (List.map f t) \<le> tbl_count (open_for p) t" if "set t \<subseteq> set (ed_tasks d)" for t
    using that by (induction t) auto
  then show ?thesis by (simp add: f(1) ks)
qed

lemma insert_tasks_inv:
  assumes inv: "queue_inv d" and v: "list_all valid_key ks"
  shows "queue_inv (fold insert_task ks d)"
proof -
  obtain ks' where ks': "fold insert_task ks d = d\<lparr>ed_tasks := ed_tasks d @ List.map (fresh_task (ed_tld_weights d)) ks'\<rparr>"
      "set ks' = {k \<in> set ks. \<not> has_task k d}" "distinct ks'" using insert_tasks_tasks by blast
  let ?d = "d\<lparr>ed_tasks := ed_tasks d @ List.map (fresh_task (ed_tld_weights d)) ks'\<rparr>"
  have ok: "tasks_ok d" "links_ok d" "measures_ok d" using inv by (simp_all add: queue_inv_def)
  have ev: "evolves Admin 0 d ?d"
    using ks'(2,3) v ok(1) unfolding evolves_def tasks_ok_def
    by (intro conjI exI [of _ id] exI [of _ ks']) (auto simp: row_step_refl list_all_iff)
  have "fanout_for ?d x" if "fanout_for d x" for x using that by (auto simp: fanout_for_def)
  moreover have "has_task (og_key o1) ?d" if "o1 \<in> set (ed_origins ?d)" for o1
    using that ok(2) evolves_has [OF ev] by (simp add: links_ok_def)
  ultimately have "links_ok ?d" using ok(2) by (auto simp: links_ok_def)
  then show ?thesis using evolved_rows(1) [OF ev ok(1)] measures_frame [OF ok(3) ev] by (simp add: queue_inv_def ks'(1))
qed

lemma insert_origins_inv:
  assumes inv: "queue_inv d" and op: "fold_result insert_origin os d = Inr d'"
  shows "queue_inv d'" "ed_tasks d' = ed_tasks d" "origin_key ` set os \<subseteq> origin_key ` set (ed_origins d')" "set (ed_origins d) \<subseteq> set (ed_origins d')"
proof -
  obtain xs where xs: "d' = d\<lparr>ed_origins := ed_origins d @ xs\<rparr>" "uniq origin_key (ed_origins d) \<longrightarrow> uniq origin_key (ed_origins d @ xs)"
      "\<forall>x \<in> set xs. has_task (og_key x) d" "origin_key ` set os \<subseteq> origin_key ` set (ed_origins d @ xs)"
    using insert_origins [OF op] by blast
  have ev: "evolves Admin 0 d d'" by (rule same_tasks_evolve [OF inv]) (simp_all add: xs(1))
  have "links_ok d'" using inv xs by (auto simp: queue_inv_def links_ok_def fanout_for_def has_task_def)
  then show "queue_inv d'" using inv evolved_rows(1) [OF ev] measures_frame [OF _ ev] by (simp add: queue_inv_def xs(1))
  show "ed_tasks d' = ed_tasks d" "origin_key ` set os \<subseteq> origin_key ` set (ed_origins d')" "set (ed_origins d) \<subseteq> set (ed_origins d')"
    using xs by auto
qed

lemma queue_origins_grow:
  assumes "queue_inv d" "queue_step a now d d'"
  shows "set (ed_origins d) \<subseteq> set (ed_origins d')"
proof -
  have ok: "tasks_ok d" using assms(1) by (simp add: queue_inv_def)
  have finish: "finish_results rs w ra now d = Inr (n, d') \<Longrightarrow> ed_origins d' = ed_origins d" for rs w ra n
    by (cases "rs = []", simp add: finish_results_def, erule (1) finish_results_cases, simp)
  show ?thesis using assms(2)
  proof (cases rule: queue_step.cases)
    case (claim w limit ps ls ts)
    then show ?thesis by (cases rule: claim_cases [OF claim(2) ok]) (simp_all add: claimed_def)
  next
    case (store_claim w limit ls ks ts)
    then show ?thesis by (cases rule: store_claim_cases [OF store_claim(2) ok]) (simp_all add: claimed_def)
  next
    case (renew ks w ls n)
    then show ?thesis by (auto simp: queue_renew_def Let_def split: if_splits)
  next
    case (finish_range k st fs w n)
    then show ?thesis by (cases rule: finish_range_cases [OF finish_range(2) ok]) simp
  next
    case (finish_tasks rs w n)
    then show ?thesis using finish by (auto simp: finish_evidence_tasks_def)
  next
    case (finish_task k st w ra n)
    then show ?thesis using finish by (auto simp: finish_evidence_task_def)
  next
    case (override k st ra n)
    then show ?thesis using finish by (auto simp: finish_evidence_task_def)
  next
    case (enqueue ks n)
    have "ed_origins (fold insert_task ks d) = ed_origins d" for ks using insert_tasks_tasks [of ks d] by auto
    moreover have "ed_origins (fold reserve_fanout ks e) = ed_origins e" for ks e
      by (induction ks arbitrary: e) (simp_all add: reserve_fanout_def split: option.splits)
    ultimately show ?thesis using enqueue(3) by (auto simp: enqueue_evidence_tasks_def Let_def)
  next
    case (reweigh ws n)
    then show ?thesis by (auto simp: set_eed_tld_weights_def Let_def)
  next
    case (origins ks sk ri li t n)
    then show ?thesis using insert_origins_inv(4) [OF assms(1)] by (auto simp: record_task_origins_def)
  next
    case (metric m b)
    then show ?thesis by (auto simp: record_attempt_metric_def Let_def split: if_splits)
  next
    case (publish rws b m c)
    then show ?thesis by (auto simp: publish_rewards_def Let_def split: if_splits)
  next
    case invalidate
    then show ?thesis by (simp add: invalidate_rewards_def)
  qed
qed

section \<open>The invariant\<close>

text \<open>A need whose task is in the queue with the lineage of the need.\<close>

definition settled :: "evidence_need \<Rightarrow> evidence_db \<Rightarrow> bool" where
  "settled nd q \<longleftrightarrow> has_task (nd_key nd) q \<and>
     (nd_key nd, nd_source_key nd, nd_reservoir_id nd, nd_lease_id nd) \<in> origin_key ` set (ed_origins q)"

definition kept :: "evidence_need \<Rightarrow> admission_db \<Rightarrow> bool" where
  "kept nd d \<longleftrightarrow> nd \<in> fst ` set (ad_spill d) \<or> settled nd (ad_queue d)"

definition lanes_ok :: "(string \<Rightarrow> int) \<Rightarrow> admission_db \<Rightarrow> bool" where
  "lanes_ok C d \<longleftrightarrow> queue_inv (ad_queue d) \<and> amounts_ok (ad_reservations d) \<and> (\<forall>p. load p d \<le> C p)"

definition admission_inv :: "(string \<Rightarrow> int) \<Rightarrow> evidence_need set \<Rightarrow> admission_db \<Rightarrow> bool" where
  "admission_inv C N d \<longleftrightarrow> lanes_ok C d \<and> (\<forall>nd \<in> N. kept nd d)"

lemma settled_mono: "settled nd q \<Longrightarrow> (\<And>k. has_task k q \<Longrightarrow> has_task k q') \<Longrightarrow> origin_key ` set (ed_origins q) \<subseteq> origin_key ` set (ed_origins q') \<Longrightarrow> settled nd q'"
  by (auto simp: settled_def)

lemma lanes_reservations:
  assumes "admission_inv C N d" "amounts_ok t" "\<And>p. durable_backlog p d + held p t \<le> C p"
  shows "admission_inv C N (d\<lparr>ad_reservations := t\<rparr>)"
  using assms by (simp add: admission_inv_def lanes_ok_def load_def durable_backlog_def kept_def)

lemma lanes_shrink:
  assumes "admission_inv C N d" "amounts_ok t" "\<And>p. held p t \<le> held p (ad_reservations d)"
  shows "admission_inv C N (d\<lparr>ad_reservations := t\<rparr>)"
proof (rule lanes_reservations [OF assms(1,2)])
  fix p
  have "load p d \<le> C p" using assms(1) by (simp add: admission_inv_def lanes_ok_def)
  with assms(3) [of p] show "durable_backlog p d + held p t \<le> C p" by (simp add: load_def)
qed

lemma inv_parts:
  "admission_inv C N d \<Longrightarrow> amounts_ok (ad_reservations d)"
  "admission_inv C N d \<Longrightarrow> queue_inv (ad_queue d)"
  "admission_inv C N d \<Longrightarrow> load p d \<le> C p"
  by (simp_all add: admission_inv_def lanes_ok_def)

lemma lanes_delete: "admission_inv C N d \<Longrightarrow> admission_inv C N (d\<lparr>ad_reservations := tbl_delete P (ad_reservations d)\<rparr>)"
  by (rule lanes_shrink) (auto simp: amounts_delete held_delete dest: inv_parts(1))

lemma lanes_purge: "admission_inv C N d \<Longrightarrow> admission_inv C N (purge_expired now d)"
  unfolding purge_expired_def by (rule lanes_delete)

lemma lanes_relabel:
  assumes "admission_inv C N d" "\<And>r. rs_provider (f r) = rs_provider r \<and> rs_amount (f r) = rs_amount r \<and> rs_reservation_id (f r) = rs_reservation_id r"
  shows "admission_inv C N (d\<lparr>ad_reservations := tbl_update P f (ad_reservations d)\<rparr>)"
proof (rule lanes_shrink [OF assms(1)])
  show "amounts_ok (tbl_update P f (ad_reservations d))"
    by (rule amounts_update [OF inv_parts(1) [OF assms(1)]]) (use assms(2) inv_parts(1) [OF assms(1)] in \<open>auto simp: amounts_ok_def\<close>)
qed (simp add: held_update assms(2))

section \<open>Every operation keeps it\<close>

abbreviation holds :: "(string \<Rightarrow> int) \<Rightarrow> evidence_need set \<Rightarrow> (admission_db, 'a) transactions \<Rightarrow> bool" where
  "holds C N a \<equiv> guarded (admission_inv C N) (\<lambda>_. True) a (\<lambda>_ _. True)"

lemma holds_available: "holds C N (available_capacity p c now)"
  unfolding available_capacity_def
  by (intro guarded_if guarded_raise guarded_txn) (auto simp: Let_def lanes_purge)

lemma holds_reserve:
  assumes "capacity \<le> C p"
  shows "holds C N (try_reserve p amount capacity ttl now uuid)"
proof -
  let ?row = "\<lparr>rs_reservation_id = uuid, rs_provider = p, rs_amount = amount, rs_expires_at = now + ttl, rs_lease_id = None\<rparr>"
  have "admission_inv C N (d1\<lparr>ad_reservations := ad_reservations d1 @ [?row]\<rparr>)"
    if d1: "d1 = purge_expired now d" "\<not> capacity < occupied p now d1 + amount" "0 < amount"
      "uuid \<notin> rs_reservation_id ` set (ad_reservations d1)" "admission_inv C N d" for d d1
  proof (rule lanes_reservations)
    show inv: "admission_inv C N d1" using lanes_purge [OF that(5)] d1(1) by simp
    show "amounts_ok (ad_reservations d1 @ [?row])" using inv_parts(1) [OF inv] d1(3,4) by (auto simp: amounts_ok_def uniq_def)
    fix q
    show "durable_backlog q d1 + held q (ad_reservations d1 @ [?row]) \<le> C q"
      using inv_parts(3) [OF inv, of q] d1(2) assms reserved_purged [of p now d, folded d1(1)]
      by (auto simp: load_def occupied_def)
  qed
  then show ?thesis
    unfolding try_reserve_def
    by (intro guarded_if guarded_raise guarded_init guarded_then [where R = "\<lambda>_ _. True"] guarded_txn)
       (auto simp: Let_def lanes_purge tbl_insert_Inr intro!: guarded_return guarded_init split: if_splits)
qed

lemma holds_bind: "holds C N (bind_lease c lease)"
  unfolding bind_lease_def
  by (auto intro!: guarded_if guarded_raise guarded_return guarded_txn lanes_relabel split: option.split)

lemma holds_renew: "holds C N (renew_reservation c ttl now)"
  unfolding renew_reservation_def
  by (auto intro!: guarded_if guarded_raise guarded_init guarded_then [where R = "\<lambda>_ _. True"] guarded_txn lanes_relabel
      simp: Let_def split: option.splits)

lemma holds_release: "holds C N (release c)"
  unfolding release_def by (auto intro!: guarded_return guarded_txn lanes_delete split: option.split)

lemma live_found:
  assumes "live_reservation i p now d = Some r" "amounts_ok (ad_reservations d)"
  shows "tbl_find (by_id i) (ad_reservations d) = Some r" "rs_provider r = p" "rs_reservation_id r = i" "r \<in> set (ad_reservations d)"
proof -
  have "tbl_find (\<lambda>r. rs_reservation_id r = i \<and> rs_provider r = p) (ad_reservations d) = Some r"
    using assms(1) by (auto simp: live_reservation_def split: option.splits if_splits)
  then have r: "r \<in> set (ad_reservations d)" "rs_reservation_id r = i" "rs_provider r = p" by (auto dest: tbl_find_SomeD)
  moreover have "tbl_find (by_id i) t = Some r" if "amounts_ok t" "r \<in> set t" for t
    using that r(2) by (induction t) (auto simp: tbl_find_def by_id_def amounts_ok_def image_iff)
  ultimately show "tbl_find (by_id i) (ad_reservations d) = Some r" "rs_provider r = p" "rs_reservation_id r = i" "r \<in> set (ad_reservations d)"
    using assms(2) by blast+
qed

lemma open_fresh: "\<forall>k \<in> set ks. qk_provider k = p \<Longrightarrow> tbl_count (open_for q) (List.map (fresh_task ws) ks) = (if q = p then length ks else 0)"
  by (induction ks) (auto simp: open_for_def claimable_states_def)

lemma enqueue_consumes:
  assumes inv: "admission_inv C N d" and live: "live_reservation i p now d = Some r"
    and keys: "list_all valid_key ks" "\<forall>k \<in> set ks. qk_provider k = p"
    and q: "q = fold insert_task ks (ad_queue d)" and n: "n = length (ed_tasks q) - length (ed_tasks (ad_queue d))" "int n \<le> rs_amount r"
    and d': "on_ad_queue (fold_result insert_origin os) (d\<lparr>ad_queue := q\<rparr>) = Inr d'"
  shows "admission_inv C N (consume i (rs_amount r - int n) d')"
    "\<forall>k \<in> set ks. has_task k (ad_queue d')" "origin_key ` set os \<subseteq> origin_key ` set (ed_origins (ad_queue d'))"
proof -
  note f = live_found [OF live inv_parts(1) [OF inv]]
  obtain ks' where ks': "q = (ad_queue d)\<lparr>ed_tasks := ed_tasks (ad_queue d) @ List.map (fresh_task (ed_tld_weights (ad_queue d))) ks'\<rparr>"
      "set ks' = {k \<in> set ks. \<not> has_task k (ad_queue d)}"
    using insert_tasks_tasks [of ks "ad_queue d"] q by auto
  have nl: "n = length ks'" using n(1) ks'(1) by simp
  have qi: "queue_inv q" unfolding q by (rule insert_tasks_inv [OF inv_parts(2) [OF inv] keys(1)])
  obtain q' where q': "fold_result insert_origin os q = Inr q'" "d' = d\<lparr>ad_queue := q'\<rparr>" using d' by (auto simp: on_ad_queue_def)
  note o1 = insert_origins_inv [OF qi q'(1)]
  have ht: "has_task k q" if "k \<in> set ks \<or> has_task k (ad_queue d)" for k using that ks' by (auto simp: has_task_def)
  show "\<forall>k \<in> set ks. has_task k (ad_queue d')" using ht o1(2) by (simp add: q'(2) has_task_def)
  show "origin_key ` set os \<subseteq> origin_key ` set (ed_origins (ad_queue d'))" using o1(3) by (simp add: q'(2))
  have backlog: "durable_backlog p' d' = durable_backlog p' d + (if p' = p then int n else 0)" for p'
    using open_fresh [of ks' p p'] keys(2) ks'(2) by (simp add: durable_backlog_def q'(2) o1(2) ks'(1) nl)
  define t where "t = ad_reservations (consume i (rs_amount r - int n) d')"
  have t: "t = (if rs_amount r - int n \<noteq> 0 then tbl_update (by_id i) (\<lambda>x. x\<lparr>rs_amount := rs_amount r - int n\<rparr>) (ad_reservations d)
      else tbl_delete (by_id i) (ad_reservations d))" by (simp add: t_def consume_def q'(2))
  have ok: "amounts_ok t"
    unfolding t using inv_parts(1) [OF inv] n(2) by (auto intro!: amounts_delete amounts_update)
  have h: "held p' t = held p' (ad_reservations d) - (if p' = p then int n else 0)" for p'
    unfolding t using held_by_id [OF inv_parts(1) [OF inv] f(1)] f(2) by auto
  have "settled nd (ad_queue d')" if "settled nd (ad_queue d)" for nd
  proof (rule settled_mono [OF that])
    show "has_task k (ad_queue d')" if "has_task k (ad_queue d)" for k using ht that o1(2) by (simp add: q'(2) has_task_def)
    show "origin_key ` set (ed_origins (ad_queue d)) \<subseteq> origin_key ` set (ed_origins (ad_queue d'))" using o1(4) ks'(1) by (auto simp: q'(2))
  qed
  moreover have "ad_spill d' = ad_spill d" by (simp add: q'(2))
  ultimately have "kept nd d'" if "kept nd d" for nd using that by (auto simp: kept_def)
  moreover have "load p' (d'\<lparr>ad_reservations := t\<rparr>) \<le> C p'" for p'
    using inv_parts(3) [OF inv, of p'] backlog [of p'] h [of p'] by (simp add: load_def durable_backlog_def)
  moreover have "consume i (rs_amount r - int n) d' = d'\<lparr>ad_reservations := t\<rparr>" by (simp add: t_def consume_def)
  ultimately show "admission_inv C N (consume i (rs_amount r - int n) d')"
    using inv o1(1) ok by (simp add: admission_inv_def lanes_ok_def kept_def q'(2))
qed

lemma holds_enqueue:
  assumes "list_all valid_key keys"
  shows "guarded (admission_inv C N) (\<lambda>_. True) (enqueue_reserved c keys s r l now)
    (\<lambda>_ d. \<forall>sv rv lv. s = Some sv \<and> r = Some rv \<and> l = Some lv \<longrightarrow> (\<forall>k \<in> set keys.
       settled \<lparr>nd_key = k, nd_source_key = sv, nd_reservoir_id = rv, nd_lease_id = lv\<rparr> (ad_queue d)))"
    (is "guarded ?I ?P _ ?Q")
proof -
  let ?rows = "dedup keys"
  have v: "list_all valid_key ?rows" using assms by (simp add: list_all_iff)
  have txn: "guarded ?I ?P (act_txn (\<lambda>d. case live_reservation i (cy_provider c) now d of
              None \<Rightarrow> Inl RuntimeError
            | Some x \<Rightarrow>
                let q = fold insert_task ?rows (ad_queue d); n = length (ed_tasks q) - length (ed_tasks (ad_queue d))
                in check (int n \<le> rs_amount x) RuntimeError (
                   bindr (on_ad_queue (fold_result insert_origin (lineage_origins ?rows s r l now)) (d\<lparr>ad_queue := q\<rparr>))
                     (\<lambda>d'. Inr (n, consume i (rs_amount x - int n) d'))))) ?Q"
    if p: "list_all (\<lambda>k. qk_provider k = cy_provider c) ?rows" for i
  proof (rule guarded_txn)
    fix d m d2 assume inv: "admission_inv C N d" and run: "(case live_reservation i (cy_provider c) now d of
              None \<Rightarrow> Inl RuntimeError
            | Some x \<Rightarrow>
                let q = fold insert_task ?rows (ad_queue d); n = length (ed_tasks q) - length (ed_tasks (ad_queue d))
                in check (int n \<le> rs_amount x) RuntimeError (
                   bindr (on_ad_queue (fold_result insert_origin (lineage_origins ?rows s r l now)) (d\<lparr>ad_queue := q\<rparr>))
                     (\<lambda>d'. Inr (n, consume i (rs_amount x - int n) d')))) = Inr (m, d2)"
    define q where "q = fold insert_task ?rows (ad_queue d)"
    obtain x d' where x: "live_reservation i (cy_provider c) now d = Some x"
        "int (length (ed_tasks q) - length (ed_tasks (ad_queue d))) \<le> rs_amount x"
        "on_ad_queue (fold_result insert_origin (lineage_origins ?rows s r l now)) (d\<lparr>ad_queue := q\<rparr>) = Inr d'"
        "d2 = consume i (rs_amount x - int (length (ed_tasks q) - length (ed_tasks (ad_queue d)))) d'"
      using run by (auto simp: Let_def q_def split: option.splits)
    have pr: "\<forall>k \<in> set ?rows. qk_provider k = cy_provider c" using p by (simp add: list_all_iff)
    note e = enqueue_consumes [OF inv x(1) v pr q_def refl x(2) x(3)]
    have "settled \<lparr>nd_key = k, nd_source_key = sv, nd_reservoir_id = rv, nd_lease_id = lv\<rparr> (ad_queue d')"
      if "s = Some sv" "r = Some rv" "l = Some lv" "k \<in> set keys" for sv rv lv k
    proof -
      have "(k, sv, rv, lv) \<in> origin_key ` set (lineage_origins ?rows s r l now)"
        using that by (force simp: lineage_origins_def origin_key_def)
      with e(2,3) that(4) show ?thesis by (auto simp: settled_def)
    qed
    then show "admission_inv C N d2 \<and> ?Q m d2" using e(1) by (auto simp: x(4) consume_def)
  qed
  show ?thesis
    unfolding enqueue_reserved_def Let_def
    using txn [unfolded Let_def] by (auto intro!: guarded_if guarded_raise guarded_return split: option.split)
qed

lemma rebuilt_valid: "rebuilt_key p k = Inr k' \<Longrightarrow> valid_key k'"
  by (auto simp: rebuilt_key_def intro: constructed_key)

lemma holds_stage: "holds C N (stage needs now)"
  unfolding stage_def Let_def
proof (intro guarded_if guarded_return guarded_raise guarded_txn)
  fix d n d' assume inv: "admission_inv C N d"
    and d': "Inr (length (fold (\<lambda>nd. tbl_insert_or_ignore fst (nd, now)) (dedup needs) (ad_spill d)) - length (ad_spill d),
         d\<lparr>ad_spill := fold (\<lambda>nd. tbl_insert_or_ignore fst (nd, now)) (dedup needs) (ad_spill d)\<rparr>) = Inr (n, d')"
  have grow: "set t \<subseteq> set (fold (\<lambda>nd. tbl_insert_or_ignore fst (nd, now)) nds t)" for nds and t :: "(evidence_need \<times> time) list"
  proof (induction nds arbitrary: t)
    case (Cons nd nds)
    show ?case using Cons.IH [of "tbl_insert_or_ignore fst (nd, now) t"] by (auto simp: tbl_insert_or_ignore_def split: if_splits)
  qed simp
  have d'': "d' = d\<lparr>ad_spill := fold (\<lambda>nd. tbl_insert_or_ignore fst (nd, now)) (dedup needs) (ad_spill d)\<rparr>" using d' by simp
  have sp: "fst ` set (ad_spill d) \<subseteq> fst ` set (ad_spill d')"
    unfolding d'' using image_mono [OF grow [of "ad_spill d" "dedup needs"], of fst] by simp
  have qu: "ad_queue d' = ad_queue d" by (simp add: d'')
  have "kept nd d'" if "kept nd d" for nd
    using that subsetD [OF sp, of nd] unfolding kept_def qu by (rule disj_forward) assumption+
  then show "admission_inv C N d' \<and> True" using inv d' by (auto simp: admission_inv_def lanes_ok_def load_def durable_backlog_def)
qed auto

lemma spill_after_delete:
  "set (fold (\<lambda>nd. tbl_delete (\<lambda>(nd', _). nd' = nd)) nds t) = {x \<in> set t. fst x \<notin> set nds}"
  by (induction nds arbitrary: t) (auto simp: tbl_delete_def)

lemma guarded_delete_staged:
  "guarded (admission_inv C N) (\<lambda>d. \<forall>nd \<in> set needs. settled nd (ad_queue d)) (delete_staged needs) (\<lambda>_ _. True)"
  unfolding delete_staged_def Let_def
proof (intro guarded_if guarded_return guarded_txn)
  fix d d' u assume inv: "admission_inv C N d" and s: "\<forall>nd \<in> set needs. settled nd (ad_queue d)"
    and d': "Inr ((), d\<lparr>ad_spill := fold (\<lambda>nd. tbl_delete (\<lambda>(nd', _). nd' = nd)) (dedup needs) (ad_spill d)\<rparr>) = Inr (u, d')"
  have "kept nd d'" if "kept nd d" for nd
    using that s d' spill_after_delete [of "dedup needs" "ad_spill d"] by (force simp: kept_def)
  then show "admission_inv C N d' \<and> True" using inv d' by (auto simp: admission_inv_def lanes_ok_def load_def durable_backlog_def)
qed auto

lemma holds_group:
  assumes v: "list_all (\<lambda>x. valid_key (nd_key x)) needs" and l: "\<forall>x \<in> set needs. lineage_of x = lineage_of nd"
  shows "holds C N (enqueue_group nd needs c now)"
proof -
  have keys: "list_all valid_key (List.map nd_key needs)" using v by (simp add: list_all_iff)
  let ?Q = "\<lambda>d. \<forall>sv rv lv. Some (nd_source_key nd) = Some sv \<and> Some (nd_reservoir_id nd) = Some rv \<and> Some (nd_lease_id nd) = Some lv \<longrightarrow>
     (\<forall>k \<in> set (List.map nd_key needs). settled \<lparr>nd_key = k, nd_source_key = sv, nd_reservoir_id = rv, nd_lease_id = lv\<rparr> (ad_queue d))"
  have eq: "\<lparr>nd_key = nd_key x, nd_source_key = nd_source_key nd, nd_reservoir_id = nd_reservoir_id nd, nd_lease_id = nd_lease_id nd\<rparr> = x"
    if "x \<in> set needs" for x
    using l that by (cases x) (auto simp: lineage_of_def)
  have all: "\<forall>x \<in> set needs. settled x (ad_queue d)" if "?Q d" for d
  proof
    fix x assume x: "x \<in> set needs"
    with that have "settled \<lparr>nd_key = nd_key x, nd_source_key = nd_source_key nd, nd_reservoir_id = nd_reservoir_id nd, nd_lease_id = nd_lease_id nd\<rparr> (ad_queue d)"
      by auto
    then show "settled x (ad_queue d)" by (simp only: eq [OF x])
  qed
  have "guarded (admission_inv C N) (\<lambda>_. True)
      (enqueue_reserved c (List.map nd_key needs) (Some (nd_source_key nd)) (Some (nd_reservoir_id nd)) (Some (nd_lease_id nd)) now)
      (\<lambda>_ d. \<forall>x \<in> set needs. settled x (ad_queue d))"
    by (rule guarded_weaken [OF holds_enqueue [OF keys]]) (rule TrueI, rule all)
  then show ?thesis
    unfolding enqueue_group_def
    by (intro guarded_then [OF holds_bind] guarded_then [where R = "\<lambda>_ d. \<forall>x \<in> set needs. settled x (ad_queue d)"]
        guarded_then [OF guarded_delete_staged] guarded_return) auto
qed

lemma holds_try_group:
  assumes cap: "\<And>p. lane_capacity ro p \<le> C p" and v: "list_all (\<lambda>x. valid_key (nd_key x)) needs"
  shows "holds C N (try_enqueue_group ro needs ttl clock uuid)"
proof (cases needs)
  case Nil
  then show ?thesis by (simp add: try_enqueue_group_def guarded_return)
next
  case (Cons nd rest)
  let ?p = "qk_provider (nd_key nd)"
  have reserve: "holds C N (try_reserve ?p (int (length needs)) (lane_capacity ro ?p) ttl (clock 0) uuid)"
    by (rule holds_reserve) (rule cap)
  have group: "holds C N (case c of None \<Rightarrow> act_return 0 | Some c \<Rightarrow> act_finally (enqueue_group nd needs c (clock 1)) (release (Some c)))"
    if l: "list_all (\<lambda>nd'. qk_provider (nd_key nd') = ?p \<and> lineage_of nd' = lineage_of nd) needs" for c
  proof (cases c)
    case (Some x)
    have "\<forall>y \<in> set needs. lineage_of y = lineage_of nd" using l by (auto simp: list_all_iff)
    from holds_group [OF v this] show ?thesis unfolding Some option.case by (rule guarded_finally [OF _ holds_release])
  qed (simp add: guarded_return)
  have body: "holds C N (if \<not> list_all (\<lambda>nd'. qk_provider (nd_key nd') = ?p \<and> lineage_of nd' = lineage_of nd) needs then act_raise ValueError
          else if lane_capacity ro ?p \<le> 0 then act_return 0
          else act_then (try_reserve ?p (int (length needs)) (lane_capacity ro ?p) ttl (clock 0) uuid) (\<lambda>c.
               case c of None \<Rightarrow> act_return 0
               | Some c \<Rightarrow> act_finally (enqueue_group nd needs c (clock 1)) (release (Some c))))"
    by (intro guarded_if guarded_raise guarded_return guarded_then [OF reserve] group) auto
  then show ?thesis unfolding try_enqueue_group_def Let_def Cons list.case .
qed

lemma guarded_rows:
  assumes "\<And>x. x \<in> set xs \<Longrightarrow> holds C N (f x)"
  shows "holds C N (act_sum f xs)"
  using assms by (rule guarded_sum)

lemma group_members: "g \<in> set (grouped f xs) \<Longrightarrow> set g \<subseteq> set xs \<and> g \<noteq> []"
  by (auto simp: grouped_def filter_empty_conv)

lemma rebuilt_needs:
  assumes "collect (List.map f xs) = Inr ys" "\<And>x y. x \<in> set xs \<Longrightarrow> f x = Inr y \<Longrightarrow> P y"
  shows "list_all P ys"
proof -
  have eq: "List.map f xs = List.map Inr ys" using assms(1) by (simp add: collect_Inr)
  have "P y" if "y \<in> set ys" for y
  proof -
    have "Inr y \<in> set (List.map f xs)" unfolding eq using that by simp
    then show ?thesis using assms(2) by (metis (no_types, lifting) imageE list.set_map)
  qed
  then show ?thesis by (simp add: list_all_iff)
qed

lemma routed_valid: "route_external ro keys preferred = Inr routed \<Longrightarrow> list_all valid_key routed"
  unfolding route_external_def Let_def check_Inr by (elim conjE, erule rebuilt_needs) (rule rebuilt_valid)

lemma holds_enqueue_or_stage:
  assumes cap: "\<And>p. lane_capacity ro p \<le> C p"
  shows "holds C N (enqueue_or_stage ro keys lineage ttl preferred clock uuid)"
proof -
  obtain sk ri li where l: "lineage = (sk, ri, li)" by (metis prod.exhaust)
  let ?make = "bindr (route_external ro keys preferred) (\<lambda>routed. collect (List.map (\<lambda>k. evidence_need_init \<lparr>nd_key = k,
     nd_source_key = sk, nd_reservoir_id = ri, nd_lease_id = li\<rparr>) routed))"
  have made: "list_all (\<lambda>x. valid_key (nd_key x)) needs" if make: "?make = Inr needs" for needs
  proof -
    obtain routed where r: "route_external ro keys preferred = Inr routed" "collect (List.map (\<lambda>k. evidence_need_init \<lparr>nd_key = k,
        nd_source_key = sk, nd_reservoir_id = ri, nd_lease_id = li\<rparr>) routed) = Inr needs" using make by auto
    have "\<forall>k \<in> set routed. valid_key k" using routed_valid [OF r(1)] by (simp add: list_all_iff)
    then show ?thesis by (intro rebuilt_needs [OF r(2)]) (auto simp: evidence_need_init_def)
  qed
  have init: "guarded (admission_inv C N) (\<lambda>_. True) (act_init ?make) (\<lambda>needs _. list_all (\<lambda>x. valid_key (nd_key x)) needs \<and> True)"
    by (rule guarded_init) (simp add: made)
  have groups: "holds C N (act_sum (\<lambda>(i, g). try_enqueue_group ro g ttl (clock (Suc i)) (uuid i)) (zip is (grouped f needs)))"
    if "list_all (\<lambda>x. valid_key (nd_key x)) needs" for needs f "is"
  proof (rule guarded_rows)
    fix x assume x: "x \<in> set (zip is (grouped f needs))"
    obtain i g where ig: "x = (i, g)" by fastforce
    with x have "list_all (\<lambda>x. valid_key (nd_key x)) g" using group_members [of g f needs] that by (auto simp: list_all_iff dest: set_zip_rightD)
    then show "holds C N (case x of (i, g) \<Rightarrow> try_enqueue_group ro g ttl (clock (Suc i)) (uuid i))"
      unfolding ig prod.case by (rule holds_try_group [OF cap])
  qed
  show ?thesis
    unfolding enqueue_or_stage_def l prod.case Let_def
    by (rule guarded_then [OF init], rule guarded_fact,
        intro guarded_then [OF holds_stage] guarded_then [OF groups] guarded_then [OF guarded_read] guarded_return TrueI)
qed

lemma holds_flush:
  assumes cap: "\<And>p. lane_capacity ro p \<le> C p"
  shows "holds C N (flush_pending ro ttl max_needs clock uuid)"
proof -
  have spilled: "list_all (\<lambda>x. valid_key (nd_key x)) needs" if c: "collect (List.map spilled_need xs) = Inr needs" for needs and xs :: "(evidence_need \<times> time) list"
    by (rule rebuilt_needs [OF c]) (auto simp: spilled_need_def evidence_need_init_def dest: rebuilt_valid)
  have group: "holds C N (flush_group ro ttl c u g)" if "list_all (\<lambda>x. valid_key (nd_key x)) g" for g c u
  proof -
    have "list_all (\<lambda>x. valid_key (nd_key x)) (fitting n g)" for n using that by (auto simp: fitting_def list_all_iff dest: in_set_takeD)
    then show ?thesis
      unfolding flush_group_def Let_def
      by (intro guarded_if guarded_return guarded_then [OF holds_available] holds_try_group [OF cap]) auto
  qed
  have flush: "holds C N (flush_needs ro ttl clock uuid needs)" if v: "list_all (\<lambda>x. valid_key (nd_key x)) needs" for needs
    unfolding flush_needs_def Let_def
  proof (rule guarded_rows)
    fix x assume x: "x \<in> set (zip [0..<length (grouped (\<lambda>nd. (qk_provider (nd_key nd), lineage_of nd)) needs)] (grouped (\<lambda>nd. (qk_provider (nd_key nd), lineage_of nd)) needs))"
    obtain i g where ig: "x = (i, g)" by fastforce
    with x v have "list_all (\<lambda>x. valid_key (nd_key x)) g"
      using group_members [of g "\<lambda>nd. (qk_provider (nd_key nd), lineage_of nd)" needs] by (auto simp: list_all_iff dest: set_zip_rightD)
    then show "holds C N (case x of (i, g) \<Rightarrow> flush_group ro ttl (clock i) (uuid i) g)" unfolding ig prod.case by (rule group)
  qed
  have rows: "guarded (admission_inv C N) (\<lambda>_. True) (act_init (collect (List.map spilled_need xs))) (\<lambda>needs _. list_all (\<lambda>x. valid_key (nd_key x)) needs \<and> True)"
    for xs :: "(evidence_need \<times> time) list"
    by (rule guarded_init) (simp add: spilled)
  have body: "holds C N (act_then (act_init (collect ms)) (\<lambda>needs. flush_needs ro ttl clock uuid needs))"
    if "\<exists>xs :: (evidence_need \<times> time) list. ms = List.map spilled_need xs" for ms
  proof -
    from that obtain xs :: "(evidence_need \<times> time) list" where xs: "ms = List.map spilled_need xs" by (elim exE)
    show ?thesis unfolding xs by (rule guarded_then [OF rows], rule guarded_fact, rule flush)
  qed
  have read: "guarded (admission_inv C N) (\<lambda>_. True) (act_read (\<lambda>d. List.map spilled_need (take (nat max_needs) (tbl_order_by spill_order (ad_spill d)))))
      (\<lambda>ms _. (\<exists>xs :: (evidence_need \<times> time) list. ms = List.map spilled_need xs) \<and> True)"
    by (rule guarded_read) blast
  show ?thesis
    unfolding flush_pending_def
    by (intro guarded_if guarded_raise guarded_return TrueI guarded_then [OF read] guarded_fact body)
qed

section \<open>Histories\<close>

text \<open>
  What changes the database of a producer: work on existing tasks by any worker, and every durable state
  of an operation of admission or routing.  The producer reserves with the capacities of the router.
\<close>

inductive admission_step :: "router \<Rightarrow> admission_db \<Rightarrow> admission_db \<Rightarrow> bool" for ro where
  work: "queue_step a now (ad_queue d) q \<Longrightarrow> a \<noteq> Override \<Longrightarrow> (\<And>k. has_task k q \<Longrightarrow> has_task k (ad_queue d)) \<Longrightarrow>
    admission_step ro d (d\<lparr>ad_queue := q\<rparr>)"
| available: "d' \<in> set (snd (available_capacity p c now d)) \<Longrightarrow> admission_step ro d d'"
| reserve: "d' \<in> set (snd (try_reserve p n (lane_capacity ro p) ttl now uuid d)) \<Longrightarrow> admission_step ro d d'"
| bind: "d' \<in> set (snd (bind_lease c lease d)) \<Longrightarrow> admission_step ro d d'"
| renew: "d' \<in> set (snd (renew_reservation c ttl now d)) \<Longrightarrow> admission_step ro d d'"
| enqueue: "list_all valid_key keys \<Longrightarrow> d' \<in> set (snd (enqueue_reserved c keys s r l now d)) \<Longrightarrow> admission_step ro d d'"
| release: "d' \<in> set (snd (release c d)) \<Longrightarrow> admission_step ro d d'"
| route: "d' \<in> set (snd (enqueue_or_stage ro keys lineage ttl preferred clock uuids d)) \<Longrightarrow> admission_step ro d d'"
| flush: "d' \<in> set (snd (flush_pending ro ttl m clock uuids d)) \<Longrightarrow> admission_step ro d d'"

definition admission_start :: "router \<Rightarrow> admission_db \<Rightarrow> bool" where
  "admission_start ro d \<longleftrightarrow> router_init ro = Inr ro \<and> (\<exists>rs ls. ad_queue d = empty_queue rs ls) \<and> ad_reservations d = [] \<and> ad_spill d = []"

lemma holds_worlds: "guarded I (\<lambda>_. True) a Q \<Longrightarrow> I d \<Longrightarrow> d' \<in> set (snd (a d)) \<Longrightarrow> I d'"
  by (simp add: guarded_def)

lemma admission_step_inv:
  assumes "admission_inv C N d" "admission_step ro d d'" and cap: "\<And>p. lane_capacity ro p \<le> C p"
  shows "admission_inv C N d'"
  using assms(2)
proof (cases rule: admission_step.cases)
  case (work a now q)
  have inv: "queue_inv (ad_queue d)" using assms(1) by (rule inv_parts)
  have q: "queue_inv q" "evolves a now (ad_queue d) q" using queue_step_inv [OF work(2) inv] by blast+
  have "durable_backlog p d' \<le> durable_backlog p d" for p
    using queue_opens_none [OF inv work(2,3,4), of p] by (simp add: durable_backlog_def work(1))
  then have "load p d' \<le> C p" for p
    using inv_parts(3) [OF assms(1), of p] by (simp add: load_def work(1)) (meson add_right_mono order_trans)
  moreover have o: "origin_key ` set (ed_origins (ad_queue d)) \<subseteq> origin_key ` set (ed_origins q)"
    by (rule image_mono [OF queue_origins_grow [OF inv work(2)]])
  have "kept nd d'" if "kept nd d" for nd
    using that settled_mono [OF _ evolves_has [OF q(2)] o, of nd] unfolding kept_def work(1) by simp blast
  ultimately show ?thesis using assms(1) q(1) by (auto simp: admission_inv_def lanes_ok_def work(1))
next
  case (available p c now)
  then show ?thesis using holds_worlds [OF holds_available assms(1)] by blast
next
  case (reserve p n ttl now uuid)
  then show ?thesis using holds_worlds [OF holds_reserve [OF cap] assms(1)] by blast
next
  case (bind c lease)
  then show ?thesis using holds_worlds [OF holds_bind assms(1)] by blast
next
  case (renew c ttl now)
  then show ?thesis using holds_worlds [OF holds_renew assms(1)] by blast
next
  case (enqueue keys c s r l now)
  then show ?thesis using holds_worlds [OF holds_enqueue assms(1)] by blast
next
  case (release c)
  then show ?thesis using holds_worlds [OF holds_release assms(1)] by blast
next
  case (route keys lineage ttl preferred clock uuids)
  then show ?thesis using holds_worlds [OF holds_enqueue_or_stage [OF cap] assms(1)] by blast
next
  case (flush ttl m clock uuids)
  then show ?thesis using holds_worlds [OF holds_flush [OF cap] assms(1)] by blast
qed

lemma lane_nonneg: "router_init ro = Inr ro \<Longrightarrow> 0 \<le> lane_capacity ro p"
  by (auto simp: router_init_def lane_capacity_def list_all_iff split: option.split dest!: map_of_SomeD)

lemma admission_start_inv: "admission_start ro d \<Longrightarrow> admission_inv (lane_capacity ro) {} d"
  using lane_nonneg by (auto simp: admission_start_def admission_inv_def lanes_ok_def load_def durable_backlog_def amounts_ok_def
      empty_inv, simp add: empty_queue_def)

interpretation admission: machine "admission_start ro" "admission_step ro" "admission_inv (lane_capacity ro) {}" for ro
  by unfold_locales (auto intro: admission_start_inv admission_step_inv)

text \<open>
  C31: a spilled need is never lost. Once a need is in the spill table it is found, in every later
  state and at every point a crash can leave behind, either still there or with its task in the evidence
  queue and the source, reservoir and lease of the need among the origins of the task.
\<close>

theorem spilled_need_kept:
  assumes "admission_start ro d0" "(admission_step ro)\<^sup>*\<^sup>* d0 d1" "nd \<in> fst ` set (ad_spill d1)" "(admission_step ro)\<^sup>*\<^sup>* d1 d2"
  shows "nd \<in> fst ` set (ad_spill d2) \<or> has_task (nd_key nd) (ad_queue d2) \<and>
    (\<exists>o1 \<in> set (ed_origins (ad_queue d2)). og_key o1 = nd_key nd \<and> og_source_key o1 = nd_source_key nd \<and>
       og_reservoir_id o1 = nd_reservoir_id nd \<and> og_lease_id o1 = nd_lease_id nd)"
proof -
  have "admission_inv (lane_capacity ro) {} d1" by (rule admission.inv_reachable [OF assms(1,2)])
  then have "admission_inv (lane_capacity ro) {nd} d1" using assms(3) by (simp add: admission_inv_def kept_def)
  with assms(4) have "admission_inv (lane_capacity ro) {nd} d2"
    by (induction rule: rtranclp_induct) (auto intro: admission_step_inv)
  then show ?thesis by (auto simp: admission_inv_def kept_def settled_def origin_key_def)
qed

section \<open>The head of the spill\<close>

lemma act_sum_zero: "(\<And>x. x \<in> set xs \<Longrightarrow> f x d = (Inr 0, [])) \<Longrightarrow> act_sum f xs d = (Inr 0, [])"
  by (induction xs) (simp_all add: act_return_def act_then_def)

lemma grouped_member: "g \<in> set (grouped f xs) \<Longrightarrow> g \<noteq> [] \<and> set g \<subseteq> set xs"
  by (auto simp: grouped_def filter_empty_conv)

lemma flush_needs_stuck:
  assumes "\<forall>nd \<in> set needs. lane_capacity ro (qk_provider (nd_key nd)) \<le> 0"
  shows "flush_needs ro ttl clock uuid needs d = (Inr 0, [])"
  unfolding flush_needs_def Let_def
proof (rule act_sum_zero)
  let ?gs = "grouped (\<lambda>nd. (qk_provider (nd_key nd), lineage_of nd)) needs"
  fix x assume x': "x \<in> set (zip [0..<length ?gs] ?gs)"
  obtain i g where x: "x = (i, g)" by (cases x)
  have g: "g \<in> set ?gs" using x' unfolding x by (rule set_zip_rightD)
  have "hd g \<in> set needs" using grouped_member [OF g] hd_in_set by blast
  then show "(case x of (i, g) \<Rightarrow> flush_group ro ttl (clock i) (uuid i) g) d = (Inr 0, [])"
    using assms by (simp add: x flush_group_def act_return_def)
qed

lemma collect_members: "collect (List.map f xs) = Inr ys \<Longrightarrow> y \<in> set ys \<Longrightarrow> \<exists>x \<in> set xs. f x = Inr y"
  by (induction xs arbitrary: ys) (auto split: sum.splits)

lemma spilled_provider: "spilled_need x = Inr nd \<Longrightarrow> qk_provider (nd_key nd) = qk_provider (nd_key (fst x))"
  by (auto simp: spilled_need_def rebuilt_key_def query_key_init_def evidence_need_init_def check_def bindr_def split: sum.splits option.splits if_splits)

text \<open>
  a flush only looks at the oldest rows. When the first rows of the spill all belong to lanes
  without capacity, a flush moves nothing and commits nothing, whatever the rows behind them could do.
\<close>

theorem flush_head_of_line:
  assumes "\<forall>x \<in> set (take (nat m) (tbl_order_by spill_order (ad_spill d))). lane_capacity ro (qk_provider (nd_key (fst x))) \<le> 0"
  shows "snd (flush_pending ro ttl m clock uuid d) = [] \<and> (\<forall>n. fst (flush_pending ro ttl m clock uuid d) = Inr n \<longrightarrow> n = 0)"
proof (cases "collect (List.map spilled_need (take (nat m) (tbl_order_by spill_order (ad_spill d))))")
  case (Inl e)
  then show ?thesis by (simp add: flush_pending_def act_raise_def act_return_def act_then_def act_read_def act_init_def)
next
  case (Inr needs)
  have "flush_needs ro ttl clock uuid needs d = (Inr 0, [])"
    by (rule flush_needs_stuck) (use assms collect_members [OF Inr] spilled_provider in fastforce)
  with Inr show ?thesis by (simp add: flush_pending_def act_raise_def act_return_def act_then_def act_read_def act_init_def)
qed

section \<open>Concrete runs\<close>

definition demo_router :: router where
  "demo_router = \<lparr>ro_backlog_capacities = [(''w'', 1)], ro_generic_archive_provider = ''w''\<rparr>"

definition demo_start :: admission_db where
  "demo_start = \<lparr>ad_queue = empty_queue [''r''] [''l''], ad_reservations = [], ad_spill = []\<rparr>"

definition demo_need :: "string \<Rightarrow> evidence_need" where
  "demo_need p = \<lparr>nd_key = demo_key\<lparr>qk_provider := p\<rparr>, nd_source_key = ''s'', nd_reservoir_id = ''r'', nd_lease_id = ''l''\<rparr>"

definition demo_routed :: "admission_db list" where
  "demo_routed = snd (enqueue_or_stage demo_router [demo_key] (''s'', ''r'', ''l'') 10 None (\<lambda>_ _. 0) (\<lambda>_. ''u'') demo_start)"

definition demo_flushed :: "admission_db list" where
  "demo_flushed = snd (flush_pending demo_router 10 4 (\<lambda>_ _. 1) (\<lambda>_. ''u'') (hd demo_routed))"

lemma demo_worlds: "length demo_routed = 6" "length demo_flushed = 6"
    "fst ` set (ad_spill (hd demo_routed)) = {demo_need ''w''}" "ad_spill (last demo_flushed) = []"
    "map et_key (ed_tasks (ad_queue (last demo_routed))) = [demo_key]"
  by code_simp+

lemma demo_admission: "admission_start demo_router demo_start" "admission_step demo_router demo_start (hd demo_routed)"
    "admission_step demo_router demo_start (last demo_routed)" "admission_step demo_router (hd demo_routed) (last demo_flushed)"
proof -
  have "router_init demo_router = Inr demo_router" by code_simp
  then show "admission_start demo_router demo_start" by (simp add: admission_start_def demo_start_def) blast
  have "hd demo_routed \<in> set demo_routed" "last demo_routed \<in> set demo_routed" "last demo_flushed \<in> set demo_flushed"
    using demo_worlds(1,2) by (metis hd_in_set last_in_set list.size(3) zero_neq_numeral)+
  then show "admission_step demo_router demo_start (hd demo_routed)" "admission_step demo_router demo_start (last demo_routed)"
      "admission_step demo_router (hd demo_routed) (last demo_flushed)"
    unfolding demo_routed_def demo_flushed_def by - (rule admission_step.route admission_step.flush, assumption)+
qed

theorem spilled_need_kept_witness:
  "demo_need ''w'' \<notin> fst ` set (ad_spill (last demo_flushed)) \<and> has_task (nd_key (demo_need ''w'')) (ad_queue (last demo_flushed))"
  using spilled_need_kept [OF demo_admission(1) r_into_rtranclp [of "admission_step demo_router", OF demo_admission(2)] _ r_into_rtranclp [of "admission_step demo_router", OF demo_admission(4)], of "demo_need ''w''"]
  by (simp add: demo_worlds)

theorem flush_head_of_line_witness:
  "snd (flush_pending demo_router 10 1 (\<lambda>_ _. 1) (\<lambda>_. ''u'') (demo_start\<lparr>ad_spill := [(demo_need ''x'', 0), (demo_need ''w'', 1)]\<rparr>)) = [] \<and>
   lane_capacity demo_router ''w'' = 1"
proof
  have "\<forall>x \<in> set (take (nat 1) (tbl_order_by spill_order (ad_spill (demo_start\<lparr>ad_spill := [(demo_need ''x'', 0), (demo_need ''w'', 1)]\<rparr>)))).
      lane_capacity demo_router (qk_provider (nd_key (fst x))) \<le> 0"
    by code_simp
  from flush_head_of_line [OF this]
  show "snd (flush_pending demo_router 10 1 (\<lambda>_ _. 1) (\<lambda>_. ''u'') (demo_start\<lparr>ad_spill := [(demo_need ''x'', 0), (demo_need ''w'', 1)]\<rparr>)) = []"
    by blast
qed code_simp

end
