(* ===== verification/Fanout_Properties.thy ===== *)
theory Fanout_Properties
  imports Fanout Router_Properties
begin

text \<open>
  Properties of the fan-out sketches, of the RDAP backfill and of the summaries: a sketch counts the
  children of a parent whatever the batches, a repeated backfill adds nothing, and every request is
  attributed to one source.
\<close>

section \<open>Bits\<close>

lemma bits_unfold: "{i. bit n i} = (if odd n then {0} else {}) \<union> Suc ` {i. bit (n div 2) i}" for n :: nat
proof -
  have "bit n i \<longleftrightarrow> (i = 0 \<and> odd n) \<or> (\<exists>j. i = Suc j \<and> bit (n div 2) j)" for i
    by (cases i) (auto simp: bit_0 bit_Suc)
  then show ?thesis by auto
qed

lemma finite_bits: "finite {i. bit n i}" for n :: nat
proof (induction n rule: bit_count.induct)
  case (1 n)
  then show ?case by (cases "n = 0") (auto simp: bits_unfold [of n])
qed

lemma bit_count_card: "bit_count n = card {i. bit n i}"
proof (induction n rule: bit_count.induct)
  case (1 n)
  show ?case
  proof (cases "n = 0")
    case False
    have "card {i. bit n i} = (if odd n then 1 else 0) + card (Suc ` {i. bit (n div 2) i})"
      unfolding bits_unfold [of n] using finite_bits [of "n div 2"] by (subst card_Un_disjoint) auto
    also have "\<dots> = n mod 2 + card {i. bit (n div 2) i}" by (simp add: card_image odd_iff_mod_2_eq_one)
    finally show ?thesis using 1 False by (simp add: bit_count.simps [of n])
  qed (simp add: bit_count.simps)
qed

lemma bits_or: "{i. bit (m OR n) i} = {i. bit m i} \<union> {i. bit n i}" for m n :: nat
  by (auto simp: bit_or_iff)

lemma bits_slot: "{i. bit (push_bit s 1 :: nat) i} = {s}"
  by (auto simp: bit_exp_iff)

section \<open>The sketch counts the children\<close>

definition children :: "string \<Rightarrow> string set \<Rightarrow> string set" where
  "children p H = {h \<in> H. observed_parent h = Some p}"

definition slots :: "(string \<Rightarrow> nat) \<Rightarrow> string \<Rightarrow> string set \<Rightarrow> nat set" where
  "slots digest p H = sketch_slot digest ` children p H"

lemma children_Un [simp]: "children p (H \<union> K) = children p H \<union> children p K"
  by (auto simp: children_def)

lemma children_empty [simp]: "children p {} = {}"
  by (simp add: children_def)

lemma slots_Un: "slots digest p (H \<union> K) = slots digest p H \<union> slots digest p K"
  by (auto simp: slots_def)

definition batch_ok :: "(string \<Rightarrow> nat) \<Rightarrow> string set \<Rightarrow> (string \<times> nat) list \<Rightarrow> bool" where
  "batch_ok digest H b \<longleftrightarrow> distinct (List.map fst b) \<and> (\<forall>p. children p H \<noteq> {} \<longleftrightarrow> p \<in> fst ` set b) \<and>
     (\<forall>p n. map_of b p = Some n \<longrightarrow> {i. bit n i} = slots digest p H)"

lemma batch_ok_add:
  assumes "batch_ok digest H b"
  shows "batch_ok digest (insert h H) (add_bit digest h b)"
proof (cases "observed_parent h")
  case None
  then have "children p (insert h H) = children p H" for p by (auto simp: children_def)
  then show ?thesis using assms None by (simp add: add_bit_def batch_ok_def slots_def)
next
  case (Some p)
  define n where "n = (case map_of b p of None \<Rightarrow> 0 | Some m \<Rightarrow> m)"
  have c: "children q (insert h H) = (if q = p then insert h (children q H) else children q H)" for q
    using Some by (auto simp: children_def)
  have n: "{i. bit n i} = slots digest p H"
  proof (cases "map_of b p")
    case None
    then have "p \<notin> fst ` set b" by (simp add: map_of_eq_None_iff)
    then have "children p H = {}" using assms unfolding batch_ok_def by blast
    with None show ?thesis by (simp add: n_def slots_def)
  next
    case (Some m)
    with assms show ?thesis by (simp add: n_def batch_ok_def)
  qed
  have "{i. bit (n OR push_bit (sketch_slot digest h) 1) i} = slots digest p (insert h H)"
    unfolding bits_or bits_slot n slots_def c by auto
  moreover have "slots digest q (insert h H) = slots digest q H" if "q \<noteq> p" for q using that by (simp add: slots_def c)
  moreover have "add_bit digest h b = AList.update p (n OR push_bit (sketch_slot digest h) 1) b" by (simp add: add_bit_def Some n_def)
  ultimately show ?thesis using assms
    by (auto simp: batch_ok_def c distinct_update dom_update update_conv' split: if_splits)
qed

lemma batch_ok_fold: "batch_ok digest H b \<Longrightarrow> batch_ok digest (H \<union> set hs) (fold (add_bit digest) hs b)"
proof (induction hs arbitrary: H b)
  case (Cons h hs)
  show ?case using Cons.IH [OF batch_ok_add [OF Cons.prems, of h]] by simp
qed simp


interpretation fanout: keyed_table fo_parent_hostname "\<lambda>f. \<forall>r. fo_parent_hostname (f r) = fo_parent_hostname r"
  by unfold_locales simp

text \<open>The table of the parents whose children are \<open>C\<close>.\<close>

definition counts :: "(string \<Rightarrow> nat) \<Rightarrow> (string \<Rightarrow> string set) \<Rightarrow> fanout_row list \<Rightarrow> bool" where
  "counts digest C t \<longleftrightarrow> uniq fo_parent_hostname t \<and> (\<forall>p. C p \<noteq> {} \<longleftrightarrow> p \<in> fo_parent_hostname ` set t) \<and>
     (\<forall>r \<in> set t. {i. bit (fo_child_sketch r) i} = sketch_slot digest ` C (fo_parent_hostname r) \<and>
        fo_child_count r = bit_count (fo_child_sketch r) \<and> \<not> fo_observed_self r)"

lemma bit_count_or: "bit_count m \<le> bit_count (m OR n)"
  unfolding bit_count_card bits_or by (rule card_mono) (simp_all add: finite_bits)

lemma counts_merge:
  assumes c: "counts digest C t" and D: "D \<noteq> {}" and n: "{i. bit n i} = sketch_slot digest ` D"
  shows "counts digest (C(p := C p \<union> D)) (merge_bits source now (p, n) t)"
proof -
  define f where "f = (\<lambda>r :: fanout_row. let combined = fo_child_sketch r OR n in
        r\<lparr>fo_child_count := max (fo_child_count r) (bit_count combined), fo_child_sketch := combined,
          fo_first_source_key := (case fo_first_source_key r of None \<Rightarrow> source | Some s \<Rightarrow> Some s), fo_updated_at := now\<rparr>)"
  define new where "new = \<lparr>fo_parent_hostname = p, fo_observed_self = False, fo_child_count = bit_count n, fo_child_sketch = n,
      fo_query_enqueued = False, fo_rdap_enqueued = False, fo_first_source_key = source, fo_updated_at = now\<rparr>"
  have t: "merge_bits source now (p, n) t = tbl_upsert fo_parent_hostname f new t"
    by (simp add: merge_bits_def f_def new_def)
  have f: "fo_parent_hostname (f r) = fo_parent_hostname r" "fo_child_sketch (f r) = fo_child_sketch r OR n"
      "fo_child_count r = bit_count (fo_child_sketch r) \<Longrightarrow> fo_child_count (f r) = bit_count (fo_child_sketch r OR n)"
      "fo_observed_self (f r) = fo_observed_self r" for r
    by (simp_all add: f_def Let_def max_absorb2 bit_count_or)
  have u: "uniq fo_parent_hostname (tbl_upsert fo_parent_hostname f new t)"
    by (rule fanout.uniq_upsert) (use c f(1) in \<open>simp_all add: counts_def\<close>)
  show ?thesis
  proof (cases "p \<in> fo_parent_hostname ` set t")
    case True
    then have e: "tbl_upsert fo_parent_hostname f new t = tbl_update (\<lambda>x. fo_parent_hostname x = p) f t" by (simp add: tbl_upsert_def new_def)
    have k: "fo_parent_hostname ` set (tbl_update (\<lambda>x. fo_parent_hostname x = p) f t) = fo_parent_hostname ` set t"
      using fanout.keys_update [of f "\<lambda>x. fo_parent_hostname x = p" t] f(1) by (metis list.set_map)
    have "{i. bit (fo_child_sketch r) i} = sketch_slot digest ` (C(p := C p \<union> D)) (fo_parent_hostname r) \<and>
        fo_child_count r = bit_count (fo_child_sketch r) \<and> \<not> fo_observed_self r"
      if "r \<in> set (tbl_update (\<lambda>x. fo_parent_hostname x = p) f t)" for r
      using that
    proof (rule tbl_update_rows)
      fix r0 assume r0: "r0 \<in> set t" "fo_parent_hostname r0 = p" "r = f r0"
      with c have "{i. bit (fo_child_sketch r0) i} = sketch_slot digest ` C p" "fo_child_count r0 = bit_count (fo_child_sketch r0)"
          "\<not> fo_observed_self r0"
        by (auto simp: counts_def)
      with r0 show ?thesis by (simp add: f bits_or n image_Un)
    qed (use c in \<open>simp add: counts_def\<close>)
    moreover have "(C(p := C p \<union> D)) q \<noteq> {} \<longleftrightarrow> q \<in> fo_parent_hostname ` set t" for q
      using c True D by (simp add: counts_def)
    ultimately show ?thesis using u unfolding t e counts_def k by blast
  next
    case False
    then have e: "tbl_upsert fo_parent_hostname f new t = t @ [new]" by (simp add: tbl_upsert_def new_def)
    have "C p = {}" using c False by (auto simp: counts_def)
    moreover have "fo_parent_hostname r \<noteq> p" if "r \<in> set t" for r using False that by auto
    ultimately show ?thesis using c u unfolding t e counts_def
      using D n by (simp add: new_def)
  qed
qed

lemma counts_merge_all:
  assumes "counts digest C t" "distinct (List.map fst b)" "\<And>p n. (p, n) \<in> set b \<Longrightarrow> D p \<noteq> {} \<and> {i. bit n i} = sketch_slot digest ` D p"
  shows "counts digest (\<lambda>p. if p \<in> fst ` set b then C p \<union> D p else C p) (fold (merge_bits source now) b t)"
  using assms
proof (induction b arbitrary: C t)
  case (Cons x b)
  obtain p n where x: "x = (p, n)" by (cases x)
  have "counts digest (C(p := C p \<union> D p)) (merge_bits source now (p, n) t)"
    using counts_merge [OF Cons.prems(1)] Cons.prems(3) [of p n] x by simp
  then have "counts digest (\<lambda>q. if q \<in> fst ` set b then (C(p := C p \<union> D p)) q \<union> D q else (C(p := C p \<union> D p)) q)
      (fold (merge_bits source now) b (merge_bits source now (p, n) t))"
    by (rule Cons.IH) (use Cons.prems(2,3) in auto)
  moreover have "(\<lambda>q. if q \<in> fst ` set b then (C(p := C p \<union> D p)) q \<union> D q else (C(p := C p \<union> D p)) q) =
      (\<lambda>q. if q \<in> fst ` set (x # b) then C q \<union> D q else C q)"
    using Cons.prems(2) by (auto simp: x fun_eq_iff)
  ultimately show ?case by (simp add: x)
qed simp

lemma counts_observe:
  assumes "counts digest (\<lambda>p. children p H) t"
  shows "counts digest (\<lambda>p. children p (H \<union> set (normal_hosts hs))) (snd (record_domain_fanout_observations digest hs source now t))"
proof -
  let ?b = "fold (add_bit digest) (normal_hosts hs) []" and ?K = "set (normal_hosts hs)"
  have "batch_ok digest {} []" by (simp add: batch_ok_def)
  from batch_ok_fold [OF this, of "normal_hosts hs"] have b: "batch_ok digest ?K ?b" by simp
  then have d: "distinct (List.map fst ?b)" and k: "children p ?K \<noteq> {} \<longleftrightarrow> p \<in> fst ` set ?b" for p by (simp_all add: batch_ok_def)
  have "children p ?K \<noteq> {} \<and> {i. bit n i} = sketch_slot digest ` children p ?K" if "(p, n) \<in> set ?b" for p n
    using k [of p] imageI [OF that, of fst] b d that by (simp add: batch_ok_def slots_def)
  then have "counts digest (\<lambda>p. if p \<in> fst ` set ?b then children p H \<union> children p ?K else children p H) (fold (merge_bits source now) ?b t)"
    by (rule counts_merge_all [OF assms d])
  moreover have "(\<lambda>p. if p \<in> fst ` set ?b then children p H \<union> children p ?K else children p H) = (\<lambda>p. children p (H \<union> ?K))"
  proof
    fix p show "(if p \<in> fst ` set ?b then children p H \<union> children p ?K else children p H) = children p (H \<union> ?K)"
      by (cases "children p ?K = {}") (use k [of p] in auto)
  qed
  ultimately show ?thesis by (simp add: record_domain_fanout_observations_def Let_def)
qed

lemma counts_mark:
  assumes f: "\<And>r. fo_parent_hostname (f r) = fo_parent_hostname r \<and> fo_child_sketch (f r) = fo_child_sketch r \<and>
      fo_child_count (f r) = fo_child_count r \<and> fo_observed_self (f r) = fo_observed_self r"
  shows "counts digest C t \<Longrightarrow> counts digest C (snd (mark_each P f ps t))"
proof -
  have one: "counts digest C (tbl_update Q f t)" if "counts digest C t" for Q t
  proof -
    have "fo_parent_hostname ` set (tbl_update Q f t) = fo_parent_hostname ` set t"
      using fanout.keys_update [of f Q t] f by (metis list.set_map)
    moreover have "uniq fo_parent_hostname (tbl_update Q f t)"
      by (rule fanout.uniq_update) (use that f in \<open>simp_all add: counts_def\<close>)
    moreover have "{i. bit (fo_child_sketch r) i} = sketch_slot digest ` C (fo_parent_hostname r) \<and>
        fo_child_count r = bit_count (fo_child_sketch r) \<and> \<not> fo_observed_self r" if r: "r \<in> set (tbl_update Q f t)" for r
      using r by (rule tbl_update_rows) (use that(1) f \<open>counts digest C t\<close> in \<open>simp_all add: counts_def\<close>)
    ultimately show ?thesis using that unfolding counts_def by simp
  qed
  have "counts digest C (snd (fold (\<lambda>p (n, t). (n + tbl_count (P p) t, tbl_update (P p) f t)) ps (m, t)))" if "counts digest C t" for m t
    using that by (induction ps arbitrary: m t) (simp_all add: one)
  then show "counts digest C t \<Longrightarrow> counts digest C (snd (mark_each P f ps t))" by (simp add: mark_each_def)
qed

text \<open>Runs of the operations, with the hostnames that were reported.\<close>

inductive fanout_run :: "(string \<Rightarrow> nat) \<Rightarrow> string set \<Rightarrow> fanout_row list \<Rightarrow> bool" for digest where
  start: "fanout_run digest {} []"
| observe: "fanout_run digest H t \<Longrightarrow>
    fanout_run digest (H \<union> set (normal_hosts hs)) (snd (record_domain_fanout_observations digest hs source now t))"
| query: "fanout_run digest H t \<Longrightarrow> fanout_run digest H (snd (mark_domain_fanout_enqueued ps now t))"
| rdap: "fanout_run digest H t \<Longrightarrow> fanout_run digest H (snd (mark_rdap_enqueued ps now t))"

lemma fanout_run_finite: "fanout_run digest H t \<Longrightarrow> finite H"
  by (induction rule: fanout_run.induct) simp_all

lemma fanout_run_counts: "fanout_run digest H t \<Longrightarrow> counts digest (\<lambda>p. children p H) t"
proof (induction rule: fanout_run.induct)
  case start
  show ?case by (simp add: counts_def)
next
  case (query H t ps now)
  then show ?case unfolding mark_domain_fanout_enqueued_def by (intro counts_mark) simp_all
next
  case (rdap H t ps now)
  then show ?case unfolding mark_rdap_enqueued_def by (intro counts_mark) simp_all
qed (rule counts_observe)

text \<open>
  C32: the stored fan-out of a parent is the number of sketch slots its reported children fall into,
  however the reports were split into batches, repeated or mixed with the marking of parents. So it
  never exceeds the number of distinct children, nor 63, the sketch fits a signed 64-bit column, and a
  parent has a row exactly when a child of it was reported.
\<close>

theorem fanout_counts_children:
  assumes "fanout_run digest H t"
  shows "(\<forall>p. (\<exists>r \<in> set t. fo_parent_hostname r = p) \<longleftrightarrow> (\<exists>h \<in> H. observed_parent h = Some p)) \<and>
    (\<forall>r \<in> set t. let below = {h \<in> H. observed_parent h = Some (fo_parent_hostname r)} in
       fo_child_count r = card (sketch_slot digest ` below) \<and> fo_child_count r \<le> card below \<and>
       fo_child_count r \<le> 63 \<and> fo_child_sketch r < 2 ^ 63)"
proof (intro conjI ballI allI)
  have c: "counts digest (\<lambda>p. children p H) t" by (rule fanout_run_counts [OF assms])
  show "(\<exists>r \<in> set t. fo_parent_hostname r = p) \<longleftrightarrow> (\<exists>h \<in> H. observed_parent h = Some p)" for p
  proof -
    have "children p H \<noteq> {} \<longleftrightarrow> p \<in> fo_parent_hostname ` set t" using c by (simp add: counts_def)
    then show ?thesis by (auto simp: children_def)
  qed
  fix r assume r: "r \<in> set t"
  let ?below = "{h \<in> H. observed_parent h = Some (fo_parent_hostname r)}"
  have b: "{i. bit (fo_child_sketch r) i} = sketch_slot digest ` ?below" "fo_child_count r = bit_count (fo_child_sketch r)"
    using c r by (auto simp: counts_def children_def)
  have n: "fo_child_count r = card (sketch_slot digest ` ?below)" using b by (simp add: bit_count_card)
  have sub: "{i. bit (fo_child_sketch r) i} \<subseteq> {..<63}" unfolding b(1) by (auto simp: sketch_slot_def)
  have "fo_child_count r \<le> 63" using card_mono [OF _ sub] by (simp add: b(2) bit_count_card)
  moreover have "take_bit 63 (fo_child_sketch r) = fo_child_sketch r"
    using sub by (intro bit_eqI) (auto simp: bit_take_bit_iff)
  then have "fo_child_sketch r < 2 ^ 63" by (metis take_bit_nat_less_exp)
  moreover have "fo_child_count r \<le> card ?below" unfolding n using fanout_run_finite [OF assms] by (intro card_image_le) simp
  ultimately show "let below = ?below in fo_child_count r = card (sketch_slot digest ` below) \<and> fo_child_count r \<le> card below \<and>
       fo_child_count r \<le> 63 \<and> fo_child_sketch r < 2 ^ 63"
    using n by (simp add: Let_def)
qed

definition demo_hosts :: "string list" where
  "demo_hosts = [''x.a.net'', ''y.a.net'']"

definition demo_fanout :: "fanout_row list" where
  "demo_fanout = snd (record_domain_fanout_observations length demo_hosts None 1 [])"

text \<open>Two children that share a slot count once.\<close>

theorem fanout_counts_children_witness:
  "\<exists>r \<in> set demo_fanout. fo_parent_hostname r = ''a.net'' \<and> fo_child_count r = 1 \<and> fo_child_sketch r < 2 ^ 63"
proof -
  have run: "fanout_run length ({} \<union> set (normal_hosts demo_hosts)) demo_fanout"
    unfolding demo_fanout_def by (intro fanout_run.intros)
  have "{h \<in> set (normal_hosts demo_hosts). observed_parent h = Some ''a.net''} =
      set (filter (\<lambda>h. observed_parent h = Some ''a.net'') (normal_hosts demo_hosts))" by simp
  also have "filter (\<lambda>h. observed_parent h = Some ''a.net'') (normal_hosts demo_hosts) = [''x.a.net'', ''y.a.net'']"
    by code_simp
  finally have below: "{h \<in> set (normal_hosts demo_hosts). observed_parent h = Some ''a.net''} = {''x.a.net'', ''y.a.net''}" by simp
  then have "\<exists>h \<in> {} \<union> set (normal_hosts demo_hosts). observed_parent h = Some ''a.net''" by blast
  then have "\<exists>r \<in> set demo_fanout. fo_parent_hostname r = ''a.net''"
    by (rule iffD2 [OF spec [OF conjunct1 [OF fanout_counts_children [OF run]], of "''a.net''"]])
  then obtain r where r: "r \<in> set demo_fanout" "fo_parent_hostname r = ''a.net''" by (elim bexE)
  have "fo_child_count r = card (sketch_slot length ` {''x.a.net'', ''y.a.net''})" "fo_child_sketch r < 2 ^ 63"
    using bspec [OF conjunct2 [OF fanout_counts_children [OF run]] r(1)] below unfolding r(2) Let_def Un_empty_left by simp_all
  with r show ?thesis by (auto simp: sketch_slot_def)
qed

text \<open>Nothing is ever ready for RDAP: no operation sets \<open>observed_self\<close>.\<close>

theorem rdap_never_ready:
  assumes "fanout_run digest H t"
  shows "ready_rdap_candidates m n t = (if 1 \<le> m \<and> 1 \<le> n then Inr [] else Inl ValueError)"
proof -
  have "\<forall>r \<in> set t. \<not> fo_observed_self r" using fanout_run_counts [OF assms] by (simp add: counts_def)
  then have "filter (\<lambda>r. fo_observed_self r \<and> \<not> fo_rdap_enqueued r \<and> (m \<le> int (fo_child_count r) \<or>
         length (filter (\<lambda>c. c = CHR ''.'') (fo_parent_hostname r)) = 1)) t = []"
    by (simp add: filter_empty_conv)
  then show ?thesis by (simp add: ready_rdap_candidates_def check_def tbl_order_by_def)
qed


section \<open>The backfill\<close>

lemma rdap_key_provider: "rdap_key policy h = Inr k \<Longrightarrow> qk_provider k = ''rdap''"
  by (auto simp: rdap_key_def query_key_init_def split: option.splits)

lemma insert_origin_appends: "insert_origin d o1 = Inr d' \<Longrightarrow>
    ed_tasks d' = ed_tasks d \<and> (\<exists>os. ed_origins d' = ed_origins d @ os \<and> set os \<subseteq> {o1})"
  by (auto simp: insert_origin_def split: if_splits)

lemma insert_task_appends: "\<not> has_task k d \<Longrightarrow>
    \<exists>r. ed_tasks (insert_task k d) = ed_tasks d @ [r] \<and> et_key r = k \<and> ed_origins (insert_task k d) = ed_origins d"
  by (simp add: insert_task_def tbl_insert_or_ignore_def has_task_def)

definition only_rdap_added :: "evidence_db \<Rightarrow> evidence_db \<Rightarrow> bool" where
  "only_rdap_added d d' \<longleftrightarrow> (\<exists>ts os. ed_tasks d' = ed_tasks d @ ts \<and> ed_origins d' = ed_origins d @ os \<and>
     (\<forall>r \<in> set ts. qk_provider (et_key r) = ''rdap'') \<and> (\<forall>o1 \<in> set os. qk_provider (og_key o1) = ''rdap''))"

lemma only_rdap_added_refl [simp]: "only_rdap_added d d"
  by (simp add: only_rdap_added_def)

lemma only_rdap_added_trans: "only_rdap_added d d1 \<Longrightarrow> only_rdap_added d1 d2 \<Longrightarrow> only_rdap_added d d2"
  unfolding only_rdap_added_def by (elim exE conjE) (auto simp: ball_Un)

lemma only_rdap_added_has: "only_rdap_added d d' \<Longrightarrow> has_task k d \<Longrightarrow> has_task k d'"
  by (auto simp: only_rdap_added_def has_task_def)

lemma seed_rdap_step:
  assumes "seed_rdap policy (n, d) (h, origin) = Inr (n', d')"
  shows "only_rdap_added d d' \<and> n' \<le> n + 1 \<and> (\<exists>k. rdap_key policy h = Inr k \<and> has_task k d')"
proof -
  obtain k where k: "rdap_key policy h = Inr k" using assms by (auto simp: seed_rdap_def)
  show ?thesis
  proof (cases "has_task k d")
    case True
    then show ?thesis using assms k by (simp add: seed_rdap_def)
  next
    case False
    obtain r where r: "ed_tasks (insert_task k d) = ed_tasks d @ [r]" "et_key r = k" "ed_origins (insert_task k d) = ed_origins d"
      using insert_task_appends [OF False] by blast
    have p: "qk_provider k = ''rdap''" by (rule rdap_key_provider [OF k])
    consider "origin = None" "d' = insert_task k d" "n' = n + 1"
      | o1 where "origin = Some o1" "insert_origin (insert_task k d) (o1\<lparr>og_key := k\<rparr>) = Inr d'" "n' = n + 1"
      using assms k False by (auto simp: seed_rdap_def split: option.splits)
    then show ?thesis
    proof cases
      case 1
      then show ?thesis using r p k by (simp add: only_rdap_added_def has_task_def)
    next
      case 2
      with insert_origin_appends [OF 2(2)] r obtain os where "ed_tasks d' = ed_tasks d @ [r]" "ed_origins d' = ed_origins d @ os"
          "set os \<subseteq> {o1\<lparr>og_key := k\<rparr>}" by auto
      then show ?thesis using r(2) p k 2(3) by (auto simp: only_rdap_added_def has_task_def)
    qed
  qed
qed

lemma seed_rdap_all:
  assumes "fold_result (seed_rdap policy) cs (n, d) = Inr (n', d')"
  shows "only_rdap_added d d' \<and> n' \<le> n + length cs \<and> (\<forall>c \<in> set cs. \<exists>k. rdap_key policy (fst c) = Inr k \<and> has_task k d')"
  using assms
proof (induction cs arbitrary: n d)
  case (Cons c cs)
  obtain h origin where c: "c = (h, origin)" by (cases c)
  obtain n1 d1 where s: "seed_rdap policy (n, d) (h, origin) = Inr (n1, d1)" and f: "fold_result (seed_rdap policy) cs (n1, d1) = Inr (n', d')"
    using Cons.prems by (auto simp: c)
  have i: "only_rdap_added d1 d'" "n' \<le> n1 + length cs" "\<forall>c \<in> set cs. \<exists>k. rdap_key policy (fst c) = Inr k \<and> has_task k d'"
    using Cons.IH [OF f] by blast+
  obtain k where k: "only_rdap_added d d1" "n1 \<le> n + 1" "rdap_key policy h = Inr k" "has_task k d1"
    using seed_rdap_step [OF s] by blast
  have "has_task k d'" by (rule only_rdap_added_has [OF i(1) k(4)])
  then show ?case using only_rdap_added_trans [OF k(1) i(1)] i(2,3) k(2,3) by (simp add: c)
qed simp

lemma seed_rdap_present:
  "\<forall>c \<in> set cs. \<exists>k. rdap_key policy (fst c) = Inr k \<and> has_task k d \<Longrightarrow> fold_result (seed_rdap policy) cs (n, d) = Inr (n, d)"
  by (induction cs) (auto simp: seed_rdap_def)

lemma seed_rdap_inv:
  assumes inv: "queue_inv d" and s: "seed_rdap policy (n, d) c = Inr (n', d')"
  shows "queue_inv d'"
proof -
  obtain h origin where c: "c = (h, origin)" by (cases c)
  obtain k where k: "rdap_key policy h = Inr k" using s by (auto simp: seed_rdap_def c)
  then have "list_all valid_key [k]" by (auto simp: rdap_key_def intro: constructed_key)
  from insert_tasks_inv [OF inv this] have i: "queue_inv (insert_task k d)" by simp
  show ?thesis
  proof (cases "has_task k d \<or> origin = None")
    case True
    then show ?thesis using inv i s k by (auto simp: seed_rdap_def c split: if_splits)
  next
    case False
    then obtain o1 where "fold_result insert_origin [o1\<lparr>og_key := k\<rparr>] (insert_task k d) = Inr d'"
      using s k by (auto simp: seed_rdap_def c)
    with i show ?thesis by (rule insert_origins_inv(1))
  qed
qed

text \<open>The backfill keeps the invariant of the queue.\<close>

lemma backfill_inv:
  assumes "queue_inv d" "backfill_rdap_tasks_from_wayback n policy d = Inr (m, d')"
  shows "queue_inv d'"
proof -
  have "fold_result (seed_rdap policy) (rdap_candidates (nat n) (wayback_rows (max (n * 8) n) d) []) (0, d) = Inr (m, d')"
    using assms(2) unfolding backfill_rdap_tasks_from_wayback_def check_Inr by blast
  then have "queue_inv (snd (m, d'))"
    by (rule fold_result_inv) (use assms(1) seed_rdap_inv in auto)
  then show ?thesis by simp
qed

lemma candidates_bounded: "length acc < n \<Longrightarrow> length (rdap_candidates n rows acc) \<le> n"
  by (induction n rows acc rule: rdap_candidates.induct) (auto split: option.split)

text \<open>
  the backfill stalls. It inserts at most \<open>limit\<close> tasks; after that, as long as the open
  Wayback tasks and their origins stay what they are - the outage it is meant for - every further call
  inserts nothing, however many Wayback hostnames have no RDAP task and whatever became of the tasks it
  inserted.
\<close>

theorem backfill_stalls:
  assumes "backfill_rdap_tasks_from_wayback n policy d = Inr (m, d')" "\<forall>k. has_task k d' \<longrightarrow> has_task k d''"
    "filter wayback_open (ed_tasks d'') = filter wayback_open (ed_tasks d)"
    "\<forall>k. qk_provider k = ''wayback'' \<longrightarrow> first_origin k d'' = first_origin k d"
  shows "int m \<le> n \<and> backfill_rdap_tasks_from_wayback n policy d'' = Inr (0, d'')"
proof -
  have n: "1 \<le> n" and f: "fold_result (seed_rdap policy) (rdap_candidates (nat n) (wayback_rows (max (n * 8) n) d) []) (0, d) = Inr (m, d')"
    using assms(1) unfolding backfill_rdap_tasks_from_wayback_def check_Inr by blast+
  have "m \<le> nat n" 
    using seed_rdap_all [OF f] candidates_bounded [of "[]" "nat n" "wayback_rows (max (n * 8) n) d"] n by simp
  moreover have "wayback_rows s d'' = wayback_rows s d" for s
  proof -
    have "first_origin (et_key r) d'' = first_origin (et_key r) d"
      if "r \<in> set (take (nat s) (tbl_order_by wayback_order (filter wayback_open (ed_tasks d))))" for r
      using assms(4) in_set_takeD [OF that] by (simp add: wayback_open_def)
    then show ?thesis unfolding wayback_rows_def assms(3) by (intro map_cong) simp_all
  qed
  then have "backfill_rdap_tasks_from_wayback n policy d'' = Inr (0, d'')"
    unfolding backfill_rdap_tasks_from_wayback_def check_Inr using n seed_rdap_all [OF f] assms(2)
    by (intro conjI) (simp, metis seed_rdap_present)
  ultimately show ?thesis using n by simp
qed

text \<open>Of two open Wayback hosts a backfill with limit one serves the first, for ever.\<close>

definition demo_outage :: evidence_db where
  "demo_outage = snd (enqueue_evidence_tasks [demo_key, demo_key\<lparr>qk_hostname := ''b.com''\<rparr>] (empty_queue [] []))"

definition demo_backlog :: evidence_db where
  "demo_backlog = demo_outage\<lparr>ed_tasks := map (\<lambda>r. r\<lparr>et_key := (et_key r)\<lparr>qk_provider := ''wayback''\<rparr>\<rparr>) (ed_tasks demo_outage)\<rparr>"

definition demo_backfilled :: evidence_db where
  "demo_backfilled = (case backfill_rdap_tasks_from_wayback 1 ''p'' demo_backlog of Inr (_, d) \<Rightarrow> d)"

theorem backfill_stalls_witness:
  "backfill_rdap_tasks_from_wayback 1 ''p'' demo_backfilled = Inr (0, demo_backfilled) \<and>
   map (\<lambda>r. (qk_hostname (et_key r), qk_provider (et_key r))) (ed_tasks demo_backfilled) =
     [(''a.com'', ''wayback''), (''b.com'', ''wayback''), (''a.com'', ''rdap'')]"
proof
  have "backfill_rdap_tasks_from_wayback 1 ''p'' demo_backlog = Inr (1, demo_backfilled)" by code_simp
  moreover have "filter wayback_open (ed_tasks demo_backfilled) = filter wayback_open (ed_tasks demo_backlog)" by code_simp
  moreover have "ed_origins demo_backfilled = []" "ed_origins demo_backlog = []" by code_simp+
  then have "first_origin k demo_backfilled = first_origin k demo_backlog" for k by (simp add: first_origin_def)
  ultimately show "backfill_rdap_tasks_from_wayback 1 ''p'' demo_backfilled = Inr (0, demo_backfilled)"
    using backfill_stalls [of 1 "''p''" demo_backlog 1 demo_backfilled demo_backfilled] by blast
qed code_simp

section \<open>The summaries\<close>

lemma sum_groups:
  assumes "finite K" "key ` set t \<subseteq> K"
  shows "(\<Sum>k \<in> K. sum_list (map f (filter (\<lambda>r. key r = k) t))) = (sum_list (map f t) :: int)"
  using assms(2)
proof (induction t)
  case (Cons r t)
  have "(\<Sum>k \<in> K. sum_list (map f (filter (\<lambda>r. key r = k) (r # t)))) =
      (\<Sum>k \<in> K. (if key r = k then f r else 0) + sum_list (map f (filter (\<lambda>r. key r = k) t)))"
    by (rule sum.cong) simp_all
  also have "\<dots> = f r + sum_list (map f t)" using Cons assms(1) by (simp add: sum.distrib)
  finally show ?case by simp
qed simp

lemma group_rows_sum: "sum_list (map (f \<circ> snd) (group_rows key agg t)) = (\<Sum>k \<in> key ` set t. f (agg (filter (\<lambda>r. key r = k) t)))"
proof -
  have "sum_list (map (f \<circ> snd) (group_rows key agg t)) = sum_list (map (\<lambda>k. f (agg (filter (\<lambda>r. key r = k) t))) (sort (remdups (map key t))))"
    by (simp add: group_rows_def comp_def)
  also have "\<dots> = (\<Sum>k \<in> set (sort (remdups (map key t))). f (agg (filter (\<lambda>r. key r = k) t)))"
    by (rule sum_list_distinct_conv_sum_set) simp
  finally show ?thesis by simp
qed

text \<open>
  every provider request is attributed to one source. The totals of the sources, the unattributed
  ones included, add up to the requests of all recorded attempts, and no source appears twice.
\<close>

theorem requests_attributed_once:
  "sum_list (map snd (source_provider_request_totals d)) = sum_list (map mt_provider_requests (ed_metrics d)) \<and>
   distinct (map fst (source_provider_request_totals d))"
proof
  have "sum_list (map (id \<circ> snd) (source_provider_request_totals d)) =
      (\<Sum>k \<in> primary_source d ` set (ed_metrics d). sum_list (map mt_provider_requests (filter (\<lambda>r. primary_source d r = k) (ed_metrics d))))"
    unfolding source_provider_request_totals_def group_rows_sum by simp
  also have "\<dots> = sum_list (map mt_provider_requests (ed_metrics d))" by (rule sum_groups) simp_all
  finally show "sum_list (map snd (source_provider_request_totals d)) = sum_list (map mt_provider_requests (ed_metrics d))" by simp
  show "distinct (map fst (source_provider_request_totals d))" by (simp add: source_provider_request_totals_def group_rows_def comp_def)
qed

end
