(* ===== verification/Backlog_Properties.thy ===== *)
theory Backlog_Properties
  imports Fanout_Properties
begin

text \<open>
  The backlog of a provider over the life of a producer's database, with everything that adds evidence
  tasks: routers whose capacities change from one start to the next, and the callers that enqueue without
  a reservation (\<open>enqueue_evidence_tasks\<close> of the pipeline and of the batch runner, the follow-up tasks of a
  finished range, an operator's finish, and the RDAP backfill).
\<close>

section \<open>Tasks opened without a reservation\<close>

text \<open>The tasks of a provider that are open after a change of the queue and were not open before it.\<close>

definition opened :: "string \<Rightarrow> evidence_db \<Rightarrow> evidence_db \<Rightarrow> int" where
  "opened p d d' = int (tbl_count (\<lambda>r. open_for p r \<and>
     \<not> (\<exists>r0 \<in> set (ed_tasks d). et_key r0 = et_key r \<and> open_for p r0)) (ed_tasks d'))"

lemma count_split: "tbl_count P t = tbl_count (\<lambda>r. P r \<and> Q r) t + tbl_count (\<lambda>r. P r \<and> \<not> Q r) t"
  by (induction t) (auto simp: tbl_count_def)

lemma opened_bound:
  assumes "uniq et_key (ed_tasks d')"
  shows "int (tbl_count (open_for p) (ed_tasks d')) \<le> int (tbl_count (open_for p) (ed_tasks d)) + opened p d d'"
proof -
  let ?Q = "\<lambda>r. \<exists>r0 \<in> set (ed_tasks d). et_key r0 = et_key r \<and> open_for p r0"
  let ?old = "filter (\<lambda>r. open_for p r \<and> ?Q r) (ed_tasks d')" and ?was = "filter (open_for p) (ed_tasks d)"
  have u: "distinct (ed_tasks d')" "inj_on et_key (set (ed_tasks d'))" using assms by (simp_all add: uniq_def distinct_map)
  have "inj_on et_key (set ?old)" by (rule inj_on_subset [OF u(2)]) auto
  with u(1) have "distinct (List.map et_key ?old)" by (simp only: distinct_map distinct_filter)
  from distinct_card [OF this] have "length ?old = card (et_key ` set ?old)" by (simp only: length_map list.set_map)
  also have "\<dots> \<le> card (et_key ` set ?was)" by (rule card_mono) (auto intro: rev_image_eqI)
  also have "\<dots> \<le> length ?was" using card_length [of "List.map et_key ?was"] by (simp only: length_map list.set_map)
  finally show ?thesis
    using count_split [of "open_for p" "ed_tasks d'" ?Q] by (simp add: opened_def tbl_count_def)
qed

lemma opened_nonneg: "0 \<le> opened p d d'"
  by (simp add: opened_def)

section \<open>Histories\<close>

text \<open>
  \<open>backlog_run C x d\<close>: the database \<open>d\<close> is reached by operations of admission and routing whose lanes never have
  more capacity than \<open>C\<close>, by any operations of the queue, and by backfills; the operations that reserve
  nothing opened \<open>x p\<close> tasks of the provider \<open>p\<close>.
\<close>

inductive backlog_run :: "(string \<Rightarrow> int) \<Rightarrow> (string \<Rightarrow> int) \<Rightarrow> admission_db \<Rightarrow> bool" for C :: "string \<Rightarrow> int" where
  start: "ad_queue d = empty_queue rs ls \<Longrightarrow> ad_reservations d = [] \<Longrightarrow> backlog_run C (\<lambda>_. 0) d"
| reserved: "backlog_run C x d \<Longrightarrow> admission_step ro d d' \<Longrightarrow> (\<And>p. lane_capacity ro p \<le> C p) \<Longrightarrow> backlog_run C x d'"
| direct: "backlog_run C x d \<Longrightarrow> queue_step a now (ad_queue d) q \<Longrightarrow>
    backlog_run C (\<lambda>p. x p + opened p (ad_queue d) q) (d\<lparr>ad_queue := q\<rparr>)"
| backfill: "backlog_run C x d \<Longrightarrow> backfill_rdap_tasks_from_wayback n policy (ad_queue d) = Inr (m, q) \<Longrightarrow>
    backlog_run C (\<lambda>p. x p + opened p (ad_queue d) q) (d\<lparr>ad_queue := q\<rparr>)"

lemma lanes_opened:
  assumes "admission_inv C {} d" "queue_inv q"
  shows "admission_inv (\<lambda>p. C p + opened p (ad_queue d) q) {} (d\<lparr>ad_queue := q\<rparr>)"
proof -
  have u: "uniq et_key (ed_tasks q)" using assms(2) by (simp add: queue_inv_def tasks_ok_def)
  have "load p (d\<lparr>ad_queue := q\<rparr>) \<le> C p + opened p (ad_queue d) q" for p
    using inv_parts(3) [OF assms(1), of p] opened_bound [OF u, of p "ad_queue d"] by (simp add: load_def durable_backlog_def)
  with assms show ?thesis by (simp add: admission_inv_def lanes_ok_def)
qed

lemma backlog_run_inv:
  assumes "backlog_run C x d" "\<And>p. 0 \<le> C p"
  shows "admission_inv (\<lambda>p. C p + x p) {} d \<and> (\<forall>p. 0 \<le> x p)"
  using assms(1)
proof (induction rule: backlog_run.induct)
  case (start d rs ls)
  then show ?case
    using assms(2) empty_inv by (simp add: admission_inv_def lanes_ok_def load_def durable_backlog_def amounts_ok_def)
      (simp add: empty_queue_def)
next
  case (reserved x d ro d')
  have "lane_capacity ro p \<le> C p + x p" for p using reserved(3) [of p] reserved.IH by (simp add: add_increasing2)
  with reserved.IH show ?case using admission_step_inv [OF _ reserved(2)] by blast
next
  case (direct x d a now q)
  have "queue_inv q" using queue_step_inv [OF direct(2)] inv_parts(2) direct.IH by blast
  from lanes_opened [of "\<lambda>p. C p + x p", OF _ this] direct.IH show ?case by (simp add: opened_nonneg add.assoc)
next
  case (backfill x d n policy m q)
  have "queue_inv q" using backfill_inv [OF _ backfill(2)] inv_parts(2) backfill.IH by blast
  from lanes_opened [of "\<lambda>p. C p + x p", OF _ this] backfill.IH show ?case by (simp add: opened_nonneg add.assoc)
qed

text \<open>
  C30: admission bounds the evidence backlog. In every database a producer reaches, whatever crashes, retries,
  expired reservations, clocks that step back and restarts with other capacities (none above \<open>C\<close>), the open tasks of
  a provider together with all its reservations never exceed the capacity of its lane by more than the number of
  tasks that operations without a reservation opened: direct enqueues, follow-ups of a finished range, operator
  finishes and the RDAP backfill. A lane that only admission and routing feed stays within its capacity.
\<close>

theorem backlog_bounded:
  assumes "backlog_run C x d" "\<And>p. 0 \<le> C p"
  shows "int (length (filter (open_for p) (ed_tasks (ad_queue d)))) +
    sum_list (List.map rs_amount (filter (\<lambda>r. rs_provider r = p) (ad_reservations d))) \<le> C p + x p"
proof -
  have "admission_inv (\<lambda>p. C p + x p) {} d" using backlog_run_inv [OF assms] by blast
  from inv_parts(3) [OF this, of p] show ?thesis by (simp add: load_def durable_backlog_def held_def tbl_count_def)
qed

text \<open>A lane of one task that routing fills; a second task enqueued directly is the one above the bound.\<close>

definition demo_enqueued :: evidence_db where
  "demo_enqueued = snd (enqueue_evidence_tasks [demo_key\<lparr>qk_policy_version := ''v2''\<rparr>] (ad_queue (last demo_routed)))"

lemma demo_opened: "opened ''w'' (ad_queue (last demo_routed)) demo_enqueued = 1"
    "length (filter (open_for ''w'') (ed_tasks demo_enqueued)) = 2" "lane_capacity demo_router ''w'' = 1"
  by code_simp+

lemma demo_valid_b: "valid_key (demo_key\<lparr>qk_policy_version := ''v2''\<rparr>)"
proof -
  have "\<not> blank ''v2''" by (simp add: blank_iff py_space_def Let_def)
  with demo_valid show ?thesis by (simp add: valid_key_def year_from_def year_to_def)
qed

theorem backlog_bounded_witness:
  "int (length (filter (open_for ''w'') (ed_tasks demo_enqueued))) \<le> lane_capacity demo_router ''w'' + 1 \<and>
   \<not> int (length (filter (open_for ''w'') (ed_tasks demo_enqueued))) \<le> lane_capacity demo_router ''w''"
proof -
  let ?k = "demo_key\<lparr>qk_policy_version := ''v2''\<rparr>" and ?d = "last demo_routed"
  have run: "backlog_run (lane_capacity demo_router) (\<lambda>_. 0) demo_start"
    by (rule backlog_run.start) (simp_all add: demo_start_def)
  then have run: "backlog_run (lane_capacity demo_router) (\<lambda>_. 0) ?d"
    by (rule backlog_run.reserved [OF _ demo_admission(3)]) simp
  have "enqueue_evidence_tasks [?k] (ad_queue ?d) = (fst (enqueue_evidence_tasks [?k] (ad_queue ?d)), demo_enqueued)"
    by (simp add: demo_enqueued_def)
  then have "queue_step Admin 0 (ad_queue ?d) demo_enqueued"
    by (rule queue_step.enqueue [rotated]) (simp add: demo_valid_b)
  from backlog_bounded [OF backlog_run.direct [OF run this], of "''w''"] lane_nonneg demo_admission(1)
  have "int (length (filter (open_for ''w'') (ed_tasks demo_enqueued))) +
      sum_list (List.map rs_amount (filter (\<lambda>r. rs_provider r = ''w'') (ad_reservations ?d))) \<le> lane_capacity demo_router ''w'' + 1"
    by (simp add: demo_opened(1) admission_start_def)
  moreover have "ad_reservations ?d = []" by code_simp
  ultimately show ?thesis by (simp add: demo_opened)
qed

end
