(* ===== verification/Source_Url.thy ===== *)
theory Source_Url
  imports Fabric_Models
begin

text \<open>
  The identity of a source: \<open>canonicalize_source_entrypoint\<close>, \<open>source_key\<close> and \<open>source_origin\<close> of
  \<open>source_discovery/models.py\<close>, with what they use of \<open>urllib.parse\<close> and \<open>posixpath\<close>.  A URL is a list of
  characters below code point 256.  The parts of the library that need tables of Unicode or of addresses
  (\<open>idna\<close> of a name that is not ASCII, the check of a bracketed address and of a network location that is
  not ASCII) are the fields of \<open>url_library\<close>, an argument of the definitions.
\<close>

record url_library =
  ul_idna :: "string \<Rightarrow> string option"
  ul_bracket_ok :: "string \<Rightarrow> bool"
  ul_netloc_ok :: "string \<Rightarrow> bool"

section \<open>\<open>urllib.parse\<close>\<close>

definition ascii :: "string \<Rightarrow> bool" where "ascii s = list_all (\<lambda>c. (of_char c :: nat) < 128) s"

text \<open>\<open>str.partition\<close>: before and after the first occurrence.\<close>

definition before :: "char \<Rightarrow> string \<Rightarrow> string" where "before c s = takeWhile (\<lambda>x. x \<noteq> c) s"

definition behind :: "char \<Rightarrow> string \<Rightarrow> string" where "behind c s = tl (dropWhile (\<lambda>x. x \<noteq> c) s)"

record split_url =
  su_scheme :: string
  su_netloc :: string
  su_path :: string
  su_query :: string

definition scheme_char :: "char \<Rightarrow> bool" where
  "scheme_char c = (let n = (of_char c :: nat) in (97 \<le> n \<and> n \<le> 122) \<or> (65 \<le> n \<and> n \<le> 90) \<or> (48 \<le> n \<and> n \<le> 57) \<or> n = 43 \<or> n = 45 \<or> n = 46)"

definition letter :: "char \<Rightarrow> bool" where
  "letter c = (let n = (of_char c :: nat) in (97 \<le> n \<and> n \<le> 122) \<or> (65 \<le> n \<and> n \<le> 90))"

definition split_scheme :: "string \<Rightarrow> string \<times> string" where
  "split_scheme url = (let s = before CHR '':'' url in
     if CHR '':'' \<in> set url \<and> s \<noteq> [] \<and> letter (hd s) \<and> list_all scheme_char s then (py_lower s, behind CHR '':'' url) else ([], url))"

definition urlsplit :: "url_library \<Rightarrow> string \<Rightarrow> py_error + split_url" where
  "urlsplit U raw =
     (let url = filter (\<lambda>c. (of_char c :: nat) \<notin> {9, 10, 13}) (dropWhile (\<lambda>c. (of_char c :: nat) \<le> 32) raw);
          (scheme, rest) = split_scheme url;
          (netloc, tail) = (if take 2 rest = ''//''
            then (takeWhile (\<lambda>c. c \<notin> set ''/?#'') (drop 2 rest), dropWhile (\<lambda>c. c \<notin> set ''/?#'') (drop 2 rest)) else ([], rest));
          body = before CHR ''#'' tail
      in check ((CHR ''['' \<in> set netloc) = (CHR '']'' \<in> set netloc)) ValueError (
         check (CHR ''['' \<in> set netloc \<longrightarrow> ul_bracket_ok U (before CHR '']'' (behind CHR ''['' netloc))) ValueError (
         check (ascii netloc \<or> ul_netloc_ok U netloc) ValueError (
         Inr \<lparr>su_scheme = scheme, su_netloc = netloc, su_path = before CHR ''?'' body, su_query = behind CHR ''?'' body\<rparr>))))"

definition hostinfo :: "string \<Rightarrow> string \<times> string" where
  "hostinfo netloc =
     (let info = rev (takeWhile (\<lambda>x. x \<noteq> CHR ''@'') (rev netloc)) in
      if CHR ''['' \<in> set info
      then (let b = behind CHR ''['' info in (before CHR '']'' b, behind CHR '':'' (behind CHR '']'' b)))
      else (before CHR '':'' info, behind CHR '':'' info))"

definition url_hostname :: "split_url \<Rightarrow> string" where
  "url_hostname u = (let h = fst (hostinfo (su_netloc u)) in py_lower (before CHR ''%'' h) @ dropWhile (\<lambda>x. x \<noteq> CHR ''%'') h)"

definition dec_value :: "string \<Rightarrow> nat" where
  "dec_value s = foldl (\<lambda>a c. 10 * a + ((of_char c :: nat) - 48)) 0 s"

definition url_port :: "split_url \<Rightarrow> py_error + nat option" where
  "url_port u = (let p = snd (hostinfo (su_netloc u)) in
     if p = [] then Inr None
     else check (list_all (\<lambda>c. digit_value c \<noteq> None) p) ValueError (check (dec_value p \<le> 65535) ValueError (Inr (Some (dec_value p)))))"

text \<open>\<open>str.encode("idna")\<close>\<close>

fun split_on :: "char \<Rightarrow> string \<Rightarrow> string list" where
  "split_on d [] = [[]]"
| "split_on d (c # cs) = (if c = d then [] # split_on d cs
     else case split_on d cs of [] \<Rightarrow> [[c]] | w # ws \<Rightarrow> (c # w) # ws)"

definition idna :: "url_library \<Rightarrow> string \<Rightarrow> py_error + string" where
  "idna U h =
     (if ascii h
      then (let labels = split_on CHR ''.'' h in
        check (list_all (\<lambda>l. l \<noteq> [] \<and> length l < 64) (butlast labels) \<and> length (last labels) < 64) ValueError (Inr h))
      else (case ul_idna U h of None \<Rightarrow> Inl ValueError | Some h' \<Rightarrow> Inr h'))"

section \<open>\<open>posixpath.normpath\<close>\<close>

fun join_with :: "char \<Rightarrow> string list \<Rightarrow> string" where
  "join_with d [] = []"
| "join_with d [w] = w"
| "join_with d (w # ws) = w @ d # join_with d ws"

definition initial_slashes :: "string \<Rightarrow> nat" where
  "initial_slashes path = (if starts_with path ''//'' \<and> \<not> starts_with path ''///'' then 2 else if starts_with path ''/'' then 1 else 0)"

text \<open>One component; the list of kept components is reversed.\<close>

definition push_component :: "bool \<Rightarrow> string \<Rightarrow> string list \<Rightarrow> string list" where
  "push_component rooted part kept =
     (if part = [] \<or> part = ''.'' then kept
      else if part \<noteq> ''..'' \<or> (\<not> rooted \<and> kept = []) \<or> (kept \<noteq> [] \<and> hd kept = ''..'') then part # kept
      else tl kept)"

definition normpath :: "string \<Rightarrow> string" where
  "normpath path =
     (let n = initial_slashes path;
          kept = fold (push_component (0 < n)) (split_on CHR ''/'' path) [];
          p = replicate n CHR ''/'' @ join_with CHR ''/'' (rev kept)
      in if path = [] \<or> p = [] then ''.'' else p)"

section \<open>Identity\<close>

definition clean_path :: "string \<Rightarrow> string" where
  "clean_path raw =
     (let p0 = normpath raw; p = (if starts_with p0 ''/'' then p0 else CHR ''/'' # p0)
      in if raw \<noteq> [] \<and> last raw = CHR ''/'' \<and> p \<noteq> ''/'' \<and> last p \<noteq> CHR ''/'' then p @ ''/'' else p)"

definition netloc_of :: "string \<Rightarrow> string \<Rightarrow> nat option \<Rightarrow> string" where
  "netloc_of scheme h port =
     (let host = (if CHR '':'' \<in> set h \<and> \<not> starts_with h ''['' then ''['' @ h @ '']'' else h)
      in case port of None \<Rightarrow> host
         | Some n \<Rightarrow> if (scheme = ''http'' \<and> n = 80) \<or> (scheme = ''https'' \<and> n = 443) then host else host @ '':'' @ dec_digits n)"

definition canonicalize_source_entrypoint :: "url_library \<Rightarrow> string \<Rightarrow> py_error + string" where
  "canonicalize_source_entrypoint U value =
     check (\<not> blank value) ValueError (
     bindr (urlsplit U (py_strip value)) (\<lambda>u.
     let scheme = py_lower (su_scheme u) in
     check (scheme = ''http'' \<or> scheme = ''https'') ValueError (
     check (CHR ''@'' \<notin> set (su_netloc u)) ValueError (
     check (url_hostname u \<noteq> []) ValueError (
     bindr (idna U (url_hostname u)) (\<lambda>h.
     bindr (url_port u) (\<lambda>port.
     let path = clean_path (if su_path u = [] then ''/'' else su_path u)
     in Inr (scheme @ ''://'' @ netloc_of scheme (py_lower h) port @ path @ (if su_query u = [] then [] else ''?'' @ su_query u)))))))))"

definition source_key :: "url_library \<Rightarrow> codec \<Rightarrow> string \<Rightarrow> py_error + string" where
  "source_key U E entrypoint = bindr (canonicalize_source_entrypoint U entrypoint) (\<lambda>c. Inr (''src:'' @ sha256 E c))"

definition source_origin :: "url_library \<Rightarrow> string \<Rightarrow> py_error + string" where
  "source_origin U entrypoint = bindr (canonicalize_source_entrypoint U entrypoint) (\<lambda>c.
     bindr (urlsplit U c) (\<lambda>u. Inr (su_scheme u @ ''://'' @ su_netloc u)))"

definition plain_library :: url_library where
  "plain_library = \<lparr>ul_idna = \<lambda>_. None, ul_bracket_ok = \<lambda>_. True, ul_netloc_ok = \<lambda>_. False\<rparr>"

section \<open>Paths\<close>

lemma split_on_ne: "split_on d s \<noteq> []"
  by (induction d s rule: split_on.induct) (auto split: list.splits)

lemma split_on_chars: "w \<in> set (split_on d s) \<Longrightarrow> set w \<subseteq> set s \<and> d \<notin> set w"
  by (induction d s arbitrary: w rule: split_on.induct) (fastforce split: if_splits list.splits)+

lemma split_on_plain: "d \<notin> set w \<Longrightarrow> split_on d w = [w]"
  by (induction w) auto

lemma split_on_append: "d \<notin> set w \<Longrightarrow> split_on d (w @ d # s) = w # split_on d s"
  by (induction w) auto

lemma split_on_join: "ws \<noteq> [] \<Longrightarrow> \<forall>w \<in> set ws. d \<notin> set w \<Longrightarrow> split_on d (join_with d ws) = ws"
  by (induction d ws rule: join_with.induct) (auto simp: split_on_plain split_on_append)

lemma split_on_snoc: "split_on d (s @ [d]) = split_on d s @ [[]]"
  by (induction d s rule: split_on.induct) (use split_on_ne in \<open>auto split: list.splits\<close>)

definition kept_ok :: "string \<Rightarrow> bool" where
  "kept_ok w \<longleftrightarrow> w \<noteq> [] \<and> w \<noteq> ''.'' \<and> w \<noteq> ''..'' \<and> CHR ''/'' \<notin> set w"

lemma push_keeps: "\<forall>w \<in> set kept. kept_ok w \<Longrightarrow> CHR ''/'' \<notin> set part \<Longrightarrow> \<forall>w \<in> set (push_component True part kept). kept_ok w"
  by (cases kept) (auto simp: push_component_def kept_ok_def)

lemma push_all_keep: "\<forall>w \<in> set kept. kept_ok w \<Longrightarrow> \<forall>part \<in> set parts. CHR ''/'' \<notin> set part \<Longrightarrow>
    \<forall>w \<in> set (fold (push_component True) parts kept). kept_ok w"
proof (induction parts arbitrary: kept)
  case (Cons part parts)
  have "\<forall>w \<in> set (push_component True part kept). kept_ok w"
    by (rule push_keeps [OF Cons.prems(1) bspec [OF Cons.prems(2) list.set_intros(1)]])
  moreover have "\<forall>part \<in> set parts. CHR ''/'' \<notin> set part" by (meson Cons.prems(2) list.set_intros(2))
  ultimately show ?case unfolding fold_simps by (rule Cons.IH)
qed (simp only: fold_simps)

lemma push_members: "set (push_component r part kept) \<subseteq> insert part (set kept)"
proof -
  have "push_component r part kept \<in> {kept, part # kept, tl kept}" unfolding push_component_def by (simp only: insert_iff split: if_split) blast
  moreover have "set (tl kept) \<subseteq> set kept" by (cases kept) auto
  ultimately show ?thesis by (elim insertE) (simp_all add: subset_insertI subset_insertI2)
qed

lemma push_all_members: "set (fold (push_component r) parts kept) \<subseteq> set parts \<union> set kept"
proof (induction parts arbitrary: kept)
  case (Cons part parts)
  show ?case using subset_trans [OF Cons.IH Un_mono [OF subset_refl push_members [of r part kept]]] by simp
qed simp

lemma push_all_ok: "\<forall>w \<in> set ws. kept_ok w \<Longrightarrow> fold (push_component True) ws kept = rev ws @ kept"
  by (induction ws arbitrary: kept) (auto simp: push_component_def kept_ok_def)

text \<open>The normal form of a rooted path.\<close>

definition rooted_path :: "nat \<Rightarrow> string list \<Rightarrow> string" where
  "rooted_path n ws = replicate n CHR ''/'' @ join_with CHR ''/'' ws"

lemma join_first: "ws \<noteq> [] \<Longrightarrow> \<forall>w \<in> set ws. kept_ok w \<Longrightarrow> \<exists>c t. join_with d ws = c # t \<and> c \<noteq> CHR ''/''"
proof (induction d ws rule: join_with.induct)
  case (2 d w)
  then show ?case by (cases w) (auto simp: kept_ok_def)
next
  case (3 d w v ws)
  then show ?case by (cases w) (auto simp: kept_ok_def)
qed simp

lemma join_last: "ws \<noteq> [] \<Longrightarrow> \<forall>w \<in> set ws. kept_ok w \<Longrightarrow> join_with d ws \<noteq> [] \<and> last (join_with d ws) \<noteq> CHR ''/''"
proof (induction d ws rule: join_with.induct)
  case (2 d w)
  then show ?case by (metis join_with.simps(2) kept_ok_def last_in_set list.set_intros(1))
next
  case (3 d w v ws)
  then have "join_with d (v # ws) \<noteq> [] \<and> last (join_with d (v # ws)) \<noteq> CHR ''/''" by simp
  then show ?case by simp
qed simp

lemma split_rooted: "split_on CHR ''/'' (replicate n CHR ''/'' @ s) = replicate n [] @ split_on CHR ''/'' s"
  by (induction n) auto

lemma push_empties: "fold (push_component r) (replicate n [] @ ws) kept = fold (push_component r) ws kept"
  by (induction n) (auto simp: push_component_def)

lemma slashes_rooted:
  assumes "n = 1 \<or> n = 2" "\<forall>w \<in> set ws. kept_ok w" "t = [] \<or> (ws \<noteq> [] \<and> t = ''/'')"
  shows "initial_slashes (rooted_path n ws @ t) = n"
proof (cases "ws = []")
  case True
  then show ?thesis using assms by (auto simp: rooted_path_def initial_slashes_def numeral_2_eq_2)
next
  case False
  then obtain c u where "join_with CHR ''/'' ws = c # u" "c \<noteq> CHR ''/''" using join_first assms(2) by blast
  then show ?thesis using assms(1) by (auto simp: rooted_path_def initial_slashes_def numeral_2_eq_2)
qed

lemma normpath_rooted:
  assumes "n = 1 \<or> n = 2" "\<forall>w \<in> set ws. kept_ok w" "t = [] \<or> (ws \<noteq> [] \<and> t = ''/'')"
  shows "normpath (rooted_path n ws @ t) = rooted_path n ws"
proof -
  have s: "fold (push_component True) (split_on CHR ''/'' (join_with CHR ''/'' ws @ t)) [] = rev ws"
  proof (cases "ws = []")
    case True
    then show ?thesis using assms(3) by (simp add: push_component_def)
  next
    case False
    have j: "split_on CHR ''/'' (join_with CHR ''/'' ws) = ws"
      using split_on_join [OF False, of "CHR ''/''"] assms(2) by (simp add: kept_ok_def)
    have "split_on CHR ''/'' (join_with CHR ''/'' ws @ t) = ws \<or> split_on CHR ''/'' (join_with CHR ''/'' ws @ t) = ws @ [[]]"
      using assms(3) j split_on_snoc [of "CHR ''/''" "join_with CHR ''/'' ws"] by auto
    then show ?thesis using push_all_ok [OF assms(2), of "[]"] by (auto simp: push_component_def)
  qed
  have "fold (push_component True) (split_on CHR ''/'' (rooted_path n ws @ t)) [] = rev ws"
    unfolding rooted_path_def append.assoc split_rooted push_empties by (rule s)
  moreover have "rooted_path n ws \<noteq> []" using assms(1) by (auto simp: rooted_path_def)
  ultimately show ?thesis using slashes_rooted [OF assms] assms(1)
    by (auto simp: normpath_def Let_def rooted_path_def)
qed

lemma clean_path_rooted:
  assumes n: "n = 1 \<or> n = 2" and ws: "\<forall>w \<in> set ws. kept_ok w" and t: "t = [] \<or> (ws \<noteq> [] \<and> t = ''/'')"
  shows "clean_path (rooted_path n ws @ t) = rooted_path n ws @ t"
proof -
  have r: "starts_with (rooted_path n ws) ''/''" "rooted_path n ws \<noteq> []" using n by (auto simp: rooted_path_def numeral_2_eq_2)
  have l: "ws \<noteq> [] \<Longrightarrow> last (rooted_path n ws) \<noteq> CHR ''/'' \<and> rooted_path n ws \<noteq> ''/''"
    using join_last [OF _ ws, of "CHR ''/''"] n by (auto simp: rooted_path_def numeral_2_eq_2)
  have e: "ws = [] \<Longrightarrow> last (rooted_path n ws) = CHR ''/''" using n by (auto simp: rooted_path_def numeral_2_eq_2)
  show ?thesis
    unfolding clean_path_def normpath_rooted [OF n ws t] Let_def using r l e t by auto
qed

lemma clean_path_form:
  assumes "starts_with raw ''/''"
  obtains n ws t where "clean_path raw = rooted_path n ws @ t" "n = 1 \<or> n = 2" "\<forall>w \<in> set ws. kept_ok w" "t = [] \<or> (ws \<noteq> [] \<and> t = ''/'')"
    "\<Union> (set ` set ws) \<subseteq> set raw"
proof -
  define n where "n = initial_slashes raw"
  define ws where "ws = rev (fold (push_component True) (split_on CHR ''/'' raw) [])"
  have n: "n = 1 \<or> n = 2" using assms by (simp add: n_def initial_slashes_def)
  have ws: "\<forall>w \<in> set ws. kept_ok w"
    using push_all_keep [of "[]" "split_on CHR ''/'' raw"] split_on_chars [of _ "CHR ''/''" raw] unfolding ws_def by auto
  have chars: "\<Union> (set ` set ws) \<subseteq> set raw"
  proof -
    have "set ws \<subseteq> set (split_on CHR ''/'' raw)" using push_all_members [of True "split_on CHR ''/'' raw" "[]"] by (simp add: ws_def)
    then show ?thesis using split_on_chars [of _ "CHR ''/''" raw] by blast
  qed
  have ne: "raw \<noteq> []" using assms by auto
  have p: "normpath raw = rooted_path n ws"
    using n ne by (auto simp: normpath_def Let_def rooted_path_def ws_def simp flip: n_def)
  have "starts_with (rooted_path n ws) ''/''" using n by (auto simp: rooted_path_def numeral_2_eq_2)
  then have c: "clean_path raw = rooted_path n ws @ (if last raw = CHR ''/'' \<and> rooted_path n ws \<noteq> ''/'' \<and>
      last (rooted_path n ws) \<noteq> CHR ''/'' then ''/'' else [])"
    using ne by (simp add: clean_path_def p Let_def)
  have w: "rooted_path n ws \<noteq> ''/'' \<and> last (rooted_path n ws) \<noteq> CHR ''/'' \<longrightarrow> ws \<noteq> []"
    using n by (auto simp: rooted_path_def numeral_2_eq_2)
  show ?thesis
  proof (cases "last raw = CHR ''/'' \<and> rooted_path n ws \<noteq> ''/'' \<and> last (rooted_path n ws) \<noteq> CHR ''/''")
    case True
    show ?thesis by (rule that [of n ws "''/''"]) (use c w n ws chars True in \<open>simp_all\<close>)
  next
    case False
    show ?thesis by (rule that [of n ws "[]"]) (use c n ws chars False in \<open>simp_all only: if_False simp_thms append_Nil2\<close>)
  qed
qed

lemma clean_path_stable: "starts_with raw ''/'' \<Longrightarrow> clean_path (clean_path raw) = clean_path raw"
  by (erule clean_path_form) (simp add: clean_path_rooted)

lemma join_chars: "set (join_with d ws) \<subseteq> insert d (\<Union> (set ` set ws))"
  by (induction d ws rule: join_with.induct) auto

lemma starts_with_more: "starts_with a p \<Longrightarrow> starts_with (a @ t) p"
  by (auto simp: starts_with_append)

lemma clean_path_chars:
  assumes "starts_with raw ''/''"
  shows "set (clean_path raw) \<subseteq> set raw \<and> starts_with (clean_path raw) ''/''"
proof -
  obtain n ws t where a: "clean_path raw = rooted_path n ws @ t" "n = 1 \<or> n = 2" "t = [] \<or> (ws \<noteq> [] \<and> t = ''/'')"
    "\<Union> (set ` set ws) \<subseteq> set raw" using clean_path_form [OF assms] by metis
  have s: "CHR ''/'' \<in> set raw" using assms by (cases raw) auto
  have "set (rooted_path n ws) \<subseteq> insert CHR ''/'' (\<Union> (set ` set ws))" using join_chars [of "CHR ''/''" ws] by (auto simp: rooted_path_def)
  then have "set (rooted_path n ws) \<subseteq> set raw" using a(4) s by blast
  moreover have "starts_with (rooted_path n ws) ''/''" using a(2) by (auto simp: rooted_path_def numeral_2_eq_2)
  moreover have "set t \<subseteq> set raw" using a(3) s by auto
  ultimately show ?thesis using starts_with_more by (simp add: a(1))
qed


section \<open>Taking a canonical URL apart\<close>

lemma before_append: "c \<notin> set s \<Longrightarrow> before c (s @ c # t) = s" "c \<notin> set s \<Longrightarrow> before c s = s"
    "c \<notin> set s \<Longrightarrow> behind c (s @ c # t) = t" "c \<notin> set s \<Longrightarrow> behind c s = []"
proof -
  have eq: "c \<notin> set s \<Longrightarrow> \<forall>x \<in> set s. x \<noteq> c" by blast
  then have "c \<notin> set s \<Longrightarrow> dropWhile (\<lambda>x. x \<noteq> c) s = []" by (simp add: dropWhile_eq_Nil_conv)
  then show "c \<notin> set s \<Longrightarrow> behind c s = []" by (metis behind_def list.sel(2))
  show "c \<notin> set s \<Longrightarrow> before c s = s" using eq by (simp add: before_def takeWhile_eq_all_conv)
  show "c \<notin> set s \<Longrightarrow> before c (s @ c # t) = s" using eq takeWhile_append2 [of s "\<lambda>x. x \<noteq> c" "c # t"] by (simp add: before_def)
  show "c \<notin> set s \<Longrightarrow> behind c (s @ c # t) = t" using eq dropWhile_append2 [of s "\<lambda>x. x \<noteq> c" "c # t"] by (simp add: behind_def)
qed

lemma before_subset: "set (before c s) \<subseteq> set s" "set (behind c s) \<subseteq> set s" "c \<notin> set (before c s)"
proof -
  show "set (before c s) \<subseteq> set s" "c \<notin> set (before c s)" unfolding before_def by (auto dest: set_takeWhileD)
  have "set (tl xs) \<subseteq> set xs" for xs :: string by (cases xs) auto
  then show "set (behind c s) \<subseteq> set s" unfolding behind_def by (meson set_dropWhileD subset_code(1) subsetD)
qed

definition quiet :: "string \<Rightarrow> bool" where
  "quiet s \<longleftrightarrow> (\<forall>c \<in> set s. (of_char c :: nat) \<notin> {9, 10, 13})"

definition plain_authority :: "string \<Rightarrow> bool" where
  "plain_authority nl \<longleftrightarrow> ascii nl \<and> (\<forall>c \<in> set nl. c \<notin> set ''/?#[]@'')"

lemma split_scheme_http: "s = ''http'' \<or> s = ''https'' \<Longrightarrow> split_scheme (s @ CHR '':'' # t) = (s, t)"
  by (auto simp: split_scheme_def before_def behind_def letter_def scheme_char_def py_lower_def py_lower_char_def Let_def)

lemma take_until: "\<forall>c \<in> set s. P c \<Longrightarrow> \<not> P d \<Longrightarrow> takeWhile P (s @ d # t) = s \<and> dropWhile P (s @ d # t) = d # t"
  by (simp add: takeWhile_append2 dropWhile_append2)

lemma urlsplit_text:
  assumes s: "s = ''http'' \<or> s = ''https''" and nl: "plain_authority nl" and path: "starts_with path ''/''" "CHR ''?'' \<notin> set path" "CHR ''#'' \<notin> set path"
    and q: "CHR ''#'' \<notin> set q" and quiet: "quiet nl" "quiet path" "quiet q"
  shows "urlsplit U (s @ ''://'' @ nl @ path @ (if q = [] then [] else ''?'' @ q)) = Inr \<lparr>su_scheme = s, su_netloc = nl, su_path = path, su_query = q\<rparr>"
proof -
  let ?tail = "path @ (if q = [] then [] else ''?'' @ q)"
  have f: "filter (\<lambda>c. (of_char c :: nat) \<notin> {9, 10, 13}) (s @ ''://'' @ nl @ ?tail) = s @ ''://'' @ nl @ ?tail"
  proof (rule filter_True)
    have "quiet s" using s by (auto simp: quiet_def)
    moreover have "quiet ''://''" "quiet ''?''" by (simp_all add: quiet_def)
    ultimately show "\<forall>c \<in> set (s @ ''://'' @ nl @ ?tail). (of_char c :: nat) \<notin> {9, 10, 13}"
      using quiet unfolding quiet_def by (auto split: if_splits)
  qed
  have d: "dropWhile (\<lambda>c. (of_char c :: nat) \<le> 32) (s @ t) = s @ t" for t using s by auto
  have a: "takeWhile (\<lambda>c. c \<notin> set ''/?#'') (nl @ ?tail) = nl" "dropWhile (\<lambda>c. c \<notin> set ''/?#'') (nl @ ?tail) = ?tail"
  proof -
    obtain t where t: "?tail = CHR ''/'' # t" using path(1) by (auto simp: starts_with_append)
    have "\<forall>c \<in> set nl. c \<notin> set ''/?#''" 
    proof -
      have "set ''/?#'' \<subseteq> set ''/?#[]@''" by simp
      then show ?thesis using nl unfolding plain_authority_def by blast
    qed
    from take_until [OF this, of "CHR ''/''" t] show "takeWhile (\<lambda>c. c \<notin> set ''/?#'') (nl @ ?tail) = nl" "dropWhile (\<lambda>c. c \<notin> set ''/?#'') (nl @ ?tail) = ?tail"
      unfolding t by simp_all
  qed
  have h: "CHR ''#'' \<notin> set ?tail" using path(3) q by auto
  have b: "before CHR ''?'' ?tail = path" "behind CHR ''?'' ?tail = q" using before_append [OF path(2)] by auto
  have n: "CHR ''['' \<notin> set nl" "CHR '']'' \<notin> set nl" "ascii nl" using nl by (auto simp: plain_authority_def)
  have sp: "split_scheme (s @ ''://'' @ nl @ ?tail) = (s, ''//'' @ nl @ ?tail)" using split_scheme_http [OF s, of "''//'' @ nl @ ?tail"] by simp
  have tk: "take 2 (''//'' @ t) = ''//''" "drop 2 (''//'' @ t) = t" for t :: string by simp_all
  show ?thesis
    unfolding urlsplit_def Let_def d f sp prod.case tk if_True simp_thms a before_append(2) [OF h] b
    using n by (simp only: simp_thms check_True)
qed

lemma split_scheme_rest: "set (snd (split_scheme url)) \<subseteq> set url"
  using before_subset(2) by (auto simp: split_scheme_def Let_def)

lemma urlsplit_parts:
  assumes u: "urlsplit U w = Inr u" and w: "ascii w" "CHR ''['' \<notin> set w" and nl: "su_netloc u \<noteq> []"
  shows "ascii (su_netloc u)" "\<forall>c \<in> set (su_netloc u). c \<notin> set ''/?#''" "CHR ''['' \<notin> set (su_netloc u)" "CHR '']'' \<notin> set (su_netloc u)"
    "quiet (su_netloc u)" "quiet (su_path u)" "quiet (su_query u)" "su_path u = [] \<or> starts_with (su_path u) ''/''"
    "CHR ''?'' \<notin> set (su_path u)" "CHR ''#'' \<notin> set (su_path u)" "CHR ''#'' \<notin> set (su_query u)"
proof -
  define P where "P = (\<lambda>c. c \<notin> set ''/?#'')"
  define url where "url = filter (\<lambda>c. (of_char c :: nat) \<notin> {9, 10, 13}) (dropWhile (\<lambda>c. (of_char c :: nat) \<le> 32) w)"
  define rest where "rest = snd (split_scheme url)"
  define tail where "tail = dropWhile P (drop 2 rest)"
  define body where "body = before CHR ''#'' tail"
  have two: "take 2 rest = ''//''" and f: "su_netloc u = takeWhile P (drop 2 rest)" "su_path u = before CHR ''?'' body"
      "su_query u = behind CHR ''?'' body" "(CHR ''['' \<in> set (su_netloc u)) = (CHR '']'' \<in> set (su_netloc u))"
    using u nl unfolding urlsplit_def Let_def P_def [symmetric] url_def [symmetric] body_def tail_def rest_def
    by (auto split: prod.splits if_splits)
  have r: "set (drop 2 rest) \<subseteq> set url" using split_scheme_rest [of url] set_drop_subset [of 2 rest] unfolding rest_def by blast
  have url: "set url \<subseteq> set w" "quiet url" unfolding url_def quiet_def using set_dropWhileD by (auto dest: set_dropWhileD)
  have n: "set (su_netloc u) \<subseteq> set url" using set_takeWhileD r unfolding f by (metis subsetI subsetD)
  have t: "set tail \<subseteq> set url" using set_dropWhileD r unfolding tail_def by (metis subsetI subsetD)
  have b: "set body \<subseteq> set url" "CHR ''#'' \<notin> set body" using before_subset t unfolding body_def by blast+
  have pq: "set (su_path u) \<subseteq> set body" "set (su_query u) \<subseteq> set body" unfolding f by (rule before_subset)+
  show "ascii (su_netloc u)" using n url(1) w(1) unfolding ascii_def list_all_iff by blast
  show br: "CHR ''['' \<notin> set (su_netloc u)" using n url(1) w(2) by blast
  then show "CHR '']'' \<notin> set (su_netloc u)" using f(4) by blast
  show "\<forall>c \<in> set (su_netloc u). c \<notin> set ''/?#''" unfolding f using set_takeWhileD by (fastforce simp: P_def)
  show "quiet (su_netloc u)" "quiet (su_path u)" "quiet (su_query u)" using n pq b(1) url(2) unfolding quiet_def by blast+
  show "CHR ''?'' \<notin> set (su_path u)" unfolding f by (rule before_subset)
  show "CHR ''#'' \<notin> set (su_path u)" "CHR ''#'' \<notin> set (su_query u)" using pq b(2) by blast+
  have "tail = [] \<or> hd tail \<in> set ''/?#''" using hd_dropWhile [of P "drop 2 rest"] unfolding tail_def P_def by blast
  then show "su_path u = [] \<or> starts_with (su_path u) ''/''"
    unfolding f body_def by (cases tail) (auto simp: before_def)
qed

lemma lower_char_ascii: "(of_char c :: nat) < 128 \<Longrightarrow> (of_char (py_lower_char c) :: nat) < 128 \<and> py_lower_char (py_lower_char c) = py_lower_char c"
  by (auto simp: py_lower_char_def Let_def)

lemma lower_char_fixed:
  assumes "(of_char d :: nat) < 65 \<or> 90 < (of_char d :: nat) \<and> (of_char d :: nat) < 97" "(of_char c :: nat) < 128"
  shows "py_lower_char c = d \<longleftrightarrow> c = d"
  using assms by (auto simp: py_lower_char_def Let_def)

lemma lower_ascii:
  assumes "ascii s"
  shows "ascii (py_lower s)" "py_lower (py_lower s) = py_lower s"
  using assms by (auto simp: ascii_def py_lower_def list_all_iff lower_char_ascii)

lemma lower_member:
  assumes "ascii s" "(of_char d :: nat) < 65 \<or> 90 < (of_char d :: nat) \<and> (of_char d :: nat) < 97"
  shows "d \<in> set (py_lower s) \<longleftrightarrow> d \<in> set s"
proof -
  have "py_lower_char c = d \<longleftrightarrow> c = d" if "c \<in> set s" for c
    using that assms(1) lower_char_fixed [OF assms(2)] by (simp add: ascii_def list_all_iff)
  then show ?thesis unfolding py_lower_def set_map image_iff by metis
qed

lemma split_on_lower: "ascii s \<Longrightarrow> split_on CHR ''.'' (py_lower s) = List.map py_lower (split_on CHR ''.'' s)"
proof (induction s)
  case (Cons c s)
  have "py_lower_char c = CHR ''.'' \<longleftrightarrow> c = CHR ''.''" using Cons.prems by (intro lower_char_fixed) (simp_all add: ascii_def)
  then show ?case using Cons by (auto simp: py_lower_def ascii_def split: list.splits)
qed (simp add: py_lower_def)

lemma idna_lower:
  assumes "ascii s" "idna U s = Inr h"
  shows "h = s" "idna U (py_lower s) = Inr (py_lower s)"
proof -
  let ?ls = "split_on CHR ''.'' s"
  have ls: "?ls \<noteq> []" by (rule split_on_ne)
  have ok: "list_all (\<lambda>l. l \<noteq> [] \<and> length l < 64) (butlast ?ls)" "length (last ?ls) < 64" "h = s"
    using assms(2) unfolding idna_def Let_def if_P [OF assms(1)] check_Inr by blast+
  then show "h = s" by simp
  have "list_all (\<lambda>l. l \<noteq> [] \<and> length l < 64) (butlast (List.map py_lower ?ls))" "length (last (List.map py_lower ?ls)) < 64"
    using ok ls by (simp_all add: list_all_iff last_map py_lower_def flip: map_butlast)
  then show "idna U (py_lower s) = Inr (py_lower s)"
    using lower_ascii(1) [OF assms(1)] unfolding idna_def Let_def split_on_lower [OF assms(1)] by simp
qed

lemma hostinfo_plain: "CHR ''@'' \<notin> set nl \<Longrightarrow> CHR ''['' \<notin> set nl \<Longrightarrow> hostinfo nl = (before CHR '':'' nl, behind CHR '':'' nl)"
proof -
  assume "CHR ''@'' \<notin> set nl" "CHR ''['' \<notin> set nl"
  moreover from this(1) have "rev (takeWhile (\<lambda>x. x \<noteq> CHR ''@'') (rev nl)) = nl"
    using takeWhile_eq_all_conv [of "\<lambda>x. x \<noteq> CHR ''@''" "rev nl"] by (metis rev_rev_ident set_rev)
  ultimately show ?thesis by (simp only: hostinfo_def Let_def if_False)
qed

lemma lower_hostname: "ascii h \<Longrightarrow> py_lower (before CHR ''%'' h) @ dropWhile (\<lambda>x. x \<noteq> CHR ''%'') h = h' \<Longrightarrow> py_lower h' = py_lower h"
proof -
  assume a: "ascii h" "py_lower (before CHR ''%'' h) @ dropWhile (\<lambda>x. x \<noteq> CHR ''%'') h = h'"
  have "ascii (before CHR ''%'' h)" using a(1) before_subset(1) unfolding ascii_def list_all_iff by blast
  then have "py_lower (py_lower (before CHR ''%'' h)) = py_lower (before CHR ''%'' h)" by (rule lower_ascii)
  moreover have "h = before CHR ''%'' h @ dropWhile (\<lambda>x. x \<noteq> CHR ''%'') h" by (simp add: before_def)
  ultimately show "py_lower h' = py_lower h" using a(2) unfolding py_lower_def by (metis map_append)
qed

lemma lowered_hostname: "py_lower h = h \<Longrightarrow> py_lower (before CHR ''%'' h) @ dropWhile (\<lambda>x. x \<noteq> CHR ''%'') h = h"
proof -
  assume l: "py_lower h = h"
  have "py_lower_char c = c" if "c \<in> set h" for c using that l by (metis in_set_conv_nth nth_map py_lower_def length_map)
  then have "py_lower (before CHR ''%'' h) = before CHR ''%'' h" using before_subset(1) [of "CHR ''%''" h] by (simp add: py_lower_def map_idI subset_iff)
  then show ?thesis by (simp add: before_def)
qed

definition url_fields :: "string \<Rightarrow> string \<Rightarrow> nat option \<Rightarrow> string \<Rightarrow> string \<Rightarrow> bool" where
  "url_fields s h port path q \<longleftrightarrow> (s = ''http'' \<or> s = ''https'') \<and>
     h \<noteq> [] \<and> ascii h \<and> py_lower h = h \<and> (\<forall>c \<in> set h. c \<notin> set ''/?#[]@:'') \<and> quiet h \<and>
     (case port of None \<Rightarrow> True | Some n \<Rightarrow> n \<le> 65535) \<and>
     starts_with path ''/'' \<and> CHR ''?'' \<notin> set path \<and> CHR ''#'' \<notin> set path \<and> quiet path \<and> CHR ''#'' \<notin> set q \<and> quiet q"

lemma dec_plain: "c \<in> set (dec_digits n) \<Longrightarrow> (of_char c :: nat) < 128 \<and> c \<notin> set ''/?#[]@:'' \<and> (of_char c :: nat) \<notin> {9, 10, 13} \<and> digit_value c \<noteq> None"
  using dec_digits_chars [of c n] by (auto simp: digit_value_def Let_def)

lemma port_roundtrip: "port = Some n \<Longrightarrow> n \<le> 65535 \<Longrightarrow> dec_digits n \<noteq> [] \<and> dec_value (dec_digits n) = n \<and> list_all (\<lambda>c. digit_value c \<noteq> None) (dec_digits n)"
  using dec_digits_value [of n] dec_plain [of _ n] by (auto simp: dec_value_def list_all_iff dec_digits.simps [of n])

text \<open>A URL put together from its fields is its own canonical form.\<close>

lemma canonical_text:
  assumes f: "url_fields s h port path q" and i: "idna U h = Inr h" and cp: "clean_path path = path"
    and c: "c = s @ ''://'' @ netloc_of s h port @ path @ (if q = [] then [] else ''?'' @ q)" and strip: "py_strip c = c"
  shows "canonicalize_source_entrypoint U c = Inr c"
proof -
  let ?nl = "netloc_of s h port"
  have s: "s = ''http'' \<or> s = ''https''" and h: "h \<noteq> []" "ascii h" "py_lower h = h" "\<forall>c \<in> set h. c \<notin> set ''/?#[]@:''" "quiet h"
    and path: "starts_with path ''/''" "CHR ''?'' \<notin> set path" "CHR ''#'' \<notin> set path" and q: "CHR ''#'' \<notin> set q"
    and qt: "quiet path" "quiet q" and pn: "\<And>n. port = Some n \<Longrightarrow> n \<le> 65535"
    using f unfolding url_fields_def by (auto split: option.splits)
  have colon: "CHR '':'' \<notin> set h" using h(4) by auto
  define shown where "shown = (case port of None \<Rightarrow> None | Some n \<Rightarrow> if (s = ''http'' \<and> n = 80) \<or> (s = ''https'' \<and> n = 443) then None else Some n)"
  have nl: "?nl = h @ (case shown of None \<Rightarrow> [] | Some n \<Rightarrow> CHR '':'' # dec_digits n)"
    using colon by (auto simp: netloc_of_def shown_def split: option.split)
  have chars: "(of_char x :: nat) < 128 \<and> x \<notin> set ''/?#[]@'' \<and> (of_char x :: nat) \<notin> {9, 10, 13}" if "x \<in> set ?nl" for x
  proof -
    have "x \<in> set h \<or> x = CHR '':'' \<or> (\<exists>n. x \<in> set (dec_digits n))" using that unfolding nl by (cases shown) auto
    then consider "x \<in> set h" | "x = CHR '':''" | n where "x \<in> set (dec_digits n)" by blast
    then show ?thesis
    proof cases
      case 1
      moreover have "set ''/?#[]@'' \<subseteq> set ''/?#[]@:''" by simp
      ultimately show ?thesis using h(2,4,5) unfolding ascii_def quiet_def list_all_iff by blast
    next
      case 2
      then show ?thesis by simp
    next
      case 3
      moreover have "set ''/?#[]@'' \<subseteq> set ''/?#[]@:''" by simp
      ultimately show ?thesis using dec_plain by blast
    qed
  qed
  then have pa: "plain_authority ?nl" and qn: "quiet ?nl" unfolding plain_authority_def quiet_def ascii_def list_all_iff by blast+
  have u: "urlsplit U c = Inr \<lparr>su_scheme = s, su_netloc = ?nl, su_path = path, su_query = q\<rparr>"
    unfolding c by (rule urlsplit_text [OF s pa path q qn qt])
  have at: "CHR ''@'' \<notin> set ?nl" "CHR ''['' \<notin> set ?nl" using chars by auto
  have hi: "hostinfo ?nl = (h, case shown of None \<Rightarrow> [] | Some n \<Rightarrow> dec_digits n)"
    unfolding hostinfo_plain [OF at] unfolding nl using before_append [OF colon] by (simp split: option.split)
  have host: "url_hostname \<lparr>su_scheme = s, su_netloc = ?nl, su_path = path, su_query = q\<rparr> = h"
    using lowered_hostname [OF h(3)] by (simp add: url_hostname_def hi Let_def)
  have port: "url_port \<lparr>su_scheme = s, su_netloc = ?nl, su_path = path, su_query = q\<rparr> = Inr shown"
  proof (cases shown)
    case None
    then show ?thesis by (simp add: url_port_def hi)
  next
    case (Some n)
    then have "n \<le> 65535" using pn by (auto simp: shown_def split: option.splits if_splits)
    then show ?thesis using port_roundtrip [OF Some] Some by (simp add: url_port_def hi Let_def)
  qed
  have again: "netloc_of s h shown = ?nl" by (auto simp: netloc_of_def shown_def Let_def split: option.split)
  have ne: "path \<noteq> []" using path(1) by auto
  have ls: "py_lower s = s" using s by (auto simp: py_lower_def py_lower_char_def)
  have "\<not> blank c"
  proof -
    have "c \<noteq> []" using s unfolding c by auto
    then show ?thesis using strip by (simp add: blank_def)
  qed
  then show ?thesis
    unfolding canonicalize_source_entrypoint_def strip u bindr_simps Let_def split_url.simps ls host port i h(3) again
    using s at(1) h(1) ne cp c by auto
qed

text \<open>
  C33: a canonical source URL is a fixed point. For an ASCII URL without a bracketed address, the
  canonical form is canonical again, so the key of a stored candidate is the key of its URL, unless the
  canonical form ends in white space that \<open>strip\<close> removes.
\<close>

theorem canonical_url_stable:
  assumes "canonicalize_source_entrypoint U v = Inr c" "ascii v" "CHR ''['' \<notin> set v" "py_strip c = c"
  shows "canonicalize_source_entrypoint U c = Inr c"
proof -
  let ?w = "py_strip v"
  obtain u h port where u: "urlsplit U ?w = Inr u" and s: "py_lower (su_scheme u) = ''http'' \<or> py_lower (su_scheme u) = ''https''"
    and at: "CHR ''@'' \<notin> set (su_netloc u)" and hn: "url_hostname u \<noteq> []" and i: "idna U (url_hostname u) = Inr h"
    and p: "url_port u = Inr port" and c: "c = py_lower (su_scheme u) @ ''://'' @ netloc_of (py_lower (su_scheme u)) (py_lower h) port @
      clean_path (if su_path u = [] then ''/'' else su_path u) @ (if su_query u = [] then [] else ''?'' @ su_query u)"
    using assms(1) unfolding canonicalize_source_entrypoint_def Let_def by (auto split: if_splits)
  have w: "set ?w \<subseteq> set v" unfolding py_strip_def using set_dropWhileD by (metis set_rev subsetI)
  have wa: "ascii ?w" "CHR ''['' \<notin> set ?w" using w assms(2,3) unfolding ascii_def list_all_iff by blast+
  have nl: "su_netloc u \<noteq> []"
  proof
    assume "su_netloc u = []"
    then show False using hn by (simp add: url_hostname_def hostinfo_def before_def py_lower_def)
  qed
  note parts = urlsplit_parts [OF u wa nl]
  let ?host = "before CHR '':'' (su_netloc u)"
  have hi: "hostinfo (su_netloc u) = (?host, behind CHR '':'' (su_netloc u))" by (rule hostinfo_plain [OF at parts(3)])
  have hs: "set ?host \<subseteq> set (su_netloc u)" by (rule before_subset)
  have ha: "ascii ?host" using hs parts(1) unfolding ascii_def list_all_iff by blast
  have uh: "url_hostname u = py_lower (before CHR ''%'' ?host) @ dropWhile (\<lambda>x. x \<noteq> CHR ''%'') ?host"
    by (simp add: url_hostname_def hi Let_def)
  have low: "py_lower (url_hostname u) = py_lower ?host" by (rule lower_hostname [OF ha uh [symmetric]])
  have uha: "ascii (url_hostname u)"
  proof -
    have "ascii (before CHR ''%'' ?host)" using ha before_subset(1) unfolding ascii_def list_all_iff by blast
    then have "ascii (py_lower (before CHR ''%'' ?host))" by (rule lower_ascii)
    moreover have "ascii (dropWhile (\<lambda>x. x \<noteq> CHR ''%'') ?host)" using ha unfolding ascii_def list_all_iff by (blast dest: set_dropWhileD)
    ultimately show ?thesis unfolding uh by (simp only: ascii_def list_all_append)
  qed
  have hh: "h = url_hostname u" "idna U (py_lower ?host) = Inr (py_lower ?host)" using idna_lower [OF uha i] low by simp_all
  have fixed: "x \<in> set (py_lower ?host) \<longleftrightarrow> x \<in> set ?host" if "(of_char x :: nat) < 65 \<or> 90 < (of_char x :: nat) \<and> (of_char x :: nat) < 97" for x
    by (rule lower_member [OF ha that])
  have hc: "x \<notin> set ?host" if "x \<in> set ''/?#[]@:''" for x
  proof -
    have "x \<in> set ''/?#'' \<or> x = CHR ''['' \<or> x = CHR '']'' \<or> x = CHR ''@'' \<or> x = CHR '':''" using that by auto
    then show ?thesis using hs parts(2-4) at before_subset(3) [of "CHR '':''" "su_netloc u"] by blast
  qed
  have lh: "\<forall>x \<in> set (py_lower ?host). x \<notin> set ''/?#[]@:''"
  proof (intro ballI notI)
    fix x assume x: "x \<in> set (py_lower ?host)" "x \<in> set ''/?#[]@:''"
    have "(of_char x :: nat) < 65 \<or> 90 < (of_char x :: nat) \<and> (of_char x :: nat) < 97" using x(2) by auto
    then show False using fixed x hc by blast
  qed
  have lq: "quiet (py_lower ?host)"
  proof -
    have qh: "quiet ?host" using parts(5) hs unfolding quiet_def by blast
    show ?thesis unfolding quiet_def
    proof (intro ballI notI)
      fix x assume x: "x \<in> set (py_lower ?host)" "(of_char x :: nat) \<in> {9, 10, 13}"
      then have "(of_char x :: nat) < 65" by auto
      then have "x \<in> set ?host" using fixed x(1) by blast
      then show False using qh x(2) unfolding quiet_def by blast
    qed
  qed
  have path: "starts_with (if su_path u = [] then ''/'' else su_path u) ''/''" using parts(8) by auto
  let ?p = "clean_path (if su_path u = [] then ''/'' else su_path u)"
  have pc: "set ?p \<subseteq> insert CHR ''/'' (set (su_path u))" "starts_with ?p ''/''" using clean_path_chars [OF path] by (auto split: if_splits)
  have pq: "quiet ?p" using pc(1) parts(6) unfolding quiet_def by auto
  have pp: "CHR ''?'' \<notin> set ?p" "CHR ''#'' \<notin> set ?p" using pc(1) parts(9,10) by auto
  have ne: "py_lower ?host \<noteq> []" using hn low by (auto simp: py_lower_def)
  have po: "case port of None \<Rightarrow> True | Some n \<Rightarrow> n \<le> 65535" using p by (auto simp: url_port_def Let_def split: if_splits option.split)
  have "url_fields (py_lower (su_scheme u)) (py_lower ?host) port ?p (su_query u)"
    unfolding url_fields_def using s ne lower_ascii [OF ha] lh lq po pc(2) pp pq parts(7,11) by blast
  then show ?thesis
    by (rule canonical_text [OF _ hh(2) clean_path_stable [OF path] _ assms(4)]) (simp add: c hh(1) low)
qed

theorem canonical_url_stable_witness:
  "canonicalize_source_entrypoint plain_library ''http://H/../b/#y'' = Inr ''http://h/b/'' \<and>
   canonicalize_source_entrypoint plain_library ''http://h/b/'' = Inr ''http://h/b/''"
proof
  show c: "canonicalize_source_entrypoint plain_library ''http://H/../b/#y'' = Inr ''http://h/b/''" by code_simp
  have "ascii ''http://H/../b/#y''" "CHR ''['' \<notin> set ''http://H/../b/#y''" "py_strip ''http://h/b/'' = ''http://h/b/''"
    by code_simp+
  from canonical_url_stable [OF c this] show "canonicalize_source_entrypoint plain_library ''http://h/b/'' = Inr ''http://h/b/''" .
qed

text \<open>The exception is real: a fragment hides a space that the next call strips.\<close>

theorem canonical_url_unstable:
  "canonicalize_source_entrypoint plain_library ''http://h/ #'' = Inr ''http://h/ '' \<and>
   canonicalize_source_entrypoint plain_library ''http://h/ '' = Inr ''http://h/''"
proof
  show "canonicalize_source_entrypoint plain_library ''http://h/ #'' = Inr ''http://h/ ''" by code_simp
  show "canonicalize_source_entrypoint plain_library ''http://h/ '' = Inr ''http://h/''" by code_simp
qed

end
