(* ===== verification/Source_Models.thy ===== *)
theory Source_Models
  imports Source_Url
begin

text \<open>
  The values of source discovery (\<open>source_discovery/models.py\<close>): candidates, scout measurements, search
  episodes and their derived scores, each with the check of its constructor.  \<open>math.log1p\<close> is an argument
  of the one score that uses it.
\<close>

section \<open>Enumerations\<close>

datatype source_level = L_SOURCE | L_COLLECTION | L_METASOURCE

datatype source_state = S_DISCOVERED | S_TRIAGED | S_SCOUT_READY | S_SCOUTING | S_WARM | S_ACTIVATING | S_ACTIVE | S_HOLD
  | S_REJECTED | S_EXHAUSTED

datatype suppression_scope = BY_SOURCE | BY_FAMILY | BY_ORIGIN

datatype measurement_mode = HOST_ONLY | HOST_YEAR

fun contains :: "string \<Rightarrow> string \<Rightarrow> bool" where
  "contains p [] = (p = [])"
| "contains p (c # cs) = (starts_with (c # cs) p \<or> contains p cs)"

definition ends_with :: "string \<Rightarrow> string \<Rightarrow> bool" where
  "ends_with s p = starts_with (rev s) (rev p)"

definition alphanumeric :: "char \<Rightarrow> bool" where
  "alphanumeric c = (let n = (of_char c :: nat) in (97 \<le> n \<and> n \<le> 122) \<or> (48 \<le> n \<and> n \<le> 57))"

definition is_common_crawl_provenance :: "string list \<Rightarrow> bool" where
  "is_common_crawl_provenance values = contains ''commoncrawl'' (filter alphanumeric (py_lower (join_with CHR '' '' values)))"

section \<open>Candidates\<close>

record source_candidate =
  sc_entrypoint :: string
  sc_family :: string
  sc_level :: source_level
  sc_discovered_by :: string
  sc_strategy :: string
  sc_year_from :: "int option"
  sc_year_to :: "int option"
  sc_volume :: "int option"
  sc_temporal_prior :: rat
  sc_enumerability_prior :: rat
  sc_direct_prior :: rat
  sc_overlap_prior :: rat
  sc_access_cost :: rat
  sc_adapter_cost :: rat
  sc_confidence :: rat
  sc_state :: source_state
  sc_reason :: string
  sc_retry_at :: "time option"
  sc_attempts :: int

definition unit_interval :: "rat \<Rightarrow> bool" where "unit_interval q = (0 \<le> q \<and> q \<le> 1)"

definition source_candidate_init :: "url_library \<Rightarrow> source_candidate \<Rightarrow> py_error + source_candidate" where
  "source_candidate_init U c =
     bindr (canonicalize_source_entrypoint U (sc_entrypoint c)) (\<lambda>url.
     check (case sc_retry_at c of None \<Rightarrow> True | Some t \<Rightarrow> 0 \<le> t) ValueError (
     check (0 \<le> sc_attempts c) ValueError (
     check (\<not> blank (sc_family c)) ValueError (
     check (\<not> blank (sc_discovered_by c) \<and> \<not> blank (sc_strategy c)) ValueError (
     check ((sc_year_from c = None) = (sc_year_to c = None)) ValueError (
     check (case (sc_year_from c, sc_year_to c) of (Some a, Some b) \<Rightarrow> a \<le> b | _ \<Rightarrow> True) ValueError (
     check (case sc_volume c of None \<Rightarrow> True | Some n \<Rightarrow> 0 \<le> n) ValueError (
     check (list_all unit_interval [sc_temporal_prior c, sc_enumerability_prior c, sc_direct_prior c, sc_overlap_prior c, sc_confidence c]) ValueError (
     check (0 \<le> sc_access_cost c \<and> 0 \<le> sc_adapter_cost c) ValueError (
     Inr (c\<lparr>sc_entrypoint := url\<rparr>)))))))))))"

definition candidate_key :: "url_library \<Rightarrow> codec \<Rightarrow> source_candidate \<Rightarrow> py_error + string" where
  "candidate_key U E c = source_key U E (sc_entrypoint c)"

definition candidate_origin :: "url_library \<Rightarrow> source_candidate \<Rightarrow> py_error + string" where
  "candidate_origin U c = source_origin U (sc_entrypoint c)"

fun level_multiplier :: "source_level \<Rightarrow> rat" where
  "level_multiplier L_SOURCE = 1"
| "level_multiplier L_COLLECTION = 5 / 4"
| "level_multiplier L_METASOURCE = 8 / 5"

definition scout_priority :: "(rat \<Rightarrow> rat) \<Rightarrow> source_candidate \<Rightarrow> rat" where
  "scout_priority log1p c =
     (let direct = sc_direct_prior c;
          hint = (case sc_volume c of Some n \<Rightarrow> Some n | None \<Rightarrow> if 1 / 2 \<le> direct then Some 100000 else None);
          volume = log1p (of_int (max 1 (case hint of None \<Rightarrow> 1 | Some n \<Rightarrow> if n = 0 then 1 else n)));
          novelty = max (1 / 100) (1 - sc_overlap_prior c);
          quality = (1 + sc_temporal_prior c + sc_enumerability_prior c + direct) / 4;
          cost = max (1 / 10) (1 + sc_access_cost c + sc_adapter_cost c)
      in level_multiplier (sc_level c) * volume * novelty * quality * (1 + 4 * direct) * max (1 / 20) (sc_confidence c) / cost)"

text \<open>\<open>sources/locator.py\<close>: the path segment that names the artifact.\<close>

definition rpartition :: "char \<Rightarrow> string \<Rightarrow> string \<times> bool \<times> string" where
  "rpartition c s = (if c \<in> set s
     then (rev (tl (dropWhile (\<lambda>x. x \<noteq> c) (rev s))), True, rev (takeWhile (\<lambda>x. x \<noteq> c) (rev s))) else ([], False, s))"

definition rstrip_slash :: "string \<Rightarrow> string" where
  "rstrip_slash s = rev (dropWhile (\<lambda>x. x = CHR ''/'') (rev s))"

definition format_path_from_locator :: "url_library \<Rightarrow> string \<Rightarrow> py_error + string" where
  "format_path_from_locator U value =
     check (\<not> blank value) ValueError (
     bindr (urlsplit U (py_strip value)) (\<lambda>u.
     let path = py_lower (su_path u); (head, separator, tail) = rpartition CHR ''/'' (rstrip_slash path)
     in if separator \<and> tail \<in> set [''content'', ''download'']
        then (case rpartition CHR ''/'' head of (_, parent, candidate) \<Rightarrow> if parent \<and> CHR ''.'' \<in> set candidate then Inr head else Inr path)
        else Inr path))"

definition is_direct_evidence_entrypoint :: "url_library \<Rightarrow> string \<Rightarrow> bool" where
  "is_direct_evidence_entrypoint U value =
     (case bindr (canonicalize_source_entrypoint U value) (format_path_from_locator U) of
        Inl _ \<Rightarrow> False
      | Inr path \<Rightarrow> list_ex (ends_with path) [''.cdx'', ''.cdx.gz'', ''.cdxj'', ''.cdxj.gz''])"

definition is_background_bulk_candidate :: "url_library \<Rightarrow> source_candidate \<Rightarrow> py_error + bool" where
  "is_background_bulk_candidate U c =
     (if is_direct_evidence_entrypoint U (sc_entrypoint c) then Inr True
      else bindr (urlsplit U (sc_entrypoint c)) (\<lambda>u.
        Inr (url_hostname u = ''arquivo.pt'' \<and> starts_with (rstrip_slash (py_lower (su_path u)) @ ''/'') ''/datasets/cdxj/'')))"

section \<open>Measurements\<close>

record scout_measurement =
  sm_sampled_records :: int
  sm_unique_hosts :: int
  sm_novel_hosts :: int
  sm_direct_host_years :: int
  sm_requests :: int
  sm_bytes_read :: int
  sm_elapsed_seconds :: rat
  sm_novel_eed :: rat
  sm_mode :: measurement_mode
  sm_observed_pairs :: int
  sm_novel_pairs :: int
  sm_novel_pair_eed :: rat
  sm_singletons :: int
  sm_doubletons :: int
  sm_unseen_fraction :: rat
  sm_minhash :: "int list"

definition scout_measurement_init :: "scout_measurement \<Rightarrow> py_error + scout_measurement" where
  "scout_measurement_init m =
     check (list_all (\<lambda>n. 0 \<le> n) [sm_sampled_records m, sm_unique_hosts m, sm_novel_hosts m, sm_direct_host_years m, sm_requests m,
       sm_bytes_read m, sm_observed_pairs m, sm_novel_pairs m, sm_singletons m, sm_doubletons m]) ValueError (
     check (sm_novel_hosts m \<le> sm_unique_hosts m) ValueError (
     check (sm_novel_pairs m \<le> sm_observed_pairs m) ValueError (
     check (list_all (\<lambda>q. 0 \<le> q) [sm_elapsed_seconds m, sm_novel_eed m, sm_novel_pair_eed m]) ValueError (
     check (unit_interval (sm_unseen_fraction m)) ValueError (
     check (list_all (\<lambda>n. 0 \<le> n) (sm_minhash m)) ValueError (Inr m))))))"

definition observed_count :: "scout_measurement \<Rightarrow> int" where
  "observed_count m = (case sm_mode m of HOST_YEAR \<Rightarrow> sm_observed_pairs m | HOST_ONLY \<Rightarrow> sm_unique_hosts m)"

definition novel_count :: "scout_measurement \<Rightarrow> int" where
  "novel_count m = (case sm_mode m of HOST_YEAR \<Rightarrow> sm_novel_pairs m | HOST_ONLY \<Rightarrow> sm_novel_hosts m)"

definition measured_baseline_overlap :: "scout_measurement \<Rightarrow> rat" where
  "measured_baseline_overlap m = (if observed_count m = 0 then 1 else 1 - of_int (novel_count m) / of_int (observed_count m))"

definition novel_eed_for_ranking :: "scout_measurement \<Rightarrow> rat" where
  "novel_eed_for_ranking m = (case sm_mode m of HOST_YEAR \<Rightarrow> sm_novel_pair_eed m | HOST_ONLY \<Rightarrow> sm_novel_eed m)"

definition novel_eed_per_second :: "scout_measurement \<Rightarrow> rat" where
  "novel_eed_per_second m = (if sm_elapsed_seconds m \<le> 0 then 0 else novel_eed_for_ranking m / sm_elapsed_seconds m)"

definition residual_opportunity :: "scout_measurement \<Rightarrow> rat" where
  "residual_opportunity m = sm_unseen_fraction m * of_int (max 1 (observed_count m))"

section \<open>Search episodes\<close>

record search_episode =
  se_id :: string
  se_strategy :: string
  se_backend :: string
  se_query :: string
  se_actor :: string
  se_started_at :: time
  se_finished_at :: "time option"
  se_cost :: rat
  se_accepted_eed :: rat

definition search_episode_init :: "search_episode \<Rightarrow> py_error + search_episode" where
  "search_episode_init e =
     check (list_all (\<lambda>s. \<not> blank s) [se_id e, se_strategy e, se_backend e, se_query e, se_actor e]) ValueError (
     check (list_all (\<lambda>q. 0 \<le> q) [se_started_at e, se_cost e, se_accepted_eed e]) ValueError (
     check (case se_finished_at e of None \<Rightarrow> True | Some t \<Rightarrow> se_started_at e \<le> t) ValueError (Inr e)))"

definition reward_per_cost :: "rat \<Rightarrow> rat \<Rightarrow> rat" where
  "reward_per_cost reward cost = (if cost \<le> 0 then 0 else reward / cost)"

record strategy_reward =
  sr_strategy :: string
  sr_episodes :: int
  sr_accepted_eed :: rat
  sr_cost :: rat

definition strategy_reward_init :: "strategy_reward \<Rightarrow> py_error + strategy_reward" where
  "strategy_reward_init r =
     check (\<not> blank (sr_strategy r)) ValueError (
     check (0 \<le> sr_episodes r) ValueError (
     check (0 \<le> sr_accepted_eed r \<and> 0 \<le> sr_cost r) ValueError (Inr r)))"

end
