(* ===== verification/Source_Bindings.thy ===== *)
theory Source_Bindings
  imports Prelude
begin

text \<open>
  Durable parser observations (\<open>sources/format_binding.py\<close>, \<open>layout_binding.py\<close>, \<open>schema_binding.py\<close>):
  the three values with the normalization and the checks of their constructors.
\<close>

record format_observation =
  fb_parser_kind :: string
  fb_compression :: string
  fb_detection_method :: string
  fb_confidence :: rat
  fb_content_type :: string
  fb_delimiter :: "string option"
  fb_policy_version :: string

definition supported_parser_kinds :: "string list" where
  "supported_parser_kinds = [''cdx'', ''cdxj'', ''jsonl'', ''delimited'', ''lines'', ''mbox_urls'', ''squid_access'', ''dmoz_rdf_urls'',
     ''ftp_sitelist_zip'', ''sbi_bbs_zip'', ''finnish_bbs_zip'', ''warc_arc'']"

definition delimiters :: "string list" where
  "delimiters = ['','', [CHR 0x09], '';'', ''|'']"

definition lowered :: "string \<Rightarrow> string" where "lowered s = py_lower (py_strip s)"

definition confidence_ok :: "rat \<Rightarrow> bool" where "confidence_ok q = (0 \<le> q \<and> q \<le> 1)"

definition format_observation_init :: "format_observation \<Rightarrow> py_error + format_observation" where
  "format_observation_init f =
     (let kind = lowered (fb_parser_kind f); compression = lowered (fb_compression f); detection = lowered (fb_detection_method f);
          policy = py_strip (fb_policy_version f)
      in check (kind \<in> set supported_parser_kinds) ValueError (
         check (compression \<in> set [''none'', ''gzip'']) ValueError (
         check (detection \<noteq> []) ValueError (
         check (case fb_delimiter f of None \<Rightarrow> True | Some d \<Rightarrow> kind = ''delimited'' \<and> d \<in> set delimiters) ValueError (
         check (confidence_ok (fb_confidence f)) ValueError (
         check (policy \<noteq> []) ValueError (
         Inr (f\<lparr>fb_parser_kind := kind, fb_compression := compression, fb_detection_method := detection,
           fb_content_type := lowered (fb_content_type f), fb_policy_version := policy\<rparr>))))))))"

record record_layout =
  lb_parser_kind :: string
  lb_hostname_field :: string
  lb_delimiter :: "string option"
  lb_detection_method :: string
  lb_confidence :: rat
  lb_sample_records :: int
  lb_matched_records :: int
  lb_policy_version :: string

definition given_delimiter :: "string option \<Rightarrow> bool" where
  "given_delimiter d = (case d of None \<Rightarrow> False | Some x \<Rightarrow> x \<in> set delimiters)"

definition column_index_ok :: "string \<Rightarrow> bool" where
  "column_index_ok field =
     (let s = py_lower field; n = (if starts_with s ''column:'' then drop 7 s else s)
      in py_isdigit n \<and> (case py_int n of None \<Rightarrow> False | Some i \<Rightarrow> i \<le> 255))"

definition record_layout_init :: "record_layout \<Rightarrow> py_error + record_layout" where
  "record_layout_init l =
     (let kind = lowered (lb_parser_kind l); field = py_strip (lb_hostname_field l); detection = lowered (lb_detection_method l);
          policy = py_strip (lb_policy_version l)
      in check (kind \<in> set [''jsonl'', ''delimited'']) ValueError (
         check (field \<noteq> []) ValueError (
         check (detection \<noteq> [] \<and> policy \<noteq> []) ValueError (
         check (if kind = ''delimited'' then given_delimiter (lb_delimiter l) \<and> column_index_ok field else lb_delimiter l = None) ValueError (
         check (confidence_ok (lb_confidence l)) ValueError (
         check (1 \<le> lb_sample_records l \<and> 1 \<le> lb_matched_records l) ValueError (
         check (lb_matched_records l \<le> lb_sample_records l) ValueError (
         Inr (l\<lparr>lb_parser_kind := kind, lb_hostname_field := field, lb_detection_method := detection, lb_policy_version := policy\<rparr>)))))))))"

record record_schema =
  sb_parser_kind :: string
  sb_hostname_field :: string
  sb_timestamp_field :: string
  sb_delimiter :: "string option"
  sb_detection_method :: string
  sb_confidence :: rat
  sb_sample_records :: int
  sb_matched_records :: int
  sb_direct_year_eligible :: bool
  sb_policy_version :: string

definition record_schema_init :: "record_schema \<Rightarrow> py_error + record_schema" where
  "record_schema_init s =
     (let kind = lowered (sb_parser_kind s); host = py_strip (sb_hostname_field s); stamp = py_strip (sb_timestamp_field s);
          detection = lowered (sb_detection_method s); policy = py_strip (sb_policy_version s)
      in check (kind \<in> set [''jsonl'', ''delimited'']) ValueError (
         check (host \<noteq> [] \<and> stamp \<noteq> []) ValueError (
         check (detection \<noteq> [] \<and> policy \<noteq> []) ValueError (
         check (if kind = ''delimited'' then given_delimiter (sb_delimiter s) else sb_delimiter s = None) ValueError (
         check (confidence_ok (sb_confidence s)) ValueError (
         check (1 \<le> sb_sample_records s \<and> 1 \<le> sb_matched_records s) ValueError (
         check (sb_matched_records s \<le> sb_sample_records s) ValueError (
         Inr (s\<lparr>sb_parser_kind := kind, sb_hostname_field := host, sb_timestamp_field := stamp, sb_detection_method := detection,
           sb_policy_version := policy\<rparr>)))))))))"

end
