(* ===== verification/Source_Registry.thy ===== *)
theory Source_Registry
  imports Source_Models Source_Bindings Tables Transactions Control_Tables
begin

text \<open>
  The durable registry of source discovery (\<open>source_discovery/registry.py\<close>): its tables, the authority
  of scouting, search and LLM episodes and the attribution of rewards to them.  A method is an action of
  \<open>Transactions\<close>; readings of the clock and fresh identifiers are arguments.  A stored sketch is the list of
  its integers; its JSON text and the width beside it are not modelled.
\<close>

section \<open>Tables\<close>

record candidate_row = source_candidate +
  cr_key :: string
  cr_created_at :: time
  cr_updated_at :: time

record episode_row = search_episode +
  ep_accepted_proposals :: int
  ep_new_sources :: int

record llm_episode =
  le_id :: string
  le_task_type :: string
  le_backend :: string
  le_actor :: string
  le_context_hash :: string
  le_prompt_version :: string
  le_started_at :: time
  le_finished_at :: "time option"
  le_cost :: rat

record llm_hypothesis =
  lh_id :: string
  lh_episode :: string
  lh_action :: string
  lh_confidence :: rat
  lh_raw_json :: string
  lh_created_at :: time

record llm_credit =
  lc_source :: string
  lc_hypothesis :: string
  lc_credited :: rat

record final_reward =
  fr_source :: string
  fr_eed :: rat
  fr_cost :: rat
  fr_baseline :: "string option"
  fr_model :: "string option"
  fr_closed_runs :: int
  fr_zero_runs :: int
  fr_updated_at :: time

record source_run =
  sn_source :: string
  sn_reservoir :: string
  sn_lease :: string
  sn_baseline :: string
  sn_model :: string
  sn_read_started :: "time option"
  sn_read_finished :: "time option"
  sn_records :: int
  sn_bytes :: int
  sn_requests :: int
  sn_tasks_created :: int
  sn_tasks_terminal :: int
  sn_direct_capsules :: int
  sn_provider_requests :: int
  sn_provider_elapsed :: rat
  sn_candidate_duplicates :: int
  sn_baseline_duplicates :: int
  sn_host_years :: int
  sn_eed :: rat
  sn_read_complete :: bool
  sn_validation_complete :: bool
  sn_closed :: bool
  sn_closed_at :: "time option"
  sn_max_sequence :: int
  sn_terminal_state :: "string option"
  sn_terminal_reason :: "string option"
  sn_exposure :: "string option"
  sn_created_at :: time
  sn_updated_at :: time

record proposal =
  pp_id :: string
  pp_episode :: "string option"
  pp_source :: string
  pp_discovered_by :: string
  pp_strategy :: string
  pp_family :: string
  pp_level :: source_level
  pp_confidence :: rat
  pp_created_at :: time

record source_edge =
  eg_parent :: string
  eg_child :: string
  eg_relation :: string
  eg_created_at :: time

record triage_observation =
  tg_status_code :: "int option"
  tg_method :: "string option"
  tg_content_type :: "string option"
  tg_content_length :: "int option"
  tg_range_supported :: "bool option"
  tg_observed_at :: time

record scout_metric =
  mx_source :: string
  mx_measurement :: scout_measurement
  mx_baseline :: "string option"
  mx_model :: "string option"
  mx_measured_at :: time

datatype reward_kind = K_LEGACY | K_SCOUT_PROXY | K_FINAL | K_INVALIDATED_FINAL

record attribution =
  at_source :: string
  at_episode :: string
  at_credited :: rat
  at_kind :: reward_kind
  at_baseline :: "string option"
  at_model :: "string option"

record suppression =
  sp_scope :: suppression_scope
  sp_key :: string
  sp_reason :: string
  sp_created_at :: time
  sp_expires_at :: "time option"

record registry =
  rg_max_hops :: nat
  rg_candidates :: "candidate_row list"
  rg_episodes :: "episode_row list"
  rg_llm_episodes :: "llm_episode list"
  rg_llm_hypotheses :: "llm_hypothesis list"
  rg_llm_credits :: "llm_credit list"
  rg_finals :: "final_reward list"
  rg_runs :: "source_run list"
  rg_sketches :: "(string \<times> int list \<times> time) list"
  rg_proposals :: "proposal list"
  rg_edges :: "source_edge list"
  rg_triage :: "(string \<times> triage_observation) list"
  rg_formats :: "(string \<times> format_observation \<times> time) list"
  rg_layouts :: "(string \<times> record_layout \<times> time) list"
  rg_schemas :: "(string \<times> record_schema \<times> time) list"
  rg_metrics :: "scout_metric list"
  rg_attribution :: "attribution list"
  rg_authority :: "(string \<times> string \<times> time) option"
  rg_suppressions :: "suppression list"

type_synonym 'a registry_action = "(registry, 'a) transactions"

definition empty_registry :: "nat \<Rightarrow> registry" where
  "empty_registry hops = \<lparr>rg_max_hops = hops, rg_candidates = [], rg_episodes = [], rg_llm_episodes = [], rg_llm_hypotheses = [],
     rg_llm_credits = [], rg_finals = [], rg_runs = [], rg_sketches = [], rg_proposals = [], rg_edges = [], rg_triage = [],
     rg_formats = [], rg_layouts = [], rg_schemas = [], rg_metrics = [], rg_attribution = [], rg_authority = None,
     rg_suppressions = []\<rparr>"

text \<open>A read that can raise.\<close>

definition act_query :: "('s \<Rightarrow> py_error + 'a) \<Rightarrow> ('s, 'a) transactions" where "act_query q w = (q w, [])"

definition column :: "string option \<Rightarrow> string" where
  "column v = (case v of None \<Rightarrow> [] | Some s \<Rightarrow> s)"

section \<open>Candidates as stored\<close>

definition candidate_at :: "string \<Rightarrow> registry \<Rightarrow> candidate_row option" where
  "candidate_at key d = tbl_find (\<lambda>r. cr_key r = key) (rg_candidates d)"

definition candidate_from_row :: "url_library \<Rightarrow> candidate_row \<Rightarrow> py_error + source_candidate" where
  "candidate_from_row U r = source_candidate_init U (source_candidate.truncate r)"

definition get_candidate :: "url_library \<Rightarrow> string \<Rightarrow> registry \<Rightarrow> py_error + source_candidate option" where
  "get_candidate U key d = (case candidate_at key d of
     None \<Rightarrow> Inr None | Some r \<Rightarrow> bindr (candidate_from_row U r) (\<lambda>c. Inr (Some c)))"

definition known_source :: "url_library \<Rightarrow> string \<Rightarrow> registry \<Rightarrow> py_error + unit" where
  "known_source U key d = bindr (get_candidate U key d) (\<lambda>c. check (c \<noteq> None) KeyError (Inr ()))"

section \<open>Authority\<close>

definition current_scout_authority :: "registry \<Rightarrow> (string \<times> string) option" where
  "current_scout_authority d = map_option (\<lambda>(b, m, _). (b, m)) (rg_authority d)"

definition is_current_scout_authority :: "string \<Rightarrow> string \<Rightarrow> registry \<Rightarrow> bool" where
  "is_current_scout_authority baseline model d = (current_scout_authority d = Some (baseline, model))"

definition add_credit :: "string \<Rightarrow> rat \<Rightarrow> registry \<Rightarrow> registry" where
  "add_credit episode delta d = d\<lparr>rg_episodes := tbl_update (\<lambda>e. se_id e = episode)
     (\<lambda>e. e\<lparr>se_accepted_eed := max 0 (se_accepted_eed e + delta)\<rparr>) (rg_episodes d)\<rparr>"

definition other_authority :: "string \<times> string \<Rightarrow> string option \<Rightarrow> string option \<Rightarrow> bool" where
  "other_authority auth baseline model = (column baseline \<noteq> fst auth \<or> column model \<noteq> snd auth)"

definition stale_credit :: "string \<times> string \<Rightarrow> registry \<Rightarrow> attribution \<Rightarrow> bool" where
  "stale_credit auth d a =
     ((at_kind a \<in> {K_SCOUT_PROXY, K_FINAL} \<and> other_authority auth (at_baseline a) (at_model a)) \<or>
      (at_kind a = K_LEGACY \<and> tbl_find (\<lambda>f. fr_source f = at_source a) (rg_finals d) = None))"

definition withdraw :: "attribution list \<Rightarrow> string \<Rightarrow> registry \<Rightarrow> registry" where
  "withdraw stale episode d =
     (let credit = sum_list (List.map at_credited (filter (\<lambda>a. at_episode a = episode) stale))
      in if credit \<le> 0 then d else add_credit episode (- credit) d)"

definition install_authority :: "string \<times> string \<Rightarrow> time \<Rightarrow> registry \<Rightarrow> py_error + (bool \<times> registry)" where
  "install_authority auth now d =
     (let stale = filter (stale_credit auth d) (rg_attribution d);
          d1 = fold (withdraw stale) (dedup (List.map at_episode stale)) d
      in check (0 \<le> now) ValueError (Inr (True, d1\<lparr>
           rg_attribution := tbl_update (stale_credit auth d) (\<lambda>a. a\<lparr>at_credited := 0\<rparr>) (rg_attribution d),
           rg_llm_credits := tbl_update (\<lambda>c. list_ex (\<lambda>f. fr_source f = lc_source c \<and> other_authority auth (fr_baseline f) (fr_model f))
             (rg_finals d)) (\<lambda>c. c\<lparr>lc_credited := 0\<rparr>) (rg_llm_credits d),
           rg_authority := Some (fst auth, snd auth, now)\<rparr>)))"

definition set_scout_authority :: "string \<Rightarrow> string \<Rightarrow> time \<Rightarrow> bool registry_action" where
  "set_scout_authority baseline model now =
     (if blank baseline \<or> blank model then act_raise ValueError
      else act_then (act_read current_scout_authority) (\<lambda>persisted.
        if persisted = Some (baseline, model) then act_return False else act_txn (install_authority (baseline, model) now)))"

section \<open>Search episodes\<close>

definition get_search_episode :: "string \<Rightarrow> registry \<Rightarrow> py_error + search_episode option" where
  "get_search_episode i d = (case tbl_find (\<lambda>e. se_id e = i) (rg_episodes d) of
     None \<Rightarrow> Inr None | Some e \<Rightarrow> bindr (search_episode_init (search_episode.truncate e)) (\<lambda>e. Inr (Some e)))"

definition new_episode :: "string \<Rightarrow> string \<Rightarrow> string \<Rightarrow> string \<Rightarrow> string \<Rightarrow> time \<Rightarrow> search_episode" where
  "new_episode i strategy backend query_text actor now = \<lparr>se_id = i, se_strategy = strategy, se_backend = backend, se_query = query_text,
     se_actor = actor, se_started_at = now, se_finished_at = None, se_cost = 0, se_accepted_eed = 0\<rparr>"

definition insert_episode :: "search_episode \<Rightarrow> registry \<Rightarrow> py_error + (unit \<times> registry)" where
  "insert_episode e d = bindr (tbl_insert se_id (search_episode.extend e \<lparr>ep_accepted_proposals = 0, ep_new_sources = 0\<rparr>) (rg_episodes d))
     (\<lambda>rows. Inr ((), d\<lparr>rg_episodes := rows\<rparr>))"

definition begin_search_episode ::
  "string \<Rightarrow> string \<Rightarrow> string \<Rightarrow> string \<Rightarrow> string option \<Rightarrow> string \<Rightarrow> time \<Rightarrow> search_episode registry_action" where
  "begin_search_episode strategy backend query_text actor episode uuid now =
     (let i = (if column episode = [] then uuid else column episode); e = new_episode i strategy backend query_text actor now in
      if list_ex blank [strategy, backend, query_text, actor] \<or> now < 0 then act_raise ValueError
      else act_then (act_txn (insert_episode e)) (\<lambda>_. act_init (search_episode_init e)))"

definition read_episode :: "string \<Rightarrow> search_episode registry_action" where
  "read_episode i = act_query (\<lambda>d. bindr (get_search_episode i d) found)"

definition finish_episode :: "string \<Rightarrow> rat \<Rightarrow> int \<Rightarrow> int \<Rightarrow> time \<Rightarrow> registry \<Rightarrow> py_error + (unit \<times> registry)" where
  "finish_episode i cost proposals sources now d = (case tbl_find (\<lambda>e. se_id e = i) (rg_episodes d) of
     None \<Rightarrow> Inl KeyError
   | Some e \<Rightarrow> check (se_finished_at e = None) StateTransitionError (Inr ((), d\<lparr>rg_episodes := tbl_update (\<lambda>e. se_id e = i)
       (\<lambda>e. e\<lparr>se_finished_at := Some now, se_cost := cost, ep_accepted_proposals := proposals, ep_new_sources := sources\<rparr>)
       (rg_episodes d)\<rparr>)))"

definition finish_search_episode :: "string \<Rightarrow> rat \<Rightarrow> int \<Rightarrow> int \<Rightarrow> time \<Rightarrow> search_episode registry_action" where
  "finish_search_episode i cost proposals sources now =
     (if cost < 0 \<or> proposals < 0 \<or> sources < 0 \<or> proposals < sources \<or> now < 0 then act_raise ValueError
      else act_then (act_txn (finish_episode i cost proposals sources now)) (\<lambda>_. read_episode i))"

definition credit_episode :: "string \<Rightarrow> rat \<Rightarrow> registry \<Rightarrow> py_error + (unit \<times> registry)" where
  "credit_episode i eed d = check (tbl_find (\<lambda>e. se_id e = i) (rg_episodes d) \<noteq> None) KeyError
     (Inr ((), d\<lparr>rg_episodes := tbl_update (\<lambda>e. se_id e = i) (\<lambda>e. e\<lparr>se_accepted_eed := se_accepted_eed e + eed\<rparr>) (rg_episodes d)\<rparr>))"

definition credit_search_episode :: "string \<Rightarrow> rat \<Rightarrow> search_episode registry_action" where
  "credit_search_episode i eed = (if eed < 0 then act_raise ValueError
     else act_then (act_txn (credit_episode i eed)) (\<lambda>_. read_episode i))"

definition strategy_rewards :: "registry \<Rightarrow> py_error + strategy_reward list" where
  "strategy_rewards d =
     (let finished = filter (\<lambda>e. se_finished_at e \<noteq> None) (rg_episodes d)
      in collect (List.map (\<lambda>s. let es = filter (\<lambda>e. se_strategy e = s) finished in
           strategy_reward_init \<lparr>sr_strategy = s, sr_episodes = int (length es), sr_accepted_eed = sum_list (List.map se_accepted_eed es),
             sr_cost = sum_list (List.map se_cost es)\<rparr>) (sort (remdups (List.map se_strategy finished)))))"

section \<open>LLM episodes\<close>

definition begin_llm_episode :: "string \<Rightarrow> string \<Rightarrow> string \<Rightarrow> string \<Rightarrow> string \<Rightarrow> string \<Rightarrow> time \<Rightarrow> unit registry_action" where
  "begin_llm_episode i task_type backend actor context_hash prompt_version now =
     (if list_ex blank [i, task_type, backend, actor, prompt_version] then act_raise ValueError
      else act_txn (\<lambda>d. check (0 \<le> now) ValueError (bindr (tbl_insert le_id \<lparr>le_id = i, le_task_type = task_type, le_backend = backend,
             le_actor = actor, le_context_hash = context_hash, le_prompt_version = prompt_version, le_started_at = now,
             le_finished_at = None, le_cost = 0\<rparr> (rg_llm_episodes d)) (\<lambda>rows. Inr ((), d\<lparr>rg_llm_episodes := rows\<rparr>)))))"

definition finish_llm_episode :: "string \<Rightarrow> rat \<Rightarrow> time \<Rightarrow> unit registry_action" where
  "finish_llm_episode i cost now =
     (if cost < 0 then act_raise ValueError
      else act_txn (\<lambda>d. let open_row = (\<lambda>e. le_id e = i \<and> le_finished_at e = None) in
        check (0 \<le> now) ValueError (check (tbl_find open_row (rg_llm_episodes d) \<noteq> None) KeyError
          (Inr ((), d\<lparr>rg_llm_episodes := tbl_update open_row (\<lambda>e. e\<lparr>le_finished_at := Some now, le_cost := cost\<rparr>)
            (rg_llm_episodes d)\<rparr>)))))"

text \<open>A hypothesis comes with its fields read and its whole text dumped.\<close>

definition register_llm_hypothesis :: "string \<Rightarrow> string \<Rightarrow> string \<Rightarrow> rat \<Rightarrow> string \<Rightarrow> time \<Rightarrow> unit registry_action" where
  "register_llm_hypothesis episode i action confidence raw_json now =
     (if blank i \<or> blank action \<or> \<not> unit_interval confidence then act_raise ValueError
      else act_txn (\<lambda>d. check (0 \<le> now) ValueError (
        check (list_ex (\<lambda>e. le_id e = episode) (rg_llm_episodes d)) IntegrityError (
        bindr (tbl_insert lh_id \<lparr>lh_id = i, lh_episode = episode, lh_action = action, lh_confidence = confidence, lh_raw_json = raw_json,
          lh_created_at = now\<rparr> (rg_llm_hypotheses d)) (\<lambda>rows. Inr ((), d\<lparr>rg_llm_hypotheses := rows\<rparr>))))))"

text \<open>A source is credited to one hypothesis: the unique index makes a second link a no-op.\<close>

definition link_llm_source :: "string \<Rightarrow> string \<Rightarrow> unit registry_action" where
  "link_llm_source source hypothesis =
     act_txn (\<lambda>d. if list_ex (\<lambda>c. lc_source c = source) (rg_llm_credits d) then Inr ((), d)
       else check (candidate_at source d \<noteq> None \<and> list_ex (\<lambda>h. lh_id h = hypothesis) (rg_llm_hypotheses d)) IntegrityError
         (Inr ((), d\<lparr>rg_llm_credits := rg_llm_credits d @ [\<lparr>lc_source = source, lc_hypothesis = hypothesis, lc_credited = 0\<rparr>]\<rparr>)))"

record llm_task_reward =
  lt_task_type :: string
  lt_episodes :: nat
  lt_credited :: rat
  lt_cost :: rat

definition llm_task_rewards :: "registry \<Rightarrow> llm_task_reward list" where
  "llm_task_rewards d =
     (let finished = filter (\<lambda>e. le_finished_at e \<noteq> None) (rg_llm_episodes d)
      in List.map (\<lambda>t. let es = filter (\<lambda>e. le_task_type e = t) finished;
             hs = filter (\<lambda>h. lh_episode h \<in> set (List.map le_id es)) (rg_llm_hypotheses d);
             cs = filter (\<lambda>c. lc_hypothesis c \<in> set (List.map lh_id hs)) (rg_llm_credits d)
           in \<lparr>lt_task_type = t, lt_episodes = length es, lt_credited = sum_list (List.map lc_credited cs),
               lt_cost = sum_list (List.map le_cost es)\<rparr>) (sort (remdups (List.map le_task_type finished))))"

section \<open>Rewards\<close>

record reward =
  re_eed :: rat
  re_kind :: reward_kind
  re_baseline :: "string option"
  re_model :: "string option"

text \<open>A FINAL reward of the current authority supersedes what the caller passes.\<close>

definition effective_reward :: "string \<Rightarrow> reward \<Rightarrow> registry \<Rightarrow> reward" where
  "effective_reward source r d =
     (case tbl_find (\<lambda>f. fr_source f = source \<and> (case current_scout_authority d of None \<Rightarrow> True
            | Some (b, m) \<Rightarrow> fr_baseline f = Some b \<and> fr_model f = Some m)) (rg_finals d) of
        None \<Rightarrow> r
      | Some f \<Rightarrow> \<lparr>re_eed = fr_eed f, re_kind = K_FINAL, re_baseline = fr_baseline f, re_model = fr_model f\<rparr>)"

definition proposal_order :: "proposal \<Rightarrow> rat \<times> string" where
  "proposal_order p = (pp_created_at p, pp_id p)"

definition first_episode :: "string \<Rightarrow> registry \<Rightarrow> string option" where
  "first_episode source d =
     (case tbl_order_by proposal_order (filter (\<lambda>p. pp_source p = source \<and> pp_episode p \<noteq> None) (rg_proposals d)) of
        [] \<Rightarrow> None | p # _ \<Rightarrow> pp_episode p)"

definition credit_delta :: "string \<Rightarrow> rat \<Rightarrow> registry \<Rightarrow> registry" where
  "credit_delta episode delta d = (if delta = 0 then d else add_credit episode delta d)"

definition attribute_search_reward :: "string \<Rightarrow> reward \<Rightarrow> registry \<Rightarrow> py_error + registry" where
  "attribute_search_reward source r0 d =
     (let r = effective_reward source r0 d in
      case tbl_find (\<lambda>a. at_source a = source) (rg_attribution d) of
        None \<Rightarrow> (case first_episode source d of
            None \<Rightarrow> Inr d
          | Some e \<Rightarrow> check (candidate_at source d \<noteq> None) IntegrityError (
              Inr (credit_delta e (re_eed r) (d\<lparr>rg_attribution := rg_attribution d @ [\<lparr>at_source = source, at_episode = e,
                at_credited = re_eed r, at_kind = re_kind r, at_baseline = re_baseline r, at_model = re_model r\<rparr>]\<rparr>))))
      | Some a \<Rightarrow> Inr (credit_delta (at_episode a) (re_eed r - at_credited a) (d\<lparr>rg_attribution := tbl_update (\<lambda>a. at_source a = source)
          (\<lambda>a. a\<lparr>at_credited := re_eed r, at_kind := re_kind r, at_baseline := re_baseline r, at_model := re_model r\<rparr>)
          (rg_attribution d)\<rparr>)))"

text \<open>The upsert of a FINAL projection with the credit that follows from it.\<close>

definition publish_final :: "final_reward \<Rightarrow> registry \<Rightarrow> py_error + registry" where
  "publish_final f d =
     check (candidate_at (fr_source f) d \<noteq> None) IntegrityError (
     bindr (attribute_search_reward (fr_source f) \<lparr>re_eed = fr_eed f, re_kind = K_FINAL, re_baseline = fr_baseline f, re_model = fr_model f\<rparr>
       (d\<lparr>rg_finals := tbl_upsert fr_source (\<lambda>_. f) f (rg_finals d)\<rparr>)) (\<lambda>d'.
     Inr (d'\<lparr>rg_llm_credits := tbl_update (\<lambda>c. lc_source c = fr_source f) (\<lambda>c. c\<lparr>lc_credited := fr_eed f\<rparr>) (rg_llm_credits d')\<rparr>)))"

definition record_final_reward ::
  "url_library \<Rightarrow> string \<Rightarrow> rat \<Rightarrow> rat \<Rightarrow> string option \<Rightarrow> string option \<Rightarrow> time \<Rightarrow> unit registry_action" where
  "record_final_reward U source eed cost baseline model now =
     (if eed < 0 \<or> cost < 0 then act_raise ValueError
      else act_then (act_query (known_source U source)) (\<lambda>_.
        if (baseline = None) \<noteq> (model = None) then act_raise ValueError
        else act_then (act_read current_scout_authority) (\<lambda>current.
          let auth = (if baseline = None then (map_option fst current, map_option snd current) else (baseline, model)) in
          if now < 0 then act_raise ValueError
          else act_txn (\<lambda>d. bindr (publish_final \<lparr>fr_source = source, fr_eed = eed, fr_cost = cost, fr_baseline = fst auth, fr_model = snd auth,
                 fr_closed_runs = 1, fr_zero_runs = (if eed = 0 then 1 else 0), fr_updated_at = now\<rparr> d) (\<lambda>d'. Inr ((), d'))))))"

definition clear_finals :: "registry \<Rightarrow> py_error + (unit \<times> registry)" where
  "clear_finals d =
     (let d1 = fold (\<lambda>a d. if at_credited a = 0 then d else add_credit (at_episode a) (- at_credited a) d)
           (filter (\<lambda>a. at_kind a = K_FINAL) (rg_attribution d)) d
      in Inr ((), d1\<lparr>rg_attribution := tbl_update (\<lambda>a. at_kind a = K_FINAL)
            (\<lambda>a. a\<lparr>at_credited := 0, at_kind := K_INVALIDATED_FINAL, at_baseline := None, at_model := None\<rparr>) (rg_attribution d),
          rg_llm_credits := tbl_update (\<lambda>c. list_ex (\<lambda>f. fr_source f = lc_source c) (rg_finals d)) (\<lambda>c. c\<lparr>lc_credited := 0\<rparr>)
            (rg_llm_credits d),
          rg_finals := []\<rparr>))"

definition reset_final_rewards :: "unit registry_action" where
  "reset_final_rewards = act_txn clear_finals"

end
