(* ===== verification/Source_Candidates.thy ===== *)
theory Source_Candidates
  imports Source_Registry
begin

text \<open>
  The candidates of the registry (\<open>source_discovery/registry.py\<close>): proposals, the state machine from
  discovery to activation, the observations that later stages read, scout measurements, suppressions and
  the source graph.  \<open>U\<close> is the URL library and \<open>E\<close> the codec behind \<open>source_key\<close>.
\<close>

section \<open>States\<close>

fun transitions_from :: "source_state \<Rightarrow> source_state list" where
  "transitions_from S_DISCOVERED = [S_TRIAGED, S_HOLD, S_REJECTED]"
| "transitions_from S_TRIAGED = [S_SCOUT_READY, S_HOLD, S_REJECTED]"
| "transitions_from S_SCOUT_READY = [S_SCOUTING, S_HOLD, S_REJECTED]"
| "transitions_from S_SCOUTING = [S_WARM, S_HOLD, S_REJECTED]"
| "transitions_from S_WARM = [S_ACTIVATING, S_ACTIVE, S_HOLD, S_REJECTED]"
| "transitions_from S_ACTIVATING = [S_ACTIVE, S_WARM, S_HOLD, S_REJECTED]"
| "transitions_from S_ACTIVE = [S_WARM, S_HOLD, S_EXHAUSTED]"
| "transitions_from S_HOLD = [S_TRIAGED, S_SCOUT_READY, S_WARM, S_REJECTED]"
| "transitions_from S_REJECTED = []"
| "transitions_from S_EXHAUSTED = []"

text \<open>A body under \<open>try\<close> whose handler catches some exceptions; the others pass.\<close>

definition act_catch :: "('s, 'a) transactions \<Rightarrow> py_error list \<Rightarrow> ('s, 'a) transactions \<Rightarrow> ('s, 'a) transactions" where
  "act_catch a es b w = (case a w of (Inr x, h) \<Rightarrow> (Inr x, h)
     | (Inl e, h) \<Rightarrow> if e \<in> set es then (case b (last_world w h) of (r, h') \<Rightarrow> (r, h @ h')) else (Inl e, h))"

definition read_candidate :: "url_library \<Rightarrow> string \<Rightarrow> source_candidate registry_action" where
  "read_candidate U key = act_query (\<lambda>d. bindr (get_candidate U key d) found)"

definition set_candidate :: "string \<Rightarrow> (candidate_row \<Rightarrow> candidate_row) \<Rightarrow> registry \<Rightarrow> registry" where
  "set_candidate key f d = d\<lparr>rg_candidates := tbl_update (\<lambda>r. cr_key r = key) f (rg_candidates d)\<rparr>"

section \<open>Sketches and proposals\<close>

definition put_sketch :: "string \<Rightarrow> int list \<Rightarrow> time \<Rightarrow> registry \<Rightarrow> registry" where
  "put_sketch key xs now d = d\<lparr>rg_sketches := tbl_upsert fst (\<lambda>_. (key, xs, now)) (key, xs, now) (rg_sketches d)\<rparr>"

definition record_overlap_sketch :: "url_library \<Rightarrow> string \<Rightarrow> int list \<Rightarrow> time \<Rightarrow> unit registry_action" where
  "record_overlap_sketch U key xs now =
     (if xs = [] then act_raise ValueError
      else act_then (act_query (known_source U key)) (\<lambda>_.
        act_txn (\<lambda>d. check (0 \<le> now) ValueError (Inr ((), put_sketch key xs now d)))))"

definition get_overlap_sketch :: "string \<Rightarrow> registry \<Rightarrow> int list option" where
  "get_overlap_sketch key d = map_option (\<lambda>(_, xs, _). xs) (tbl_find (\<lambda>r. fst r = key) (rg_sketches d))"

definition proposal_row :: "string \<Rightarrow> string option \<Rightarrow> string \<Rightarrow> source_candidate \<Rightarrow> time \<Rightarrow> proposal" where
  "proposal_row i episode key c now = \<lparr>pp_id = i, pp_episode = episode, pp_source = key, pp_discovered_by = sc_discovered_by c,
     pp_strategy = sc_strategy c, pp_family = sc_family c, pp_level = sc_level c, pp_confidence = sc_confidence c, pp_created_at = now\<rparr>"

text \<open>\<open>INSERT OR IGNORE\<close> on the key and on the entrypoint; the proposal is an insert under foreign keys.\<close>

definition propose ::
  "url_library \<Rightarrow> codec \<Rightarrow> source_candidate \<Rightarrow> string option \<Rightarrow> string \<Rightarrow> time \<Rightarrow> registry \<Rightarrow> py_error + ((string \<times> bool) \<times> registry)" where
  "propose U E c episode i now d =
     check (case episode of None \<Rightarrow> True | Some e \<Rightarrow> list_ex (\<lambda>r. se_id r = e) (rg_episodes d)) KeyError (
     bindr (candidate_key U E c) (\<lambda>key.
     let taken = list_ex (\<lambda>r. cr_key r = key \<or> sc_entrypoint r = sc_entrypoint c) (rg_candidates d);
         rows = (if taken then rg_candidates d
           else rg_candidates d @ [source_candidate.extend c \<lparr>cr_key = key, cr_created_at = now, cr_updated_at = now\<rparr>])
     in check (list_ex (\<lambda>r. cr_key r = key) rows) IntegrityError (
        bindr (tbl_insert pp_id (proposal_row i episode key c now) (rg_proposals d)) (\<lambda>ps.
        Inr ((key, \<not> taken), d\<lparr>rg_candidates := rows, rg_proposals := ps\<rparr>)))))"

definition register_proposal ::
  "url_library \<Rightarrow> codec \<Rightarrow> source_candidate \<Rightarrow> string option \<Rightarrow> string option \<Rightarrow> string \<Rightarrow> time \<Rightarrow> (source_candidate \<times> bool) registry_action" where
  "register_proposal U E c episode proposal uuid now =
     (if is_common_crawl_provenance [sc_family c, sc_entrypoint c, sc_discovered_by c] \<or> now < 0 then act_raise ValueError
      else act_then (act_txn (propose U E c episode (if column proposal = [] then ''proposal:'' @ uuid else column proposal) now)) (\<lambda>(key, inserted).
        act_then (read_candidate U key) (\<lambda>stored. act_return (stored, inserted))))"

definition proposal_count :: "string \<Rightarrow> registry \<Rightarrow> nat" where
  "proposal_count key d = tbl_count (\<lambda>p. pp_source p = key) (rg_proposals d)"

section \<open>Lists\<close>

definition list_candidates :: "url_library \<Rightarrow> source_state option \<Rightarrow> registry \<Rightarrow> py_error + source_candidate list" where
  "list_candidates U state d = collect (List.map (candidate_from_row U)
     (filter (\<lambda>r. case state of None \<Rightarrow> True | Some s \<Rightarrow> sc_state r = s) (rg_candidates d)))"

definition list_candidates_in_states :: "url_library \<Rightarrow> source_state list \<Rightarrow> registry \<Rightarrow> py_error + source_candidate list" where
  "list_candidates_in_states U states d = (if states = [] then Inr []
     else collect (List.map (candidate_from_row U) (filter (\<lambda>r. sc_state r \<in> set states) (rg_candidates d))))"

definition inventory :: "registry \<Rightarrow> source_state \<Rightarrow> nat" where
  "inventory d s = tbl_count (\<lambda>r. sc_state r = s) (rg_candidates d)"

section \<open>Activation\<close>

text \<open>The measured evidence a promotion needs: of any authority while none is installed.\<close>

definition measured_now :: "string \<Rightarrow> registry \<Rightarrow> bool" where
  "measured_now key d = (case tbl_find (\<lambda>m. mx_source m = key) (rg_metrics d) of
     None \<Rightarrow> False
   | Some m \<Rightarrow> (case current_scout_authority d of None \<Rightarrow> True
       | Some (b, v) \<Rightarrow> column (mx_baseline m) = b \<and> column (mx_model m) = v))"

definition claim_activation :: "string \<Rightarrow> time \<Rightarrow> registry \<Rightarrow> py_error + (unit \<times> registry)" where
  "claim_activation key now d =
     (case candidate_at key d of None \<Rightarrow> Inl KeyError | Some r \<Rightarrow>
        if sc_state r = S_ACTIVATING then Inr ((), d)
        else check (if sc_state r = S_HOLD then (case sc_retry_at r of None \<Rightarrow> False | Some t \<Rightarrow> t \<le> now) else sc_state r = S_WARM)
          StateTransitionError (check (measured_now key d) StateTransitionError
          (Inr ((), set_candidate key (\<lambda>r. r\<lparr>sc_state := S_ACTIVATING, sc_reason := [], sc_retry_at := None,
             sc_attempts := sc_attempts r + 1, cr_updated_at := now\<rparr>) d))))"

definition begin_activation :: "url_library \<Rightarrow> string \<Rightarrow> time \<Rightarrow> source_candidate registry_action" where
  "begin_activation U key now = (if now < 0 then act_raise ValueError
     else act_then (act_txn (claim_activation key now)) (\<lambda>_. read_candidate U key))"

definition fail_activation :: "string \<Rightarrow> string \<Rightarrow> bool \<Rightarrow> rat \<Rightarrow> time \<Rightarrow> registry \<Rightarrow> py_error + (unit \<times> registry)" where
  "fail_activation key reason permanent seconds now d =
     (case candidate_at key d of None \<Rightarrow> Inl KeyError | Some r \<Rightarrow>
        check (sc_state r \<in> {S_ACTIVATING, S_ACTIVE}) StateTransitionError
          (Inr ((), set_candidate key (\<lambda>r. r\<lparr>sc_state := (if permanent then S_REJECTED else S_HOLD), sc_reason := py_strip reason,
             sc_retry_at := (if permanent then None else Some (now + seconds)), cr_updated_at := now\<rparr>) d)))"

definition record_activation_failure :: "url_library \<Rightarrow> string \<Rightarrow> string \<Rightarrow> bool \<Rightarrow> rat \<Rightarrow> time \<Rightarrow> source_candidate registry_action" where
  "record_activation_failure U key reason permanent seconds now =
     (if blank reason \<or> (\<not> permanent \<and> seconds \<le> 0) \<or> now < 0 then act_raise ValueError
      else act_then (act_txn (fail_activation key reason permanent seconds now)) (\<lambda>_. read_candidate U key))"

definition move_candidate :: "string \<Rightarrow> source_state \<Rightarrow> time \<Rightarrow> registry \<Rightarrow> py_error + (unit \<times> registry)" where
  "move_candidate key target now d =
     (case candidate_at key d of None \<Rightarrow> Inl KeyError | Some r \<Rightarrow>
        check (target \<in> set (transitions_from (sc_state r))) StateTransitionError (
        check (target = S_ACTIVE \<or> (sc_state r = S_SCOUTING \<and> target = S_WARM) \<longrightarrow> measured_now key d) StateTransitionError
          (Inr ((), set_candidate key (\<lambda>r. r\<lparr>sc_state := target, cr_updated_at := now\<rparr>) d))))"

definition transition :: "url_library \<Rightarrow> string \<Rightarrow> source_state \<Rightarrow> time \<Rightarrow> source_candidate registry_action" where
  "transition U key target now = (if now < 0 then act_raise ValueError
     else act_then (act_txn (move_candidate key target now)) (\<lambda>_. read_candidate U key))"

definition due_activations :: "time \<Rightarrow> registry \<Rightarrow> string list" where
  "due_activations now d = sort (List.map cr_key (filter (\<lambda>r. sc_state r = S_HOLD \<and>
     (case sc_retry_at r of None \<Rightarrow> False | Some t \<Rightarrow> t \<le> now)) (rg_candidates d)))"

text \<open>A failed promotion is skipped; every promotion reads the clock again.\<close>

definition retry_due_activations :: "url_library \<Rightarrow> time \<Rightarrow> (string \<Rightarrow> time) \<Rightarrow> nat registry_action" where
  "retry_due_activations U now clock = act_then (act_read (due_activations now)) (act_sum (\<lambda>key.
     act_catch (act_then (transition U key S_WARM (clock key)) (\<lambda>_. act_return 1)) [StateTransitionError] (act_return 0)))"

definition recover_stranded_activations :: "url_library \<Rightarrow> (string \<Rightarrow> time) \<Rightarrow> nat registry_action" where
  "recover_stranded_activations U clock =
     act_then (act_read (\<lambda>d. sort (List.map cr_key (filter (\<lambda>r. sc_state r = S_ACTIVATING) (rg_candidates d))))) (act_sum (\<lambda>key.
       act_then (record_activation_failure U key ''recovered stranded ACTIVATING state after coordinator restart'' False 30 (clock key))
         (\<lambda>_. act_return 1)))"

definition explain :: "string \<Rightarrow> string \<Rightarrow> time \<Rightarrow> registry \<Rightarrow> py_error + (bool \<times> registry)" where
  "explain key reason now d = check (0 \<le> now) ValueError (Inr (candidate_at key d \<noteq> None,
     set_candidate key (\<lambda>r. r\<lparr>sc_reason := py_strip reason, cr_updated_at := now\<rparr>) d))"

definition set_state_reason :: "string \<Rightarrow> string \<Rightarrow> time \<Rightarrow> unit registry_action" where
  "set_state_reason key reason now =
     (if 8 * 1024 < length (py_strip reason) then act_raise ValueError
      else act_then (act_txn (explain key reason now)) (\<lambda>changed. if changed then act_return () else act_raise KeyError))"

section \<open>Observations\<close>

definition record_triage_observation :: "url_library \<Rightarrow> string \<Rightarrow> triage_observation \<Rightarrow> unit registry_action" where
  "record_triage_observation U key t = act_then (act_query (known_source U key)) (\<lambda>_.
     act_txn (\<lambda>d. check (0 \<le> tg_observed_at t) ValueError
       (Inr ((), d\<lparr>rg_triage := tbl_upsert fst (\<lambda>_. (key, t)) (key, t) (rg_triage d)\<rparr>))))"

definition get_triage_observation :: "string \<Rightarrow> registry \<Rightarrow> triage_observation option" where
  "get_triage_observation key d = map_option snd (tbl_find (\<lambda>r. fst r = key) (rg_triage d))"

text \<open>A stored value is rebuilt by its constructor.\<close>

definition stored :: "('v \<Rightarrow> py_error + 'v) \<Rightarrow> string \<Rightarrow> (string \<times> 'v \<times> time) list \<Rightarrow> py_error + 'v option" where
  "stored init key t = (case tbl_find (\<lambda>r. fst r = key) t of None \<Rightarrow> Inr None
     | Some (_, v, _) \<Rightarrow> bindr (init v) (\<lambda>v. Inr (Some v)))"

definition put_observation :: "string \<Rightarrow> 'v \<Rightarrow> time \<Rightarrow> (string \<times> 'v \<times> time) list \<Rightarrow> (string \<times> 'v \<times> time) list" where
  "put_observation key v now t = tbl_upsert fst (\<lambda>_. (key, v, now)) (key, v, now) t"

definition get_format_observation :: "string \<Rightarrow> registry \<Rightarrow> py_error + format_observation option" where
  "get_format_observation key d = stored format_observation_init key (rg_formats d)"

definition get_layout_observation :: "string \<Rightarrow> registry \<Rightarrow> py_error + record_layout option" where
  "get_layout_observation key d = stored record_layout_init key (rg_layouts d)"

definition get_schema_observation :: "string \<Rightarrow> registry \<Rightarrow> py_error + record_schema option" where
  "get_schema_observation key d = stored record_schema_init key (rg_schemas d)"

text \<open>Whether an observation replaces the current one: \<open>Inr False\<close> keeps it, an error is a conflict.\<close>

definition strong :: "rat \<Rightarrow> bool" where "strong q = (95 / 100 \<le> q)"

definition format_replaces :: "format_observation option \<Rightarrow> format_observation \<Rightarrow> py_error + bool" where
  "format_replaces current f = (case current of None \<Rightarrow> Inr True | Some c \<Rightarrow>
     let same = (fb_parser_kind c = fb_parser_kind f \<and> fb_compression c = fb_compression f) in
     check (same \<or> \<not> strong (fb_confidence c) \<or> \<not> strong (fb_confidence f)) ValueError (
     Inr (\<not> (fb_confidence f < fb_confidence c \<or> (\<not> same \<and> fb_confidence f \<le> fb_confidence c) \<or>
       (fb_confidence f = fb_confidence c \<and> fb_policy_version c = fb_policy_version f \<and> c = f)))))"

definition layout_replaces :: "record_layout option \<Rightarrow> record_layout \<Rightarrow> py_error + bool" where
  "layout_replaces current l = (case current of None \<Rightarrow> Inr True | Some c \<Rightarrow>
     let same = (lb_parser_kind c = lb_parser_kind l \<and> lb_hostname_field c = lb_hostname_field l \<and> lb_delimiter c = lb_delimiter l) in
     check (same \<or> \<not> strong (lb_confidence c) \<or> \<not> strong (lb_confidence l)) ValueError (
     Inr (\<not> (lb_confidence l < lb_confidence c \<or> l = c))))"

definition schema_replaces :: "record_schema option \<Rightarrow> record_schema \<Rightarrow> py_error + bool" where
  "schema_replaces current s = (case current of None \<Rightarrow> Inr True | Some c \<Rightarrow>
     let same = (sb_parser_kind c = sb_parser_kind s \<and> sb_hostname_field c = sb_hostname_field s \<and> sb_timestamp_field c = sb_timestamp_field s \<and>
       sb_delimiter c = sb_delimiter s \<and> sb_direct_year_eligible c = sb_direct_year_eligible s) in
     check (same \<or> \<not> strong (sb_confidence c) \<or> \<not> strong (sb_confidence s)) ValueError (
     Inr (\<not> (sb_confidence s < sb_confidence c \<or> s = c))))"

definition replace_observation ::
  "url_library \<Rightarrow> string \<Rightarrow> (registry \<Rightarrow> py_error + bool) \<Rightarrow> (registry \<Rightarrow> registry) \<Rightarrow> time \<Rightarrow> bool registry_action" where
  "replace_observation U key decide put now = act_then (act_query (known_source U key)) (\<lambda>_. act_then (act_query decide) (\<lambda>better.
     if better then act_txn (\<lambda>d. check (0 \<le> now) ValueError (Inr (True, put d))) else act_return False))"

definition record_format_observation :: "url_library \<Rightarrow> string \<Rightarrow> format_observation \<Rightarrow> time \<Rightarrow> bool registry_action" where
  "record_format_observation U key f now = replace_observation U key
     (\<lambda>d. bindr (get_format_observation key d) (\<lambda>current. format_replaces current f))
     (\<lambda>d. d\<lparr>rg_formats := put_observation key f now (rg_formats d)\<rparr>) now"

definition record_layout_observation :: "url_library \<Rightarrow> string \<Rightarrow> record_layout \<Rightarrow> time \<Rightarrow> bool registry_action" where
  "record_layout_observation U key l now = replace_observation U key
     (\<lambda>d. bindr (get_layout_observation key d) (\<lambda>current. layout_replaces current l))
     (\<lambda>d. d\<lparr>rg_layouts := put_observation key l now (rg_layouts d)\<rparr>) now"

definition record_schema_observation :: "url_library \<Rightarrow> string \<Rightarrow> record_schema \<Rightarrow> time \<Rightarrow> bool registry_action" where
  "record_schema_observation U key s now = replace_observation U key
     (\<lambda>d. bindr (get_schema_observation key d) (\<lambda>current. schema_replaces current s))
     (\<lambda>d. d\<lparr>rg_schemas := put_observation key s now (rg_schemas d)\<rparr>) now"

text \<open>The arguments of a binding must agree before the database is opened.\<close>

definition binding_agrees :: "format_observation \<Rightarrow> record_layout \<Rightarrow> record_schema option \<Rightarrow> bool" where
  "binding_agrees f l s = (fb_parser_kind f = lb_parser_kind l \<and>
     (case s of None \<Rightarrow> True | Some s \<Rightarrow> \<not> sb_direct_year_eligible s \<and> sb_parser_kind s = lb_parser_kind l \<and> sb_hostname_field s = lb_hostname_field l))"

definition no_conflict :: "'v option \<Rightarrow> 'v \<Rightarrow> bool" where
  "no_conflict current v = (case current of None \<Rightarrow> True | Some c \<Rightarrow> c = v)"

definition bind_adapter ::
  "string \<Rightarrow> format_observation \<Rightarrow> record_layout \<Rightarrow> record_schema option \<Rightarrow> string \<Rightarrow> time \<Rightarrow> registry \<Rightarrow> py_error + (unit \<times> registry)" where
  "bind_adapter key f l s expected now d =
     (case candidate_at key d of None \<Rightarrow> Inl KeyError | Some r \<Rightarrow>
        check (sc_state r = S_HOLD) ValueError (check (sc_reason r = expected) ValueError (
        bindr (get_format_observation key d) (\<lambda>cf. check (no_conflict cf f) ValueError (
        bindr (get_layout_observation key d) (\<lambda>cl. check (no_conflict cl l) ValueError (
        bindr (get_schema_observation key d) (\<lambda>cs. check (case s of None \<Rightarrow> cs = None | Some s \<Rightarrow> no_conflict cs s) ValueError (
        check (0 \<le> now) ValueError (
        Inr ((), set_candidate key (\<lambda>r. r\<lparr>sc_state := S_SCOUT_READY, sc_reason := [], cr_updated_at := now\<rparr>)
          (d\<lparr>rg_formats := put_observation key f now (rg_formats d), rg_layouts := put_observation key l now (rg_layouts d),
             rg_schemas := (case s of None \<Rightarrow> rg_schemas d
               | Some s \<Rightarrow> put_observation key (s\<lparr>sb_direct_year_eligible := False\<rparr>) now (rg_schemas d))\<rparr>))))))))))))"

definition apply_validated_adapter_binding ::
  "url_library \<Rightarrow> string \<Rightarrow> format_observation \<Rightarrow> record_layout \<Rightarrow> record_schema option \<Rightarrow> string \<Rightarrow> time \<Rightarrow> source_candidate registry_action" where
  "apply_validated_adapter_binding U key f l s expected now =
     (if \<not> binding_agrees f l s \<or> expected = [] then act_raise ValueError
      else act_then (act_txn (bind_adapter key f l s expected now)) (\<lambda>_. read_candidate U key))"

section \<open>Scout measurements\<close>

definition put_metric :: "string \<Rightarrow> scout_measurement \<Rightarrow> (string \<times> string) option \<Rightarrow> time \<Rightarrow> registry \<Rightarrow> registry" where
  "put_metric key m auth now d =
     (let row = \<lparr>mx_source = key, mx_measurement = m\<lparr>sm_minhash := []\<rparr>, mx_baseline = map_option fst auth, mx_model = map_option snd auth,
            mx_measured_at = now\<rparr>;
          d' = d\<lparr>rg_metrics := tbl_upsert mx_source (\<lambda>_. row) row (rg_metrics d)\<rparr>
      in if sm_minhash m = [] then d' else put_sketch key (sm_minhash m) now d')"

text \<open>A late measurement is kept unless the current authority has already measured the source.\<close>

definition measured_under :: "string \<Rightarrow> string \<times> string \<Rightarrow> registry \<Rightarrow> bool" where
  "measured_under key auth d = list_ex (\<lambda>m. mx_source m = key \<and> mx_baseline m = Some (fst auth) \<and> mx_model m = Some (snd auth)) (rg_metrics d)"

definition measure_source ::
  "string \<Rightarrow> scout_measurement \<Rightarrow> (string \<times> string) option \<Rightarrow> time \<Rightarrow> registry \<Rightarrow> py_error + (bool \<times> registry)" where
  "measure_source key m given now d =
     (let current = current_scout_authority d; auth = (case given of None \<Rightarrow> current | Some _ \<Rightarrow> given);
          eligible = (current = None \<or> auth = current);
          preserve = (\<not> eligible \<and> (case current of None \<Rightarrow> False | Some c \<Rightarrow> measured_under key c d))
      in check (case auth of None \<Rightarrow> True | Some (b, v) \<Rightarrow> b \<noteq> [] \<and> v \<noteq> []) ValueError (
         check (preserve \<or> 0 \<le> now) ValueError (
         let d1 = (if preserve then d else put_metric key m auth now d) in
         if \<not> eligible then Inr (False, d1)
         else bindr (attribute_search_reward key \<lparr>re_eed = novel_eed_for_ranking m, re_kind = K_SCOUT_PROXY,
                re_baseline = map_option fst auth, re_model = map_option snd auth\<rparr> d1) (\<lambda>d2. Inr (True, d2)))))"

definition paired :: "string option \<Rightarrow> string option \<Rightarrow> py_error + (string \<times> string) option" where
  "paired baseline model = (case (baseline, model) of (None, None) \<Rightarrow> Inr None | (Some b, Some v) \<Rightarrow> Inr (Some (b, v)) | _ \<Rightarrow> Inl ValueError)"

definition record_scout_measurement ::
  "url_library \<Rightarrow> string \<Rightarrow> scout_measurement \<Rightarrow> string option \<Rightarrow> string option \<Rightarrow> time \<Rightarrow> bool registry_action" where
  "record_scout_measurement U key m baseline model now = act_then (act_query (known_source U key)) (\<lambda>_.
     act_then (act_init (paired baseline model)) (\<lambda>given. act_txn (measure_source key m given now)))"

definition measurement_from_row :: "registry \<Rightarrow> scout_metric \<Rightarrow> py_error + scout_measurement" where
  "measurement_from_row d m = scout_measurement_init ((mx_measurement m)\<lparr>sm_minhash :=
     (case get_overlap_sketch (mx_source m) d of None \<Rightarrow> [] | Some xs \<Rightarrow> xs)\<rparr>)"

definition get_scout_measurement :: "string \<Rightarrow> string option \<Rightarrow> string option \<Rightarrow> registry \<Rightarrow> py_error + scout_measurement option" where
  "get_scout_measurement key baseline model d = bindr (paired baseline model) (\<lambda>given.
     case tbl_find (\<lambda>m. mx_source m = key) (rg_metrics d) of None \<Rightarrow> Inr None
     | Some m \<Rightarrow> (case (case given of None \<Rightarrow> current_scout_authority d | Some _ \<Rightarrow> given) of
           None \<Rightarrow> bindr (measurement_from_row d m) (\<lambda>m. Inr (Some m))
         | Some (b, v) \<Rightarrow> if column (mx_baseline m) \<noteq> b \<or> column (mx_model m) \<noteq> v then Inr None
             else bindr (measurement_from_row d m) (\<lambda>m. Inr (Some m))))"

section \<open>Suppressions\<close>

definition suppress :: "suppression_scope \<Rightarrow> string \<Rightarrow> string \<Rightarrow> rat option \<Rightarrow> time \<Rightarrow> unit registry_action" where
  "suppress scope key reason ttl now =
     (let row = \<lparr>sp_scope = scope, sp_key = key, sp_reason = reason, sp_created_at = now, sp_expires_at = map_option (\<lambda>s. now + s) ttl\<rparr> in
      if blank key \<or> blank reason \<or> (case ttl of None \<Rightarrow> False | Some s \<Rightarrow> s < 0) \<or> now < 0 then act_raise ValueError
      else act_txn (\<lambda>d. Inr ((), d\<lparr>rg_suppressions := tbl_upsert (\<lambda>s. (sp_scope s, sp_key s)) (\<lambda>_. row) row (rg_suppressions d)\<rparr>)))"

definition suppression_key :: "url_library \<Rightarrow> codec \<Rightarrow> suppression_scope \<Rightarrow> source_candidate \<Rightarrow> py_error + string" where
  "suppression_key U E scope c = bindr (candidate_key U E c) (\<lambda>key. bindr (candidate_origin U c) (\<lambda>origin.
     Inr (case scope of BY_SOURCE \<Rightarrow> key | BY_FAMILY \<Rightarrow> sc_family c | BY_ORIGIN \<Rightarrow> origin)))"

definition suppress_candidate ::
  "url_library \<Rightarrow> codec \<Rightarrow> source_candidate \<Rightarrow> string \<Rightarrow> suppression_scope \<Rightarrow> rat option \<Rightarrow> time \<Rightarrow> unit registry_action" where
  "suppress_candidate U E c reason scope ttl now =
     act_then (act_init (suppression_key U E scope c)) (\<lambda>key. suppress scope key reason ttl now)"

definition in_force :: "time \<Rightarrow> suppression \<Rightarrow> bool" where
  "in_force now s = (case sp_expires_at s of None \<Rightarrow> True | Some t \<Rightarrow> now < t)"

definition suppression_reason :: "url_library \<Rightarrow> codec \<Rightarrow> source_candidate \<Rightarrow> time \<Rightarrow> registry \<Rightarrow> py_error + string option" where
  "suppression_reason U E c now d =
     (let reason = (\<lambda>scope key. map_option sp_reason
            (tbl_find (\<lambda>s. sp_scope s = scope \<and> sp_key s = key \<and> in_force now s) (rg_suppressions d)))
      in check (0 \<le> now) ValueError (
         bindr (candidate_key U E c) (\<lambda>key. bindr (candidate_origin U c) (\<lambda>origin.
         Inr (case reason BY_SOURCE key of Some r \<Rightarrow> Some r
            | None \<Rightarrow> (case reason BY_FAMILY (sc_family c) of Some r \<Rightarrow> Some r | None \<Rightarrow> reason BY_ORIGIN origin))))))"

definition prune_expired_suppressions :: "time \<Rightarrow> nat registry_action" where
  "prune_expired_suppressions now = act_txn (\<lambda>d. check (0 \<le> now) ValueError
     (Inr (tbl_count (\<lambda>s. \<not> in_force now s) (rg_suppressions d),
       d\<lparr>rg_suppressions := tbl_delete (\<lambda>s. \<not> in_force now s) (rg_suppressions d)\<rparr>)))"

text \<open>Highest priority first, then by key; the clock is read for every candidate.\<close>

definition rank_scout_candidates ::
  "url_library \<Rightarrow> codec \<Rightarrow> (rat \<Rightarrow> rat) \<Rightarrow> (source_candidate \<Rightarrow> time) \<Rightarrow> int \<Rightarrow> registry \<Rightarrow> py_error + source_candidate list" where
  "rank_scout_candidates U E log1p clock limit d =
     (if limit < 1 then Inr []
      else bindr (list_candidates U (Some S_SCOUT_READY) d) (\<lambda>cs.
        bindr (collect (List.map (\<lambda>c. bindr (suppression_reason U E c (clock c) d) (\<lambda>r. Inr (c, r))) cs)) (\<lambda>marked.
        bindr (collect (List.map (\<lambda>(c, _). bindr (candidate_key U E c) (\<lambda>key. Inr ((- scout_priority log1p c, key), c)))
          (filter (\<lambda>(_, r). r = None) marked))) (\<lambda>keyed.
        Inr (take (nat limit) (List.map snd (sort_key fst keyed)))))))"

section \<open>The source graph\<close>

type_synonym links = "(string \<times> string) list"

definition graph :: "registry \<Rightarrow> links" where
  "graph d = List.map (\<lambda>e. (eg_parent e, eg_child e)) (rg_edges d)"

text \<open>The recursive query of the hops, one level at a time; a level past the bound is the last.\<close>

definition next_level :: "links \<Rightarrow> string list \<Rightarrow> string list" where
  "next_level g ns = remdups (List.map snd (filter (\<lambda>(a, b). a \<in> set ns) g))"

fun levels :: "links \<Rightarrow> nat \<Rightarrow> string list \<Rightarrow> nat" where
  "levels g 0 ns = 0"
| "levels g (Suc n) ns = (let ms = next_level g ns in if ms = [] then 0 else Suc (levels g n ms))"

definition max_descendant_hops :: "string \<Rightarrow> registry \<Rightarrow> nat" where
  "max_descendant_hops key d = levels (graph d) (rg_max_hops d + 1) [key]"

definition max_ancestor_hops :: "string \<Rightarrow> registry \<Rightarrow> nat" where
  "max_ancestor_hops key d = levels (List.map prod.swap (graph d)) (rg_max_hops d + 1) [key]"

definition would_cycle :: "string \<Rightarrow> string \<Rightarrow> registry \<Rightarrow> bool" where
  "would_cycle parent child d = ((child, parent) \<in> (set (graph d))\<^sup>+)"

definition link_sources :: "string \<Rightarrow> string \<Rightarrow> string \<Rightarrow> time \<Rightarrow> registry \<Rightarrow> py_error + (bool \<times> registry)" where
  "link_sources parent child relation now d =
     check (tbl_count (\<lambda>r. cr_key r \<in> {parent, child}) (rg_candidates d) = 2) KeyError (
     if list_ex (\<lambda>e. eg_parent e = parent \<and> eg_child e = child \<and> eg_relation e = relation) (rg_edges d) then Inr (False, d)
     else check (\<not> would_cycle parent child d) ValueError (
       check (max_ancestor_hops parent d + 1 + max_descendant_hops child d \<le> rg_max_hops d) ValueError (
       check (0 \<le> now) ValueError (
       Inr (True, d\<lparr>rg_edges := rg_edges d @ [\<lparr>eg_parent = parent, eg_child = child, eg_relation = relation, eg_created_at = now\<rparr>]\<rparr>)))))"

definition add_edge :: "string \<Rightarrow> string \<Rightarrow> string \<Rightarrow> time \<Rightarrow> bool registry_action" where
  "add_edge parent child relation now =
     (if parent = child \<or> blank relation then act_raise ValueError else act_txn (link_sources parent child relation now))"

definition source_children :: "string \<Rightarrow> registry \<Rightarrow> string list" where
  "source_children key d = sort (List.map eg_child (filter (\<lambda>e. eg_parent e = key) (rg_edges d)))"

end
