(* ===== verification/Source_Runs.thy ===== *)
theory Source_Runs
  imports Source_Candidates Harvest_Store
begin

text \<open>
  Production runs of a source (\<open>source_discovery/registry.py\<close>): a row opened with a production exposure,
  its read and validation counters, the close that publishes the aggregate of the closed runs as the
  source's FINAL reward, the abort, and the recoveries.  Registry and control store share one database:
  the world of these actions is the pair.  A durable state of the control store is recorded as a whole
  operation leaves it.
\<close>

section \<open>The shared database\<close>

record discovery_world =
  dw_registry :: registry
  dw_control :: control_db

type_synonym 'a discovery = "(discovery_world, 'a) transactions"

definition in_registry :: "(registry \<Rightarrow> py_error + ('a \<times> registry)) \<Rightarrow> 'a discovery" where
  "in_registry t = act_txn (\<lambda>w. bindr (t (dw_registry w)) (\<lambda>(x, d). Inr (x, w\<lparr>dw_registry := d\<rparr>)))"

definition in_control :: "'a txn \<Rightarrow> 'a discovery" where
  "in_control t = act_txn (\<lambda>w. bindr (t (dw_control w)) (\<lambda>(x, d). Inr (x, w\<lparr>dw_control := d\<rparr>)))"

definition control_prog :: "'a prog \<Rightarrow> 'a discovery" where
  "control_prog p w = (case p (dw_control w) of (r, d) \<Rightarrow> (r, [w\<lparr>dw_control := d\<rparr>]))"

text \<open>A registry action as an action on the pair.\<close>

definition lift_registry :: "'a registry_action \<Rightarrow> 'a discovery" where
  "lift_registry a w = (case a (dw_registry w) of (r, h) \<Rightarrow> (r, List.map (\<lambda>d. w\<lparr>dw_registry := d\<rparr>) h))"

section \<open>Rows\<close>

record run_key =
  rk_source :: string
  rk_reservoir :: string
  rk_lease :: string
  rk_baseline :: string
  rk_model :: string

definition key_of_run :: "source_run \<Rightarrow> run_key" where
  "key_of_run r = \<lparr>rk_source = sn_source r, rk_reservoir = sn_reservoir r, rk_lease = sn_lease r, rk_baseline = sn_baseline r, rk_model = sn_model r\<rparr>"

definition run_authority :: "run_key \<Rightarrow> string \<times> string" where
  "run_authority k = (rk_baseline k, rk_model k)"

definition resource_cost_seconds :: "source_run \<Rightarrow> rat" where
  "resource_cost_seconds r = (case (sn_read_started r, sn_read_finished r) of (Some a, Some b) \<Rightarrow> max 0 (b - a) | _ \<Rightarrow> 0) +
     max 0 (sn_provider_elapsed r)"

definition new_run :: "run_key \<Rightarrow> string \<Rightarrow> time option \<Rightarrow> time \<Rightarrow> source_run" where
  "new_run k exposure started now = \<lparr>sn_source = rk_source k, sn_reservoir = rk_reservoir k, sn_lease = rk_lease k, sn_baseline = rk_baseline k,
     sn_model = rk_model k, sn_read_started = started, sn_read_finished = None, sn_records = 0, sn_bytes = 0, sn_requests = 0,
     sn_tasks_created = 0, sn_tasks_terminal = 0, sn_direct_capsules = 0, sn_provider_requests = 0, sn_provider_elapsed = 0,
     sn_candidate_duplicates = 0, sn_baseline_duplicates = 0, sn_host_years = 0, sn_eed = 0, sn_read_complete = False,
     sn_validation_complete = False, sn_closed = False, sn_closed_at = None, sn_max_sequence = 0, sn_terminal_state = None,
     sn_terminal_reason = None, sn_exposure = Some exposure, sn_created_at = now, sn_updated_at = now\<rparr>"

definition get_source_run_outcome :: "run_key \<Rightarrow> registry \<Rightarrow> source_run option" where
  "get_source_run_outcome k d = tbl_find (\<lambda>r. key_of_run r = k) (rg_runs d)"

definition update_runs :: "(source_run \<Rightarrow> bool) \<Rightarrow> (source_run \<Rightarrow> source_run) \<Rightarrow> registry \<Rightarrow> registry" where
  "update_runs P f d = d\<lparr>rg_runs := tbl_update P f (rg_runs d)\<rparr>"

definition insert_run :: "run_key \<Rightarrow> string \<Rightarrow> time option \<Rightarrow> time \<Rightarrow> registry \<Rightarrow> registry" where
  "insert_run k exposure started now d = d\<lparr>rg_runs := tbl_insert_or_ignore key_of_run (new_run k exposure started now) (rg_runs d)\<rparr>"

definition read_run :: "run_key \<Rightarrow> source_run discovery" where
  "read_run k = act_query (\<lambda>w. found (get_source_run_outcome k (dw_registry w)))"

section \<open>Beginning\<close>

definition run_request :: "run_key \<Rightarrow> exposure_request" where
  "run_request k = \<lparr>eq_source_key = rk_source k, eq_reservoir_id = rk_reservoir k, eq_lane = ''sequential'',
     eq_baseline_signature = Some (rk_baseline k), eq_model_signature = Some (rk_model k), eq_authority = None,
     eq_lease_id = Some (rk_lease k), eq_task_id = None, eq_exposure_id = None\<rparr>"

definition adopt_exposure :: "run_key \<Rightarrow> string \<Rightarrow> registry \<Rightarrow> registry" where
  "adopt_exposure k i = update_runs (\<lambda>r. key_of_run r = k \<and> sn_exposure r = None) (\<lambda>r. r\<lparr>sn_exposure := Some i\<rparr>)"

text \<open>\<open>t1\<close> is the registry's clock, \<open>t2\<close> the control store's.\<close>

definition begin_source_run ::
  "url_library \<Rightarrow> run_key \<Rightarrow> time option \<Rightarrow> string \<Rightarrow> time \<Rightarrow> time \<Rightarrow> source_run discovery" where
  "begin_source_run U k started uuid t1 t2 =
     act_then (act_query (\<lambda>w. known_source U (rk_source k) (dw_registry w))) (\<lambda>_.
     if list_ex blank [rk_reservoir k, rk_lease k, rk_baseline k, rk_model k] \<or> t1 < 0 \<or> (case started of None \<Rightarrow> False | Some t \<Rightarrow> t < 0)
     then act_raise ValueError
     else act_then (in_control (begin_production_exposure uuid (run_request k) t2)) (\<lambda>e.
       act_then (in_registry (\<lambda>d. Inr ((), adopt_exposure k (pe_exposure_id e) (insert_run k (pe_exposure_id e)
         (case started of None \<Rightarrow> Some t1 | Some t \<Rightarrow> Some t) t1 d)))) (\<lambda>_. read_run k)))"

definition source_run_count :: "string \<Rightarrow> registry \<Rightarrow> nat" where
  "source_run_count key d = tbl_count (\<lambda>r. sn_source r = key \<and> 0 < sn_records r) (rg_runs d)"

definition begin_source_run_for_exposure ::
  "url_library \<Rightarrow> run_key \<Rightarrow> string \<Rightarrow> time option \<Rightarrow> time \<Rightarrow> source_run discovery" where
  "begin_source_run_for_exposure U k i started now =
     act_then (act_query (\<lambda>w. known_source U (rk_source k) (dw_registry w))) (\<lambda>_.
     act_then (act_query (\<lambda>w. get_production_exposure i (dw_control w))) (\<lambda>e.
     case e of None \<Rightarrow> act_raise KeyError | Some e \<Rightarrow>
       if pe_source_key e \<noteq> rk_source k \<or> pe_reservoir_id e \<noteq> rk_reservoir k \<or> authority_of e \<noteq> run_authority k \<or> blank (rk_lease k) \<or>
          now < 0 \<or> (case started of None \<Rightarrow> False | Some t \<Rightarrow> t < 0)
       then act_raise ValueError
       else act_then (in_registry (\<lambda>d. Inr ((), insert_run k i started now d))) (\<lambda>_.
         act_then (read_run k) (\<lambda>r. if sn_exposure r \<noteq> Some i then act_raise ValueError else act_return r))))"

text \<open>The state of the exposure joined to a run.\<close>

definition joined_state :: "discovery_world \<Rightarrow> source_run \<Rightarrow> exposure_state option" where
  "joined_state w r = (case sn_exposure r of None \<Rightarrow> None | Some i \<Rightarrow> map_option pe_state (exposure_row i (dw_control w)))"

definition run_order :: "source_run \<Rightarrow> time \<times> string \<times> string" where
  "run_order r = (case sn_closed_at r of None \<Rightarrow> sn_updated_at r | Some t \<Rightarrow> t, sn_source r, sn_lease r)"

definition list_source_run_outcomes ::
  "string option \<Rightarrow> string option \<Rightarrow> string option \<Rightarrow> bool \<Rightarrow> discovery_world \<Rightarrow> py_error + source_run list" where
  "list_source_run_outcomes source baseline model closed_only w = bindr (paired baseline model) (\<lambda>auth.
     Inr (tbl_order_by run_order (filter (\<lambda>r.
       (case source of None \<Rightarrow> True | Some s \<Rightarrow> sn_source r = s) \<and>
       (case sn_terminal_state r of None \<Rightarrow> True | Some s \<Rightarrow> s = ''FINAL_CLOSED'') \<and>
       (case auth of None \<Rightarrow> True | Some (b, m) \<Rightarrow> sn_baseline r = b \<and> sn_model r = m) \<and>
       (closed_only \<longrightarrow> sn_closed r \<and> joined_state w r = Some E_FINAL_CLOSED)) (rg_runs (dw_registry w)))))"

section \<open>Counters\<close>

record read_counters =
  rd_records :: int
  rd_bytes :: int
  rd_requests :: int
  rd_candidate_duplicates :: int
  rd_baseline_duplicates :: int

record validation_counters =
  vd_tasks_created :: int
  vd_tasks_terminal :: int
  vd_direct_capsules :: int
  vd_provider_requests :: int
  vd_provider_elapsed :: rat
  vd_host_years :: int
  vd_eed :: rat
  vd_max_sequence :: int

definition open_run :: "run_key \<Rightarrow> source_run \<Rightarrow> bool" where
  "open_run k r = (key_of_run r = k \<and> \<not> sn_closed r)"

definition update_open_run :: "run_key \<Rightarrow> (source_run \<Rightarrow> source_run) \<Rightarrow> unit discovery" where
  "update_open_run k f = in_registry (\<lambda>d. check (tbl_count (open_run k) (rg_runs d) = 1) KeyError (Inr ((), update_runs (open_run k) f d)))"

definition set_read :: "read_counters \<Rightarrow> time option \<Rightarrow> bool \<Rightarrow> time \<Rightarrow> source_run \<Rightarrow> source_run" where
  "set_read c finished finish now r = r\<lparr>sn_records := rd_records c, sn_bytes := rd_bytes c, sn_requests := rd_requests c,
     sn_candidate_duplicates := rd_candidate_duplicates c, sn_baseline_duplicates := rd_baseline_duplicates c,
     sn_read_finished := finished, sn_read_complete := finish, sn_updated_at := now\<rparr>"

definition set_validation :: "validation_counters \<Rightarrow> bool \<Rightarrow> time \<Rightarrow> source_run \<Rightarrow> source_run" where
  "set_validation v finish now r = r\<lparr>sn_tasks_created := vd_tasks_created v, sn_tasks_terminal := vd_tasks_terminal v,
     sn_direct_capsules := vd_direct_capsules v, sn_provider_requests := vd_provider_requests v, sn_provider_elapsed := vd_provider_elapsed v,
     sn_host_years := vd_host_years v, sn_eed := vd_eed v, sn_max_sequence := vd_max_sequence v, sn_validation_complete := finish,
     sn_updated_at := now\<rparr>"

text \<open>After the row the exposure: its progress is another transaction, and may raise.\<close>

definition follow_exposure :: "run_key \<Rightarrow> exposure_state \<Rightarrow> progress \<Rightarrow> time \<Rightarrow> source_run discovery" where
  "follow_exposure k st p now = act_then (act_read (\<lambda>w. get_source_run_outcome k (dw_registry w))) (\<lambda>r.
     act_then (case (case r of None \<Rightarrow> None | Some r \<Rightarrow> sn_exposure r) of None \<Rightarrow> act_return ()
       | Some i \<Rightarrow> act_then (control_prog (record_production_exposure_progress i st p now)) (\<lambda>_. act_return ())) (\<lambda>_. read_run k))"

definition record_source_run_read ::
  "run_key \<Rightarrow> read_counters \<Rightarrow> time option \<Rightarrow> bool \<Rightarrow> time \<Rightarrow> time \<Rightarrow> source_run discovery" where
  "record_source_run_read k c finished finish t1 t2 =
     (if list_ex (\<lambda>n. n < 0) [rd_records c, rd_bytes c, rd_requests c, rd_candidate_duplicates c, rd_baseline_duplicates c] \<or>
         (case finished of None \<Rightarrow> False | Some t \<Rightarrow> t < 0) \<or> t1 < 0
      then act_raise ValueError
      else act_then (update_open_run k (set_read c (if \<not> finish \<and> finished = None then None
             else Some (case finished of None \<Rightarrow> t1 | Some t \<Rightarrow> t)) finish t1)) (\<lambda>_.
        follow_exposure k (if finish then E_READ_COMPLETE else E_RUNNING) (no_progress\<lparr>pg_source_records := Some (rd_records c),
          pg_source_bytes := Some (rd_bytes c), pg_source_requests := Some (rd_requests c)\<rparr>) t2))"

definition record_source_run_validation ::
  "run_key \<Rightarrow> validation_counters \<Rightarrow> bool \<Rightarrow> time \<Rightarrow> time \<Rightarrow> source_run discovery" where
  "record_source_run_validation k v finish t1 t2 =
     (if list_ex (\<lambda>n. n < 0) [vd_tasks_created v, vd_tasks_terminal v, vd_direct_capsules v, vd_provider_requests v, vd_host_years v, vd_max_sequence v] \<or>
         vd_tasks_created v < vd_tasks_terminal v \<or> vd_provider_elapsed v < 0 \<or> vd_eed v < 0 \<or> t1 < 0
      then act_raise ValueError
      else act_then (update_open_run k (set_validation v finish t1)) (\<lambda>_.
        follow_exposure k E_VALIDATING (no_progress\<lparr>pg_provider_requests := Some (vd_provider_requests v),
          pg_provider_elapsed_seconds := Some (vd_provider_elapsed v), pg_accepted_host_years := Some (vd_host_years v),
          pg_evidence_frontier := Some (vd_max_sequence v)\<rparr>) t2))"

section \<open>Closing\<close>

definition closed_under :: "string \<Rightarrow> string \<times> string \<Rightarrow> registry \<Rightarrow> source_run list" where
  "closed_under source auth d = filter (\<lambda>r. sn_source r = source \<and> (sn_baseline r, sn_model r) = auth \<and> sn_closed r) (rg_runs d)"

definition run_cost :: "source_run \<Rightarrow> rat" where
  "run_cost r = sn_provider_elapsed r + (case (sn_read_started r, sn_read_finished r) of (Some a, Some b) \<Rightarrow> max 0 (b - a) | _ \<Rightarrow> 0)"

definition publish_source_aggregate :: "string \<Rightarrow> string \<times> string \<Rightarrow> time \<Rightarrow> registry \<Rightarrow> py_error + registry" where
  "publish_source_aggregate source auth now d =
     (let rs = closed_under source auth d in
      if rs = [] then Inr d
      else check (0 \<le> now) ValueError (publish_final \<lparr>fr_source = source, fr_eed = sum_list (List.map sn_eed rs),
             fr_cost = sum_list (List.map run_cost rs), fr_baseline = Some (fst auth), fr_model = Some (snd auth),
             fr_closed_runs = int (length rs), fr_zero_runs = int (length (filter (\<lambda>r. sn_eed r = 0) rs)), fr_updated_at = now\<rparr> d))"

definition run_finished :: "source_run \<Rightarrow> bool" where
  "run_finished r = (sn_read_complete r \<and> sn_validation_complete r \<and> sn_tasks_terminal r = sn_tasks_created r)"

definition close_run_txn :: "run_key \<Rightarrow> time \<Rightarrow> time \<Rightarrow> registry \<Rightarrow> py_error + (bool \<times> registry)" where
  "close_run_txn k t1 t2 d = (case get_source_run_outcome k d of None \<Rightarrow> Inl KeyError | Some r \<Rightarrow>
     if sn_closed r \<or> \<not> run_finished r then Inr (False, d)
     else check (0 \<le> t1) ValueError (
       bindr (publish_source_aggregate (rk_source k) (run_authority k) t2
         (update_runs (open_run k) (\<lambda>r. r\<lparr>sn_closed := True, sn_closed_at := Some t1, sn_updated_at := t1\<rparr>) d)) (\<lambda>d'. Inr (True, d'))))"

text \<open>The exposure first: it is finalized, and a platform harvest published, before the run is closed.\<close>

definition finalize_first :: "run_key \<Rightarrow> source_run \<Rightarrow> string \<Rightarrow> time \<Rightarrow> time \<Rightarrow> bool discovery" where
  "finalize_first k r i t1 t2 =
     (if \<not> run_finished r then act_return False
      else act_then (act_query (\<lambda>w. get_production_exposure i (dw_control w))) (\<lambda>e. case e of None \<Rightarrow> act_return False | Some e \<Rightarrow>
        act_then (in_control (finalize_production_exposure i (sn_eed r) (sn_host_years r) (sn_max_sequence r) (run_authority k) t1)) (\<lambda>ok.
        if \<not> ok then act_return False
        else if pe_lane e = ''platform_year''
        then in_control (publish_platform_year_final i (sn_eed r) (sn_host_years r) (sn_max_sequence r) t2)
        else act_return True)))"

definition close_source_run :: "run_key \<Rightarrow> time \<Rightarrow> time \<Rightarrow> time \<Rightarrow> time \<Rightarrow> bool discovery" where
  "close_source_run k t1 t2 t3 t4 =
     act_then (act_read (\<lambda>w. current_scout_authority (dw_registry w))) (\<lambda>current.
     if current \<noteq> None \<and> current \<noteq> Some (run_authority k) then act_return False
     else act_then (act_read (\<lambda>w. get_source_run_outcome k (dw_registry w))) (\<lambda>r. case r of None \<Rightarrow> act_raise KeyError | Some r \<Rightarrow>
       if sn_terminal_state r \<noteq> None \<and> sn_terminal_state r \<noteq> Some ''FINAL_CLOSED'' then act_return False
       else act_then (case sn_exposure r of None \<Rightarrow> act_return True | Some i \<Rightarrow> finalize_first k r i t1 t2) (\<lambda>ready.
         if ready then in_registry (close_run_txn k t3 t4) else act_return False)))"

section \<open>Aborting and recovering\<close>

definition abandoned_state :: "string \<Rightarrow> exposure_state" where
  "abandoned_state s = (if s = ''ABORTED'' then E_ABORTED else E_EXPIRED)"

definition unfinished_run :: "run_key \<Rightarrow> source_run \<Rightarrow> bool" where
  "unfinished_run k r = (key_of_run r = k \<and> sn_terminal_state r = None \<and> \<not> sn_closed r)"

definition abandon_run :: "run_key \<Rightarrow> string \<Rightarrow> string \<Rightarrow> time \<Rightarrow> registry \<Rightarrow> py_error + (bool \<times> registry)" where
  "abandon_run k state reason now d = Inr (tbl_count (unfinished_run k) (rg_runs d) = 1, update_runs (unfinished_run k)
     (\<lambda>r. r\<lparr>sn_terminal_state := Some state, sn_terminal_reason := Some (py_strip reason), sn_updated_at := now\<rparr>) d)"

definition abort_source_run :: "run_key \<Rightarrow> string \<Rightarrow> string \<Rightarrow> time \<Rightarrow> time \<Rightarrow> bool discovery" where
  "abort_source_run k state reason t1 t2 =
     (if state \<notin> set [''ABORTED'', ''EXPIRED''] \<or> blank reason then act_raise ValueError
      else act_then (act_read (\<lambda>w. get_source_run_outcome k (dw_registry w))) (\<lambda>r. case r of None \<Rightarrow> act_raise KeyError | Some r \<Rightarrow>
        if sn_terminal_state r \<noteq> None then act_return (sn_terminal_state r = Some state \<and> sn_terminal_reason r = Some reason)
        else act_then (case sn_exposure r of None \<Rightarrow> act_return ()
            | Some i \<Rightarrow> act_then (in_control (abort_production_exposure i (abandoned_state state) reason (Some (run_authority k)) t1))
                (\<lambda>_. act_return ())) (\<lambda>_.
          if t2 < 0 then act_raise ValueError
          else in_registry (abandon_run k state reason t2))))"

definition dead_runs :: "discovery_world \<Rightarrow> (source_run \<times> lease_state) list" where
  "dead_runs w = sort_key (\<lambda>(r, _). (sn_source r, sn_lease r)) (List.map_filter (\<lambda>r.
     case lease_row (sn_lease r) (dw_control w) of None \<Rightarrow> None | Some l \<Rightarrow>
       if \<not> sn_closed r \<and> sn_terminal_state r = None \<and> wl_state l \<in> {L_ABORTED, L_EXPIRED} then Some (r, wl_state l) else None)
     (rg_runs (dw_registry w)))"

definition recovery_reason :: "lease_state \<Rightarrow> string" where
  "recovery_reason st = ''recovered source run after lease '' @ py_lower (lease_state_value st)"

text \<open>The clock of the control store while the exposures are recovered is \<open>now\<close>.\<close>

definition recover_source_runs :: "time \<Rightarrow> (run_key \<Rightarrow> time \<times> time) \<Rightarrow> nat discovery" where
  "recover_source_runs now clock =
     act_then (in_control (recover_expired_leases (Some now) now)) (\<lambda>_.
     act_then (in_control (\<lambda>d. Inr (length (recoverable d), fold (close_dead now d) (recoverable d) d))) (\<lambda>_.
     act_then (act_read dead_runs) (act_sum (\<lambda>(r, st).
       act_then (abort_source_run (key_of_run r) (lease_state_value st) (recovery_reason st) (fst (clock (key_of_run r))) (snd (clock (key_of_run r))))
         (\<lambda>ok. act_return (if ok then 1 else 0))))))"

definition exhausted_sources :: "discovery_world \<Rightarrow> string list" where
  "exhausted_sources w = sort (List.map cr_key (filter (\<lambda>c. sc_state c = S_ACTIVE \<and>
     list_ex (\<lambda>a. ac_source_key a = cr_key c \<and> list_ex (\<lambda>r. rv_reservoir_id r = ac_reservoir_id a \<and> rv_state r = R_EXHAUSTED)
       (cd_reservoirs (dw_control w))) (cd_activations (dw_control w))) (rg_candidates (dw_registry w))))"

definition reconcile_exhausted_activations :: "url_library \<Rightarrow> (string \<Rightarrow> time) \<Rightarrow> nat discovery" where
  "reconcile_exhausted_activations U clock = act_then (act_read exhausted_sources) (act_sum (\<lambda>key.
     act_then (lift_registry (transition U key S_EXHAUSTED (clock key))) (\<lambda>_. act_return 1)))"

end
