(* ===== verification/Source_Calls.thy ===== *)
theory Source_Calls
  imports Source_Runs
begin

text \<open>
  The registry as a step relation.  A call is one method with its arguments; \<open>perform_call\<close> runs it.  What
  a call makes durable is a sequence of transactions, and \<open>registry_step\<close> lists what one transaction can
  do to the registry: \<open>calls_step\<close> proves the list complete.  A state is reachable when calls, interrupted
  after any transaction, lead to it from an empty database; \<open>M\<close> is the credit given to each search episode
  by hand on the way.
\<close>

section \<open>Steps\<close>

text \<open>What the tables of LLM episodes, sketches, triage, formats, layouts, schemas and suppressions leave.\<close>

definition registry_core :: "registry \<Rightarrow> registry" where
  "registry_core d = d\<lparr>rg_llm_episodes := [], rg_llm_hypotheses := [], rg_llm_credits := [], rg_sketches := [], rg_triage := [],
     rg_formats := [], rg_layouts := [], rg_schemas := [], rg_suppressions := []\<rparr>"

inductive registry_step :: "url_library \<Rightarrow> codec \<Rightarrow> (string \<times> rat) option \<Rightarrow> registry \<Rightarrow> registry \<Rightarrow> bool" for U E where
  aside: "registry_core d' = registry_core d \<Longrightarrow> registry_step U E None d d'"
| authority: "install_authority auth now d = Inr (x, d') \<Longrightarrow> registry_step U E None d d'"
| episode: "insert_episode (new_episode i s b q a now) d = Inr (u, d') \<Longrightarrow> registry_step U E None d d'"
| finish: "finish_episode i cost ps ss now d = Inr (u, d') \<Longrightarrow> registry_step U E None d d'"
| credit: "credit_episode i eed d = Inr (u, d') \<Longrightarrow> 0 \<le> eed \<Longrightarrow> registry_step U E (Some (i, eed)) d d'"
| final: "publish_final f d = Inr d' \<Longrightarrow> 0 \<le> fr_eed f \<Longrightarrow> registry_step U E None d d'"
| no_finals: "clear_finals d = Inr (u, d') \<Longrightarrow> registry_step U E None d d'"
| proposal: "propose U E c ep i now d = Inr (x, d') \<Longrightarrow> registry_step U E None d d'"
| claim: "claim_activation key now d = Inr (u, d') \<Longrightarrow> registry_step U E None d d'"
| fail: "fail_activation key reason p s now d = Inr (u, d') \<Longrightarrow> registry_step U E None d d'"
| move: "move_candidate key target now d = Inr (u, d') \<Longrightarrow> registry_step U E None d d'"
| reason: "explain key reason now d = Inr (x, d') \<Longrightarrow> registry_step U E None d d'"
| adapter: "bind_adapter key f l s expected now d = Inr (u, d') \<Longrightarrow> registry_step U E None d d'"
| measure: "measure_source key m given now d = Inr (x, d') \<Longrightarrow> 0 \<le> novel_eed_for_ranking m \<Longrightarrow> registry_step U E None d d'"
| link: "link_sources p c rel now d = Inr (x, d') \<Longrightarrow> p \<noteq> c \<Longrightarrow> registry_step U E None d d'"
| run: "d' = insert_run k e started now d \<Longrightarrow> registry_step U E None d d'"
| adopt: "d' = adopt_exposure k e (insert_run k e started now d) \<Longrightarrow> registry_step U E None d d'"
| reading: "d' = update_runs (open_run k) (set_read rc t b now) d \<Longrightarrow> registry_step U E None d d'"
| validation: "d' = update_runs (open_run k) (set_validation v b now) d \<Longrightarrow> 0 \<le> vd_eed v \<Longrightarrow> registry_step U E None d d'"
| close: "close_run_txn k t1 t2 d = Inr (x, d') \<Longrightarrow> registry_step U E None d d'"
| abandon: "abandon_run k st reason now d = Inr (x, d') \<Longrightarrow> registry_step U E None d d'"

section \<open>Calls\<close>

datatype reward_call =
    Set_Authority string string time
  | Begin_Search string string string string "string option" string time
  | Finish_Search string rat int int time
  | Credit_Search string rat
  | Begin_Llm string string string string string string time
  | Finish_Llm string rat time
  | Register_Hypothesis string string string rat string time
  | Link_Llm string string
  | Record_Final string rat rat "string option" "string option" time
  | Reset_Finals

datatype lifecycle_call =
    Register_Proposal source_candidate "string option" "string option" string time
  | Begin_Activation string time
  | Activation_Failure string string bool rat time
  | Transition_To string source_state time
  | Retry_Due time "string \<Rightarrow> time"
  | Recover_Stranded "string \<Rightarrow> time"
  | Set_Reason string string time

datatype observation_call =
    Record_Sketch string "int list" time
  | Observe_Triage string triage_observation
  | Observe_Format string format_observation time
  | Observe_Layout string record_layout time
  | Observe_Schema string record_schema time
  | Bind_Adapter string format_observation record_layout "record_schema option" string time
  | Measure string scout_measurement "string option" "string option" time
  | Suppress suppression_scope string string "rat option" time
  | Suppress_Candidate source_candidate string suppression_scope "rat option" time
  | Prune_Suppressions time
  | Add_Edge string string string time

datatype run_call =
    Begin_Run run_key "time option" string time time
  | Begin_Run_For run_key string "time option" time
  | Run_Read run_key read_counters "time option" bool time time
  | Run_Validation run_key validation_counters bool time time
  | Close_Run run_key time time time time
  | Abort_Run run_key string string time time
  | Recover_Runs time "run_key \<Rightarrow> time \<times> time"
  | Reconcile "string \<Rightarrow> time"

datatype discovery_call = Rewards reward_call | Lifecycle_Of lifecycle_call | Observations observation_call | Runs run_call

definition no_result :: "('s, 'a) transactions \<Rightarrow> ('s, unit) transactions" where
  "no_result a = act_then a (\<lambda>_. act_return ())"

fun perform_reward :: "url_library \<Rightarrow> codec \<Rightarrow> reward_call \<Rightarrow> unit discovery" where
  "perform_reward U E (Set_Authority b m t) = no_result (lift_registry (set_scout_authority b m t))"
| "perform_reward U E (Begin_Search s b q a i uuid t) = no_result (lift_registry (begin_search_episode s b q a i uuid t))"
| "perform_reward U E (Finish_Search i cost ps ss t) = no_result (lift_registry (finish_search_episode i cost ps ss t))"
| "perform_reward U E (Credit_Search i eed) = no_result (lift_registry (credit_search_episode i eed))"
| "perform_reward U E (Begin_Llm i ty b a h v t) = lift_registry (begin_llm_episode i ty b a h v t)"
| "perform_reward U E (Finish_Llm i cost t) = lift_registry (finish_llm_episode i cost t)"
| "perform_reward U E (Register_Hypothesis ep i a q j t) = lift_registry (register_llm_hypothesis ep i a q j t)"
| "perform_reward U E (Link_Llm s h) = lift_registry (link_llm_source s h)"
| "perform_reward U E (Record_Final s eed cost b m t) = lift_registry (record_final_reward U s eed cost b m t)"
| "perform_reward U E Reset_Finals = lift_registry reset_final_rewards"

fun perform_lifecycle :: "url_library \<Rightarrow> codec \<Rightarrow> lifecycle_call \<Rightarrow> unit discovery" where
  "perform_lifecycle U E (Register_Proposal c ep i uuid t) = no_result (lift_registry (register_proposal U E c ep i uuid t))"
| "perform_lifecycle U E (Begin_Activation k t) = no_result (lift_registry (begin_activation U k t))"
| "perform_lifecycle U E (Activation_Failure k r p s t) = no_result (lift_registry (record_activation_failure U k r p s t))"
| "perform_lifecycle U E (Transition_To k target t) = no_result (lift_registry (transition U k target t))"
| "perform_lifecycle U E (Retry_Due now clock) = no_result (lift_registry (retry_due_activations U now clock))"
| "perform_lifecycle U E (Recover_Stranded clock) = no_result (lift_registry (recover_stranded_activations U clock))"
| "perform_lifecycle U E (Set_Reason k r t) = lift_registry (set_state_reason k r t)"

fun perform_observation :: "url_library \<Rightarrow> codec \<Rightarrow> observation_call \<Rightarrow> unit discovery" where
  "perform_observation U E (Record_Sketch k xs t) = lift_registry (record_overlap_sketch U k xs t)"
| "perform_observation U E (Observe_Triage k v) = lift_registry (record_triage_observation U k v)"
| "perform_observation U E (Observe_Format k v t) = no_result (lift_registry (record_format_observation U k v t))"
| "perform_observation U E (Observe_Layout k v t) = no_result (lift_registry (record_layout_observation U k v t))"
| "perform_observation U E (Observe_Schema k v t) = no_result (lift_registry (record_schema_observation U k v t))"
| "perform_observation U E (Bind_Adapter k f l s r t) = no_result (lift_registry (apply_validated_adapter_binding U k f l s r t))"
| "perform_observation U E (Measure k m b v t) = no_result (lift_registry (record_scout_measurement U k m b v t))"
| "perform_observation U E (Suppress sc k r ttl t) = lift_registry (suppress sc k r ttl t)"
| "perform_observation U E (Suppress_Candidate c r sc ttl t) = lift_registry (suppress_candidate U E c r sc ttl t)"
| "perform_observation U E (Prune_Suppressions t) = no_result (lift_registry (prune_expired_suppressions t))"
| "perform_observation U E (Add_Edge p c r t) = no_result (lift_registry (add_edge p c r t))"

fun perform_run :: "url_library \<Rightarrow> codec \<Rightarrow> run_call \<Rightarrow> unit discovery" where
  "perform_run U E (Begin_Run k s uuid t1 t2) = no_result (begin_source_run U k s uuid t1 t2)"
| "perform_run U E (Begin_Run_For k i s t) = no_result (begin_source_run_for_exposure U k i s t)"
| "perform_run U E (Run_Read k c f b t1 t2) = no_result (record_source_run_read k c f b t1 t2)"
| "perform_run U E (Run_Validation k v b t1 t2) = no_result (record_source_run_validation k v b t1 t2)"
| "perform_run U E (Close_Run k t1 t2 t3 t4) = no_result (close_source_run k t1 t2 t3 t4)"
| "perform_run U E (Abort_Run k s r t1 t2) = no_result (abort_source_run k s r t1 t2)"
| "perform_run U E (Recover_Runs t clock) = no_result (recover_source_runs t clock)"
| "perform_run U E (Reconcile clock) = no_result (reconcile_exhausted_activations U clock)"

fun perform_call :: "url_library \<Rightarrow> codec \<Rightarrow> discovery_call \<Rightarrow> unit discovery" where
  "perform_call U E (Rewards c) = perform_reward U E c"
| "perform_call U E (Lifecycle_Of c) = perform_lifecycle U E c"
| "perform_call U E (Observations c) = perform_observation U E c"
| "perform_call U E (Runs c) = perform_run U E c"

text \<open>A measurement comes out of its constructor; the close of a run adds up stored rewards.\<close>

definition proper_call :: "discovery_call \<Rightarrow> bool" where
  "proper_call c = (case c of Observations (Measure k m b v t) \<Rightarrow> scout_measurement_init m = Inr m | _ \<Rightarrow> True)"

definition by_hand :: "discovery_call \<Rightarrow> (string \<times> rat) option" where
  "by_hand c = (case c of Rewards (Credit_Search i eed) \<Rightarrow> Some (i, eed) | _ \<Rightarrow> None)"

section \<open>Every durable state is a step\<close>

text \<open>\<open>along S a\<close>: each durable state of \<open>a\<close> has a registry that steps lead to.\<close>

definition along :: "(registry \<Rightarrow> registry \<Rightarrow> bool) \<Rightarrow> ('s \<Rightarrow> registry) \<Rightarrow> ('s, 'a) transactions \<Rightarrow> bool" where
  "along S reg a \<longleftrightarrow> (\<forall>w. \<forall>w' \<in> set (snd (a w)). S\<^sup>*\<^sup>* (reg w) (reg w'))"

named_theorems along_rules

lemma along_last: "along S reg a \<Longrightarrow> S\<^sup>*\<^sup>* (reg w) (reg (last_world w (snd (a w))))"
proof (cases "snd (a w)" rule: rev_cases)
  case (snoc h w')
  then have "last_world w (snd (a w)) = w'" "w' \<in> set (snd (a w))" by (simp_all add: last_world_def)
  then show "along S reg a \<Longrightarrow> S\<^sup>*\<^sup>* (reg w) (reg (last_world w (snd (a w))))" by (auto simp: along_def)
qed simp

lemma along_then [along_rules]:
  assumes a: "along S reg a" and f: "\<And>x. along S reg (f x)"
  shows "along S reg (act_then a f)"
  unfolding along_def
proof (intro allI ballI)
  fix w w' assume w': "w' \<in> set (snd (act_then a f w))"
  obtain r h where r: "a w = (r, h)" by fastforce
  show "S\<^sup>*\<^sup>* (reg w) (reg w')"
  proof (cases "w' \<in> set h")
    case True
    with a r show ?thesis by (fastforce simp: along_def)
  next
    case False
    then obtain x where x: "r = Inr x" and "w' \<in> set (snd (f x (last_world w h)))"
      using w' r by (cases r) (auto simp: act_then_def split: prod.splits)
    then have "S\<^sup>*\<^sup>* (reg (last_world w h)) (reg w')" using f [of x] by (simp add: along_def)
    with along_last [OF a, of w] r show ?thesis by simp
  qed
qed

lemma along_plain [along_rules]:
  "along S reg (act_return x)" "along S reg (act_raise e)" "along S reg (act_init v)" "along S reg (act_read q)" "along S reg (act_query g)"
  by (simp_all add: along_def act_return_def act_raise_def act_init_def act_read_def act_query_def)

lemma along_if [along_rules]: "(b \<Longrightarrow> along S reg a) \<Longrightarrow> (\<not> b \<Longrightarrow> along S reg a') \<Longrightarrow> along S reg (if b then a else a')"
  by simp

lemma along_option [along_rules]: "(v = None \<Longrightarrow> along S reg a) \<Longrightarrow> (\<And>x. v = Some x \<Longrightarrow> along S reg (f x)) \<Longrightarrow>
    along S reg (case v of None \<Rightarrow> a | Some x \<Rightarrow> f x)"
  by (cases v) simp_all

lemma along_pair [along_rules]: "(\<And>x y. v = (x, y) \<Longrightarrow> along S reg (f x y)) \<Longrightarrow> along S reg (case v of (x, y) \<Rightarrow> f x y)"
  by (cases v) simp

lemma along_let [along_rules]: "(\<And>x. x = v \<Longrightarrow> along S reg (f x)) \<Longrightarrow> along S reg (let x = v in f x)"
  by simp

lemma along_sum [along_rules]: "(\<And>x. along S reg (f x)) \<Longrightarrow> along S reg (act_sum f xs)"
  by (induction xs) (simp_all add: along_rules)

lemma along_catch [along_rules]:
  assumes "along S reg a" "along S reg b"
  shows "along S reg (act_catch a es b)"
  unfolding along_def
proof (intro allI ballI)
  fix w w' assume w': "w' \<in> set (snd (act_catch a es b w))"
  obtain r h where r: "a w = (r, h)" by fastforce
  have "S\<^sup>*\<^sup>* (reg w) (reg (last_world w h))" using along_last [OF assms(1), of w] r by simp
  moreover have "w' \<in> set h \<or> w' \<in> set (snd (b (last_world w h)))"
    using w' r by (auto simp: act_catch_def split: sum.splits if_splits prod.splits)
  moreover have "\<forall>v \<in> set h. S\<^sup>*\<^sup>* (reg w) (reg v)" using assms(1) r by (fastforce simp: along_def)
  ultimately show "S\<^sup>*\<^sup>* (reg w) (reg w')" using assms(2) by (fastforce simp: along_def)
qed

lemma along_txn: "(\<And>d x d'. t d = Inr (x, d') \<Longrightarrow> S d d') \<Longrightarrow> along S id (act_txn t)"
  by (auto simp: along_def act_txn_def split: sum.splits)

lemma along_registry: "(\<And>d x d'. t d = Inr (x, d') \<Longrightarrow> S d d') \<Longrightarrow> along S dw_registry (in_registry t)"
  by (fastforce simp: along_def act_txn_def in_registry_def bindr_def split: sum.splits prod.splits)

lemma along_control [along_rules]: "along S dw_registry (in_control t)"
  by (auto simp: along_def act_txn_def in_control_def bindr_def split: sum.splits prod.splits)

lemma along_prog [along_rules]: "along S dw_registry (control_prog p)"
  by (auto simp: along_def control_prog_def split: prod.splits)

lemma along_lift: "along S id a \<Longrightarrow> along S dw_registry (lift_registry a)"
  by (fastforce simp: along_def lift_registry_def split: prod.splits)

lemma along_no_result: "along S reg a \<Longrightarrow> along S reg (no_result a)"
  by (simp add: no_result_def along_rules)

section \<open>The calls one by one\<close>

lemmas action_defs = set_scout_authority_def begin_search_episode_def finish_search_episode_def begin_llm_episode_def
  finish_llm_episode_def register_llm_hypothesis_def link_llm_source_def record_final_reward_def reset_final_rewards_def
  record_overlap_sketch_def register_proposal_def begin_activation_def record_activation_failure_def transition_def
  retry_due_activations_def recover_stranded_activations_def set_state_reason_def record_triage_observation_def
  record_format_observation_def record_layout_observation_def record_schema_observation_def replace_observation_def
  apply_validated_adapter_binding_def record_scout_measurement_def suppress_def suppress_candidate_def
  prune_expired_suppressions_def add_edge_def begin_source_run_def begin_source_run_for_exposure_def
  record_source_run_read_def record_source_run_validation_def close_source_run_def abort_source_run_def
  recover_source_runs_def reconcile_exhausted_activations_def read_candidate_def read_episode_def read_run_def
  update_open_run_def follow_exposure_def finalize_first_def

lemma core_updates [simp]:
  "registry_core (d\<lparr>rg_llm_episodes := a\<rparr>) = registry_core d" "registry_core (d\<lparr>rg_llm_hypotheses := b\<rparr>) = registry_core d"
  "registry_core (d\<lparr>rg_llm_credits := c\<rparr>) = registry_core d" "registry_core (d\<lparr>rg_triage := e\<rparr>) = registry_core d"
  "registry_core (d\<lparr>rg_formats := f\<rparr>) = registry_core d" "registry_core (d\<lparr>rg_layouts := g\<rparr>) = registry_core d"
  "registry_core (d\<lparr>rg_schemas := h\<rparr>) = registry_core d" "registry_core (d\<lparr>rg_suppressions := i\<rparr>) = registry_core d"
  "registry_core (put_sketch k xs t d) = registry_core d"
  by (simp_all add: registry_core_def put_sketch_def)

lemma novel_eed_nonneg: "scout_measurement_init m = Inr m \<Longrightarrow> 0 \<le> novel_eed_for_ranking m"
  by (auto simp: scout_measurement_init_def novel_eed_for_ranking_def split: measurement_mode.splits)

named_theorems call_steps

lemma along_registry_calls [call_steps]:
  "along (registry_step U E None) id (set_scout_authority b m t)"
  "along (registry_step U E None) id (begin_search_episode s b q a io uuid t)"
  "along (registry_step U E None) id (finish_search_episode i cost ps ss t)"
  "along (registry_step U E None) id (begin_llm_episode i ty b a h v t)"
  "along (registry_step U E None) id (finish_llm_episode i cost t)"
  "along (registry_step U E None) id (register_llm_hypothesis e i a cost j t)"
  "along (registry_step U E None) id (link_llm_source s h)"
  "along (registry_step U E None) id (record_final_reward U s eed cost bo mo t)"
  "along (registry_step U E None) id reset_final_rewards"
  "along (registry_step U E None) id (record_overlap_sketch U k xs t)"
  "along (registry_step U E None) id (register_proposal U E c ep io uuid t)"
  unfolding action_defs
  by (intro along_rules along_txn along_let conjI; fastforce intro: registry_step.intros simp: Let_def split: if_splits)+

lemma along_candidate_calls [call_steps]:
  "along (registry_step U E None) id (begin_activation U k t)"
  "along (registry_step U E None) id (record_activation_failure U k r p secs t)"
  "along (registry_step U E None) id (transition U k target t)"
  "along (registry_step U E None) id (retry_due_activations U now clock)"
  "along (registry_step U E None) id (recover_stranded_activations U clock)"
  "along (registry_step U E None) id (set_state_reason k r t)"
  "along (registry_step U E None) id (record_triage_observation U k v)"
  "along (registry_step U E None) id (record_format_observation U k fo t)"
  "along (registry_step U E None) id (record_layout_observation U k lo t)"
  "along (registry_step U E None) id (record_schema_observation U k so t)"
  "along (registry_step U E None) id (apply_validated_adapter_binding U k fo lo so' r t)"
  "along (registry_step U E None) id (suppress sc k r ttl t)"
  "along (registry_step U E None) id (suppress_candidate U E c r sc ttl t)"
  "along (registry_step U E None) id (prune_expired_suppressions t)"
  "along (registry_step U E None) id (add_edge p' c' r t)"
  unfolding action_defs
  by (intro along_rules along_txn along_let conjI; fastforce intro: registry_step.intros simp: Let_def split: if_splits)+

text \<open>The run methods; the close of a run is the only one that reads before it writes the registry.\<close>

lemma along_run_calls [call_steps]:
  "along (registry_step U E None) dw_registry (begin_source_run U k s uuid t1 t2)"
  "along (registry_step U E None) dw_registry (begin_source_run_for_exposure U k i s t1)"
  "along (registry_step U E None) dw_registry (record_source_run_read k c f b t1 t2)"
  "along (registry_step U E None) dw_registry (record_source_run_validation k v b t1 t2)"
  "along (registry_step U E None) dw_registry (close_source_run k t1 t2 t3 t4)"
  "along (registry_step U E None) dw_registry (abort_source_run k st r t1 t2)"
  unfolding action_defs
  by (intro along_rules along_registry along_let conjI; fastforce intro: registry_step.intros simp: Let_def split: if_splits)+

lemma along_recoveries [call_steps]:
  "along (registry_step U E None) dw_registry (recover_source_runs t rclock)"
  "along (registry_step U E None) dw_registry (reconcile_exhausted_activations U clock)"
  unfolding recover_source_runs_def reconcile_exhausted_activations_def
  by (intro along_rules call_steps along_lift)+

lemma along_measure [call_steps]:
  "scout_measurement_init m = Inr m \<Longrightarrow> along (registry_step U E None) id (record_scout_measurement U k m b v t)"
  unfolding record_scout_measurement_def
  by (intro along_rules along_txn) (auto intro: registry_step.intros dest: novel_eed_nonneg)

lemma credit_step: "along (registry_step U E (Some (i, eed))) id (credit_search_episode i eed)"
  unfolding credit_search_episode_def read_episode_def
  by (intro along_rules along_txn) (auto intro: registry_step.intros)

lemma credit_once: "length (snd (credit_search_episode i eed d)) \<le> 1"
  by (auto simp: credit_search_episode_def read_episode_def act_then_def act_txn_def act_query_def act_raise_def split: sum.splits prod.splits)

lemma calls_step:
  assumes "proper_call c" "by_hand c = None"
  shows "along (registry_step U E None) dw_registry (perform_call U E c)"
proof (cases c)
  case (Rewards r)
  then show ?thesis using assms by (cases r) (simp_all add: by_hand_def call_steps along_lift along_no_result)
next
  case (Lifecycle_Of l)
  then show ?thesis by (cases l) (simp_all add: call_steps along_lift along_no_result)
next
  case (Observations v)
  then show ?thesis using assms by (cases v) (simp_all add: proper_call_def call_steps along_lift along_no_result)
next
  case (Runs r)
  then show ?thesis by (cases r) (simp_all add: call_steps along_no_result)
qed

lemma credit_call_step:
  assumes "w' \<in> set (snd (perform_call U E (Rewards (Credit_Search i eed)) w))"
  shows "registry_step U E (Some (i, eed)) (dw_registry w) (dw_registry w')"
  using assms
  by (auto simp: no_result_def act_then_def lift_registry_def credit_search_episode_def read_episode_def act_txn_def act_query_def
      act_raise_def act_return_def intro: registry_step.credit split: sum.splits prod.splits if_splits)

section \<open>Reachable states\<close>

definition add_hand :: "(string \<times> rat) option \<Rightarrow> (string \<Rightarrow> rat) \<Rightarrow> string \<Rightarrow> rat" where
  "add_hand l M = (case l of None \<Rightarrow> M | Some (i, eed) \<Rightarrow> M(i := M i + eed))"

inductive discovery_run :: "url_library \<Rightarrow> codec \<Rightarrow> nat \<Rightarrow> (string \<Rightarrow> rat) \<Rightarrow> discovery_world \<Rightarrow> bool" for U E hops where
  start: "discovery_run U E hops (\<lambda>_. 0) \<lparr>dw_registry = empty_registry hops, dw_control = empty_control\<rparr>"
| call: "discovery_run U E hops M w \<Longrightarrow> proper_call c \<Longrightarrow> w' \<in> set (snd (perform_call U E c w)) \<Longrightarrow>
    discovery_run U E hops (add_hand (by_hand c) M) w'"
| control: "discovery_run U E hops M w \<Longrightarrow> discovery_run U E hops M (w\<lparr>dw_control := d\<rparr>)"

lemma registry_chain:
  assumes "(registry_step U E None)\<^sup>*\<^sup>* d d'" "J M d" "\<And>M l d d'. J M d \<Longrightarrow> registry_step U E l d d' \<Longrightarrow> J (add_hand l M) d'"
  shows "J M d'"
  using assms(1, 2)
proof (induction rule: rtranclp_induct)
  case (step d' d'')
  then show ?case using assms(3) [of M d' None d''] by (simp add: add_hand_def)
qed

lemma discovery_run_inv:
  assumes "discovery_run U E hops M w" and start: "J (\<lambda>_. 0) (empty_registry hops)"
    and step: "\<And>M l d d'. J M d \<Longrightarrow> registry_step U E l d d' \<Longrightarrow> J (add_hand l M) d'"
  shows "J M (dw_registry w)"
  using assms(1)
proof induction
  case (call M w c w')
  show ?case
  proof (cases "by_hand c")
    case None
    then have "(registry_step U E None)\<^sup>*\<^sup>* (dw_registry w) (dw_registry w')"
      using calls_step [OF call.hyps(2) None] call.hyps(3) by (auto simp: along_def)
    from registry_chain [where J = J, OF this call.IH step] None show ?thesis by (simp add: add_hand_def)
  next
    case (Some l)
    then obtain i eed where c: "c = Rewards (Credit_Search i eed)" and l: "l = (i, eed)"
      by (auto simp: by_hand_def split: discovery_call.splits reward_call.splits)
    have "registry_step U E (Some (i, eed)) (dw_registry w) (dw_registry w')"
      using call.hyps(3) unfolding c by (rule credit_call_step)
    from step [OF call.IH this] Some l show ?thesis by simp
  qed
qed (simp_all add: start)

end
