(* ===== verification/Source_Ledger.thy ===== *)
theory Source_Ledger
  imports Source_Calls
begin

text \<open>
  The reward ledger of the search episodes.  Every episode carries a balance, every discovered source one
  attribution with the credit it earned.  \<open>ledger_ok\<close> says that a balance is the credit given by hand plus
  the credits of the episode's sources; no step breaks it, whatever authority is installed, reset or
  superseded in between.
\<close>

section \<open>Balances\<close>

interpretation episodes: keyed_table se_id "\<lambda>f. \<forall>r. se_id (f r) = se_id r"
  by unfold_locales simp

definition balance :: "string \<Rightarrow> registry \<Rightarrow> rat" where
  "balance i d = (case tbl_find (\<lambda>e. se_id e = i) (rg_episodes d) of None \<Rightarrow> 0 | Some e \<Rightarrow> se_accepted_eed e)"

definition credited :: "string \<Rightarrow> attribution list \<Rightarrow> rat" where
  "credited i as = (\<Sum>a\<leftarrow>as. if at_episode a = i then at_credited a else 0)"

definition episode_ids :: "registry \<Rightarrow> string list" where
  "episode_ids d = List.map se_id (rg_episodes d)"

definition ledger_shape :: "registry \<Rightarrow> bool" where
  "ledger_shape d \<longleftrightarrow> distinct (episode_ids d) \<and> distinct (List.map at_source (rg_attribution d)) \<and>
     (\<forall>a \<in> set (rg_attribution d). 0 \<le> at_credited a \<and> at_episode a \<in> set (episode_ids d)) \<and>
     (\<forall>p \<in> set (rg_proposals d). \<forall>e. pp_episode p = Some e \<longrightarrow> e \<in> set (episode_ids d)) \<and>
     (\<forall>f \<in> set (rg_finals d). 0 \<le> fr_eed f) \<and> (\<forall>r \<in> set (rg_runs d). 0 \<le> sn_eed r)"

definition ledger_ok :: "(string \<Rightarrow> rat) \<Rightarrow> registry \<Rightarrow> bool" where
  "ledger_ok M d \<longleftrightarrow> ledger_shape d \<and> (\<forall>i. 0 \<le> M i) \<and> (\<forall>i. balance i d = M i + credited i (rg_attribution d))"

lemma credited_simps [simp]: "credited i [] = 0"
  "credited i (a # as) = (if at_episode a = i then at_credited a else 0) + credited i as"
  "credited i (as @ bs) = credited i as + credited i bs"
  by (simp_all add: credited_def)

lemma credited_nonneg: "\<forall>a \<in> set as. 0 \<le> at_credited a \<Longrightarrow> 0 \<le> credited i as"
  by (induction as) auto

lemma credited_filter_le: "\<forall>a \<in> set as. 0 \<le> at_credited a \<Longrightarrow> credited i (filter P as) \<le> credited i as"
  by (induction as) auto

lemma credited_elsewhere: "i \<notin> at_episode ` set as \<Longrightarrow> credited i as = 0"
  by (induction as) auto

lemma credited_filter: "sum_list (List.map at_credited (filter (\<lambda>a. at_episode a = i) as)) = credited i as"
  by (induction as) auto

text \<open>An update that keeps the episodes: the credit moves by the change of the updated rows.\<close>

lemma credited_cleared:
  assumes "\<And>a. at_episode (f a) = at_episode a" "\<And>a. at_credited (f a) = 0"
  shows "credited i (tbl_update P f as) = credited i as - credited i (filter P as)"
  by (induction as) (auto simp: tbl_update_def assms)

lemma credited_one:
  assumes "distinct (List.map at_source as)" "tbl_find (\<lambda>a. at_source a = s) as = Some a"
    and "\<And>a. at_episode (f a) = at_episode a" "\<And>a. at_credited (f a) = c"
  shows "credited i (tbl_update (\<lambda>a. at_source a = s) f as) = credited i as + (if at_episode a = i then c - at_credited a else 0)"
  using assms(1, 2)
proof (induction as)
  case (Cons x as)
  show ?case
  proof (cases "at_source x = s")
    case True
    then have "\<And>a. a \<in> set as \<Longrightarrow> at_source a \<noteq> s" using Cons.prems(1) True by simp (metis image_eqI)
    then have "tbl_update (\<lambda>a. at_source a = s) f as = as" by (rule tbl_update_none)
    with True Cons.prems show ?thesis by (auto simp: tbl_update_def tbl_find_def assms)
  next
    case False
    with Cons show ?thesis by (auto simp: tbl_update_def tbl_find_def)
  qed
qed (simp add: tbl_find_def)

section \<open>Moving a balance\<close>

lemma balance_missing: "i \<notin> set (episode_ids d) \<Longrightarrow> balance i d = 0"
proof -
  assume "i \<notin> set (episode_ids d)"
  then have "tbl_find (\<lambda>e. se_id e = i) (rg_episodes d) = None" unfolding tbl_find_None by (auto simp: episode_ids_def)
  then show ?thesis by (simp add: balance_def)
qed

lemma balance_frame [simp]: "balance i (d\<lparr>rg_attribution := as\<rparr>) = balance i d" "balance i (d\<lparr>rg_llm_credits := lc\<rparr>) = balance i d"
  "balance i (d\<lparr>rg_finals := fs\<rparr>) = balance i d" "balance i (d\<lparr>rg_authority := au\<rparr>) = balance i d"
  by (simp_all add: balance_def)

lemma add_credit_frame [simp]:
  "rg_attribution (add_credit e q d) = rg_attribution d" "rg_finals (add_credit e q d) = rg_finals d"
  "rg_runs (add_credit e q d) = rg_runs d" "rg_proposals (add_credit e q d) = rg_proposals d"
  "episode_ids (add_credit e q d) = episode_ids d" "rg_candidates (add_credit e q d) = rg_candidates d"
  "rg_authority (add_credit e q d) = rg_authority d" "rg_edges (add_credit e q d) = rg_edges d"
  "rg_max_hops (add_credit e q d) = rg_max_hops d" "rg_metrics (add_credit e q d) = rg_metrics d"
  "rg_llm_credits (add_credit e q d) = rg_llm_credits d"
  by (simp_all add: add_credit_def episode_ids_def tbl_update_def comp_def if_distrib cong: if_cong)

lemma balance_add:
  assumes "distinct (episode_ids d)"
  shows "balance i (add_credit e q d) = (if i = e \<and> i \<in> set (episode_ids d) then max 0 (balance i d + q) else balance i d)"
proof (cases "i \<in> set (episode_ids d)")
  case False
  then show ?thesis using balance_missing [of i] by (simp add: add_credit_frame)
next
  case True
  let ?f = "\<lambda>e :: episode_row. e\<lparr>se_accepted_eed := max 0 (se_accepted_eed e + q)\<rparr>"
  have u: "uniq se_id (rg_episodes d)" using assms by (simp add: uniq_def episode_ids_def)
  have f: "\<forall>r. se_id (?f r) = se_id r" by simp
  have "tbl_find (\<lambda>e. se_id e = i) (rg_episodes d) \<noteq> None"
    using True unfolding tbl_find_None by (auto simp: episode_ids_def)
  with True show ?thesis
    using episodes.find_after_update [OF f u, of i e] by (auto simp: balance_def add_credit_def split: option.splits)
qed

text \<open>Withdrawals that the balances can pay.\<close>

lemma balance_withdraw_all:
  assumes "distinct es" "distinct (episode_ids d)" "\<And>i. credited i stale \<le> balance i d" "\<And>i. 0 \<le> credited i stale"
  shows "balance i (fold (withdraw stale) es d) = balance i d - (if i \<in> set es then credited i stale else 0) \<and>
    episode_ids (fold (withdraw stale) es d) = episode_ids d"
  using assms(1)
proof (induction es arbitrary: i rule: rev_induct)
  case (snoc e es)
  let ?d = "fold (withdraw stale) es d"
  have IH: "\<And>i. balance i ?d = balance i d - (if i \<in> set es then credited i stale else 0)" "episode_ids ?d = episode_ids d"
    using snoc by auto
  have "e \<notin> set es" using snoc.prems by simp
  have paid: "balance i (withdraw stale e ?d) = balance i ?d - (if i = e then credited i stale else 0)"
  proof (cases "credited e stale \<le> 0 \<or> i \<noteq> e")
    case True
    then show ?thesis using assms(4) [of e] by (auto simp: withdraw_def credited_filter Let_def balance_add IH(2) assms(2) intro: antisym)
  next
    case False
    then have "i \<in> set (episode_ids d)" using balance_missing [of i d] assms(3) [of i] by auto
    with False show ?thesis
      using assms(3) [of e] IH(1) [of e] \<open>e \<notin> set es\<close> by (auto simp: withdraw_def credited_filter Let_def balance_add IH(2) assms(2))
  qed
  have "episode_ids (withdraw stale e ?d) = episode_ids ?d" by (simp add: withdraw_def Let_def)
  with paid IH \<open>e \<notin> set es\<close> show ?case by auto
qed simp

lemma balance_refund_all:
  assumes "distinct (episode_ids d)" "\<And>i. credited i as \<le> balance i d" "\<forall>a \<in> set as. 0 \<le> at_credited a"
  shows "balance i (fold (\<lambda>a d. if at_credited a = 0 then d else add_credit (at_episode a) (- at_credited a) d) as d) =
      balance i d - credited i as \<and>
    episode_ids (fold (\<lambda>a d. if at_credited a = 0 then d else add_credit (at_episode a) (- at_credited a) d) as d) = episode_ids d"
  using assms
proof (induction as arbitrary: d)
  case (Cons a as)
  let ?d = "if at_credited a = 0 then d else add_credit (at_episode a) (- at_credited a) d"
  have nn: "0 \<le> credited j as" for j using Cons.prems(3) by (simp add: credited_nonneg)
  have one: "balance j ?d = balance j d - (if at_episode a = j then at_credited a else 0)" for j
  proof (cases "at_credited a = 0 \<or> at_episode a \<noteq> j")
    case True
    then show ?thesis using Cons.prems(1) by (auto simp: balance_add)
  next
    case False
    with Cons.prems(3) have "0 < at_credited a" by (auto simp: less_le)
    then have "0 < balance j d" using Cons.prems(2) [of j] nn [of j] False by simp
    then have "j \<in> set (episode_ids d)" using balance_missing [of j d] by force
    with False Cons.prems(2) [of j] nn [of j] show ?thesis by (auto simp: balance_add Cons.prems(1))
  qed
  have ids: "episode_ids ?d = episode_ids d" by simp
  have "credited j as \<le> balance j ?d" for j using Cons.prems(2) [of j] one [of j] by (simp split: if_splits)
  from Cons.IH [OF _ this] Cons.prems ids one show ?case by simp
qed simp

section \<open>Rewards keep the ledger\<close>

lemma ledger_cong:
  assumes "rg_episodes d' = rg_episodes d" "rg_attribution d' = rg_attribution d" "rg_proposals d' = rg_proposals d"
    "rg_finals d' = rg_finals d" "rg_runs d' = rg_runs d"
  shows "ledger_ok M d' = ledger_ok M d"
  using assms by (simp add: ledger_ok_def ledger_shape_def episode_ids_def balance_def)

lemma shape_frame [simp]: "ledger_shape (add_credit e q d) = ledger_shape d" "ledger_shape (d\<lparr>rg_llm_credits := lc\<rparr>) = ledger_shape d"
  "ledger_shape (d\<lparr>rg_authority := au\<rparr>) = ledger_shape d"
  by (simp_all add: ledger_shape_def) (simp_all add: episode_ids_def)

lemma ids_frame [simp]: "episode_ids (d\<lparr>rg_attribution := as\<rparr>) = episode_ids d" "episode_ids (d\<lparr>rg_llm_credits := lc\<rparr>) = episode_ids d"
  "episode_ids (d\<lparr>rg_finals := fs\<rparr>) = episode_ids d" "episode_ids (d\<lparr>rg_authority := au\<rparr>) = episode_ids d"
  by (simp_all add: episode_ids_def)

lemma ledgerD:
  assumes "ledger_ok M d"
  shows "distinct (episode_ids d)" "\<forall>a \<in> set (rg_attribution d). 0 \<le> at_credited a" "0 \<le> M i"
    "balance i d = M i + credited i (rg_attribution d)" "distinct (List.map at_source (rg_attribution d))"
  using assms by (simp_all add: ledger_ok_def ledger_shape_def)

lemma ledger_credit:
  assumes ok: "ledger_ok M d" and shape: "ledger_shape (d\<lparr>rg_attribution := as\<rparr>)" and e: "e \<in> set (episode_ids d)"
    and moved: "\<And>i. credited i as = credited i (rg_attribution d) + (if e = i then q else 0)"
  shows "ledger_ok M (credit_delta e q (d\<lparr>rg_attribution := as\<rparr>))"
proof -
  have nn: "0 \<le> M e + credited e as"
    using ledgerD(3) [OF ok] shape by (auto simp: ledger_shape_def intro: add_nonneg_nonneg credited_nonneg)
  have "balance i (credit_delta e q (d\<lparr>rg_attribution := as\<rparr>)) = M i + credited i as" for i
  proof (cases "i = e")
    case True
    then show ?thesis using nn ledgerD(4) [OF ok, of e] moved [of e] e
      by (auto simp: credit_delta_def balance_add ledgerD(1) [OF ok])
  next
    case False
    then show ?thesis using ledgerD(4) [OF ok, of i] moved [of i] by (auto simp: credit_delta_def balance_add ledgerD(1) [OF ok])
  qed
  moreover have "ledger_shape (credit_delta e q (d\<lparr>rg_attribution := as\<rparr>))" using shape by (simp add: credit_delta_def)
  moreover have "rg_attribution (credit_delta e q (d\<lparr>rg_attribution := as\<rparr>)) = as" by (simp add: credit_delta_def)
  ultimately show ?thesis using ok by (simp add: ledger_ok_def)
qed

lemma effective_nonneg: "ledger_ok M d \<Longrightarrow> 0 \<le> re_eed r \<Longrightarrow> 0 \<le> re_eed (effective_reward source r d)"
  by (auto simp: effective_reward_def ledger_ok_def ledger_shape_def dest: tbl_find_SomeD split: option.splits)

lemma first_episode_known:
  assumes "ledger_ok M d" "first_episode source d = Some e"
  shows "e \<in> set (episode_ids d)"
proof -
  let ?ps = "filter (\<lambda>p. pp_source p = source \<and> pp_episode p \<noteq> None) (rg_proposals d)"
  show ?thesis
  proof (cases "tbl_order_by proposal_order ?ps")
    case Nil
    with assms(2) show ?thesis by (simp add: first_episode_def)
  next
    case (Cons p ps)
    then have e: "pp_episode p = Some e" using assms(2) by (simp add: first_episode_def)
    have "p \<in> set (tbl_order_by proposal_order ?ps)" by (simp only: Cons list.set_intros)
    then have "p \<in> set (rg_proposals d)" by simp
    with assms(1) e show ?thesis by (auto simp: ledger_ok_def ledger_shape_def)
  qed
qed

lemma ledger_attribute:
  assumes ok: "ledger_ok M d" and r: "0 \<le> re_eed r0" and run: "attribute_search_reward source r0 d = Inr d'"
  shows "ledger_ok M d'"
proof -
  let ?r = "effective_reward source r0 d"
  have r: "0 \<le> re_eed ?r" using effective_nonneg [OF ok r] .
  have shape: "ledger_shape d" using ok by (simp add: ledger_ok_def)
  show ?thesis
  proof (cases "tbl_find (\<lambda>a. at_source a = source) (rg_attribution d)")
    case None
    show ?thesis
    proof (cases "first_episode source d")
      case None
      with run \<open>tbl_find _ _ = None\<close> ok show ?thesis by (simp add: attribute_search_reward_def Let_def)
    next
      case (Some e)
      let ?as = "rg_attribution d @ [\<lparr>at_source = source, at_episode = e, at_credited = re_eed ?r, at_kind = re_kind ?r,
        at_baseline = re_baseline ?r, at_model = re_model ?r\<rparr>]"
      have d': "d' = credit_delta e (re_eed ?r) (d\<lparr>rg_attribution := ?as\<rparr>)"
        using run None Some by (auto simp: attribute_search_reward_def Let_def)
      have e: "e \<in> set (episode_ids d)" using first_episode_known [OF ok Some] .
      have "source \<notin> at_source ` set (rg_attribution d)" using None unfolding tbl_find_None by auto
      then have "ledger_shape (d\<lparr>rg_attribution := ?as\<rparr>)" using shape e r by (auto simp: ledger_shape_def)
      from ledger_credit [OF ok this e] show ?thesis unfolding d' by simp
    qed
  next
    case (Some a)
    let ?f = "\<lambda>a. a\<lparr>at_credited := re_eed ?r, at_kind := re_kind ?r, at_baseline := re_baseline ?r, at_model := re_model ?r\<rparr>"
    let ?as = "tbl_update (\<lambda>a. at_source a = source) ?f (rg_attribution d)"
    have d': "d' = credit_delta (at_episode a) (re_eed ?r - at_credited a) (d\<lparr>rg_attribution := ?as\<rparr>)"
      using run Some by (auto simp: attribute_search_reward_def Let_def)
    have a: "a \<in> set (rg_attribution d)" using Some by (auto dest: tbl_find_SomeD)
    have e: "at_episode a \<in> set (episode_ids d)" using shape a by (auto simp: ledger_shape_def)
    have "List.map at_source ?as = List.map at_source (rg_attribution d)" by (simp add: tbl_update_def)
    then have "ledger_shape (d\<lparr>rg_attribution := ?as\<rparr>)" using shape r by (auto simp: ledger_shape_def table_simps)
    from ledger_credit [OF ok this e] credited_one [OF ledgerD(5) [OF ok] Some, of ?f "re_eed ?r"]
    show ?thesis unfolding d' by simp
  qed
qed

lemma ledger_publish:
  assumes ok: "ledger_ok M d" and f: "0 \<le> fr_eed f" and run: "publish_final f d = Inr d'"
  shows "ledger_ok M d'"
proof -
  let ?d = "d\<lparr>rg_finals := tbl_upsert fr_source (\<lambda>_. f) f (rg_finals d)\<rparr>"
  obtain d1 lc where d1: "attribute_search_reward (fr_source f) \<lparr>re_eed = fr_eed f, re_kind = K_FINAL, re_baseline = fr_baseline f,
      re_model = fr_model f\<rparr> ?d = Inr d1" and d': "d' = d1\<lparr>rg_llm_credits := lc\<rparr>"
    using run by (auto simp: publish_final_def)
  have "ledger_ok M ?d" using ok f
    by (auto simp: ledger_ok_def ledger_shape_def tbl_upsert_def table_simps)
  from ledger_attribute [OF this _ d1] f have "ledger_ok M d1" by simp
  then show ?thesis unfolding d' by (simp add: ledger_cong [of "d1\<lparr>rg_llm_credits := lc\<rparr>" d1])
qed

lemma ledger_clear:
  assumes ok: "ledger_ok M d" and run: "clear_finals d = Inr (u, d')"
  shows "ledger_ok M d'"
proof -
  let ?P = "\<lambda>a. at_kind a = K_FINAL"
  let ?d = "fold (\<lambda>a d. if at_credited a = 0 then d else add_credit (at_episode a) (- at_credited a) d) (filter ?P (rg_attribution d)) d"
  let ?f = "\<lambda>a. a\<lparr>at_credited := 0, at_kind := K_INVALIDATED_FINAL, at_baseline := None, at_model := None\<rparr>"
  have nn: "\<forall>a \<in> set (rg_attribution d). 0 \<le> at_credited a" using ledgerD(2) [OF ok] .
  have le: "credited i (filter ?P (rg_attribution d)) \<le> balance i d" for i
    using ledgerD(3, 4) [OF ok, of i] credited_filter_le [OF nn, of i ?P] by simp
  have bal: "balance i ?d = balance i d - credited i (filter ?P (rg_attribution d))" "episode_ids ?d = episode_ids d" for i
    using balance_refund_all [OF ledgerD(1) [OF ok] le] nn by auto
  have "fold (\<lambda>a d. if at_credited a = 0 then d else add_credit (at_episode a) (- at_credited a) d) as d0 \<in>
      {x. rg_proposals x = rg_proposals d0 \<and> rg_runs x = rg_runs d0 \<and> rg_attribution x = rg_attribution d0}" for as d0
    by (induction as arbitrary: d0) auto
  then have frame: "rg_proposals ?d = rg_proposals d" "rg_runs ?d = rg_runs d" "rg_attribution ?d = rg_attribution d" by auto
  have d': "rg_attribution d' = tbl_update ?P ?f (rg_attribution d)" "rg_finals d' = []" "rg_proposals d' = rg_proposals d"
    "rg_runs d' = rg_runs d" "episode_ids d' = episode_ids d" "\<And>i. balance i d' = balance i ?d"
    using run bal(2) frame unfolding clear_finals_def Let_def by auto
  have "List.map at_source (tbl_update ?P ?f (rg_attribution d)) = List.map at_source (rg_attribution d)" by (simp add: tbl_update_def)
  then have "ledger_shape d'" using ok by (auto simp: ledger_ok_def ledger_shape_def d' table_simps)
  moreover have "balance i d' = M i + credited i (rg_attribution d')" for i
    using bal(1) [of i] ledgerD(4) [OF ok, of i] by (simp add: d' credited_cleared)
  ultimately show ?thesis using ok by (simp add: ledger_ok_def)
qed

lemma ledger_authority:
  assumes ok: "ledger_ok M d" and run: "install_authority auth now d = Inr (x, d')"
  shows "ledger_ok M d'"
proof -
  let ?P = "stale_credit auth d"
  let ?stale = "filter ?P (rg_attribution d)"
  let ?d = "fold (withdraw ?stale) (dedup (List.map at_episode ?stale)) d"
  let ?f = "\<lambda>a. a\<lparr>at_credited := 0\<rparr>"
  have nn: "\<forall>a \<in> set (rg_attribution d). 0 \<le> at_credited a" using ledgerD(2) [OF ok] .
  have nn': "0 \<le> credited i ?stale" for i using nn by (auto intro: credited_nonneg)
  have le: "credited i ?stale \<le> balance i d" for i
    using ledgerD(3, 4) [OF ok, of i] credited_filter_le [OF nn, of i ?P] by simp
  have "distinct (dedup (List.map at_episode ?stale))" by (simp add: dedup_def)
  from balance_withdraw_all [OF this ledgerD(1) [OF ok] le nn']
  have bal: "balance i ?d = balance i d - (if i \<in> set (dedup (List.map at_episode ?stale)) then credited i ?stale else 0)"
    "episode_ids ?d = episode_ids d" for i by blast+
  have bal': "balance i ?d = balance i d - credited i ?stale" for i
    using bal(1) [of i] credited_elsewhere [of i ?stale] by (auto simp: dedup_def)
  have "fold (withdraw as) es d0 \<in> {x. rg_proposals x = rg_proposals d0 \<and> rg_runs x = rg_runs d0 \<and> rg_finals x = rg_finals d0}" for as es d0
    by (induction es arbitrary: d0) (auto simp: withdraw_def Let_def)
  then have frame: "rg_proposals ?d = rg_proposals d" "rg_runs ?d = rg_runs d" "rg_finals ?d = rg_finals d" by auto
  have d': "rg_attribution d' = tbl_update ?P ?f (rg_attribution d)" "rg_finals d' = rg_finals d" "rg_proposals d' = rg_proposals d"
    "rg_runs d' = rg_runs d" "episode_ids d' = episode_ids d" "\<And>i. balance i d' = balance i ?d"
    using run bal(2) frame unfolding install_authority_def Let_def by auto
  have "List.map at_source (tbl_update ?P ?f (rg_attribution d)) = List.map at_source (rg_attribution d)" by (simp add: tbl_update_def)
  then have "ledger_shape d'" using ok by (auto simp: ledger_ok_def ledger_shape_def d' table_simps)
  moreover have "balance i d' = M i + credited i (rg_attribution d')" for i
    using bal' [of i] ledgerD(4) [OF ok, of i] by (simp add: d' credited_cleared)
  ultimately show ?thesis using ok by (simp add: ledger_ok_def)
qed

section \<open>Every step keeps the ledger\<close>

lemma core_fields:
  assumes "registry_core d' = registry_core d"
  shows "rg_episodes d' = rg_episodes d" "rg_attribution d' = rg_attribution d" "rg_proposals d' = rg_proposals d"
    "rg_finals d' = rg_finals d" "rg_runs d' = rg_runs d" "rg_candidates d' = rg_candidates d" "rg_edges d' = rg_edges d"
    "rg_max_hops d' = rg_max_hops d" "rg_metrics d' = rg_metrics d" "rg_authority d' = rg_authority d"
  using assms by (cases d; cases d'; simp add: registry_core_def)+

lemma set_candidate_frame [simp]:
  "rg_episodes (set_candidate k f d) = rg_episodes d" "rg_attribution (set_candidate k f d) = rg_attribution d"
  "rg_proposals (set_candidate k f d) = rg_proposals d" "rg_finals (set_candidate k f d) = rg_finals d"
  "rg_runs (set_candidate k f d) = rg_runs d" "rg_edges (set_candidate k f d) = rg_edges d"
  "rg_max_hops (set_candidate k f d) = rg_max_hops d" "rg_metrics (set_candidate k f d) = rg_metrics d"
  "rg_authority (set_candidate k f d) = rg_authority d"
  by (simp_all add: set_candidate_def)

lemma put_frame [simp]:
  "rg_episodes (put_sketch k xs t d) = rg_episodes d" "rg_attribution (put_sketch k xs t d) = rg_attribution d"
  "rg_proposals (put_sketch k xs t d) = rg_proposals d" "rg_finals (put_sketch k xs t d) = rg_finals d"
  "rg_runs (put_sketch k xs t d) = rg_runs d" "rg_edges (put_sketch k xs t d) = rg_edges d"
  "rg_max_hops (put_sketch k xs t d) = rg_max_hops d" "rg_candidates (put_sketch k xs t d) = rg_candidates d"
  "rg_metrics (put_sketch k xs t d) = rg_metrics d" "rg_authority (put_sketch k xs t d) = rg_authority d"
  by (simp_all add: put_sketch_def)

lemma ledger_runs:
  assumes "ledger_ok M d" "\<forall>r \<in> set rs. 0 \<le> sn_eed r"
  shows "ledger_ok M (d\<lparr>rg_runs := rs\<rparr>)"
  using assms by (simp add: ledger_ok_def ledger_shape_def balance_def episode_ids_def)

lemma ledger_update_runs:
  assumes "ledger_ok M d" "\<And>r. 0 \<le> sn_eed r \<Longrightarrow> 0 \<le> sn_eed (f r)"
  shows "ledger_ok M (update_runs P f d)"
  unfolding update_runs_def
  by (rule ledger_runs [OF assms(1)]) (use assms in \<open>auto simp: ledger_ok_def ledger_shape_def table_simps\<close>)

lemma ledger_insert_run: "ledger_ok M d \<Longrightarrow> ledger_ok M (insert_run k e started now d)"
  unfolding insert_run_def
  by (rule ledger_runs) (auto simp: ledger_ok_def ledger_shape_def tbl_insert_or_ignore_def new_run_def)

lemma sum_nonneg: "\<forall>r \<in> set rs. (0 :: rat) \<le> f r \<Longrightarrow> 0 \<le> sum_list (List.map f rs)"
  by (induction rs) auto

lemma ledger_close:
  assumes ok: "ledger_ok M d" and run: "close_run_txn k t1 t2 d = Inr (x, d')"
  shows "ledger_ok M d'"
proof -
  let ?d = "update_runs (open_run k) (\<lambda>r. r\<lparr>sn_closed := True, sn_closed_at := Some t1, sn_updated_at := t1\<rparr>) d"
  have d: "ledger_ok M ?d" by (rule ledger_update_runs [OF ok]) simp
  then have "0 \<le> sum_list (List.map sn_eed (closed_under (rk_source k) (run_authority k) ?d))"
    by (intro sum_nonneg) (auto simp: closed_under_def ledger_ok_def ledger_shape_def)
  with run ok d show ?thesis
    by (auto simp: close_run_txn_def publish_source_aggregate_def Let_def intro: ledger_publish [rotated 2] split: option.splits if_splits)
qed

lemma ledger_episodes:
  assumes ok: "ledger_ok M d" and shape: "ledger_shape (d\<lparr>rg_episodes := es\<rparr>)" and M: "\<And>i. 0 \<le> M' i"
    and bal: "\<And>i. balance i (d\<lparr>rg_episodes := es\<rparr>) = balance i d + (M' i - M i)"
  shows "ledger_ok M' (d\<lparr>rg_episodes := es\<rparr>)"
  using ok shape M bal by (simp add: ledger_ok_def)

lemma shape_episodes:
  "ledger_shape d \<Longrightarrow> List.map se_id es = episode_ids d \<Longrightarrow> ledger_shape (d\<lparr>rg_episodes := es\<rparr>)"
  by (simp add: ledger_shape_def episode_ids_def)

lemma ledger_new_episode:
  assumes ok: "ledger_ok M d" and run: "insert_episode (new_episode i s b q a now) d = Inr (u, d')"
  shows "ledger_ok M d'"
proof -
  let ?e = "search_episode.extend (new_episode i s b q a now) \<lparr>ep_accepted_proposals = 0, ep_new_sources = 0\<rparr>"
  have new: "se_id ?e = i" "se_accepted_eed ?e = 0" by (simp_all add: new_episode_def search_episode.defs)
  obtain rows where rows: "tbl_insert se_id ?e (rg_episodes d) = Inr rows" and d': "d' = d\<lparr>rg_episodes := rows\<rparr>"
    using run by (auto simp: insert_episode_def)
  have fresh: "i \<notin> set (episode_ids d)" and ids: "List.map se_id rows = episode_ids d @ [i]"
    using rows new by (auto simp: tbl_insert_Inr episode_ids_def)
  have "balance j d' = balance j d" for j
    using episodes.find_after_insert [OF rows, of j] balance_missing [OF fresh] new by (auto simp: d' balance_def split: option.splits)
  moreover have "ledger_shape d'" using ok fresh ids by (auto simp: d' ledger_ok_def ledger_shape_def episode_ids_def)
  ultimately show ?thesis unfolding d' using ledgerD(3) [OF ok] by (intro ledger_episodes [OF ok]) auto
qed

lemma balance_update:
  assumes "ledger_ok M d" "\<forall>e. se_id (f e) = se_id e"
  shows "balance j (d\<lparr>rg_episodes := tbl_update (\<lambda>e. se_id e = i) f (rg_episodes d)\<rparr>) =
    (case tbl_find (\<lambda>e. se_id e = j) (rg_episodes d) of None \<Rightarrow> 0 | Some e \<Rightarrow> se_accepted_eed (if i = j then f e else e))"
  using episodes.find_after_update [OF assms(2), of "rg_episodes d" j i] ledgerD(1) [OF assms(1)]
  by (auto simp: balance_def uniq_def episode_ids_def split: option.splits)

lemma ledger_finish:
  assumes ok: "ledger_ok M d" and run: "finish_episode i cost ps ss now d = Inr (u, d')"
  shows "ledger_ok M d'"
proof -
  let ?f = "\<lambda>e :: episode_row. e\<lparr>se_finished_at := Some now, se_cost := cost, ep_accepted_proposals := ps, ep_new_sources := ss\<rparr>"
  let ?es = "tbl_update (\<lambda>e. se_id e = i) ?f (rg_episodes d)"
  have d': "d' = d\<lparr>rg_episodes := ?es\<rparr>" using run by (auto simp: finish_episode_def split: option.splits)
  have "List.map se_id ?es = episode_ids d" by (simp add: tbl_update_def episode_ids_def)
  then have "ledger_shape d'" unfolding d' using ok by (intro shape_episodes) (simp_all add: ledger_ok_def)
  moreover have "balance j d' = balance j d" for j
    unfolding d' by (subst balance_update [OF ok]) (auto simp: balance_def split: option.splits)
  ultimately show ?thesis unfolding d' using ledgerD(3) [OF ok] by (intro ledger_episodes [OF ok]) auto
qed

lemma ledger_hand:
  assumes ok: "ledger_ok M d" and run: "credit_episode i eed d = Inr (u, d')" and eed: "0 \<le> eed"
  shows "ledger_ok (M(i := M i + eed)) d'"
proof -
  let ?f = "\<lambda>e :: episode_row. e\<lparr>se_accepted_eed := se_accepted_eed e + eed\<rparr>"
  let ?es = "tbl_update (\<lambda>e. se_id e = i) ?f (rg_episodes d)"
  have d': "d' = d\<lparr>rg_episodes := ?es\<rparr>" and known: "tbl_find (\<lambda>e. se_id e = i) (rg_episodes d) \<noteq> None"
    using run by (auto simp: credit_episode_def)
  have "List.map se_id ?es = episode_ids d" by (simp add: tbl_update_def episode_ids_def)
  then have "ledger_shape d'" unfolding d' using ok by (intro shape_episodes) (simp_all add: ledger_ok_def)
  moreover have "balance j d' = balance j d + (if j = i then eed else 0)" for j
    unfolding d' by (subst balance_update [OF ok]) (use known in \<open>auto simp: balance_def split: option.splits\<close>)
  ultimately show ?thesis unfolding d' using ledgerD(3) [OF ok] eed by (intro ledger_episodes [OF ok]) auto
qed

lemma propose_outcome:
  assumes "propose U E c ep i now d = Inr (x, d')"
  obtains key cs where "case ep of None \<Rightarrow> True | Some e \<Rightarrow> list_ex (\<lambda>r. se_id r = e) (rg_episodes d)"
    "d' = d\<lparr>rg_candidates := cs, rg_proposals := rg_proposals d @ [proposal_row i ep key c now]\<rparr>"
    "cs = rg_candidates d \<or> cs = rg_candidates d @ [source_candidate.extend c \<lparr>cr_key = key, cr_created_at = now, cr_updated_at = now\<rparr>] \<and>
      candidate_at key d = None"
proof -
  obtain key where key: "candidate_key U E c = Inr key" using assms by (cases "candidate_key U E c") (simp_all add: propose_def check_def split: if_splits)
  let ?ps = "rg_proposals d @ [proposal_row i ep key c now]"
  have known: "case ep of None \<Rightarrow> True | Some e \<Rightarrow> list_ex (\<lambda>r. se_id r = e) (rg_episodes d)"
    using assms by (simp add: propose_def)
  have d': "d' = d\<lparr>rg_candidates := (if list_ex (\<lambda>r. cr_key r = key \<or> sc_entrypoint r = sc_entrypoint c) (rg_candidates d) then rg_candidates d
      else rg_candidates d @ [source_candidate.extend c \<lparr>cr_key = key, cr_created_at = now, cr_updated_at = now\<rparr>]), rg_proposals := ?ps\<rparr>"
    using assms by (simp add: propose_def Let_def key tbl_insert_Inr split del: if_split)
  show thesis
  proof (cases "list_ex (\<lambda>r. cr_key r = key \<or> sc_entrypoint r = sc_entrypoint c) (rg_candidates d)")
    case True
    with known d' that [of key "rg_candidates d"] show thesis by simp
  next
    case False
    then have "candidate_at key d = None" unfolding candidate_at_def tbl_find_None by (auto simp: list_ex_iff)
    with False known d' that [of key "rg_candidates d @ [source_candidate.extend c \<lparr>cr_key = key, cr_created_at = now, cr_updated_at = now\<rparr>]"]
    show thesis by simp
  qed
qed

lemma ledger_propose:
  assumes ok: "ledger_ok M d" and run: "propose U E c ep i now d = Inr (x, d')"
  shows "ledger_ok M d'"
  using run
proof (rule propose_outcome)
  fix key cs assume known: "case ep of None \<Rightarrow> True | Some e \<Rightarrow> list_ex (\<lambda>r. se_id r = e) (rg_episodes d)"
    and d': "d' = d\<lparr>rg_candidates := cs, rg_proposals := rg_proposals d @ [proposal_row i ep key c now]\<rparr>"
  have "pp_episode (proposal_row i ep key c now) = ep" by (simp add: proposal_row_def)
  moreover have "e \<in> set (episode_ids d)" if "ep = Some e" for e
    using known that by (auto simp: episode_ids_def list_ex_iff)
  ultimately show ?thesis using ok by (simp add: ledger_ok_def ledger_shape_def balance_def episode_ids_def d')
qed

lemma measure_outcome:
  assumes "measure_source key m given now d = Inr (x, d')"
  obtains d1 auth where "d1 = d \<or> d1 = put_metric key m auth now d"
    "d' = d1 \<or> attribute_search_reward key \<lparr>re_eed = novel_eed_for_ranking m, re_kind = K_SCOUT_PROXY,
      re_baseline = map_option fst auth, re_model = map_option snd auth\<rparr> d1 = Inr d'"
proof -
  define auth where "auth = (case given of None \<Rightarrow> current_scout_authority d | Some _ \<Rightarrow> given)"
  define eligible where "eligible = (current_scout_authority d = None \<or> auth = current_scout_authority d)"
  define d1 where "d1 = (if \<not> eligible \<and> (case current_scout_authority d of None \<Rightarrow> False | Some c \<Rightarrow> measured_under key c d) then d
    else put_metric key m auth now d)"
  have "d' = d1 \<or> attribute_search_reward key \<lparr>re_eed = novel_eed_for_ranking m, re_kind = K_SCOUT_PROXY,
      re_baseline = map_option fst auth, re_model = map_option snd auth\<rparr> d1 = Inr d'"
    using assms unfolding measure_source_def Let_def auth_def [symmetric] eligible_def [symmetric] d1_def [symmetric]
    by (cases eligible) (auto simp del: split_paired_Ex)
  then show thesis using that [of d1 auth] by (simp add: d1_def)
qed

lemma ledger_step:
  assumes ok: "ledger_ok M d" and step: "registry_step U E l d d'"
  shows "ledger_ok (add_hand l M) d'"
  using step
proof cases
  case aside
  then have "ledger_ok M d' = ledger_ok M d" by (intro ledger_cong core_fields)
  with ok aside(1) show ?thesis by (simp add: add_hand_def)
next
  case (measure key m given now x)
  obtain d1 auth where d1: "d1 = d \<or> d1 = put_metric key m auth now d"
    and d': "d' = d1 \<or> attribute_search_reward key \<lparr>re_eed = novel_eed_for_ranking m, re_kind = K_SCOUT_PROXY,
      re_baseline = map_option fst auth, re_model = map_option snd auth\<rparr> d1 = Inr d'"
    using measure(2) by (rule measure_outcome)
  have "ledger_ok M (put_metric key m auth now d) = ledger_ok M d" by (rule ledger_cong) (simp_all add: put_metric_def Let_def)
  then have "ledger_ok M d1" using ok d1 by auto
  then have "ledger_ok M d'" using ledger_attribute d' measure(3) by force
  with measure(1) show ?thesis by (simp add: add_hand_def)
next
  case (link p c rel now x)
  then have "ledger_ok M d' = ledger_ok M d" by (intro ledger_cong) (auto simp: link_sources_def split: if_splits)
  with ok link(1) show ?thesis by (simp add: add_hand_def)
next
  case (adapter key f ly s expected now u)
  then have "ledger_ok M d' = ledger_ok M d" by (intro ledger_cong) (auto simp: bind_adapter_def split: option.splits)
  with ok adapter(1) show ?thesis by (simp add: add_hand_def)
next
  case (claim key now u)
  then have "ledger_ok M d' = ledger_ok M d" by (intro ledger_cong) (auto simp: claim_activation_def split: option.splits if_splits)
  with ok claim(1) show ?thesis by (simp add: add_hand_def)
next
  case (fail key reason p s now u)
  then have "ledger_ok M d' = ledger_ok M d" by (intro ledger_cong) (auto simp: fail_activation_def split: option.splits)
  with ok fail(1) show ?thesis by (simp add: add_hand_def)
next
  case (move key target now u)
  then have "ledger_ok M d' = ledger_ok M d" by (intro ledger_cong) (auto simp: move_candidate_def split: option.splits)
  with ok move(1) show ?thesis by (simp add: add_hand_def)
next
  case (reason key reason now x)
  then have "ledger_ok M d' = ledger_ok M d" by (intro ledger_cong) (auto simp: explain_def)
  with ok reason(1) show ?thesis by (simp add: add_hand_def)
next
  case (authority auth now x)
  then show ?thesis using ledger_authority [OF ok] by (simp add: add_hand_def)
next
  case (episode i s b q a now u)
  then show ?thesis using ledger_new_episode [OF ok] by (simp add: add_hand_def)
next
  case (finish i cost ps ss now u)
  then show ?thesis using ledger_finish [OF ok] by (simp add: add_hand_def)
next
  case (credit i eed u)
  then show ?thesis using ledger_hand [OF ok] by (simp add: add_hand_def)
next
  case (final f)
  then show ?thesis using ledger_publish [OF ok] by (simp add: add_hand_def)
next
  case (no_finals u)
  then show ?thesis using ledger_clear [OF ok] by (simp add: add_hand_def)
next
  case (proposal c ep i now x)
  then show ?thesis using ledger_propose [OF ok] by (simp add: add_hand_def)
next
  case (run k e started now)
  then show ?thesis using ledger_insert_run [OF ok] by (simp add: add_hand_def)
next
  case (adopt k e started now)
  then show ?thesis using ledger_update_runs [OF ledger_insert_run [OF ok]] by (simp add: add_hand_def adopt_exposure_def)
next
  case (reading k rc t b now)
  then show ?thesis using ledger_update_runs [OF ok] by (simp add: add_hand_def set_read_def)
next
  case (validation k v b now)
  then show ?thesis using ledger_update_runs [OF ok] by (simp add: add_hand_def set_validation_def)
next
  case (close k t1 t2 x)
  then show ?thesis using ledger_close [OF ok] by (simp add: add_hand_def)
next
  case (abandon k st reason now x)
  then show ?thesis using ledger_update_runs [OF ok] by (auto simp: add_hand_def abandon_run_def)
qed

lemma ledger_start: "ledger_ok (\<lambda>_. 0) (empty_registry hops)"
  by (simp add: ledger_ok_def ledger_shape_def empty_registry_def episode_ids_def balance_def tbl_find_def)

lemma ledger_run: "discovery_run U E hops M w \<Longrightarrow> ledger_ok M (dw_registry w)"
  by (rule discovery_run_inv [where J = ledger_ok]) (auto intro: ledger_start ledger_step)

end
