(* ===== verification/Source_Graph.thy ===== *)
theory Source_Graph
  imports Source_Ledger
begin

text \<open>
  The source graph.  A new edge is refused when it closes a cycle or when the longest path through it is
  longer than \<open>max_graph_hops\<close>; the path lengths come from queries that stop one level past the bound.
  The lemmas show that the truncated queries are enough: no reachable graph has a longer path, or a cycle.
\<close>

section \<open>Levels and paths\<close>

lemma next_level_set: "set (next_level g ns) = {b. \<exists>a \<in> set ns. (a, b) \<in> set g}"
  by (auto simp: next_level_def) force

lemma levels_ge: "k \<le> n \<Longrightarrow> a \<in> set ns \<Longrightarrow> (a, b) \<in> set g ^^ k \<Longrightarrow> k \<le> levels g n ns"
proof (induction n arbitrary: k a ns)
  case (Suc n)
  show ?case
  proof (cases k)
    case (Suc k')
    then obtain c where c: "(a, c) \<in> set g" "(c, b) \<in> set g ^^ k'" using Suc.prems(3) by (blast dest: relpow_Suc_D2)
    then have "c \<in> set (next_level g ns)" using Suc.prems(2) by (auto simp: next_level_set)
    then show ?thesis using Suc.IH [of k' c "next_level g ns"] Suc.prems(1) Suc c(2) by (auto simp: Let_def)
  qed simp
qed simp

lemma path_prefix:
  fixes R :: "('a \<times> 'a) set"
  assumes "(a, b) \<in> R ^^ n" "m \<le> n"
  shows "\<exists>c. (a, c) \<in> R ^^ m"
proof -
  have "(a, b) \<in> R ^^ m O R ^^ (n - m)" using assms by (simp add: relpow_add [symmetric])
  then show ?thesis by blast
qed

text \<open>A query that does not reach its last level has seen every path.\<close>

lemma levels_complete:
  assumes "levels g (Suc n) [a] \<le> n" "(a, b) \<in> set g ^^ k"
  shows "k \<le> levels g (Suc n) [a]"
proof (rule ccontr)
  assume long: "\<not> k \<le> levels g (Suc n) [a]"
  obtain c where "(a, c) \<in> set g ^^ min k (Suc n)" using path_prefix [OF assms(2), of "min k (Suc n)"] by auto
  then have "min k (Suc n) \<le> levels g (Suc n) [a]" by (intro levels_ge) auto
  with long assms(1) show False by simp
qed

lemma path_reverse:
  fixes g :: "('a \<times> 'a) list"
  shows "(a, b) \<in> set g ^^ k \<Longrightarrow> (b, a) \<in> set (List.map prod.swap g) ^^ k"
proof (induction k arbitrary: b)
  case (Suc k)
  then obtain c where c: "(a, c) \<in> set g ^^ k" "(c, b) \<in> set g" by auto
  then have "(b, c) \<in> set (List.map prod.swap g)" by force
  with Suc.IH [OF c(1)] show ?case by (rule relpow_Suc_I2 [rotated])
qed simp

section \<open>A new edge\<close>

lemma path_through_new_edge:
  assumes acyc: "(c, p) \<notin> R\<^sup>+" "p \<noteq> c" and path: "(a, b) \<in> insert (p, c) R ^^ n"
  shows "(a, b) \<in> R ^^ n \<or> (\<exists>i j. (a, p) \<in> R ^^ i \<and> (c, b) \<in> R ^^ j \<and> n = i + 1 + j)"
  using path
proof (induction n arbitrary: a)
  case (Suc n)
  then obtain x where x: "(a, x) \<in> insert (p, c) R" "(x, b) \<in> insert (p, c) R ^^ n" by (blast dest: relpow_Suc_D2)
  from Suc.IH [OF x(2)] show ?case
  proof
    assume old: "(x, b) \<in> R ^^ n"
    show ?case
    proof (cases "(a, x) \<in> R")
      case True
      with old show ?thesis by (blast intro: relpow_Suc_I2)
    next
      case False
      then have "(a, p) \<in> R ^^ 0" "(c, b) \<in> R ^^ n" using x(1) old by auto
      then show ?thesis by fastforce
    qed
  next
    assume "\<exists>i j. (x, p) \<in> R ^^ i \<and> (c, b) \<in> R ^^ j \<and> n = i + 1 + j"
    then obtain i j where ij: "(x, p) \<in> R ^^ i" "(c, b) \<in> R ^^ j" "n = i + 1 + j" by blast
    have "(a, x) \<in> R"
    proof (rule ccontr)
      assume "(a, x) \<notin> R"
      then have "(c, p) \<in> R ^^ i" using x(1) ij(1) by auto
      then show False using acyc by (cases i) (auto simp: trancl_power simp del: relpow.simps(2))
    qed
    then have "(a, p) \<in> R ^^ Suc i" using ij(1) by (rule relpow_Suc_I2)
    with ij show ?case by fastforce
  qed
qed simp

lemma bounded_acyclic:
  assumes "\<And>a b n. (a, b) \<in> R ^^ n \<Longrightarrow> n \<le> H"
  shows "acyclic R"
  unfolding acyclic_def
proof
  fix x
  show "(x, x) \<notin> R\<^sup>+"
  proof
    assume "(x, x) \<in> R\<^sup>+"
    then obtain n where n: "0 < n" "(x, x) \<in> R ^^ n" by (auto simp: trancl_power)
    have "(x, x) \<in> R ^^ (n * m)" for m
    proof (induction m)
      case (Suc m)
      then show ?case using n(2) by (simp add: relpow_add) (rule relcompI)
    qed simp
    then have "n * Suc H \<le> H" using assms by blast
    moreover have "Suc H \<le> n * Suc H" using n(1) by (cases n) auto
    ultimately show False by simp
  qed
qed

definition graph_ok :: "nat \<Rightarrow> registry \<Rightarrow> bool" where
  "graph_ok hops d \<longleftrightarrow> rg_max_hops d = hops \<and> (\<forall>a b n. (a, b) \<in> set (graph d) ^^ n \<longrightarrow> n \<le> hops)"

lemma graph_cong: "rg_edges d' = rg_edges d \<Longrightarrow> rg_max_hops d' = rg_max_hops d \<Longrightarrow> graph_ok hops d' = graph_ok hops d"
  by (simp add: graph_ok_def graph_def)

lemma link_keeps_graph:
  assumes ok: "graph_ok hops d" and run: "link_sources p c rel now d = Inr (x, d')" and neq: "p \<noteq> c"
  shows "graph_ok hops d'"
proof (cases "rg_edges d' = rg_edges d")
  case True
  with run have "d' = d" by (auto simp: link_sources_def split: if_splits)
  with ok show ?thesis by simp
next
  case False
  then have nocycle: "(c, p) \<notin> (set (graph d))\<^sup>+" and short: "max_ancestor_hops p d + 1 + max_descendant_hops c d \<le> hops"
    and d': "d' = d\<lparr>rg_edges := rg_edges d @ [\<lparr>eg_parent = p, eg_child = c, eg_relation = rel, eg_created_at = now\<rparr>]\<rparr>"
    using run ok by (auto simp: link_sources_def would_cycle_def graph_ok_def split: if_splits)
  have g: "set (graph d') = insert (p, c) (set (graph d))" by (auto simp: d' graph_def)
  have H: "rg_max_hops d = hops" using ok by (simp add: graph_ok_def)
  have "n \<le> hops" if path: "(a, b) \<in> set (graph d') ^^ n" for a b n
  proof -
    from path_through_new_edge [OF nocycle neq path [unfolded g]] show ?thesis
    proof
      assume "(a, b) \<in> set (graph d) ^^ n"
      then show ?thesis using ok by (auto simp: graph_ok_def)
    next
      assume "\<exists>i j. (a, p) \<in> set (graph d) ^^ i \<and> (c, b) \<in> set (graph d) ^^ j \<and> n = i + 1 + j"
      then obtain i j where ij: "(a, p) \<in> set (graph d) ^^ i" "(c, b) \<in> set (graph d) ^^ j" "n = i + 1 + j" by blast
      have "i \<le> max_ancestor_hops p d"
        using levels_complete [of "List.map prod.swap (graph d)" hops p a i] path_reverse [OF ij(1)] short
        by (simp add: max_ancestor_hops_def H)
      moreover have "j \<le> max_descendant_hops c d"
        using levels_complete [of "graph d" hops c b j] ij(2) short by (simp add: max_descendant_hops_def H)
      ultimately show ?thesis using short ij(3) by simp
    qed
  qed
  then show ?thesis using H by (simp add: graph_ok_def d')
qed

section \<open>Every step keeps the graph\<close>

lemma fold_withdraw_frame: "rg_edges (fold (withdraw as) es d) = rg_edges d" "rg_max_hops (fold (withdraw as) es d) = rg_max_hops d"
  "rg_candidates (fold (withdraw as) es d) = rg_candidates d" "rg_runs (fold (withdraw as) es d) = rg_runs d"
  by (induction es arbitrary: d) (simp_all add: withdraw_def Let_def)

lemma fold_refund_frame:
  "rg_edges (fold (\<lambda>a d. if at_credited a = 0 then d else add_credit (at_episode a) (- at_credited a) d) as d) = rg_edges d"
  "rg_max_hops (fold (\<lambda>a d. if at_credited a = 0 then d else add_credit (at_episode a) (- at_credited a) d) as d) = rg_max_hops d"
  "rg_candidates (fold (\<lambda>a d. if at_credited a = 0 then d else add_credit (at_episode a) (- at_credited a) d) as d) = rg_candidates d"
  "rg_runs (fold (\<lambda>a d. if at_credited a = 0 then d else add_credit (at_episode a) (- at_credited a) d) as d) = rg_runs d"
  by (induction as arbitrary: d) simp_all

lemma attribute_frame:
  assumes "attribute_search_reward source r d = Inr d'"
  shows "rg_edges d' = rg_edges d \<and>
    rg_max_hops d' = rg_max_hops d \<and>
    rg_candidates d' = rg_candidates d \<and>
    rg_runs d' = rg_runs d \<and>
    rg_finals d' = rg_finals d"
  using assms by (auto simp: attribute_search_reward_def Let_def credit_delta_def split: option.splits)

lemma publish_frame:
  assumes "publish_final f d = Inr d'"
  shows "rg_edges d' = rg_edges d \<and>
    rg_max_hops d' = rg_max_hops d \<and>
    rg_candidates d' = rg_candidates d \<and>
    rg_runs d' = rg_runs d \<and>
    rg_finals d' = tbl_upsert fr_source (\<lambda>_. f) f (rg_finals d)"
  using assms by (auto simp: publish_final_def dest!: attribute_frame)

text \<open>The parts of the registry that a step leaves alone.\<close>

lemma put_metric_frame [simp]:
  "rg_edges (put_metric key m auth now d) = rg_edges d" "rg_max_hops (put_metric key m auth now d) = rg_max_hops d"
  "rg_candidates (put_metric key m auth now d) = rg_candidates d" "rg_runs (put_metric key m auth now d) = rg_runs d"
  by (simp_all add: put_metric_def Let_def)

lemma measure_frame:
  assumes "measure_source key m given now d = Inr (x, d')"
  shows "rg_edges d' = rg_edges d \<and>
    rg_max_hops d' = rg_max_hops d \<and>
    rg_candidates d' = rg_candidates d \<and>
    rg_runs d' = rg_runs d"
  using assms by (auto elim!: measure_outcome simp del: split_paired_Ex dest!: attribute_frame)

lemma update_runs_frame [simp]: "rg_edges (update_runs P f d) = rg_edges d" "rg_max_hops (update_runs P f d) = rg_max_hops d"
  "rg_candidates (update_runs P f d) = rg_candidates d" "rg_edges (insert_run k e s t d) = rg_edges d"
  "rg_max_hops (insert_run k e s t d) = rg_max_hops d" "rg_candidates (insert_run k e s t d) = rg_candidates d"
  "rg_edges (adopt_exposure k e d) = rg_edges d" "rg_max_hops (adopt_exposure k e d) = rg_max_hops d"
  "rg_candidates (adopt_exposure k e d) = rg_candidates d"
  by (simp_all add: update_runs_def insert_run_def adopt_exposure_def)

lemma close_frame:
  assumes "close_run_txn k t1 t2 d = Inr (x, d')"
  shows "rg_edges d' = rg_edges d \<and>
    rg_max_hops d' = rg_max_hops d \<and>
    rg_candidates d' = rg_candidates d"
  using assms by (auto simp: close_run_txn_def publish_source_aggregate_def Let_def dest!: publish_frame split: option.splits if_splits)

lemma step_graph:
  assumes "registry_step U E l d d'"
  shows "(rg_edges d' = rg_edges d \<or> (\<exists>p c rel now x. link_sources p c rel now d = Inr (x, d') \<and> p \<noteq> c)) \<and> rg_max_hops d' = rg_max_hops d"
  using assms
proof cases
  case aside
  then show ?thesis using core_fields(7, 8) [OF aside(2)] by simp
next
  case (authority auth now x)
  then show ?thesis by (auto simp: install_authority_def Let_def fold_withdraw_frame)
next
  case (no_finals u)
  then show ?thesis by (auto simp: clear_finals_def Let_def fold_refund_frame)
next
  case (link p c rel now x)
  then have "rg_max_hops d' = rg_max_hops d" by (auto simp: link_sources_def split: if_splits)
  with link show ?thesis by blast
next
  case (proposal c ep i now x)
  then show ?thesis by (auto elim!: propose_outcome)
qed (auto simp: insert_episode_def finish_episode_def credit_episode_def claim_activation_def fail_activation_def move_candidate_def
    explain_def bind_adapter_def abandon_run_def dest!: publish_frame measure_frame close_frame split: option.splits if_splits)

lemma graph_step:
  assumes "graph_ok hops d" "registry_step U E l d d'"
  shows "graph_ok hops d'"
  using step_graph [OF assms(2)] link_keeps_graph [OF assms(1)] graph_cong [of d' d] assms(1) by blast

lemma graph_start: "graph_ok hops (empty_registry hops)"
proof -
  have "n \<le> hops" if "(a, b) \<in> ({} :: (string \<times> string) set) ^^ n" for a b n using that by (cases n) auto
  then show ?thesis by (simp add: graph_ok_def empty_registry_def graph_def)
qed

lemma graph_run: "discovery_run U E hops M w \<Longrightarrow> graph_ok hops (dw_registry w)"
  by (rule discovery_run_inv [where J = "\<lambda>_. graph_ok hops"]) (auto intro: graph_start graph_step)

end
