(* ===== verification/Source_Properties.thy ===== *)
theory Source_Properties
  imports Source_Graph
begin

text \<open>
  Properties of the source registry: the reward ledger and the source graph over all reachable states, the
  state machine of a source, the close of a run across registry and control store, and two ways in which
  the code loses what it recorded.
\<close>

section \<open>Single steps on a candidate\<close>

lemma find_update_kept:
  assumes "tbl_find (\<lambda>r. key r = k) t = Some r" "\<And>r. key (f r) = key r"
  shows "tbl_find (\<lambda>r. key r = k) (tbl_update P f t) = Some (if P r then f r else r)"
  using assms(1) by (induction t) (auto simp: tbl_find_def tbl_update_def assms(2))

lemma candidate_set:
  assumes "candidate_at key d = Some r" "\<And>r. cr_key (f r) = cr_key r"
  shows "candidate_at key (set_candidate k f d) = Some (if key = k then f r else r)"
proof -
  have "cr_key r = key" using assms(1) by (auto simp: candidate_at_def dest: tbl_find_SomeD)
  with find_update_kept [of cr_key key "rg_candidates d" r f "\<lambda>r. cr_key r = k"] assms show ?thesis
    by (auto simp: candidate_at_def set_candidate_def)
qed

lemma candidate_cong: "rg_candidates d' = rg_candidates d \<Longrightarrow> candidate_at key d' = candidate_at key d"
  by (simp add: candidate_at_def)

lemma candidate_append:
  assumes "candidate_at key d = Some r" "rg_candidates d' = rg_candidates d @ cs"
  shows "candidate_at key d' = Some r"
proof -
  have "List.find P (t @ cs) = Some r" if "List.find P t = Some r" for P and t :: "candidate_row list" using that by (induction t) auto
  with assms show ?thesis by (simp add: candidate_at_def tbl_find_def)
qed

text \<open>What one transaction may do to the state of a source that is in the table.\<close>

definition allowed_move :: "registry \<Rightarrow> string \<Rightarrow> source_state \<Rightarrow> source_state \<Rightarrow> bool" where
  "allowed_move d key s s' \<longleftrightarrow> s' = s \<or>
     (s' \<in> set (transitions_from s) \<or> (s, s') \<in> {(S_HOLD, S_ACTIVATING), (S_ACTIVE, S_REJECTED)}) \<and>
     (s' = S_ACTIVE \<or> (s, s') \<in> {(S_SCOUTING, S_WARM), (S_HOLD, S_ACTIVATING)} \<longrightarrow> measured_now key d)"

lemma step_candidate:
  assumes c: "candidate_at key d = Some r" and step: "registry_step U E l d d'"
  shows "\<exists>r'. candidate_at key d' = Some r' \<and> allowed_move d key (sc_state r) (sc_state r')"
  using step
proof cases
  case aside
  from candidate_cong [OF core_fields(6) [OF aside(2)]] c show ?thesis by (simp add: allowed_move_def)
next
  case (authority auth now x)
  then have "candidate_at key d' = candidate_at key d"
    by (intro candidate_cong) (auto simp: install_authority_def Let_def fold_withdraw_frame)
  with c show ?thesis by (simp add: allowed_move_def)
next
  case (no_finals u)
  then have "candidate_at key d' = candidate_at key d"
    by (intro candidate_cong) (auto simp: clear_finals_def Let_def fold_refund_frame)
  with c show ?thesis by (simp add: allowed_move_def)
next
  case (proposal p ep i now x)
  show ?thesis using proposal(2)
  proof (rule propose_outcome)
    fix k cs
    assume d': "d' = d\<lparr>rg_candidates := cs, rg_proposals := rg_proposals d @ [proposal_row i ep k p now]\<rparr>"
      and "cs = rg_candidates d \<or> cs = rg_candidates d @ [source_candidate.extend p \<lparr>cr_key = k, cr_created_at = now, cr_updated_at = now\<rparr>] \<and>
        candidate_at k d = None"
    then have "\<exists>new. rg_candidates d' = rg_candidates d @ new" by auto
    then show ?thesis using candidate_append [OF c] by (auto simp: allowed_move_def)
  qed
next
  case (claim k now u)
  then show ?thesis using c
    by (auto simp: claim_activation_def allowed_move_def candidate_set split: option.splits if_splits)
next
  case (fail k reason p s now u)
  then show ?thesis using c
    by (auto simp: fail_activation_def allowed_move_def candidate_set split: option.splits)
next
  case (move k target now u)
  show ?thesis
  proof (cases "k = key")
    case True
    then show ?thesis using c move(2) by (auto simp: move_candidate_def allowed_move_def candidate_set)
  next
    case False
    then show ?thesis using c move(2) by (auto simp: move_candidate_def allowed_move_def candidate_set split: option.splits)
  qed
next
  case (reason k why now x)
  then show ?thesis using c by (auto simp: explain_def allowed_move_def candidate_set)
next
  case (adapter k f ly s expected now u)
  let ?f = "\<lambda>r. r\<lparr>sc_state := S_SCOUT_READY, sc_reason := [], cr_updated_at := now\<rparr>"
  obtain r0 where d': "rg_candidates d' = rg_candidates (set_candidate k ?f d)" and r0: "candidate_at k d = Some r0" "sc_state r0 = S_HOLD"
    using adapter(2) by (auto simp: bind_adapter_def set_candidate_def split: option.splits)
  have "candidate_at key (set_candidate k ?f d) = Some (if key = k then ?f r else r)" by (rule candidate_set [OF c]) simp
  then have e: "candidate_at key d' = Some (if key = k then ?f r else r)" unfolding candidate_cong [OF d', of key] .
  have "allowed_move d key (sc_state r) (sc_state (if key = k then ?f r else r))"
  proof (cases "key = k")
    case True
    then have "sc_state r = S_HOLD" using r0 c by simp
    with True show ?thesis by (simp add: allowed_move_def)
  qed (simp add: allowed_move_def)
  with e show ?thesis by blast
next
  case (measure k m given now x)
  have "candidate_at key d' = candidate_at key d" using measure_frame [OF measure(2)] by (intro candidate_cong) simp
  with c show ?thesis by (simp add: allowed_move_def)
next
  case (link p ch rel now x)
  then have "candidate_at key d' = candidate_at key d" by (intro candidate_cong) (auto simp: link_sources_def split: if_splits)
  with c show ?thesis by (simp add: allowed_move_def)
next
  case (close k t1 t2 x)
  have "candidate_at key d' = candidate_at key d" using close_frame [OF close(2)] by (intro candidate_cong) simp
  with c show ?thesis by (simp add: allowed_move_def)
next
  case (final f)
  have "candidate_at key d' = candidate_at key d" using publish_frame [OF final(2)] by (intro candidate_cong) simp
  with c show ?thesis by (simp add: allowed_move_def)
qed (use c in \<open>auto simp: allowed_move_def insert_episode_def finish_episode_def credit_episode_def abandon_run_def candidate_at_def split: option.splits\<close>)

lemma settled_stays:
  assumes "candidate_at key d = Some r" "sc_state r \<in> {S_REJECTED, S_EXHAUSTED}" "registry_step U E l d d'"
  shows "\<exists>r'. candidate_at key d' = Some r' \<and> sc_state r' = sc_state r"
  using step_candidate [OF assms(1, 3)] assms(2) by (auto simp: allowed_move_def)

text \<open>Every call is a chain of steps, so what each step keeps each call keeps.\<close>

abbreviation some_step :: "url_library \<Rightarrow> codec \<Rightarrow> registry \<Rightarrow> registry \<Rightarrow> bool" where
  "some_step U E d d' \<equiv> \<exists>l. registry_step U E l d d'"

lemma call_chain:
  assumes "proper_call c" "w' \<in> set (snd (perform_call U E c w))"
  shows "(some_step U E)\<^sup>*\<^sup>* (dw_registry w) (dw_registry w')"
proof (cases "by_hand c")
  case None
  then have "(registry_step U E None)\<^sup>*\<^sup>* (dw_registry w) (dw_registry w')"
    using calls_step [OF assms(1) None, of U E] assms(2) by (auto simp: along_def)
  then show ?thesis by (rule rtranclp_mono [THEN predicate2D, rotated]) blast
next
  case (Some l)
  then obtain i eed where "c = Rewards (Credit_Search i eed)" by (auto simp: by_hand_def split: discovery_call.splits reward_call.splits)
  then have "registry_step U E (Some (i, eed)) (dw_registry w) (dw_registry w')" using credit_call_step assms(2) by blast
  then show ?thesis by blast
qed

lemma call_keeps:
  assumes "proper_call c" "w' \<in> set (snd (perform_call U E c w))" "P (dw_registry w)"
    and "\<And>l d d'. P d \<Longrightarrow> registry_step U E l d d' \<Longrightarrow> P d'"
  shows "P (dw_registry w')"
  using call_chain [OF assms(1, 2)]
proof (induction rule: rtranclp_induct)
  case base
  show ?case by (rule assms(3))
next
  case (step d d')
  then show ?case using assms(4) by blast
qed

section \<open>Single steps on a run\<close>

lemma run_cong: "rg_runs d' = rg_runs d \<Longrightarrow> get_source_run_outcome k d' = get_source_run_outcome k d"
  by (simp add: get_source_run_outcome_def)

lemma run_update:
  assumes "get_source_run_outcome k d = Some r" "\<And>r. key_of_run (f r) = key_of_run r"
  shows "get_source_run_outcome k (update_runs P f d) = Some (if P r then f r else r)"
  using find_update_kept [of key_of_run k "rg_runs d" r f P] assms by (simp add: get_source_run_outcome_def update_runs_def)

lemma run_insert:
  assumes "get_source_run_outcome k d = Some r"
  shows "get_source_run_outcome k (insert_run k' e started now d) = Some r"
proof -
  have "List.find P (t @ [x]) = Some r" if "List.find P t = Some r" for P x and t :: "source_run list" using that by (induction t) auto
  with assms show ?thesis by (simp add: get_source_run_outcome_def insert_run_def tbl_insert_or_ignore_def tbl_find_def)
qed

lemma run_keys [simp]: "key_of_run (set_read rc t b now r) = key_of_run r" "key_of_run (set_validation v b now r) = key_of_run r"
  by (simp_all add: key_of_run_def set_read_def set_validation_def)

definition closed_run :: "run_key \<Rightarrow> source_run \<Rightarrow> registry \<Rightarrow> bool" where
  "closed_run k r d \<longleftrightarrow> get_source_run_outcome k d = Some r \<and> sn_closed r \<and> sn_exposure r \<noteq> None"

lemma closed_cong:
  assumes "rg_runs d' = rg_runs d"
  shows "closed_run k r d' = closed_run k r d"
  by (simp only: closed_run_def run_cong [OF assms])

lemma closed_update:
  assumes "closed_run k r d" "\<not> P r" "\<And>r. key_of_run (f r) = key_of_run r"
  shows "closed_run k r (update_runs P f d)"
  using assms run_update [of k d r f P] by (simp add: closed_run_def)

lemma closed_close:
  assumes c: "closed_run k r d" and run: "close_run_txn k' t1 t2 d = Inr (x, d')"
  shows "closed_run k r d'"
proof -
  let ?d = "update_runs (open_run k') (\<lambda>r. r\<lparr>sn_closed := True, sn_closed_at := Some t1, sn_updated_at := t1\<rparr>) d"
  have "closed_run k r ?d" by (rule closed_update [OF c]) (use c in \<open>auto simp: closed_run_def open_run_def key_of_run_def\<close>)
  moreover have "d' = d \<or> d' = ?d \<or> rg_runs d' = rg_runs ?d"
    using run by (auto simp: close_run_txn_def publish_source_aggregate_def Let_def dest!: publish_frame split: option.splits if_splits)
  ultimately show ?thesis using c closed_cong by blast
qed

lemma step_closed_run:
  assumes c: "closed_run k r d" and step: "registry_step U E l d d'"
  shows "closed_run k r d'"
  using step
proof cases
  case aside
  from closed_cong [OF core_fields(5) [OF aside(2)]] c show ?thesis by simp
next
  case (authority auth now x)
  then have "closed_run k r d' = closed_run k r d" by (intro closed_cong) (auto simp: install_authority_def Let_def fold_withdraw_frame)
  with c show ?thesis by simp
next
  case (no_finals u)
  then have "closed_run k r d' = closed_run k r d" by (intro closed_cong) (auto simp: clear_finals_def Let_def fold_refund_frame)
  with c show ?thesis by simp
next
  case (proposal p ep i now x)
  show ?thesis using proposal(2) by (rule propose_outcome) (use c in \<open>simp add: closed_run_def get_source_run_outcome_def\<close>)
next
  case (adapter key f ly s expected now u)
  then have "closed_run k r d' = closed_run k r d" by (intro closed_cong) (auto simp: bind_adapter_def split: option.splits)
  with c show ?thesis by simp
next
  case (measure key m given now x)
  have "closed_run k r d' = closed_run k r d" using measure_frame [OF measure(2)] by (intro closed_cong) simp
  with c show ?thesis by simp
next
  case (link p ch rel now x)
  then have "closed_run k r d' = closed_run k r d" by (intro closed_cong) (auto simp: link_sources_def split: if_splits)
  with c show ?thesis by simp
next
  case (close k' t1 t2 x)
  from closed_close [OF c close(2)] show ?thesis .
next
  case (final f)
  have "closed_run k r d' = closed_run k r d" using publish_frame [OF final(2)] by (intro closed_cong) simp
  with c show ?thesis by simp
next
  case (run k' e started now)
  with c show ?thesis using run_insert by (simp add: closed_run_def)
next
  case (adopt k' e started now)
  then show ?thesis unfolding adopt(2) adopt_exposure_def
    by (intro closed_update) (use c run_insert in \<open>auto simp: closed_run_def key_of_run_def\<close>)
next
  case (reading k' rc t b now)
  then show ?thesis using closed_update [OF c, of "open_run k'" "set_read rc t b now"] c by (simp add: closed_run_def open_run_def)
next
  case (validation k' v b now)
  then show ?thesis using closed_update [OF c, of "open_run k'" "set_validation v b now"] c by (simp add: closed_run_def open_run_def)
next
  case (abandon k' st why now x)
  then show ?thesis
    by (auto simp: abandon_run_def intro!: closed_update [OF c]) (use c in \<open>simp_all add: closed_run_def unfinished_run_def key_of_run_def\<close>)
next
  case (claim key now u)
  then have "closed_run k r d' = closed_run k r d" by (intro closed_cong) (auto simp: claim_activation_def split: option.splits if_splits)
  with c show ?thesis by simp
next
  case (fail key reason p s now u)
  then have "closed_run k r d' = closed_run k r d" by (intro closed_cong) (auto simp: fail_activation_def split: option.splits)
  with c show ?thesis by simp
next
  case (move key target now u)
  then have "closed_run k r d' = closed_run k r d" by (intro closed_cong) (auto simp: move_candidate_def split: option.splits)
  with c show ?thesis by simp
next
  case (reason key why now x)
  then have "closed_run k r d' = closed_run k r d" by (intro closed_cong) (auto simp: explain_def)
  with c show ?thesis by simp
qed (use c in \<open>auto simp: closed_run_def get_source_run_outcome_def insert_episode_def finish_episode_def credit_episode_def split: option.splits\<close>)

section \<open>A small registry\<close>

definition flat_codec :: codec where
  "flat_codec = \<lparr>sha256 = (\<lambda>b. b), float_repr = (\<lambda>_. ''0.0'')\<rparr>"

definition demo_candidate :: "string \<Rightarrow> source_candidate" where
  "demo_candidate url = \<lparr>sc_entrypoint = url, sc_family = ''f'', sc_level = L_SOURCE, sc_discovered_by = ''d'', sc_strategy = ''s'',
     sc_year_from = None, sc_year_to = None, sc_volume = None, sc_temporal_prior = 0, sc_enumerability_prior = 0, sc_direct_prior = 0,
     sc_overlap_prior = 0, sc_access_cost = 1, sc_adapter_cost = 1, sc_confidence = 0, sc_state = S_WARM, sc_reason = [],
     sc_retry_at = None, sc_attempts = 0\<rparr>"

definition demo_measurement :: scout_measurement where
  "demo_measurement = \<lparr>sm_sampled_records = 1, sm_unique_hosts = 1, sm_novel_hosts = 1, sm_direct_host_years = 0, sm_requests = 1,
     sm_bytes_read = 1, sm_elapsed_seconds = 1, sm_novel_eed = 7, sm_mode = HOST_ONLY, sm_observed_pairs = 0, sm_novel_pairs = 0,
     sm_novel_pair_eed = 0, sm_singletons = 0, sm_doubletons = 0, sm_unseen_fraction = 0, sm_minhash = []\<rparr>"

definition demo_call :: "discovery_call \<Rightarrow> discovery_world \<Rightarrow> discovery_world" where
  "demo_call c w = last_world w (snd (perform_call plain_library flat_codec c w))"

definition demo_start :: discovery_world where
  "demo_start = \<lparr>dw_registry = empty_registry 1, dw_control = empty_control\<rparr>"

definition demo_searched :: discovery_world where
  "demo_searched = demo_call (Rewards (Begin_Search ''s'' ''b'' ''q'' ''a'' (Some ''e'') ''u'' 1)) demo_start"

definition demo_proposed :: discovery_world where
  "demo_proposed = demo_call (Lifecycle_Of (Register_Proposal (demo_candidate ''http://h/'') (Some ''e'') (Some ''p'') ''u'' 2)) demo_searched"

definition demo_measured :: discovery_world where
  "demo_measured = demo_call (Observations (Measure ''src:http://h/'' demo_measurement None None 3)) demo_proposed"

definition demo_credited :: discovery_world where
  "demo_credited = demo_call (Rewards (Credit_Search ''e'' 5)) demo_measured"

definition demo_pair :: discovery_world where
  "demo_pair = demo_call (Lifecycle_Of (Register_Proposal (demo_candidate ''http://k/'') None (Some ''o'') ''u'' 2)) demo_proposed"

definition demo_linked :: discovery_world where
  "demo_linked = demo_call (Observations (Add_Edge ''src:http://h/'' ''src:http://k/'' ''enumerates'' 4)) demo_pair"

definition demo_rejected :: discovery_world where
  "demo_rejected = demo_call (Lifecycle_Of (Transition_To ''src:http://h/'' S_REJECTED 4)) demo_proposed"

definition demo_run :: run_key where
  "demo_run = \<lparr>rk_source = ''src:http://h/'', rk_reservoir = ''r'', rk_lease = ''l'', rk_baseline = ''b'', rk_model = ''m''\<rparr>"

definition demo_ready :: discovery_world where
  "demo_ready = \<lparr>dw_registry = (empty_registry 1)\<lparr>rg_candidates := [source_candidate.extend (demo_candidate ''http://h/'')
       \<lparr>cr_key = ''src:http://h/'', cr_created_at = 2, cr_updated_at = 2\<rparr>],
     rg_runs := [set_validation \<lparr>vd_tasks_created = 1, vd_tasks_terminal = 1, vd_direct_capsules = 0, vd_provider_requests = 1,
       vd_provider_elapsed = 1, vd_host_years = 1, vd_eed = 9, vd_max_sequence = 1\<rparr> True 6
       (set_read \<lparr>rd_records = 1, rd_bytes = 1, rd_requests = 1, rd_candidate_duplicates = 0, rd_baseline_duplicates = 0\<rparr> (Some 5) True 5
       (new_run demo_run ''x'' (Some 4) 4))]\<rparr>,
     dw_control = empty_control\<lparr>cd_exposures := [(new_exposure ''x'' (run_request demo_run) (''b'', ''m'') 4)\<lparr>pe_state := E_VALIDATING,
       pe_updated_at := 6\<rparr>]\<rparr>\<rparr>"

definition demo_closed :: discovery_world where
  "demo_closed = demo_call (Runs (Close_Run demo_run 7 7 7 7)) demo_ready"

text \<open>What the witnesses need, evaluated together.\<close>

lemma demo_credit_facts:
  "(snd (perform_call plain_library flat_codec (Rewards (Begin_Search ''s'' ''b'' ''q'' ''a'' (Some ''e'') ''u'' 1)) demo_start) \<noteq> []) \<and>
   (snd (perform_call plain_library flat_codec (Lifecycle_Of (Register_Proposal (demo_candidate ''http://h/'') (Some ''e'') (Some ''p'') ''u'' 2)) demo_searched) \<noteq> []) \<and>
   (snd (perform_call plain_library flat_codec (Observations (Measure ''src:http://h/'' demo_measurement None None 3)) demo_proposed) \<noteq> []) \<and>
   (scout_measurement_init demo_measurement = Inr demo_measurement) \<and>
   (snd (perform_call plain_library flat_codec (Rewards (Credit_Search ''e'' 5)) demo_measured) \<noteq> []) \<and>
   (rg_episodes (dw_registry demo_credited) \<noteq> []) \<and>
   (se_id (hd (rg_episodes (dw_registry demo_credited))) = ''e'') \<and>
   (List.map at_credited (rg_attribution (dw_registry demo_credited)) = [7])"
  by code_simp

lemma demo_graph_facts:
  "(snd (perform_call plain_library flat_codec (Lifecycle_Of (Register_Proposal (demo_candidate ''http://k/'') None (Some ''o'') ''u'' 2)) demo_proposed) \<noteq> []) \<and>
   (snd (perform_call plain_library flat_codec (Observations (Add_Edge ''src:http://h/'' ''src:http://k/'' ''enumerates'' 4)) demo_pair) \<noteq> []) \<and>
   (graph (dw_registry demo_linked) = [(''src:http://h/'', ''src:http://k/'')]) \<and>
   (map_option sc_state (candidate_at ''src:http://h/'' (dw_registry demo_rejected)) = Some S_REJECTED) \<and>
   (snd (perform_call plain_library flat_codec (Lifecycle_Of (Set_Reason ''src:http://h/'' ''x'' 5)) demo_rejected) \<noteq> [])"
  by code_simp

lemma demo_run_facts:
  "\<not> isl (move_candidate ''src:http://h/'' S_ACTIVE 4 (dw_registry demo_measured)) \<and>
   (map_option sc_state (candidate_at ''src:http://h/'' (dw_registry demo_measured)) = Some S_WARM) \<and>
   (map_option sc_state (candidate_at ''src:http://h/'' (snd (projr (move_candidate ''src:http://h/'' S_ACTIVE 4 (dw_registry demo_measured))))) = Some S_ACTIVE) \<and>
   (map_option (\<lambda>r. (sn_eed r, sn_closed r, sn_exposure r)) (get_source_run_outcome demo_run (dw_registry demo_closed)) = Some (9, True, Some ''x'')) \<and>
   (snd (perform_call plain_library flat_codec (Rewards Reset_Finals) demo_closed) \<noteq> [])"
  by code_simp

lemmas demo_facts = demo_credit_facts demo_graph_facts demo_run_facts

lemma demo_reached:
  assumes "discovery_run plain_library flat_codec hops M w" "proper_call c"
    "snd (perform_call plain_library flat_codec c w) \<noteq> []"
  shows "discovery_run plain_library flat_codec hops (add_hand (by_hand c) M) (demo_call c w)"
  using discovery_run.call [OF assms(1, 2)] assms(3) by (simp add: demo_call_def last_world_def)

lemma demo_searched_run: "discovery_run plain_library flat_codec 1 (add_hand None (\<lambda>_. 0)) demo_searched"
proof -
  have "discovery_run plain_library flat_codec 1 (\<lambda>_. 0) demo_start" unfolding demo_start_def by (rule discovery_run.start)
  moreover have "snd (perform_call plain_library flat_codec (Rewards (Begin_Search ''s'' ''b'' ''q'' ''a'' (Some ''e'') ''u'' 1)) demo_start) \<noteq> []"
    using demo_facts by blast
  ultimately show ?thesis using demo_reached [of 1 "\<lambda>_. 0" demo_start "Rewards (Begin_Search ''s'' ''b'' ''q'' ''a'' (Some ''e'') ''u'' 1)"]
    by (simp add: demo_searched_def by_hand_def proper_call_def)
qed

lemma demo_proposed_run: "discovery_run plain_library flat_codec 1 (\<lambda>_. 0) demo_proposed"
proof -
  let ?c = "Lifecycle_Of (Register_Proposal (demo_candidate ''http://h/'') (Some ''e'') (Some ''p'') ''u'' 2)"
  have "snd (perform_call plain_library flat_codec ?c demo_searched) \<noteq> []" using demo_facts by blast
  then show ?thesis using demo_reached [OF demo_searched_run, of ?c] by (simp add: demo_proposed_def by_hand_def proper_call_def add_hand_def)
qed

section \<open>Properties\<close>

text \<open>
  C34: search credit is conserved. Whatever calls were made, and wherever a crash cut one of them short, the
  accepted reward of a search episode is exactly the credit given to it by hand plus the credit of the
  sources attributed to it: replacing a scout's proxy reward by a final one, a change or a reset of the
  authority and a repeated publication move credit but neither create nor lose any.
\<close>

theorem episode_credit_conserved:
  assumes "discovery_run U E hops M w" "e \<in> set (rg_episodes (dw_registry w))"
  shows "se_accepted_eed e = M (se_id e) + (\<Sum>a\<leftarrow>rg_attribution (dw_registry w). if at_episode a = se_id e then at_credited a else 0)"
proof -
  have ok: "ledger_ok M (dw_registry w)" by (rule ledger_run [OF assms(1)])
  have "uniq se_id (rg_episodes (dw_registry w))" using ledgerD(1) [OF ok] by (simp add: uniq_def episode_ids_def)
  from episodes.find_by_key [OF this assms(2)] have "balance (se_id e) (dw_registry w) = se_accepted_eed e" by (simp add: balance_def)
  with ledgerD(4) [OF ok, of "se_id e"] show ?thesis by (simp add: credited_def)
qed

theorem episode_credit_conserved_witness:
  "rg_episodes (dw_registry demo_credited) \<noteq> [] \<and> se_accepted_eed (hd (rg_episodes (dw_registry demo_credited))) = 5 +
     (\<Sum>a\<leftarrow>rg_attribution (dw_registry demo_credited). if at_episode a = ''e'' then at_credited a else 0) \<and>
   List.map at_credited (rg_attribution (dw_registry demo_credited)) = [7]"
proof -
  let ?m = "Observations (Measure ''src:http://h/'' demo_measurement None None 3)" and ?c = "Rewards (Credit_Search ''e'' 5)"
  have m: "snd (perform_call plain_library flat_codec ?m demo_proposed) \<noteq> []" "scout_measurement_init demo_measurement = Inr demo_measurement"
    using demo_facts by blast+
  have "discovery_run plain_library flat_codec 1 (\<lambda>_. 0) demo_measured"
    using demo_reached [OF demo_proposed_run _ m(1)] m(2) by (simp add: demo_measured_def by_hand_def proper_call_def add_hand_def)
  moreover have "snd (perform_call plain_library flat_codec ?c demo_measured) \<noteq> []" using demo_facts by blast
  ultimately have run: "discovery_run plain_library flat_codec 1 ((\<lambda>_. 0)(''e'' := 5)) demo_credited"
    using demo_reached [of 1 "\<lambda>_. 0" demo_measured ?c] by (simp add: demo_credited_def by_hand_def proper_call_def add_hand_def)
  have facts: "rg_episodes (dw_registry demo_credited) \<noteq> []" "se_id (hd (rg_episodes (dw_registry demo_credited))) = ''e''"
    "List.map at_credited (rg_attribution (dw_registry demo_credited)) = [7]" using demo_facts by blast+
  from episode_credit_conserved [OF run, of "hd (rg_episodes (dw_registry demo_credited))"] facts show ?thesis by simp
qed

text \<open>
  C35: the source graph stays a bounded acyclic graph. In every reachable state no source is its own
  ancestor and no chain of edges is longer than \<open>max_graph_hops\<close>, although \<open>add_edge\<close> only looks at levels up
  to that bound.
\<close>

theorem source_graph_bounded:
  assumes "discovery_run U E hops M w"
  shows "acyclic (set (graph (dw_registry w))) \<and> (\<forall>a b n. (a, b) \<in> set (graph (dw_registry w)) ^^ n \<longrightarrow> n \<le> hops)"
  using graph_run [OF assms] bounded_acyclic [of "set (graph (dw_registry w))" hops] unfolding graph_ok_def by blast

theorem source_graph_bounded_witness:
  "graph (dw_registry demo_linked) = [(''src:http://h/'', ''src:http://k/'')] \<and> acyclic (set (graph (dw_registry demo_linked)))"
proof -
  let ?p = "Lifecycle_Of (Register_Proposal (demo_candidate ''http://k/'') None (Some ''o'') ''u'' 2)"
  let ?e = "Observations (Add_Edge ''src:http://h/'' ''src:http://k/'' ''enumerates'' 4)"
  have "snd (perform_call plain_library flat_codec ?p demo_proposed) \<noteq> []" using demo_facts by blast
  then have "discovery_run plain_library flat_codec 1 (\<lambda>_. 0) demo_pair"
    using demo_reached [OF demo_proposed_run, of ?p] by (simp add: demo_pair_def by_hand_def proper_call_def add_hand_def)
  moreover have "snd (perform_call plain_library flat_codec ?e demo_pair) \<noteq> []" using demo_facts by blast
  ultimately have "discovery_run plain_library flat_codec 1 (\<lambda>_. 0) demo_linked"
    using demo_reached [of 1 "\<lambda>_. 0" demo_pair ?e] by (simp add: demo_linked_def by_hand_def proper_call_def add_hand_def)
  from source_graph_bounded [OF this] have "acyclic (set (graph (dw_registry demo_linked)))" by blast
  moreover have "graph (dw_registry demo_linked) = [(''src:http://h/'', ''src:http://k/'')]" using demo_facts by blast
  ultimately show ?thesis by blast
qed

text \<open>
  a rejected or exhausted source stays so. No call of the registry, interrupted or not, takes a source out
  of REJECTED or EXHAUSTED, and none removes it.
\<close>

theorem settled_sources_final:
  assumes "proper_call c" "w' \<in> set (snd (perform_call U E c w))"
    and "candidate_at key (dw_registry w) = Some r" "sc_state r \<in> {S_REJECTED, S_EXHAUSTED}"
  shows "\<exists>r'. candidate_at key (dw_registry w') = Some r' \<and> sc_state r' = sc_state r"
proof -
  let ?P = "\<lambda>d. \<exists>r'. candidate_at key d = Some r' \<and> sc_state r' = sc_state r"
  have step: "?P d'" if P: "?P d" and s: "registry_step U E l d d'" for l d d'
  proof -
    obtain r1 where r1: "candidate_at key d = Some r1" "sc_state r1 = sc_state r" using P by blast
    with assms(4) have "sc_state r1 \<in> {S_REJECTED, S_EXHAUSTED}" by simp
    from settled_stays [OF r1(1) this s] r1(2) show ?thesis by simp
  qed
  have "?P (dw_registry w)" using assms(3) by simp
  from call_keeps [OF assms(1, 2), where P = ?P, OF this step] show ?thesis .
qed

theorem settled_sources_final_witness:
  "map_option sc_state (candidate_at ''src:http://h/'' (dw_registry demo_rejected)) = Some S_REJECTED \<and>
   map_option sc_state (candidate_at ''src:http://h/'' (dw_registry
     (demo_call (Lifecycle_Of (Set_Reason ''src:http://h/'' ''x'' 5)) demo_rejected))) = Some S_REJECTED"
proof -
  let ?c = "Lifecycle_Of (Set_Reason ''src:http://h/'' ''x'' 5)"
  have s: "map_option sc_state (candidate_at ''src:http://h/'' (dw_registry demo_rejected)) = Some S_REJECTED" using demo_facts by blast
  then obtain r where r: "candidate_at ''src:http://h/'' (dw_registry demo_rejected) = Some r" "sc_state r = S_REJECTED" by auto
  have "snd (perform_call plain_library flat_codec ?c demo_rejected) \<noteq> []" using demo_facts by blast
  then have "demo_call ?c demo_rejected \<in> set (snd (perform_call plain_library flat_codec ?c demo_rejected))"
    by (simp add: demo_call_def last_world_def)
  from settled_sources_final [OF _ this r(1)] r(2) s show ?thesis by (force simp: proper_call_def)
qed

text \<open>
  C36: promotion needs a measurement. A transaction that changes the state of a source moves it along the
  transition table, or claims a held source for activation, or rejects an active one; and a source becomes
  ACTIVE, or WARM after scouting, or is claimed from HOLD, only while it has been measured under the current
  authority.
\<close>

theorem promotion_needs_measurement:
  assumes "registry_step U E l d d'" "candidate_at key d = Some r" "candidate_at key d' = Some r'" "sc_state r' \<noteq> sc_state r"
  shows "(sc_state r' \<in> set (transitions_from (sc_state r)) \<or> (sc_state r, sc_state r') \<in> {(S_HOLD, S_ACTIVATING), (S_ACTIVE, S_REJECTED)}) \<and>
    (sc_state r' = S_ACTIVE \<or> (sc_state r, sc_state r') \<in> {(S_SCOUTING, S_WARM), (S_HOLD, S_ACTIVATING)} \<longrightarrow> measured_now key d)"
proof -
  have "allowed_move d key (sc_state r) (sc_state r')" using step_candidate [OF assms(2, 1)] assms(3) by simp
  with assms(4) show ?thesis unfolding allowed_move_def by blast
qed

theorem promotion_needs_measurement_witness:
  "\<exists>d'. move_candidate ''src:http://h/'' S_ACTIVE 4 (dw_registry demo_measured) = Inr ((), d') \<and>
     map_option sc_state (candidate_at ''src:http://h/'' d') = Some S_ACTIVE \<and> measured_now ''src:http://h/'' (dw_registry demo_measured)"
proof -
  let ?d = "dw_registry demo_measured" and ?k = "''src:http://h/''"
  have "\<not> isl (move_candidate ?k S_ACTIVE 4 ?d)" using demo_facts by blast
  then obtain d' where d': "move_candidate ?k S_ACTIVE 4 ?d = Inr ((), d')" by (cases "move_candidate ?k S_ACTIVE 4 ?d") auto
  have "map_option sc_state (candidate_at ?k ?d) = Some S_WARM" using demo_facts by blast
  then obtain r where r: "candidate_at ?k ?d = Some r" "sc_state r = S_WARM" by auto
  have "map_option sc_state (candidate_at ?k (snd (projr (move_candidate ?k S_ACTIVE 4 ?d)))) = Some S_ACTIVE" using demo_facts by blast
  then obtain r' where r': "candidate_at ?k d' = Some r'" "sc_state r' = S_ACTIVE" by (auto simp: d')
  have "registry_step plain_library flat_codec None ?d d'" by (rule registry_step.move [OF d'])
  from promotion_needs_measurement [OF this r(1) r'(1)] r(2) r' d' show ?thesis by simp
qed

text \<open>
  C37: a published run is frozen. Once a run with an exposure is closed, no call of the registry changes any
  column of its row.
\<close>

theorem closed_run_frozen:
  assumes "proper_call c" "w' \<in> set (snd (perform_call U E c w))"
    and "get_source_run_outcome k (dw_registry w) = Some r" "sn_closed r" "sn_exposure r \<noteq> None"
  shows "get_source_run_outcome k (dw_registry w') = Some r"
proof -
  have "closed_run k r (dw_registry w)" using assms(3-5) by (simp add: closed_run_def)
  from call_keeps [OF assms(1, 2), where P = "closed_run k r", OF this step_closed_run]
  have "closed_run k r (dw_registry w')" .
  then show ?thesis by (simp add: closed_run_def)
qed

theorem closed_run_frozen_witness:
  "map_option sn_eed (get_source_run_outcome demo_run (dw_registry demo_closed)) = Some 9 \<and>
   get_source_run_outcome demo_run (dw_registry (demo_call (Rewards Reset_Finals) demo_closed)) =
   get_source_run_outcome demo_run (dw_registry demo_closed)"
proof -
  let ?c = "Rewards Reset_Finals"
  have s: "map_option (\<lambda>r. (sn_eed r, sn_closed r, sn_exposure r)) (get_source_run_outcome demo_run (dw_registry demo_closed)) = Some (9, True, Some ''x'')"
    using demo_facts by blast
  then obtain r where r: "get_source_run_outcome demo_run (dw_registry demo_closed) = Some r" "sn_closed r" "sn_exposure r \<noteq> None" "sn_eed r = 9"
    by auto
  have "snd (perform_call plain_library flat_codec ?c demo_closed) \<noteq> []" using demo_facts by blast
  then have "demo_call ?c demo_closed \<in> set (snd (perform_call plain_library flat_codec ?c demo_closed))"
    by (simp add: demo_call_def last_world_def)
  from closed_run_frozen [OF _ this r(1-3)] r show ?thesis by (simp add: proper_call_def)
qed

end
