(* ===== verification/Source_Run_Properties.thy ===== *)
theory Source_Run_Properties
  imports Source_Properties
begin

text \<open>
  Properties of single calls of the source registry: what a published run leaves in both stores, when a late
  measurement or a recovered adapter is kept out, and two ways in which a later call undoes what an earlier
  one recorded.
\<close>

section \<open>Running a method to its result\<close>

lemma act_then_Inr:
  "act_then a f w = (Inr y, h) \<longleftrightarrow>
    (\<exists>x h1 h2. a w = (Inr x, h1) \<and> f x (last_world w h1) = (Inr y, h2) \<and> h = h1 @ h2)"
  by (auto simp: act_then_def split: sum.splits prod.splits)

lemma act_then_InrE:
  assumes "act_then a f w = (Inr y, h)"
  obtains x h1 h2 where "a w = (Inr x, h1)" "f x (last_world w h1) = (Inr y, h2)" "h = h1 @ h2"
  using assms unfolding act_then_Inr by blast

lemma act_result_simps:
  "act_read q w = (Inr x, h) \<longleftrightarrow> x = q w \<and> h = []" "act_query g w = (Inr x, h) \<longleftrightarrow> g w = Inr x \<and> h = []"
  "act_return v w = (Inr x, h) \<longleftrightarrow> x = v \<and> h = []" "act_raise e w \<noteq> (Inr x, h)"
  by (auto simp: act_read_def act_query_def act_return_def act_raise_def)

lemma in_registry_Inr:
  "in_registry t w = (Inr x, h) \<longleftrightarrow> (\<exists>d. t (dw_registry w) = Inr (x, d) \<and> h = [w\<lparr>dw_registry := d\<rparr>])"
  by (auto simp: in_registry_def act_txn_def bindr_def split: sum.splits prod.splits)

lemma in_control_Inr:
  "in_control t w = (Inr x, h) \<longleftrightarrow> (\<exists>d. t (dw_control w) = Inr (x, d) \<and> h = [w\<lparr>dw_control := d\<rparr>])"
  by (auto simp: in_control_def act_txn_def bindr_def split: sum.splits prod.splits)

lemma last_world_one [simp]: "last_world w [w'] = w'"
  by (simp add: last_world_def)

lemmas run_method = act_then_Inr act_result_simps in_registry_Inr in_control_Inr

section \<open>Closing\<close>

definition settled_exposure :: "string \<Rightarrow> rat \<Rightarrow> control_db \<Rightarrow> bool" where
  "settled_exposure i eed d \<longleftrightarrow> (\<exists>e. exposure_row i d = Some e \<and> pe_state e = E_FINAL_CLOSED \<and> pe_final_accepted_eed e = eed)"

lemma exposure_init_same: "exposure_init e = Inr e' \<Longrightarrow> e' = e"
  by (auto simp: exposure_init_def)

lemma exposure_updated:
  assumes "exposure_row i d = Some e" "pe_state e \<in> set sts" "\<And>e. pe_exposure_id (f e) = pe_exposure_id e"
  shows "exposure_row i (update_exposure i sts f d) = Some (f e)"
  using find_update_kept [of pe_exposure_id i "cd_exposures d" e f "\<lambda>e. pe_exposure_id e = i \<and> pe_state e \<in> set sts"] assms
  by (auto simp: exposure_row_def update_exposure_def dest: tbl_find_SomeD)

lemma finalize_settles:
  assumes "finalize_production_exposure i eed hy fr auth now d = Inr (True, d')"
  shows "settled_exposure i eed d'"
proof -
  obtain row where row: "exposure_row i d = Some row" using assms by (auto simp: finalize_production_exposure_def split: option.splits)
  then consider (again) "pe_state row = E_FINAL_CLOSED" "pe_final_accepted_eed row = eed" "d' = d"
    | (first) "pe_state row = E_VALIDATING" "d' = update_exposure i [E_VALIDATING]
        (\<lambda>e. (close_exposure E_FINAL_CLOSED ''finalized'' now e)\<lparr>pe_accepted_host_years := hy,
           pe_evidence_frontier := fr, pe_final_accepted_eed := eed\<rparr>) d"
    using assms by (auto simp: finalize_production_exposure_def dest!: exposure_init_same split: if_splits)
  then show ?thesis
  proof cases
    case again
    with row show ?thesis by (auto simp: settled_exposure_def)
  next
    case first
    with row show ?thesis unfolding settled_exposure_def
      by (subst first(2), subst exposure_updated [OF row]) (auto simp: close_exposure_def)
  qed
qed

lemma publish_platform_exposures:
  "publish_platform_year_final i eed hy fr now d = Inr (x, d') \<Longrightarrow> cd_exposures d' = cd_exposures d"
  by (auto simp: publish_platform_year_final_def update_harvest_def split: if_splits option.splits)

lemma finalize_first_settles:
  assumes "finalize_first k r i t1 t2 w = (Inr True, h)"
  shows "run_finished r \<and> dw_registry (last_world w h) = dw_registry w \<and> settled_exposure i (sn_eed r) (dw_control (last_world w h))"
proof -
  let ?t = "finalize_production_exposure i (sn_eed r) (sn_host_years r) (sn_max_sequence r) (run_authority k) t1"
  let ?p = "publish_platform_year_final i (sn_eed r) (sn_host_years r) (sn_max_sequence r) t2"
  have fin1: "run_finished r" using assms by (cases "run_finished r") (simp_all add: finalize_first_def act_result_simps)
  let ?cont = "\<lambda>e. case e of None \<Rightarrow> act_return False | Some e \<Rightarrow> act_then (in_control ?t) (\<lambda>ok. if \<not> ok then act_return False
      else if pe_lane e = ''platform_year'' then in_control ?p else act_return True)"
  have "finalize_first k r i t1 t2 = act_then (act_query (\<lambda>w. get_production_exposure i (dw_control w))) ?cont"
    using fin1 by (simp add: finalize_first_def)
  with assms have "act_then (act_query (\<lambda>w. get_production_exposure i (dw_control w))) ?cont w = (Inr True, h)" by (simp only:)
  from act_then_InrE [OF this] obtain e k1 k2 where q: "act_query (\<lambda>w. get_production_exposure i (dw_control w)) w = (Inr e, k1)"
    "?cont e (last_world w k1) = (Inr True, k2)" "h = k1 @ k2" .
  have "k1 = []" using q(1) by (simp add: act_result_simps)
  then have e: "?cont e w = (Inr True, h)" using q(2, 3) by (simp only: last_world_simps append_Nil)
  obtain e' where e': "e = Some e'" using e by (cases e) (simp_all add: act_result_simps)
  have "act_then (in_control ?t) (\<lambda>ok. if \<not> ok then act_return False
      else if pe_lane e' = ''platform_year'' then in_control ?p else act_return True) w = (Inr True, h)"
    using e by (simp only: e' option.case)
  from act_then_InrE [OF this] obtain ok h1 h2' where t: "in_control ?t w = (Inr ok, h1)" and rest: "(if \<not> ok then act_return False
      else if pe_lane e' = ''platform_year'' then in_control ?p else act_return True) (last_world w h1) = (Inr True, h2')" and h': "h = h1 @ h2'" .
  have ok: "ok" using rest by (cases ok) (simp_all add: act_result_simps)
  obtain d where d: "?t (dw_control w) = Inr (True, d)" "h1 = [w\<lparr>dw_control := d\<rparr>]" using t ok by (auto simp: in_control_Inr)
  have fin: "run_finished r" "?t (dw_control w) = Inr (True, d)" by fact+
  define h2 where "h2 = h2'"
  have h: "h = w\<lparr>dw_control := d\<rparr> # h2" using h' d(2) by (simp add: h2_def)
  have h2: "h2 = [] \<or> (\<exists>d2. ?p d = Inr (True, d2) \<and> h2 = [w\<lparr>dw_control := d2\<rparr>])"
    using rest ok d(2) by (cases "pe_lane e' = ''platform_year''") (auto simp: act_result_simps in_control_Inr h2_def)
  have "settled_exposure i (sn_eed r) d" by (rule finalize_settles [OF fin(2)])
  moreover have "settled_exposure i (sn_eed r) d2" if "publish_platform_year_final i (sn_eed r) (sn_host_years r) (sn_max_sequence r) t2 d = Inr (True, d2)" for d2
    using \<open>settled_exposure i (sn_eed r) d\<close> publish_platform_exposures [OF that] by (simp add: settled_exposure_def exposure_row_def)
  ultimately show ?thesis using fin(1) h h2 by (auto simp: last_world_def)
qed

lemma find_upserted: "tbl_find (\<lambda>x. key x = key r) (tbl_upsert key (\<lambda>_. r) r t) = Some r"
proof (cases "key r \<in> key ` set t")
  case True
  then have "tbl_find (\<lambda>x. key x = key r) (tbl_update (\<lambda>x. key x = key r) (\<lambda>_. r) t) = Some r"
    by (induction t) (auto simp: tbl_find_def tbl_update_def)
  with True show ?thesis by (simp add: tbl_upsert_def)
next
  case False
  then have "\<And>x. x \<in> set t \<Longrightarrow> key x \<noteq> key r" by (metis image_eqI)
  with False show ?thesis by (simp add: tbl_upsert_def tbl_find_append_new)
qed

lemma close_txn_outcome:
  assumes "close_run_txn k t1 t2 d = Inr (True, d')"
  shows "\<exists>r r' f. get_source_run_outcome k d = Some r \<and> run_finished r \<and> get_source_run_outcome k d' = Some r' \<and> sn_closed r' \<and>
    sn_eed r' = sn_eed r \<and> tbl_find (\<lambda>f. fr_source f = rk_source k) (rg_finals d') = Some f \<and>
    fr_eed f = sum_list (List.map sn_eed (closed_under (rk_source k) (run_authority k) d'))"
proof -
  let ?f = "\<lambda>r. r\<lparr>sn_closed := True, sn_closed_at := Some t1, sn_updated_at := t1\<rparr>"
  let ?d = "update_runs (open_run k) ?f d"
  obtain r where r: "get_source_run_outcome k d = Some r" "\<not> sn_closed r" "run_finished r"
    and pub: "publish_source_aggregate (rk_source k) (run_authority k) t2 ?d = Inr d'"
    using assms by (auto simp: close_run_txn_def split: option.splits if_splits)
  have k: "key_of_run r = k" using r(1) by (auto simp: get_source_run_outcome_def dest: tbl_find_SomeD)
  have upd: "get_source_run_outcome k ?d = Some (?f r)"
    using run_update [OF r(1), of ?f "open_run k"] k r(2) by (simp add: open_run_def key_of_run_def)
  then have "?f r \<in> set (rg_runs ?d)" by (auto simp: get_source_run_outcome_def dest: tbl_find_SomeD)
  then have "?f r \<in> set (closed_under (rk_source k) (run_authority k) ?d)"
    using k by (auto simp: closed_under_def key_of_run_def run_authority_def)
  then have ne: "closed_under (rk_source k) (run_authority k) ?d \<noteq> []" by force
  let ?F = "\<lparr>fr_source = rk_source k, fr_eed = sum_list (List.map sn_eed (closed_under (rk_source k) (run_authority k) ?d)),
    fr_cost = sum_list (List.map run_cost (closed_under (rk_source k) (run_authority k) ?d)), fr_baseline = Some (fst (run_authority k)),
    fr_model = Some (snd (run_authority k)), fr_closed_runs = int (length (closed_under (rk_source k) (run_authority k) ?d)),
    fr_zero_runs = int (length (filter (\<lambda>r. sn_eed r = 0) (closed_under (rk_source k) (run_authority k) ?d))), fr_updated_at = t2\<rparr>"
  have p: "publish_final ?F ?d = Inr d'" using pub ne by (simp add: publish_source_aggregate_def Let_def)
  note fr = publish_frame [OF p]
  have "closed_under (rk_source k) (run_authority k) d' = closed_under (rk_source k) (run_authority k) ?d" using fr by (simp add: closed_under_def)
  moreover have "get_source_run_outcome k d' = Some (?f r)" using upd run_cong [of d' ?d k] fr by simp
  moreover have "tbl_find (\<lambda>f. fr_source f = rk_source k) (rg_finals d') = Some ?F"
    using find_upserted [of fr_source ?F "rg_finals ?d"] fr by simp
  ultimately show ?thesis using r(1, 3) by auto
qed

text \<open>
  C38: a close publishes what it finalized. When \<open>close_source_run\<close> answers true, the run had been read and
  validated to its end and its row is closed; the FINAL reward of the source is the exact sum over its closed
  runs under this authority; and the production exposure of the run is FINAL_CLOSED in the control store with
  the same reward.
\<close>

theorem close_publishes:
  assumes "close_source_run k t1 t2 t3 t4 w = (Inr True, h)"
  shows "\<exists>r r' f. get_source_run_outcome k (dw_registry w) = Some r \<and> run_finished r \<and>
    get_source_run_outcome k (dw_registry (last_world w h)) = Some r' \<and> sn_closed r' \<and> sn_eed r' = sn_eed r \<and>
    tbl_find (\<lambda>f. fr_source f = rk_source k) (rg_finals (dw_registry (last_world w h))) = Some f \<and>
    fr_eed f = sum_list (List.map sn_eed (closed_under (rk_source k) (run_authority k) (dw_registry (last_world w h)))) \<and>
    (\<forall>i. sn_exposure r = Some i \<longrightarrow> settled_exposure i (sn_eed r) (dw_control (last_world w h)))"
proof -
  obtain r h1 d where r: "get_source_run_outcome k (dw_registry w) = Some r"
    and first: "(sn_exposure r = None \<and> h1 = []) \<or> (\<exists>i. sn_exposure r = Some i \<and> finalize_first k r i t1 t2 w = (Inr True, h1))"
    and txn: "close_run_txn k t3 t4 (dw_registry (last_world w h1)) = Inr (True, d)"
    and h: "h = h1 @ [last_world w h1\<lparr>dw_registry := d\<rparr>]"
    using assms unfolding close_source_run_def by (auto simp: run_method split: if_splits option.splits)
  have reg: "dw_registry (last_world w h1) = dw_registry w" using first finalize_first_settles by auto
  have last: "dw_registry (last_world w h) = d" "dw_control (last_world w h) = dw_control (last_world w h1)" by (simp_all add: h)
  have "\<forall>i. sn_exposure r = Some i \<longrightarrow> settled_exposure i (sn_eed r) (dw_control (last_world w h1))"
    using first finalize_first_settles by fastforce
  with close_txn_outcome [OF txn [unfolded reg]] r show ?thesis unfolding last by auto
qed

theorem close_publishes_witness:
  "\<exists>h. close_source_run demo_run 7 7 7 7 demo_ready = (Inr True, h) \<and>
     settled_exposure ''x'' 9 (dw_control (last_world demo_ready h))"
proof -
  have "fst (close_source_run demo_run 7 7 7 7 demo_ready) = Inr True" by code_simp
  then obtain h where h: "close_source_run demo_run 7 7 7 7 demo_ready = (Inr True, h)"
    by (cases "close_source_run demo_run 7 7 7 7 demo_ready") auto
  have "map_option (\<lambda>r. (sn_eed r, sn_exposure r)) (get_source_run_outcome demo_run (dw_registry demo_ready)) = Some (9, Some ''x'')" by code_simp
  with close_publishes [OF h] h show ?thesis by auto
qed

section \<open>What is kept out\<close>

text \<open>
  a late measurement keeps its distance. When the source has been measured under the current authority, a
  measurement that arrives for another authority is reported as not eligible and changes nothing: neither the
  metric, nor the sketch, nor the credit of a search.
\<close>

theorem late_measurement_ignored:
  assumes "current_scout_authority d = Some auth" "measured_under key auth d" "given = Some (b, v)" "(b, v) \<noteq> auth" "b \<noteq> []" "v \<noteq> []"
  shows "measure_source key m given now d = Inr (False, d)"
  using assms by (simp add: measure_source_def Let_def)

theorem late_measurement_ignored_witness:
  "measure_source ''k'' demo_measurement (Some (''b0'', ''m0'')) 5 ((empty_registry 1)\<lparr>rg_authority := Some (''b'', ''m'', 1), rg_metrics :=
     [\<lparr>mx_source = ''k'', mx_measurement = demo_measurement, mx_baseline = Some ''b'', mx_model = Some ''m'', mx_measured_at = 2\<rparr>]\<rparr>) =
   Inr (False, (empty_registry 1)\<lparr>rg_authority := Some (''b'', ''m'', 1), rg_metrics :=
     [\<lparr>mx_source = ''k'', mx_measurement = demo_measurement, mx_baseline = Some ''b'', mx_model = Some ''m'', mx_measured_at = 2\<rparr>]\<rparr>)"
  by (rule late_measurement_ignored [of _ "(''b'', ''m'')" _ _ "''b0''" "''m0''"])
    (simp_all add: current_scout_authority_def measured_under_def)

lemma stored_none: "stored init key t = Inr None \<Longrightarrow> tbl_find (\<lambda>r. fst r = key) t = None"
  by (auto simp: stored_def split: option.splits)

lemma put_found: "tbl_find (\<lambda>r. fst r = key) (put_observation key v now t) = Some (key, v, now)"
  using find_upserted [of fst "(key, v, now)" t] by (simp add: put_observation_def)

text \<open>
  C39: a recovered adapter never grants a year. After \<open>apply_validated_adapter_binding\<close> has made its change
  durable, the source waits for a scout with exactly the given format and layout bound to it, and the schema
  bound to it, if there is one, cannot be used as direct evidence of a year.
\<close>

theorem adapter_grants_no_year:
  assumes "w' \<in> set (snd (apply_validated_adapter_binding U key f l s expected now w))"
  shows "map_option sc_state (candidate_at key w') = Some S_SCOUT_READY \<and>
    tbl_find (\<lambda>r. fst r = key) (rg_formats w') = Some (key, f, now) \<and> tbl_find (\<lambda>r. fst r = key) (rg_layouts w') = Some (key, l, now) \<and>
    (case tbl_find (\<lambda>r. fst r = key) (rg_schemas w') of None \<Rightarrow> s = None | Some (_, x, _) \<Rightarrow> s = Some x \<and> \<not> sb_direct_year_eligible x)"
proof -
  have ok: "binding_agrees f l s" and run: "bind_adapter key f l s expected now w = Inr ((), w')"
    using assms by (auto simp: apply_validated_adapter_binding_def act_raise_def act_then_def act_txn_def read_candidate_def act_query_def
        split: if_splits sum.splits prod.splits)
  let ?f = "\<lambda>r. r\<lparr>sc_state := S_SCOUT_READY, sc_reason := [], cr_updated_at := now\<rparr>"
  obtain r where r: "candidate_at key w = Some r" using run by (cases "candidate_at key w") (simp_all add: bind_adapter_def)
  have fields: "rg_candidates w' = rg_candidates (set_candidate key ?f w)" "rg_formats w' = put_observation key f now (rg_formats w)"
    "rg_layouts w' = put_observation key l now (rg_layouts w)"
    using run r by (auto simp: bind_adapter_def set_candidate_def)
  have schema: "case s of None \<Rightarrow> rg_schemas w' = rg_schemas w \<and> tbl_find (\<lambda>r. fst r = key) (rg_schemas w) = None
    | Some x \<Rightarrow> rg_schemas w' = put_observation key (x\<lparr>sb_direct_year_eligible := False\<rparr>) now (rg_schemas w)"
    using run r by (auto simp: bind_adapter_def set_candidate_def get_schema_observation_def dest: stored_none split: option.splits)
  have "candidate_at key (set_candidate key ?f w) = Some (if key = key then ?f r else r)" by (rule candidate_set [OF r]) simp
  then have "candidate_at key w' = Some (?f r)" using candidate_cong [OF fields(1), of key] by (simp only: if_True refl)
  moreover have "case tbl_find (\<lambda>r. fst r = key) (rg_schemas w') of None \<Rightarrow> s = None | Some (_, x, _) \<Rightarrow> s = Some x \<and> \<not> sb_direct_year_eligible x"
  proof (cases s)
    case None
    with schema show ?thesis by simp
  next
    case (Some x)
    then have "\<not> sb_direct_year_eligible x" using ok by (simp add: binding_agrees_def)
    with Some schema show ?thesis by (simp add: put_found)
  qed
  ultimately show ?thesis by (simp add: fields(2, 3) put_found)
qed

definition demo_held :: registry where
  "demo_held = (empty_registry 1)\<lparr>rg_candidates := [source_candidate.extend ((demo_candidate ''http://h/'')\<lparr>sc_state := S_HOLD, sc_reason := ''x''\<rparr>)
     \<lparr>cr_key = ''k'', cr_created_at = 0, cr_updated_at = 0\<rparr>]\<rparr>"

definition demo_format :: format_observation where
  "demo_format = \<lparr>fb_parser_kind = ''jsonl'', fb_compression = ''none'', fb_detection_method = ''d'', fb_confidence = 1, fb_content_type = [],
     fb_delimiter = None, fb_policy_version = ''1''\<rparr>"

definition demo_layout :: record_layout where
  "demo_layout = \<lparr>lb_parser_kind = ''jsonl'', lb_hostname_field = ''h'', lb_delimiter = None, lb_detection_method = ''d'', lb_confidence = 1,
     lb_sample_records = 1, lb_matched_records = 1, lb_policy_version = ''1''\<rparr>"

theorem adapter_grants_no_year_witness:
  "\<exists>w'. w' \<in> set (snd (apply_validated_adapter_binding plain_library ''k'' demo_format demo_layout None ''x'' 3 demo_held)) \<and>
     map_option sc_state (candidate_at ''k'' w') = Some S_SCOUT_READY"
proof -
  let ?a = "apply_validated_adapter_binding plain_library ''k'' demo_format demo_layout None ''x'' 3 demo_held"
  have "snd ?a \<noteq> []" by code_simp
  then have "hd (snd ?a) \<in> set (snd ?a)" by (rule hd_in_set)
  with adapter_grants_no_year [OF this] show ?thesis by blast
qed

section \<open>What is undone\<close>

text \<open>
  a stale retry time lifts a later hold. A failed activation leaves a retry time that no transition clears:
  once the source is WARM again and is put on hold for any other reason, the retry of due activations finds it
  as soon as the old time has passed and makes it WARM.
\<close>

theorem hold_lifted_by_stale_retry:
  assumes "candidate_at key d = Some r" "sc_state r = S_ACTIVATING"
  shows "\<exists>d1 d2 d3 d4. fail_activation key why False seconds t0 d = Inr ((), d1) \<and> move_candidate key S_WARM t1 d1 = Inr ((), d2) \<and>
    move_candidate key S_HOLD t2 d2 = Inr ((), d3) \<and> (\<forall>now \<ge> t0 + seconds. key \<in> set (due_activations now d3)) \<and>
    move_candidate key S_WARM t3 d3 = Inr ((), d4)"
proof -
  let ?f = "\<lambda>r. r\<lparr>sc_state := S_HOLD, sc_reason := py_strip why, sc_retry_at := Some (t0 + seconds), cr_updated_at := t0\<rparr>"
  let ?g = "\<lambda>st t r. r\<lparr>sc_state := st, cr_updated_at := t\<rparr>"
  let ?d1 = "set_candidate key ?f d" let ?d2 = "set_candidate key (?g S_WARM t1) ?d1" let ?d3 = "set_candidate key (?g S_HOLD t2) ?d2"
  have c1: "candidate_at key ?d1 = Some (?f r)" using candidate_set [OF assms(1), of ?f key] by simp
  have c2: "candidate_at key ?d2 = Some (?g S_WARM t1 (?f r))" using candidate_set [OF c1, of "?g S_WARM t1" key] by simp
  have c3: "candidate_at key ?d3 = Some (?g S_HOLD t2 (?g S_WARM t1 (?f r)))" using candidate_set [OF c2, of "?g S_HOLD t2" key] by simp
  have "fail_activation key why False seconds t0 d = Inr ((), ?d1)" using assms by (simp add: fail_activation_def)
  moreover have "move_candidate key S_WARM t1 ?d1 = Inr ((), ?d2)" unfolding move_candidate_def c1 by simp
  moreover have "move_candidate key S_HOLD t2 ?d2 = Inr ((), ?d3)" unfolding move_candidate_def c2 by simp
  moreover have "\<forall>now \<ge> t0 + seconds. key \<in> set (due_activations now ?d3)"
  proof (intro allI impI)
    fix now assume now: "t0 + seconds \<le> now"
    let ?r = "?g S_HOLD t2 (?g S_WARM t1 (?f r))"
    have "?r \<in> set (rg_candidates ?d3)" "cr_key ?r = key" using c3 by (auto simp: candidate_at_def dest: tbl_find_SomeD)
    then have "key \<in> cr_key ` {x \<in> set (rg_candidates ?d3). sc_state x = S_HOLD \<and> (case sc_retry_at x of None \<Rightarrow> False | Some t \<Rightarrow> t \<le> now)}"
      using now by (intro image_eqI [of _ _ ?r]) simp_all
    then show "key \<in> set (due_activations now ?d3)" unfolding due_activations_def by simp
  qed
  moreover have "\<exists>d4. move_candidate key S_WARM t3 ?d3 = Inr ((), d4)" unfolding move_candidate_def c3 by simp
  ultimately show ?thesis by blast
qed

theorem hold_lifted_by_stale_retry_witness:
  "\<exists>d1 d2 d3 d4. fail_activation ''k'' ''timeout'' False 30 5 (set_candidate ''k'' (\<lambda>r. r\<lparr>sc_state := S_ACTIVATING\<rparr>) demo_held) = Inr ((), d1) \<and>
     move_candidate ''k'' S_WARM 40 d1 = Inr ((), d2) \<and> move_candidate ''k'' S_HOLD 41 d2 = Inr ((), d3) \<and>
     (\<forall>now \<ge> 5 + 30. ''k'' \<in> set (due_activations now d3)) \<and> move_candidate ''k'' S_WARM 42 d3 = Inr ((), d4)"
proof -
  have "map_option sc_state (candidate_at ''k'' (set_candidate ''k'' (\<lambda>r. r\<lparr>sc_state := S_ACTIVATING\<rparr>) demo_held)) = Some S_ACTIVATING"
    by code_simp
  then obtain r where "candidate_at ''k'' (set_candidate ''k'' (\<lambda>r. r\<lparr>sc_state := S_ACTIVATING\<rparr>) demo_held) = Some r" "sc_state r = S_ACTIVATING"
    by auto
  from hold_lifted_by_stale_retry [OF this] show ?thesis by blast
qed

text \<open>
  an abort can lose a finalized run. After a crash between the two transactions of \<open>close_source_run\<close> the
  exposure is FINAL_CLOSED and the run still open.  \<open>abort_source_run\<close> (and with it the recovery of the runs of
  dead leases) does not look at the answer of the control store: it marks the run ABORTED, the exposure keeps
  its final reward, and every later close of the run answers false, so the reward is never published.
\<close>

theorem finalized_run_lost:
  assumes "get_source_run_outcome k (dw_registry w) = Some r" "\<not> sn_closed r" "sn_terminal_state r = None" "sn_exposure r = Some i"
    and "exposure_row i (dw_control w) = Some e" "exposure_init e = Inr e" "pe_state e = E_FINAL_CLOSED" "authority_of e = run_authority k"
    and "\<not> blank (rk_baseline k)" "\<not> blank (rk_model k)" "\<not> blank reason" "0 \<le> t2"
    and "w' = last_world w (snd (abort_source_run k ''ABORTED'' reason t1 t2 w))"
  shows "dw_control w' = dw_control w \<and>
    (\<exists>r'. get_source_run_outcome k (dw_registry w') = Some r' \<and> sn_terminal_state r' = Some ''ABORTED'' \<and> sn_eed r' = sn_eed r) \<and>
    close_source_run k s1 s2 s3 s4 w' = (Inr False, [])"
proof -
  let ?f = "\<lambda>r. r\<lparr>sn_terminal_state := Some ''ABORTED'', sn_terminal_reason := Some (py_strip reason), sn_updated_at := t2\<rparr>"
  have a: "abort_production_exposure i E_ABORTED reason (Some (run_authority k)) t1 (dw_control w) = Inr (False, dw_control w)"
    using assms by (simp add: abort_production_exposure_def exposure_authority_def run_authority_def terminal_exposure_def closed_states_def)
  have k: "key_of_run r = k" using assms(1) by (auto simp: get_source_run_outcome_def dest: tbl_find_SomeD)
  have w': "w' = w\<lparr>dw_registry := update_runs (unfinished_run k) ?f (dw_registry w)\<rparr>"
    using assms by (simp add: abort_source_run_def act_then_def act_read_def act_return_def in_control_def in_registry_def act_txn_def
        abandoned_state_def a abandon_run_def last_world_def)
  have run: "get_source_run_outcome k (dw_registry w') = Some (?f r)"
    using run_update [OF assms(1), of ?f "unfinished_run k"] k assms(2, 3) by (simp add: w' unfinished_run_def key_of_run_def)
  have "close_source_run k s1 s2 s3 s4 w' = (Inr False, [])"
    using run by (simp add: close_source_run_def act_then_def act_read_def act_return_def)
  with run show ?thesis by (simp add: w')
qed

definition demo_interrupted :: discovery_world where
  "demo_interrupted = demo_ready\<lparr>dw_control := dw_control demo_closed\<rparr>"

theorem finalized_run_lost_witness:
  "map_option sn_eed (get_source_run_outcome demo_run (dw_registry demo_interrupted)) = Some 9 \<and>
   close_source_run demo_run 9 9 9 9 (last_world demo_interrupted (snd (abort_source_run demo_run ''ABORTED'' ''crash'' 8 8 demo_interrupted))) =
     (Inr False, [])"
proof -
  have "map_option (\<lambda>r. (sn_closed r, sn_terminal_state r, sn_exposure r, sn_eed r)) (get_source_run_outcome demo_run (dw_registry demo_interrupted)) =
      Some (False, None, Some ''x'', 9)" by code_simp
  then obtain r where r: "get_source_run_outcome demo_run (dw_registry demo_interrupted) = Some r" "\<not> sn_closed r" "sn_terminal_state r = None"
    "sn_exposure r = Some ''x''" "sn_eed r = 9" by auto
  have "map_option (\<lambda>e. (pe_state e, authority_of e, isl (exposure_init e))) (exposure_row ''x'' (dw_control demo_interrupted)) =
      Some (E_FINAL_CLOSED, run_authority demo_run, False)" by code_simp
  then obtain e where e: "exposure_row ''x'' (dw_control demo_interrupted) = Some e" "pe_state e = E_FINAL_CLOSED"
    "authority_of e = run_authority demo_run" "\<not> isl (exposure_init e)" by auto
  have "exposure_init e = Inr e" using e(4) by (cases "exposure_init e") (auto dest: exposure_init_same)
  moreover have "\<not> blank (rk_baseline demo_run)" "\<not> blank (rk_model demo_run)" "\<not> blank ''crash''" "(0 :: rat) \<le> 8" by code_simp+
  ultimately have "close_source_run demo_run 9 9 9 9
      (last_world demo_interrupted (snd (abort_source_run demo_run ''ABORTED'' ''crash'' 8 8 demo_interrupted))) = (Inr False, [])"
    using finalized_run_lost [OF r(1-4) e(1) _ e(2, 3) _ _ _ _ refl] by blast
  with r(1, 5) show ?thesis by simp
qed

end
