(* ===== verification/Baseline_Index.thy ===== *)
theory Baseline_Index
  imports Planner Hostname Tables "HOL-Library.AList"
begin

text \<open>
  The baseline: the hostnames already known for each year (\<open>authority/identity.py\<close>,
  \<open>authority/paths.py\<close>, \<open>authority/baseline_index.py\<close>).  The index is an SQLite file built from the six
  annual files and the candidate pool of a directory; each file is a stage with a durable line offset,
  and a batch of rows is committed together with the offset it reaches, so a build can be killed and
  resumed.

  A directory is its name with the contents of its files; the decoding of a text file into lines is the
  parameter \<open>L\<close>.  \<open>build\<close> returns the states it commits, in order, with the exception it ends with, if
  any: a crash leaves one of these states (or the one before) behind.  The methods of a manifest's
  \<open>Decimal\<close> are not modelled; a snapshot is the value \<open>from_manifest\<close> returns.
\<close>

section \<open>The identity of a baseline\<close>

record base_dir =
  dir_name :: string
  dir_files :: "string \<Rightarrow> string option"

record authority_snapshot =
  as_baseline_id :: string
  as_annual_hashes :: "(string \<times> string) list"
  as_candidate_hash :: string
  as_model_hash :: string
  as_baseline_eed :: string
  as_digest :: string

definition sha256_file :: "codec \<Rightarrow> base_dir \<Rightarrow> string \<Rightarrow> py_error + string" where
  "sha256_file E d name = (case dir_files d name of
     None \<Rightarrow> Inl FileNotFoundError | Some content \<Rightarrow> Inr (sha256 E content))"

text \<open>\<open>json.dumps\<close> with the default \<open>ensure_ascii=True\<close>, for an object of strings.\<close>

definition json_ascii_char :: "char \<Rightarrow> string" where
  "json_ascii_char c = (let n = (of_char c :: nat) in
     if n < 127 then json_escape_char c
     else [CHR 0x5C, CHR ''u'', CHR ''0'', CHR ''0'', hex_digit (n div 16), hex_digit (n mod 16)])"

definition json_ascii :: "string \<Rightarrow> string" where
  "json_ascii s = CHR 0x22 # concat (List.map json_ascii_char s) @ [CHR 0x22]"

definition json_strings :: "(string \<times> string) list \<Rightarrow> string" where
  "json_strings kvs = CHR ''{'' # comma_join (List.map (\<lambda>(k, v). json_ascii k @ CHR '':'' # json_ascii v)
     (sort_key fst kvs)) @ ''}''"

definition baseline_authority_digest ::
  "codec \<Rightarrow> string \<Rightarrow> (string \<times> string) list \<Rightarrow> string \<Rightarrow> string" where
  "baseline_authority_digest E baseline_id annual candidate = sha256 E (
     CHR ''{'' # comma_join
       [json_ascii ''annual_file_hashes'' @ CHR '':'' # json_strings annual,
        json_ascii ''baseline_id'' @ CHR '':'' # json_ascii baseline_id,
        json_ascii ''candidate_file_hash'' @ CHR '':'' # json_ascii candidate] @ ''}'')"

definition authority_digest ::
  "codec \<Rightarrow> string \<Rightarrow> (string \<times> string) list \<Rightarrow> string \<Rightarrow> string \<Rightarrow> string \<Rightarrow> string" where
  "authority_digest E baseline_id annual candidate model eed = sha256 E (
     CHR ''{'' # comma_join
       [json_ascii ''annual_file_hashes'' @ CHR '':'' # json_strings annual,
        json_ascii ''baseline_eed'' @ CHR '':'' # json_ascii eed,
        json_ascii ''baseline_id'' @ CHR '':'' # json_ascii baseline_id,
        json_ascii ''candidate_file_hash'' @ CHR '':'' # json_ascii candidate,
        json_ascii ''model_hash'' @ CHR '':'' # json_ascii model] @ ''}'')"

fun verify_hashes :: "codec \<Rightarrow> base_dir \<Rightarrow> (string \<times> string) list \<Rightarrow> py_error + unit" where
  "verify_hashes E d [] = Inr ()"
| "verify_hashes E d ((name, expected) # rest) =
     bindr (sha256_file E d name) (\<lambda>h. check (h = expected) ValueError (verify_hashes E d rest))"

definition verify_baseline_dir :: "codec \<Rightarrow> authority_snapshot \<Rightarrow> base_dir \<Rightarrow> py_error + unit" where
  "verify_baseline_dir E a d =
     check (dir_name d = as_baseline_id a) ValueError (
     bindr (verify_hashes E d (sort_key fst (as_annual_hashes a))) (\<lambda>_.
     bindr (sha256_file E d ''candidate_pool.txt'') (\<lambda>h.
     check (h = as_candidate_hash a) ValueError (Inr ()))))"

definition year_file :: "int \<Rightarrow> string" where
  "year_file y = dec_int y @ ''.txt''"

definition find_baseline_dir :: "base_dir list \<Rightarrow> bool \<Rightarrow> py_error + base_dir" where
  "find_baseline_dir dirs require_annual =
     (case filter (\<lambda>d. starts_with (dir_name d) ''merged'' \<and>
         (\<not> require_annual \<or> list_all (\<lambda>y. dir_files d (year_file y) \<noteq> None) competition_years))
       (sort_key dir_name dirs) of
        [] \<Rightarrow> Inl FileNotFoundError
      | [d] \<Rightarrow> Inr d
      | _ \<Rightarrow> Inl ValueError)"

section \<open>The metadata of an index\<close>

definition baseline_metadata ::
  "codec \<Rightarrow> string \<Rightarrow> (string \<times> string) list \<Rightarrow> string \<Rightarrow> (string \<times> string) list" where
  "baseline_metadata E baseline_id annual candidate =
     [(''index_schema_version'', ''baseline-index-v2''),
      (''baseline_id'', baseline_id),
      (''authority_digest'', baseline_authority_digest E baseline_id annual candidate),
      (''annual_file_hashes'', json_strings annual),
      (''candidate_file_hash'', candidate)]"

definition authority_metadata :: "codec \<Rightarrow> authority_snapshot \<Rightarrow> (string \<times> string) list" where
  "authority_metadata E a = baseline_metadata E (as_baseline_id a) (as_annual_hashes a) (as_candidate_hash a)"

definition metadata_from_dir :: "codec \<Rightarrow> base_dir \<Rightarrow> py_error + (string \<times> string) list" where
  "metadata_from_dir E d =
     bindr (collect (List.map (\<lambda>y. sha256_file E d (year_file y)) competition_years)) (\<lambda>hashes.
     bindr (sha256_file E d ''candidate_pool.txt'') (\<lambda>candidate.
     Inr (baseline_metadata E (dir_name d) (zip (List.map year_file competition_years) hashes) candidate)))"

definition dict_eq :: "('k \<times> 'v) list \<Rightarrow> ('k \<times> 'v) list \<Rightarrow> bool" where
  "dict_eq xs ys = list_all (\<lambda>k. map_of xs k = map_of ys k) (List.map fst xs @ List.map fst ys)"

definition novel_year_mask :: "int \<Rightarrow> int \<Rightarrow> int \<Rightarrow> int" where
  "novel_year_mask evidence baseline target = evidence AND NOT baseline AND target"

section \<open>The index file\<close>

record import_row =
  im_stage :: string
  im_offset :: nat
  im_completed :: bool

record index_db =
  ix_tables :: "string list"
  ix_annual :: "(string \<times> int) list"
  ix_pool :: "string list"
  ix_imports :: "import_row list"
  ix_meta :: "(string \<times> string) list"

definition empty_index :: index_db where
  "empty_index = \<lparr>ix_tables = [], ix_annual = [], ix_pool = [], ix_imports = [], ix_meta = []\<rparr>"

definition create_tables :: "string list \<Rightarrow> index_db \<Rightarrow> index_db" where
  "create_tables names db = db\<lparr>ix_tables := fold (tbl_insert_or_ignore (\<lambda>t. t)) names (ix_tables db)\<rparr>"

definition index_schema :: "string list" where
  "index_schema = [''annual_hostnames'', ''candidate_hostnames'', ''import_state'', ''authority_metadata'']"

definition put_meta :: "(string \<times> string) list \<Rightarrow> index_db \<Rightarrow> index_db" where
  "put_meta expected db = db\<lparr>ix_meta :=
     fold (\<lambda>kv. tbl_upsert fst (\<lambda>_. kv) kv) (sort_key (\<lambda>kv. kv) expected) (ix_meta db)\<rparr>"

definition index_populated :: "index_db \<Rightarrow> bool" where
  "index_populated db = (ix_annual db \<noteq> [] \<or> ix_pool db \<noteq> [] \<or> ix_imports db \<noteq> [])"

definition assert_authority :: "codec \<Rightarrow> authority_snapshot \<Rightarrow> index_db \<Rightarrow> py_error + unit" where
  "assert_authority E a db =
     check (ix_meta db \<noteq> []) ValueError (
     check (dict_eq (ix_meta db) (authority_metadata E a)) ValueError (Inr ()))"

definition index_open :: "codec \<Rightarrow> authority_snapshot option \<Rightarrow> index_db \<Rightarrow> py_error + index_db" where
  "index_open E authority db = (case authority of None \<Rightarrow> Inr db
     | Some a \<Rightarrow> bindr (assert_authority E a db) (\<lambda>_. Inr db))"

text \<open>\<open>bind_authority\<close>: an empty index shell is bound; a populated one only when it already has metadata.
  The first component is the state left behind: the table of the metadata is created in any case.\<close>

definition bind_authority ::
  "codec \<Rightarrow> authority_snapshot \<Rightarrow> index_db \<Rightarrow> index_db \<times> (py_error + index_db)" where
  "bind_authority E a db0 =
     (let db = create_tables [''authority_metadata''] db0; expected = authority_metadata E a in
      if ix_meta db \<noteq> [] \<and> \<not> dict_eq (ix_meta db) expected then (db, Inl ValueError)
      else if index_populated db \<and> ix_meta db = [] then (db, Inl ValueError)
      else let db' = put_meta expected db in (db', index_open E (Some a) db'))"

section \<open>The import of a file\<close>

datatype stage = Year_Stage int | Pool_Stage

fun stage_name :: "stage \<Rightarrow> string" where
  "stage_name (Year_Stage y) = ''year:'' @ dec_int y"
| "stage_name Pool_Stage = ''candidate_pool''"

fun stage_file :: "stage \<Rightarrow> string" where
  "stage_file (Year_Stage y) = year_file y"
| "stage_file Pool_Stage = ''candidate_pool.txt''"

fun put_host :: "stage \<Rightarrow> string \<Rightarrow> index_db \<Rightarrow> index_db" where
  "put_host (Year_Stage y) h db = db\<lparr>ix_annual :=
     tbl_upsert fst (\<lambda>(h, m). (h, m OR year_bit y)) (h, year_bit y) (ix_annual db)\<rparr>"
| "put_host Pool_Stage h db = db\<lparr>ix_pool := tbl_insert_or_ignore (\<lambda>h. h) h (ix_pool db)\<rparr>"

definition get_state :: "stage \<Rightarrow> index_db \<Rightarrow> nat \<times> bool" where
  "get_state s db = (case tbl_find (\<lambda>r. im_stage r = stage_name s) (ix_imports db) of
     None \<Rightarrow> (0, False) | Some r \<Rightarrow> (im_offset r, im_completed r))"

definition save_state :: "stage \<Rightarrow> nat \<Rightarrow> bool \<Rightarrow> index_db \<Rightarrow> index_db" where
  "save_state s offset completed db = db\<lparr>ix_imports :=
     tbl_upsert im_stage (\<lambda>r. r\<lparr>im_offset := offset, im_completed := completed\<rparr>)
       \<lparr>im_stage = stage_name s, im_offset = offset, im_completed = completed\<rparr> (ix_imports db)\<rparr>"

text \<open>The loop over the lines that are left, from line \<open>current\<close> on, with the rows of the batch under way:
  the committed states.\<close>

fun import_lines ::
  "('s \<Rightarrow> string \<Rightarrow> 'd \<Rightarrow> 'd) \<Rightarrow> ('s \<Rightarrow> nat \<Rightarrow> bool \<Rightarrow> 'd \<Rightarrow> 'd) \<Rightarrow> nat \<Rightarrow> 's \<Rightarrow> string list \<Rightarrow> nat \<Rightarrow>
    string list \<Rightarrow> 'd \<Rightarrow> 'd list" where
  "import_lines put save n s [] current batch db = [save s current True (fold (put s) batch db)]"
| "import_lines put save n s (line # lines) current batch db =
     (let batch' = (case normalize_official line of None \<Rightarrow> batch | Some v \<Rightarrow> batch @ [v]) in
      if n \<le> length batch' then
        let db' = save s (current + 1) False (fold (put s) batch' db)
        in db' # import_lines put save n s lines (current + 1) [] db'
      else import_lines put save n s lines (current + 1) batch' db)"

definition import_file ::
  "(string \<Rightarrow> string list) \<Rightarrow> nat \<Rightarrow> base_dir \<Rightarrow> stage \<Rightarrow> index_db \<Rightarrow> py_error + index_db list" where
  "import_file L n d s db =
     (case get_state s db of (offset, completed) \<Rightarrow>
      if completed then Inr []
      else case dir_files d (stage_file s) of
          None \<Rightarrow> Inl FileNotFoundError
        | Some content \<Rightarrow> Inr (import_lines put_host save_state n s (drop offset (L content)) offset [] db))"

definition import_stages :: "stage list" where
  "import_stages = List.map Year_Stage competition_years @ [Pool_Stage]"

fun run_stages ::
  "(string \<Rightarrow> string list) \<Rightarrow> nat \<Rightarrow> base_dir \<Rightarrow> stage list \<Rightarrow> index_db \<Rightarrow> index_db list \<times> py_error option" where
  "run_stages L n d [] db = ([], None)"
| "run_stages L n d (s # ss) db = (case import_file L n d s db of
     Inl e \<Rightarrow> ([], Some e)
   | Inr states \<Rightarrow> (case run_stages L n d ss (last (db # states)) of (later, e) \<Rightarrow> (states @ later, e)))"

section \<open>The build\<close>

text \<open>Which directory is read: the one that is given, the one the authority names, or the only one.\<close>

definition choose_dir ::
  "base_dir list option \<Rightarrow> base_dir option \<Rightarrow> authority_snapshot option \<Rightarrow> py_error + base_dir" where
  "choose_dir task_root baseline_dir authority =
     (case baseline_dir of Some d \<Rightarrow> Inr d
      | None \<Rightarrow> (case task_root of None \<Rightarrow> Inl ValueError
         | Some dirs \<Rightarrow> (case authority of
              Some a \<Rightarrow> (case List.find (\<lambda>d. dir_name d = as_baseline_id a) dirs of
                 Some d \<Rightarrow> Inr d | None \<Rightarrow> find_baseline_dir dirs True)
            | None \<Rightarrow> find_baseline_dir dirs True)))"

definition expected_metadata ::
  "codec \<Rightarrow> authority_snapshot option \<Rightarrow> base_dir \<Rightarrow> py_error + (string \<times> string) list" where
  "expected_metadata E authority d = (case authority of
     Some a \<Rightarrow> bindr (verify_baseline_dir E a d) (\<lambda>_. Inr (authority_metadata E a))
   | None \<Rightarrow> metadata_from_dir E d)"

definition build_checked ::
  "(string \<Rightarrow> string list) \<Rightarrow> base_dir \<Rightarrow> (string \<times> string) list \<Rightarrow> nat \<Rightarrow> index_db \<Rightarrow> index_db list \<times> py_error option" where
  "build_checked L d expected n db0 =
     (if ''hostnames'' \<in> set (ix_tables db0) \<and> ''annual_hostnames'' \<notin> set (ix_tables db0)
      then ([], Some ValueError)
      else let db = create_tables index_schema db0 in
      if ix_meta db \<noteq> [] \<and> \<not> dict_eq (ix_meta db) expected then ([db], Some ValueError)
      else if ix_meta db = [] \<and> index_populated db then ([db], Some ValueError)
      else let db' = put_meta expected db in
        case run_stages L n d import_stages db' of (states, e) \<Rightarrow> (db # db' # states, e))"

definition build ::
  "codec \<Rightarrow> (string \<Rightarrow> string list) \<Rightarrow> base_dir list option \<Rightarrow> base_dir option \<Rightarrow> authority_snapshot option \<Rightarrow>
    int \<Rightarrow> bool \<Rightarrow> index_db option \<Rightarrow> index_db list \<times> py_error option" where
  "build E L task_root baseline_dir authority batch_size resume file =
     (if batch_size < 1 then ([], Some ValueError)
      else case bindr (choose_dir task_root baseline_dir authority) (\<lambda>d.
             bindr (expected_metadata E authority d) (\<lambda>expected. Inr (d, expected))) of
        Inl e \<Rightarrow> ([], Some e)
      | Inr (d, expected) \<Rightarrow>
          if \<not> resume \<and> file \<noteq> None then ([], Some ValueError)
          else (case build_checked L d expected (nat batch_size) (case file of None \<Rightarrow> empty_index | Some db \<Rightarrow> db) of
             (states, Some e) \<Rightarrow> (states, Some e)
           | (states, None) \<Rightarrow> (case index_open E authority (last states) of
                Inl e \<Rightarrow> (states, Some e) | Inr _ \<Rightarrow> (states, None))))"

section \<open>Lookups\<close>

definition stored_mask :: "index_db \<Rightarrow> string \<Rightarrow> int" where
  "stored_mask db h = (case tbl_find (\<lambda>r. fst r = h) (ix_annual db) of None \<Rightarrow> 0 | Some r \<Rightarrow> snd r)"

definition index_year_mask :: "index_db \<Rightarrow> string \<Rightarrow> int" where
  "index_year_mask db hostname = (case normalize_official hostname of None \<Rightarrow> 0 | Some v \<Rightarrow> stored_mask db v)"

definition is_official_candidate :: "index_db \<Rightarrow> string \<Rightarrow> bool" where
  "is_official_candidate db hostname =
     (case normalize_official hostname of None \<Rightarrow> False | Some v \<Rightarrow> v \<in> set (ix_pool db))"

text \<open>\<open>resolve_batch\<close>: two queries with \<open>IN\<close> per chunk of normalized names, collected in a dictionary.\<close>

definition normalized_names :: "string list \<Rightarrow> string list" where
  "normalized_names hostnames = dedup (List.map_filter normalize_official hostnames)"

definition resolve_chunk ::
  "index_db \<Rightarrow> string list \<Rightarrow> (string \<times> int \<times> bool) list \<Rightarrow> (string \<times> int \<times> bool) list" where
  "resolve_chunk db batch result =
     (let annual = filter (\<lambda>r. fst r \<in> set batch) (ix_annual db);
          candidates = filter (\<lambda>h. h \<in> set batch) (ix_pool db)
      in fold (\<lambda>h. AList.update h (case map_of annual h of None \<Rightarrow> 0 | Some m \<Rightarrow> m, h \<in> set candidates)) batch result)"

definition resolve_batch ::
  "index_db \<Rightarrow> string list \<Rightarrow> int \<Rightarrow> py_error + (string \<times> int \<times> bool) list" where
  "resolve_batch db hostnames chunk_size =
     check (1 \<le> chunk_size \<and> chunk_size \<le> 900) ValueError
       (Inr (fold (resolve_chunk db) (chunks (nat chunk_size) (normalized_names hostnames)) []))"

definition iter_resolve_batches ::
  "index_db \<Rightarrow> string list \<Rightarrow> int \<Rightarrow> int \<Rightarrow> py_error + (string \<times> int \<times> bool) list list" where
  "iter_resolve_batches db hostnames input_batch_size chunk_size =
     check (1 \<le> input_batch_size) ValueError
       (bindr (collect (List.map (\<lambda>b. resolve_batch db b chunk_size) (chunks (nat input_batch_size) hostnames)))
         (\<lambda>rs. Inr (filter (\<lambda>r. r \<noteq> []) rs)))"

definition index_counts :: "index_db \<Rightarrow> nat \<times> nat" where
  "index_counts db = (length (ix_annual db), length (ix_pool db))"

end
