(* ===== verification/Baseline_Properties.thy ===== *)
theory Baseline_Properties
  imports Baseline_Index
begin

text \<open>
  Results about the baseline index.  The import of a file is described by the locale
  \<open>import_progress\<close>: rows that are put, a progress that is saved with them.  Its lemmas say that every
  committed state holds exactly the names of the lines before its offset; the interpretation \<open>index\<close> is
  on the tables of the model.  Above it: every state a killed build leaves behind is such a prefix of one
  baseline, and the build that finishes answers exactly what the files say.
\<close>

section \<open>Resumable imports\<close>

locale import_progress =
  fixes put :: "'s \<Rightarrow> string \<Rightarrow> 'd \<Rightarrow> 'd"
    and save :: "'s \<Rightarrow> nat \<Rightarrow> bool \<Rightarrow> 'd \<Rightarrow> 'd"
    and progress :: "'s \<Rightarrow> 'd \<Rightarrow> nat \<times> bool"
    and has :: "'d \<Rightarrow> 's \<Rightarrow> string \<Rightarrow> bool"
    and stages :: "'s set"
  assumes has_put: "s \<in> stages \<Longrightarrow> t \<in> stages \<Longrightarrow> has (put s v db) t h \<longleftrightarrow> has db t h \<or> s = t \<and> h = v"
    and has_save: "has (save s k c db) t h = has db t h"
    and progress_put: "progress t (put s v db) = progress t db"
    and progress_save: "s \<in> stages \<Longrightarrow> t \<in> stages \<Longrightarrow>
      progress t (save s k c db) = (if s = t then (k, c) else progress t db)"
begin

definition imported :: "string list \<Rightarrow> 's \<Rightarrow> 'd \<Rightarrow> bool" where
  "imported lines s db \<longleftrightarrow>
     (\<forall>h. has db s h \<longleftrightarrow> h \<in> normalize_lines (take (fst (progress s db)) lines)) \<and>
     (snd (progress s db) \<longrightarrow> length lines \<le> fst (progress s db))"

definition same_stage :: "'s \<Rightarrow> 'd \<Rightarrow> 'd \<Rightarrow> bool" where
  "same_stage t db db' \<longleftrightarrow> has db' t = has db t \<and> progress t db' = progress t db"

lemma has_fold_put:
  assumes "s \<in> stages" "t \<in> stages"
  shows "has (fold (put s) vs db) t h \<longleftrightarrow> has db t h \<or> s = t \<and> h \<in> set vs"
  by (induction vs arbitrary: db) (auto simp: has_put [OF assms])

lemma progress_fold_put: "progress t (fold (put s) vs db) = progress t db"
  by (induction vs arbitrary: db) (simp_all add: progress_put)

lemma flush_ok:
  assumes s: "s \<in> stages" "t \<in> stages"
    and db: "\<And>h. has db s h \<or> h \<in> set batch \<longleftrightarrow> h \<in> normalize_lines (take k lines)" "c \<longrightarrow> length lines \<le> k"
  shows "imported lines s (save s k c (fold (put s) batch db))"
    and "t \<noteq> s \<Longrightarrow> same_stage t db (save s k c (fold (put s) batch db))"
  using db s by (auto simp: imported_def same_stage_def has_save progress_save has_fold_put progress_fold_put fun_eq_iff)

lemma normalize_lines_step:
  assumes "line # rest = drop k lines"
  shows "normalize_lines (take (Suc k) lines) =
      (case normalize_official line of None \<Rightarrow> {} | Some v \<Rightarrow> {v}) \<union> normalize_lines (take k lines)"
    and "rest = drop (Suc k) lines"
proof -
  have "k < length lines" using assms by (metis drop_eq_Nil list.distinct(1) not_le_imp_less)
  moreover have "lines ! k = line" using assms by (metis nth_via_drop)
  ultimately have "take (Suc k) lines = take k lines @ [line]" by (simp add: take_Suc_conv_app_nth)
  then show "normalize_lines (take (Suc k) lines) =
      (case normalize_official line of None \<Rightarrow> {} | Some v \<Rightarrow> {v}) \<union> normalize_lines (take k lines)"
    by (auto simp: normalize_lines_def split: option.splits)
  show "rest = drop (Suc k) lines" using assms by (metis drop_Suc list.sel(3) tl_drop)
qed

lemma import_lines_states:
  assumes s: "s \<in> stages" "t \<in> stages"
  shows "rest = drop k lines \<Longrightarrow>
    (\<And>h. has db s h \<or> h \<in> set batch \<longleftrightarrow> h \<in> normalize_lines (take k lines)) \<Longrightarrow>
    db' \<in> set (import_lines put save n s rest k batch db) \<Longrightarrow>
    imported lines s db' \<and> (t \<noteq> s \<longrightarrow> same_stage t db db')"
proof (induction rest arbitrary: k batch db)
  case Nil
  then have "db' = save s k True (fold (put s) batch db)" "length lines \<le> k" by simp_all
  then show ?case using flush_ok [OF s Nil(2)] by blast
next
  case (Cons line rest)
  define batch' where "batch' = (case normalize_official line of None \<Rightarrow> batch | Some v \<Rightarrow> batch @ [v])"
  have all: "has db s h \<or> h \<in> set batch' \<longleftrightarrow> h \<in> normalize_lines (take (Suc k) lines)" for h
    using Cons.prems(2) [of h] normalize_lines_step(1) [OF Cons.prems(1)]
    by (auto simp: batch'_def split: option.splits)
  note rest = normalize_lines_step(2) [OF Cons.prems(1)]
  show ?case
  proof (cases "n \<le> length batch'")
    case False
    then have "db' \<in> set (import_lines put save n s rest (Suc k) batch' db)"
      using Cons.prems(3) by (simp add: batch'_def Let_def)
    from Cons.IH [OF rest all this] show ?thesis .
  next
    case True
    define db1 where "db1 = save s (Suc k) False (fold (put s) batch' db)"
    have flush: "imported lines s db1" "t \<noteq> s \<Longrightarrow> same_stage t db db1"
      using flush_ok [OF s all, of False] by (simp_all add: db1_def)
    have "db' = db1 \<or> db' \<in> set (import_lines put save n s rest (Suc k) [] db1)"
      using Cons.prems(3) True by (simp add: batch'_def db1_def Let_def)
    moreover have "has db1 s h \<or> h \<in> set [] \<longleftrightarrow> h \<in> normalize_lines (take (Suc k) lines)" for h
      using all [of h] s by (simp add: db1_def has_save has_fold_put)
    ultimately show ?thesis
      using flush Cons.IH [OF rest, of db1 "[]"] by (auto simp: same_stage_def)
  qed
qed

lemma import_lines_last:
  assumes "s \<in> stages"
  shows "import_lines put save n s rest k batch db \<noteq> [] \<and>
    snd (progress s (last (import_lines put save n s rest k batch db)))"
proof (induction rest arbitrary: k batch db)
  case (Cons line rest)
  then show ?case by (auto simp: Let_def)
qed (simp add: progress_save assms)

lemma imported_complete:
  "imported lines s db \<Longrightarrow> snd (progress s db) \<Longrightarrow> has db s h \<longleftrightarrow> h \<in> normalize_lines lines"
  by (simp add: imported_def)

lemma imported_same: "same_stage s db db' \<Longrightarrow> imported lines s db \<Longrightarrow> imported lines s db'"
  by (simp add: imported_def same_stage_def)

end

section \<open>The tables of the index\<close>

fun index_has :: "index_db \<Rightarrow> stage \<Rightarrow> string \<Rightarrow> bool" where
  "index_has db (Year_Stage y) h = year_in (stored_mask db h) y"
| "index_has db Pool_Stage h = (h \<in> set (ix_pool db))"

lemma set_import_stages: "s \<in> set import_stages \<longleftrightarrow> s = Pool_Stage \<or> (\<exists>y \<in> set competition_years. s = Year_Stage y)"
  by (auto simp: import_stages_def)

lemma stage_name_inj: "stage_name s = stage_name t \<Longrightarrow> s \<in> set import_stages \<Longrightarrow> t \<in> set import_stages \<Longrightarrow> s = t"
  by (auto simp: import_stages_def competition_years_def dec_int_def dec_digits.simps)

lemma find_mask_upsert:
  "tbl_find (\<lambda>r. fst r = h) (tbl_upsert fst (\<lambda>(h, m). (h, f m)) (v, m0) t) =
     (if h = v then Some (v, case tbl_find (\<lambda>r. fst r = v) t of None \<Rightarrow> m0 | Some r \<Rightarrow> f (snd r))
      else tbl_find (\<lambda>r. fst r = h) t)"
proof (cases "v \<in> fst ` set t")
  case True
  then have "\<exists>r. tbl_find (\<lambda>r. fst r = v) t = Some r \<and> fst r = v"
    by (induction t) (auto simp: tbl_find_def)
  then obtain m where "tbl_find (\<lambda>r. fst r = v) t = Some (v, m)" by (metis prod.collapse)
  moreover have "tbl_find (\<lambda>r. fst r = h) (tbl_update (\<lambda>x. fst x = v) (\<lambda>(h, m). (h, f m)) t) =
      (if h = v then map_option (\<lambda>(h, m). (h, f m)) (tbl_find (\<lambda>r. fst r = v) t) else tbl_find (\<lambda>r. fst r = h) t)"
    by (induction t) (auto simp: tbl_find_def tbl_update_def)
  ultimately show ?thesis using True by (simp add: tbl_upsert_def)
next
  case False
  then have "tbl_find (\<lambda>r. fst r = v) t = None" by (auto simp: tbl_find_None)
  then show ?thesis using False find_append_other [of fst "(v, m0)" t h] by (auto simp: tbl_upsert_def)
qed

lemma stored_mask_put_year:
  "stored_mask (put_host (Year_Stage y) v db) h =
     (if h = v then stored_mask db v OR year_bit y else stored_mask db h)"
  using find_mask_upsert [of h "\<lambda>m. m OR year_bit y" v "year_bit y" "ix_annual db"]
  by (auto simp: stored_mask_def split: option.splits)

lemma stored_mask_put_pool: "stored_mask (put_host Pool_Stage v db) h = stored_mask db h"
  by (simp add: stored_mask_def)

lemma pool_put: "set (ix_pool (put_host Pool_Stage v db)) = insert v (set (ix_pool db))"
  "ix_pool (put_host (Year_Stage y) v db) = ix_pool db"
  by (auto simp: tbl_insert_or_ignore_def)

lemma year_in_or_bit:
  "y \<in> set competition_years \<Longrightarrow> z \<in> set competition_years \<Longrightarrow>
     year_in (m OR year_bit y) z \<longleftrightarrow> year_in m z \<or> y = z"
  by (auto simp: year_in_def bit_or_iff year_bit_def bit_exp_iff competition_years_def)

lemma find_import_update:
  assumes m: "m \<in> im_stage ` set t"
  shows "tbl_find (\<lambda>r. im_stage r = n) (tbl_update (\<lambda>r. im_stage r = m) (\<lambda>r. r\<lparr>im_offset := k, im_completed := c\<rparr>) t) =
     (if m = n then Some \<lparr>im_stage = m, im_offset = k, im_completed = c\<rparr> else tbl_find (\<lambda>r. im_stage r = n) t)"
    (is "tbl_find _ (tbl_update _ ?f t) = _")
proof (cases "m = n")
  case False
  then have "tbl_find (\<lambda>r. im_stage r = n) (tbl_update (\<lambda>r. im_stage r = m) ?f t) = tbl_find (\<lambda>r. im_stage r = n) t"
    by (induction t) (auto simp: tbl_find_def tbl_update_def)
  with False show ?thesis by simp
next
  case True
  have f: "?f r = \<lparr>im_stage = im_stage r, im_offset = k, im_completed = c\<rparr>" for r by (cases r) simp
  have "tbl_find (\<lambda>r. im_stage r = m) (tbl_update (\<lambda>r. im_stage r = m) ?f t) = Some \<lparr>im_stage = m, im_offset = k, im_completed = c\<rparr>"
    using m by (induction t) (auto simp: tbl_find_def tbl_update_def f)
  with True show ?thesis by simp
qed

lemma get_state_save:
  assumes "s \<in> set import_stages" "t \<in> set import_stages"
  shows "get_state t (save_state s k c db) = (if s = t then (k, c) else get_state t db)"
proof -
  let ?t = "ix_imports db"
  let ?r = "\<lparr>im_stage = stage_name s, im_offset = k, im_completed = c\<rparr>"
  have "tbl_find (\<lambda>r. im_stage r = n) (tbl_upsert im_stage (\<lambda>r. r\<lparr>im_offset := k, im_completed := c\<rparr>) ?r ?t) =
      (if stage_name s = n then Some ?r else tbl_find (\<lambda>r. im_stage r = n) ?t)" for n
    using find_append_other [of im_stage ?r ?t n] find_import_update [of "stage_name s" ?t n c k]
    by (cases "stage_name s \<in> im_stage ` set ?t"; cases "stage_name s = n") (simp_all add: tbl_upsert_def)
  then show ?thesis using stage_name_inj [OF _ assms] by (auto simp: get_state_def save_state_def)
qed

interpretation index: import_progress put_host save_state get_state index_has "set import_stages"
proof unfold_locales
  fix s t v db h
  assume "s \<in> set import_stages" "t \<in> set import_stages"
  then show "index_has (put_host s v db) t h \<longleftrightarrow> index_has db t h \<or> s = t \<and> h = v"
    by (cases s; cases t)
       (auto simp: set_import_stages stored_mask_put_year stored_mask_put_pool pool_put year_in_or_bit
          simp del: put_host.simps split: if_splits)
next
  fix s k c db t h
  show "index_has (save_state s k c db) t h = index_has db t h"
    by (cases t) (simp_all add: save_state_def stored_mask_def)
next
  fix t s v db
  show "get_state t (put_host s v db) = get_state t db"
    by (cases s) (simp_all add: get_state_def)
next
  fix s t k c db
  assume "s \<in> set import_stages" "t \<in> set import_stages"
  then show "get_state t (save_state s k c db) = (if s = t then (k, c) else get_state t db)"
    by (rule get_state_save)
qed

section \<open>Every committed state is a prefix of the files\<close>

definition stage_lines :: "(string \<Rightarrow> string list) \<Rightarrow> base_dir \<Rightarrow> stage \<Rightarrow> string list" where
  "stage_lines L d s = (case dir_files d (stage_file s) of None \<Rightarrow> [] | Some content \<Rightarrow> L content)"

definition prefix_of :: "(string \<Rightarrow> string list) \<Rightarrow> base_dir \<Rightarrow> index_db \<Rightarrow> bool" where
  "prefix_of L d db \<longleftrightarrow> (\<forall>s \<in> set import_stages. index.imported (stage_lines L d s) s db) \<and>
     (\<forall>h k. bit (stored_mask db h) k \<longrightarrow> k < 6)"

definition same_frame :: "index_db \<Rightarrow> index_db \<Rightarrow> bool" where
  "same_frame db db' \<longleftrightarrow> ix_meta db' = ix_meta db \<and> ix_tables db' = ix_tables db"

lemma import_lines_keep:
  assumes put: "\<And>v db. P db \<Longrightarrow> P (put s v db)" and save: "\<And>k c db. P db \<Longrightarrow> P (save s k c db)"
  shows "P db \<Longrightarrow> db' \<in> set (import_lines put save n s rest k batch db) \<Longrightarrow> P db'"
proof (induction rest arbitrary: k batch db)
  have fold: "P db \<Longrightarrow> P (fold (put s) vs db)" for vs db by (induction vs arbitrary: db) (auto intro: put)
  {
    case Nil
    then show ?case by (auto intro: save fold)
  next
    case (Cons line rest)
    then show ?case
      by (auto simp: Let_def intro: save fold split: if_splits elim!: Cons.IH [rotated])
  }
qed

lemma bit_year_bit: "bit (year_bit y) k \<longleftrightarrow> k = nat (y - 1996)"
  by (auto simp: year_bit_def bit_exp_iff)

lemma year_bit_bound: "y \<in> set competition_years \<Longrightarrow> bit (year_bit y) k \<Longrightarrow> k < 6"
  unfolding bit_year_bit by (auto simp: competition_years_def)

lemma mask_bits_put:
  assumes "s \<in> set import_stages" "\<forall>h k. bit (stored_mask db h) k \<longrightarrow> k < 6"
  shows "\<forall>h k. bit (stored_mask (put_host s v db) h) k \<longrightarrow> k < 6"
  using assms
  by (auto simp: set_import_stages stored_mask_put_year stored_mask_put_pool bit_or_iff
      simp del: put_host.simps split: if_splits dest: year_bit_bound)

lemma import_lines_frame:
  assumes s: "s \<in> set import_stages" and bits: "\<forall>h k. bit (stored_mask db h) k \<longrightarrow> k < 6"
    and db': "db' \<in> set (import_lines put_host save_state n s rest k batch db)"
  shows "same_frame db db' \<and> (\<forall>h k. bit (stored_mask db' h) k \<longrightarrow> k < 6)"
proof (rule import_lines_keep [where P = "\<lambda>x. same_frame db x \<and> (\<forall>h k. bit (stored_mask x h) k \<longrightarrow> k < 6)", OF _ _ _ db'])
  fix v x
  assume x: "same_frame db x \<and> (\<forall>h k. bit (stored_mask x h) k \<longrightarrow> k < 6)"
  then have "same_frame db (put_host s v x)" by (cases s) (simp_all add: same_frame_def)
  with x mask_bits_put [OF s, of x v]
  show "same_frame db (put_host s v x) \<and> (\<forall>h k. bit (stored_mask (put_host s v x) h) k \<longrightarrow> k < 6)" by blast
next
  fix k c x
  assume "same_frame db x \<and> (\<forall>h k. bit (stored_mask x h) k \<longrightarrow> k < 6)"
  then show "same_frame db (save_state s k c x) \<and> (\<forall>h k'. bit (stored_mask (save_state s k c x) h) k' \<longrightarrow> k' < 6)"
    by (simp add: same_frame_def save_state_def stored_mask_def)
qed (use bits in \<open>simp add: same_frame_def\<close>)

lemma import_file_states:
  assumes s: "s \<in> set import_stages" and db: "prefix_of L d db"
    and states: "import_file L n d s db = Inr states"
  shows "\<forall>db' \<in> set states. prefix_of L d db' \<and> same_frame db db'"
    and "snd (get_state s (last (db # states)))"
    and "t \<in> set import_stages \<Longrightarrow> t \<noteq> s \<Longrightarrow> index.same_stage t db (last (db # states))"
proof -
  obtain k c where kc: "get_state s db = (k, c)" by (cases "get_state s db")
  have goal: "(\<forall>db' \<in> set states. prefix_of L d db' \<and> same_frame db db') \<and> snd (get_state s (last (db # states))) \<and>
     (\<forall>t \<in> set import_stages. t \<noteq> s \<longrightarrow> index.same_stage t db (last (db # states)))"
  proof (cases c)
    case True
    then show ?thesis using states kc by (simp add: import_file_def index.same_stage_def)
  next
    case False
    then obtain content where content: "dir_files d (stage_file s) = Some content"
      and st: "states = import_lines put_host save_state n s (drop k (L content)) k [] db"
      using states kc by (auto simp: import_file_def split: option.splits)
    have lines: "stage_lines L d s = L content" using content by (simp add: stage_lines_def)
    have start: "index_has db s h \<or> h \<in> set [] \<longleftrightarrow> h \<in> normalize_lines (take k (L content))" for h
      using db s kc by (auto simp: prefix_of_def index.imported_def lines)
    have states_ok: "index.imported (L content) s db' \<and> (t \<noteq> s \<longrightarrow> index.same_stage t db db')"
      if "db' \<in> set states" "t \<in> set import_stages" for db' t
      by (rule index.import_lines_states [OF s that(2) refl start that(1) [unfolded st]])
    have "prefix_of L d db' \<and> same_frame db db'" if db': "db' \<in> set states" for db'
    proof -
      have "index.imported (stage_lines L d t) t db'" if "t \<in> set import_stages" for t
        using states_ok [OF db' that] db that lines index.imported_same by (cases "t = s") (auto simp: prefix_of_def)
      then show ?thesis
        using import_lines_frame [OF s _ db' [unfolded st]] db by (auto simp: prefix_of_def)
    qed
    moreover have "states \<noteq> [] \<and> snd (get_state s (last states))"
      unfolding st by (rule index.import_lines_last [OF s])
    ultimately show ?thesis using states_ok by (auto dest: last_in_set)
  qed
  from goal show "\<forall>db' \<in> set states. prefix_of L d db' \<and> same_frame db db'" by blast
  from goal show "snd (get_state s (last (db # states)))" by blast
  from goal show "t \<in> set import_stages \<Longrightarrow> t \<noteq> s \<Longrightarrow> index.same_stage t db (last (db # states))" by blast
qed

lemma run_stages_states:
  "set ss \<subseteq> set import_stages \<Longrightarrow> distinct ss \<Longrightarrow> prefix_of L d db \<Longrightarrow> run_stages L n d ss db = (states, e) \<Longrightarrow>
   (\<forall>db' \<in> set states. prefix_of L d db' \<and> same_frame db db') \<and>
   (\<forall>t \<in> set import_stages - set ss. index.same_stage t db (last (db # states))) \<and>
   (e = None \<longrightarrow> (\<forall>s \<in> set ss. snd (get_state s (last (db # states))))) \<and>
   ((\<forall>s \<in> set ss. dir_files d (stage_file s) \<noteq> None) \<longrightarrow> e = None)"
proof (induction ss arbitrary: db states)
  case Nil
  then show ?case by (auto simp: index.same_stage_def)
next
  case (Cons s ss)
  have s: "s \<in> set import_stages" "s \<notin> set ss" using Cons.prems by auto
  show ?case
  proof (cases "import_file L n d s db")
    case (Inl err)
    then have "dir_files d (stage_file s) = None"
      by (auto simp: import_file_def split: prod.splits if_splits option.splits)
    then show ?thesis using Inl Cons.prems(4) s by (auto simp: index.same_stage_def)
  next
    case (Inr first)
    let ?mid = "last (db # first)"
    obtain later where later: "run_stages L n d ss ?mid = (later, e)" and st: "states = first @ later"
      using Cons.prems(4) Inr by (auto split: prod.splits)
    note one = import_file_states [OF s(1) Cons.prems(3) Inr]
    have mid: "prefix_of L d ?mid" "same_frame db ?mid" using one(1) Cons.prems(3) by (auto simp: same_frame_def)
    have lst: "last (db # states) = last (?mid # later)" by (auto simp: st)
    note IH = Cons.IH [OF _ _ mid(1) later]
    have rest: "set ss \<subseteq> set import_stages" "distinct ss" using Cons.prems by auto
    have "\<forall>db' \<in> set states. prefix_of L d db' \<and> same_frame db db'"
      using one(1) IH [OF rest] mid(2) by (auto simp: st same_frame_def)
    moreover have "index.same_stage t db (last (db # states))" if "t \<in> set import_stages - set (s # ss)" for t
      using one(3) [of t] IH [OF rest] that unfolding lst by (auto simp: index.same_stage_def)
    moreover have "snd (get_state s (last (db # states)))"
      using one(2) IH [OF rest] s unfolding lst by (auto simp: index.same_stage_def)
    ultimately show ?thesis using IH [OF rest] unfolding lst by auto
  qed
qed

section \<open>Metadata determine the files\<close>

text \<open>What \<open>hexdigest\<close> returns, and that no two files in use have the same digest.\<close>

definition hex_digests :: "codec \<Rightarrow> bool" where
  "hex_digests E \<longleftrightarrow> (\<forall>b. length (sha256 E b) = 64 \<and> (\<forall>c \<in> set (sha256 E b). is_hex_lower c))"

definition files_of :: "base_dir set \<Rightarrow> string set" where
  "files_of Ds = {content. \<exists>d \<in> Ds. \<exists>name. dir_files d name = Some content}"

lemma json_ascii_hex:
  assumes "\<forall>c \<in> set h. is_hex_lower c"
  shows "json_ascii h = CHR 0x22 # h @ [CHR 0x22]"
proof -
  have "json_ascii_char c = [c]" if "c \<in> set h" for c
    using assms that by (auto simp: json_ascii_char_def json_escape_char_def is_hex_lower_def Let_def)
  then have "concat (List.map json_ascii_char h) = h" by (induction h) (use assms in auto)
  then show ?thesis by (simp add: json_ascii_def)
qed

definition six_hashes :: "string list \<Rightarrow> (string \<times> string) list" where
  "six_hashes hs = zip (List.map year_file competition_years) hs"

lemma year_files_sorted: "sorted (List.map year_file competition_years)" "distinct (List.map year_file competition_years)"
  by (simp_all add: competition_years_def year_file_def dec_int_def dec_digits.simps less_char_def)

lemma json_strings_six:
  assumes "length hs = 6"
  shows "json_strings (six_hashes hs) = CHR ''{'' # comma_join (List.map (\<lambda>(k, v). json_ascii k @ CHR '':'' # json_ascii v) (six_hashes hs)) @ ''}''"
proof -
  have "List.map fst (six_hashes hs) = List.map year_file competition_years"
    using assms by (simp add: six_hashes_def competition_years_def)
  then have "sort_key fst (six_hashes hs) = six_hashes hs"
    using year_files_sorted by (intro sort_key_id_if_sorted) simp
  then show ?thesis by (simp add: json_strings_def)
qed

lemma json_strings_inj:
  assumes "length hs = 6" "length gs = 6"
    and hex: "\<forall>h \<in> set hs \<union> set gs. length h = 64 \<and> (\<forall>c \<in> set h. is_hex_lower c)"
    and eq: "json_strings (six_hashes hs) = json_strings (six_hashes gs)"
  shows "hs = gs"
proof -
  obtain a1 a2 a3 a4 a5 a6 where hs: "hs = [a1, a2, a3, a4, a5, a6]"
    using assms(1) by (auto simp: eval_nat_numeral length_Suc_conv)
  obtain b1 b2 b3 b4 b5 b6 where gs: "gs = [b1, b2, b3, b4, b5, b6]"
    using assms(2) by (auto simp: eval_nat_numeral length_Suc_conv)
  have len: "length a1 = length b1" "length a2 = length b2" "length a3 = length b3" "length a4 = length b4"
    "length a5 = length b5" "length a6 = length b6"
    using hex by (simp_all add: hs gs)
  show ?thesis
    using eq hex len unfolding json_strings_six [OF assms(1)] json_strings_six [OF assms(2)]
    by (simp add: hs gs six_hashes_def competition_years_def json_ascii_hex)
qed

lemma sha256_file_Inr: "sha256_file E d f = Inr h \<longleftrightarrow> (\<exists>c. dir_files d f = Some c \<and> h = sha256 E c)"
  by (auto simp: sha256_file_def split: option.splits)

lemma metadata_from_dir_Inr:
  assumes "metadata_from_dir E d = Inr md"
  obtains hs hp where "md = baseline_metadata E (dir_name d) (six_hashes hs) hp" "length hs = 6"
    "List.map (\<lambda>y. sha256_file E d (year_file y)) competition_years = List.map Inr hs"
    "sha256_file E d ''candidate_pool.txt'' = Inr hp"
proof -
  obtain hs hp where a: "List.map (\<lambda>y. sha256_file E d (year_file y)) competition_years = List.map Inr hs"
    "sha256_file E d ''candidate_pool.txt'' = Inr hp" "md = baseline_metadata E (dir_name d) (six_hashes hs) hp"
    using assms by (auto simp: metadata_from_dir_def collect_Inr six_hashes_def)
  moreover have "length hs = 6" using arg_cong [OF a(1), of length] by (simp add: competition_years_def)
  ultimately show ?thesis using that by blast
qed

lemma dict_eq_map_of: "dict_eq xs ys \<longleftrightarrow> map_of xs = map_of ys"
proof
  assume eq: "dict_eq xs ys"
  show "map_of xs = map_of ys"
  proof
    fix k
    show "map_of xs k = map_of ys k"
    proof (cases "k \<in> fst ` set xs \<union> fst ` set ys")
      case True
      with eq show ?thesis by (auto simp: dict_eq_def list_all_iff)
    next
      case False
      then have "map_of xs k = None" "map_of ys k = None" by (auto simp: map_of_eq_None_iff)
      then show ?thesis by simp
    qed
  qed
qed (simp add: dict_eq_def list_all_iff)

lemma stage_file_cases:
  "s \<in> set import_stages \<Longrightarrow> stage_file s = ''candidate_pool.txt'' \<or> stage_file s \<in> set (List.map year_file competition_years)"
  by (auto simp: set_import_stages)

lemma metadata_determines_files:
  assumes hex: "hex_digests E" and inj: "inj_on (sha256 E) (files_of Ds)" and Ds: "d \<in> Ds" "d' \<in> Ds"
    and md: "metadata_from_dir E d = Inr md" "metadata_from_dir E d' = Inr md'" and eq: "map_of md = map_of md'"
    and s: "s \<in> set import_stages"
  shows "\<exists>content. dir_files d (stage_file s) = Some content \<and> dir_files d' (stage_file s) = Some content"
proof -
  obtain hs hp where d: "md = baseline_metadata E (dir_name d) (six_hashes hs) hp" "length hs = 6"
    "List.map (\<lambda>y. sha256_file E d (year_file y)) competition_years = List.map Inr hs"
    "sha256_file E d ''candidate_pool.txt'' = Inr hp" by (rule metadata_from_dir_Inr [OF md(1)])
  obtain gs gp where d': "md' = baseline_metadata E (dir_name d') (six_hashes gs) gp" "length gs = 6"
    "List.map (\<lambda>y. sha256_file E d' (year_file y)) competition_years = List.map Inr gs"
    "sha256_file E d' ''candidate_pool.txt'' = Inr gp" by (rule metadata_from_dir_Inr [OF md(2)])
  have hexes: "\<forall>h \<in> set hs \<union> set gs. length h = 64 \<and> (\<forall>c \<in> set h. is_hex_lower c)"
  proof
    fix h assume "h \<in> set hs \<union> set gs"
    then have "Inr h \<in> (\<lambda>y. sha256_file E d (year_file y)) ` set competition_years \<union>
        (\<lambda>y. sha256_file E d' (year_file y)) ` set competition_years"
      using arg_cong [OF d(3), of set] arg_cong [OF d'(3), of set] by auto
    then have "\<exists>e y. sha256_file E e (year_file y) = Inr h" by force
    then show "length h = 64 \<and> (\<forall>c \<in> set h. is_hex_lower c)" using hex by (auto simp: sha256_file_Inr hex_digests_def)
  qed
  have "json_strings (six_hashes hs) = json_strings (six_hashes gs)" "hp = gp"
    using fun_cong [OF eq, of "''annual_file_hashes''"] fun_cong [OF eq, of "''candidate_file_hash''"]
    by (simp_all add: d(1) d'(1) baseline_metadata_def)
  then have same: "hs = gs" "hp = gp" using json_strings_inj [OF d(2) d'(2) hexes] by simp_all
  have "sha256_file E d (stage_file s) = sha256_file E d' (stage_file s) \<and> (\<exists>h. sha256_file E d (stage_file s) = Inr h)"
  proof (cases "stage_file s = ''candidate_pool.txt''")
    case True
    then show ?thesis using d(4) d'(4) same by simp
  next
    case False
    then obtain y where y: "stage_file s = year_file y" "y \<in> set competition_years" using stage_file_cases [OF s] by auto
    have eqs: "List.map (\<lambda>y. sha256_file E d (year_file y)) competition_years = List.map (\<lambda>y. sha256_file E d' (year_file y)) competition_years"
      using d(3) d'(3) same by simp
    then have "sha256_file E d (year_file y) = sha256_file E d' (year_file y)" using y(2) by (simp add: map_eq_conv)
    moreover have "sha256_file E d (year_file y) \<in> set (List.map Inr hs)" unfolding d(3) [symmetric] using y(2) by auto
    ultimately show ?thesis using y by auto
  qed
  then obtain h where "sha256_file E d (stage_file s) = Inr h" "sha256_file E d' (stage_file s) = Inr h" by metis
  then obtain c c' where c: "dir_files d (stage_file s) = Some c" "dir_files d' (stage_file s) = Some c'" "sha256 E c = sha256 E c'"
    by (auto simp: sha256_file_Inr)
  moreover have "c \<in> files_of Ds" "c' \<in> files_of Ds" using c Ds by (auto simp: files_of_def)
  ultimately show ?thesis using inj by (auto dest: inj_onD)
qed

section \<open>Authorities\<close>

text \<open>What \<open>from_manifest\<close> guarantees: one hash for each of the six annual files.\<close>

definition snapshot_ok :: "authority_snapshot \<Rightarrow> bool" where
  "snapshot_ok a \<longleftrightarrow> distinct (List.map fst (as_annual_hashes a)) \<and>
     set (List.map fst (as_annual_hashes a)) = set (List.map year_file competition_years)"

lemma verify_hashes_Inr:
  "verify_hashes E d xs = Inr u \<longleftrightarrow> (\<forall>(f, h) \<in> set xs. sha256_file E d f = Inr h)"
  by (induction E d xs rule: verify_hashes.induct) auto

lemma json_strings_sorted: "json_strings (sort_key fst xs) = json_strings xs"
  by (simp add: json_strings_def sort_key_id_if_sorted)

lemma baseline_metadata_sorted: "baseline_metadata E i (sort_key fst xs) h = baseline_metadata E i xs h"
  by (simp add: baseline_metadata_def baseline_authority_digest_def json_strings_sorted)

lemma expected_metadata_dir:
  assumes ok: "\<And>a. authority = Some a \<Longrightarrow> snapshot_ok a" and md: "expected_metadata E authority d = Inr md"
  shows "metadata_from_dir E d = Inr md"
proof (cases authority)
  case None
  with md show ?thesis by (simp add: expected_metadata_def)
next
  case (Some a)
  define xs where "xs = sort_key fst (as_annual_hashes a)"
  have v: "dir_name d = as_baseline_id a" "\<forall>(f, h) \<in> set xs. sha256_file E d f = Inr h"
    "sha256_file E d ''candidate_pool.txt'' = Inr (as_candidate_hash a)" "md = authority_metadata E a"
    using md Some by (auto simp: expected_metadata_def verify_baseline_dir_def verify_hashes_Inr xs_def)
  have keys: "List.map fst xs = List.map year_file competition_years"
  proof (rule sorted_distinct_set_unique)
    show "sorted (List.map fst xs)" by (simp add: xs_def)
    show "distinct (List.map fst xs)" using ok [OF Some]
      by (simp add: xs_def snapshot_ok_def distinct_map)
    show "set (List.map fst xs) = set (List.map year_file competition_years)"
      using ok [OF Some] by (simp add: xs_def snapshot_ok_def)
  qed (rule year_files_sorted)+
  have "List.map (sha256_file E d) (List.map fst xs) = List.map Inr (List.map snd xs)"
    using v(2) by (auto simp: map_eq_conv)
  then have "List.map (\<lambda>y. sha256_file E d (year_file y)) competition_years = List.map Inr (List.map snd xs)"
    unfolding keys by (simp add: comp_def)
  then have "collect (List.map (\<lambda>y. sha256_file E d (year_file y)) competition_years) = Inr (List.map snd xs)"
    by (simp only: collect_Inr)
  then have "metadata_from_dir E d = Inr (baseline_metadata E (dir_name d) (zip (List.map fst xs) (List.map snd xs)) (as_candidate_hash a))"
    using v(3) by (simp add: metadata_from_dir_def keys)
  then show ?thesis
    using v(1,4) baseline_metadata_sorted [of E "as_baseline_id a" "as_annual_hashes a"]
    by (simp add: zip_map_fst_snd authority_metadata_def xs_def)
qed

lemma map_of_upsert: "map_of (tbl_upsert fst (\<lambda>_. kv) kv t) = (map_of t)(fst kv \<mapsto> snd kv)"
proof (cases "fst kv \<in> fst ` set t")
  case True
  have "map_of (tbl_update (\<lambda>x. fst x = fst kv) (\<lambda>_. kv) t) k = ((map_of t)(fst kv \<mapsto> snd kv)) k"
    if "k \<noteq> fst kv \<or> fst kv \<in> fst ` set t" for k
    using that by (induction t) (force simp: tbl_update_def)+
  then show ?thesis using True by (auto simp: tbl_upsert_def)
next
  case False
  then have "map_of t (fst kv) = None" by (simp add: map_of_eq_None_iff)
  then show ?thesis using False by (cases kv) (auto simp: tbl_upsert_def map_add_def fun_eq_iff split: option.splits)
qed

lemma map_of_put_meta: "distinct (List.map fst xs) \<Longrightarrow> map_of (ix_meta (put_meta xs db)) = map_of (ix_meta db) ++ map_of xs"
proof -
  have fold: "distinct (List.map fst kvs) \<Longrightarrow>
      map_of (fold (\<lambda>kv. tbl_upsert fst (\<lambda>_. kv) kv) kvs t) = map_of t ++ map_of kvs" for kvs t
  proof (induction kvs arbitrary: t)
    case (Cons kv kvs)
    then have "map_of kvs (fst kv) = None" by (simp add: map_of_eq_None_iff)
    with Cons show ?case by (cases kv) (auto simp: map_of_upsert map_add_def fun_eq_iff split: option.splits)
  qed simp
  assume d: "distinct (List.map fst xs)"
  then have d': "distinct (List.map fst (sort_key (\<lambda>kv. kv) xs))" by (simp add: distinct_map)
  have "map_of (sort_key (\<lambda>kv. kv) xs) = map_of xs" by (rule map_of_inject_set [THEN iffD2]) (use d d' in auto)
  then show ?thesis using fold [OF d'] by (simp add: put_meta_def)
qed

lemma baseline_metadata_keys: "distinct (List.map fst (baseline_metadata E i xs h))" "baseline_metadata E i xs h \<noteq> []"
  by (simp_all add: baseline_metadata_def)

lemma map_of_put_same:
  assumes "distinct (List.map fst md)" "ix_meta db = [] \<or> map_of (ix_meta db) = map_of md"
  shows "map_of (ix_meta (put_meta md db)) = map_of md"
  using assms by (auto simp: map_of_put_meta map_add_def fun_eq_iff split: option.splits)

section \<open>Histories of an index disk\<close>

text \<open>
  A build may be killed at any committed state and may use any authority, batch size and directory of
  \<open>Ds\<close>; an index may also be bound to an authority.
\<close>

inductive index_step ::
  "codec \<Rightarrow> (string \<Rightarrow> string list) \<Rightarrow> base_dir set \<Rightarrow> index_db option \<Rightarrow> index_db option \<Rightarrow> bool"
  for E L Ds where
  killed: "build E L task_root baseline_dir authority n resume disk = (states, e) \<Longrightarrow> db \<in> set states \<Longrightarrow>
     (\<And>a. authority = Some a \<Longrightarrow> snapshot_ok a) \<Longrightarrow> (\<And>d. choose_dir task_root baseline_dir authority = Inr d \<Longrightarrow> d \<in> Ds) \<Longrightarrow>
     index_step E L Ds disk (Some db)"
| bound: "bind_authority E a (case disk of None \<Rightarrow> empty_index | Some db \<Rightarrow> db) = (db, r) \<Longrightarrow>
     index_step E L Ds disk (Some db)"

definition prefix_index :: "codec \<Rightarrow> (string \<Rightarrow> string list) \<Rightarrow> base_dir set \<Rightarrow> index_db \<Rightarrow> bool" where
  "prefix_index E L Ds db \<longleftrightarrow> ''hostnames'' \<notin> set (ix_tables db) \<and> (\<not> index_populated db \<or>
     (\<exists>d \<in> Ds. \<exists>md. metadata_from_dir E d = Inr md \<and> map_of (ix_meta db) = map_of md \<and> prefix_of L d db))"

definition file_ok :: "codec \<Rightarrow> (string \<Rightarrow> string list) \<Rightarrow> base_dir set \<Rightarrow> index_db option \<Rightarrow> bool" where
  "file_ok E L Ds disk = (case disk of None \<Rightarrow> True | Some db \<Rightarrow> prefix_index E L Ds db)"

lemma set_create_tables: "set (ix_tables (create_tables ns db)) = set (ix_tables db) \<union> set ns"
proof -
  have "set (fold (tbl_insert_or_ignore (\<lambda>t. t)) ns ts) = set ts \<union> set ns" for ts
    by (induction ns arbitrary: ts) (auto simp: tbl_insert_or_ignore_def)
  then show ?thesis by (simp add: create_tables_def)
qed

lemma create_tables_simps [simp]:
  "ix_annual (create_tables ns db) = ix_annual db" "ix_pool (create_tables ns db) = ix_pool db"
  "ix_imports (create_tables ns db) = ix_imports db" "ix_meta (create_tables ns db) = ix_meta db"
  by (simp_all add: create_tables_def)

lemma put_meta_simps [simp]:
  "ix_annual (put_meta xs db) = ix_annual db" "ix_pool (put_meta xs db) = ix_pool db"
  "ix_imports (put_meta xs db) = ix_imports db" "ix_tables (put_meta xs db) = ix_tables db"
  by (simp_all add: put_meta_def)

lemma same_rows:
  assumes "ix_annual db' = ix_annual db" "ix_pool db' = ix_pool db" "ix_imports db' = ix_imports db"
  shows "index_populated db' = index_populated db" "prefix_of L d db' = prefix_of L d db"
proof -
  have mask: "stored_mask db' = stored_mask db" by (simp add: stored_mask_def fun_eq_iff assms)
  have "index_has db' s = index_has db s" for s by (cases s) (simp_all add: fun_eq_iff mask assms)
  moreover have "get_state s db' = get_state s db" for s by (simp add: get_state_def assms)
  ultimately show "prefix_of L d db' = prefix_of L d db" by (simp add: prefix_of_def index.imported_def mask)
  show "index_populated db' = index_populated db" by (simp add: index_populated_def assms)
qed

lemma prefix_of_empty: "\<not> index_populated db \<Longrightarrow> prefix_of L d db"
  by (auto simp: prefix_of_def index.imported_def index_populated_def get_state_def stored_mask_def tbl_find_def
      set_import_stages year_in_def normalize_lines_def)

lemma prefix_same_files:
  assumes "\<And>s. s \<in> set import_stages \<Longrightarrow> dir_files d (stage_file s) = dir_files d' (stage_file s)"
  shows "prefix_of L d db = prefix_of L d' db"
  using assms by (simp add: prefix_of_def stage_lines_def)

text \<open>What the checks of a build leave: the tables are a prefix of the directory that is read.\<close>

lemma build_start:
  assumes hex: "hex_digests E" and inj: "inj_on (sha256 E) (files_of Ds)" and d: "d \<in> Ds"
    and md: "metadata_from_dir E d = Inr md"
    and ok: "prefix_index E L Ds db" and meta: "ix_meta db = [] \<longrightarrow> \<not> index_populated db"
      "ix_meta db \<noteq> [] \<longrightarrow> map_of (ix_meta db) = map_of md"
  shows "prefix_of L d db"
proof (cases "index_populated db")
  case False
  then show ?thesis by (rule prefix_of_empty)
next
  case True
  then obtain d' md' where d': "d' \<in> Ds" "metadata_from_dir E d' = Inr md'" "map_of (ix_meta db) = map_of md'"
      "prefix_of L d' db"
    using ok by (auto simp: prefix_index_def)
  have "map_of md' = map_of md" using meta True d'(3) by auto
  then have "dir_files d' (stage_file s) = dir_files d (stage_file s)" if "s \<in> set import_stages" for s
    using metadata_determines_files [OF hex inj d'(1) d d'(2) md _ that] by auto
  then show ?thesis using d'(4) prefix_same_files by blast
qed

lemma metadata_keys: "metadata_from_dir E d = Inr md \<Longrightarrow> distinct (List.map fst md) \<and> md \<noteq> []"
  by (auto simp: metadata_from_dir_def baseline_metadata_keys)

lemma build_checked_states:
  assumes hex: "hex_digests E" and inj: "inj_on (sha256 E) (files_of Ds)" and d: "d \<in> Ds"
    and md: "metadata_from_dir E d = Inr md"
    and ok: "prefix_index E L Ds db0" and b: "build_checked L d md n db0 = (states, e)"
  shows "\<forall>db \<in> set states. prefix_index E L Ds db"
    and "e = None \<Longrightarrow> states \<noteq> [] \<and> prefix_of L d (last states) \<and> map_of (ix_meta (last states)) = map_of md \<and>
           (\<forall>s \<in> set import_stages. snd (get_state s (last states)))"
    and "(ix_meta db0 = [] \<and> \<not> index_populated db0) \<or> (ix_meta db0 \<noteq> [] \<and> map_of (ix_meta db0) = map_of md) \<Longrightarrow> e = None"
proof -
  let ?db = "create_tables index_schema db0"
  let ?start = "put_meta md ?db"
  have tables: "''hostnames'' \<notin> set (ix_tables db0)" using ok by (simp add: prefix_index_def)
  have created: "prefix_index E L Ds ?db"
    using ok same_rows [of ?db db0] by (auto simp: prefix_index_def set_create_tables index_schema_def)
  note keys = metadata_keys [OF md]
  show "\<forall>db \<in> set states. prefix_index E L Ds db"
    and "e = None \<Longrightarrow> states \<noteq> [] \<and> prefix_of L d (last states) \<and> map_of (ix_meta (last states)) = map_of md \<and>
           (\<forall>s \<in> set import_stages. snd (get_state s (last states)))"
    and "(ix_meta db0 = [] \<and> \<not> index_populated db0) \<or> (ix_meta db0 \<noteq> [] \<and> map_of (ix_meta db0) = map_of md) \<Longrightarrow> e = None"
  proof (atomize (full), cases "(ix_meta db0 \<noteq> [] \<longrightarrow> dict_eq (ix_meta db0) md) \<and> (ix_meta db0 = [] \<longrightarrow> \<not> index_populated db0)")
    case False
    then have "states = [?db] \<and> e = Some ValueError"
      using b tables same_rows [of ?db db0] by (auto simp: build_checked_def Let_def)
    then show "(\<forall>db \<in> set states. prefix_index E L Ds db) \<and>
        (e = None \<longrightarrow> states \<noteq> [] \<and> prefix_of L d (last states) \<and> map_of (ix_meta (last states)) = map_of md \<and>
           (\<forall>s \<in> set import_stages. snd (get_state s (last states)))) \<and>
        ((ix_meta db0 = [] \<and> \<not> index_populated db0) \<or> (ix_meta db0 \<noteq> [] \<and> map_of (ix_meta db0) = map_of md) \<longrightarrow> e = None)"
      using created False by (auto simp: dict_eq_map_of)
  next
    case True
    have db0: "prefix_of L d db0"
      by (rule build_start [OF hex inj d md ok]) (use True in \<open>auto simp: dict_eq_map_of\<close>)
    have start: "prefix_of L d ?start" "map_of (ix_meta ?start) = map_of md"
      using db0 same_rows [of ?start db0] map_of_put_same [of md ?db] keys True by (auto simp: dict_eq_map_of)
    obtain sts where run: "run_stages L n d import_stages ?start = (sts, e)" and st: "states = ?db # ?start # sts"
      using b True tables same_rows [of ?db db0] by (auto simp: build_checked_def Let_def split: prod.splits)
    have distinct: "distinct import_stages" by (simp add: import_stages_def competition_years_def)
    note after = run_stages_states [OF order_refl distinct start(1) run]
    have files: "\<forall>s \<in> set import_stages. dir_files d (stage_file s) \<noteq> None"
      using metadata_determines_files [OF hex inj d d md md refl] by auto
    have ok_state: "prefix_index E L Ds x" if "prefix_of L d x" "same_frame ?start x" for x
      using that d md start(2) tables
      by (auto simp: prefix_index_def same_frame_def set_create_tables index_schema_def)
    have "prefix_index E L Ds ?start" using ok_state [OF start(1)] by (simp add: same_frame_def)
    then have "\<forall>db \<in> set states. prefix_index E L Ds db" using created after ok_state by (auto simp: st)
    moreover have "e = None" using after files by blast
    moreover have "last states = last (?start # sts)" by (simp add: st)
    moreover have "prefix_of L d (last (?start # sts)) \<and> same_frame ?start (last (?start # sts))"
      using after start by (auto simp: same_frame_def)
    ultimately show "(\<forall>db \<in> set states. prefix_index E L Ds db) \<and>
        (e = None \<longrightarrow> states \<noteq> [] \<and> prefix_of L d (last states) \<and> map_of (ix_meta (last states)) = map_of md \<and>
           (\<forall>s \<in> set import_stages. snd (get_state s (last states)))) \<and>
        ((ix_meta db0 = [] \<and> \<not> index_populated db0) \<or> (ix_meta db0 \<noteq> [] \<and> map_of (ix_meta db0) = map_of md) \<longrightarrow> e = None)"
      using after start(2) by (auto simp: st same_frame_def)
  qed
qed

lemma build_states:
  assumes hex: "hex_digests E" and inj: "inj_on (sha256 E) (files_of Ds)" and ok: "file_ok E L Ds disk"
    and snap: "\<And>a. authority = Some a \<Longrightarrow> snapshot_ok a"
    and dirs: "\<And>d. choose_dir task_root baseline_dir authority = Inr d \<Longrightarrow> d \<in> Ds"
    and b: "build E L task_root baseline_dir authority n resume disk = (states, e)" and db: "db \<in> set states"
  shows "prefix_index E L Ds db"
proof -
  obtain d md states' e' where d: "choose_dir task_root baseline_dir authority = Inr d"
    "expected_metadata E authority d = Inr md"
    and run: "build_checked L d md (nat n) (case disk of None \<Rightarrow> empty_index | Some db \<Rightarrow> db) = (states', e')" "states = states'"
    using b db by (auto simp: build_def split: if_splits sum.splits prod.splits option.splits)
  have "prefix_index E L Ds (case disk of None \<Rightarrow> empty_index | Some db \<Rightarrow> db)"
    using ok by (cases disk) (simp_all add: file_ok_def prefix_index_def empty_index_def index_populated_def)
  from build_checked_states(1) [OF hex inj dirs [OF d(1)] expected_metadata_dir [OF snap d(2)] this run(1)]
  show ?thesis using db run(2) by blast
qed

lemma file_ok_step:
  assumes hex: "hex_digests E" and inj: "inj_on (sha256 E) (files_of Ds)"
    and step: "index_step E L Ds disk disk'" and ok: "file_ok E L Ds disk"
  shows "file_ok E L Ds disk'"
  using step ok
proof cases
  case (killed task_root baseline_dir authority n resume states e db)
  then have "prefix_index E L Ds db" by (intro build_states [OF hex inj ok]) auto
  then show ?thesis using killed by (simp add: file_ok_def)
next
  case (bound a db r)
  define db0 where "db0 = (case disk of None \<Rightarrow> empty_index | Some db \<Rightarrow> db)"
  have db0: "prefix_index E L Ds db0"
    using ok by (cases disk) (simp_all add: db0_def file_ok_def prefix_index_def empty_index_def index_populated_def)
  let ?t = "create_tables [''authority_metadata''] db0"
  have t: "prefix_index E L Ds ?t"
    using db0 same_rows [of ?t db0] by (auto simp: prefix_index_def set_create_tables)
  consider "db = ?t" | "db = put_meta (authority_metadata E a) ?t" "\<not> index_populated ?t"
    | "db = put_meta (authority_metadata E a) ?t" "index_populated ?t" "map_of (ix_meta ?t) = map_of (authority_metadata E a)"
    using bound(2) by (auto simp: bind_authority_def db0_def Let_def dict_eq_map_of split: if_splits)
  then have "prefix_index E L Ds db"
  proof cases
    case 2
    then show ?thesis using same_rows [of db ?t] t by (auto simp: prefix_index_def)
  next
    case 3
    then have "map_of (ix_meta db) = map_of (ix_meta ?t)"
      by (simp add: map_of_put_same authority_metadata_def baseline_metadata_keys)
    then show ?thesis using 3 same_rows [of db ?t] t by (auto simp: prefix_index_def)
  qed (use t in simp)
  then show ?thesis using bound by (simp add: file_ok_def)
qed

interpretation index_file: machine "\<lambda>(E, L, Ds, disk). disk = None"
  "\<lambda>(E, L, Ds, disk) (E', L', Ds', disk'). E' = E \<and> L' = L \<and> Ds' = Ds \<and> hex_digests E \<and>
     inj_on (sha256 E) (files_of Ds) \<and> index_step E L Ds disk disk'"
  "\<lambda>(E, L, Ds, disk). file_ok E L Ds disk"
proof unfold_locales
qed (auto simp: file_ok_def [of _ _ _ None] intro: file_ok_step)


section \<open>The finished index\<close>

















section \<open>Lookups in batches\<close>

lemma dedup_normalized: "set (normalized_names hostnames) = {v. \<exists>h \<in> set hostnames. normalize_official h = Some v}"
  by (force simp: normalized_names_def List.map_filter_def)

text \<open>The rows a chunk reads with \<open>IN\<close> answer for each of its names as the scalar lookup does.\<close>

lemma map_of_in_chunk: "h \<in> set batch \<Longrightarrow> map_of (filter (\<lambda>r. fst r \<in> set batch) rows) h = map_of rows h"
  by (induction rows) auto

lemma stored_mask_map_of: "stored_mask db h = (case map_of (ix_annual db) h of None \<Rightarrow> 0 | Some m \<Rightarrow> m)"
proof -
  have "tbl_find (\<lambda>r. fst r = h) t = map_option (\<lambda>m. (h, m)) (map_of t h)" for t :: "(string \<times> int) list"
    by (induction t) (auto simp: tbl_find_def)
  then show ?thesis by (simp add: stored_mask_def split: option.splits)
qed

lemma resolve_chunk_map:
  "map_of (resolve_chunk db batch result) =
     (\<lambda>h. if h \<in> set batch then Some (stored_mask db h, h \<in> set (ix_pool db)) else map_of result h)"
proof -
  have fold: "set hs \<subseteq> set batch \<Longrightarrow>
      map_of (fold (\<lambda>h. AList.update h (case map_of (filter (\<lambda>r. fst r \<in> set batch) (ix_annual db)) h of None \<Rightarrow> 0 | Some m \<Rightarrow> m,
        h \<in> set (filter (\<lambda>h. h \<in> set batch) (ix_pool db)))) hs r) =
      (\<lambda>h. if h \<in> set hs then Some (stored_mask db h, h \<in> set (ix_pool db)) else map_of r h)" for hs r
    by (induction hs arbitrary: r) (auto simp: update_conv' map_of_in_chunk stored_mask_map_of fun_eq_iff)
  show ?thesis using fold [of batch result] by (simp add: resolve_chunk_def)
qed

lemma resolve_chunks_map:
  "map_of (fold (resolve_chunk db) cs result) =
     (\<lambda>h. if \<exists>c \<in> set cs. h \<in> set c then Some (stored_mask db h, h \<in> set (ix_pool db)) else map_of result h)"
  by (induction cs arbitrary: result) (auto simp: resolve_chunk_map fun_eq_iff)

text \<open>
  Looking up many hostnames at once agrees with looking up each: for any chunk size that is accepted,
  the answer has an entry for exactly the normalized forms of the valid names, and the entry of a name is
  its year mask and its candidate flag.
\<close>

theorem resolve_batch_agrees:
  assumes "resolve_batch db hostnames chunk_size = Inr result" and "raw \<in> set hostnames"
  shows "(case normalize_official raw of None \<Rightarrow> True
     | Some v \<Rightarrow> map_of result v = Some (index_year_mask db raw, is_official_candidate db raw)) \<and>
    fst ` set result = {v. \<exists>h \<in> set hostnames. normalize_official h = Some v}"
proof -
  have n: "1 \<le> chunk_size" and r: "result = fold (resolve_chunk db) (chunks (nat chunk_size) (normalized_names hostnames)) []"
    using assms(1) by (simp_all add: resolve_batch_def)
  have "(\<Union>c \<in> set (chunks (nat chunk_size) (normalized_names hostnames)). set c) = set (normalized_names hostnames)"
    using concat_chunks [of "nat chunk_size" "normalized_names hostnames"] n by (metis set_concat zero_less_nat_eq zless_add1_eq
        int_one_le_iff_zero_less)
  then have map: "map_of result = (\<lambda>h. if h \<in> set (normalized_names hostnames) then Some (stored_mask db h, h \<in> set (ix_pool db)) else None)"
    unfolding r resolve_chunks_map by (auto simp: fun_eq_iff)
  have "fst ` set result = dom (map_of result)" by (simp add: dom_map_of_conv_image_fst)
  also have "\<dots> = set (normalized_names hostnames)" by (auto simp: map split: if_splits)
  finally show ?thesis
    using map assms(2) by (auto simp: dedup_normalized index_year_mask_def is_official_candidate_def split: option.splits)
qed

definition demo_index :: index_db where
  "demo_index = empty_index\<lparr>ix_annual := [(''a.com'', 5)], ix_pool := [''a.com'']\<rparr>"

theorem resolve_batch_agrees_witness:
  "\<exists>result. resolve_batch demo_index [''A.com'', ''-''] 1 = Inr result \<and> map_of result ''a.com'' = Some (5, True)"
proof -
  have n: "normalize_official ''A.com'' = Some ''a.com''" by (rule demo_host)
  obtain result where r: "resolve_batch demo_index [''A.com'', ''-''] 1 = Inr result"
    by (simp add: resolve_batch_def)
  have "index_year_mask demo_index ''A.com'' = 5 \<and> is_official_candidate demo_index ''A.com''"
    by (simp add: index_year_mask_def is_official_candidate_def n demo_index_def stored_mask_def tbl_find_def)
  then show ?thesis using resolve_batch_agrees [OF r, of "''A.com''"] r n by simp
qed

end
