(* ===== verification/Spec2Isabelle.thy ===== *)
theory Spec2Isabelle
  imports Fabric_Permit_Properties Governor_Properties Scheduler_Properties Evidence_Flow
    Lease_Store_Properties Exposure_Properties Harvest_Store_Properties
    Evidence_Commit_Properties Backlog_Properties Source_Run_Properties Baseline_Properties
begin

text \<open>
  A verification library for Creeper, a program that finds historical hostnames (1996-2001) in web
  archives, proves the year of each with archive evidence, and exports the proven host-years.  The
  paths below are relative to \<open>src/src/creeper/\<close>.

  \<^bold>\<open>The program's parts and how they interact\<close>

  A local node keeps its work in one SQLite database, the control store, and its proofs in another, the
  evidence store.  Source scheduling leases a reservoir of a source (work leases), reads candidates and
  plans evidence queries for them; the queries become tasks of the durable evidence queue; workers claim
  tasks, ask a provider and commit the answer: proof to the evidence store first, attribution next, the
  state of the task last.  Platform harvests are long resumable queries with a cursor of their own, and
  production exposures account for what each unit of work cost and earned.  A resource governor and a
  credit ledger bound how much runs at once.  Admission and a router bound how many evidence tasks of a
  provider are open and spill the rest.  The registry of source discovery, a third database, keeps the
  candidate sources, their lifecycle, runs, budget episodes and graph; a closed run publishes its reward
  through an exposure of the control store.  A fabric of remote workers is coordinated by an authority
  store with leases, generations, result batches, provider permits and garbage collection.  What is
  already known comes from an index over the official baseline files.

  \<^bold>\<open>Which theory models what\<close>

  \<^item> \<open>Prelude\<close>, \<open>Tables\<close>, \<open>Visibility\<close>: results (\<open>py_error + 'a\<close>, \<open>check\<close>, \<open>bindr\<close>), tables as lists of rows
    with the statements the code uses (insert or ignore, upsert, update, delete, order by, limit), and
    three interfaces: \<open>machine\<close> (a start, a step, an invariant), \<open>keyed_table\<close> (updates that keep a key),
    and \<open>visibility\<close>, the abstract specification of leased work.
  \<^item> Fabric: \<open>Fabric_Models\<close> (\<open>distributed/identity.py\<close>, \<open>distributed/models.py\<close>), \<open>Fabric_Store\<close>,
    \<open>Fabric_Work\<close>, \<open>Fabric_Permits\<close>, \<open>Fabric_Gc\<close> (\<open>distributed/authority_store.py\<close>); histories and the
    invariant in \<open>Fabric_Invariant\<close> and \<open>Fabric_Steps\<close>; results in \<open>Fabric_Lease_Properties\<close> and
    \<open>Fabric_Permit_Properties\<close>.
  \<^item> Scheduling: \<open>Lifecycle\<close> (\<open>scheduler/leases.py\<close>, \<open>scheduler/budgets.py\<close>, \<open>sources/domains.py\<close>,
    \<open>sources/reservoirs.py\<close>), \<open>Credits\<close> (\<open>scheduler/credits.py\<close>), \<open>Governor\<close>
    (\<open>runtime/resource_governor.py\<close>), \<open>Scheduler\<close> (\<open>scheduler/priority.py\<close>, \<open>scheduler/global_scheduler.py\<close>),
    each with a theory of properties.
  \<^item> Evidence values: \<open>Hostname\<close> (\<open>authority/normalizer.py\<close>), \<open>Policies\<close> (\<open>evidence/policies.py\<close>),
    \<open>Actions\<close> (\<open>evidence/actions.py\<close>), \<open>Planner\<close> (\<open>evidence/planner.py\<close>).
  \<^item> Control store (\<open>storage/control_store.py\<close>, \<open>storage/evidence_queue.py\<close>): \<open>Evidence_Queue\<close>,
    \<open>Lease_Store\<close>, \<open>Exposure_Store\<close> and \<open>Harvest_Store\<close> over the tables of \<open>Control_Tables\<close>, with
    \<open>Exposure\<close> (\<open>runtime/exposure.py\<close>) and \<open>Platform_Harvest\<close> (\<open>evidence/platform_harvest.py\<close>); histories
    and invariants in the theories named \<open>_Invariant\<close>, results in those named \<open>_Properties\<close>, and in
    \<open>Evidence_Flow\<close> what the scheduler and the planner read from the queue (\<open>scheduler/backlog.py\<close>).
  \<^item> Evidence store: \<open>Evidence_Store\<close> (\<open>storage/evidence_store.py\<close>).
  \<^item> \<open>Transactions\<close>: actions of several transactions, the states they make durable, and the rules of
    \<open>guarded\<close> that carry an invariant through all of them.
  \<^item> Commit: \<open>Evidence_Commit\<close> (\<open>evidence/result_commit.py\<close>, \<open>storage/commit_writer.py\<close> and the attribution
    tables of the control store), an action over both databases.
  \<^item> Admission: \<open>Admission\<close> (\<open>scheduler/admission.py\<close>) and \<open>Evidence_Router\<close> (\<open>evidence/router.py\<close>) with
    \<open>Router_Properties\<close>; \<open>Fanout\<close> (domain fan-out, RDAP backfill and summaries of the control store) with
    \<open>Fanout_Properties\<close>; \<open>Backlog_Properties\<close> bounds the backlog with everything that adds tasks.
  \<^item> Source discovery (\<open>source_discovery/\<close>): \<open>Source_Url\<close> and \<open>Source_Models\<close> (\<open>models.py\<close>),
    \<open>Source_Bindings\<close> (\<open>sources/format_binding.py\<close>, \<open>layout_binding.py\<close>, \<open>schema_binding.py\<close>), \<open>Source_Registry\<close>
    (tables, episodes and authority), \<open>Source_Candidates\<close> (proposals, transitions, observations, metrics,
    suppressions), \<open>Source_Runs\<close> (runs and their close), \<open>Source_Graph\<close> (edges and the hop limit), all of
    \<open>registry.py\<close>; \<open>Source_Calls\<close> collects the calls as one step relation and \<open>Source_Ledger\<close> the rewards of
    episodes; results in \<open>Source_Properties\<close> and \<open>Source_Run_Properties\<close>.
  \<^item> Baseline: \<open>Baseline_Index\<close> (\<open>authority/baseline_index.py\<close>, \<open>authority/identity.py\<close>,
    \<open>authority/paths.py\<close>) with \<open>Baseline_Properties\<close>.

  \<^bold>\<open>How state and operations correspond to the code\<close>

  A table is the list of its rows in the order of insertion; a row is a record with a field per column.
  A method that is one transaction is a function from its arguments, the clock's reading and the tables
  to an exception or its value with the new tables, so that a rollback is the exception with nothing
  changed; where the code commits and then reads back, and the reading can raise, the model returns the
  exception together with the committed tables.  A method with several transactions is an action that
  also returns every state it makes durable on the way: these are the states a crash can leave behind.
  \<open>INSERT OR IGNORE\<close>, \<open>ON CONFLICT DO UPDATE\<close>, \<open>CHECK\<close>, foreign keys and \<open>AUTOINCREMENT\<close> (which also counts
  ignored rows) are written out.  A class with a \<open>__post_init__\<close> is a record with an \<open>_init\<close> function that
  validates and normalizes.  Floats and clock readings are exact rationals; Python's integers are \<open>int\<close>;
  strings are lists of characters below 256.  The digest, the printing of floats and random identifiers
  come from outside: \<open>codec\<close> and the uuid arguments.

  \<^bold>\<open>What the lemmas show\<close>

  Each stateful component has a relation of its steps and an invariant every step keeps (an
  interpretation of \<open>machine\<close>).  The evidence queue, the reservoirs and the harvests also refine one
  specification of leased work, tickets with a holder and a deadline (the interpretations \<open>evidence\<close>,
  \<open>sources\<close> and \<open>harvest\<close> of \<open>visibility\<close>), from which exclusivity, finality and the return of abandoned
  work follow.  The fabric's rows evolve along an order (\<open>row_le\<close>) that fences stale generations.  For
  the functions there are equivalences with plain definitions (host names against the regular
  expression, capped against plain back-off), exact characterizations of what is chosen (claims, grants,
  the export) and totality.  Across components: the capsules of a passing answer are stored before the
  task passes, a proven year is not asked again, the credit ledger is restored from the queue, and a
  source run publishes exactly what it finalized.  The registry conserves the credit of its episodes over
  every crash, and its promotions need measurements.  An index built in any number of killed builds is
  the plain reading of the baseline's files.

  \<^bold>\<open>Bounds and termination\<close>

  No definition takes fuel except the reader of pages in \<open>Evidence_Store_Properties\<close>, for which one page
  per host-year and one more is shown to be enough.  The walk over the process tree ends because it never
  visits a process twice, \<open>doublings\<close> because the quotient halves, \<open>chunks\<close> because the list gets
  shorter.  The claim window of the fabric (128 rows) and the depth at which the graph queries of
  \<open>Source_Graph\<close> stop (one level past \<open>max_graph_hops\<close>) are the code's.

  \<^bold>\<open>Not modelled\<close>

  Migrations of older database files; pragmas, connections and file handling; network clients and
  servers (\<open>distributed/*_client\<close>, \<open>http_transport\<close>, \<open>authority_api\<close>, the bridges), command lines, the
  asynchronous workers, the agents, scouts and residual search of source discovery (their results
  reach the modelled registry as arguments of its calls), the production readers of sources, the
  exporter's file formats and the readiness reports: mostly input and output around the state modelled
  here.  \<open>distributed/postgres_store.py\<close> is a second implementation of the authority store
  in PostgreSQL.  \<open>PROJECT.json\<close> lists these with the reason for each.
\<close>

end
